(* ===== verification/Prelude.thy ===== *)
theory Prelude
  imports Complex_Main "HOL-Library.Multiset" "HOL-Library.List_Lexorder" "HOL-Library.Char_ord"
    "HOL-Library.Signed_Division" "HOL-Library.AList"
begin

text \<open>
  Shared vocabulary of the development: the parts of the Go language and of its standard library
  that the components use (byte strings, truncating division, durations and instants, maps,
  decimal formatting, \<open>strings\<close> functions), the generic lemmas about them, and the collections
  of rewrite rules that the component proofs draw on.

  Conventions.
  \<^item> A Go \<open>string\<close> or \<open>[]byte\<close> is a \<^typ>\<open>string\<close>, one \<^typ>\<open>char\<close> per byte.
  \<^item> A Go \<open>int\<close>/\<open>int64\<close> that counts things is an \<^typ>\<open>int\<close>; values that are meant to wrap are words.
  \<^item> A \<open>float64\<close> is a \<^typ>\<open>real\<close>: the rounding of IEEE arithmetic is not part of the model.
  \<^item> \<open>time.Time\<close> and \<open>time.Duration\<close> are nanoseconds, as an \<^typ>\<open>int\<close>.
  \<^item> A Go map is an association list with distinct keys, in the order the keys were first stored.
    Go iterates over maps in an unspecified order, so no property may depend on that order.
\<close>

section \<open>Rewrite collections\<close>

named_theorems go_defs \<open>definitions of the Go library functions\<close>
named_theorems field_simps_of_ops \<open>which fields an operation changes and which it leaves alone\<close>

section \<open>Types\<close>

type_synonym Time = int
type_synonym Duration = int
type_synonym ('k, 'v) gomap = "('k \<times> 'v) list"

abbreviation (input) Microsecond :: Duration where "Microsecond \<equiv> 1000"
abbreviation (input) Millisecond :: Duration where "Millisecond \<equiv> 1000000"
abbreviation (input) Second :: Duration where "Second \<equiv> 1000000000"

section \<open>Instants and durations\<close>

text \<open>The zero \<open>time.Time\<close> is 1 January of year 1, counted from the Unix epoch.\<close>

definition zeroTime :: Time where
  "zeroTime = - 62135596800 * Second"

definition IsZero :: "Time \<Rightarrow> bool" where
  "IsZero t \<longleftrightarrow> t = zeroTime"

definition UnixMilli :: "Time \<Rightarrow> int" where
  "UnixMilli t = t div Millisecond"

text \<open>\<open>Milliseconds\<close> and \<open>Microseconds\<close> of a duration divide with Go's truncation.\<close>

definition Milliseconds :: "Duration \<Rightarrow> int" where
  "Milliseconds d = d sdiv Millisecond"

definition Microseconds :: "Duration \<Rightarrow> int" where
  "Microseconds d = d sdiv Microsecond"

definition Seconds :: "Duration \<Rightarrow> real" where
  "Seconds d = real_of_int d / 1000000000"

text \<open>Conversion of a float to an integer type drops the fraction.\<close>

definition trunc :: "real \<Rightarrow> int" where
  "trunc x = (if 0 \<le> x then \<lfloor>x\<rfloor> else \<lceil>x\<rceil>)"

lemma trunc_nonneg: "0 \<le> x \<Longrightarrow> 0 \<le> trunc x"
  by (simp add: trunc_def)

lemma trunc_mono: "x \<le> y \<Longrightarrow> trunc x \<le> trunc y"
proof -
  assume le: "x \<le> y"
  show ?thesis
  proof (cases "0 \<le> x")
    case True
    with le show ?thesis by (simp add: trunc_def floor_mono)
  next
    case False
    show ?thesis
    proof (cases "0 \<le> y")
      case True
      from False have "\<lceil>x\<rceil> \<le> 0" by simp
      also from True have "0 \<le> \<lfloor>y\<rfloor>" by simp
      finally show ?thesis using False True by (simp add: trunc_def)
    next
      case yneg: False
      with False le show ?thesis by (simp add: trunc_def ceiling_mono)
    qed
  qed
qed

lemma trunc_le: "0 \<le> x \<Longrightarrow> real_of_int (trunc x) \<le> x"
  by (simp add: trunc_def)

lemma trunc_gt: "x < real_of_int (trunc x) + 1"
  by (simp add: trunc_def) linarith

lemma trunc_of_int [simp]: "trunc (real_of_int n) = n"
  by (simp add: trunc_def)

text \<open>On operands that are not negative, truncating division is the mathematical one.\<close>

lemma smod_eq_mod: "0 \<le> a \<Longrightarrow> 0 \<le> b \<Longrightarrow> a smod b = a mod b" for a b :: int
  by (cases "a = 0") (simp_all add: signed_modulo_int_def)

lemma sdiv_eq_div: "0 \<le> a \<Longrightarrow> 0 \<le> b \<Longrightarrow> a sdiv b = a div b" for a b :: int
  by (cases "a = 0"; cases "b = 0") (simp_all add: signed_divide_int_def)

section \<open>Maps\<close>

text \<open>Reading, storing and counting in a Go map.\<close>

definition gget :: "('k, 'v) gomap \<Rightarrow> 'k \<Rightarrow> 'v option" where
  "gget m k = map_of m k"

fun gput :: "('k, 'v) gomap \<Rightarrow> 'k \<Rightarrow> 'v \<Rightarrow> ('k, 'v) gomap" where
  "gput [] k v = [(k, v)]"
| "gput ((k', v') # m) k v = (if k' = k then (k, v) # m else (k', v') # gput m k v)"

definition gkeys :: "('k, 'v) gomap \<Rightarrow> 'k list" where
  "gkeys m = map fst m"

definition gvalues :: "('k, 'v) gomap \<Rightarrow> 'v list" where
  "gvalues m = map snd m"

text \<open>\<open>m[k]\<close> of a map of numbers reads 0 when the key is absent, so \<open>m[k] += n\<close> is always defined.\<close>

definition gnum :: "('k, int) gomap \<Rightarrow> 'k \<Rightarrow> int" where
  "gnum m k = (case gget m k of None \<Rightarrow> 0 | Some n \<Rightarrow> n)"

definition gadd :: "('k, int) gomap \<Rightarrow> 'k \<Rightarrow> int \<Rightarrow> ('k, int) gomap" where
  "gadd m k n = gput m k (gnum m k + n)"

definition gtotal :: "('k, int) gomap \<Rightarrow> int" where
  "gtotal m = sum_list (gvalues m)"

abbreviation gmap_ok :: "('k, 'v) gomap \<Rightarrow> bool" where
  "gmap_ok m \<equiv> distinct (gkeys m)"

lemma gget_gput [simp]: "gget (gput m k v) k' = (if k' = k then Some v else gget m k')"
  by (induction m k v rule: gput.induct) (auto simp: gget_def)

lemma gget_append: "gget (m @ m') k = (case gget m k of None \<Rightarrow> gget m' k | Some v \<Rightarrow> Some v)"
  by (simp add: gget_def map_of_append map_add_def split: option.splits)

lemma gget_Nil [simp]: "gget [] k = None"
  by (simp add: gget_def)

lemma gget_Cons: "gget ((k', v) # m) k = (if k = k' then Some v else gget m k)"
  by (simp add: gget_def)

lemma gget_eq_Some_iff: "gmap_ok m \<Longrightarrow> gget m k = Some v \<longleftrightarrow> (k, v) \<in> set m"
  by (simp add: gget_def gkeys_def)

lemma gget_rev: "gmap_ok m \<Longrightarrow> gget (rev m) k = gget m k"
proof -
  assume ok: "gmap_ok m"
  then have "gmap_ok (rev m)" by (simp add: gkeys_def rev_map[symmetric])
  then have "gget (rev m) k = Some v \<longleftrightarrow> gget m k = Some v" for v
    using ok by (simp add: gget_eq_Some_iff)
  then show ?thesis by (metis option.exhaust)
qed

lemma gget_foldl_gput:
  "gget (foldl (\<lambda>m (n, v). gput m n v) m kvs) k =
    (case gget (rev kvs) k of None \<Rightarrow> gget m k | Some v \<Rightarrow> Some v)"
proof (induction kvs arbitrary: m)
  case (Cons kv kvs)
  obtain n v where "kv = (n, v)" by (cases kv) auto
  with Cons show ?case by (auto simp: gget_append gget_Cons split: option.splits)
qed simp

lemma gkeys_Nil [simp]: "gkeys [] = []"
  by (simp add: gkeys_def)

lemma gkeys_gput: "gkeys (gput m k v) = (if k \<in> set (gkeys m) then gkeys m else gkeys m @ [k])"
  by (induction m k v rule: gput.induct) (auto simp: gkeys_def)

lemma set_gkeys_gput [simp]: "set (gkeys (gput m k v)) = insert k (set (gkeys m))"
  by (auto simp: gkeys_gput)

lemma gmap_ok_gput [simp]: "gmap_ok m \<Longrightarrow> gmap_ok (gput m k v)"
  by (simp add: gkeys_gput)

lemma gmap_ok_foldl_gput: "gmap_ok m \<Longrightarrow> gmap_ok (foldl (\<lambda>m (n, v). gput m n v) m kvs)"
  by (induction kvs arbitrary: m) auto

lemma gget_None_iff: "gget m k = None \<longleftrightarrow> k \<notin> set (gkeys m)"
  by (simp add: gget_def gkeys_def map_of_eq_None_iff)

lemma gget_in_gvalues: "gget m k = Some v \<Longrightarrow> v \<in> set (gvalues m)"
  by (force simp: gget_def gvalues_def dest: map_of_SomeD)

lemma gget_in_gkeys: "gget m k = Some v \<Longrightarrow> k \<in> set (gkeys m)"
  using gget_None_iff[of m k] by auto

lemma gnum_gadd [simp]: "gnum (gadd m k n) k' = (if k' = k then gnum m k + n else gnum m k')"
  by (simp add: gadd_def gnum_def)

lemma gmap_ok_gadd [simp]: "gmap_ok m \<Longrightarrow> gmap_ok (gadd m k n)"
  by (simp add: gadd_def)

lemma set_gkeys_gadd [simp]: "set (gkeys (gadd m k n)) = insert k (set (gkeys m))"
  by (simp add: gadd_def)

text \<open>Storing under a key changes a sum over the map by the difference of the two values.\<close>

lemma sum_gput:
  fixes f :: "'v \<Rightarrow> 'a::comm_ring_1"
  assumes "gmap_ok m"
  shows "sum_list (map f (gvalues (gput m k v))) =
    sum_list (map f (gvalues m)) - (case gget m k of None \<Rightarrow> 0 | Some w \<Rightarrow> f w) + f v"
  using assms
  by (induction m k v rule: gput.induct) (auto simp: gget_def gvalues_def gkeys_def)

lemma gtotal_gput:
  "gmap_ok m \<Longrightarrow> gtotal (gput m k v) = gtotal m - gnum m k + v"
  using sum_gput[of m "\<lambda>x. x" k v] by (simp add: gtotal_def gnum_def)

lemma gtotal_gadd [simp]: "gmap_ok m \<Longrightarrow> gtotal (gadd m k n) = gtotal m + n"
  by (simp add: gadd_def gtotal_gput)

lemma gtotal_Nil [simp]: "gtotal [] = 0"
  by (simp add: gtotal_def gvalues_def)

text \<open>A property of all values survives storing a value that has it.\<close>

lemma set_gvalues_gput: "set (gvalues (gput m k v)) \<subseteq> insert v (set (gvalues m))"
  by (induction m k v rule: gput.induct) (auto simp: gvalues_def)

lemma gvalues_gput_all:
  "\<forall>w \<in> set (gvalues m). P w \<Longrightarrow> P v \<Longrightarrow> \<forall>w \<in> set (gvalues (gput m k v)). P w"
  using set_gvalues_gput[of m k v] by auto

section \<open>Strings\<close>

definition HasPrefix :: "string \<Rightarrow> string \<Rightarrow> bool" where
  "HasPrefix s p \<longleftrightarrow> take (length p) s = p"

definition HasSuffix :: "string \<Rightarrow> string \<Rightarrow> bool" where
  "HasSuffix s p \<longleftrightarrow> length p \<le> length s \<and> drop (length s - length p) s = p"

definition TrimPrefix :: "string \<Rightarrow> string \<Rightarrow> string" where
  "TrimPrefix s p = (if HasPrefix s p then drop (length p) s else s)"

fun Contains :: "string \<Rightarrow> string \<Rightarrow> bool" where
  "Contains [] p \<longleftrightarrow> p = []"
| "Contains (c # s) p \<longleftrightarrow> HasPrefix (c # s) p \<or> Contains s p"

text \<open>\<open>strings.Cut\<close>: the text before and after the first separator, and whether there was one.\<close>

fun Cut :: "string \<Rightarrow> string \<Rightarrow> string \<times> string \<times> bool" where
  "Cut [] sep = (if sep = [] then ([], [], True) else ([], [], False))"
| "Cut (c # s) sep =
     (if HasPrefix (c # s) sep then ([], drop (length sep) (c # s), True)
      else case Cut s sep of (before, after, found) \<Rightarrow> (c # before, after, found))"

text \<open>\<open>strings.ReplaceAll\<close> of a single byte.\<close>

definition ReplaceAll :: "string \<Rightarrow> char \<Rightarrow> string \<Rightarrow> string" where
  "ReplaceAll s c r = concat (map (\<lambda>d. if d = c then r else [d]) s)"

definition TrimSuffix :: "string \<Rightarrow> string \<Rightarrow> string" where
  "TrimSuffix s p = (if HasSuffix s p then take (length s - length p) s else s)"

text \<open>\<open>strings.ToLower\<close>, \<open>ToUpper\<close> and \<open>TrimSpace\<close>, on the ASCII bytes.\<close>

definition lower_char :: "char \<Rightarrow> char" where
  "lower_char c = (if CHR ''A'' \<le> c \<and> c \<le> CHR ''Z'' then char_of (of_char c + (32::nat)) else c)"

definition upper_char :: "char \<Rightarrow> char" where
  "upper_char c = (if CHR ''a'' \<le> c \<and> c \<le> CHR ''z'' then char_of (of_char c - (32::nat)) else c)"

definition ToLower :: "string \<Rightarrow> string" where "ToLower s = map lower_char s"
definition ToUpper :: "string \<Rightarrow> string" where "ToUpper s = map upper_char s"

definition EqualFold :: "string \<Rightarrow> string \<Rightarrow> bool" where
  "EqualFold s t \<longleftrightarrow> ToLower s = ToLower t"

definition space_char :: "char \<Rightarrow> bool" where
  "space_char c \<longleftrightarrow> c \<in> {CHR '' '', CHR 0x09, CHR 0x0A, CHR 0x0B, CHR 0x0C, CHR 0x0D}"

definition TrimSpace :: "string \<Rightarrow> string" where
  "TrimSpace s = rev (dropWhile space_char (rev (dropWhile space_char s)))"

fun Join :: "string list \<Rightarrow> string \<Rightarrow> string" where
  "Join [] sep = []"
| "Join [s] sep = s"
| "Join (s # t # ss) sep = s @ sep @ Join (t # ss) sep"

lemma HasPrefix_iff: "HasPrefix s p \<longleftrightarrow> (\<exists>r. s = p @ r)"
  unfolding HasPrefix_def by (metis append_eq_conv_conj append_take_drop_id)

lemma HasPrefix_append [simp]: "HasPrefix (p @ s) p"
  by (simp add: HasPrefix_def)

lemma HasPrefix_Nil [simp]: "HasPrefix s []"
  by (simp add: HasPrefix_def)

lemma TrimPrefix_append [simp]: "TrimPrefix (p @ s) p = s"
  by (simp add: TrimPrefix_def)

lemma length_ToLower [simp]: "length (ToLower s) = length s"
  by (simp add: ToLower_def)

lemma Contains_iff: "Contains s p \<longleftrightarrow> (\<exists>a b. s = a @ p @ b)"
proof (induction s)
  case Nil
  then show ?case by auto
next
  case (Cons c s)
  show ?case
  proof
    assume "Contains (c # s) p"
    then consider "HasPrefix (c # s) p" | "Contains s p" by auto
    then show "\<exists>a b. c # s = a @ p @ b"
    proof cases
      case 1
      then obtain r where "c # s = p @ r" by (auto simp: HasPrefix_iff)
      then have "c # s = [] @ p @ r" by simp
      then show ?thesis by blast
    next
      case 2
      with Cons.IH obtain a b where "s = a @ p @ b" by auto
      then have "c # s = (c # a) @ p @ b" by simp
      then show ?thesis by blast
    qed
  next
    assume "\<exists>a b. c # s = a @ p @ b"
    then obtain a b where ab: "c # s = a @ p @ b" by auto
    show "Contains (c # s) p"
    proof (cases a)
      case Nil
      with ab have "HasPrefix (c # s) p" by (auto simp: HasPrefix_iff)
      then show ?thesis by simp
    next
      case (Cons x a')
      with ab have "s = a' @ p @ b" by simp
      with Cons.IH show ?thesis by auto
    qed
  qed
qed

lemma Cut_found: "Cut s sep = (b, a, True) \<Longrightarrow> s = b @ sep @ a"
proof (induction s arbitrary: b a)
  case Nil
  then show ?case by (auto split: if_splits)
next
  case (Cons c s)
  then show ?case
    by (auto simp: HasPrefix_iff split: if_splits prod.splits)
qed

lemma Cut_not_found: "Cut s sep = (b, a, False) \<Longrightarrow> b = s \<and> a = []"
  by (induction s arbitrary: b a) (auto split: if_splits prod.splits)

lemma Cut_found_iff: "snd (snd (Cut s sep)) \<longleftrightarrow> Contains s sep"
  by (induction s) (auto split: prod.splits)

lemma Cut_single:
  "c \<notin> set b \<Longrightarrow> Cut (b @ c # a) [c] = (b, a, True)"
  by (induction b) (auto simp: HasPrefix_def)

lemma Cut_char:
  "Cut s [c] = (b, a, found) \<Longrightarrow> c \<notin> set b \<and> s = b @ (if found then c # a else [])"
  by (induction s arbitrary: b a) (auto simp: HasPrefix_def split: if_splits prod.splits)

lemma set_TrimSpace: "set (TrimSpace s) \<subseteq> set s"
proof -
  have "set (dropWhile space_char t) \<subseteq> set t" for t by (auto dest: set_dropWhileD)
  then show ?thesis unfolding TrimSpace_def by (metis set_rev subset_trans)
qed

section \<open>Decimal numbers\<close>

definition digit_char :: "nat \<Rightarrow> char" where
  "digit_char d = char_of (48 + d)"

lemma digit_char_simps [simp]:
  "digit_char 0 = CHR ''0''" "digit_char 1 = CHR ''1''" "digit_char (Suc 0) = CHR ''1''"
  "digit_char 2 = CHR ''2''" "digit_char 3 = CHR ''3''" "digit_char 4 = CHR ''4''"
  "digit_char 5 = CHR ''5''" "digit_char 6 = CHR ''6''" "digit_char 7 = CHR ''7''"
  "digit_char 8 = CHR ''8''" "digit_char 9 = CHR ''9''"
  by code_simp+

definition is_digit :: "char \<Rightarrow> bool" where
  "is_digit c \<longleftrightarrow> CHR ''0'' \<le> c \<and> c \<le> CHR ''9''"

definition digit_value :: "char \<Rightarrow> nat" where
  "digit_value c = of_char c - 48"

fun show_nat :: "nat \<Rightarrow> string" where
  "show_nat n = (if n < 10 then [digit_char n] else show_nat (n div 10) @ [digit_char (n mod 10)])"

declare show_nat.simps [simp del]

text \<open>The \<open>%d\<close> verb of \<open>fmt\<close>, also \<open>strconv.Itoa\<close> and \<open>strconv.FormatInt\<close> in base 10.\<close>

definition fmt_d :: "int \<Rightarrow> string" where
  "fmt_d n = (if n < 0 then ''-'' @ show_nat (nat (- n)) else show_nat (nat n))"

definition read_nat :: "string \<Rightarrow> nat" where
  "read_nat s = foldl (\<lambda>acc c. 10 * acc + digit_value c) 0 s"

lemma of_char_digit_char: "d < 10 \<Longrightarrow> of_char (digit_char d) = (48 + d :: nat)"
  by (simp add: digit_char_def)

lemma digit_value_digit_char [simp]: "d < 10 \<Longrightarrow> digit_value (digit_char d) = d"
  by (simp add: digit_value_def of_char_digit_char)

lemma is_digit_digit_char [simp]: "d < 10 \<Longrightarrow> is_digit (digit_char d)"
  by (simp add: is_digit_def less_eq_char_def of_char_digit_char)

lemma show_nat_digits: "\<forall>c \<in> set (show_nat n). is_digit c"
proof (induction n rule: show_nat.induct)
  case (1 n)
  show ?case
  proof (cases "n < 10")
    case True
    then show ?thesis by (simp add: show_nat.simps[of n])
  next
    case False
    with 1 show ?thesis by (auto simp: show_nat.simps[of n])
  qed
qed

lemma show_nat_nonempty [simp]: "show_nat n \<noteq> []"
  by (subst show_nat.simps) simp

lemma read_show_nat [simp]: "read_nat (show_nat n) = n"
proof (induction n rule: show_nat.induct)
  case (1 n)
  show ?case
  proof (cases "n < 10")
    case True
    then show ?thesis by (simp add: show_nat.simps[of n] read_nat_def)
  next
    case False
    with 1 have "read_nat (show_nat (n div 10)) = n div 10" by simp
    with False show ?thesis by (simp add: show_nat.simps[of n] read_nat_def)
  qed
qed

lemma show_nat_inj: "show_nat m = show_nat n \<Longrightarrow> m = n"
  by (metis read_show_nat)

lemma minus_not_digit: "\<not> is_digit CHR ''-''"
  by (simp add: is_digit_def less_eq_char_def)

lemma fmt_d_inj: "fmt_d m = fmt_d n \<Longrightarrow> m = n"
proof -
  assume eq: "fmt_d m = fmt_d n"
  have nd: "hd (show_nat k) \<noteq> CHR ''-''" for k
    using show_nat_digits[of k] minus_not_digit hd_in_set[OF show_nat_nonempty[of k]] by metis
  have nd': "show_nat k \<noteq> CHR ''-'' # t" for k t
    using nd[of k] by force
  from eq nd' nd'[symmetric] have "(m < 0) = (n < 0)"
    by (auto simp: fmt_d_def split: if_splits)
  with eq show "m = n"
    by (auto simp: fmt_d_def split: if_splits dest!: show_nat_inj)
qed

text \<open>\<open>strconv.Quote\<close> and the verb \<open>%q\<close>: printable text passes, the bytes beyond ASCII too.\<close>

definition hex_digit :: "nat \<Rightarrow> char" where
  "hex_digit n = ''0123456789abcdef'' ! (n mod 16)"

definition quote_char :: "char \<Rightarrow> string" where
  "quote_char c =
    (let n = of_char c :: nat in
     if c = CHR 0x22 \<or> c = CHR 0x5C then [CHR 0x5C, c]
     else if c = CHR 0x07 then [CHR 0x5C, CHR ''a'']
     else if c = CHR 0x08 then [CHR 0x5C, CHR ''b'']
     else if c = CHR 0x0C then [CHR 0x5C, CHR ''f'']
     else if c = CHR 0x0A then [CHR 0x5C, CHR ''n'']
     else if c = CHR 0x0D then [CHR 0x5C, CHR ''r'']
     else if c = CHR 0x09 then [CHR 0x5C, CHR ''t'']
     else if c = CHR 0x0B then [CHR 0x5C, CHR ''v'']
     else if n < 32 \<or> n = 127 then [CHR 0x5C, CHR ''x'', hex_digit (n div 16), hex_digit n]
     else [c])"

definition Quote :: "string \<Rightarrow> string" where
  "Quote s = [CHR 0x22] @ concat (map quote_char s) @ [CHR 0x22]"

section \<open>Sorting\<close>

text \<open>\<open>sort.Strings\<close> orders by bytes, which is the lexicographic order on \<^typ>\<open>string\<close>.\<close>

definition sort_Strings :: "string list \<Rightarrow> string list" where
  "sort_Strings = sort"

lemma set_sort_Strings [simp]: "set (sort_Strings xs) = set xs"
  by (simp add: sort_Strings_def)

lemma sorted_sort_Strings [simp]: "sorted (sort_Strings xs)"
  by (simp add: sort_Strings_def)

lemma mset_sort_Strings [simp]: "mset (sort_Strings xs) = mset xs"
  by (simp add: sort_Strings_def)

lemma sort_Strings_perm: "mset xs = mset ys \<Longrightarrow> sort_Strings xs = sort_Strings ys"
  by (simp add: sort_Strings_def properties_for_sort)

section \<open>Reading numbers\<close>

text \<open>
  \<open>strconv.ParseFloat\<close> on decimal notation: a sign, digits with an optional point and an optional
  exponent. The spellings of infinity and of not-a-number and the hexadecimal notation are refused.
\<close>

definition parse_sign :: "string \<Rightarrow> bool \<times> string" where
  "parse_sign s = (case s of c # r \<Rightarrow> (if c = CHR ''-'' then (True, r) else if c = CHR ''+'' then (False, r) else (False, s))
                   | [] \<Rightarrow> (False, s))"

definition parse_exponent :: "string \<Rightarrow> int option" where
  "parse_exponent s =
    (case s of [] \<Rightarrow> Some 0
     | e # r \<Rightarrow> if e = CHR ''e'' \<or> e = CHR ''E'' then
         (case parse_sign r of (negative, ds) \<Rightarrow>
            if ds \<noteq> [] \<and> list_all is_digit ds then Some (if negative then - int (read_nat ds) else int (read_nat ds))
            else None)
       else None)"

definition ParseFloat :: "string \<Rightarrow> real option" where
  "ParseFloat s =
    (case parse_sign s of (negative, t) \<Rightarrow>
      let whole = takeWhile is_digit t;
          r = dropWhile is_digit t;
          (fraction, rest) = (case r of [] \<Rightarrow> ([], [])
            | c # r' \<Rightarrow> if c = CHR ''.'' then (takeWhile is_digit r', dropWhile is_digit r') else ([], r))
      in if whole @ fraction = [] then None
         else case parse_exponent rest of None \<Rightarrow> None
         | Some e \<Rightarrow>
             let mantissa = real (read_nat (whole @ fraction)) / 10 ^ length fraction;
                 value = (if 0 \<le> e then mantissa * 10 ^ nat e else mantissa / 10 ^ nat (- e))
             in Some (if negative then - value else value))"

text \<open>\<open>strconv.Atoi\<close> and \<open>strconv.ParseInt(s, 10, 64)\<close>, without the range check.\<close>

definition ParseInt :: "string \<Rightarrow> int option" where
  "ParseInt s =
    (case parse_sign s of (negative, ds) \<Rightarrow>
       if ds \<noteq> [] \<and> list_all is_digit ds then Some (if negative then - int (read_nat ds) else int (read_nat ds))
       else None)"

lemma parse_sign_digits: "list_all is_digit ds \<Longrightarrow> parse_sign ds = (False, ds)"
  by (auto simp: parse_sign_def is_digit_def split: list.splits)

lemma ParseFloat_show_nat: "ParseFloat (show_nat n) = Some (real n)"
proof -
  have all: "\<forall>c \<in> set (show_nat n). is_digit c" by (rule show_nat_digits)
  then have scan: "takeWhile is_digit (show_nat n) = show_nat n" "dropWhile is_digit (show_nat n) = []" by simp_all
  from all show ?thesis
    by (simp add: ParseFloat_def parse_sign_digits list_all_iff parse_exponent_def Let_def scan)
qed

lemma ParseInt_fmt_d [simp]: "ParseInt (fmt_d n) = Some n"
proof -
  have "parse_sign (show_nat m) = (False, show_nat m)" for m
    using show_nat_digits by (simp add: parse_sign_digits list_all_iff)
  moreover have "parse_sign (CHR ''-'' # s) = (True, s)" for s by (simp add: parse_sign_def)
  ultimately show ?thesis using show_nat_digits by (simp add: ParseInt_def fmt_d_def list_all_iff)
qed

text \<open>\<open>strings.Split\<close> with a non-empty separator.\<close>

lemma Cut_shorter: "(b, a, True) = Cut s sep \<Longrightarrow> sep \<noteq> [] \<Longrightarrow> length a < length s"
  by (drule sym, drule Cut_found) simp

function Split :: "string \<Rightarrow> string \<Rightarrow> string list" where
  "Split s sep = (if sep = [] then [s]
     else case Cut s sep of (before, after, found) \<Rightarrow> if found then before # Split after sep else [s])"
  by pat_completeness auto
termination
  by (relation "measure (\<lambda>(s, sep). length s)") (auto dest: Cut_shorter)

declare Split.simps [simp del]

lemma Join_Split: "sep \<noteq> [] \<Longrightarrow> Join (Split s sep) sep = s"
proof (induction s sep rule: Split.induct)
  case (1 s sep)
  obtain b a f where cut: "Cut s sep = (b, a, f)" by (cases "Cut s sep") auto
  show ?case
  proof (cases f)
    case True
    have "Split a sep \<noteq> []" by (subst Split.simps) (auto split: prod.splits)
    moreover have "Join (Split a sep) sep = a" using 1 cut True by simp
    moreover have "s = b @ sep @ a" using Cut_found cut True by simp
    moreover have "Split s sep = b # Split a sep" using 1(2) True by (simp add: Split.simps[of s sep] cut)
    ultimately show ?thesis by (cases "Split a sep") simp_all
  next
    case False
    with 1(2) cut show ?thesis by (simp add: Split.simps[of s sep])
  qed
qed

section \<open>Formatted text\<close>

text \<open>
  A sentence for a reader is kept as the format string of the code and its arguments: no property
  depends on how \<open>fmt\<close> lays them out.
\<close>

datatype fmt_arg = ArgS string | ArgD int | ArgF real | ArgT Duration | ArgM sentence
  and sentence = Sprintf string "fmt_arg list"

definition em_dash :: string where
  "em_dash = [CHR 0xE2, CHR 0x80, CHR 0x94]"

abbreviation apos :: string where
  "apos \<equiv> [CHR 0x27]"

abbreviation nl :: string where
  "nl \<equiv> [CHR 0x0A]"

abbreviation Plain :: "string \<Rightarrow> sentence" where
  "Plain s \<equiv> Sprintf s []"

end
