(* ===== verification/Text.thy ===== *)
theory Text
  imports Prelude
begin

text \<open>
  The helpers of \<open>internal/text\<close>: agreement in number and grouping of digits (\<open>plural.go\<close>),
  and the "did you mean" search of \<open>nearest.go\<close> with its two-row edit distance.
  The distance is proved to be the least cost of any alignment of the two words, and the search to
  answer only words of the list it was given.
\<close>

section \<open>Plural agreement and grouping\<close>

definition Grouped :: "int \<Rightarrow> string" where
  "Grouped quantity =
    (let digits = fmt_d quantity;
         (sign, digits) = (if HasPrefix digits ''-'' then (''-'', drop 1 digits) else ('''', digits));
         out = concat (map (\<lambda>(index, digit).
                 (if 0 < index \<and> (length digits - index) mod 3 = 0 then '','' else '''') @ [digit])
               (enumerate 0 digits))
     in sign @ out)"

definition Count :: "int \<Rightarrow> string \<Rightarrow> string \<Rightarrow> string" where
  "Count quantity singular plural =
    (if quantity = 1 \<or> quantity = - 1 then Grouped quantity @ '' '' @ singular
     else Grouped quantity @ '' '' @ plural)"

definition Times :: "int \<Rightarrow> string" where
  "Times quantity = (if quantity = 1 then ''once'' else fmt_d quantity @ '' times'')"

definition Pick :: "int \<Rightarrow> string \<Rightarrow> string \<Rightarrow> string" where
  "Pick quantity singular plural =
    (if quantity = 1 \<or> quantity = - 1 then singular else plural)"

section \<open>Edit distance\<close>

text \<open>
  One row of the table: \<open>current[0] = i\<close>, then \<open>current[j]\<close> for \<open>j = 1 .. len(second)\<close> from its left,
  upper and upper-left neighbours. The arrays are lists updated by index.
\<close>

definition editCell :: "string \<Rightarrow> string \<Rightarrow> nat \<Rightarrow> nat list \<Rightarrow> nat list \<Rightarrow> nat \<Rightarrow> nat list" where
  "editCell first second i previous current j =
    (let cost = (if first ! (i - 1) = second ! (j - 1) then 0 else 1)
     in current[j := min (min (current ! (j - 1) + 1) (previous ! j + 1)) (previous ! (j - 1) + cost)])"

definition editRow :: "string \<Rightarrow> string \<Rightarrow> nat \<Rightarrow> nat list \<Rightarrow> nat list \<Rightarrow> nat list" where
  "editRow first second i previous current =
    foldl (editCell first second i previous) (current[0 := i]) [1..<length second + 1]"

text \<open>The outer loop; \<open>copy(previous, current)\<close> makes both slices hold the row just computed.\<close>

definition editStep :: "string \<Rightarrow> string \<Rightarrow> nat list \<times> nat list \<Rightarrow> nat \<Rightarrow> nat list \<times> nat list" where
  "editStep first second rows i =
    (let (previous, current) = rows; current = editRow first second i previous current
     in (current, current))"

definition editDistance :: "string \<Rightarrow> string \<Rightarrow> nat" where
  "editDistance first second =
    (let (previous, current) =
           foldl (editStep first second)
             ([0..<length second + 1], replicate (length second + 1) 0) [1..<length first + 1]
     in previous ! length second)"

section \<open>The closest word\<close>

definition tolerance :: "string \<Rightarrow> nat" where
  "tolerance received =
    (if length received \<le> 4 then 1 else if length received \<le> 8 then 2 else 3)"

definition abbreviation_loop :: "string \<Rightarrow> string list \<Rightarrow> string" where
  "abbreviation_loop received valid =
    foldl (\<lambda>best candidate.
      if \<not> HasPrefix (ToLower candidate) (ToLower received) then best
      else if best = '''' \<or> length candidate < length best then candidate else best) '''' valid"

definition abbreviation_of :: "string \<Rightarrow> string list \<Rightarrow> string \<times> bool" where
  "abbreviation_of received valid =
    (if length received < 3 then ('''', False)
     else let best = abbreviation_loop received valid in (best, best \<noteq> ''''))"

definition closest_loop :: "string \<Rightarrow> string list \<Rightarrow> string \<times> int" where
  "closest_loop received valid =
    foldl (\<lambda>(best, shortestDistance) candidate.
      let distance = int (editDistance (ToLower received) (ToLower candidate))
      in if distance < shortestDistance then (candidate, distance) else (best, shortestDistance))
      ('''', 2 ^ 30) valid"

definition Closest :: "string \<Rightarrow> string list \<Rightarrow> string \<times> bool" where
  "Closest received valid =
    (let (best, shortestDistance) = closest_loop received valid
     in if best \<noteq> '''' \<and> shortestDistance \<le> int (tolerance received) then (best, True)
        else abbreviation_of received valid)"

section \<open>Grouping keeps the number\<close>

lemma filter_grouped_digits:
  "\<forall>c \<in> set ds. c \<noteq> CHR '','' \<Longrightarrow>
   filter (\<lambda>c. c \<noteq> CHR '','') (concat (map (\<lambda>(index, digit).
      (if 0 < index \<and> (n - index) mod 3 = 0 then '','' else '''') @ [digit]) (enumerate k ds))) = ds"
  by (induction ds arbitrary: k) auto

lemma comma_not_digit: "is_digit c \<Longrightarrow> c \<noteq> CHR '','' \<and> c \<noteq> CHR ''-''"
  by (auto simp: is_digit_def less_eq_char_def)

lemma HasPrefix_minus: "HasPrefix (show_nat n) ''-'' = False"
proof -
  have "show_nat n \<noteq> CHR ''-'' # t" for t
    using show_nat_digits[of n] comma_not_digit by fastforce
  then show ?thesis by (auto simp: HasPrefix_iff)
qed

lemma Grouped_neg: "n < 0 \<Longrightarrow> Grouped n = ''-'' @ Grouped (- n)"
  by (simp add: Grouped_def fmt_d_def HasPrefix_minus Let_def) (simp add: HasPrefix_def)

lemma Grouped_nonneg:
  "0 \<le> n \<Longrightarrow> Grouped n = concat (map (\<lambda>(index, digit).
      (if 0 < index \<and> (length (show_nat (nat n)) - index) mod 3 = 0 then '','' else '''') @ [digit])
      (enumerate 0 (show_nat (nat n))))"
  by (simp add: Grouped_def fmt_d_def HasPrefix_minus Let_def)

lemma filter_Grouped: "filter (\<lambda>c. c \<noteq> CHR '','') (Grouped n) = fmt_d n"
proof -
  have pos: "filter (\<lambda>c. c \<noteq> CHR '','') (Grouped k) = fmt_d k" if "0 \<le> k" for k
    using that filter_grouped_digits[of "show_nat (nat k)"] show_nat_digits[of "nat k"] comma_not_digit
    by (auto simp: Grouped_nonneg fmt_d_def)
  show ?thesis
  proof (cases "n < 0")
    case True
    with pos[of "- n"] show ?thesis by (simp add: Grouped_neg) (simp add: fmt_d_def)
  next
    case False
    with pos show ?thesis by simp
  qed
qed

section \<open>The table holds least alignment costs\<close>

text \<open>
  An alignment reads both words left to right: it keeps a letter, replaces it, inserts one or
  deletes one; everything but keeping costs one.
\<close>

inductive align :: "'a list \<Rightarrow> 'a list \<Rightarrow> nat \<Rightarrow> bool" where
  align_Nil: "align [] [] 0"
| align_keep: "align xs ys n \<Longrightarrow> align (xs @ [x]) (ys @ [x]) n"
| align_replace: "align xs ys n \<Longrightarrow> align (xs @ [x]) (ys @ [y]) (Suc n)"
| align_insert: "align xs ys n \<Longrightarrow> align xs (ys @ [y]) (Suc n)"
| align_delete: "align xs ys n \<Longrightarrow> align (xs @ [x]) ys (Suc n)"

definition least_align :: "'a list \<Rightarrow> 'a list \<Rightarrow> nat \<Rightarrow> bool" where
  "least_align xs ys n \<longleftrightarrow> align xs ys n \<and> (\<forall>m. align xs ys m \<longrightarrow> n \<le> m)"

lemma align_Nil_left: "align xs ys m \<Longrightarrow> xs = [] \<Longrightarrow> length ys \<le> m"
  by (induction rule: align.induct) auto

lemma align_Nil_right: "align xs ys m \<Longrightarrow> ys = [] \<Longrightarrow> length xs \<le> m"
  by (induction rule: align.induct) auto

lemma align_inserts: "align [] ys (length ys)"
  by (induction ys rule: rev_induct) (auto intro: align.intros)

lemma align_deletes: "align xs [] (length xs)"
  by (induction xs rule: rev_induct) (auto intro: align.intros)

lemma least_align_Nil_left: "least_align [] ys (length ys)"
  by (auto simp: least_align_def align_inserts dest: align_Nil_left)

lemma least_align_Nil_right: "least_align xs [] (length xs)"
  by (auto simp: least_align_def align_deletes dest: align_Nil_right)

lemma least_align_snoc:
  assumes l: "least_align (xs @ [x]) ys l" and u: "least_align xs (ys @ [y]) u"
    and d: "least_align xs ys d"
  shows "least_align (xs @ [x]) (ys @ [y])
     (min (min (l + 1) (u + 1)) (d + (if x = y then 0 else 1)))" (is "least_align _ _ ?c")
proof -
  have "align (xs @ [x]) (ys @ [y]) (Suc l)" "align (xs @ [x]) (ys @ [y]) (Suc u)"
    using l u by (auto simp: least_align_def intro: align.intros)
  moreover have "align (xs @ [x]) (ys @ [y]) (d + (if x = y then 0 else 1))"
    using d by (auto simp: least_align_def intro: align.intros)
  ultimately have "align (xs @ [x]) (ys @ [y]) ?c"
    by (auto simp: min_def)
  moreover have "?c \<le> m" if "align (xs @ [x]) (ys @ [y]) m" for m
    using that
  proof (cases rule: align.cases)
    case align_keep
    with d have "x = y" "d \<le> m" by (auto simp: least_align_def)
    then show ?thesis by simp
  next
    case (align_replace xs' ys' n x' y')
    with d have "d \<le> n" by (auto simp: least_align_def)
    with align_replace show ?thesis by auto
  next
    case (align_insert ys' n y')
    with l have "l \<le> n" by (auto simp: least_align_def)
    with align_insert show ?thesis by auto
  next
    case (align_delete xs' n x')
    with u have "u \<le> n" by (auto simp: least_align_def)
    with align_delete show ?thesis by auto
  qed auto
  ultimately show ?thesis by (auto simp: least_align_def)
qed

text \<open>Row \<open>i\<close> of the table is right up to column \<open>k\<close>.\<close>

definition row_ok :: "string \<Rightarrow> string \<Rightarrow> nat \<Rightarrow> nat \<Rightarrow> nat list \<Rightarrow> bool" where
  "row_ok first second i k row \<longleftrightarrow>
    length row = length second + 1 \<and> (\<forall>j \<le> k. least_align (take i first) (take j second) (row ! j))"

lemma row_ok_start: "row_ok first second 0 (length second) [0..<length second + 1]"
proof -
  have "least_align [] (take j second) j" if "j \<le> length second" for j
    using least_align_Nil_left[of "take j second"] that by simp
  moreover have "[0..<length second + 1] ! j = j" if "j \<le> length second" for j
    using that by (metis add.left_neutral add_diff_cancel_right' diff_zero length_upt less_Suc_eq_le nth_upt Suc_eq_plus1)
  ultimately show ?thesis by (simp add: row_ok_def del: upt_Suc)
qed

lemma row_ok_first:
  "length current = length second + 1 \<Longrightarrow> i \<le> length first \<Longrightarrow> row_ok first second i 0 (current[0 := i])"
  using least_align_Nil_right[of "take i first"] by (simp add: row_ok_def)

lemma row_ok_cell:
  assumes prev: "row_ok first second i (length second) previous"
    and cur: "row_ok first second (Suc i) j current"
    and i: "i < length first" and j: "j < length second"
  shows "row_ok first second (Suc i) (Suc j) (editCell first second (Suc i) previous current (Suc j))"
proof -
  let ?v = "min (min (current ! j + 1) (previous ! Suc j + 1))
     (previous ! j + (if first ! i = second ! j then 0 else 1))"
  have ti: "take (Suc i) first = take i first @ [first ! i]"
    and tj: "take (Suc j) second = take j second @ [second ! j]"
    using i j by (simp_all add: take_Suc_conv_app_nth)
  have "least_align (take (Suc i) first) (take j second) (current ! j)"
    using cur by (simp add: row_ok_def)
  moreover have "least_align (take i first) (take (Suc j) second) (previous ! Suc j)"
    "least_align (take i first) (take j second) (previous ! j)"
    using prev j by (simp_all add: row_ok_def)
  ultimately have "least_align (take (Suc i) first) (take (Suc j) second) ?v"
    unfolding ti tj by (rule least_align_snoc)
  moreover have "editCell first second (Suc i) previous current (Suc j) = current[Suc j := ?v]"
    by (simp add: editCell_def)
  ultimately show ?thesis
    using cur j by (auto simp: row_ok_def nth_list_update le_Suc_eq)
qed

lemma row_ok_cells:
  assumes prev: "row_ok first second i (length second) previous"
    and "length current = length second + 1" and i: "i < length first" and "k \<le> length second"
  shows "row_ok first second (Suc i) k
     (foldl (editCell first second (Suc i) previous) (current[0 := Suc i]) [1..<k + 1])"
  using assms(4)
proof (induction k)
  case 0
  show ?case using row_ok_first[OF assms(2), of "Suc i" first] i by simp
next
  case (Suc k)
  then have "row_ok first second (Suc i) k
     (foldl (editCell first second (Suc i) previous) (current[0 := Suc i]) [1..<k + 1])" by simp
  from row_ok_cell[OF prev this i] Suc.prems show ?case by simp
qed

lemma editRow_ok:
  assumes "row_ok first second i (length second) previous"
    and "length current = length second + 1" and "i < length first"
  shows "row_ok first second (Suc i) (length second) (editRow first second (Suc i) previous current)"
  using row_ok_cells[OF assms, of "length second"] by (simp add: editRow_def)

lemma editRows_ok:
  assumes "k \<le> length first"
  shows "\<exists>previous current. foldl (editStep first second) ([0..<length second + 1], replicate (length second + 1) 0) [1..<k + 1] = (previous, current)
     \<and> row_ok first second k (length second) previous \<and> length current = length second + 1"
  using assms
proof (induction k)
  case 0
  show ?case using row_ok_start[of first second] by simp
next
  case (Suc k)
  then obtain previous current where
    step: "foldl (editStep first second) ([0..<length second + 1], replicate (length second + 1) 0) [1..<k + 1] = (previous, current)"
    and ok: "row_ok first second k (length second) previous" "length current = length second + 1"
    by auto
  have "row_ok first second (Suc k) (length second) (editRow first second (Suc k) previous current)"
    using editRow_ok[OF ok] Suc.prems by simp
  moreover have "foldl (editStep first second) ([0..<length second + 1], replicate (length second + 1) 0)
      [1..<Suc k + 1] = (editRow first second (Suc k) previous current, editRow first second (Suc k) previous current)"
    using step by (simp del: upt_Suc add: upt_Suc_append editStep_def Let_def)
  ultimately show ?case unfolding row_ok_def by blast
qed

lemma editDistance_least: "least_align first second (editDistance first second)"
proof -
  obtain previous current where
    "foldl (editStep first second) ([0..<length second + 1], replicate (length second + 1) 0) [1..<length first + 1] = (previous, current)"
    "row_ok first second (length first) (length second) previous"
    using editRows_ok[of "length first" first second] by auto
  then have "editDistance first second = previous ! length second"
    and "least_align (take (length first) first) (take (length second) second) (previous ! length second)"
    by (simp_all only: editDistance_def row_ok_def) auto
  then show ?thesis by simp
qed

lemma editDistance_le: "align first second n \<Longrightarrow> editDistance first second \<le> n"
  using editDistance_least[of first second] by (simp add: least_align_def)

lemma align_self: "align xs xs 0"
  by (induction xs rule: rev_induct) (auto intro: align.intros)

lemma editDistance_self [simp]: "editDistance s s = 0"
  using editDistance_le[OF align_self, of s] by simp

lemma align_sym: "align xs ys n \<Longrightarrow> align ys xs n"
  by (induction rule: align.induct) (auto intro: align.intros)

lemma align_zero: "align xs ys n \<Longrightarrow> n = 0 \<Longrightarrow> xs = ys"
  by (induction rule: align.induct) auto

lemma editDistance_align: "align first second (editDistance first second)"
  using editDistance_least[of first second] by (simp add: least_align_def)

section \<open>The search answers words of the list\<close>

lemma closest_loop_mem:
  "closest_loop received valid = (best, d) \<Longrightarrow> best = '''' \<or> best \<in> set valid"
proof (induction valid arbitrary: best d rule: rev_induct)
  case Nil
  then show ?case by (simp add: closest_loop_def)
next
  case (snoc c valid)
  obtain b' d' where loop: "closest_loop received valid = (b', d')" by fastforce
  with snoc show ?case
    by (auto simp: closest_loop_def Let_def split: if_splits)
qed

lemma abbreviation_loop_mem:
  "abbreviation_loop received valid = '''' \<or> abbreviation_loop received valid \<in> set valid"
  by (induction valid rule: rev_induct) (auto simp: abbreviation_loop_def)

lemma abbreviation_loop_prefix:
  "abbreviation_loop received valid \<noteq> '''' \<Longrightarrow>
   HasPrefix (ToLower (abbreviation_loop received valid)) (ToLower received)"
  by (induction valid rule: rev_induct) (auto simp: abbreviation_loop_def split: if_splits)

lemma closest_loop_least:
  assumes "closest_loop received valid = (best, d)" "c \<in> set valid"
  shows "d \<le> int (editDistance (ToLower received) (ToLower c))"
  using assms
proof (induction valid arbitrary: best d rule: rev_induct)
  case Nil
  then show ?case by simp
next
  case (snoc x valid)
  obtain b' d' where loop: "closest_loop received valid = (b', d')" by fastforce
  with snoc show ?case
    by (auto simp: closest_loop_def Let_def split: if_splits)
qed

lemma closest_loop_distance:
  "closest_loop received valid = (best, d) \<Longrightarrow> best \<noteq> '''' \<Longrightarrow>
   d = int (editDistance (ToLower received) (ToLower best))"
proof (induction valid arbitrary: best d rule: rev_induct)
  case Nil
  then show ?case by (simp add: closest_loop_def)
next
  case (snoc x valid)
  obtain b' d' where loop: "closest_loop received valid = (b', d')" by fastforce
  with snoc show ?case
    by (auto simp: closest_loop_def Let_def split: if_splits)
qed

lemma show_nat_thousands:
  assumes "1000 \<le> n"
  shows "show_nat n = show_nat (n div 1000) @
     [digit_char (n div 100 mod 10), digit_char (n div 10 mod 10), digit_char (n mod 10)]"
proof -
  have "show_nat n = show_nat (n div 10) @ [digit_char (n mod 10)]"
    using assms by (subst show_nat.simps) simp
  also have "show_nat (n div 10) = show_nat (n div 100) @ [digit_char (n div 10 mod 10)]"
    using assms by (subst show_nat.simps) (simp add: div_mult2_eq[symmetric])
  also have "show_nat (n div 100) = show_nat (n div 1000) @ [digit_char (n div 100 mod 10)]"
    using assms by (subst show_nat.simps) (simp add: div_mult2_eq[symmetric])
  finally show ?thesis by simp
qed

lemma show_nat_length_small: "n < 1000 \<Longrightarrow> length (show_nat n) \<le> 3"
  by (subst show_nat.simps, simp, subst show_nat.simps, simp, subst show_nat.simps, simp)

text \<open>The commas before the digits at positions \<open>k ..\<close> of a word with \<open>n\<close> digits.\<close>

definition with_commas :: "nat \<Rightarrow> nat \<Rightarrow> string \<Rightarrow> string" where
  "with_commas n k ds = concat (map (\<lambda>(index, digit).
      (if 0 < index \<and> (n - index) mod 3 = 0 then '','' else '''') @ [digit]) (enumerate k ds))"

lemma with_commas_Nil [simp]: "with_commas n k [] = []"
  by (simp add: with_commas_def)

lemma with_commas_Cons [simp]:
  "with_commas n k (d # ds) =
    (if 0 < k \<and> (n - k) mod 3 = 0 then '','' else '''') @ d # with_commas n (Suc k) ds"
  by (simp add: with_commas_def)

lemma with_commas_append:
  "with_commas n k (ds @ es) = with_commas n k ds @ with_commas n (k + length ds) es"
  by (induction ds arbitrary: k) simp_all

lemma with_commas_shift:
  "k + length ds \<le> n \<Longrightarrow> with_commas (n + 3) k ds = with_commas n k ds"
proof (induction ds arbitrary: k)
  case (Cons d ds)
  then have "(n + 3 - k) mod 3 = (n - k) mod 3"
    by (metis Nat.add_diff_assoc2 add_leD1 mod_add_self2)
  with Cons show ?case by simp
qed simp

lemma with_commas_short: "k + length ds \<le> n \<Longrightarrow> n - k \<le> 3 \<Longrightarrow> k = 0 \<or> n - k < 3 \<Longrightarrow> with_commas n k ds = ds"
proof (induction ds arbitrary: k)
  case (Cons d ds)
  then have "\<not> (0 < k \<and> (n - k) mod 3 = 0)" by auto
  moreover have "with_commas n (Suc k) ds = ds"
    using Cons.prems by (intro Cons.IH) auto
  ultimately show ?case by simp
qed simp

lemma Grouped_with_commas:
  "0 \<le> n \<Longrightarrow> Grouped n = with_commas (length (show_nat (nat n))) 0 (show_nat (nat n))"
  by (simp add: Grouped_nonneg with_commas_def)

section \<open>Properties\<close>

text \<open>\<open>editDistance\<close>, computed with two rows that are overwritten in place, is the least cost
  of aligning the two words when keeping a byte is free and replacing, inserting or deleting one
  costs one: a cost that some alignment reaches and none undercuts.\<close>

theorem editDistance_is_least_alignment:
  "editDistance first second = (LEAST n. align first second n)"
proof (rule Least_equality [symmetric])
  show "align first second (editDistance first second)" by (rule editDistance_align)
next
  fix n assume "align first second n"
  then show "editDistance first second \<le> n" by (rule editDistance_le)
qed

text \<open>When \<open>Closest\<close> says it found a word, the word is one of the valid ones, and it is either
  within the tolerance with no valid word closer, or a valid word that starts with what was
  received (ignoring case) and has at least three letters of it.\<close>

theorem Closest_sound:
  assumes "Closest received valid = (word, True)"
  shows "word \<in> set valid \<and>
    ((editDistance (ToLower received) (ToLower word) \<le> tolerance received \<and>
      (\<forall>c \<in> set valid. editDistance (ToLower received) (ToLower word)
                        \<le> editDistance (ToLower received) (ToLower c)))
     \<or> (3 \<le> length received \<and> HasPrefix (ToLower word) (ToLower received)))"
proof -
  obtain best d where loop: "closest_loop received valid = (best, d)" by fastforce
  show ?thesis
  proof (cases "best \<noteq> '''' \<and> d \<le> int (tolerance received)")
    case True
    with assms loop have word: "word = best" by (simp add: Closest_def)
    with True loop have "d = int (editDistance (ToLower received) (ToLower word))" "word \<in> set valid"
      using closest_loop_distance closest_loop_mem by blast+
    with True closest_loop_least[OF loop] show ?thesis by auto
  next
    case False
    with assms loop have "abbreviation_of received valid = (word, True)"
      by (auto simp: Closest_def split: if_splits)
    then have word: "3 \<le> length received" "word = abbreviation_loop received valid" "word \<noteq> ''''"
      by (auto simp: abbreviation_of_def Let_def split: if_splits)
    with abbreviation_loop_mem[of received valid] abbreviation_loop_prefix[of received valid]
    show ?thesis by auto
  qed
qed

theorem Closest_sound_witness:
  "Closest ''ratee'' [''rate'', ''ramp''] = (''rate'', True) \<and> ''rate'' \<in> set [''rate'', ''ramp'']"
proof -
  have found: "Closest ''ratee'' [''rate'', ''ramp''] = (''rate'', True)" by code_simp
  with Closest_sound[OF found] show ?thesis by blast
qed

text \<open>\<open>Grouped\<close> writes thousands separators: below a thousand it is the plain number, above it is
  the grouped quotient by a thousand, a comma and the three last digits.\<close>

theorem Grouped_thousands:
  assumes "0 \<le> n"
  shows "Grouped n =
    (if n < 1000 then show_nat (nat n)
     else Grouped (n div 1000) @ '','' @
       [digit_char (nat n div 100 mod 10), digit_char (nat n div 10 mod 10), digit_char (nat n mod 10)])"
proof (cases "n < 1000")
  case True
  have "length (show_nat (nat n)) \<le> 3" by (rule show_nat_length_small) (use True in simp)
  with True assms show ?thesis by (simp add: Grouped_with_commas with_commas_short)
next
  case False
  let ?q = "show_nat (nat n div 1000)"
  have "show_nat (nat n) = ?q @
     [digit_char (nat n div 100 mod 10), digit_char (nat n div 10 mod 10), digit_char (nat n mod 10)]"
    by (rule show_nat_thousands) (use False in simp)
  moreover have "nat (n div 1000) = nat n div 1000" using assms by (simp add: nat_div_distrib)
  moreover have "with_commas (Suc (Suc (Suc (length ?q)))) 0 ?q = with_commas (length ?q) 0 ?q"
    using with_commas_shift[of 0 ?q "length ?q"] by (simp add: numeral_3_eq_3)
  ultimately show ?thesis
    using False assms show_nat_nonempty[of "nat n div 1000"]
    by (simp add: Grouped_with_commas with_commas_append)
qed

theorem Grouped_thousands_witness:
  "(0::int) \<le> 4500000 \<and> Grouped 4500000 = Grouped 4500 @ '',000''"
  using Grouped_thousands[of 4500000] by simp

end
