(* ===== verification/Model.thy ===== *)
theory Model
  imports Prelude
begin

text \<open>
  The data of a scenario (\<open>internal/scenario/model.go\<close>, \<open>correlation.go\<close>,
  \<open>internal/messaging/auth.go\<close>) and of the protocol boundary (\<open>internal/protocol/protocol.go\<close>).

  A step configuration is a value of the Go interface \<open>protocol.Config\<close>. Its type is the parameter
  \<open>'c\<close>, and the methods and optional interfaces the scenario reads through it are the fields of
  \<open>'c config_methods\<close>, so that a function of the model takes the method table where the Go function
  calls a method or asks with a type assertion whether the value has one.
\<close>

section \<open>Protocol boundary\<close>

datatype ErrorClass = Success | ErrNetwork | ErrTimeout | ErrStatus | ErrAssertion | ErrCorrelation
  | ErrConfig | ErrSaturation | ErrGraphQL | ErrMessaging | ErrAuth | ErrAuthorization

fun class_text :: "ErrorClass \<Rightarrow> string" where
  "class_text Success = ''success''"
| "class_text ErrNetwork = ''network''"
| "class_text ErrTimeout = ''timeout''"
| "class_text ErrStatus = ''status''"
| "class_text ErrAssertion = ''assertion''"
| "class_text ErrCorrelation = ''correlation''"
| "class_text ErrConfig = ''config''"
| "class_text ErrSaturation = ''saturation''"
| "class_text ErrGraphQL = ''graphql''"
| "class_text ErrMessaging = ''messaging''"
| "class_text ErrAuth = ''auth''"
| "class_text ErrAuthorization = ''authorization''"

lemma class_text_inj: "class_text a = class_text b \<longleftrightarrow> a = b"
  by (cases a; cases b) simp_all

record Collapse =
  Subject :: string
  Meaning :: string
  Remedy :: string
  Declared :: bool

record Response =
  Resp_Status :: int
  Resp_Body :: string
  Resp_Headers :: "(string, string list) gomap"
  Resp_Bytes :: int
  Resp_Messages :: int
  Resp_Class :: ErrorClass
  Resp_Detail :: string
  Resp_Key :: string
  Resp_Attributes :: "(string, string) gomap"
  Resp_Collapses :: "(string, Collapse) gomap"

section \<open>Steps\<close>

datatype Operator = OpEqual | OpNotEqual | OpLess | OpLessOrEqual | OpGreater | OpGreaterOrEqual
  | OpContains | OpExists | OpNone

text \<open>\<open>OpNone\<close> is the zero value, which an assertion on the body has.\<close>

fun operator_text :: "Operator \<Rightarrow> string" where
  "operator_text OpEqual = ''==''"
| "operator_text OpNotEqual = ''!=''"
| "operator_text OpLess = ''<''"
| "operator_text OpLessOrEqual = ''<=''"
| "operator_text OpGreater = ''>''"
| "operator_text OpGreaterOrEqual = ''>=''"
| "operator_text OpContains = ''contains''"
| "operator_text OpExists = ''exists''"
| "operator_text OpNone = ''''"

datatype CheckKind = CheckStatus | CheckBody

record Check =
  Check_Kind :: CheckKind
  Check_Status :: int
  Check_Text :: string

datatype CaptureOrigin = CaptureJSON | CaptureHeader | CaptureCookie | CaptureRegex | CaptureBody
  | CaptureStatus | CaptureUnknown

record Capture =
  Cap_Variable :: string
  Cap_Origin :: CaptureOrigin
  Cap_Expression :: string
  Cap_Required :: bool
  Cap_Default :: string

datatype AssertionKind = AssertStatus | AssertBodyContains | AssertJSON | AssertRegex | AssertHeader
  | AssertUnknown

record Assertion =
  As_Kind :: AssertionKind
  As_Target :: string
  As_Operator :: Operator
  As_Value :: string

record 'c Step =
  Step_Name :: string
  Step_Protocol :: string
  Step_Config :: "'c option"
  Step_Weight :: int
  Step_Checks :: "Check list"
  Step_Captures :: "Capture list"
  Step_Assertions :: "Assertion list"

text \<open>
  A configuration as \<open>reflect\<close> shows it: what \<open>textsOf\<close> of \<open>references_model.go\<close> walks. A slice of
  bytes is one text, a field that is not exported is skipped and every other kind holds no text.
\<close>

datatype go_value = GoNil | GoPointer go_value | GoStruct "(bool \<times> go_value) list" | GoBytes string
  | GoList "go_value list" | GoMap "(go_value \<times> go_value) list" | GoString string | GoOther

fun collectTexts :: "go_value \<Rightarrow> string list" where
  "collectTexts GoNil = []"
| "collectTexts (GoPointer v) = collectTexts v"
| "collectTexts (GoStruct members) = concat (map (\<lambda>(exported, field). if exported then collectTexts field else []) members)"
| "collectTexts (GoBytes bytes) = [bytes]"
| "collectTexts (GoList elements) = concat (map collectTexts elements)"
| "collectTexts (GoMap entries) = concat (map (\<lambda>(key, v). collectTexts key @ collectTexts v) entries)"
| "collectTexts (GoString s) = [s]"
| "collectTexts GoOther = []"

definition textsOf :: "go_value \<Rightarrow> string list" where
  "textsOf v = collectTexts v"

record 'c config_methods =
  Method_AggregationKey :: "'c \<Rightarrow> string"
  Method_Describe :: "'c \<Rightarrow> string list option"
  Method_Value :: "'c \<Rightarrow> go_value"
  Method_Brokers :: "'c \<Rightarrow> (string \<times> string list) option"

definition AggregationKey :: "'c config_methods \<Rightarrow> 'c Step \<Rightarrow> string" where
  "AggregationKey methods step =
    (case Step_Config step of None \<Rightarrow> Step_Name step | Some config \<Rightarrow> Method_AggregationKey methods config)"

section \<open>Load\<close>

datatype ArrivalModel = OpenArrival | ClosedArrival

datatype PhaseKind = PhaseRamp | PhaseSteady | PhaseSpike

record Phase =
  Ph_Kind :: PhaseKind
  Ph_From :: real
  Ph_To :: real
  Ph_For :: Duration

record LoadPlan =
  Load_Model :: ArrivalModel
  Load_Phases :: "Phase list"
  Load_Users :: int
  Load_For :: Duration
  Load_ThinkTime :: Duration

definition Closed :: "LoadPlan \<Rightarrow> bool" where
  "Closed plan \<longleftrightarrow> Load_Model plan = ClosedArrival"

definition InitialRate :: "Phase \<Rightarrow> real" where
  "InitialRate phase = (if Ph_Kind phase = PhaseRamp then Ph_From phase else Ph_To phase)"

definition FinalRate :: "Phase \<Rightarrow> real" where
  "FinalRate phase = Ph_To phase"

section \<open>Authentication, data, criteria, brokers\<close>

datatype AuthKind = AuthToken | AuthBasic | AuthHeader

record 'c Auth =
  Auth_Kind :: AuthKind
  Auth_Obtain :: "'c Step option"
  Auth_RefreshAfter :: Duration
  Auth_Header :: string
  Auth_User :: string
  Auth_Password :: string

datatype ConsumePolicy = ConsumeSequential | ConsumeRandom | ConsumeCircular | ConsumeUniquePerUser

record Generator =
  Gen_Recipe :: string
  Gen_Format :: string
  Gen_PerUse :: bool

record DataSource =
  Data_Name :: string
  Data_File :: string
  Data_Consume :: ConsumePolicy
  Data_Seed :: int
  Data_SeedFrom :: string
  Data_Fields :: "(string, Generator) gomap"

definition Synthetic :: "DataSource \<Rightarrow> bool" where
  "Synthetic source \<longleftrightarrow> Data_File source = ''''"

definition UsesSeed :: "DataSource \<Rightarrow> bool" where
  "UsesSeed source \<longleftrightarrow> Synthetic source \<or> Data_Consume source = ConsumeRandom"

datatype SLOScope = ScopeStep | ScopeOverall | ScopeJourney | ScopeRegression

record SLORule =
  Rule_Scope :: SLOScope
  Rule_Step :: string
  Rule_Metric :: string
  Rule_Operator :: Operator
  Rule_Limit :: real
  Rule_Unit :: string
  Rule_Text :: string

record BrokerAuth =
  BA_Kind :: string
  BA_User :: string
  BA_UserVar :: string
  BA_PasswordVar :: string
  BA_Password :: string
  BA_Region :: string

record TLS =
  TLS_Enabled :: bool
  TLS_CA :: string
  TLS_Certificate :: string
  TLS_Key :: string

record Broker =
  Br_Addresses :: "string list"
  Br_Auth :: BrokerAuth
  Br_TLS :: TLS

record Settings =
  Set_Kafka :: "Broker option"
  Set_AMQP :: "Broker option"

definition BrokerFor :: "Settings option \<Rightarrow> string \<Rightarrow> Broker option" where
  "BrokerFor settings protocolName =
    (case settings of None \<Rightarrow> None
     | Some s \<Rightarrow> if protocolName = ''kafka'' then Set_Kafka s
                 else if protocolName = ''amqp'' then Set_AMQP s else None)"

section \<open>The scenario\<close>

record 'c Spec =
  Spec_Name :: string
  Spec_Target :: string
  Spec_Requires :: "string list"
  Spec_MissingEnvironment :: "string list"
  Spec_Vars :: "(string, string) gomap"
  Spec_Auth :: "'c Auth option"
  Spec_Messaging :: "Settings option"
  Spec_TLS :: "TLS option"
  Spec_Data :: "DataSource list"
  Spec_Load :: LoadPlan
  Spec_Steps :: "'c Step list"
  Spec_SLO :: "SLORule list"

definition Spec_Duration :: "'c Spec \<Rightarrow> Duration" where
  "Spec_Duration spec =
    (if Closed (Spec_Load spec) then Load_For (Spec_Load spec)
     else sum_list (map Ph_For (Load_Phases (Spec_Load spec))))"

definition FindStep :: "'c Spec \<Rightarrow> string \<Rightarrow> 'c Step option" where
  "FindStep spec name = List.find (\<lambda>step. Step_Name step = name) (Spec_Steps spec)"

text \<open>\<open>SeedsFromEnvironment\<close>: which environment variable decided the seed of each source.\<close>

definition SeedsFromEnvironment :: "'c Spec \<Rightarrow> (string, string) gomap" where
  "SeedsFromEnvironment spec =
    foldl (\<lambda>origins source.
      if Data_SeedFrom source \<noteq> '''' then gput origins (Data_Name source) (Data_SeedFrom source) else origins)
      [] (Spec_Data spec)"

end
