(* ===== verification/Interpolation.thy ===== *)
theory Interpolation
  imports Model
begin

text \<open>
  The \<open>${name}\<close> and \<open>${name:-fallback}\<close> references of a scenario. Two regular expressions read
  them: the one of \<open>internal/scenario/yaml.go\<close>, used when a file is read and checked, and the one
  of \<open>internal/runtime/values.go\<close>, used at every request. They differ in the characters of a
  name: the second one also takes a hyphen. Both are modelled by one scanner with the class of
  name characters as its argument; \<open>FindAll\<close> and \<open>ReplaceAllStringFunc\<close> visit the leftmost
  non-overlapping matches, which is what the scanner produces.
\<close>

section \<open>Scanning\<close>

definition letter_char :: "char \<Rightarrow> bool" where
  "letter_char c \<longleftrightarrow> (CHR ''A'' \<le> c \<and> c \<le> CHR ''Z'') \<or> (CHR ''a'' \<le> c \<and> c \<le> CHR ''z'')"

definition name_start :: "char \<Rightarrow> bool" where
  "name_start c \<longleftrightarrow> letter_char c \<or> c = CHR ''_''"

definition scenario_name_char :: "char \<Rightarrow> bool" where
  "scenario_name_char c \<longleftrightarrow> letter_char c \<or> is_digit c \<or> c = CHR ''_'' \<or> c = CHR ''.''"

definition runtime_name_char :: "char \<Rightarrow> bool" where
  "runtime_name_char c \<longleftrightarrow> scenario_name_char c \<or> c = CHR ''-''"

text \<open>A match of the pattern at the start of a text: the name, the fallback and what follows.\<close>

definition matchVar :: "(char \<Rightarrow> bool) \<Rightarrow> string \<Rightarrow> (string \<times> string option \<times> string) option" where
  "matchVar name_char s =
    (case s of
       d # b # c # r \<Rightarrow>
         if d = CHR ''$'' \<and> b = CHR ''{'' \<and> name_start c then
           (let name = c # takeWhile name_char r; rest = dropWhile name_char r
            in case rest of
                 [] \<Rightarrow> None
               | e # rest' \<Rightarrow>
                   if e = CHR ''}'' then Some (name, None, rest')
                   else if e = CHR '':'' \<and> rest' \<noteq> [] \<and> hd rest' = CHR ''-'' then
                     (let fallback = takeWhile (\<lambda>x. x \<noteq> CHR ''}'') (tl rest');
                          after = dropWhile (\<lambda>x. x \<noteq> CHR ''}'') (tl rest')
                      in if after = [] then None else Some (name, Some fallback, tl after))
                   else None)
         else None
     | _ \<Rightarrow> None)"

datatype segment = Lit char | Ref nat string "string option"

definition or_empty :: "string option \<Rightarrow> string" where
  "or_empty s = (case s of None \<Rightarrow> '''' | Some x \<Rightarrow> x)"

text \<open>The text an occurrence was read from.\<close>

definition occurrence :: "string \<Rightarrow> string option \<Rightarrow> string" where
  "occurrence name fallback =
    ''${'' @ name @ (case fallback of None \<Rightarrow> '''' | Some f \<Rightarrow> '':-'' @ f) @ ''}''"

lemma tl_dropWhile: "dropWhile (\<lambda>x. x \<noteq> y) xs \<noteq> [] \<Longrightarrow> takeWhile (\<lambda>x. x \<noteq> y) xs @ y # tl (dropWhile (\<lambda>x. x \<noteq> y) xs) = xs"
  by (metis (mono_tags, lifting) hd_dropWhile list.collapse takeWhile_dropWhile_id)

lemma matchVar_text:
  assumes m: "matchVar p s = Some (name, fallback, rest)"
  shows "s = occurrence name fallback @ rest"
proof -
  from m obtain c r where s: "s = CHR ''$'' # CHR ''{'' # c # r" and start: "name_start c"
    by (auto simp: matchVar_def split: list.splits if_splits)

  from m s start obtain e rest' where dw: "dropWhile p r = e # rest'" and name: "name = c # takeWhile p r"
    by (auto simp: matchVar_def Let_def split: list.splits if_splits)
  have r: "c # r = name @ e # rest'" using dw name by (metis append_Cons takeWhile_dropWhile_id)
  show ?thesis
  proof (cases "e = CHR ''}''")
    case True
    with m s start dw have "fallback = None" "rest = rest'"
      by (auto simp: matchVar_def Let_def split: if_splits)
    with s True r show ?thesis by (simp add: occurrence_def)
  next
    case False
    with m s start dw have e: "e = CHR '':''" "rest' \<noteq> []" "hd rest' = CHR ''-''"
      and after: "dropWhile (\<lambda>x. x \<noteq> CHR ''}'') (tl rest') \<noteq> []"
      and fb: "fallback = Some (takeWhile (\<lambda>x. x \<noteq> CHR ''}'') (tl rest'))"
      and rest: "rest = tl (dropWhile (\<lambda>x. x \<noteq> CHR ''}'') (tl rest'))"
      by (auto simp: matchVar_def Let_def split: if_splits)
    from e obtain t where t: "rest' = CHR ''-'' # t" by (cases rest') auto
    from fb obtain f where f: "fallback = Some f" by blast
    with tl_dropWhile[of "CHR ''}''" t] after fb rest t have "t = f @ CHR ''}'' # rest" by simp
    with s r e(1) f t show ?thesis by (simp add: occurrence_def)
  qed
qed

lemma matchVar_shorter:
  "matchVar p s = Some (name, fallback, rest) \<Longrightarrow> length rest < length s"
  by (drule matchVar_text) (simp add: occurrence_def)

function scanVars :: "(char \<Rightarrow> bool) \<Rightarrow> nat \<Rightarrow> string \<Rightarrow> segment list" where
  "scanVars p offset [] = []"
| "scanVars p offset (c # s) =
    (case matchVar p (c # s) of
       None \<Rightarrow> Lit c # scanVars p (Suc offset) s
     | Some (name, fallback, rest) \<Rightarrow>
         Ref offset name fallback # scanVars p (offset + (Suc (length s) - length rest)) rest)"
  by pat_completeness auto
termination
  by (relation "measure (\<lambda>(p, offset, s). length s)") (auto dest: matchVar_shorter)

fun segment_text :: "segment \<Rightarrow> string" where
  "segment_text (Lit c) = [c]"
| "segment_text (Ref offset name fallback) = occurrence name fallback"

section \<open>The references of a text\<close>

record reference =
  ref_name :: string
  ref_hasDefault :: bool
  ref_offset :: nat

definition referencesIn :: "string \<Rightarrow> reference list" where
  "referencesIn text =
    (if \<not> Contains text ''${'' then []
     else List.map_filter (\<lambda>seg. case seg of Lit c \<Rightarrow> None
       | Ref offset name fallback \<Rightarrow>
           Some \<lparr>ref_name = name, ref_hasDefault = (fallback \<noteq> None), ref_offset = offset\<rparr>)
       (scanVars scenario_name_char 0 text))"

text \<open>\<open>environmentName\<close>: an upper-case letter, then upper-case letters, digits and underscores.\<close>

definition IsEnvironmentName :: "string \<Rightarrow> bool" where
  "IsEnvironmentName name \<longleftrightarrow>
    (case name of [] \<Rightarrow> False
     | c # r \<Rightarrow> (CHR ''A'' \<le> c \<and> c \<le> CHR ''Z'') \<and>
         (\<forall>x \<in> set r. (CHR ''A'' \<le> x \<and> x \<le> CHR ''Z'') \<or> is_digit x \<or> x = CHR ''_''))"

text \<open>The environment of the process is the argument \<open>env\<close>, read by \<open>os.LookupEnv\<close>.\<close>

type_synonym environ = "string \<Rightarrow> string option"

definition UnresolvedEnvironment :: "environ \<Rightarrow> string \<Rightarrow> string list" where
  "UnresolvedEnvironment env text =
    map ref_name (filter (\<lambda>used.
      \<not> (ref_hasDefault used \<or> \<not> IsEnvironmentName (ref_name used) \<or> env (ref_name used) \<noteq> None))
      (referencesIn text))"

definition ExpandFromEnv :: "environ \<Rightarrow> string \<Rightarrow> string" where
  "ExpandFromEnv env text =
    concat (map (\<lambda>seg. case seg of Lit c \<Rightarrow> [c]
      | Ref offset name fallback \<Rightarrow>
          (case env name of Some value \<Rightarrow> value | None \<Rightarrow> or_empty fallback))
      (scanVars scenario_name_char 0 text))"

definition Interpolate :: "environ \<Rightarrow> string \<Rightarrow> (string, string) gomap \<Rightarrow> string" where
  "Interpolate env text vars =
    (if text = '''' then text
     else concat (map (\<lambda>seg. case seg of Lit c \<Rightarrow> [c]
      | Ref offset name fallback \<Rightarrow>
          (case gget vars name of Some value \<Rightarrow> value
           | None \<Rightarrow> case env name of Some value \<Rightarrow> value | None \<Rightarrow> or_empty fallback))
      (scanVars scenario_name_char 0 text)))"

definition expandDefinedEnvironment :: "environ \<Rightarrow> string \<Rightarrow> string" where
  "expandDefinedEnvironment env text =
    (if \<not> Contains text ''${'' then text
     else concat (map (\<lambda>seg. case seg of Lit c \<Rightarrow> [c]
      | Ref offset name fallback \<Rightarrow>
          if \<not> IsEnvironmentName name then occurrence name fallback
          else (case env name of Some value \<Rightarrow> value
           | None \<Rightarrow> if Contains (occurrence name fallback) '':-'' then or_empty fallback
                     else occurrence name fallback))
      (scanVars scenario_name_char 0 text)))"

definition interpolateKnown :: "environ \<Rightarrow> string \<Rightarrow> (string, string) gomap \<Rightarrow> string" where
  "interpolateKnown env text vars =
    (if \<not> Contains text ''${'' then text
     else concat (map (\<lambda>seg. case seg of Lit c \<Rightarrow> [c]
      | Ref offset name fallback \<Rightarrow>
          (case gget vars name of Some value \<Rightarrow> value
           | None \<Rightarrow> case env name of Some value \<Rightarrow> value
           | None \<Rightarrow> if Contains (occurrence name fallback) '':-'' then or_empty fallback
                     else occurrence name fallback))
      (scanVars scenario_name_char 0 text)))"

section \<open>Scanning loses nothing\<close>

declare scanVars.simps(2) [simp del]

lemma scanVars_text: "concat (map segment_text (scanVars p offset s)) = s"
proof (induction p offset s rule: scanVars.induct)
  case (2 p offset c s)
  show ?case
  proof (cases "matchVar p (c # s)")
    case None
    with 2(1)[OF None] show ?thesis by (simp add: scanVars.simps)
  next
    case (Some m)
    obtain name fallback rest where m: "m = (name, fallback, rest)" by (cases m) auto
    have "scanVars p offset (c # s) =
        Ref offset name fallback # scanVars p (offset + (Suc (length s) - length rest)) rest"
      by (simp add: scanVars.simps Some m)
    moreover have "c # s = occurrence name fallback @ rest" using matchVar_text Some m by blast
    ultimately show ?thesis using 2(2)[OF Some, of name "(fallback, rest)" fallback rest] m by simp
  qed
qed simp

lemma matchVar_prefix: "matchVar p s = Some m \<Longrightarrow> HasPrefix s ''${''"
  by (auto simp: matchVar_def HasPrefix_def split: list.splits if_splits)

lemma scanVars_no_ref:
  "\<not> Contains s ''${'' \<Longrightarrow> scanVars p offset s = map Lit s"
proof (induction s arbitrary: offset)
  case (Cons c s)
  then have "matchVar p (c # s) = None"
    using matchVar_prefix[of p "c # s"] by (cases "matchVar p (c # s)") auto
  with Cons show ?case by (simp add: scanVars.simps)
qed simp

section \<open>The two patterns\<close>

lemma runtime_of_scenario: "scenario_name_char c \<Longrightarrow> runtime_name_char c"
  by (simp add: runtime_name_char_def)

lemma takeWhile_same:
  "\<forall>c \<in> set (takeWhile q s). p c \<Longrightarrow> (\<And>c. p c \<Longrightarrow> q c) \<Longrightarrow>
   takeWhile p s = takeWhile q s \<and> dropWhile p s = dropWhile q s"
proof (induction s)
  case (Cons c s)
  show ?case
  proof (cases "q c")
    case True
    with Cons show ?thesis by simp
  next
    case False
    with Cons.prems(2)[of c] show ?thesis by auto
  qed
qed simp

lemma stop_char_not_name:
  "\<not> runtime_name_char CHR ''}''" "\<not> runtime_name_char CHR '':''"
  "\<not> scenario_name_char CHR ''-''"
  by (simp_all add: runtime_name_char_def scenario_name_char_def letter_char_def is_digit_def less_eq_char_def)

text \<open>Where the pattern of the run matches with a name free of hyphens, so does the pattern of the check.\<close>

lemma matchVar_agree_Some:
  assumes m: "matchVar runtime_name_char s = Some (name, fallback, rest)" and h: "CHR ''-'' \<notin> set name"
  shows "matchVar scenario_name_char s = Some (name, fallback, rest)"
proof -
  from m obtain c r where s: "s = CHR ''$'' # CHR ''{'' # c # r" and start: "name_start c"
    by (auto simp: matchVar_def split: list.splits if_splits)
  from m s start have "name = c # takeWhile runtime_name_char r"
    by (auto simp: matchVar_def Let_def split: list.splits if_splits)
  with h have "CHR ''-'' \<notin> set (takeWhile runtime_name_char r)" by simp
  then have "\<forall>x \<in> set (takeWhile runtime_name_char r). scenario_name_char x"
    using set_takeWhileD[of _ runtime_name_char r] unfolding runtime_name_char_def by metis
  from takeWhile_same[OF this runtime_of_scenario]
  have "takeWhile scenario_name_char r = takeWhile runtime_name_char r"
    "dropWhile scenario_name_char r = dropWhile runtime_name_char r" by auto
  with m s start show ?thesis by (simp add: matchVar_def)
qed

lemma matchVar_agree_None:
  assumes m: "matchVar runtime_name_char s = None"
  shows "matchVar scenario_name_char s = None"
proof (rule ccontr)
  assume "matchVar scenario_name_char s \<noteq> None"
  then obtain name fallback rest where sc: "matchVar scenario_name_char s = Some (name, fallback, rest)"
    by auto
  then obtain c r where s: "s = CHR ''$'' # CHR ''{'' # c # r" and start: "name_start c"
    by (auto simp: matchVar_def split: list.splits if_splits)
  from sc s start obtain e rest' where dw: "dropWhile scenario_name_char r = e # rest'"
    and e: "e = CHR ''}'' \<or> e = CHR '':''"
    by (auto simp: matchVar_def Let_def split: list.splits if_splits)
  have r: "r = takeWhile scenario_name_char r @ e # rest'" using dw by (metis takeWhile_dropWhile_id)
  have all: "\<forall>x \<in> set (takeWhile scenario_name_char r). runtime_name_char x"
    by (auto dest: set_takeWhileD intro: runtime_of_scenario)
  have "\<not> runtime_name_char e" using e stop_char_not_name by auto
  then have "takeWhile runtime_name_char r = takeWhile scenario_name_char r"
    "dropWhile runtime_name_char r = e # rest'"
    using all r by (metis takeWhile_append2 takeWhile.simps(2) append_Nil2,
      metis dropWhile_append2 dropWhile.simps(2))
  with m sc s dw start show False by (simp add: matchVar_def)
qed

lemma scanVars_agree:
  assumes "\<forall>offset' name fallback. Ref offset' name fallback \<in> set (scanVars runtime_name_char offset s)
      \<longrightarrow> CHR ''-'' \<notin> set name"
  shows "scanVars scenario_name_char offset s = scanVars runtime_name_char offset s"
  using assms
proof (induction "runtime_name_char" offset s rule: scanVars.induct)
  case (2 offset c s)
  show ?case
  proof (cases "matchVar runtime_name_char (c # s)")
    case None
    with 2(1)[OF None] 2(3) matchVar_agree_None[OF None] show ?thesis
      by (simp add: scanVars.simps)
  next
    case (Some m)
    obtain name fallback rest where m: "m = (name, fallback, rest)" by (cases m) auto
    with Some 2(3) have "CHR ''-'' \<notin> set name" by (simp add: scanVars.simps)
    with Some m have "matchVar scenario_name_char (c # s) = Some (name, fallback, rest)"
      using matchVar_agree_Some by blast
    moreover from 2(3) Some m have "\<forall>offset' name fallback.
        Ref offset' name fallback \<in> set (scanVars runtime_name_char (offset + (Suc (length s) - length rest)) rest)
        \<longrightarrow> CHR ''-'' \<notin> set name" by (simp add: scanVars.simps)
    with 2(2)[OF Some, of name "(fallback, rest)" fallback rest] m
    have "scanVars scenario_name_char (offset + (Suc (length s) - length rest)) rest =
        scanVars runtime_name_char (offset + (Suc (length s) - length rest)) rest" by blast
    ultimately show ?thesis using Some m by (simp add: scanVars.simps)
  qed
qed simp

section \<open>Properties\<close>

text \<open>Splitting a text at its references loses nothing: the literal characters and the source text
  of the references, put back together, are the text.\<close>

theorem scanVars_roundtrip:
  "concat (map segment_text (scanVars scenario_name_char 0 text)) = text
   \<and> concat (map segment_text (scanVars runtime_name_char 0 text)) = text"
  by (simp add: scanVars_text)

text \<open>The check made when the file is read and the substitution made at every request see the
  same references in a text, as long as none of the names the run substitutes has a hyphen.\<close>

theorem check_and_run_see_same_references:
  assumes "\<forall>offset name fallback. Ref offset name fallback \<in> set (scanVars runtime_name_char 0 text)
      \<longrightarrow> CHR ''-'' \<notin> set name"
  shows "scanVars scenario_name_char 0 text = scanVars runtime_name_char 0 text"
  using assms by (rule scanVars_agree)

theorem check_and_run_see_same_references_witness:
  "scanVars scenario_name_char 0 ''/o/${a.id:-x-1}'' = scanVars runtime_name_char 0 ''/o/${a.id:-x-1}''
   \<and> Ref 3 ''a.id'' (Some ''x-1'') \<in> set (scanVars scenario_name_char 0 ''/o/${a.id:-x-1}'')"
proof -
  have scan: "scanVars runtime_name_char 0 ''/o/${a.id:-x-1}'' =
    [Lit CHR ''/'', Lit CHR ''o'', Lit CHR ''/'', Ref 3 ''a.id'' (Some ''x-1'')]" by code_simp
  have "scanVars scenario_name_char 0 ''/o/${a.id:-x-1}'' = scanVars runtime_name_char 0 ''/o/${a.id:-x-1}''"
    by (rule check_and_run_see_same_references) (simp add: scan)
  with scan show ?thesis by simp
qed

end
