(* ===== verification/Values.thy ===== *)
theory Values
  imports Interpolation
begin

text \<open>
  The variables of one iteration (\<open>internal/runtime/values.go\<close>): the values, the uses noted for the
  observed variety and the generators that make a new value at every use.

  A per-use generator is a closure over the state of its data source. The model keeps the closures
  as keys of type \<open>'g\<close> and takes the function \<open>generate\<close> that runs one: it maps a generator and
  the state \<open>'w\<close> of the sources to a value, or to \<open>None\<close> for the error, and the next state.
\<close>

record 'g Values =
  VirtualUser :: int
  Iteration :: int
  vals :: "(string, string) gomap"
  uses :: "(string, string) gomap"
  perUse :: "(string, 'g) gomap"

definition New :: "int \<Rightarrow> int \<Rightarrow> (string, string) gomap \<Rightarrow> 'g Values" where
  "New virtualUser iteration base =
    \<lparr>VirtualUser = virtualUser, Iteration = iteration, vals = foldl (\<lambda>m (n, v). gput m n v) [] base,
     uses = [], perUse = []\<rparr>"

definition Set :: "'g Values \<Rightarrow> string \<Rightarrow> string \<Rightarrow> 'g Values" where
  "Set values name value = values\<lparr>vals := gput (vals values) name value\<rparr>"

definition SetAll :: "'g Values \<Rightarrow> (string, string) gomap \<Rightarrow> 'g Values" where
  "SetAll values incoming =
    values\<lparr>vals := foldl (\<lambda>m (n, v). gput m n v) (vals values) incoming\<rparr>"

definition Value :: "'g Values \<Rightarrow> string \<Rightarrow> string option" where
  "Value values name = gget (vals values) name"

definition SetPerUse :: "'g Values \<Rightarrow> string \<Rightarrow> 'g \<Rightarrow> 'g Values" where
  "SetPerUse values name generator = values\<lparr>perUse := gput (perUse values) name generator\<rparr>"

definition generatorFor :: "'g Values \<Rightarrow> string \<Rightarrow> 'g option" where
  "generatorFor values name = gget (perUse values) name"

definition noteUse :: "'g Values \<Rightarrow> string \<Rightarrow> string \<Rightarrow> 'g Values" where
  "noteUse values name value = values\<lparr>uses := gput (uses values) name value\<rparr>"

definition Uses :: "'g Values \<Rightarrow> (string, string) gomap" where
  "Uses values = uses values"

definition Unresolved :: "string \<Rightarrow> string list" where
  "Unresolved text = List.map_filter (\<lambda>seg. case seg of Lit c \<Rightarrow> None | Ref offset name fallback \<Rightarrow> Some name)
    (scanVars runtime_name_char 0 text)"

type_synonym ('g, 'w) generate = "'g \<Rightarrow> 'w \<Rightarrow> string option \<times> 'w"

text \<open>What one occurrence becomes: the generator first, then the value, the environment, the fallback.\<close>

definition resolve_stored :: "environ \<Rightarrow> 'g Values \<Rightarrow> string \<Rightarrow> string option \<Rightarrow> string \<times> 'g Values" where
  "resolve_stored env values name fallback =
    (case Value values name of
       Some value \<Rightarrow> (value, noteUse values name value)
     | None \<Rightarrow> case env name of Some value \<Rightarrow> (value, values) | None \<Rightarrow> (or_empty fallback, values))"

definition resolve_occurrence ::
  "('g, 'w) generate \<Rightarrow> environ \<Rightarrow> 'g Values \<Rightarrow> 'w \<Rightarrow> string \<Rightarrow> string option \<Rightarrow> string \<times> 'g Values \<times> 'w" where
  "resolve_occurrence generate env values w name fallback =
    (case generatorFor values name of
       Some g \<Rightarrow> (case generate g w of
           (Some value, w') \<Rightarrow> (value, noteUse values name value, w')
         | (None, w') \<Rightarrow> (case resolve_stored env values name fallback of (t, values') \<Rightarrow> (t, values', w')))
     | None \<Rightarrow> (case resolve_stored env values name fallback of (t, values') \<Rightarrow> (t, values', w)))"

fun resolve_segments ::
  "('g, 'w) generate \<Rightarrow> environ \<Rightarrow> 'g Values \<Rightarrow> 'w \<Rightarrow> segment list \<Rightarrow> string \<times> 'g Values \<times> 'w" where
  "resolve_segments generate env values w [] = ('''', values, w)"
| "resolve_segments generate env values w (Lit c # segs) =
    (case resolve_segments generate env values w segs of (t, s) \<Rightarrow> (c # t, s))"
| "resolve_segments generate env values w (Ref offset name fallback # segs) =
    (case resolve_occurrence generate env values w name fallback of (t, values', w') \<Rightarrow>
       (case resolve_segments generate env values' w' segs of (t', s) \<Rightarrow> (t @ t', s)))"

definition Resolve ::
  "('g, 'w) generate \<Rightarrow> environ \<Rightarrow> 'g Values \<Rightarrow> 'w \<Rightarrow> string \<Rightarrow> string \<times> 'g Values \<times> 'w" where
  "Resolve generate env values w text =
    (if text = '''' then (text, values, w)
     else resolve_segments generate env values w (scanVars runtime_name_char 0 text))"

section \<open>What substitution keeps and notes\<close>

lemma vals_noteUse [simp, field_simps_of_ops]:
  "vals (noteUse values name value) = vals values" "perUse (noteUse values name value) = perUse values"
  by (simp_all add: noteUse_def)

lemma Value_noteUse [simp]: "Value (noteUse values name value) = Value values"
  by (simp add: Value_def fun_eq_iff)

lemma Value_Set [simp]: "Value (Set values name value) n = (if n = name then Some value else Value values n)"
  by (simp add: Value_def Set_def)

lemma Value_New: "gmap_ok base \<Longrightarrow> Value (New u i base) name = gget base name"
  by (simp add: Value_def New_def gget_foldl_gput gget_rev split: option.splits)

lemma Value_SetAll:
  "gmap_ok incoming \<Longrightarrow> Value (SetAll values incoming) name =
    (case gget incoming name of Some v \<Rightarrow> Some v | None \<Rightarrow> Value values name)"
  by (cases "gget incoming name") (simp_all add: Value_def SetAll_def gget_foldl_gput gget_rev)

lemma resolve_stored_state:
  "resolve_stored env values name fallback = (t, values') \<Longrightarrow>
   vals values' = vals values \<and> perUse values' = perUse values"
  by (auto simp: resolve_stored_def split: option.splits)

lemma resolve_occurrence_state:
  "resolve_occurrence generate env values w name fallback = (t, values', w') \<Longrightarrow>
   vals values' = vals values \<and> perUse values' = perUse values"
  by (auto simp: resolve_occurrence_def dest: resolve_stored_state split: option.splits prod.splits)

text \<open>What one substitution keeps, the substitution of a whole text keeps.\<close>

lemma resolve_segments_invariant:
  assumes occ: "\<And>v w n f t v' w'. resolve_occurrence generate env v w n f = (t, v', w') \<Longrightarrow> P v \<Longrightarrow> P v'"
    and "resolve_segments generate env values w segs = (t, values', w')" and "P values"
  shows "P values'"
  using assms(2,3)
proof (induction segs arbitrary: "values" w t)
  case (Cons seg segs)
  show ?case
  proof (cases seg)
    case (Lit c)
    with Cons show ?thesis by (auto split: prod.splits)
  next
    case (Ref offset name fallback)
    obtain t1 v1 w1 where o1: "resolve_occurrence generate env values w name fallback = (t1, v1, w1)"
      by (metis prod_cases3)
    moreover obtain t2 v2 w2 where "resolve_segments generate env v1 w1 segs = (t2, v2, w2)"
      by (metis prod_cases3)
    ultimately show ?thesis using Cons occ[OF o1] Ref by auto
  qed
qed simp

lemma resolve_segments_state:
  assumes "resolve_segments generate env values w segs = (t, values', w')"
  shows "vals values' = vals values \<and> perUse values' = perUse values"
  by (rule resolve_segments_invariant[OF _ assms, where P = "\<lambda>v. vals v = vals values \<and> perUse v = perUse values"])
    (auto dest: resolve_occurrence_state)

text \<open>What every generator keeps of the sources, a substitution keeps.\<close>

lemma Resolve_world_invariant:
  assumes gen: "\<And>g w r w'. generate g w = (r, w') \<Longrightarrow> Q w \<Longrightarrow> Q w'"
    and "Resolve generate env values w model = (t, values', w')" and "Q w"
  shows "Q w'"
proof -
  have occ: "resolve_occurrence generate env v w n f = (t, v', w') \<Longrightarrow> Q w \<Longrightarrow> Q w'" for v w n f t v' w'
    using gen by (auto simp: resolve_occurrence_def split: option.splits prod.splits)
  have "resolve_segments generate env v w segs = (t, v', w') \<Longrightarrow> Q w \<Longrightarrow> Q w'" for segs v w t v' w'
  proof (induction segs arbitrary: v w t)
    case (Cons seg segs)
    then show ?case using occ by (cases seg) (auto split: prod.splits)
  qed simp
  with assms(2,3) show ?thesis by (auto simp: Resolve_def split: if_splits)
qed

text \<open>With no per-use generators a substitution is a function of the stored values alone.\<close>

definition subst_occurrence :: "environ \<Rightarrow> 'g Values \<Rightarrow> string \<Rightarrow> string option \<Rightarrow> string" where
  "subst_occurrence env values name fallback =
    (case Value values name of Some v \<Rightarrow> v
     | None \<Rightarrow> case env name of Some v \<Rightarrow> v | None \<Rightarrow> or_empty fallback)"

definition subst_segment :: "environ \<Rightarrow> 'g Values \<Rightarrow> segment \<Rightarrow> string" where
  "subst_segment env values seg =
    (case seg of Lit c \<Rightarrow> [c] | Ref offset name fallback \<Rightarrow> subst_occurrence env values name fallback)"

lemma resolve_occurrence_pure:
  assumes "perUse values = []"
  shows "\<exists>values'. resolve_occurrence generate env values w name fallback =
      (subst_occurrence env values name fallback, values', w)
    \<and> vals values' = vals values \<and> perUse values' = []"
  using assms
  by (auto simp: resolve_occurrence_def generatorFor_def resolve_stored_def subst_occurrence_def
      split: option.splits)

lemma resolve_segments_pure:
  assumes "perUse values = []"
  shows "\<exists>values'. resolve_segments generate env values w segs =
      (concat (map (subst_segment env values) segs), values', w)"
  using assms
proof (induction segs arbitrary: "values")
  case (Cons seg segs)
  show ?case
  proof (cases seg)
    case (Lit c)
    with Cons.IH[OF Cons.prems] show ?thesis by (auto simp: subst_segment_def)
  next
    case (Ref offset name fallback)
    from resolve_occurrence_pure[OF Cons.prems] obtain values' where
      occ: "resolve_occurrence generate env values w name fallback =
        (subst_occurrence env values name fallback, values', w)"
      and keep: "vals values' = vals values" "perUse values' = []" by metis
    from keep(1) have same: "subst_segment env values' = subst_segment env values"
      by (auto simp: subst_segment_def subst_occurrence_def Value_def fun_eq_iff split: segment.splits)
    from Cons.IH[OF keep(2)] occ Ref same show ?thesis
      by (auto simp: subst_segment_def)
  qed
qed simp

text \<open>Every noted use of a variable with no generator is the value the variable has.\<close>

definition uses_true :: "'g Values \<Rightarrow> bool" where
  "uses_true values \<longleftrightarrow>
    (\<forall>name used. gget (uses values) name = Some used \<longrightarrow>
       generatorFor values name = None \<longrightarrow> Value values name = Some used)"

lemma uses_true_noteUse:
  "uses_true values \<Longrightarrow> Value values name = Some value \<or> generatorFor values name \<noteq> None \<Longrightarrow>
   uses_true (noteUse values name value)"
  by (auto simp: uses_true_def noteUse_def Value_def generatorFor_def)

lemma resolve_occurrence_uses:
  "resolve_occurrence generate env values w name fallback = (t, values', w') \<Longrightarrow>
   uses_true values \<Longrightarrow> uses_true values'"
  by (auto simp: resolve_occurrence_def resolve_stored_def intro: uses_true_noteUse
      split: option.splits prod.splits)

lemma resolve_segments_uses:
  "resolve_segments generate env values w segs = (t, values', w') \<Longrightarrow>
   uses_true values \<Longrightarrow> uses_true values'"
  by (rule resolve_segments_invariant[where P = uses_true]) (auto dest: resolve_occurrence_uses)

lemma uses_true_New: "uses_true (New u i base)"
  by (simp add: uses_true_def New_def)

section \<open>Properties\<close>

text \<open>Substituting a text at run time never changes a variable or a generator, and what it
  notes as used is what went out: every noted use of a variable without a generator is the value
  that variable has.\<close>

theorem Resolve_keeps_values_and_notes_truth:
  assumes "Resolve generate env values w text = (result, values', w')" and "uses_true values"
  shows "vals values' = vals values \<and> perUse values' = perUse values \<and> uses_true values'"
proof (cases "text = ''''")
  case True
  with assms show ?thesis by (simp add: Resolve_def)
next
  case False
  with assms(1) have "resolve_segments generate env values w (scanVars runtime_name_char 0 text)
      = (result, values', w')" by (simp add: Resolve_def)
  from resolve_segments_state[OF this] resolve_segments_uses[OF this assms(2)] show ?thesis by blast
qed

text \<open>A reference whose name has a hyphen is invisible to the check made when the scenario is
  read, and at run time it is substituted all the same: with no such variable and no such
  environment variable the request goes out with an empty field.\<close>

theorem hyphen_reference_escapes_the_check:
  "referencesIn ''/orders/${order-id}'' = [] \<and>
   fst (Resolve generate (\<lambda>_. None) (New u i []) w ''/orders/${order-id}'') = ''/orders/''"
proof -
  have check: "referencesIn ''/orders/${order-id}'' = []" by code_simp
  have scan: "scanVars runtime_name_char 0 ''/orders/${order-id}'' =
    map Lit ''/orders/'' @ [Ref 8 ''order-id'' None]" by code_simp
  have "perUse (New u i []) = []" by (simp add: New_def)
  from resolve_segments_pure[OF this, of generate "\<lambda>_. None" w "scanVars runtime_name_char 0 ''/orders/${order-id}''"]
  have "fst (resolve_segments generate (\<lambda>_. None) (New u i []) w (scanVars runtime_name_char 0 ''/orders/${order-id}''))
     = concat (map (subst_segment (\<lambda>_. None) (New u i [] :: 'a Values)) (map Lit ''/orders/'' @ [Ref 8 ''order-id'' None]))"
    unfolding scan by force
  also have "\<dots> = ''/orders/''"
    by (simp add: subst_segment_def subst_occurrence_def Value_New or_empty_def)
  finally show ?thesis using check by (simp add: Resolve_def)
qed

definition example_values :: "unit Values" where
  "example_values = Set (New 0 0 []) ''id'' ''7''"

theorem Resolve_keeps_values_and_notes_truth_witness:
  "fst (Resolve (\<lambda>_ w. (None, w)) (\<lambda>_. None) example_values () ''/o/${id}'') = ''/o/7''
   \<and> uses_true (fst (snd (Resolve (\<lambda>_ w. (None, w)) (\<lambda>_. None) example_values () ''/o/${id}'')))"
proof -
  have start: "uses_true example_values" by (simp add: uses_true_def example_values_def Set_def New_def)
  have run: "Resolve (\<lambda>_ w. (None, w)) (\<lambda>_. None) example_values () ''/o/${id}'' =
    (''/o/7'', noteUse example_values ''id'' ''7'', ())" by code_simp
  from Resolve_keeps_values_and_notes_truth[OF run start] run show ?thesis by simp
qed

end
