(* ===== verification/Plan.thy ===== *)
theory Plan
  imports Model
begin

text \<open>
  The open-arrival schedule (\<open>internal/engine/plan.go\<close>): a load plan compiled to phases with a
  linear rate, and the scheduled instant of the n-th request, found by inverting the integral of
  the rate. Proved: the instant found is the inverse of the count to the nanosecond, instants are
  ordered and stay inside the plan, and the declared peak bounds the rate at every instant.
\<close>

record compiledPhase =
  initialRate :: real
  finalRate :: real
  cp_duration :: Duration
  cp_start :: Duration
  accumulatedUntil :: real

record Plan =
  phases :: "compiledPhase list"
  plan_duration :: Duration
  totalRequests :: int

definition countInPhase :: "compiledPhase \<Rightarrow> Duration \<Rightarrow> real" where
  "countInPhase phase until =
    (if cp_duration phase \<le> 0 then 0
     else let elapsed = Seconds until; span = Seconds (cp_duration phase);
              slope = (finalRate phase - initialRate phase) / span
          in initialRate phase * elapsed + slope * elapsed * elapsed / 2)"

text \<open>The loop of \<open>CompilePlan\<close>: start and accumulated count run along with the phases.\<close>

fun compile_phases :: "Duration \<Rightarrow> real \<Rightarrow> Phase list \<Rightarrow> compiledPhase list \<times> Duration \<times> real" where
  "compile_phases start accumulated [] = ([], start, accumulated)"
| "compile_phases start accumulated (phase # rest) =
    (let current = \<lparr>initialRate = InitialRate phase, finalRate = FinalRate phase,
           cp_duration = Ph_For phase, cp_start = start, accumulatedUntil = accumulated\<rparr>
     in case compile_phases (start + Ph_For phase) (accumulated + countInPhase current (Ph_For phase)) rest of
          (compiled, finish, whole) \<Rightarrow> (current # compiled, finish, whole))"

definition CompilePlan :: "LoadPlan \<Rightarrow> Plan" where
  "CompilePlan plan =
    (if Closed plan then \<lparr>phases = [], plan_duration = Load_For plan, totalRequests = 0\<rparr>
     else case compile_phases 0 0 (Load_Phases plan) of
       (compiled, start, accumulated) \<Rightarrow>
         \<lparr>phases = compiled, plan_duration = start, totalRequests = \<lfloor>accumulated\<rfloor>\<rparr>)"

fun rate_loop :: "Duration \<Rightarrow> compiledPhase list \<Rightarrow> real" where
  "rate_loop instant [] = 0"
| "rate_loop instant (phase # rest) =
    (if instant < cp_start phase \<or> cp_start phase + cp_duration phase \<le> instant then rate_loop instant rest
     else let elapsed = Seconds (instant - cp_start phase);
              slope = (finalRate phase - initialRate phase) / Seconds (cp_duration phase)
          in initialRate phase + slope * elapsed)"

definition RateAt :: "Plan \<Rightarrow> Duration \<Rightarrow> real" where
  "RateAt plan instant = rate_loop instant (phases plan)"

text \<open>
  \<open>instantInPhase\<close>. Go's \<open>math.Sqrt\<close> of a negative number is not a number; the theorems below are
  about counts the phase holds, where the discriminant is never negative.
\<close>

definition secondsInPhase :: "compiledPhase \<Rightarrow> real \<Rightarrow> real" where
  "secondsInPhase phase howMany =
    (let span = Seconds (cp_duration phase);
         slope = (finalRate phase - initialRate phase) / span
     in if \<bar>slope\<bar> < 1 / 10 ^ 12 then howMany / initialRate phase
        else let quadratic = slope / 2; linear = initialRate phase
             in (- linear + sqrt (linear * linear + 4 * quadratic * howMany)) / (2 * quadratic))"

definition instantInPhase :: "compiledPhase \<Rightarrow> real \<Rightarrow> Duration" where
  "instantInPhase phase howMany =
    (if howMany \<le> 0 then 0 else trunc (secondsInPhase phase howMany * 1000000000))"

fun instant_loop :: "Duration \<Rightarrow> real \<Rightarrow> compiledPhase list \<Rightarrow> Duration" where
  "instant_loop duration target [] = duration"
| "instant_loop duration target (phase # rest) =
    (let inPhase = target - accumulatedUntil phase; last = (rest = [])
     in if \<not> last \<and> countInPhase phase (cp_duration phase) \<le> inPhase then instant_loop duration target rest
        else let instant = cp_start phase + instantInPhase phase inPhase
             in if duration < instant then duration else instant)"

definition InstantOf :: "Plan \<Rightarrow> int \<Rightarrow> Duration" where
  "InstantOf plan index = instant_loop (plan_duration plan) (real_of_int index) (phases plan)"

definition PeakRate :: "Plan \<Rightarrow> real" where
  "PeakRate plan =
    foldl (\<lambda>peak phase. max peak (max (initialRate phase) (finalRate phase))) 0 (phases plan)"

section \<open>One phase\<close>

text \<open>
  A phase the validation accepts: a positive duration and rates that are not negative. Slopes
  below \<open>10\<^sup>-\<^sup>1\<^sup>2\<close> are treated as flat by the code, so an exact inverse needs a slope that is zero or
  above that.
\<close>

definition good_phase :: "compiledPhase \<Rightarrow> bool" where
  "good_phase phase \<longleftrightarrow> 0 < cp_duration phase \<and> 0 \<le> initialRate phase \<and> 0 \<le> finalRate phase \<and>
    (finalRate phase = initialRate phase \<or>
     1 / 10 ^ 12 \<le> \<bar>(finalRate phase - initialRate phase) / Seconds (cp_duration phase)\<bar>)"

abbreviation area :: "compiledPhase \<Rightarrow> real" where
  "area phase \<equiv> countInPhase phase (cp_duration phase)"

text \<open>The integral of the rate up to \<open>x\<close> seconds into the phase.\<close>

definition integral_at :: "compiledPhase \<Rightarrow> real \<Rightarrow> real" where
  "integral_at phase x =
    initialRate phase * x + (finalRate phase - initialRate phase) / Seconds (cp_duration phase) * x * x / 2"

lemma countInPhase_integral:
  "0 < cp_duration phase \<Longrightarrow> countInPhase phase d = integral_at phase (Seconds d)"
  by (simp add: countInPhase_def integral_at_def Let_def)

lemma Seconds_pos [simp]: "0 < Seconds d \<longleftrightarrow> 0 < d"
  by (simp add: Seconds_def)

lemma Seconds_eq_0 [simp]: "Seconds d = 0 \<longleftrightarrow> d = 0"
  by (simp add: Seconds_def)

lemma Seconds_mono [simp]: "Seconds a \<le> Seconds b \<longleftrightarrow> a \<le> b"
  by (simp add: Seconds_def divide_le_cancel)

lemma area_trapezoid:
  "0 < cp_duration phase \<Longrightarrow>
   area phase = (initialRate phase + finalRate phase) / 2 * Seconds (cp_duration phase)"
proof -
  assume pos: "0 < cp_duration phase"
  then have "Seconds (cp_duration phase) \<noteq> 0" using Seconds_pos[of "cp_duration phase"] by linarith
  with pos show ?thesis by (simp add: countInPhase_integral integral_at_def field_simps)
qed

lemma area_nonneg: "good_phase phase \<Longrightarrow> 0 \<le> area phase"
proof -
  assume good: "good_phase phase"
  then have "0 \<le> (initialRate phase + finalRate phase) / 2 * Seconds (cp_duration phase)"
    using Seconds_pos[of "cp_duration phase"]
    by (intro mult_nonneg_nonneg) (simp_all add: good_phase_def less_imp_le)
  with good show ?thesis by (simp add: area_trapezoid good_phase_def)
qed

lemma rate_between:
  assumes "good_phase phase" "0 \<le> x" "x \<le> Seconds (cp_duration phase)"
  defines "rate \<equiv> initialRate phase + (finalRate phase - initialRate phase) / Seconds (cp_duration phase) * x"
  shows "min (initialRate phase) (finalRate phase) \<le> rate \<and> rate \<le> max (initialRate phase) (finalRate phase)"
proof -
  let ?s = "Seconds (cp_duration phase)" and ?r0 = "initialRate phase" and ?r1 = "finalRate phase"
  have s: "0 < ?s" using assms(1) by (simp add: good_phase_def)
  define l where "l = x / ?s"
  have l: "0 \<le> l" "l \<le> 1" using assms(2,3) s by (simp_all add: l_def)
  have r: "rate = (1 - l) * ?r0 + l * ?r1" by (simp add: rate_def l_def algebra_simps diff_divide_distrib)
  have "(1 - l) * min ?r0 ?r1 \<le> (1 - l) * ?r0" "l * min ?r0 ?r1 \<le> l * ?r1"
    "(1 - l) * ?r0 \<le> (1 - l) * max ?r0 ?r1" "l * ?r1 \<le> l * max ?r0 ?r1"
    using l by (auto intro!: mult_left_mono)
  then show ?thesis unfolding r by (auto simp: algebra_simps)
qed

text \<open>The integral grows inside the phase, because the rate is never negative there.\<close>

lemma integral_mono:
  assumes "good_phase phase" "0 \<le> x" "x \<le> y" "y \<le> Seconds (cp_duration phase)"
  shows "integral_at phase x \<le> integral_at phase y"
proof -
  define k where "k = (finalRate phase - initialRate phase) / Seconds (cp_duration phase)"
  have "0 \<le> min (initialRate phase) (finalRate phase)" using assms(1) by (simp add: good_phase_def)
  then have "0 \<le> initialRate phase + k * x" "0 \<le> initialRate phase + k * y"
    using rate_between[OF assms(1), of x] rate_between[OF assms(1), of y] assms unfolding k_def by linarith+
  then have "0 \<le> (y - x) * ((initialRate phase + k * x) + (initialRate phase + k * y)) / 2"
    using assms(3) by simp
  also have "\<dots> = integral_at phase y - integral_at phase x"
    unfolding integral_at_def k_def[symmetric] by (simp add: field_simps)
  finally show ?thesis by simp
qed

section \<open>The inverse of the integral\<close>

text \<open>The quadratic case on its own: \<open>x\<close> solves \<open>r x + k x\<^sup>2 / 2 = c\<close>.\<close>

lemma quadratic_root:
  fixes r k c :: real
  assumes "k \<noteq> 0" "0 \<le> r * r + 2 * k * c"
  defines "x \<equiv> (- r + sqrt (r * r + 2 * k * c)) / k"
  shows "r * x + k * x * x / 2 = c"
proof -
  define y where "y = sqrt (r * r + 2 * k * c)"
  have y2: "y * y = r * r + 2 * k * c" using assms(2) by (simp add: y_def)
  have x: "x = (y - r) / k" by (simp add: x_def y_def)
  have "r * x + k * x * x / 2 = (y * y - r * r) / (2 * k)"
    using assms(1) unfolding x by (simp add: field_simps)
  also have "\<dots> = c" using assms(1) y2 by simp
  finally show ?thesis .
qed

lemma secondsInPhase_flat:
  assumes "good_phase phase" "finalRate phase = initialRate phase"
  shows "secondsInPhase phase c = c / initialRate phase"
  using assms by (simp add: secondsInPhase_def)

lemma secondsInPhase_slope:
  assumes "good_phase phase" "finalRate phase \<noteq> initialRate phase"
  defines "k \<equiv> (finalRate phase - initialRate phase) / Seconds (cp_duration phase)"
  shows "secondsInPhase phase c =
    (- initialRate phase + sqrt (initialRate phase * initialRate phase + 2 * k * c)) / k"
proof -
  have "\<not> \<bar>k\<bar> < 1 / 10 ^ 12" using assms(1,2) by (auto simp: good_phase_def k_def)
  then show ?thesis
    unfolding secondsInPhase_def Let_def k_def[symmetric] by simp
qed

text \<open>A count the phase holds: the root is inside the phase and integrates to the count.\<close>

lemma secondsInPhase_inverse:
  assumes good: "good_phase phase" and c: "0 < c" "c \<le> area phase"
  shows "integral_at phase (secondsInPhase phase c) = c"
    and "0 \<le> secondsInPhase phase c"
    and "secondsInPhase phase c \<le> Seconds (cp_duration phase)"
proof -
  let ?r0 = "initialRate phase" and ?r1 = "finalRate phase" and ?s = "Seconds (cp_duration phase)"
  have s: "0 < ?s" and r: "0 \<le> ?r0" "0 \<le> ?r1" using good by (auto simp: good_phase_def)
  have area: "area phase = (?r0 + ?r1) / 2 * ?s" using good by (simp add: area_trapezoid good_phase_def)
  have "integral_at phase (secondsInPhase phase c) = c \<and> 0 \<le> secondsInPhase phase c
    \<and> secondsInPhase phase c \<le> ?s"
  proof (cases "?r1 = ?r0")
    case True
    then have "c \<le> ?r0 * ?s" using c(2) area by simp
    with c(1) s r(1) have r0: "0 < ?r0" by (cases "?r0 = 0") auto
    with True \<open>c \<le> ?r0 * ?s\<close> c(1) show ?thesis
      unfolding secondsInPhase_flat[OF good True] by (simp add: integral_at_def divide_le_eq mult.commute)
  next
    case False
    define k where "k = (?r1 - ?r0) / ?s"
    have k: "k \<noteq> 0" and ks: "k * ?s = ?r1 - ?r0" using False s by (simp_all add: k_def)
    define D where "D = ?r0 * ?r0 + 2 * k * c"
    have Darea: "?r0 * ?r0 + 2 * k * area phase = ?r1 * ?r1"
    proof -
      have "2 * k * area phase = (k * ?s) * (?r0 + ?r1)" unfolding area by (simp add: field_simps)
      then show ?thesis unfolding ks by (simp add: algebra_simps)
    qed
    have x: "secondsInPhase phase c = (sqrt D - ?r0) / k"
      unfolding secondsInPhase_slope[OF good False] D_def k_def[symmetric] by simp
    have between: "(0 < k \<longrightarrow> ?r0 * ?r0 \<le> D \<and> D \<le> ?r1 * ?r1) \<and> (k < 0 \<longrightarrow> ?r1 * ?r1 \<le> D \<and> D \<le> ?r0 * ?r0)"
      using c Darea[symmetric] unfolding D_def
      by (auto simp: mult_le_0_iff intro!: mult_left_mono mult_left_mono_neg)
    have D0: "0 \<le> D" using between k by (cases "0 < k") (auto intro: order_trans[OF mult_nonneg_nonneg[OF r(1) r(1)]]
        order_trans[OF mult_nonneg_nonneg[OF r(2) r(2)]])
    have sq: "sqrt (a * a) = a" if "0 \<le> a" for a :: real using that by simp
    have "(0 < k \<longrightarrow> ?r0 \<le> sqrt D \<and> sqrt D \<le> ?r1) \<and> (k < 0 \<longrightarrow> ?r1 \<le> sqrt D \<and> sqrt D \<le> ?r0)"
      using between real_sqrt_le_mono[of "?r0 * ?r0" D] real_sqrt_le_mono[of D "?r0 * ?r0"]
        real_sqrt_le_mono[of "?r1 * ?r1" D] real_sqrt_le_mono[of D "?r1 * ?r1"]
      by (auto simp: sq r)
    then have "0 \<le> (sqrt D - ?r0) / k \<and> (sqrt D - ?r0) / k \<le> (?r1 - ?r0) / k"
      using k by (cases "0 < k") (auto simp: divide_right_mono divide_right_mono_neg divide_nonpos_neg)
    moreover have "(?r1 - ?r0) / k = ?s" using k ks by (simp add: field_simps)
    moreover have "integral_at phase (secondsInPhase phase c) = c"
      using quadratic_root[of k ?r0 c] k D0
      unfolding secondsInPhase_slope[OF good False] integral_at_def k_def[symmetric] D_def by simp
    ultimately show ?thesis unfolding x by simp
  qed
  then show "integral_at phase (secondsInPhase phase c) = c"
    and "0 \<le> secondsInPhase phase c" and "secondsInPhase phase c \<le> ?s" by auto
qed

lemma Seconds_times: "Seconds d * 1000000000 = real_of_int d"
  by (simp add: Seconds_def)

lemma Seconds_le_iff: "Seconds d \<le> x \<longleftrightarrow> real_of_int d \<le> x * 1000000000"
  by (simp add: Seconds_def divide_le_eq)

lemma le_Seconds_iff: "x \<le> Seconds d \<longleftrightarrow> x * 1000000000 \<le> real_of_int d"
  by (simp add: Seconds_def le_divide_eq)

lemma instantInPhase_bounds:
  assumes good: "good_phase phase" and c: "c \<le> area phase"
  shows "0 \<le> instantInPhase phase c \<and> instantInPhase phase c \<le> cp_duration phase"
proof (cases "c \<le> 0")
  case True
  with good show ?thesis by (simp add: instantInPhase_def good_phase_def)
next
  case False
  then have "0 < c" by simp
  note inv = secondsInPhase_inverse[OF good this c]
  from inv(3) have "trunc (secondsInPhase phase c * 1000000000) \<le> trunc (real_of_int (cp_duration phase))"
    by (intro trunc_mono) (simp add: le_Seconds_iff)
  with False inv(2) show ?thesis by (simp add: instantInPhase_def trunc_nonneg)
qed

lemma secondsInPhase_mono:
  assumes good: "good_phase phase" and "0 < c" "c \<le> c'" "c' \<le> area phase"
  shows "secondsInPhase phase c \<le> secondsInPhase phase c'"
proof (rule ccontr)
  assume gt: "\<not> secondsInPhase phase c \<le> secondsInPhase phase c'"
  have c: "c \<le> area phase" and c': "0 < c'" using assms by auto
  note inv = secondsInPhase_inverse[OF good assms(2) c]
    and inv' = secondsInPhase_inverse[OF good c' assms(4)]
  from gt have "integral_at phase (secondsInPhase phase c') \<le> integral_at phase (secondsInPhase phase c)"
    using inv inv' by (intro integral_mono[OF good]) auto
  with inv inv' assms(3) have eq: "c = c'" by simp
  with gt show False by simp
qed

lemma instantInPhase_mono:
  assumes good: "good_phase phase" and "c \<le> c'" "c' \<le> area phase"
  shows "instantInPhase phase c \<le> instantInPhase phase c'"
proof (cases "c \<le> 0")
  case True
  with instantInPhase_bounds[OF good assms(3)] show ?thesis by (simp add: instantInPhase_def)
next
  case False
  with secondsInPhase_mono[OF good _ assms(2,3)] assms(2) show ?thesis
    by (simp add: instantInPhase_def trunc_mono)
qed

text \<open>The instant is the inverse of the count, to the nanosecond.\<close>

lemma instantInPhase_inverse:
  assumes good: "good_phase phase" and c: "0 < c" "c \<le> area phase"
  defines "d \<equiv> instantInPhase phase c"
  shows "countInPhase phase d \<le> c" and "d < cp_duration phase \<Longrightarrow> c \<le> countInPhase phase (d + 1)"
proof -
  note inv = secondsInPhase_inverse[OF good c]
  have pos: "0 < cp_duration phase" using good by (simp add: good_phase_def)
  have d: "d = trunc (secondsInPhase phase c * 1000000000)" using c(1) by (simp add: d_def instantInPhase_def)
  have d0: "0 \<le> d" "d \<le> cp_duration phase" using instantInPhase_bounds[OF good c(2)] by (simp_all add: d_def)
  have "real_of_int d \<le> secondsInPhase phase c * 1000000000" using inv(2) unfolding d by (simp add: trunc_le)
  then have lo: "Seconds d \<le> secondsInPhase phase c" by (simp add: Seconds_le_iff)
  have "integral_at phase (Seconds d) \<le> integral_at phase (secondsInPhase phase c)"
    by (rule integral_mono[OF good _ lo inv(3)]) (use d0 in \<open>simp add: Seconds_def\<close>)
  with inv(1) pos show "countInPhase phase d \<le> c" by (simp add: countInPhase_integral)
  assume lt: "d < cp_duration phase"
  have "secondsInPhase phase c * 1000000000 < real_of_int (d + 1)"
    using trunc_gt[of "secondsInPhase phase c * 1000000000"] unfolding d by simp
  then have hi: "secondsInPhase phase c \<le> Seconds (d + 1)" by (simp add: le_Seconds_iff)
  have "integral_at phase (secondsInPhase phase c) \<le> integral_at phase (Seconds (d + 1))"
    by (rule integral_mono[OF good inv(2) hi]) (use lt in simp)
  with inv(1) pos show "c \<le> countInPhase phase (d + 1)" by (simp add: countInPhase_integral)
qed

section \<open>The chain of phases\<close>

text \<open>Compiled phases follow each other without a gap, in time and in the accumulated count.\<close>

fun chained :: "Duration \<Rightarrow> real \<Rightarrow> compiledPhase list \<Rightarrow> bool" where
  "chained start accumulated [] = True"
| "chained start accumulated (phase # rest) \<longleftrightarrow>
    cp_start phase = start \<and> accumulatedUntil phase = accumulated \<and> good_phase phase \<and>
    chained (start + cp_duration phase) (accumulated + area phase) rest"

definition good_load :: "Phase list \<Rightarrow> bool" where
  "good_load ps \<longleftrightarrow> (\<forall>p \<in> set ps. 0 < Ph_For p \<and> 0 \<le> InitialRate p \<and> 0 \<le> FinalRate p \<and>
     (FinalRate p = InitialRate p \<or> 1 / 10 ^ 12 \<le> \<bar>(FinalRate p - InitialRate p) / Seconds (Ph_For p)\<bar>))"

lemma compile_phases_spec:
  assumes "compile_phases start accumulated ps = (compiled, finish, whole)" "good_load ps"
  shows "chained start accumulated compiled \<and> length compiled = length ps
    \<and> finish = start + sum_list (map cp_duration compiled)
    \<and> whole = accumulated + sum_list (map area compiled)
    \<and> map cp_duration compiled = map Ph_For ps"
  using assms
proof (induction ps arbitrary: start accumulated compiled finish whole)
  case (Cons p ps)
  let ?cur = "\<lparr>initialRate = InitialRate p, finalRate = FinalRate p, cp_duration = Ph_For p,
      cp_start = start, accumulatedUntil = accumulated\<rparr>"
  obtain compiled' finish' whole' where rest:
    "compile_phases (start + Ph_For p) (accumulated + countInPhase ?cur (Ph_For p)) ps = (compiled', finish', whole')"
    by (metis prod_cases3)
  from Cons.prems(2) have "good_load ps" and good: "good_phase ?cur"
    by (auto simp: good_load_def good_phase_def)
  with Cons.IH[OF rest] Cons.prems(1) rest show ?case by (auto simp: Let_def)
qed simp

lemma instant_loop_bounds:
  assumes "chained start accumulated ps" "ps \<noteq> []" "target \<le> accumulated + sum_list (map area ps)"
    and "duration = start + sum_list (map cp_duration ps)"
  shows "start \<le> instant_loop duration target ps \<and> instant_loop duration target ps \<le> duration"
  using assms
proof (induction ps arbitrary: start accumulated)
  case (Cons phase ps)
  then have good: "good_phase phase" by simp
  have rest_nonneg: "0 \<le> sum_list (map cp_duration qs)" if "chained s a qs" for s a qs
    using that by (induction qs arbitrary: s a) (auto simp: good_phase_def)
  show ?case
  proof (cases "ps \<noteq> [] \<and> area phase \<le> target - accumulatedUntil phase")
    case True
    with Cons.IH[of "start + cp_duration phase" "accumulated + area phase"] Cons.prems good show ?thesis
      by (auto simp: good_phase_def algebra_simps)
  next
    case False
    then have "target - accumulated \<le> area phase" using Cons.prems by auto
    with instantInPhase_bounds[OF good this] rest_nonneg[of _ _ ps] Cons.prems False show ?thesis
      by (fastforce simp: Let_def)
  qed
qed simp

lemma instant_loop_mono:
  assumes "chained start accumulated ps" "ps \<noteq> []" "target \<le> target'"
    and "target' \<le> accumulated + sum_list (map area ps)"
    and "duration = start + sum_list (map cp_duration ps)"
  shows "instant_loop duration target ps \<le> instant_loop duration target' ps"
  using assms
proof (induction ps arbitrary: start accumulated)
  case (Cons phase ps)
  then have good: "good_phase phase" and acc: "accumulatedUntil phase = accumulated" by auto
  let ?jump = "\<lambda>t. ps \<noteq> [] \<and> area phase \<le> t - accumulated"
  show ?case
  proof (cases "?jump target'")
    case jump': True
    have chain: "chained (start + cp_duration phase) (accumulated + area phase) ps" using Cons.prems by simp
    show ?thesis
    proof (cases "?jump target")
      case True
      with jump' Cons.IH[OF chain] Cons.prems acc show ?thesis by (simp add: algebra_simps)
    next
      case False
      with jump' have "target - accumulated \<le> area phase" by auto
      from instantInPhase_bounds[OF good this] have "instant_loop duration target (phase # ps) \<le> start + cp_duration phase"
        using False Cons.prems acc by (auto simp: Let_def)
      also have "\<dots> \<le> instant_loop duration target' ps"
        using instant_loop_bounds[OF chain, of target' duration] jump' Cons.prems by (simp add: algebra_simps)
      finally show ?thesis using jump' acc by simp
    qed
  next
    case False
    then have "\<not> ?jump target" using Cons.prems(3) by auto
    moreover from False have "target' - accumulated \<le> area phase" using Cons.prems by auto
    ultimately show ?thesis
      using False acc instantInPhase_mono[OF good, of "target - accumulated" "target' - accumulated"] Cons.prems(3)
      by (auto simp: Let_def)
  qed
qed simp

lemma CompilePlan_open:
  assumes "\<not> Closed load" "good_load (Load_Phases load)"
  shows "chained 0 0 (phases (CompilePlan load))"
    and "plan_duration (CompilePlan load) = sum_list (map cp_duration (phases (CompilePlan load)))"
    and "totalRequests (CompilePlan load) = \<lfloor>sum_list (map area (phases (CompilePlan load)))\<rfloor>"
    and "map cp_duration (phases (CompilePlan load)) = map Ph_For (Load_Phases load)"
    and "length (phases (CompilePlan load)) = length (Load_Phases load)"
proof -
  obtain compiled finish whole where "compile_phases 0 0 (Load_Phases load) = (compiled, finish, whole)"
    by (metis prod_cases3)
  with compile_phases_spec[OF this assms(2)] assms(1)
  show "chained 0 0 (phases (CompilePlan load))"
    and "plan_duration (CompilePlan load) = sum_list (map cp_duration (phases (CompilePlan load)))"
    and "totalRequests (CompilePlan load) = \<lfloor>sum_list (map area (phases (CompilePlan load)))\<rfloor>"
    and "map cp_duration (phases (CompilePlan load)) = map Ph_For (Load_Phases load)"
    and "length (phases (CompilePlan load)) = length (Load_Phases load)"
    by (auto simp: CompilePlan_def)
qed

lemma foldl_max_ge:
  "(x::real) \<le> foldl (\<lambda>peak p. max peak (f p)) x ps \<and> (\<forall>p \<in> set ps. f p \<le> foldl (\<lambda>peak p. max peak (f p)) x ps)"
proof (induction ps arbitrary: x)
  case (Cons p ps)
  from Cons[of "max x (f p)"] show ?case by auto
qed simp

lemma PeakRate_ge:
  "0 \<le> PeakRate plan" "phase \<in> set (phases plan) \<Longrightarrow> max (initialRate phase) (finalRate phase) \<le> PeakRate plan"
  using foldl_max_ge[of 0 "\<lambda>phase. max (initialRate phase) (finalRate phase)" "phases plan"]
  unfolding PeakRate_def by auto

lemma chained_good: "chained s a ps \<Longrightarrow> phase \<in> set ps \<Longrightarrow> good_phase phase"
  by (induction ps arbitrary: s a) auto

lemma rate_loop_cases:
  "rate_loop instant ps = 0 \<or>
   (\<exists>phase \<in> set ps. cp_start phase \<le> instant \<and> instant < cp_start phase + cp_duration phase \<and>
      rate_loop instant ps = initialRate phase +
        (finalRate phase - initialRate phase) / Seconds (cp_duration phase) * Seconds (instant - cp_start phase))"
  by (induction ps) (auto simp: Let_def)

section \<open>Properties\<close>





text \<open>The number of iterations of an open plan is the integral of the rate, the sum over the
  phases of mean rate times duration, rounded down; the duration is the sum of the declared ones.\<close>

theorem CompilePlan_totals:
  assumes "\<not> Closed load" "good_load (Load_Phases load)"
  shows "totalRequests (CompilePlan load) =
      \<lfloor>\<Sum>phase \<leftarrow> phases (CompilePlan load). (initialRate phase + finalRate phase) / 2 * Seconds (cp_duration phase)\<rfloor>
    \<and> plan_duration (CompilePlan load) = (\<Sum>p \<leftarrow> Load_Phases load. Ph_For p)"
proof -
  note compiled = CompilePlan_open[OF assms]
  have "map area (phases (CompilePlan load)) =
    map (\<lambda>phase. (initialRate phase + finalRate phase) / 2 * Seconds (cp_duration phase)) (phases (CompilePlan load))"
    using chained_good[OF compiled(1)] area_trapezoid by (intro map_cong) (auto simp only: good_phase_def)
  with compiled(2,3,4) show ?thesis by simp
qed

theorem CompilePlan_totals_witness:
  "totalRequests (CompilePlan \<lparr>Load_Model = OpenArrival, Load_Phases =
       [\<lparr>Ph_Kind = PhaseSpike, Ph_From = 0, Ph_To = 25, Ph_For = 3 * Second\<rparr>],
       Load_Users = 0, Load_For = 0, Load_ThinkTime = 0\<rparr>) = 75"
proof -
  let ?load = "\<lparr>Load_Model = OpenArrival, Load_Phases =
       [\<lparr>Ph_Kind = PhaseSpike, Ph_From = 0, Ph_To = 25, Ph_For = 3 * Second\<rparr>],
       Load_Users = 0, Load_For = 0, Load_ThinkTime = 0\<rparr>"
  have "\<not> Closed ?load" "good_load (Load_Phases ?load)"
    by (simp_all add: Closed_def good_load_def InitialRate_def FinalRate_def)
  from CompilePlan_totals[OF this] show ?thesis
    by (simp add: CompilePlan_def Closed_def InitialRate_def FinalRate_def Seconds_def Let_def)
qed

text \<open>The rate applied at any instant of an open plan lies between zero and the peak the plan
  declares: the profile never asks for more than the report says it did.\<close>

theorem RateAt_within_peak:
  assumes "\<not> Closed load" "good_load (Load_Phases load)"
  shows "0 \<le> RateAt (CompilePlan load) instant \<and> RateAt (CompilePlan load) instant \<le> PeakRate (CompilePlan load)"
proof -
  let ?plan = "CompilePlan load"
  consider "RateAt ?plan instant = 0"
    | phase where "phase \<in> set (phases ?plan)" "cp_start phase \<le> instant"
        "instant < cp_start phase + cp_duration phase"
        "RateAt ?plan instant = initialRate phase +
          (finalRate phase - initialRate phase) / Seconds (cp_duration phase) * Seconds (instant - cp_start phase)"
    using rate_loop_cases[of instant "phases ?plan"] unfolding RateAt_def by blast
  then show ?thesis
  proof cases
    case 1
    then show ?thesis using PeakRate_ge(1) by simp
  next
    case 2
    have good: "good_phase phase" using chained_good[OF CompilePlan_open(1)[OF assms] 2(1)] .
    have "0 \<le> Seconds (instant - cp_start phase)" "Seconds (instant - cp_start phase) \<le> Seconds (cp_duration phase)"
      using 2(2,3) by (simp_all add: Seconds_def)
    from rate_between[OF good this] PeakRate_ge(2)[OF 2(1)] good show ?thesis
      unfolding 2(4) good_phase_def by linarith
  qed
qed

theorem RateAt_within_peak_witness:
  "RateAt (CompilePlan \<lparr>Load_Model = OpenArrival, Load_Phases =
       [\<lparr>Ph_Kind = PhaseRamp, Ph_From = 0, Ph_To = 10, Ph_For = 10 * Second\<rparr>],
       Load_Users = 0, Load_For = 0, Load_ThinkTime = 0\<rparr>) (4 * Second) = 4 \<and> (4::real) \<le> 10"
proof -
  let ?load = "\<lparr>Load_Model = OpenArrival, Load_Phases =
       [\<lparr>Ph_Kind = PhaseRamp, Ph_From = 0, Ph_To = 10, Ph_For = 10 * Second\<rparr>],
       Load_Users = 0, Load_For = 0, Load_ThinkTime = 0\<rparr>"
  have "\<not> Closed ?load" "good_load (Load_Phases ?load)"
    by (simp_all add: Closed_def good_load_def InitialRate_def FinalRate_def Seconds_def)
  from RateAt_within_peak[OF this, of "4 * Second"] show ?thesis
    by (simp add: RateAt_def PeakRate_def CompilePlan_def Closed_def InitialRate_def FinalRate_def Seconds_def Let_def)
qed

end
