(* ===== verification/Mix.thy ===== *)
theory Mix
  imports Interpolation "HOL-Library.Product_Lexorder"
begin

text \<open>
  The weighted mix (\<open>internal/scenario/mix.go\<close>): each iteration runs one alternative, chosen by
  its position in a fixed cycle. Proved: the Euclid loop is the greatest common divisor, every
  alternative appears in the cycle as often as its weight divided by the common divisor, and so
  every window of consecutive iterations as long as the cycle has exactly the declared proportions.
\<close>

section \<open>The cycle\<close>

definition HasMix :: "'c Spec \<Rightarrow> bool" where
  "HasMix spec \<longleftrightarrow> (\<exists>step \<in> set (Spec_Steps spec). 0 < Step_Weight step)"

lemma abs_smod_less: "b \<noteq> 0 \<Longrightarrow> \<bar>a smod b\<bar> < \<bar>b\<bar>" for a b :: int
  by (simp add: signed_modulo_int_def abs_mult)

function greatestCommonDivisor :: "int \<Rightarrow> int \<Rightarrow> int" where
  "greatestCommonDivisor first second =
    (if second \<noteq> 0 then greatestCommonDivisor second (first smod second) else first)"
  by pat_completeness auto
termination
  by (relation "measure (\<lambda>(first, second). nat \<bar>second\<bar>)") (auto simp: abs_smod_less)

declare greatestCommonDivisor.simps [simp del]

definition mix_divisor :: "int list \<Rightarrow> int" where
  "mix_divisor weights = foldl greatestCommonDivisor (hd weights) (tl weights)"

type_synonym slot = "real \<times> nat \<times> nat"

text \<open>A slot is its position in the cycle, the index of its step and the number of its copy.\<close>

definition mix_slots :: "int list \<Rightarrow> slot list" where
  "mix_slots weights =
    (let divisor = mix_divisor weights;
         total = sum_list (map (\<lambda>weight. weight sdiv divisor) weights)
     in concat (map (\<lambda>(index, weight).
          let share = weight sdiv divisor
          in map (\<lambda>copyIndex. ((real copyIndex + 1 / 2) * real_of_int total / real_of_int share, index, copyIndex))
               [0..<nat share])
          (enumerate 0 weights)))"

text \<open>The comparison function orders by position, then step, then copy: the lexicographic order.\<close>

definition MixOrder :: "'c Spec \<Rightarrow> nat list" where
  "MixOrder spec =
    (if \<not> HasMix spec then []
     else map (\<lambda>(position, step, copyIndex). step) (sort (mix_slots (map Step_Weight (Spec_Steps spec)))))"

text \<open>\<open>spec.Steps[index]\<close> panics out of range; every caller passes the index of a declared step.\<close>

definition DeclaredShare :: "'c Spec \<Rightarrow> nat \<Rightarrow> real" where
  "DeclaredShare spec index =
    (if \<not> HasMix spec then 1
     else let total = sum_list (map Step_Weight (Spec_Steps spec))
          in if total = 0 then 0
             else real_of_int (Step_Weight (Spec_Steps spec ! index)) / real_of_int total)"

text \<open>
  \<open>stepsOf\<close> of the executor: the alternative of an iteration, by its position in the cycle.
  \<open>mix_pick\<close> is the index it computes.
\<close>

definition mix_pick :: "nat list \<Rightarrow> int \<Rightarrow> nat" where
  "mix_pick order iteration =
    (let position = iteration smod int (length order);
         position = (if position < 0 then position + int (length order) else position)
     in order ! nat position)"

definition stepsOf :: "nat list \<Rightarrow> 'c Spec \<Rightarrow> int \<Rightarrow> 'c Step list" where
  "stepsOf order spec iteration =
    (if order = [] then Spec_Steps spec
     else take 1 (drop (mix_pick order iteration) (Spec_Steps spec)))"

section \<open>Checking a mix\<close>

datatype mix_problem = WeightMissing nat "string list" | CapturesChained string string string

fun find_chained :: "'c config_methods \<Rightarrow> 'c Spec \<Rightarrow> (string, nat) gomap \<Rightarrow> (nat \<times> reference) list \<Rightarrow> mix_problem option" where
  "find_chained methods spec produced [] = None"
| "find_chained methods spec produced ((index, used) # rest) =
    (case gget produced (ref_name used) of
       None \<Rightarrow> find_chained methods spec produced rest
     | Some origin \<Rightarrow>
         if origin = index then find_chained methods spec produced rest
         else Some (CapturesChained (Step_Name (Spec_Steps spec ! index)) (ref_name used)
                     (Step_Name (Spec_Steps spec ! origin))))"

definition config_texts :: "'c config_methods \<Rightarrow> 'c Step \<Rightarrow> string list" where
  "config_texts methods step = (case Step_Config step of None \<Rightarrow> [] | Some config \<Rightarrow> textsOf (Method_Value methods config))"

definition captured_by :: "'c Spec \<Rightarrow> (string, nat) gomap" where
  "captured_by spec =
    foldl (\<lambda>produced (index, step).
      foldl (\<lambda>produced capture. gput produced (Cap_Variable capture) index) produced (Step_Captures step))
      [] (enumerate 0 (Spec_Steps spec))"

definition chainedCaptures :: "'c config_methods \<Rightarrow> 'c Spec \<Rightarrow> mix_problem option" where
  "chainedCaptures methods spec =
    (let produced = captured_by spec
     in if produced = [] then None
        else find_chained methods spec produced
          (concat (map (\<lambda>(index, step).
             concat (map (\<lambda>text. map (\<lambda>used. (index, used)) (referencesIn text)) (config_texts methods step)))
             (enumerate 0 (Spec_Steps spec)))))"

definition checkMix :: "'c config_methods \<Rightarrow> 'c Spec \<Rightarrow> mix_problem list" where
  "checkMix methods spec =
    (let declared = length (filter (\<lambda>step. 0 < Step_Weight step) (Spec_Steps spec));
         silent = map Step_Name (filter (\<lambda>step. \<not> 0 < Step_Weight step) (Spec_Steps spec))
     in if declared = 0 then []
        else (if silent \<noteq> [] then [WeightMissing declared silent] else [])
          @ (case chainedCaptures methods spec of None \<Rightarrow> [] | Some problem \<Rightarrow> [problem]))"

section \<open>Euclid\<close>

lemma gcd_loop: "0 \<le> a \<Longrightarrow> 0 \<le> b \<Longrightarrow> greatestCommonDivisor a b = gcd a b"
proof (induction a b rule: greatestCommonDivisor.induct)
  case (1 a b)
  show ?case
  proof (cases "b = 0")
    case True
    with 1 show ?thesis by (simp add: greatestCommonDivisor.simps[of a 0])
  next
    case False
    with 1 have "greatestCommonDivisor b (a smod b) = gcd b (a mod b)" by (simp add: smod_eq_mod)
    with False show ?thesis by (simp add: greatestCommonDivisor.simps[of a b] gcd_red_int[of a b])
  qed
qed

lemma mix_divisor_dvd:
  assumes "\<forall>w \<in> set ws. 0 \<le> w" "0 \<le> a"
  shows "0 \<le> foldl greatestCommonDivisor a ws \<and> foldl greatestCommonDivisor a ws dvd a
    \<and> (\<forall>w \<in> set ws. foldl greatestCommonDivisor a ws dvd w)"
  using assms
proof (induction ws arbitrary: a)
  case (Cons w ws)
  then have g: "greatestCommonDivisor a w = gcd a w" by (simp add: gcd_loop)
  from Cons.IH[of "gcd a w"] Cons.prems show ?case
    by (auto simp: g dest: dvd_trans[OF _ gcd_dvd1] dvd_trans[OF _ gcd_dvd2])
qed simp

lemma mix_divisor_props:
  assumes "\<forall>w \<in> set ws. 0 \<le> w" "\<exists>w \<in> set ws. 0 < w"
  shows "0 < mix_divisor ws" "\<forall>w \<in> set ws. mix_divisor ws dvd w"
proof -
  from assms(2) obtain v vs where ws: "ws = v # vs" by (cases ws) auto
  from mix_divisor_dvd[of vs v] assms(1) have
    d: "0 \<le> mix_divisor ws" "\<forall>w \<in> set ws. mix_divisor ws dvd w" by (auto simp: mix_divisor_def ws)
  from assms(2) d(2) have "mix_divisor ws \<noteq> 0" by auto
  with d show "0 < mix_divisor ws" "\<forall>w \<in> set ws. mix_divisor ws dvd w" by auto
qed

section \<open>How often each alternative appears\<close>

lemma count_list_mset: "count_list xs x = count (mset xs) x"
  by (induction xs) auto

lemma count_list_map_sort: "count_list (map f (sort xs)) x = count_list (map f xs) x"
  by (simp add: count_list_mset)

lemma count_list_concat: "count_list (concat xss) x = sum_list (map (\<lambda>xs. count_list xs x) xss)"
  by (induction xss) (simp_all add: count_list_append)

lemma count_list_replicate: "count_list (replicate n y) x = (if x = y then n else 0)"
  by (induction n) auto

lemma sum_list_enumerate_single:
  "sum_list (map (\<lambda>(index, w). if i = index then f w else 0) (enumerate k ws)) =
    (if k \<le> i \<and> i < k + length ws then f (ws ! (i - k)) else (0::nat))"
proof (induction ws arbitrary: k)
  case (Cons w ws)
  show ?case
  proof (cases "i = k")
    case True
    with Cons[of "Suc k"] show ?thesis by simp
  next
    case False
    then have "i - k = Suc (i - Suc k)" if "k \<le> i" using that by simp
    with False Cons[of "Suc k"] show ?thesis by auto
  qed
qed simp

lemma map_step_slots:
  "map (\<lambda>(position, step, copyIndex). step) (mix_slots ws) =
    concat (map (\<lambda>(index, w). replicate (nat (w sdiv mix_divisor ws)) index) (enumerate 0 ws))"
  by (simp add: mix_slots_def Let_def map_concat comp_def case_prod_unfold map_replicate_const)

lemma count_MixOrder:
  assumes "HasMix spec" "i < length (Spec_Steps spec)"
  shows "count_list (MixOrder spec) i =
    nat (Step_Weight (Spec_Steps spec ! i) sdiv mix_divisor (map Step_Weight (Spec_Steps spec)))"
proof -
  let ?ws = "map Step_Weight (Spec_Steps spec)"
  have "count_list (MixOrder spec) i = count_list (map (\<lambda>(position, step, copyIndex). step) (mix_slots ?ws)) i"
    using assms(1) by (simp add: MixOrder_def count_list_map_sort)
  also have "\<dots> = sum_list (map (\<lambda>(index, w). if i = index then nat (w sdiv mix_divisor ?ws) else 0) (enumerate 0 ?ws))"
    unfolding map_step_slots count_list_concat
    by (simp add: comp_def case_prod_unfold count_list_replicate)
  also have "\<dots> = nat (?ws ! i sdiv mix_divisor ?ws)"
    using sum_list_enumerate_single[of i "\<lambda>w. nat (w sdiv mix_divisor ?ws)" 0 ?ws] assms(2) by simp
  finally show ?thesis using assms(2) by simp
qed

lemma MixOrder_indices:
  assumes "i \<in> set (MixOrder spec)"
  shows "i < length (Spec_Steps spec)"
proof -
  have mix: "HasMix spec" using assms by (auto simp: MixOrder_def split: if_splits)
  then have "i \<in> set (map (\<lambda>(position, step, copyIndex). step) (mix_slots (map Step_Weight (Spec_Steps spec))))"
    using assms by (simp add: MixOrder_def)
  then have "i \<in> set (concat (map (\<lambda>(index, w). replicate (nat (w sdiv mix_divisor (map Step_Weight (Spec_Steps spec)))) index)
      (enumerate 0 (map Step_Weight (Spec_Steps spec)))))"
    unfolding map_step_slots .
  then show ?thesis by (auto dest!: in_set_enumerate_eq[THEN iffD1] split: if_splits)
qed

lemma length_MixOrder:
  assumes "HasMix spec"
  shows "length (MixOrder spec) =
    (\<Sum>w \<leftarrow> map Step_Weight (Spec_Steps spec). nat (w sdiv mix_divisor (map Step_Weight (Spec_Steps spec))))"
proof -
  let ?ws = "map Step_Weight (Spec_Steps spec)"
  have "length (MixOrder spec) = length (map (\<lambda>(position, step, copyIndex). step) (mix_slots ?ws))"
    using assms by (simp add: MixOrder_def)
  also have "\<dots> = sum_list (map (\<lambda>(index, w). nat (w sdiv mix_divisor ?ws)) (enumerate 0 ?ws))"
    unfolding map_step_slots length_concat by (simp add: comp_def case_prod_unfold)
  also have "\<dots> = sum_list (map (\<lambda>w. nat (w sdiv mix_divisor ?ws)) (map snd (enumerate 0 ?ws)))"
    by (simp only: map_map comp_def case_prod_unfold)
  finally show ?thesis by (simp only: map_snd_enumerate)
qed

lemma checkMix_weights:
  assumes "HasMix spec" "checkMix methods spec = []"
  shows "\<forall>w \<in> set (map Step_Weight (Spec_Steps spec)). 0 < w"
proof -
  have "filter (\<lambda>step. 0 < Step_Weight step) (Spec_Steps spec) \<noteq> []"
    using assms(1) by (auto simp: HasMix_def filter_empty_conv)
  with assms(2) have "filter (\<lambda>step. \<not> 0 < Step_Weight step) (Spec_Steps spec) = []"
    by (auto simp: checkMix_def Let_def split: if_splits)
  then show ?thesis by (auto simp: filter_empty_conv)
qed

lemma share_times_divisor:
  assumes "\<forall>w \<in> set ws. 0 < w" "ws \<noteq> []" "w \<in> set ws"
  shows "int (nat (w sdiv mix_divisor ws)) * mix_divisor ws = w"
proof -
  have ex: "\<exists>w \<in> set ws. 0 < w" and nn: "\<forall>w \<in> set ws. 0 \<le> w" using assms by (auto intro: less_imp_le)
  note d = mix_divisor_props[OF nn ex]
  have "0 \<le> w" using nn assms(3) by blast
  with d(1) have "w sdiv mix_divisor ws = w div mix_divisor ws" "0 \<le> w div mix_divisor ws"
    by (simp_all add: sdiv_eq_div pos_imp_zdiv_nonneg_iff)
  with d assms(3) show ?thesis by simp
qed

lemma length_times_divisor:
  assumes "\<forall>w \<in> set ws. 0 < w" "ws \<noteq> []"
  shows "int (\<Sum>w \<leftarrow> ws. nat (w sdiv mix_divisor ws)) * mix_divisor ws = sum_list ws"
proof -
  have "int (\<Sum>w \<leftarrow> vs. nat (w sdiv mix_divisor ws)) * mix_divisor ws = sum_list vs" if "set vs \<subseteq> set ws" for vs
    using that share_times_divisor[OF assms] by (induction vs) (auto simp: algebra_simps)
  then show ?thesis by simp
qed

lemma count_window:
  assumes "xs \<noteq> []"
  shows "count_list (map (\<lambda>n. xs ! (n mod length xs)) [s..<s + length xs]) x = count_list xs x"
proof (induction s)
  case 0
  have "map (\<lambda>n. xs ! (n mod length xs)) [0..<length xs] = xs"
    by (rule nth_equalityI) auto
  then show ?case by simp
next
  case (Suc s)
  let ?f = "\<lambda>n. xs ! (n mod length xs)"
  have a: "[s..<s + length xs] = s # [Suc s..<s + length xs]"
    using assms by (simp add: upt_conv_Cons)
  have "Suc s \<le> s + length xs" using assms by (cases xs) simp_all
  then have b: "[Suc s..<Suc s + length xs] = [Suc s..<s + length xs] @ [s + length xs]"
    by (simp add: upt_Suc_append)
  have "count_list (map ?f [Suc s..<Suc s + length xs]) x = count_list (map ?f (s # [Suc s..<s + length xs])) x"
    unfolding b by (simp add: count_list_append)
  also have "\<dots> = count_list xs x" unfolding a[symmetric] by (rule Suc.IH)
  finally show ?case .
qed

lemma mix_pick_mod: "order \<noteq> [] \<Longrightarrow> mix_pick order (int n) = order ! (n mod length order)"
  by (simp add: mix_pick_def smod_eq_mod Let_def zmod_int[symmetric])

lemma MixOrder_nonempty:
  assumes "HasMix spec" "checkMix methods spec = []"
  shows "MixOrder spec \<noteq> []"
proof
  let ?ws = "map Step_Weight (Spec_Steps spec)"
  assume "MixOrder spec = []"
  with length_MixOrder[OF assms(1)] have "(\<Sum>w \<leftarrow> ?ws. nat (w sdiv mix_divisor ?ws)) = 0" by simp
  moreover have w: "\<forall>w \<in> set ?ws. 0 < w" "?ws \<noteq> []"
    using checkMix_weights[OF assms] assms(1) by (auto simp: HasMix_def)
  ultimately have "sum_list ?ws = 0" using length_times_divisor[OF w]
    by (simp only: of_nat_0 mult_zero_left)
  moreover have "0 < sum_list ?ws" using w by (cases ?ws) (auto intro!: add_pos_nonneg sum_list_nonneg)
  ultimately show False by simp
qed

section \<open>Properties\<close>

text \<open>In a mix the validation accepts, the cycle has each alternative exactly in the proportion
  the file declares.\<close>

theorem MixOrder_exact_share:
  assumes "HasMix spec" "checkMix methods spec = []" "i < length (Spec_Steps spec)"
  shows "real (count_list (MixOrder spec) i) / real (length (MixOrder spec)) = DeclaredShare spec i"
proof -
  let ?ws = "map Step_Weight (Spec_Steps spec)"
  let ?d = "mix_divisor ?ws"
  have w: "\<forall>w \<in> set ?ws. 0 < w" "?ws \<noteq> []" using checkMix_weights[OF assms(1,2)] assms(3) by auto
  have "?ws ! i \<in> set ?ws" using assms(3) by (intro nth_mem) simp
  from share_times_divisor[OF w this] count_MixOrder[OF assms(1,3)] assms(3)
  have c: "int (count_list (MixOrder spec) i) * ?d = Step_Weight (Spec_Steps spec ! i)" by simp
  from length_times_divisor[OF w] length_MixOrder[OF assms(1)]
  have l: "int (length (MixOrder spec)) * ?d = sum_list ?ws" by simp
  have d: "0 < ?d" using w by (intro mix_divisor_props) (auto simp: neq_Nil_conv intro: less_imp_le)
  have "0 < sum_list ?ws" using w by (cases ?ws) (auto intro!: add_pos_nonneg sum_list_nonneg)
  then have "DeclaredShare spec i = real_of_int (int (count_list (MixOrder spec) i) * ?d) / real_of_int (int (length (MixOrder spec)) * ?d)"
    using assms(1) by (simp add: DeclaredShare_def Let_def c l)
  with d show ?thesis by simp
qed

text \<open>The choice is by position and not by chance: in every window of consecutive iterations as
  long as the cycle, wherever it starts, each alternative runs exactly as often as in the cycle,
  and the step that runs is the one at the chosen index.\<close>

theorem mix_window_exact:
  assumes "HasMix spec" "checkMix methods spec = []"
  shows "count_list (map (\<lambda>n. mix_pick (MixOrder spec) (int n)) [s..<s + length (MixOrder spec)]) i
      = count_list (MixOrder spec) i
    \<and> stepsOf (MixOrder spec) spec (int s) = [Spec_Steps spec ! mix_pick (MixOrder spec) (int s)]"
proof -
  let ?o = "MixOrder spec"
  have ne: "?o \<noteq> []" by (rule MixOrder_nonempty[OF assms])
  have "mix_pick ?o (int s) \<in> set ?o" using ne by (simp add: mix_pick_mod)
  from MixOrder_indices[OF this] have "take 1 (drop (mix_pick ?o (int s)) (Spec_Steps spec)) = [Spec_Steps spec ! mix_pick ?o (int s)]"
    by (simp add: take_Suc_conv_app_nth Cons_nth_drop_Suc[symmetric])
  then show ?thesis using ne count_window[OF ne] by (simp add: stepsOf_def mix_pick_mod)
qed

definition example_step :: "string \<Rightarrow> int \<Rightarrow> unit Step" where
  "example_step name weight = \<lparr>Step_Name = name, Step_Protocol = ''http'', Step_Config = None,
     Step_Weight = weight, Step_Checks = [], Step_Captures = [], Step_Assertions = []\<rparr>"

definition example_mix :: "unit Spec" where
  "example_mix = \<lparr>Spec_Name = ''mix'', Spec_Target = '''', Spec_Requires = [], Spec_MissingEnvironment = [],
     Spec_Vars = [], Spec_Auth = None, Spec_Messaging = None, Spec_TLS = None, Spec_Data = [],
     Spec_Load = \<lparr>Load_Model = OpenArrival, Load_Phases = [], Load_Users = 0, Load_For = 0, Load_ThinkTime = 0\<rparr>,
     Spec_Steps = [example_step ''read'' 60, example_step ''write'' 30], Spec_SLO = []\<rparr>"

definition example_methods :: "unit config_methods" where
  "example_methods = \<lparr>Method_AggregationKey = (\<lambda>_. ''''), Method_Describe = (\<lambda>_. None),
     Method_Value = (\<lambda>_. GoOther), Method_Brokers = (\<lambda>_. None)\<rparr>"

lemma example_mix_valid: "HasMix example_mix" "checkMix example_methods example_mix = []"
  by (simp_all add: HasMix_def checkMix_def chainedCaptures_def captured_by_def example_mix_def example_step_def)

theorem MixOrder_exact_share_witness:
  "real (count_list (MixOrder example_mix) 0) / real (length (MixOrder example_mix)) = 2 / 3"
  using MixOrder_exact_share[OF example_mix_valid, of 0]
  by (simp add: DeclaredShare_def HasMix_def example_mix_def example_step_def)

theorem mix_window_exact_witness:
  "count_list (map (\<lambda>n. mix_pick (MixOrder example_mix) (int n)) [7..<7 + length (MixOrder example_mix)]) 0
    = count_list (MixOrder example_mix) 0"
  using mix_window_exact[OF example_mix_valid, of 7 0] by simp

end
