(* ===== verification/Counting.thy ===== *)
theory Counting
  imports Model
begin

text \<open>
  The interfaces that the measurement components share: a state that records events and keeps
  additive counters, and states of the same kind that can be merged. The clients are the step
  aggregate of a generator, the collector and the result documents; what they rely on (no event is
  counted twice or lost, merging is the same as having recorded everything in one place, the order
  of merging is irrelevant) is proved here once, from the laws.

  The HDR histogram is a third-party package. It is the method table \<open>'h hdr\<close>, an argument of the
  definitions that use it, and \<open>hdr_laws\<close> states the documented behaviour of its counts.
\<close>

section \<open>Interfaces\<close>

text \<open>\<open>obs i s\<close> is the counter \<open>i\<close> of the state \<open>s\<close>, and \<open>contrib i e\<close> what an event adds to it.\<close>

locale recorder =
  fixes ok :: "'s \<Rightarrow> bool" and record_event :: "'s \<Rightarrow> 'e \<Rightarrow> 's"
    and obs :: "'i \<Rightarrow> 's \<Rightarrow> int" and contrib :: "'i \<Rightarrow> 'e \<Rightarrow> int"
  assumes ok_record: "ok s \<Longrightarrow> ok (record_event s e)"
    and obs_record: "ok s \<Longrightarrow> obs i (record_event s e) = obs i s + contrib i e"
begin

lemma ok_records: "ok s \<Longrightarrow> ok (foldl record_event s es)"
  by (induction es arbitrary: s) (simp_all add: ok_record)

lemma obs_records: "ok s \<Longrightarrow> obs i (foldl record_event s es) = obs i s + (\<Sum>e \<leftarrow> es. contrib i e)"
  by (induction es arbitrary: s) (simp_all add: ok_record obs_record)

lemma record_order_irrelevant:
  assumes "ok s" "mset es = mset es'"
  shows "obs i (foldl record_event s es) = obs i (foldl record_event s es')"
proof -
  from assms(2) have "mset (map (contrib i) es) = mset (map (contrib i) es')" by simp
  then have "sum_list (map (contrib i) es) = sum_list (map (contrib i) es')"
    by (metis sum_mset_sum_list)
  with assms(1) show ?thesis by (simp add: obs_records)
qed

end

locale mergeable =
  fixes ok :: "'s \<Rightarrow> bool" and merge_into :: "'s \<Rightarrow> 's \<Rightarrow> 's" and obs :: "'i \<Rightarrow> 's \<Rightarrow> int"
  assumes ok_merge: "ok s \<Longrightarrow> ok t \<Longrightarrow> ok (merge_into s t)"
    and obs_merge: "ok s \<Longrightarrow> ok t \<Longrightarrow> obs i (merge_into s t) = obs i s + obs i t"
begin

lemma ok_merges: "ok s \<Longrightarrow> \<forall>t \<in> set ts. ok t \<Longrightarrow> ok (foldl merge_into s ts)"
  by (induction ts arbitrary: s) (simp_all add: ok_merge)

lemma obs_merges:
  "ok s \<Longrightarrow> \<forall>t \<in> set ts. ok t \<Longrightarrow> obs i (foldl merge_into s ts) = obs i s + (\<Sum>t \<leftarrow> ts. obs i t)"
  by (induction ts arbitrary: s) (simp_all add: ok_merge obs_merge)

lemma merge_commutes: "ok s \<Longrightarrow> ok t \<Longrightarrow> obs i (merge_into s t) = obs i (merge_into t s)"
  by (simp add: obs_merge)

lemma merge_associates:
  "ok s \<Longrightarrow> ok t \<Longrightarrow> ok u \<Longrightarrow>
   obs i (merge_into (merge_into s t) u) = obs i (merge_into s (merge_into t u))"
  by (simp add: obs_merge ok_merge)

end

text \<open>A generator that records and a coordinator that merges: the split is invisible in the counters.\<close>

locale distributed = recorder ok record_event obs contrib + mergeable ok merge_into obs
  for ok :: "'s \<Rightarrow> bool" and record_event :: "'s \<Rightarrow> 'e \<Rightarrow> 's" and obs :: "'i \<Rightarrow> 's \<Rightarrow> int"
    and contrib :: "'i \<Rightarrow> 'e \<Rightarrow> int" and merge_into :: "'s \<Rightarrow> 's \<Rightarrow> 's" +
  fixes fresh :: 's
  assumes ok_fresh: "ok fresh" and obs_fresh: "obs i fresh = 0"
begin

lemma split_invisible:
  assumes "mset es = mset (concat parts)"
  shows "obs i (foldl merge_into fresh (map (foldl record_event fresh) parts)) =
    obs i (foldl record_event fresh es)"
proof -
  have "mset (map (contrib i) es) = mset (map (contrib i) (concat parts))" using assms by simp
  then have whole: "sum_list (map (contrib i) es) = sum_list (map (contrib i) (concat parts))"
    by (metis sum_mset_sum_list)
  have "obs i (foldl merge_into fresh (map (foldl record_event fresh) parts))
      = (\<Sum>es \<leftarrow> parts. sum_list (map (contrib i) es))"
    by (simp add: obs_merges ok_fresh ok_records obs_fresh obs_records comp_def)
  also have "\<dots> = sum_list (map (contrib i) (concat parts))" by (induction parts) simp_all
  finally show ?thesis by (simp add: whole obs_records ok_fresh obs_fresh)
qed

end

section \<open>Adding up maps of counts\<close>

text \<open>\<open>for key, count := range other { into[key] += count }\<close>\<close>

definition gadd_all :: "('k, int) gomap \<Rightarrow> ('k, int) gomap \<Rightarrow> ('k, int) gomap" where
  "gadd_all m other = foldl (\<lambda>m (k, n). gadd m k n) m other"

lemma gmap_ok_gadd_all [simp]: "gmap_ok m \<Longrightarrow> gmap_ok (gadd_all m other)"
  unfolding gadd_all_def by (induction other arbitrary: m) auto

lemma gtotal_Cons: "gtotal ((k, n) # m) = n + gtotal m"
  by (simp add: gtotal_def gvalues_def)

lemma gtotal_gadd_all: "gmap_ok m \<Longrightarrow> gtotal (gadd_all m other) = gtotal m + gtotal other"
  unfolding gadd_all_def by (induction other arbitrary: m) (auto simp: gtotal_Cons)

lemma gnum_Cons: "gnum ((k', n) # m) k = (if k = k' then n else gnum m k)"
  by (simp add: gnum_def gget_Cons)

lemma gnum_absent: "k \<notin> set (gkeys m) \<Longrightarrow> gnum m k = 0"
  by (simp add: gnum_def gget_None_iff[symmetric])

lemma gnum_gadd_all: "gmap_ok other \<Longrightarrow> gnum (gadd_all m other) k = gnum m k + gnum other k"
  unfolding gadd_all_def
proof (induction other arbitrary: m)
  case Nil
  then show ?case by (simp add: gnum_absent)
next
  case (Cons kn other)
  obtain k' n where kn: "kn = (k', n)" by (cases kn) auto
  from Cons.prems kn have "k' \<notin> set (gkeys other)" "gmap_ok other" by (auto simp: gkeys_def)
  with Cons.IH[of "gadd m k' n"] show ?case by (auto simp: kn gnum_Cons gnum_absent)
qed

interpretation counts: mergeable gmap_ok gadd_all "\<lambda>k m. gnum m k"
  by unfold_locales (simp_all add: gnum_gadd_all)

interpretation totals: mergeable gmap_ok gadd_all "\<lambda>(u::unit) m. gtotal m"
  by unfold_locales (simp_all add: gtotal_gadd_all)

section \<open>The histogram package\<close>

text \<open>
  The methods of \<open>hdrhistogram.Histogram\<close> that the code calls. \<open>RecordValue\<close> returns an error that
  every caller drops, \<open>Merge\<close> a count of dropped values that every caller drops.
\<close>

record 'h hdr =
  hdr_New :: 'h
  hdr_RecordValue :: "'h \<Rightarrow> int \<Rightarrow> 'h"
  hdr_Merge :: "'h \<Rightarrow> 'h \<Rightarrow> 'h"
  hdr_TotalCount :: "'h \<Rightarrow> int"
  hdr_ValueAtQuantile :: "'h \<Rightarrow> real \<Rightarrow> int"
  hdr_Max :: "'h \<Rightarrow> int"
  hdr_Min :: "'h \<Rightarrow> int"
  hdr_Mean :: "'h \<Rightarrow> real"
  hdr_Encode :: "'h \<Rightarrow> string option"
  hdr_Decode :: "string \<Rightarrow> 'h option"

definition minLatencyUs :: int where "minLatencyUs = 1"
definition maxLatencyUs :: int where "maxLatencyUs = 600000000"

definition hdr_counts :: "'h hdr \<Rightarrow> bool" where
  "hdr_counts hdr \<longleftrightarrow> hdr_TotalCount hdr (hdr_New hdr) = 0 \<and>
    (\<forall>h v. minLatencyUs \<le> v \<and> v \<le> maxLatencyUs \<longrightarrow>
       hdr_TotalCount hdr (hdr_RecordValue hdr h v) = hdr_TotalCount hdr h + 1) \<and>
    (\<forall>h h'. hdr_TotalCount hdr (hdr_Merge hdr h h') = hdr_TotalCount hdr h + hdr_TotalCount hdr h') \<and>
    (\<forall>h. 0 \<le> hdr_TotalCount hdr h)"

definition hdr_monotone :: "'h hdr \<Rightarrow> bool" where
  "hdr_monotone hdr \<longleftrightarrow> (\<forall>h p q. p \<le> q \<longrightarrow> hdr_ValueAtQuantile hdr h p \<le> hdr_ValueAtQuantile hdr h q)"

text \<open>
  Decoding gives back a histogram that every reading takes for the one encoded: the package promises
  equality of the counts, not of the object.
\<close>

definition hdr_roundtrip :: "'h hdr \<Rightarrow> bool" where
  "hdr_roundtrip hdr \<longleftrightarrow> (\<forall>h. \<exists>s. hdr_Encode hdr h = Some s \<and> s \<noteq> [] \<and> hdr_Decode hdr s = Some h)"

lemma hdr_counts_New: "hdr_counts hdr \<Longrightarrow> hdr_TotalCount hdr (hdr_New hdr) = 0"
  by (simp add: hdr_counts_def)

lemma hdr_counts_Merge:
  "hdr_counts hdr \<Longrightarrow> hdr_TotalCount hdr (hdr_Merge hdr h h') = hdr_TotalCount hdr h + hdr_TotalCount hdr h'"
  by (simp add: hdr_counts_def)

text \<open>
  A concrete histogram that keeps the recorded values: it shows that the laws can hold and lets
  the witnesses compute. A quantile is the value at that share of the sorted list, and the encoding
  writes the values in decimal, each followed by a space.
\<close>

definition quantile_of :: "nat list \<Rightarrow> real \<Rightarrow> int" where
  "quantile_of h q =
    (if h = [] then 0 else int (sort h ! min (length h - 1) (nat \<lceil>q * real (length h) / 100\<rceil> - 1)))"

definition encode_values :: "nat list \<Rightarrow> string" where
  "encode_values h = CHR ''H'' # concat (map (\<lambda>v. show_nat v @ '' '') h)"

fun decode_values :: "string \<Rightarrow> string \<Rightarrow> nat list" where
  "decode_values acc [] = []"
| "decode_values acc (c # s) =
    (if c = CHR '' '' then read_nat acc # decode_values [] s else decode_values (acc @ [c]) s)"

definition values_hdr :: "nat list hdr" where
  "values_hdr = \<lparr>hdr_New = [], hdr_RecordValue = (\<lambda>h v. h @ [nat v]), hdr_Merge = (@),
     hdr_TotalCount = (\<lambda>h. int (length h)), hdr_ValueAtQuantile = quantile_of,
     hdr_Max = (\<lambda>h. int (Max (set (0 # h)))), hdr_Min = (\<lambda>h. if h = [] then 0 else int (Min (set h))),
     hdr_Mean = (\<lambda>h. if h = [] then 0 else real (sum_list h) / real (length h)),
     hdr_Encode = (\<lambda>h. Some (encode_values h)), hdr_Decode = (\<lambda>s. Some (decode_values [] (tl s)))\<rparr>"

lemma decode_token: "\<forall>c \<in> set ds. c \<noteq> CHR '' '' \<Longrightarrow>
    decode_values acc (ds @ CHR '' '' # s) = read_nat (acc @ ds) # decode_values [] s"
  by (induction ds arbitrary: acc) auto

lemma digit_not_space: "is_digit c \<Longrightarrow> c \<noteq> CHR '' ''"
  by (auto simp: is_digit_def)

lemma decode_encode_values: "decode_values [] (concat (map (\<lambda>v. show_nat v @ '' '') h)) = h"
proof (induction h)
  case (Cons v h)
  have "\<forall>c \<in> set (show_nat v). c \<noteq> CHR '' ''" using show_nat_digits[of v] digit_not_space by blast
  with Cons show ?case by (simp add: decode_token)
qed simp

lemma quantile_of_mono: "p \<le> q \<Longrightarrow> quantile_of h p \<le> quantile_of h q"
proof (cases "h = []")
  case False
  assume "p \<le> q"
  then have "p * real (length h) / 100 \<le> q * real (length h) / 100"
    by (simp add: divide_right_mono mult_right_mono)
  then have "nat \<lceil>p * real (length h) / 100\<rceil> - 1 \<le> nat \<lceil>q * real (length h) / 100\<rceil> - 1"
    by (intro diff_le_mono nat_mono ceiling_mono)
  then have "min (length h - 1) (nat \<lceil>p * real (length h) / 100\<rceil> - 1)
      \<le> min (length h - 1) (nat \<lceil>q * real (length h) / 100\<rceil> - 1)"
    by (intro min.mono) simp_all
  moreover have "min (length h - 1) (nat \<lceil>q * real (length h) / 100\<rceil> - 1) < length (sort h)"
    using False by (cases h) simp_all
  ultimately show ?thesis using False by (simp add: quantile_of_def sorted_nth_mono)
qed (simp add: quantile_of_def)

lemma values_hdr_laws: "hdr_counts values_hdr" "hdr_monotone values_hdr" "hdr_roundtrip values_hdr"
  by (simp_all add: hdr_counts_def hdr_monotone_def hdr_roundtrip_def values_hdr_def encode_values_def
      quantile_of_mono decode_encode_values)

section \<open>Counts that are never zero\<close>

definition positive :: "('k, int) gomap \<Rightarrow> bool" where
  "positive m \<longleftrightarrow> (\<forall>n \<in> set (gvalues m). 0 < n)"

lemma positive_Nil [simp]: "positive []"
  by (simp add: positive_def gvalues_def)

lemma positive_Cons: "positive ((k, n) # m) \<longleftrightarrow> 0 < n \<and> positive m"
  by (simp add: positive_def gvalues_def)

lemma gnum_nonneg: "positive m \<Longrightarrow> 0 \<le> gnum m k"
  by (auto simp: gnum_def positive_def split: option.splits dest!: gget_in_gvalues)

lemma positive_gadd [simp]: "positive m \<Longrightarrow> 0 < n \<Longrightarrow> positive (gadd m k n)"
  unfolding gadd_def positive_def using gnum_nonneg[of m k]
  by (intro gvalues_gput_all) (auto simp: positive_def)

lemma positive_gadd_all [simp]: "positive m \<Longrightarrow> positive other \<Longrightarrow> positive (gadd_all m other)"
  unfolding gadd_all_def by (induction other arbitrary: m) (auto simp: positive_Cons)

lemma gtotal_nonneg: "positive m \<Longrightarrow> 0 \<le> gtotal m"
  unfolding gtotal_def positive_def by (rule sum_list_nonneg) (auto intro: less_imp_le)

lemma gkeys_Cons: "gkeys ((k, n) # m) = k # gkeys m"
  by (simp add: gkeys_def)

lemma gkeys_gadd_all: "set (gkeys (gadd_all m other)) = set (gkeys m) \<union> set (gkeys other)"
  unfolding gadd_all_def by (induction other arbitrary: m) (auto simp: gkeys_Cons)

end
