(* ===== verification/Aggregate.thy ===== *)
theory Aggregate
  imports Counting
begin

text \<open>
  The measurement of one step (\<open>internal/metrics/aggregate.go\<close>): samples, the aggregate that
  records them, and the distribution of a histogram. Proved: every sample is counted exactly once
  as a success or under one error class, a latency kept is within the range of the histogram, and
  a load split over several aggregates that are then added has the counters of one aggregate that
  saw every sample.
\<close>

section \<open>Samples\<close>

text \<open>The empty string is the kind of an aggregate that has recorded nothing.\<close>

datatype LatencyKind = NoLatencyKind | CorrectedLatencyKind | ServiceLatencyKind

record Sample =
  S_LatencyKind :: LatencyKind
  S_Step :: string
  S_Key :: string
  S_Protocol :: string
  S_ScheduledAt :: Time
  S_SentAt :: Time
  S_FinishedAt :: Time
  S_Class :: ErrorClass
  S_Detail :: string
  S_Status :: int
  S_Bytes :: int
  S_Messages :: int

definition CorrectedLatency :: "Sample \<Rightarrow> Duration" where
  "CorrectedLatency sample = S_FinishedAt sample - S_ScheduledAt sample"

definition ServiceLatency :: "Sample \<Rightarrow> Duration" where
  "ServiceLatency sample = S_FinishedAt sample - S_SentAt sample"

section \<open>The aggregate of a step\<close>

record 'h Aggregate =
  A_Step :: string
  A_Key :: string
  A_Protocol :: string
  A_LatencyKind :: LatencyKind
  A_correctedLatency :: 'h
  A_serviceLatency :: 'h
  A_Count :: int
  A_Successes :: int
  A_ErrorsByClass :: "(ErrorClass, int) gomap"
  A_StatusByCode :: "(int, int) gomap"
  A_Bytes :: int
  A_Messages :: int
  A_Details :: "(string, int) gomap"

definition NewAggregate :: "'h hdr \<Rightarrow> string \<Rightarrow> string \<Rightarrow> string \<Rightarrow> 'h Aggregate" where
  "NewAggregate hdr step key protocolName =
    \<lparr>A_Step = step, A_Key = key, A_Protocol = protocolName, A_LatencyKind = NoLatencyKind,
     A_correctedLatency = hdr_New hdr, A_serviceLatency = hdr_New hdr, A_Count = 0, A_Successes = 0,
     A_ErrorsByClass = [], A_StatusByCode = [], A_Bytes = 0, A_Messages = 0, A_Details = []\<rparr>"

definition clampUs :: "Duration \<Rightarrow> int" where
  "clampUs value =
    (let microseconds = Microseconds value;
         microseconds = (if microseconds < minLatencyUs then minLatencyUs else microseconds)
     in if microseconds > maxLatencyUs then maxLatencyUs else microseconds)"

definition save :: "'h hdr \<Rightarrow> 'h \<Rightarrow> Duration \<Rightarrow> 'h" where
  "save hdr histogram value = hdr_RecordValue hdr histogram (clampUs value)"

definition recordOutcome :: "'h Aggregate \<Rightarrow> Sample \<Rightarrow> 'h Aggregate" where
  "recordOutcome aggregate sample =
    (if S_Class sample = Success then aggregate\<lparr>A_Successes := A_Successes aggregate + 1\<rparr>
     else aggregate\<lparr>A_ErrorsByClass := gadd (A_ErrorsByClass aggregate) (S_Class sample) 1,
            A_Details := (if S_Detail sample \<noteq> '''' \<and> length (A_Details aggregate) < 32
                          then gadd (A_Details aggregate) (S_Detail sample) 1 else A_Details aggregate)\<rparr>)"

definition recordLatency :: "'h hdr \<Rightarrow> 'h Aggregate \<Rightarrow> Sample \<Rightarrow> 'h Aggregate" where
  "recordLatency hdr aggregate sample =
    (if IsZero (S_FinishedAt sample) then aggregate
     else aggregate\<lparr>A_correctedLatency := save hdr (A_correctedLatency aggregate) (CorrectedLatency sample),
            A_serviceLatency := (if IsZero (S_SentAt sample) then A_serviceLatency aggregate
                                 else save hdr (A_serviceLatency aggregate) (ServiceLatency sample))\<rparr>)"

definition Aggregate_Record :: "'h hdr \<Rightarrow> 'h Aggregate \<Rightarrow> Sample \<Rightarrow> 'h Aggregate" where
  "Aggregate_Record hdr aggregate sample =
    (let aggregate = (if A_LatencyKind aggregate = NoLatencyKind
                      then aggregate\<lparr>A_LatencyKind := S_LatencyKind sample\<rparr> else aggregate);
         aggregate = aggregate\<lparr>A_Count := A_Count aggregate + 1,
           A_Bytes := A_Bytes aggregate + S_Bytes sample,
           A_Messages := A_Messages aggregate + S_Messages sample,
           A_StatusByCode := (if 0 < S_Status sample then gadd (A_StatusByCode aggregate) (S_Status sample) 1
                              else A_StatusByCode aggregate)\<rparr>
     in recordLatency hdr (recordOutcome aggregate sample) sample)"

definition Aggregate_Add :: "'h hdr \<Rightarrow> 'h Aggregate \<Rightarrow> 'h Aggregate \<Rightarrow> 'h Aggregate" where
  "Aggregate_Add hdr aggregate other =
    aggregate\<lparr>
      A_correctedLatency := hdr_Merge hdr (A_correctedLatency aggregate) (A_correctedLatency other),
      A_serviceLatency := hdr_Merge hdr (A_serviceLatency aggregate) (A_serviceLatency other),
      A_Count := A_Count aggregate + A_Count other,
      A_Successes := A_Successes aggregate + A_Successes other,
      A_Bytes := A_Bytes aggregate + A_Bytes other,
      A_Messages := A_Messages aggregate + A_Messages other,
      A_ErrorsByClass := gadd_all (A_ErrorsByClass aggregate) (A_ErrorsByClass other),
      A_StatusByCode := gadd_all (A_StatusByCode aggregate) (A_StatusByCode other),
      A_Details := gadd_all (A_Details aggregate) (A_Details other)\<rparr>"

definition Errors :: "'h Aggregate \<Rightarrow> int" where
  "Errors aggregate = A_Count aggregate - A_Successes aggregate"

section \<open>Distributions\<close>

record Distribution =
  D_Samples :: int
  D_P50 :: real
  D_P75 :: real
  D_P90 :: real
  D_P95 :: real
  D_P99 :: real
  D_P999 :: real
  D_Max :: real
  D_Minimum :: real
  D_Mean :: real
  D_Histogram :: string

text \<open>\<open>Distribution{}\<close>, the zero value of the struct.\<close>

definition zeroDistribution :: Distribution where
  "zeroDistribution = \<lparr>D_Samples = 0, D_P50 = 0, D_P75 = 0, D_P90 = 0, D_P95 = 0, D_P99 = 0, D_P999 = 0,
     D_Max = 0, D_Minimum = 0, D_Mean = 0, D_Histogram = ''''\<rparr>"

definition encodeHistogram :: "'h hdr \<Rightarrow> 'h \<Rightarrow> string" where
  "encodeHistogram hdr histogram =
    (if hdr_TotalCount hdr histogram = 0 then ''''
     else case hdr_Encode hdr histogram of None \<Rightarrow> '''' | Some encoded \<Rightarrow> encoded)"

datatype metrics_error = UnreadableHistogram

definition decodeHistogram :: "'h hdr \<Rightarrow> string \<Rightarrow> metrics_error + 'h option" where
  "decodeHistogram hdr encoded =
    (if encoded = '''' then Inr None
     else case hdr_Decode hdr encoded of None \<Rightarrow> Inl UnreadableHistogram | Some histogram \<Rightarrow> Inr (Some histogram))"

definition inMilliseconds :: "int \<Rightarrow> real" where
  "inMilliseconds microseconds = real_of_int microseconds / 1000"

definition distributionOf :: "'h hdr \<Rightarrow> 'h \<Rightarrow> Distribution" where
  "distributionOf hdr histogram =
    \<lparr>D_Samples = hdr_TotalCount hdr histogram,
     D_P50 = inMilliseconds (hdr_ValueAtQuantile hdr histogram 50),
     D_P75 = inMilliseconds (hdr_ValueAtQuantile hdr histogram 75),
     D_P90 = inMilliseconds (hdr_ValueAtQuantile hdr histogram 90),
     D_P95 = inMilliseconds (hdr_ValueAtQuantile hdr histogram 95),
     D_P99 = inMilliseconds (hdr_ValueAtQuantile hdr histogram 99),
     D_P999 = inMilliseconds (hdr_ValueAtQuantile hdr histogram (999 / 10)),
     D_Max = inMilliseconds (hdr_Max hdr histogram),
     D_Minimum = inMilliseconds (hdr_Min hdr histogram),
     D_Mean = hdr_Mean hdr histogram / 1000,
     D_Histogram = encodeHistogram hdr histogram\<rparr>"

definition Merged :: "'h hdr \<Rightarrow> Distribution \<Rightarrow> Distribution \<Rightarrow> metrics_error + Distribution" where
  "Merged hdr distribution other =
    (case decodeHistogram hdr (D_Histogram distribution) of Inl err \<Rightarrow> Inl err
     | Inr first \<Rightarrow> case decodeHistogram hdr (D_Histogram other) of Inl err \<Rightarrow> Inl err
     | Inr second \<Rightarrow> (case (first, second) of
         (None, _) \<Rightarrow> Inr other
       | (Some _, None) \<Rightarrow> Inr distribution
       | (Some h, Some h') \<Rightarrow> Inr (distributionOf hdr (hdr_Merge hdr h h'))))"

definition Aggregate_Distribution :: "'h hdr \<Rightarrow> 'h Aggregate \<Rightarrow> Distribution" where
  "Aggregate_Distribution hdr aggregate = distributionOf hdr (A_correctedLatency aggregate)"

definition ServiceDistribution :: "'h hdr \<Rightarrow> 'h Aggregate \<Rightarrow> Distribution" where
  "ServiceDistribution hdr aggregate = distributionOf hdr (A_serviceLatency aggregate)"

definition SortKeys :: "(string, 'h Aggregate) gomap \<Rightarrow> string list" where
  "SortKeys aggregates = sort_Strings (gkeys aggregates)"

section \<open>Well-formed aggregates\<close>

definition aggregate_ok :: "'h Aggregate \<Rightarrow> bool" where
  "aggregate_ok a \<longleftrightarrow>
    gmap_ok (A_ErrorsByClass a) \<and> gmap_ok (A_StatusByCode a) \<and> gmap_ok (A_Details a) \<and>
    A_Count a = A_Successes a + gtotal (A_ErrorsByClass a) \<and>
    gtotal (A_StatusByCode a) \<le> A_Count a \<and> gtotal (A_Details a) \<le> gtotal (A_ErrorsByClass a) \<and>
    0 \<le> A_Successes a \<and> 0 \<le> gtotal (A_ErrorsByClass a) \<and>
    positive (A_ErrorsByClass a) \<and> Success \<notin> set (gkeys (A_ErrorsByClass a))"

lemma aggregate_ok_New [simp]: "aggregate_ok (NewAggregate hdr step key protocolName)"
  by (simp add: aggregate_ok_def NewAggregate_def gvalues_def)

lemma recordLatency_fields [field_simps_of_ops]:
  "A_Count (recordLatency hdr a s) = A_Count a" "A_Successes (recordLatency hdr a s) = A_Successes a"
  "A_ErrorsByClass (recordLatency hdr a s) = A_ErrorsByClass a" "A_StatusByCode (recordLatency hdr a s) = A_StatusByCode a"
  "A_Details (recordLatency hdr a s) = A_Details a" "A_Bytes (recordLatency hdr a s) = A_Bytes a"
  "A_Messages (recordLatency hdr a s) = A_Messages a" "A_Step (recordLatency hdr a s) = A_Step a"
  by (simp_all add: recordLatency_def)

lemma Aggregate_Record_fields [field_simps_of_ops]:
  "A_Count (Aggregate_Record hdr a s) = A_Count a + 1"
  "A_Successes (Aggregate_Record hdr a s) = A_Successes a + (if S_Class s = Success then 1 else 0)"
  "A_Bytes (Aggregate_Record hdr a s) = A_Bytes a + S_Bytes s"
  "A_Messages (Aggregate_Record hdr a s) = A_Messages a + S_Messages s"
  "A_Step (Aggregate_Record hdr a s) = A_Step a"
  "A_ErrorsByClass (Aggregate_Record hdr a s) =
    (if S_Class s = Success then A_ErrorsByClass a else gadd (A_ErrorsByClass a) (S_Class s) 1)"
  "A_StatusByCode (Aggregate_Record hdr a s) =
    (if 0 < S_Status s then gadd (A_StatusByCode a) (S_Status s) 1 else A_StatusByCode a)"
  "A_Details (Aggregate_Record hdr a s) =
    (if S_Class s \<noteq> Success \<and> S_Detail s \<noteq> '''' \<and> length (A_Details a) < 32
     then gadd (A_Details a) (S_Detail s) 1 else A_Details a)"
  by (simp_all add: Aggregate_Record_def Let_def recordOutcome_def field_simps_of_ops)

lemma aggregate_ok_Record [simp]: "aggregate_ok a \<Longrightarrow> aggregate_ok (Aggregate_Record hdr a s)"
  by (simp add: aggregate_ok_def field_simps_of_ops positive_gadd)

lemma aggregate_ok_Add [simp]: "aggregate_ok a \<Longrightarrow> aggregate_ok b \<Longrightarrow> aggregate_ok (Aggregate_Add hdr a b)"
  by (simp add: aggregate_ok_def Aggregate_Add_def gtotal_gadd_all positive_gadd_all gkeys_gadd_all)

text \<open>The counters that add, and what one sample adds to each.\<close>

datatype counter = Total | Succeeded | ByteCount | MessageCount | OfClass ErrorClass | OfStatus int

fun counter_of :: "counter \<Rightarrow> 'h Aggregate \<Rightarrow> int" where
  "counter_of Total a = A_Count a"
| "counter_of Succeeded a = A_Successes a"
| "counter_of ByteCount a = A_Bytes a"
| "counter_of MessageCount a = A_Messages a"
| "counter_of (OfClass c) a = gnum (A_ErrorsByClass a) c"
| "counter_of (OfStatus n) a = gnum (A_StatusByCode a) n"

fun sample_adds :: "counter \<Rightarrow> Sample \<Rightarrow> int" where
  "sample_adds Total s = 1"
| "sample_adds Succeeded s = (if S_Class s = Success then 1 else 0)"
| "sample_adds ByteCount s = S_Bytes s"
| "sample_adds MessageCount s = S_Messages s"
| "sample_adds (OfClass c) s = (if S_Class s = c \<and> c \<noteq> Success then 1 else 0)"
| "sample_adds (OfStatus n) s = (if S_Status s = n \<and> 0 < n then 1 else 0)"

lemma counter_of_Record: "counter_of i (Aggregate_Record hdr a s) = counter_of i a + sample_adds i s"
  by (cases i) (auto simp: field_simps_of_ops)

lemma counter_of_Add:
  "aggregate_ok a \<Longrightarrow> aggregate_ok b \<Longrightarrow> counter_of i (Aggregate_Add hdr a b) = counter_of i a + counter_of i b"
  by (cases i) (simp_all add: Aggregate_Add_def gnum_gadd_all aggregate_ok_def)

lemma counter_of_New: "counter_of i (NewAggregate hdr step key protocolName) = 0"
  by (cases i) (simp_all add: NewAggregate_def gnum_def)

interpretation steps: distributed aggregate_ok "Aggregate_Record hdr" counter_of sample_adds
    "Aggregate_Add hdr" "NewAggregate hdr step key protocolName" for hdr step key protocolName
  by unfold_locales (simp_all add: counter_of_Record counter_of_Add counter_of_New)

lemma clampUs_bounds [simp]: "minLatencyUs \<le> clampUs d" "clampUs d \<le> maxLatencyUs"
  by (simp_all add: clampUs_def Let_def minLatencyUs_def maxLatencyUs_def)

lemma TotalCount_save [simp]: "hdr_counts hdr \<Longrightarrow> hdr_TotalCount hdr (save hdr h d) = hdr_TotalCount hdr h + 1"
  by (simp add: save_def hdr_counts_def)

text \<open>How many of the samples recorded reach each histogram.\<close>

definition finished_count :: "Sample list \<Rightarrow> int" where
  "finished_count ss = int (length (filter (\<lambda>s. \<not> IsZero (S_FinishedAt s)) ss))"

definition answered_count :: "Sample list \<Rightarrow> int" where
  "answered_count ss = int (length (filter (\<lambda>s. \<not> IsZero (S_FinishedAt s) \<and> \<not> IsZero (S_SentAt s)) ss))"

lemma TotalCount_records:
  assumes "hdr_counts hdr"
  shows "hdr_TotalCount hdr (A_correctedLatency (foldl (Aggregate_Record hdr) a ss)) =
      hdr_TotalCount hdr (A_correctedLatency a) + finished_count ss
    \<and> hdr_TotalCount hdr (A_serviceLatency (foldl (Aggregate_Record hdr) a ss)) =
      hdr_TotalCount hdr (A_serviceLatency a) + answered_count ss"
  by (induction ss arbitrary: a)
    (simp_all add: assms finished_count_def answered_count_def Aggregate_Record_def Let_def
      recordLatency_def recordOutcome_def)

section \<open>Properties\<close>

lemma gnum_sum_classes: "(\<Sum>s \<leftarrow> ss. sample_adds (OfClass c) s) =
    (if c = Success then 0 else int (length (filter (\<lambda>s. S_Class s = c) ss)))"
  by (induction ss) auto

text \<open>Every sample recorded in a step is counted once: the count is the number of samples, it is
  the successes plus the errors by class, each class has exactly its samples, and with a histogram
  that counts what it records the corrected latency has one value per sample that finished.\<close>

theorem Aggregate_Record_counts_each_sample_once:
  assumes "hdr_counts hdr"
  shows "let a = foldl (Aggregate_Record hdr) (NewAggregate hdr step key protocolName) ss
    in A_Count a = int (length ss) \<and> A_Count a = A_Successes a + gtotal (A_ErrorsByClass a)
     \<and> Errors a = gtotal (A_ErrorsByClass a)
     \<and> (\<forall>c. gnum (A_ErrorsByClass a) c =
          (if c = Success then 0 else int (length (filter (\<lambda>s. S_Class s = c) ss))))
     \<and> hdr_TotalCount hdr (A_correctedLatency a) = finished_count ss
     \<and> hdr_TotalCount hdr (A_serviceLatency a) = answered_count ss"
proof -
  let ?n = "NewAggregate hdr step key protocolName"
  let ?a = "foldl (Aggregate_Record hdr) ?n ss"
  have ok: "aggregate_ok ?a" by (rule steps.ok_records[OF aggregate_ok_New])
  have c: "counter_of i ?a = (\<Sum>s \<leftarrow> ss. sample_adds i s)" for i
    using steps.obs_records[OF aggregate_ok_New, of i] by (simp add: counter_of_New)
  have "A_Count ?a = int (length ss)" using c[of Total] by (simp add: sum_list_triv)
  moreover have "gnum (A_ErrorsByClass ?a) k =
      (if k = Success then 0 else int (length (filter (\<lambda>s. S_Class s = k) ss)))" for k
    using c[of "OfClass k"] gnum_sum_classes[of k ss] by simp
  moreover have "hdr_TotalCount hdr (A_correctedLatency ?a) = finished_count ss"
    "hdr_TotalCount hdr (A_serviceLatency ?a) = answered_count ss"
    using TotalCount_records[OF assms, of ?n ss] hdr_counts_New[OF assms] by (simp_all add: NewAggregate_def)
  ultimately show ?thesis using ok by (simp add: Let_def Errors_def aggregate_ok_def)
qed

text \<open>Distributed execution: samples spread in any way over several aggregates that are then
  added up have the same count, successes, bytes, messages, errors by class and answers by status
  as one aggregate that recorded them all.\<close>

theorem Add_of_parts_is_whole:
  assumes "mset ss = mset (concat parts)"
  shows "counter_of i (foldl (Aggregate_Add hdr) (NewAggregate hdr step key protocolName)
      (map (foldl (Aggregate_Record hdr) (NewAggregate hdr step key protocolName)) parts)) =
    counter_of i (foldl (Aggregate_Record hdr) (NewAggregate hdr step key protocolName) ss)"
  using assms by (rule steps.split_invisible)

lemma encode_nonempty:
  "hdr_roundtrip hdr \<Longrightarrow> hdr_TotalCount hdr h \<noteq> 0 \<Longrightarrow>
   decodeHistogram hdr (encodeHistogram hdr h) = Inr (Some h)"
  by (drule hdr_roundtrip_def[THEN iffD1, THEN spec, of _ h])
    (auto simp: encodeHistogram_def decodeHistogram_def)

lemma encode_empty: "hdr_TotalCount hdr h = 0 \<Longrightarrow> decodeHistogram hdr (encodeHistogram hdr h) = Inr None"
  by (simp add: encodeHistogram_def decodeHistogram_def)

text \<open>Adding two distributions through their serialised histograms never fails on what the tool
  wrote, adds the samples, and when both have samples gives the very distribution of the merged
  histogram: percentiles come out of the sum, never out of two percentiles.\<close>

theorem Merged_is_exact:
  assumes "hdr_counts hdr" "hdr_roundtrip hdr"
  shows "\<exists>d. Merged hdr (distributionOf hdr h) (distributionOf hdr h') = Inr d
    \<and> D_Samples d = hdr_TotalCount hdr h + hdr_TotalCount hdr h'
    \<and> (hdr_TotalCount hdr h \<noteq> 0 \<and> hdr_TotalCount hdr h' \<noteq> 0 \<longrightarrow> d = distributionOf hdr (hdr_Merge hdr h h'))"
  using encode_nonempty[OF assms(2)] encode_empty[of hdr] hdr_counts_Merge[OF assms(1)]
  by (cases "hdr_TotalCount hdr h = 0"; cases "hdr_TotalCount hdr h' = 0")
    (simp_all add: Merged_def distributionOf_def)

section \<open>Witnesses\<close>

definition example_sample :: "ErrorClass \<Rightarrow> Time \<Rightarrow> Sample" where
  "example_sample class finish = \<lparr>S_LatencyKind = CorrectedLatencyKind, S_Step = ''login'', S_Key = ''login'',
     S_Protocol = ''http'', S_ScheduledAt = 0, S_SentAt = 1000, S_FinishedAt = finish, S_Class = class,
     S_Detail = '''', S_Status = (if class = Success then 200 else 0), S_Bytes = 10, S_Messages = 0\<rparr>"

theorem Aggregate_Record_counts_each_sample_once_witness:
  "A_Count (foldl (Aggregate_Record values_hdr) (NewAggregate values_hdr ''login'' ''login'' ''http'')
     [example_sample Success 5000000, example_sample ErrTimeout zeroTime]) = 2 \<and>
   gnum (A_ErrorsByClass (foldl (Aggregate_Record values_hdr) (NewAggregate values_hdr ''login'' ''login'' ''http'')
     [example_sample Success 5000000, example_sample ErrTimeout zeroTime])) ErrTimeout = 1"
  using Aggregate_Record_counts_each_sample_once[OF values_hdr_laws(1), of "''login''" "''login''" "''http''"
      "[example_sample Success 5000000, example_sample ErrTimeout zeroTime]"]
  unfolding Let_def by (simp add: example_sample_def)

theorem Add_of_parts_is_whole_witness:
  "counter_of Total (foldl (Aggregate_Add values_hdr) (NewAggregate values_hdr ''a'' ''a'' '''')
      (map (foldl (Aggregate_Record values_hdr) (NewAggregate values_hdr ''a'' ''a'' ''''))
        [[example_sample Success 5], [example_sample ErrStatus 7, example_sample Success 9]])) = 3"
proof -
  have split: "mset [example_sample Success 9, example_sample Success 5, example_sample ErrStatus 7] =
    mset (concat [[example_sample Success 5], [example_sample ErrStatus 7, example_sample Success 9]])" by simp
  have "counter_of Total (foldl (Aggregate_Record values_hdr) (NewAggregate values_hdr ''a'' ''a'' '''')
      [example_sample Success 9, example_sample Success 5, example_sample ErrStatus 7]) = 3"
    by (simp only: foldl.simps counter_of_Record counter_of_New sample_adds.simps)
  with Add_of_parts_is_whole[OF split, of Total values_hdr "''a''" "''a''" "''''"] show ?thesis by (simp only:)
qed

theorem Merged_is_exact_witness:
  "Merged values_hdr (distributionOf values_hdr [10]) (distributionOf values_hdr [20, 30])
    = Inr (distributionOf values_hdr [10, 20, 30])"
  using Merged_is_exact[OF values_hdr_laws(1,3), of "[10]" "[20, 30]"] by (auto simp: values_hdr_def)

end
