(* ===== verification/Variety.thy ===== *)
theory Variety
  imports Text Counting
begin

text \<open>
  Observed variety (\<open>internal/metrics/variety.go\<close> and \<open>shape.go\<close>): how many different values the
  load really used, the interval or prefix they covered, the shapes of the bodies, and the warnings
  about a load that concentrated on one value. Proved: below the cap the count is the number of
  distinct values, the interval is exactly the least and greatest value, the prefix is the longest
  one all values share, and a warning that invalidates a run is raised exactly when a source with
  more than one value was used with a single one and nobody declared it.
\<close>

section \<open>Warnings\<close>

datatype Severity = SeverityHigh | SeverityMedium | SeverityLow

record Warning =
  W_Kind :: string
  W_Severity :: Severity
  W_Message :: sentence
  W_Evidence :: sentence

section \<open>Counting distinct values\<close>

datatype Range = NumericRange real real | PrefixRange string

record Variety =
  V_Name :: string
  V_Distinct :: int
  V_Uses :: int
  V_Available :: int
  V_Capped :: bool
  V_Range :: "Range option"
  V_Shapes :: "string list"
  V_Sentence :: sentence
  V_Collapse :: "Collapse option"

definition distinctValuesCap :: nat where "distinctValuesCap = 1024"

record varietyCounter =
  vc_seen :: "string list"
  vc_uses :: int
  vc_capped :: bool
  vc_collapse :: "Collapse option"
  vc_numeric :: bool
  vc_first :: bool
  vc_min :: real
  vc_max :: real
  vc_prefix :: string

definition newCounter :: varietyCounter where
  "newCounter = \<lparr>vc_seen = [], vc_uses = 0, vc_capped = False, vc_collapse = None, vc_numeric = False,
     vc_first = False, vc_min = 0, vc_max = 0, vc_prefix = ''''\<rparr>"

definition parseNumber :: "string \<Rightarrow> real \<times> bool" where
  "parseNumber value = (case ParseFloat (TrimSpace value) of None \<Rightarrow> (0, False) | Some number \<Rightarrow> (number, True))"

fun commonPrefix :: "string \<Rightarrow> string \<Rightarrow> string" where
  "commonPrefix (a # first) (b # second) = (if a = b then a # commonPrefix first second else [])"
| "commonPrefix _ _ = []"

definition span :: "varietyCounter \<Rightarrow> string \<Rightarrow> varietyCounter" where
  "span c value =
    (case parseNumber value of (number, isNumber) \<Rightarrow>
      if \<not> vc_first c then
        c\<lparr>vc_first := True, vc_numeric := isNumber, vc_min := number, vc_max := number, vc_prefix := value\<rparr>
      else
        (if isNumber \<and> vc_numeric c then
           c\<lparr>vc_min := (if number < vc_min c then number else vc_min c),
             vc_max := (if number > vc_max c then number else vc_max c)\<rparr>
         else c\<lparr>vc_numeric := False\<rparr>)\<lparr>vc_prefix := commonPrefix (vc_prefix c) value\<rparr>)"

definition variety_record :: "varietyCounter \<Rightarrow> string \<Rightarrow> varietyCounter" where
  "variety_record c value =
    (let c = span (c\<lparr>vc_uses := vc_uses c + 1\<rparr>) value
     in if vc_capped c then c
        else if distinctValuesCap \<le> length (vc_seen c) then c\<lparr>vc_capped := True\<rparr>
        else c\<lparr>vc_seen := List.insert value (vc_seen c)\<rparr>)"

definition meaningfulPrefix :: nat where "meaningfulPrefix = 4"

definition observedRange :: "varietyCounter \<Rightarrow> Range option" where
  "observedRange c =
    (if \<not> vc_first c \<or> vc_uses c < 2 then None
     else if vc_numeric c then Some (NumericRange (vc_min c) (vc_max c))
     else if meaningfulPrefix \<le> length (vc_prefix c) then Some (PrefixRange (vc_prefix c))
     else None)"

section \<open>Shapes of a body\<close>

definition BodyShapeName :: string where "BodyShapeName = ''body.''"

definition bodyShape :: "string \<Rightarrow> bool" where
  "bodyShape name = HasPrefix name BodyShapeName"

definition shapesSeen :: "varietyCounter \<Rightarrow> string list" where
  "shapesSeen counter = take 5 (sort_Strings (vc_seen counter))"

text \<open>A decoded JSON value, as \<open>encoding/json\<close> stores one in an \<open>any\<close>.\<close>

datatype json = JObject "(string \<times> json) list" | JArray "json list" | JString string | JNumber real
  | JBool bool | JNull

definition fieldPath :: "string \<Rightarrow> string \<Rightarrow> string" where
  "fieldPath path name = (if path = '''' then name else path @ ''.'' @ name)"

fun describeShape :: "string \<Rightarrow> json \<Rightarrow> string list" where
  "describeShape path (JObject []) = (if path = '''' then [''body with no fields''] else [path @ '': empty object''])"
| "describeShape path (JObject (f # fs)) =
    concat (map (\<lambda>(name, field). describeShape (fieldPath path name) field) (f # fs))"
| "describeShape path (JArray []) = [path @ ''[]: empty'']"
| "describeShape path (JArray (v # vs)) = describeShape (path @ ''[]'') v"
| "describeShape path (JString s) = [if s = '''' then path @ '': empty'' else path @ '': text'']"
| "describeShape path (JNumber n) = [path @ '': number'']"
| "describeShape path (JBool b) = [path @ '': boolean'']"
| "describeShape path JNull = [path @ '': null'']"

text \<open>The argument \<open>unmarshal\<close> is \<open>json.Unmarshal\<close> into an \<open>any\<close>.\<close>

definition BodyShape :: "(string \<Rightarrow> json option) \<Rightarrow> string \<Rightarrow> string" where
  "BodyShape unmarshal body =
    (let trimmed = TrimSpace body
     in if trimmed = '''' then ''empty''
        else case unmarshal trimmed of None \<Rightarrow> ''text''
        | Some decoded \<Rightarrow> Join (sort_Strings (describeShape '''' decoded)) '', '')"

definition emptyField :: "string \<Rightarrow> bool" where
  "emptyField shape =
    (\<exists>entry \<in> set (Split shape '', '').
       case Cut entry '': '' of (name, kind, separated) \<Rightarrow>
         separated \<and> name \<noteq> '''' \<and> (kind = ''empty'' \<or> kind = ''null'' \<or> kind = ''empty object''))"

section \<open>Sentences\<close>

definition phraseRange :: "Range option \<Rightarrow> sentence" where
  "phraseRange interval =
    (case interval of None \<Rightarrow> Plain ''''
     | Some (PrefixRange prefix) \<Rightarrow> Sprintf '', all starting with %q'' [ArgS prefix]
     | Some (NumericRange low high) \<Rightarrow>
         if low = high then Sprintf '', all equal to %s'' [ArgF low]
         else Sprintf '', between %s and %s'' [ArgF low, ArgF high])"

definition phraseShape :: "Variety \<Rightarrow> sentence" where
  "phraseShape variety =
    (let step = TrimPrefix (V_Name variety) BodyShapeName;
         count = (if V_Capped variety then int distinctValuesCap else V_Distinct variety);
         sentence = Sprintf ''%s of body in %q, across %s sends''
           [ArgS (Text.Count count ''shape'' ''shapes''), ArgS step, ArgS (Grouped (V_Uses variety))]
     in if count = 1 \<and> length (V_Shapes variety) = 1
        then Sprintf ''%s: %s'' [ArgM sentence, ArgS (hd (V_Shapes variety))] else sentence)"

definition phraseVariety :: "Variety \<Rightarrow> sentence" where
  "phraseVariety variety =
    (if bodyShape (V_Name variety) then phraseShape variety
     else if V_Capped variety then
       Sprintf ''more than %d distinct values of %s across %s uses%s''
         [ArgD (int distinctValuesCap - 1), ArgS (V_Name variety), ArgS (Grouped (V_Uses variety)), ArgM (phraseRange (V_Range variety))]
     else if V_Distinct variety = 1 then
       Sprintf ''1 single value of %s across %s uses'' [ArgS (V_Name variety), ArgS (Grouped (V_Uses variety))]
     else
       Sprintf ''%d distinct values of %s across %s uses%s''
         [ArgD (V_Distinct variety), ArgS (V_Name variety), ArgS (Grouped (V_Uses variety)), ArgM (phraseRange (V_Range variety))])"

section \<open>The varieties of a run\<close>

type_synonym Availability = "(string, int) gomap"

definition UnknownAvailability :: int where "UnknownAvailability = - 1"

definition varietyOf :: "Availability \<Rightarrow> string \<Rightarrow> varietyCounter \<Rightarrow> Variety" where
  "varietyOf available name counter =
    (let variety = \<lparr>V_Name = name,
           V_Distinct = (if vc_capped counter then int distinctValuesCap else int (length (vc_seen counter))),
           V_Uses = vc_uses counter, V_Available = gnum available name, V_Capped = vc_capped counter,
           V_Range = None, V_Shapes = [], V_Sentence = Plain '''', V_Collapse = vc_collapse counter\<rparr>;
         variety = (if 1 < V_Distinct variety \<or> V_Capped variety
                    then variety\<lparr>V_Range := observedRange counter\<rparr> else variety);
         variety = (if bodyShape name then variety\<lparr>V_Shapes := shapesSeen counter, V_Range := None\<rparr> else variety)
     in variety\<lparr>V_Sentence := phraseVariety variety\<rparr>)"

definition buildVarieties :: "(string, varietyCounter) gomap \<Rightarrow> Availability \<Rightarrow> Variety list" where
  "buildVarieties counters available =
    map (\<lambda>name. varietyOf available name (the (gget counters name))) (sort_Strings (gkeys counters))"

definition emptyFieldWarnings :: "Variety \<Rightarrow> Warning list" where
  "emptyFieldWarnings variety =
    (let empty = filter emptyField (V_Shapes variety)
     in if empty = [] then []
        else [\<lparr>W_Kind = ''bodyWithEmptyField'', W_Severity = SeverityMedium,
          W_Message = Sprintf ''the body of %q went out with an empty field; unless that is on purpose, the target exercised a path production never sees''
            [ArgS (TrimPrefix (V_Name variety) BodyShapeName)],
          W_Evidence = Plain (Join empty '' | '')\<rparr>])"

definition concentrationWarning :: "Variety \<Rightarrow> Warning" where
  "concentrationWarning variety =
    \<lparr>W_Kind = ''missingVariety'',
     W_Severity = (case V_Collapse variety of None \<Rightarrow> SeverityHigh
       | Some note \<Rightarrow> if Declared note then SeverityMedium else SeverityHigh),
     W_Message = (case V_Collapse variety of
         None \<Rightarrow> Sprintf ''the whole run went with a single value of %s, even though the source has more; the target may have answered from cache, and the result does not represent the declared load''
           [ArgS (V_Name variety)]
       | Some note \<Rightarrow> Sprintf ''the whole load landed on %s: %s. %s'' [ArgS (Subject note), ArgS (Meaning note), ArgS (Remedy note)]),
     W_Evidence = (if V_Available variety < 0
       then Sprintf ''%s is generated per iteration and still repeated the same value across %s uses''
         [ArgS (V_Name variety), ArgS (Grouped (V_Uses variety))]
       else Sprintf ''%s had %d available values and the run used 1, across %s uses''
         [ArgS (V_Name variety), ArgD (V_Available variety), ArgS (Grouped (V_Uses variety))])\<rparr>"

definition fixedValueWarning :: "Variety \<Rightarrow> Warning" where
  "fixedValueWarning variety =
    \<lparr>W_Kind = ''fixedValue'', W_Severity = SeverityMedium,
     W_Message = Sprintf ''the whole load used the same value of %s; if the target caches by that value, the number comes out optimistic''
       [ArgS (V_Name variety)],
     W_Evidence = Sprintf ''%s: 1 value across %s uses'' [ArgS (V_Name variety), ArgS (Grouped (V_Uses variety))]\<rparr>"

definition warningsOf :: "Variety \<Rightarrow> Warning list" where
  "warningsOf variety =
    (if bodyShape (V_Name variety) then emptyFieldWarnings variety
     else if V_Distinct variety \<noteq> 1 \<or> V_Uses variety < 2 then []
     else if V_Available variety = 1 then []
     else if V_Available variety = 0 then [fixedValueWarning variety]
     else [concentrationWarning variety])"

definition VarietyWarnings :: "Variety list \<Rightarrow> Warning list" where
  "VarietyWarnings varieties = concat (map warningsOf varieties)"

definition Notable :: "Variety \<Rightarrow> bool" where
  "Notable variety \<longleftrightarrow> \<not> bodyShape (V_Name variety) \<or> 1 < V_Distinct variety \<or> V_Capped variety
     \<or> (\<exists>shape \<in> set (V_Shapes variety). emptyField shape)"

section \<open>What a counter keeps\<close>

lemma commonPrefix_iff: "HasPrefix (commonPrefix v w) q \<longleftrightarrow> HasPrefix v q \<and> HasPrefix w q"
  by (induction v w arbitrary: q rule: commonPrefix.induct) (case_tac q; auto simp: HasPrefix_iff)+

abbreviation record_all :: "string list \<Rightarrow> varietyCounter" where
  "record_all vs \<equiv> foldl variety_record newCounter vs"

lemma variety_record_fields [field_simps_of_ops]:
  "vc_uses (variety_record c v) = vc_uses c + 1"
  "vc_first (variety_record c v)"
  "vc_collapse (variety_record c v) = vc_collapse c"
  "vc_prefix (variety_record c v) = (if vc_first c then commonPrefix (vc_prefix c) v else v)"
  "vc_capped (variety_record c v) = (vc_capped c \<or> distinctValuesCap \<le> length (vc_seen c))"
  "vc_seen (variety_record c v) =
    (if vc_capped c \<or> distinctValuesCap \<le> length (vc_seen c) then vc_seen c else List.insert v (vc_seen c))"
  by (simp_all add: variety_record_def span_def Let_def split: prod.splits)

lemma variety_record_span [field_simps_of_ops]:
  "vc_numeric (variety_record c v) = (snd (parseNumber v) \<and> (vc_first c \<longrightarrow> vc_numeric c))"
  "snd (parseNumber v) \<Longrightarrow> (vc_first c \<longrightarrow> vc_numeric c) \<Longrightarrow>
   vc_min (variety_record c v) = (if vc_first c then min (vc_min c) (fst (parseNumber v)) else fst (parseNumber v)) \<and>
   vc_max (variety_record c v) = (if vc_first c then max (vc_max c) (fst (parseNumber v)) else fst (parseNumber v))"
  by (auto simp: variety_record_def span_def Let_def min_def max_def split: prod.splits)

lemma newCounter_fields [simp]: "\<not> vc_first newCounter" "vc_uses newCounter = 0" "vc_seen newCounter = []"
  "\<not> vc_capped newCounter"
  by (simp_all add: newCounter_def)

lemma record_all_first: "vc_first (record_all vs) \<longleftrightarrow> vs \<noteq> []"
  by (cases vs rule: rev_cases) (simp_all add: field_simps_of_ops)

lemma record_all_uses: "vc_uses (record_all vs) = int (length vs)"
  by (induction vs rule: rev_induct) (simp_all add: field_simps_of_ops)

lemma record_all_seen:
  "distinct (vc_seen (record_all vs)) \<and> set (vc_seen (record_all vs)) \<subseteq> set vs
   \<and> length (vc_seen (record_all vs)) \<le> distinctValuesCap
   \<and> (\<not> vc_capped (record_all vs) \<longrightarrow> set (vc_seen (record_all vs)) = set vs)
   \<and> (vc_capped (record_all vs) \<longrightarrow> length (vc_seen (record_all vs)) = distinctValuesCap)"
proof (induction vs rule: rev_induct)
  case (snoc v vs)
  then show ?case
    by (auto simp: field_simps_of_ops List.insert_def split: if_splits)
qed (simp add: distinctValuesCap_def)

lemma record_all_prefix:
  "vs \<noteq> [] \<Longrightarrow> HasPrefix (vc_prefix (record_all vs)) q \<longleftrightarrow> (\<forall>v \<in> set vs. HasPrefix v q)"
proof (induction vs rule: rev_induct)
  case (snoc v vs)
  then show ?case
    by (cases "vs = []") (auto simp: field_simps_of_ops record_all_first commonPrefix_iff)
qed simp

lemma record_all_numeric:
  "vs \<noteq> [] \<Longrightarrow> vc_numeric (record_all vs) = (\<forall>v \<in> set vs. snd (parseNumber v))"
proof (induction vs rule: rev_induct)
  case (snoc v vs)
  then show ?case
    by (cases "vs = []") (auto simp: field_simps_of_ops record_all_first)
qed simp

lemma record_all_interval:
  assumes "vs \<noteq> []" "\<forall>v \<in> set vs. snd (parseNumber v)"
  shows "vc_min (record_all vs) = Min (set (map (fst \<circ> parseNumber) vs))
    \<and> vc_max (record_all vs) = Max (set (map (fst \<circ> parseNumber) vs))"
  using assms
proof (induction vs rule: rev_induct)
  case (snoc v vs)
  show ?case
  proof (cases "vs = []")
    case True
    with snoc.prems show ?thesis by (simp add: field_simps_of_ops)
  next
    case False
    with snoc have IH: "vc_min (record_all vs) = Min (set (map (fst \<circ> parseNumber) vs))"
      "vc_max (record_all vs) = Max (set (map (fst \<circ> parseNumber) vs))" by simp_all
    have num: "vc_first (record_all vs)" "vc_numeric (record_all vs)"
      using False snoc.prems by (simp_all add: record_all_first record_all_numeric)
    from snoc.prems False show ?thesis
      using variety_record_span(2)[of v "record_all vs"]
      by (simp add: num IH min.commute max.commute)
  qed
qed simp

section \<open>Properties\<close>

text \<open>Whatever values a variable took during the run, the report tells the truth about them: below
  the cap the distinct values counted are exactly the values used, once the cap is reached there
  were at least that many, the uses are all counted, an interval is the least and the greatest
  value, and a prefix is the longest beginning all the values share.\<close>

theorem varietyOf_truth:
  assumes "vs \<noteq> []"
  shows "let variety = varietyOf available name (record_all vs)
    in V_Uses variety = int (length vs)
     \<and> (\<not> V_Capped variety \<longrightarrow> V_Distinct variety = int (card (set vs)))
     \<and> (V_Capped variety \<longrightarrow> V_Distinct variety \<le> int (card (set vs)))
     \<and> (\<forall>low high. V_Range variety = Some (NumericRange low high) \<longrightarrow>
          (\<forall>v \<in> set vs. snd (parseNumber v)) \<and>
          low = Min (set (map (fst \<circ> parseNumber) vs)) \<and> high = Max (set (map (fst \<circ> parseNumber) vs)))
     \<and> (\<forall>p. V_Range variety = Some (PrefixRange p) \<longrightarrow>
          (\<forall>q. HasPrefix p q \<longleftrightarrow> (\<forall>v \<in> set vs. HasPrefix v q)))"
proof -
  let ?c = "record_all vs"
  have seen: "int (length (vc_seen ?c)) = int (card (set (vc_seen ?c)))"
    using record_all_seen[of vs] by (simp add: distinct_card)
  have "card (set (vc_seen ?c)) \<le> card (set vs)" using record_all_seen[of vs] by (simp add: card_mono)
  then have distinct: "\<not> vc_capped ?c \<Longrightarrow> int (length (vc_seen ?c)) = int (card (set vs))"
    "vc_capped ?c \<Longrightarrow> int distinctValuesCap \<le> int (card (set vs))"
    using record_all_seen[of vs] seen by simp_all
  have range: "observedRange ?c = Some (NumericRange low high) \<Longrightarrow> vc_numeric ?c \<and> low = vc_min ?c \<and> high = vc_max ?c"
    "observedRange ?c = Some (PrefixRange p) \<Longrightarrow> p = vc_prefix ?c" for low high p
    by (auto simp: observedRange_def split: if_splits)
  show ?thesis
    using distinct range record_all_uses[of vs] record_all_numeric[OF assms] record_all_interval[OF assms]
      record_all_prefix[OF assms]
    by (auto simp: varietyOf_def Let_def split: if_splits)
qed

text \<open>A variety warning that invalidates a result is raised exactly when some variable other than
  a body shape was used at least twice with one single value while its source had more than one,
  and the scenario did not declare the concentration.\<close>

theorem VarietyWarnings_high_iff:
  "(\<exists>w \<in> set (VarietyWarnings varieties). W_Severity w = SeverityHigh) \<longleftrightarrow>
   (\<exists>v \<in> set varieties. \<not> bodyShape (V_Name v) \<and> V_Distinct v = 1 \<and> 2 \<le> V_Uses v
      \<and> V_Available v \<noteq> 0 \<and> V_Available v \<noteq> 1
      \<and> (case V_Collapse v of None \<Rightarrow> True | Some note \<Rightarrow> \<not> Declared note))"
proof -
  have "(\<exists>w \<in> set (warningsOf v). W_Severity w = SeverityHigh) \<longleftrightarrow>
    \<not> bodyShape (V_Name v) \<and> V_Distinct v = 1 \<and> 2 \<le> V_Uses v \<and> V_Available v \<noteq> 0 \<and> V_Available v \<noteq> 1
    \<and> (case V_Collapse v of None \<Rightarrow> True | Some note \<Rightarrow> \<not> Declared note)" for v
    by (auto simp: warningsOf_def emptyFieldWarnings_def Let_def fixedValueWarning_def concentrationWarning_def
        split: option.splits)
  then show ?thesis by (auto simp: VarietyWarnings_def)
qed

theorem varietyOf_truth_witness:
  "V_Distinct (varietyOf [] ''id'' (record_all [''ab12'', ''ab13'', ''ab12''])) = 2"
proof -
  have "\<not> V_Capped (varietyOf [] ''id'' (record_all [''ab12'', ''ab13'', ''ab12'']))" by code_simp
  then show ?thesis using varietyOf_truth[of "[''ab12'', ''ab13'', ''ab12'']" "[]" "''id''"]
    by (simp add: Let_def card_insert_if)
qed

end
