(* ===== verification/Collector.thy ===== *)
theory Collector
  imports Aggregate Variety
begin

text \<open>
  The collector of a run (\<open>internal/metrics/collector.go\<close>): step aggregates, one-second buckets, the
  scheduling skew, journeys and observed variety, fed by a bounded channel that a single goroutine
  drains. An operation is one step under the mutex; the interleaving of generators and of the
  consumer is an arbitrary sequence of operations. Proved: the counters of the three views
  (totals, steps, buckets) always agree, every sample offered is either completed, waiting or
  counted as lost, a bucket stays open for its whole retention window, and the time series comes
  out sorted with nothing dropped.
\<close>

section \<open>State\<close>

definition bucketDuration :: Duration where "bucketDuration = Second"
definition bucketRetention :: Duration where "bucketRetention = 60 * Second"

text \<open>\<open>None\<close> is the nil histogram of a closed bucket.\<close>

record 'h Bucket =
  B_StartEpochMs :: int
  B_Sent :: int
  B_Completed :: int
  B_Errors :: int
  B_TargetRate :: real
  B_LatencyP50Ms :: real
  B_LatencyP99Ms :: real
  B_LateSamples :: int
  B_histogram :: "'h option"

text \<open>The channel \<open>input\<close> is the queue of its buffered samples and its capacity.\<close>

record 'h Collector =
  Co_aggregates :: "(string, 'h Aggregate) gomap"
  Co_buckets :: "(int, 'h Bucket) gomap"
  Co_newestBucketMs :: int
  Co_schedulingSkew :: 'h
  Co_start :: Time
  Co_Sent :: int
  Co_Completed :: int
  Co_LateDispatches :: int
  Co_DroppedByInflightLimit :: int
  Co_LostSamples :: int
  Co_PeakInflight :: int
  Co_LateThreshold :: Duration
  Co_variety :: "(string, varietyCounter) gomap"
  Co_journeys :: 'h
  Co_JourneysStarted :: int
  Co_JourneysCompleted :: int
  Co_input :: "Sample list"
  Co_capacity :: nat

definition NewCollectorWithCapacity :: "'h hdr \<Rightarrow> Time \<Rightarrow> Duration \<Rightarrow> nat \<Rightarrow> 'h Collector" where
  "NewCollectorWithCapacity hdr start lateThreshold capacity =
    \<lparr>Co_aggregates = [], Co_buckets = [], Co_newestBucketMs = 0, Co_schedulingSkew = hdr_New hdr,
     Co_start = start, Co_Sent = 0, Co_Completed = 0, Co_LateDispatches = 0, Co_DroppedByInflightLimit = 0,
     Co_LostSamples = 0, Co_PeakInflight = 0, Co_LateThreshold = lateThreshold, Co_variety = [],
     Co_journeys = hdr_New hdr, Co_JourneysStarted = 0, Co_JourneysCompleted = 0,
     Co_input = [], Co_capacity = capacity\<rparr>"

definition NewCollector :: "'h hdr \<Rightarrow> Time \<Rightarrow> Duration \<Rightarrow> 'h Collector" where
  "NewCollector hdr start lateThreshold = NewCollectorWithCapacity hdr start lateThreshold 16384"

section \<open>Buckets\<close>

definition newBucket :: "'h hdr \<Rightarrow> int \<Rightarrow> 'h Bucket" where
  "newBucket hdr startEpochMs =
    \<lparr>B_StartEpochMs = startEpochMs, B_Sent = 0, B_Completed = 0, B_Errors = 0, B_TargetRate = 0,
     B_LatencyP50Ms = 0, B_LatencyP99Ms = 0, B_LateSamples = 0, B_histogram = Some (hdr_New hdr)\<rparr>"

definition closeBucket :: "'h hdr \<Rightarrow> 'h Bucket \<Rightarrow> 'h Bucket" where
  "closeBucket hdr bucket =
    (case B_histogram bucket of None \<Rightarrow> bucket
     | Some histogram \<Rightarrow> bucket\<lparr>
         B_LatencyP50Ms := real_of_int (hdr_ValueAtQuantile hdr histogram 50) / 1000,
         B_LatencyP99Ms := real_of_int (hdr_ValueAtQuantile hdr histogram 99) / 1000,
         B_histogram := None\<rparr>)"

definition closeBucketsBefore :: "'h hdr \<Rightarrow> (int, 'h Bucket) gomap \<Rightarrow> int \<Rightarrow> (int, 'h Bucket) gomap" where
  "closeBucketsBefore hdr buckets limitEpochMs =
    map (\<lambda>(key, bucket). (key, if key < limitEpochMs then closeBucket hdr bucket else bucket)) buckets"

definition bucketKey :: "Time \<Rightarrow> int" where
  "bucketKey instant = UnixMilli instant - UnixMilli instant smod Milliseconds bucketDuration"

text \<open>
  \<open>bucketDe\<close> returns a pointer that the caller writes through. The model returns the key with the new
  state, and \<open>updateBucket\<close> is the write.
\<close>

definition bucketDe :: "'h hdr \<Rightarrow> 'h Collector \<Rightarrow> Time \<Rightarrow> int \<times> 'h Collector" where
  "bucketDe hdr collector instant =
    (let startEpochMs = bucketKey instant;
         collector = (case gget (Co_buckets collector) startEpochMs of
             Some _ \<Rightarrow> collector
           | None \<Rightarrow> collector\<lparr>Co_buckets := gput (Co_buckets collector) startEpochMs (newBucket hdr startEpochMs)\<rparr>);
         collector = (if startEpochMs > Co_newestBucketMs collector
           then collector\<lparr>Co_newestBucketMs := startEpochMs,
                  Co_buckets := closeBucketsBefore hdr (Co_buckets collector) (startEpochMs - Milliseconds bucketRetention)\<rparr>
           else collector)
     in (startEpochMs, collector))"

definition updateBucket :: "'h Collector \<Rightarrow> int \<Rightarrow> ('h Bucket \<Rightarrow> 'h Bucket) \<Rightarrow> 'h Collector" where
  "updateBucket collector key f =
    (case gget (Co_buckets collector) key of None \<Rightarrow> collector
     | Some bucket \<Rightarrow> collector\<lparr>Co_buckets := gput (Co_buckets collector) key (f bucket)\<rparr>)"

section \<open>Operations\<close>

definition completeInBucket :: "'h hdr \<Rightarrow> Sample \<Rightarrow> 'h Bucket \<Rightarrow> 'h Bucket" where
  "completeInBucket hdr sample bucket =
    (let bucket = bucket\<lparr>B_Completed := B_Completed bucket + 1,
           B_Errors := (if S_Class sample \<noteq> Success then B_Errors bucket + 1 else B_Errors bucket)\<rparr>
     in if IsZero (S_FinishedAt sample) then bucket
        else case B_histogram bucket of
            None \<Rightarrow> bucket\<lparr>B_LateSamples := B_LateSamples bucket + 1\<rparr>
          | Some histogram \<Rightarrow> bucket\<lparr>B_histogram := Some (save hdr histogram (CorrectedLatency sample))\<rparr>)"

definition recordInAggregate :: "'h hdr \<Rightarrow> 'h Collector \<Rightarrow> Sample \<Rightarrow> 'h Collector" where
  "recordInAggregate hdr collector sample =
    (let key = S_Step sample;
         aggregate = (case gget (Co_aggregates collector) key of
             Some aggregate \<Rightarrow> aggregate
           | None \<Rightarrow> NewAggregate hdr (S_Step sample) (S_Key sample) (S_Protocol sample))
     in collector\<lparr>Co_aggregates := gput (Co_aggregates collector) key (Aggregate_Record hdr aggregate sample),
          Co_Completed := Co_Completed collector + 1\<rparr>)"

definition apply_sample :: "'h hdr \<Rightarrow> 'h Collector \<Rightarrow> Sample \<Rightarrow> 'h Collector" where
  "apply_sample hdr collector sample =
    (case bucketDe hdr (recordInAggregate hdr collector sample) (S_ScheduledAt sample) of
       (key, collector) \<Rightarrow> updateBucket collector key (completeInBucket hdr sample))"

text \<open>One turn of the loop of \<open>consume\<close>; with nothing buffered the consumer waits.\<close>

definition consume :: "'h hdr \<Rightarrow> 'h Collector \<Rightarrow> 'h Collector" where
  "consume hdr collector =
    (case Co_input collector of [] \<Rightarrow> collector
     | sample # rest \<Rightarrow> apply_sample hdr (collector\<lparr>Co_input := rest\<rparr>) sample)"

definition Collector_Record :: "'h Collector \<Rightarrow> Sample \<Rightarrow> 'h Collector" where
  "Collector_Record collector sample =
    (if length (Co_input collector) < Co_capacity collector
     then collector\<lparr>Co_input := Co_input collector @ [sample]\<rparr>
     else collector\<lparr>Co_LostSamples := Co_LostSamples collector + 1\<rparr>)"

definition RecordDispatch :: "'h hdr \<Rightarrow> 'h Collector \<Rightarrow> Time \<Rightarrow> Time \<Rightarrow> real \<Rightarrow> int \<Rightarrow> 'h Collector" where
  "RecordDispatch hdr collector scheduled dispatch targetRate inflight =
    (let delay = dispatch - scheduled;
         collector = collector\<lparr>Co_Sent := Co_Sent collector + 1,
           Co_PeakInflight := (if inflight > Co_PeakInflight collector then inflight else Co_PeakInflight collector),
           Co_schedulingSkew := (if delay > 0 then save hdr (Co_schedulingSkew collector) delay
                                 else hdr_RecordValue hdr (Co_schedulingSkew collector) minLatencyUs),
           Co_LateDispatches := (if delay > Co_LateThreshold collector then Co_LateDispatches collector + 1
                                 else Co_LateDispatches collector)\<rparr>
     in case bucketDe hdr collector scheduled of
       (key, collector) \<Rightarrow> updateBucket collector key
         (\<lambda>bucket. bucket\<lparr>B_Sent := B_Sent bucket + 1, B_TargetRate := targetRate\<rparr>))"

definition RecordJourney :: "'h hdr \<Rightarrow> 'h Collector \<Rightarrow> Time \<Rightarrow> Time \<Rightarrow> bool \<Rightarrow> 'h Collector" where
  "RecordJourney hdr collector scheduled finish completed =
    collector\<lparr>Co_JourneysStarted := Co_JourneysStarted collector + 1,
      Co_JourneysCompleted := (if completed then Co_JourneysCompleted collector + 1 else Co_JourneysCompleted collector),
      Co_journeys := save hdr (Co_journeys collector) (finish - scheduled)\<rparr>"

definition record_use :: "(string, Collapse) gomap \<Rightarrow> (string, varietyCounter) gomap \<Rightarrow> string \<times> string
    \<Rightarrow> (string, varietyCounter) gomap" where
  "record_use collapses variety = (\<lambda>(name, value).
    let counter = (case gget variety name of Some counter \<Rightarrow> counter | None \<Rightarrow> newCounter);
        counter = variety_record counter value;
        counter = (case gget collapses name of
            Some note \<Rightarrow> if vc_collapse counter = None then counter\<lparr>vc_collapse := Some note\<rparr> else counter
          | None \<Rightarrow> counter)
    in gput variety name counter)"

definition recordUses :: "'h Collector \<Rightarrow> (string, string) gomap \<Rightarrow> (string, Collapse) gomap \<Rightarrow> 'h Collector" where
  "recordUses collector uses collapses =
    (if uses = [] then collector
     else collector\<lparr>Co_variety := foldl (record_use collapses) (Co_variety collector) uses\<rparr>)"

definition RecordUses :: "'h Collector \<Rightarrow> (string, string) gomap \<Rightarrow> 'h Collector" where
  "RecordUses collector uses = recordUses collector uses []"

definition RecordDimensions :: "'h Collector \<Rightarrow> (string, string) gomap \<Rightarrow> (string, Collapse) gomap \<Rightarrow> 'h Collector" where
  "RecordDimensions collector uses collapses = recordUses collector uses collapses"

definition RecordInflightDrop :: "'h Collector \<Rightarrow> 'h Collector" where
  "RecordInflightDrop collector = collector\<lparr>Co_DroppedByInflightLimit := Co_DroppedByInflightLimit collector + 1\<rparr>"

text \<open>\<open>Close\<close> closes the channel, waits until the consumer has applied what was buffered, and closes
  every bucket.\<close>

definition Collector_Close :: "'h hdr \<Rightarrow> 'h Collector \<Rightarrow> 'h Collector" where
  "Collector_Close hdr collector =
    (let collector = foldl (apply_sample hdr) (collector\<lparr>Co_input := []\<rparr>) (Co_input collector)
     in collector\<lparr>Co_buckets := map (\<lambda>(key, bucket). (key, closeBucket hdr bucket)) (Co_buckets collector)\<rparr>)"

section \<open>Reading the collector\<close>

definition Varieties :: "'h Collector \<Rightarrow> Availability \<Rightarrow> Variety list" where
  "Varieties collector available = buildVarieties (Co_variety collector) available"

definition Journeys :: "'h hdr \<Rightarrow> 'h Collector \<Rightarrow> Distribution" where
  "Journeys hdr collector = distributionOf hdr (Co_journeys collector)"

definition SchedulingSkew :: "'h hdr \<Rightarrow> 'h Collector \<Rightarrow> Distribution" where
  "SchedulingSkew hdr collector = distributionOf hdr (Co_schedulingSkew collector)"

record Snapshot =
  Sn_Sent :: int
  Sn_Completed :: int
  Sn_Errors :: int
  Sn_LateDispatches :: int
  Sn_PeakInflight :: int
  Sn_DesvioP99Ms :: real
  Sn_LatencyP50Ms :: real
  Sn_LatencyP99Ms :: real
  Sn_mergedSamples :: int

definition addLatency :: "'h hdr \<Rightarrow> Snapshot \<Rightarrow> 'h Aggregate \<Rightarrow> Snapshot" where
  "addLatency hdr snapshot aggregate =
    (let distribution = Aggregate_Distribution hdr aggregate;
         weight = real_of_int (D_Samples distribution);
         total = real_of_int (Sn_mergedSamples snapshot)
     in if D_Samples distribution = 0 then snapshot
        else snapshot\<lparr>
          Sn_LatencyP50Ms := (Sn_LatencyP50Ms snapshot * total + D_P50 distribution * weight) / (total + weight),
          Sn_LatencyP99Ms := (Sn_LatencyP99Ms snapshot * total + D_P99 distribution * weight) / (total + weight),
          Sn_mergedSamples := Sn_mergedSamples snapshot + D_Samples distribution\<rparr>)"

definition Collector_Snapshot :: "'h hdr \<Rightarrow> 'h Collector \<Rightarrow> Snapshot" where
  "Collector_Snapshot hdr collector =
    foldl (\<lambda>snapshot aggregate.
        addLatency hdr (snapshot\<lparr>Sn_Errors := Sn_Errors snapshot + Errors aggregate\<rparr>) aggregate)
      \<lparr>Sn_Sent = Co_Sent collector, Sn_Completed = Co_Completed collector, Sn_Errors = 0,
       Sn_LateDispatches = Co_LateDispatches collector, Sn_PeakInflight = Co_PeakInflight collector,
       Sn_DesvioP99Ms = real_of_int (hdr_ValueAtQuantile hdr (Co_schedulingSkew collector) 99) / 1000,
       Sn_LatencyP50Ms = 0, Sn_LatencyP99Ms = 0, Sn_mergedSamples = 0\<rparr>
      (gvalues (Co_aggregates collector))"

text \<open>
  The two nested loops of \<open>Buckets\<close> exchange \<open>list[i]\<close> with every smaller \<open>list[j]\<close> behind it.
  \<open>exchange x xs\<close> is the inner loop for one \<open>i\<close>: \<open>x\<close> is \<open>list[i]\<close>, \<open>xs\<close> what follows; it returns
  what ends at position \<open>i\<close> and what follows afterwards.
\<close>

fun exchange :: "'h Bucket \<Rightarrow> 'h Bucket list \<Rightarrow> 'h Bucket \<times> 'h Bucket list" where
  "exchange x [] = (x, [])"
| "exchange x (y # ys) =
    (if B_StartEpochMs y < B_StartEpochMs x
     then (case exchange y ys of (m, r) \<Rightarrow> (m, x # r))
     else (case exchange x ys of (m, r) \<Rightarrow> (m, y # r)))"

lemma length_exchange: "length (snd (exchange x xs)) = length xs"
  by (induction x xs rule: exchange.induct) (auto split: prod.splits)

function exchange_sort :: "'h Bucket list \<Rightarrow> 'h Bucket list" where
  "exchange_sort [] = []"
| "exchange_sort (x # xs) = fst (exchange x xs) # exchange_sort (snd (exchange x xs))"
  by pat_completeness auto
termination
  by (relation "measure length") (simp_all add: length_exchange)

definition Buckets :: "'h Collector \<Rightarrow> 'h Bucket list" where
  "Buckets collector = exchange_sort (gvalues (Co_buckets collector))"

section \<open>Operations as events\<close>

text \<open>What the goroutines of a run do to the collector, in any order.\<close>

datatype collector_event =
    EvRecord Sample | EvConsume | EvDispatch Time Time real int | EvJourney Time Time bool
  | EvUses "(string, string) gomap" "(string, Collapse) gomap" | EvDrop

fun collector_exec :: "'h hdr \<Rightarrow> 'h Collector \<Rightarrow> collector_event \<Rightarrow> 'h Collector" where
  "collector_exec hdr c (EvRecord sample) = Collector_Record c sample"
| "collector_exec hdr c EvConsume = consume hdr c"
| "collector_exec hdr c (EvDispatch scheduled dispatch rate inflight) = RecordDispatch hdr c scheduled dispatch rate inflight"
| "collector_exec hdr c (EvJourney scheduled finish completed) = RecordJourney hdr c scheduled finish completed"
| "collector_exec hdr c (EvUses uses collapses) = recordUses c uses collapses"
| "collector_exec hdr c EvDrop = RecordInflightDrop c"

section \<open>The invariant\<close>

abbreviation bsum :: "('h Bucket \<Rightarrow> int) \<Rightarrow> 'h Collector \<Rightarrow> int" where
  "bsum f c \<equiv> sum_list (map f (gvalues (Co_buckets c)))"

abbreviation asum :: "('h Aggregate \<Rightarrow> int) \<Rightarrow> 'h Collector \<Rightarrow> int" where
  "asum f c \<equiv> sum_list (map f (gvalues (Co_aggregates c)))"

text \<open>A bucket sits under its start, on a whole second, and is closed only when it fell behind the
  retention window.\<close>

definition bucket_ok :: "int \<Rightarrow> int \<times> 'h Bucket \<Rightarrow> bool" where
  "bucket_ok newest = (\<lambda>(key, b). B_StartEpochMs b = key \<and> 1000 dvd key \<and> key \<le> newest
     \<and> (B_histogram b = None \<longrightarrow> key < newest - 60000))"

definition buckets_ok :: "'h Collector \<Rightarrow> bool" where
  "buckets_ok c \<longleftrightarrow> gmap_ok (Co_buckets c) \<and> (\<forall>kb \<in> set (Co_buckets c). bucket_ok (Co_newestBucketMs c) kb)"

definition aggregates_ok :: "'h Collector \<Rightarrow> bool" where
  "aggregates_ok c \<longleftrightarrow> gmap_ok (Co_aggregates c) \<and>
     (\<forall>(key, a) \<in> set (Co_aggregates c). aggregate_ok a \<and> A_Step a = key)"

definition views_agree :: "'h Collector \<Rightarrow> bool" where
  "views_agree c \<longleftrightarrow> Co_Completed c = asum A_Count c \<and> Co_Completed c = bsum B_Completed c
     \<and> asum Errors c = bsum B_Errors c \<and> Co_Sent c = bsum B_Sent c"

definition counts_ok :: "'h Collector \<Rightarrow> bool" where
  "counts_ok c \<longleftrightarrow> 0 \<le> Co_LateDispatches c \<and> Co_LateDispatches c \<le> Co_Sent c \<and>
     0 \<le> Co_JourneysCompleted c \<and> Co_JourneysCompleted c \<le> Co_JourneysStarted c \<and>
     0 \<le> Co_Completed c \<and> 0 \<le> Co_LostSamples c \<and> 0 \<le> Co_DroppedByInflightLimit c \<and>
     length (Co_input c) \<le> Co_capacity c"

definition collector_ok :: "'h Collector \<Rightarrow> bool" where
  "collector_ok c \<longleftrightarrow> buckets_ok c \<and> aggregates_ok c \<and> views_agree c \<and> counts_ok c"

subsection \<open>Buckets\<close>

lemma in_set_gput: "x \<in> set (gput m k v) \<Longrightarrow> x = (k, v) \<or> x \<in> set m"
  by (induction m k v rule: gput.induct) (auto split: if_splits)

lemma ball_gput: "\<forall>x \<in> set m. P x \<Longrightarrow> P (k, v) \<Longrightarrow> \<forall>x \<in> set (gput m k v). P x"
  by (blast dest: in_set_gput)

lemma gget_in_set: "gget m k = Some v \<Longrightarrow> (k, v) \<in> set m"
  by (simp add: gget_def map_of_SomeD)

lemma closeBucket_fields [simp]:
  "B_StartEpochMs (closeBucket hdr b) = B_StartEpochMs b" "B_Sent (closeBucket hdr b) = B_Sent b"
  "B_Completed (closeBucket hdr b) = B_Completed b" "B_Errors (closeBucket hdr b) = B_Errors b"
  "B_LateSamples (closeBucket hdr b) = B_LateSamples b" "B_histogram (closeBucket hdr b) = None"
  by (simp_all add: closeBucket_def split: option.splits)

lemma gkeys_closeBucketsBefore [simp]: "gkeys (closeBucketsBefore hdr m l) = gkeys m"
  by (auto simp: gkeys_def closeBucketsBefore_def)

lemma gget_closeBucketsBefore:
  "gget (closeBucketsBefore hdr m l) k =
    map_option (\<lambda>b. if k < l then closeBucket hdr b else b) (gget m k)"
  by (induction m) (auto simp: closeBucketsBefore_def gget_def)

lemma sum_closeBucketsBefore:
  assumes "\<And>b. f (closeBucket hdr b) = f b"
  shows "sum_list (map f (gvalues (closeBucketsBefore hdr m l))) = sum_list (map f (gvalues m))"
  by (induction m) (auto simp: closeBucketsBefore_def gvalues_def assms)

lemma bucketKey_whole_second: "1000 dvd bucketKey t"
proof -
  have "bucketKey t = (UnixMilli t sdiv 1000) * 1000"
    unfolding bucketKey_def bucketDuration_def Milliseconds_def
    using minus_sdiv_mult_eq_smod[of "UnixMilli t" 1000] by (simp add: signed_divide_int_def[of Second])
  then show ?thesis by simp
qed

text \<open>Finding a bucket changes no counter, keeps the invariant and leaves the bucket open if it is
  within the window.\<close>

lemma bucketDe_frame [simp]:
  "Co_aggregates (snd (bucketDe hdr c t)) = Co_aggregates c" "Co_Sent (snd (bucketDe hdr c t)) = Co_Sent c"
  "Co_Completed (snd (bucketDe hdr c t)) = Co_Completed c" "Co_LateDispatches (snd (bucketDe hdr c t)) = Co_LateDispatches c"
  "Co_DroppedByInflightLimit (snd (bucketDe hdr c t)) = Co_DroppedByInflightLimit c"
  "Co_LostSamples (snd (bucketDe hdr c t)) = Co_LostSamples c" "Co_variety (snd (bucketDe hdr c t)) = Co_variety c"
  "Co_JourneysStarted (snd (bucketDe hdr c t)) = Co_JourneysStarted c"
  "Co_JourneysCompleted (snd (bucketDe hdr c t)) = Co_JourneysCompleted c"
  "Co_input (snd (bucketDe hdr c t)) = Co_input c" "Co_capacity (snd (bucketDe hdr c t)) = Co_capacity c"
  "fst (bucketDe hdr c t) = bucketKey t"
  by (simp_all add: bucketDe_def Let_def split: option.splits)

lemma updateBucket_frame [simp]:
  "Co_aggregates (updateBucket c k f) = Co_aggregates c" "Co_Sent (updateBucket c k f) = Co_Sent c"
  "Co_Completed (updateBucket c k f) = Co_Completed c" "Co_LateDispatches (updateBucket c k f) = Co_LateDispatches c"
  "Co_DroppedByInflightLimit (updateBucket c k f) = Co_DroppedByInflightLimit c"
  "Co_LostSamples (updateBucket c k f) = Co_LostSamples c" "Co_variety (updateBucket c k f) = Co_variety c"
  "Co_JourneysStarted (updateBucket c k f) = Co_JourneysStarted c"
  "Co_JourneysCompleted (updateBucket c k f) = Co_JourneysCompleted c"
  "Co_input (updateBucket c k f) = Co_input c" "Co_capacity (updateBucket c k f) = Co_capacity c"
  "Co_newestBucketMs (updateBucket c k f) = Co_newestBucketMs c"
  by (simp_all add: updateBucket_def split: option.splits)

lemma bsum_bucketDe:
  assumes "gmap_ok (Co_buckets c)" "\<And>b. f (closeBucket hdr b) = f b" "\<And>k. f (newBucket hdr k) = 0"
  shows "bsum f (snd (bucketDe hdr c t)) = bsum f c"
  using assms
  by (simp add: bucketDe_def Let_def sum_closeBucketsBefore sum_gput split: option.splits)

lemma bucketDe_present: "\<exists>b. gget (Co_buckets (snd (bucketDe hdr c t))) (bucketKey t) = Some b"
  by (simp add: bucketDe_def Let_def gget_closeBucketsBefore split: option.splits)

lemma bsum_updateBucket:
  assumes "gmap_ok (Co_buckets c)" "gget (Co_buckets c) k = Some b"
  shows "bsum f (updateBucket c k g) = bsum f c - f b + f (g b)"
  using assms by (simp add: updateBucket_def sum_gput)

lemma bucket_ok_mono:
  "bucket_ok newest (k, b) \<Longrightarrow> newest \<le> newest' \<Longrightarrow> bucket_ok newest' (k, b)"
  by (auto simp: bucket_ok_def)

lemma buckets_ok_bucketDe:
  assumes "buckets_ok c"
  shows "buckets_ok (snd (bucketDe hdr c t))"
proof -
  let ?k = "bucketKey t"
  define m where "m = (case gget (Co_buckets c) ?k of Some _ \<Rightarrow> Co_buckets c
    | None \<Rightarrow> gput (Co_buckets c) ?k (newBucket hdr ?k))"
  have keys: "gmap_ok m" using assms by (simp add: m_def buckets_ok_def split: option.splits)
  have m: "\<forall>kb \<in> set m. bucket_ok (max ?k (Co_newestBucketMs c)) kb"
  proof -
    have old: "\<forall>kb \<in> set (Co_buckets c). bucket_ok (max ?k (Co_newestBucketMs c)) kb"
      using assms by (auto simp: buckets_ok_def intro: bucket_ok_mono)
    moreover have "bucket_ok (max ?k (Co_newestBucketMs c)) (?k, newBucket hdr ?k)"
      by (simp add: bucket_ok_def newBucket_def bucketKey_whole_second)
    ultimately show ?thesis unfolding m_def by (auto split: option.splits dest: in_set_gput)
  qed
  have ret: "Milliseconds bucketRetention = 60000"
    by (simp add: Milliseconds_def bucketRetention_def signed_divide_int_def)
  show ?thesis
  proof (cases "Co_newestBucketMs c < ?k")
    case True
    have "\<forall>kb \<in> set (closeBucketsBefore hdr m (?k - 60000)). bucket_ok ?k kb"
      using m True by (auto simp: closeBucketsBefore_def bucket_ok_def split: if_splits)
    then show ?thesis using True keys
      by (simp add: bucketDe_def Let_def buckets_ok_def ret m_def split: option.splits)
  next
    case False
    then have "max ?k (Co_newestBucketMs c) = Co_newestBucketMs c" by simp
    with m False keys show ?thesis
      by (simp add: bucketDe_def Let_def buckets_ok_def m_def split: option.splits)
  qed
qed

lemma buckets_ok_updateBucket:
  assumes "buckets_ok c" "\<And>b. B_StartEpochMs (g b) = B_StartEpochMs b"
    "\<And>b. B_histogram (g b) = None \<longleftrightarrow> B_histogram b = None"
  shows "buckets_ok (updateBucket c k g)"
proof (cases "gget (Co_buckets c) k")
  case (Some b)
  with assms(1) have "bucket_ok (Co_newestBucketMs c) (k, b)" by (auto simp: buckets_ok_def dest!: gget_in_set)
  then have "bucket_ok (Co_newestBucketMs c) (k, g b)" by (simp add: bucket_ok_def assms(2,3))
  with assms(1) have "\<forall>kb \<in> set (gput (Co_buckets c) k (g b)). bucket_ok (Co_newestBucketMs c) kb"
    unfolding buckets_ok_def by (intro ball_gput) simp_all
  with assms(1) Some show ?thesis by (simp add: updateBucket_def buckets_ok_def)
qed (use assms(1) in \<open>simp add: updateBucket_def\<close>)

subsection \<open>Every operation keeps the invariant\<close>

lemma completeInBucket_fields [simp]:
  "B_StartEpochMs (completeInBucket hdr s b) = B_StartEpochMs b" "B_Sent (completeInBucket hdr s b) = B_Sent b"
  "B_Completed (completeInBucket hdr s b) = B_Completed b + 1"
  "B_Errors (completeInBucket hdr s b) = B_Errors b + (if S_Class s = Success then 0 else 1)"
  "B_histogram (completeInBucket hdr s b) = None \<longleftrightarrow> B_histogram b = None"
  by (simp_all add: completeInBucket_def Let_def split: option.splits)

lemma newBucket_fields [simp]:
  "B_Sent (newBucket hdr k) = 0" "B_Completed (newBucket hdr k) = 0" "B_Errors (newBucket hdr k) = 0"
  by (simp_all add: newBucket_def)

lemma bsum_touch:
  assumes "buckets_ok c" "\<And>b. f (closeBucket hdr b) = f b" "\<And>k. f (newBucket hdr k) = 0" "\<And>b. f (g b) = f b + d"
  shows "bsum f (updateBucket (snd (bucketDe hdr c t)) (bucketKey t) g) = bsum f c + d"
proof -
  obtain b where b: "gget (Co_buckets (snd (bucketDe hdr c t))) (bucketKey t) = Some b"
    using bucketDe_present by blast
  have ok: "gmap_ok (Co_buckets (snd (bucketDe hdr c t)))"
    using buckets_ok_bucketDe[OF assms(1)] by (simp add: buckets_ok_def)
  have "gmap_ok (Co_buckets c)" using assms(1) by (simp add: buckets_ok_def)
  from bsum_updateBucket[OF ok b, of f g] bsum_bucketDe[where f = f, OF this assms(2,3)] show ?thesis
    by (simp add: assms(4))
qed

lemma recordInAggregate_frame [simp]:
  "Co_buckets (recordInAggregate hdr c s) = Co_buckets c" "Co_Sent (recordInAggregate hdr c s) = Co_Sent c"
  "Co_newestBucketMs (recordInAggregate hdr c s) = Co_newestBucketMs c"
  "Co_Completed (recordInAggregate hdr c s) = Co_Completed c + 1"
  "Co_LateDispatches (recordInAggregate hdr c s) = Co_LateDispatches c"
  "Co_DroppedByInflightLimit (recordInAggregate hdr c s) = Co_DroppedByInflightLimit c"
  "Co_LostSamples (recordInAggregate hdr c s) = Co_LostSamples c" "Co_variety (recordInAggregate hdr c s) = Co_variety c"
  "Co_JourneysStarted (recordInAggregate hdr c s) = Co_JourneysStarted c"
  "Co_JourneysCompleted (recordInAggregate hdr c s) = Co_JourneysCompleted c"
  "Co_input (recordInAggregate hdr c s) = Co_input c" "Co_capacity (recordInAggregate hdr c s) = Co_capacity c"
  by (simp_all add: recordInAggregate_def Let_def)

lemma recordInAggregate_sums:
  assumes "gmap_ok (Co_aggregates c)"
  shows "asum A_Count (recordInAggregate hdr c s) = asum A_Count c + 1"
    "asum Errors (recordInAggregate hdr c s) = asum Errors c + (if S_Class s = Success then 0 else 1)"
  using assms
  by (simp_all add: recordInAggregate_def Let_def sum_gput Errors_def field_simps_of_ops NewAggregate_def
      split: option.splits)

lemma aggregates_ok_record:
  assumes "aggregates_ok c"
  shows "aggregates_ok (recordInAggregate hdr c s)"
proof -
  define a where "a = (case gget (Co_aggregates c) (S_Step s) of Some a \<Rightarrow> a
    | None \<Rightarrow> NewAggregate hdr (S_Step s) (S_Key s) (S_Protocol s))"
  have "aggregate_ok a \<and> A_Step a = S_Step s"
    using assms by (auto simp: a_def aggregates_ok_def NewAggregate_def[of hdr "S_Step s"] split: option.splits
        dest!: gget_in_set intro: aggregate_ok_New[of hdr "S_Step s" "S_Key s" "S_Protocol s", unfolded NewAggregate_def])
  then have "case (S_Step s, Aggregate_Record hdr a s) of (key, a) \<Rightarrow> aggregate_ok a \<and> A_Step a = key"
    by (simp add: field_simps_of_ops)
  with assms have "\<forall>ka \<in> set (gput (Co_aggregates c) (S_Step s) (Aggregate_Record hdr a s)).
      case ka of (key, a) \<Rightarrow> aggregate_ok a \<and> A_Step a = key"
    unfolding aggregates_ok_def by (intro ball_gput) simp_all
  with assms show ?thesis by (simp add: recordInAggregate_def Let_def aggregates_ok_def a_def)
qed

lemma buckets_ok_same:
  "Co_buckets c' = Co_buckets c \<Longrightarrow> Co_newestBucketMs c' = Co_newestBucketMs c \<Longrightarrow> buckets_ok c' = buckets_ok c"
  by (simp add: buckets_ok_def)

lemma aggregates_ok_same: "Co_aggregates c' = Co_aggregates c \<Longrightarrow> aggregates_ok c' = aggregates_ok c"
  by (simp add: aggregates_ok_def)

lemma apply_sample_frame [simp]:
  "Co_Sent (apply_sample hdr c s) = Co_Sent c" "Co_Completed (apply_sample hdr c s) = Co_Completed c + 1"
  "Co_LateDispatches (apply_sample hdr c s) = Co_LateDispatches c"
  "Co_DroppedByInflightLimit (apply_sample hdr c s) = Co_DroppedByInflightLimit c"
  "Co_LostSamples (apply_sample hdr c s) = Co_LostSamples c"
  "Co_JourneysStarted (apply_sample hdr c s) = Co_JourneysStarted c"
  "Co_JourneysCompleted (apply_sample hdr c s) = Co_JourneysCompleted c"
  "Co_input (apply_sample hdr c s) = Co_input c" "Co_capacity (apply_sample hdr c s) = Co_capacity c"
  by (simp_all add: apply_sample_def case_prod_unfold)

lemma collector_ok_apply:
  assumes "collector_ok c"
  shows "collector_ok (apply_sample hdr c s)"
proof -
  let ?r = "recordInAggregate hdr c s"
  let ?c = "apply_sample hdr c s"
  have c: "?c = updateBucket (snd (bucketDe hdr ?r (S_ScheduledAt s))) (bucketKey (S_ScheduledAt s)) (completeInBucket hdr s)"
    by (simp add: apply_sample_def case_prod_unfold)
  have r: "buckets_ok ?r" "aggregates_ok ?r" "gmap_ok (Co_aggregates c)"
    using assms by (simp_all add: collector_ok_def buckets_ok_same[of ?r c] aggregates_ok_record) (simp add: aggregates_ok_def)
  have "buckets_ok ?c" unfolding c by (intro buckets_ok_updateBucket buckets_ok_bucketDe r(1)) simp_all
  moreover have "aggregates_ok ?c" using r(2) by (simp add: c aggregates_ok_def)
  moreover have "bsum B_Completed ?c = bsum B_Completed c + 1" "bsum B_Sent ?c = bsum B_Sent c"
    "bsum B_Errors ?c = bsum B_Errors c + (if S_Class s = Success then 0 else 1)"
    unfolding c by (subst bsum_touch[OF r(1)]; simp)+
  moreover have "asum A_Count ?c = asum A_Count c + 1"
    "asum Errors ?c = asum Errors c + (if S_Class s = Success then 0 else 1)"
    using recordInAggregate_sums[OF r(3), of hdr s] by (simp_all add: c)
  ultimately show ?thesis using assms by (simp add: collector_ok_def views_agree_def counts_ok_def)
qed

lemma collector_ok_dispatch:
  assumes "collector_ok c"
  shows "collector_ok (RecordDispatch hdr c scheduled dispatch rate inflight)"
proof -
  let ?g = "\<lambda>bucket. bucket\<lparr>B_Sent := B_Sent bucket + 1, B_TargetRate := rate\<rparr>"
  let ?c = "RecordDispatch hdr c scheduled dispatch rate inflight"
  obtain r where c: "?c = updateBucket (snd (bucketDe hdr r scheduled)) (bucketKey scheduled) ?g"
    and r: "Co_buckets r = Co_buckets c" "Co_newestBucketMs r = Co_newestBucketMs c" "Co_aggregates r = Co_aggregates c"
      "Co_Sent r = Co_Sent c + 1" "Co_Completed r = Co_Completed c" "Co_input r = Co_input c" "Co_capacity r = Co_capacity c"
      "Co_LateDispatches r = Co_LateDispatches c \<or> Co_LateDispatches r = Co_LateDispatches c + 1"
      "Co_JourneysStarted r = Co_JourneysStarted c" "Co_JourneysCompleted r = Co_JourneysCompleted c"
      "Co_LostSamples r = Co_LostSamples c" "Co_DroppedByInflightLimit r = Co_DroppedByInflightLimit c"
    by (rule that[of "c\<lparr>Co_Sent := Co_Sent c + 1,
           Co_PeakInflight := (if inflight > Co_PeakInflight c then inflight else Co_PeakInflight c),
           Co_schedulingSkew := (if dispatch - scheduled > 0 then save hdr (Co_schedulingSkew c) (dispatch - scheduled)
                                 else hdr_RecordValue hdr (Co_schedulingSkew c) minLatencyUs),
           Co_LateDispatches := (if dispatch - scheduled > Co_LateThreshold c then Co_LateDispatches c + 1
                                 else Co_LateDispatches c)\<rparr>"])
      (simp_all add: RecordDispatch_def Let_def case_prod_unfold)
  have ok: "buckets_ok r" "aggregates_ok r"
    using assms r by (simp_all add: collector_ok_def buckets_ok_same[of r c] aggregates_ok_same[of r c])
  have "buckets_ok ?c" unfolding c by (intro buckets_ok_updateBucket buckets_ok_bucketDe ok(1)) simp_all
  moreover have "aggregates_ok ?c" using ok(2) by (simp add: c aggregates_ok_def)
  moreover have "bsum B_Completed ?c = bsum B_Completed c" "bsum B_Sent ?c = bsum B_Sent c + 1"
    "bsum B_Errors ?c = bsum B_Errors c"
    unfolding c by (subst bsum_touch[OF ok(1)]; simp add: r)+
  ultimately show ?thesis using assms r by (auto simp: collector_ok_def views_agree_def counts_ok_def c)
qed

lemma collector_ok_record: "collector_ok c \<Longrightarrow> collector_ok (Collector_Record c s)"
  by (auto simp: collector_ok_def Collector_Record_def buckets_ok_def aggregates_ok_def views_agree_def counts_ok_def)

lemma collector_ok_input:
  "collector_ok c \<Longrightarrow> length xs \<le> Co_capacity c \<Longrightarrow> collector_ok (c\<lparr>Co_input := xs\<rparr>)"
  by (simp add: collector_ok_def buckets_ok_def aggregates_ok_def views_agree_def counts_ok_def)

lemma collector_ok_consume: "collector_ok c \<Longrightarrow> collector_ok (consume hdr c)"
  by (auto simp: consume_def collector_ok_def[of c] counts_ok_def intro!: collector_ok_apply collector_ok_input split: list.splits)

lemma collector_ok_New: "collector_ok (NewCollectorWithCapacity hdr start threshold capacity)"
  by (simp add: collector_ok_def NewCollectorWithCapacity_def buckets_ok_def aggregates_ok_def views_agree_def
      counts_ok_def gvalues_def)

lemma collector_ok_exec: "collector_ok c \<Longrightarrow> collector_ok (collector_exec hdr c ev)"
proof (cases ev)
  case (EvUses uses collapses)
  then show "collector_ok c \<Longrightarrow> collector_ok (collector_exec hdr c ev)"
    by (simp add: recordUses_def collector_ok_def buckets_ok_def aggregates_ok_def views_agree_def counts_ok_def)
qed (simp_all add: collector_ok_record collector_ok_consume collector_ok_dispatch,
     simp_all add: RecordJourney_def RecordInflightDrop_def collector_ok_def buckets_ok_def aggregates_ok_def
       views_agree_def counts_ok_def)

subsection \<open>Accounting\<close>

datatype tally = Offered | Dispatched | Dropped | JourneysBegun | JourneysDone

fun tally_of :: "tally \<Rightarrow> 'h Collector \<Rightarrow> int" where
  "tally_of Offered c = Co_Completed c + Co_LostSamples c + int (length (Co_input c))"
| "tally_of Dispatched c = Co_Sent c"
| "tally_of Dropped c = Co_DroppedByInflightLimit c"
| "tally_of JourneysBegun c = Co_JourneysStarted c"
| "tally_of JourneysDone c = Co_JourneysCompleted c"

fun event_adds :: "tally \<Rightarrow> collector_event \<Rightarrow> int" where
  "event_adds Offered (EvRecord s) = 1"
| "event_adds Dispatched (EvDispatch scheduled dispatch rate inflight) = 1"
| "event_adds Dropped EvDrop = 1"
| "event_adds JourneysBegun (EvJourney scheduled finish completed) = 1"
| "event_adds JourneysDone (EvJourney scheduled finish completed) = (if completed then 1 else 0)"
| "event_adds _ _ = 0"

lemma RecordDispatch_frame [simp]:
  "Co_Sent (RecordDispatch hdr c t t' r i) = Co_Sent c + 1" "Co_Completed (RecordDispatch hdr c t t' r i) = Co_Completed c"
  "Co_LostSamples (RecordDispatch hdr c t t' r i) = Co_LostSamples c" "Co_input (RecordDispatch hdr c t t' r i) = Co_input c"
  "Co_DroppedByInflightLimit (RecordDispatch hdr c t t' r i) = Co_DroppedByInflightLimit c"
  "Co_JourneysStarted (RecordDispatch hdr c t t' r i) = Co_JourneysStarted c"
  "Co_JourneysCompleted (RecordDispatch hdr c t t' r i) = Co_JourneysCompleted c"
  by (simp_all add: RecordDispatch_def Let_def case_prod_unfold)

lemma tally_of_exec: "tally_of i (collector_exec hdr c ev) = tally_of i c + event_adds i ev"
  by (cases i; cases ev)
    (simp_all add: Collector_Record_def consume_def RecordJourney_def recordUses_def RecordInflightDrop_def
      split: list.splits)

interpretation run: recorder collector_ok "collector_exec hdr" tally_of event_adds for hdr
  by unfold_locales (simp_all add: collector_ok_exec tally_of_exec)

abbreviation run_collector :: "'h hdr \<Rightarrow> Time \<Rightarrow> Duration \<Rightarrow> nat \<Rightarrow> collector_event list \<Rightarrow> 'h Collector" where
  "run_collector hdr start threshold capacity evs \<equiv>
    foldl (collector_exec hdr) (NewCollectorWithCapacity hdr start threshold capacity) evs"

lemma run_collector_ok: "collector_ok (run_collector hdr start threshold capacity evs)"
  by (rule run.ok_records[OF collector_ok_New])

lemma foldl_apply_ok: "collector_ok c \<Longrightarrow> collector_ok (foldl (apply_sample hdr) c ss)"
  by (induction ss arbitrary: c) (simp_all add: collector_ok_apply)

lemma foldl_apply_frame:
  "Co_Completed (foldl (apply_sample hdr) c ss) = Co_Completed c + int (length ss)"
  "Co_LostSamples (foldl (apply_sample hdr) c ss) = Co_LostSamples c"
  "Co_input (foldl (apply_sample hdr) c ss) = Co_input c"
  by (induction ss arbitrary: c) simp_all

lemma run_tally: "tally_of i (run_collector hdr start threshold capacity evs) = (\<Sum>ev \<leftarrow> evs. event_adds i ev)"
proof -
  have "tally_of i (NewCollectorWithCapacity hdr start threshold capacity) = 0"
    by (cases i) (simp_all add: NewCollectorWithCapacity_def)
  then show ?thesis
    using run.obs_records[OF collector_ok_New, of i hdr hdr start threshold capacity evs] by simp
qed

subsection \<open>The time series\<close>

lemma exchange_mset: "add_mset (fst (exchange x xs)) (mset (snd (exchange x xs))) = add_mset x (mset xs)"
  by (induction x xs rule: exchange.induct) (auto split: prod.splits)

lemma exchange_least:
  "B_StartEpochMs (fst (exchange x xs)) \<le> B_StartEpochMs x \<and>
   (\<forall>y \<in> set (snd (exchange x xs)). B_StartEpochMs (fst (exchange x xs)) \<le> B_StartEpochMs y)"
  by (induction x xs rule: exchange.induct) (fastforce split: prod.splits)+

lemma mset_exchange_sort: "mset (exchange_sort xs) = mset xs"
  by (induction xs rule: exchange_sort.induct) (simp_all add: exchange_mset)

lemma sorted_exchange_sort: "sorted (map B_StartEpochMs (exchange_sort xs))"
proof (induction xs rule: exchange_sort.induct)
  case (2 x xs)
  have "set (exchange_sort (snd (exchange x xs))) = set (snd (exchange x xs))"
    by (metis mset_exchange_sort set_mset_mset)
  with 2 exchange_least[of x xs] show ?case by auto
qed simp

section \<open>Properties\<close>

text \<open>C1. Whatever the interleaving of generators and consumer, the three views of a run agree: the
  completed total is the sum of the step counts and the sum of the buckets, the errors of the
  steps are the errors of the buckets, everything sent is in some bucket, late dispatches are
  among the sent, and completed journeys among the started.\<close>

theorem collector_views_agree:
  "let c = run_collector hdr start threshold capacity evs
   in Co_Completed c = sum_list (map A_Count (gvalues (Co_aggregates c)))
    \<and> Co_Completed c = sum_list (map B_Completed (gvalues (Co_buckets c)))
    \<and> sum_list (map Errors (gvalues (Co_aggregates c))) = sum_list (map B_Errors (gvalues (Co_buckets c)))
    \<and> Co_Sent c = sum_list (map B_Sent (gvalues (Co_buckets c)))
    \<and> 0 \<le> Co_LateDispatches c \<and> Co_LateDispatches c \<le> Co_Sent c
    \<and> 0 \<le> Co_JourneysCompleted c \<and> Co_JourneysCompleted c \<le> Co_JourneysStarted c"
  using run_collector_ok[of hdr start threshold capacity evs]
  unfolding Let_def collector_ok_def views_agree_def counts_ok_def by blast

text \<open>C2. No sample disappears in silence: once the collector is closed, every sample that was offered
  to it is either completed or counted as lost, nothing waits, and every bucket is closed.\<close>

theorem Close_accounts_for_every_sample:
  "let c = Collector_Close hdr (run_collector hdr start threshold capacity evs)
   in Co_Completed c + Co_LostSamples c = int (length (filter (\<lambda>ev. case ev of EvRecord s \<Rightarrow> True | _ \<Rightarrow> False) evs))
    \<and> Co_input c = [] \<and> (\<forall>b \<in> set (gvalues (Co_buckets c)). B_histogram b = None)"
proof -
  let ?c = "run_collector hdr start threshold capacity evs"
  have offered: "(\<Sum>ev \<leftarrow> evs. event_adds Offered ev) =
      int (length (filter (\<lambda>ev. case ev of EvRecord s \<Rightarrow> True | _ \<Rightarrow> False) evs))"
    by (induction evs) (auto split: collector_event.splits)
  have "Co_Completed (Collector_Close hdr ?c) + Co_LostSamples (Collector_Close hdr ?c) = tally_of Offered ?c"
    by (simp add: Collector_Close_def Let_def foldl_apply_frame)
  moreover have "Co_input (Collector_Close hdr ?c) = []"
    by (simp add: Collector_Close_def Let_def foldl_apply_frame)
  moreover have "\<forall>b \<in> set (gvalues (Co_buckets (Collector_Close hdr ?c))). B_histogram b = None"
    by (auto simp: Collector_Close_def Let_def gvalues_def)
  ultimately show ?thesis unfolding Let_def run_tally offered by blast
qed

text \<open>A sample scheduled within the retention window of the newest second always reaches the
  histogram of its bucket: none of them is set aside as outside the window.\<close>

theorem sample_in_window_is_never_late:
  assumes "c = run_collector hdr start threshold capacity evs"
    and "Co_newestBucketMs c - 60000 \<le> bucketKey (S_ScheduledAt s)"
  shows "sum_list (map B_LateSamples (gvalues (Co_buckets (apply_sample hdr c s)))) =
    sum_list (map B_LateSamples (gvalues (Co_buckets c)))"
proof -
  let ?t = "S_ScheduledAt s" and ?r = "recordInAggregate hdr c s"
  let ?d = "snd (bucketDe hdr ?r ?t)"
  have ok: "buckets_ok ?r"
    using run_collector_ok[of hdr start threshold capacity evs, folded assms(1)]
    by (simp add: collector_ok_def buckets_ok_same[of ?r c])
  obtain b where b: "gget (Co_buckets ?d) (bucketKey ?t) = Some b" using bucketDe_present by blast
  have okd: "buckets_ok ?d" by (rule buckets_ok_bucketDe[OF ok])
  have newest: "Co_newestBucketMs ?d = max (bucketKey ?t) (Co_newestBucketMs c)"
    by (simp add: bucketDe_def Let_def split: option.splits)
  from okd b have "bucket_ok (Co_newestBucketMs ?d) (bucketKey ?t, b)" by (auto simp: buckets_ok_def dest!: gget_in_set)
  with newest assms(2) have "B_histogram b \<noteq> None" by (auto simp: bucket_ok_def max_def split: if_splits)
  then have "B_LateSamples (completeInBucket hdr s b) = B_LateSamples b" by (auto simp: completeInBucket_def Let_def)
  moreover have "bsum B_LateSamples ?d = bsum B_LateSamples c"
    using bsum_bucketDe[of ?r B_LateSamples hdr ?t] ok by (simp add: buckets_ok_def newBucket_def)
  ultimately show ?thesis
    using bsum_updateBucket[of ?d "bucketKey ?t" b B_LateSamples "completeInBucket hdr s"] okd b
    by (simp add: apply_sample_def case_prod_unfold buckets_ok_def)
qed

text \<open>The time series of a run is in strictly increasing order of time, on whole seconds, and has
  every bucket exactly once.\<close>

theorem Buckets_sorted_complete:
  "let c = run_collector hdr start threshold capacity evs
   in mset (Buckets c) = mset (gvalues (Co_buckets c))
    \<and> sorted_wrt (<) (map B_StartEpochMs (Buckets c))
    \<and> (\<forall>b \<in> set (Buckets c). 1000 dvd B_StartEpochMs b)"
proof -
  let ?c = "run_collector hdr start threshold capacity evs"
  have ok: "buckets_ok ?c" using run_collector_ok[of hdr start threshold capacity evs] by (simp add: collector_ok_def)
  have perm: "mset (Buckets ?c) = mset (gvalues (Co_buckets ?c))" by (simp add: Buckets_def mset_exchange_sort)
  have "map B_StartEpochMs (gvalues (Co_buckets ?c)) = gkeys (Co_buckets ?c)"
    using ok by (auto simp: buckets_ok_def bucket_ok_def gvalues_def gkeys_def)
  with ok have "distinct (map B_StartEpochMs (gvalues (Co_buckets ?c)))" by (simp add: buckets_ok_def)
  then have "distinct (map B_StartEpochMs (Buckets ?c))"
    by (metis mset_map perm mset_eq_imp_distinct_iff)
  then have "sorted_wrt (<) (map B_StartEpochMs (Buckets ?c))"
    using sorted_exchange_sort by (simp add: strict_sorted_iff Buckets_def)
  moreover have "\<forall>b \<in> set (Buckets ?c). 1000 dvd B_StartEpochMs b"
    using ok mset_eq_setD[OF perm] by (auto simp: buckets_ok_def bucket_ok_def gvalues_def)
  ultimately show ?thesis using perm by (simp add: Let_def)
qed

theorem sample_in_window_is_never_late_witness:
  "sum_list (map B_LateSamples (gvalues (Co_buckets
     (apply_sample values_hdr (run_collector values_hdr 0 0 4 [EvDispatch 90000000000 90000000000 5 1])
       (example_sample Success 95000000000\<lparr>S_ScheduledAt := 40000000000\<rparr>))))) = 0"
proof -
  let ?c = "run_collector values_hdr 0 0 4 [EvDispatch 90000000000 90000000000 5 1]"
  let ?s = "example_sample Success 95000000000\<lparr>S_ScheduledAt := 40000000000\<rparr>"
  have c: "?c = (NewCollectorWithCapacity values_hdr 0 0 4)\<lparr>Co_Sent := 1, Co_PeakInflight := 1,
      Co_schedulingSkew := [1], Co_newestBucketMs := 90000,
      Co_buckets := [(90000, newBucket values_hdr 90000\<lparr>B_Sent := 1, B_TargetRate := 5\<rparr>)]\<rparr>"
    by (simp add: NewCollectorWithCapacity_def RecordDispatch_def bucketDe_def updateBucket_def values_hdr_def
        closeBucketsBefore_def bucketKey_def UnixMilli_def Milliseconds_def bucketDuration_def bucketRetention_def
        minLatencyUs_def newBucket_def signed_divide_int_def signed_modulo_int_def gget_Cons)
  have "Co_newestBucketMs ?c - 60000 \<le> bucketKey (S_ScheduledAt ?s)"
    unfolding c by (simp add: bucketKey_def UnixMilli_def Milliseconds_def bucketDuration_def
        signed_divide_int_def signed_modulo_int_def)
  from sample_in_window_is_never_late[OF refl this] show ?thesis
    unfolding c by (simp add: gvalues_def newBucket_def)
qed

theorem Close_accounts_for_every_sample_witness:
  "let c = Collector_Close values_hdr (run_collector values_hdr 0 0 1
      [EvRecord (example_sample Success 5), EvRecord (example_sample ErrTimeout 7), EvConsume])
   in Co_Completed c + Co_LostSamples c = 2 \<and> Co_input c = []"
  using Close_accounts_for_every_sample[of values_hdr 0 0 1
      "[EvRecord (example_sample Success 5), EvRecord (example_sample ErrTimeout 7), EvConsume]"]
  unfolding Let_def by (simp del: foldl.simps)

theorem Buckets_sorted_complete_witness:
  "sorted_wrt (<) (map B_StartEpochMs (Buckets (run_collector values_hdr 0 0 4
      [EvDispatch 90000000000 90000000000 5 1, EvDispatch 40000000000 40000000000 5 1])))"
  using Buckets_sorted_complete[of values_hdr 0 0 4 "[EvDispatch 90000000000 90000000000 5 1, EvDispatch 40000000000 40000000000 5 1]"]
  unfolding Let_def by blast

end
