(* ===== verification/Document.thy ===== *)
theory Document
  imports Collector
begin

text \<open>
  The result document (\<open>internal/metrics/result.go\<close>, \<open>verdict.go\<close>, the types of \<open>sanity.go\<close>): its
  data, the conversion of a step aggregate, the warnings a run raises about itself and the readers
  that other components call. The environment of the generating machine is an argument.
\<close>

section \<open>Data\<close>

record Environment =
  Env_Host :: string
  Env_OS :: string
  Env_Arch :: string
  Env_Cores :: int
  Env_GoVersion :: string
  Env_Protocols :: "string list"

record AppliedPhase =
  AP_Kind :: string
  AP_From :: real
  AP_To :: real
  AP_DurationMs :: int

record ConsumerLag =
  Lag_Group :: string
  Lag_Topic :: string
  Lag_Max :: int
  Lag_Final :: int
  Lag_ByPartition :: "(int, int) gomap"
  Lag_Readings :: int
  Lag_Problem :: string

record Run =
  Run_Spec :: string
  Run_Target :: string
  Run_Start :: Time
  Run_End :: Time
  Run_DurationMs :: int
  Run_Model :: string
  Run_AppliedPlan :: "AppliedPhase list"
  Run_Users :: int
  Run_ThinkTimeMs :: int
  Run_MaxInflight :: int
  Run_Seeds :: "(string, int) gomap"
  Run_SeedsFrom :: "(string, string) gomap"
  Run_Availability :: Availability
  Run_AuthObtains :: int
  Run_Brokers :: "string list"
  Run_ConsumerLag :: "ConsumerLag list"
  Run_DeclaredSteps :: "string list"

record Scheduling =
  Sch_Sent :: int
  Sch_Completed :: int
  Sch_LateDispatches :: int
  Sch_DroppedByInflightLimit :: int
  Sch_LostSamples :: int
  Sch_PeakInflight :: int
  Sch_LateThresholdMs :: real
  Sch_Skew :: Distribution

record Journey =
  J_Started :: int
  J_Completed :: int
  J_Latency :: Distribution
  J_ServiceLatency :: Distribution
  J_Sentence :: sentence

record StepResult =
  SR_Name :: string
  SR_LatencyKind :: LatencyKind
  SR_Key :: string
  SR_Protocol :: string
  SR_Count :: int
  SR_Successes :: int
  SR_Errors :: int
  SR_Bytes :: int
  SR_Messages :: int
  SR_ErrorsByClass :: "(string, int) gomap"
  SR_StatusByCode :: "(string, int) gomap"
  SR_Details :: "(string, int) gomap"
  SR_Latency :: Distribution
  SR_ServiceLatency :: Distribution
  SR_DeclaredShare :: real

record OverallResult =
  O_Count :: int
  O_Successes :: int
  O_Errors :: int
  O_ErrorRate :: real
  O_EffectiveRate :: real
  O_Latency :: Distribution
  O_ServiceLatency :: Distribution

record SanityFinding =
  F_Kind :: string
  F_Message :: sentence
  F_Evidence :: sentence

record Sanity =
  San_Checked :: bool
  San_Valid :: bool
  San_Findings :: "SanityFinding list"
  San_Sentence :: sentence

record Evaluation =
  Ev_Step :: string
  Ev_Metric :: string
  Ev_Rule :: string
  Ev_Obtained :: real
  Ev_Limit :: real
  Ev_Unit :: string
  Ev_Passed :: bool
  Ev_Sentence :: sentence
  Ev_NoData :: bool
  Ev_Untrustworthy :: bool

record Verdict =
  Ver_Passed :: bool
  Ver_Evaluations :: "Evaluation list"
  Ver_Undeclared :: "sentence list"
  Ver_Sentence :: sentence

record 'h Document =
  Doc_FormatVersion :: string
  Doc_Tool :: string
  Doc_Version :: string
  Doc_Environment :: Environment
  Doc_Run :: Run
  Doc_Scheduling :: Scheduling
  Doc_Journey :: Journey
  Doc_Steps :: "StepResult list"
  Doc_Overall :: OverallResult
  Doc_Sanity :: Sanity
  Doc_SLO :: Verdict
  Doc_Variety :: "Variety list"
  Doc_Warnings :: "Warning list"
  Doc_Series :: "'h Bucket list"

definition zeroSanity :: Sanity where
  "zeroSanity = \<lparr>San_Checked = False, San_Valid = False, San_Findings = [], San_Sentence = Plain ''''\<rparr>"

definition zeroVerdict :: Verdict where
  "zeroVerdict = \<lparr>Ver_Passed = False, Ver_Evaluations = [], Ver_Undeclared = [], Ver_Sentence = Plain ''''\<rparr>"

definition ResultFormatVersion :: string where "ResultFormatVersion = ''4''"
definition ClosedModel :: string where "ClosedModel = ''closed''"

definition Doc_Closed :: "'h Document \<Rightarrow> bool" where
  "Doc_Closed d \<longleftrightarrow> Run_Model (Doc_Run d) = ClosedModel"

section \<open>Readers\<close>

definition Journey_Reported :: "Journey \<Rightarrow> Distribution" where
  "Journey_Reported j = (if J_Latency j \<noteq> zeroDistribution then J_Latency j else J_ServiceLatency j)"

definition Step_Reported :: "StepResult \<Rightarrow> Distribution" where
  "Step_Reported s = (if SR_Latency s \<noteq> zeroDistribution then SR_Latency s else SR_ServiceLatency s)"

definition Overall_Reported :: "OverallResult \<Rightarrow> Distribution" where
  "Overall_Reported r = (if O_Latency r \<noteq> zeroDistribution then O_Latency r else O_ServiceLatency r)"

definition Valid :: "'h Document \<Rightarrow> bool" where
  "Valid d = (if San_Checked (Doc_Sanity d) then San_Valid (Doc_Sanity d)
              else \<forall>warning \<in> set (Doc_Warnings d). W_Severity warning \<noteq> SeverityHigh)"

definition StepsThatNeverRan :: "'h Document \<Rightarrow> string list" where
  "StepsThatNeverRan d =
    (if Run_DeclaredSteps (Doc_Run d) = [] then []
     else filter (\<lambda>declared. declared \<notin> set (map SR_Name (Doc_Steps d))) (Run_DeclaredSteps (Doc_Run d)))"

definition ClosedLoopWarning :: "'h Document \<Rightarrow> sentence option" where
  "ClosedLoopWarning d =
    (if \<not> Doc_Closed d then None
     else Some (Sprintf ''This test used %d users in a closed loop. If the target freezes, the users stop asking and the delay never shows up in the numbers. The response time below may look better than what a real user feels.''
       [ArgD (Run_Users (Doc_Run d))]))"

section \<open>Converting a step\<close>

definition convertStep :: "'h hdr \<Rightarrow> 'h Aggregate \<Rightarrow> StepResult" where
  "convertStep hdr a =
    \<lparr>SR_Name = A_Step a, SR_LatencyKind = A_LatencyKind a, SR_Key = A_Key a, SR_Protocol = A_Protocol a,
     SR_Count = A_Count a, SR_Successes = A_Successes a, SR_Errors = Errors a, SR_Bytes = A_Bytes a,
     SR_Messages = A_Messages a,
     SR_ErrorsByClass = foldl (\<lambda>m (class, n). gput m (class_text class) n) [] (A_ErrorsByClass a),
     SR_StatusByCode = foldl (\<lambda>m (status, n). gput m (fmt_d status) n) [] (A_StatusByCode a),
     SR_Details = A_Details a, SR_Latency = Aggregate_Distribution hdr a,
     SR_ServiceLatency = ServiceDistribution hdr a, SR_DeclaredShare = 0\<rparr>"

section \<open>Warnings of a run about itself\<close>

definition lateDispatchLimit :: real where "lateDispatchLimit = 1 / 100"

definition lateProportion :: "Scheduling \<Rightarrow> real" where
  "lateProportion scheduling =
    (if Sch_Sent scheduling = 0 then 0
     else real_of_int (Sch_LateDispatches scheduling) / real_of_int (Sch_Sent scheduling))"

definition dispatchWasLate :: "Scheduling \<Rightarrow> bool" where
  "dispatchWasLate scheduling \<longleftrightarrow>
    lateProportion scheduling \<ge> lateDispatchLimit \<or> Sch_DroppedByInflightLimit scheduling > 0"

definition detectTargetDegradation :: "'h Document \<Rightarrow> Warning option" where
  "detectTargetDegradation d =
    (let series = Doc_Series d
     in if length series < 4 then None
        else if dispatchWasLate (Doc_Scheduling d) then None
        else
          let first = B_LatencyP99Ms (series ! 0);
              first = (if first \<le> 0 then B_LatencyP99Ms (series ! 1) else first);
              worst = foldl (\<lambda>worst bucket. if B_LatencyP99Ms bucket > worst then B_LatencyP99Ms bucket else worst) 0 series
          in if first > 0 \<and> worst \<ge> 3 * first then
               Some \<lparr>W_Kind = ''targetDegraded'', W_Severity = SeverityMedium,
                 W_Message = Plain (if Doc_Closed d
                   then ''the target response time grew over the run; in a closed loop that also drags the load down, so the drop in rate is part of the same event, not a second finding''
                   else ''the target response time grew over the run while dispatch stayed on time; the degradation belongs to the target, not to the generator''),
                 W_Evidence = Sprintf ''p99 per second went from %.1f ms to %.1f ms'' [ArgF first, ArgF worst]\<rparr>
             else None)"

definition dropWarnings :: "Scheduling \<Rightarrow> Warning list" where
  "dropWarnings scheduling =
    (if Sch_DroppedByInflightLimit scheduling > 0 then
       [\<lparr>W_Kind = ''generatorSaturated'', W_Severity = SeverityHigh,
         W_Message = Plain ''the generator hit the in-flight limit and stopped sending scheduled requests; the result does not hold'',
         W_Evidence = Sprintf ''%d requests dropped, peak of %d in flight''
           [ArgD (Sch_DroppedByInflightLimit scheduling), ArgD (Sch_PeakInflight scheduling)]\<rparr>]
     else [])"

definition lateWarnings :: "Scheduling \<Rightarrow> Warning list" where
  "lateWarnings scheduling =
    (if Sch_Sent scheduling > 0 then
       let proportion = lateProportion scheduling
       in if proportion \<ge> lateDispatchLimit then
            [\<lparr>W_Kind = ''generatorSaturated'', W_Severity = SeverityHigh,
              W_Message = Plain ''the generator did not sustain the target rate: dispatches went out after their scheduled instant; the result does not hold'',
              W_Evidence = Sprintf ''%.2f%% of the dispatches went out more than %.1f ms late (p99 skew of %.1f ms)''
                [ArgF (proportion * 100), ArgF (Sch_LateThresholdMs scheduling), ArgF (D_P99 (Sch_Skew scheduling))]\<rparr>]
          else if Sch_LateDispatches scheduling > 0 then
            [\<lparr>W_Kind = ''generatorOccasionallyLate'', W_Severity = SeverityLow,
              W_Message = Plain ''there was occasional dispatch delay, below 1% of the requests'',
              W_Evidence = Sprintf ''%d late dispatches out of %d (p99 skew of %.1f ms)''
                [ArgD (Sch_LateDispatches scheduling), ArgD (Sch_Sent scheduling), ArgF (D_P99 (Sch_Skew scheduling))]\<rparr>]
          else []
     else [])"

definition lostWarnings :: "Scheduling \<Rightarrow> Warning list" where
  "lostWarnings scheduling =
    (if Sch_LostSamples scheduling > 0 then
       [\<lparr>W_Kind = ''lostSamples'', W_Severity = SeverityHigh,
         W_Message = Plain ''the metric collector did not keep up with the volume and lost samples; the distribution is incomplete'',
         W_Evidence = Sprintf ''%d amostras perdidas'' [ArgD (Sch_LostSamples scheduling)]\<rparr>]
     else [])"

definition evaluateWarnings :: "'h Document \<Rightarrow> Warning list" where
  "evaluateWarnings d =
    dropWarnings (Doc_Scheduling d) @ lateWarnings (Doc_Scheduling d) @ lostWarnings (Doc_Scheduling d)
    @ (case detectTargetDegradation d of None \<Rightarrow> [] | Some warning \<Rightarrow> [warning])
    @ VarietyWarnings (Doc_Variety d)"

section \<open>Journeys and the closed loop\<close>

definition phraseJourney :: "Journey \<Rightarrow> bool \<Rightarrow> sentence" where
  "phraseJourney journey closedLoop =
    (if J_Started journey = 0 then Plain ''No journey ran.''
     else
       let counted = (if closedLoop
             then ''counted from when the virtual user started the journey, which is only after finishing the previous one''
             else ''counted from the instant they should have started'');
           latency = Journey_Reported journey
       in if J_Completed journey < J_Started journey then
            Sprintf ''%d of %d journeys reached the end; half of them took up to %.0f ms and 95%% up to %.0f ms, %s.''
              [ArgD (J_Completed journey), ArgD (J_Started journey), ArgF (D_P50 latency), ArgF (D_P95 latency), ArgS counted]
          else Sprintf ''All %d journeys reached the end; half took up to %.0f ms and 95%% up to %.0f ms, %s.''
              [ArgD (J_Started journey), ArgF (D_P50 latency), ArgF (D_P95 latency), ArgS counted])"

definition dropCorrectedLatency :: "'h Document \<Rightarrow> 'h Document" where
  "dropCorrectedLatency d =
    d\<lparr>Doc_Overall := (Doc_Overall d)\<lparr>O_Latency := zeroDistribution\<rparr>,
      Doc_Journey := (Doc_Journey d)\<lparr>J_ServiceLatency := J_Latency (Doc_Journey d), J_Latency := zeroDistribution\<rparr>,
      Doc_Steps := map (\<lambda>step. step\<lparr>SR_Latency := zeroDistribution\<rparr>) (Doc_Steps d)\<rparr>"

fun ReadableClass :: "ErrorClass \<Rightarrow> string" where
  "ReadableClass ErrNetwork = ''network failure''"
| "ReadableClass ErrTimeout = ''timeout''"
| "ReadableClass ErrStatus = ''unexpected HTTP status''"
| "ReadableClass ErrAssertion = ''functional assertion''"
| "ReadableClass ErrCorrelation = ''lost correlation''"
| "ReadableClass ErrSaturation = ''generator saturation''"
| "ReadableClass ErrGraphQL = ''error in the GraphQL response body''"
| "ReadableClass class = class_text class"

end
