(* ===== verification/Sanity_Check.thy ===== *)
theory Sanity_Check
  imports Document "HOL-Library.Product_Lexorder"
begin

text \<open>
  The sanity check of a result (\<open>internal/metrics/sanity.go\<close>): five checks that decide, before any
  objective is read, whether the run measured what it set out to measure. Proved: the verdict is
  exactly the conjunction of the five conditions, and the check that compares classes of errors
  lists every class once, most frequent first.
\<close>

section \<open>What the document is checked against\<close>

record DocumentInput =
  In_Version :: string
  In_Protocols :: "string list"
  In_Spec :: string
  In_Target :: string
  In_Model :: string
  In_Start :: Time
  In_End :: Time
  In_Phases :: "AppliedPhase list"
  In_MaxInflight :: int
  In_Seeds :: "(string, int) gomap"
  In_SeedsFrom :: "(string, string) gomap"
  In_Availability :: Availability
  In_AuthObtains :: int
  In_ScenarioWarnings :: "Warning list"
  In_Brokers :: "string list"
  In_DeclaredSteps :: "string list"
  In_DeclaredShares :: "(string, real) gomap"
  In_ConsumerLag :: "ConsumerLag list"
  In_PlannedDuration :: Duration
  In_PlannedRequests :: int
  In_Users :: int
  In_ThinkTime :: Duration

definition appliedTolerance :: int where "appliedTolerance = 99"

text \<open>\<open>Duration.Round\<close> rounds half away from zero.\<close>

definition Duration_Round :: "Duration \<Rightarrow> Duration \<Rightarrow> Duration" where
  "Duration_Round d m =
    (if m \<le> 0 then d
     else let r = d smod m
       in if d < 0 then (let r = - r in if r + r < m then d + r else d - m + r)
          else if r + r < m then d - r else d + m - r)"

definition readableDuration :: "Duration \<Rightarrow> fmt_arg" where
  "readableDuration value =
    ArgT (if value \<ge> Second then Duration_Round value (100 * Millisecond) else Duration_Round value Millisecond)"

definition listOrNone :: "string list \<Rightarrow> string" where
  "listOrNone names = (if names = [] then ''none'' else Join names '', '')"

section \<open>The dominant classes of errors\<close>

definition totalByClass :: "StepResult list \<Rightarrow> (string, int) gomap" where
  "totalByClass steps = foldl (\<lambda>totals step. gadd_all totals (SR_ErrorsByClass step)) [] steps"

definition classOrder :: "(string, int) gomap \<Rightarrow> string list" where
  "classOrder totals = sort_key (\<lambda>name. (- gnum totals name, name)) (gkeys totals)"

definition dominantClasses :: "StepResult list \<Rightarrow> string" where
  "dominantClasses steps =
    (let totals = totalByClass steps
     in if totals = [] then ''sem classe registrada''
        else Join (map (\<lambda>name. name @ '': '' @ Grouped (gnum totals name)) (classOrder totals)) '', '')"

section \<open>The checks\<close>

definition noJourneyCompleted :: "'h Document \<Rightarrow> DocumentInput \<Rightarrow> SanityFinding list" where
  "noJourneyCompleted d input =
    (if J_Started (Doc_Journey d) = 0 \<or> J_Completed (Doc_Journey d) > 0 then []
     else [\<lparr>F_Kind = ''incompleteJourney'',
       F_Message = Plain ''no journey reached the end, so the scenario never exercised the sequence it declared. Run 'braunrate debug' to see where the iteration stops'',
       F_Evidence = Sprintf ''%s journeys started, 0 completed'' [ArgS (Grouped (J_Started (Doc_Journey d)))]\<rparr>])"

definition withSamples :: "'h Document \<Rightarrow> string list" where
  "withSamples d = remdups (map SR_Name (filter (\<lambda>step. SR_Count step > 0) (Doc_Steps d)))"

definition declaredStepWithoutSamples :: "'h Document \<Rightarrow> DocumentInput \<Rightarrow> SanityFinding list" where
  "declaredStepWithoutSamples d input =
    map (\<lambda>declared. \<lparr>F_Kind = ''stepWithoutSample'',
        F_Message = Sprintf ''the step %q was declared and recorded no sample at all; it stayed out of the measurement'' [ArgS declared],
        F_Evidence = Sprintf ''steps with a sample: %s'' [ArgS (listOrNone (sort_Strings (withSamples d)))]\<rparr>)
      (filter (\<lambda>declared. declared \<notin> set (withSamples d)) (In_DeclaredSteps input))"

definition ranSteps :: "'h Document \<Rightarrow> StepResult list" where
  "ranSteps d = filter (\<lambda>step. SR_Count step \<noteq> 0) (Doc_Steps d)"

definition failedSteps :: "'h Document \<Rightarrow> StepResult list" where
  "failedSteps d = filter (\<lambda>step. SR_Errors step = SR_Count step) (ranSteps d)"

definition everythingFailed :: "'h Document \<Rightarrow> DocumentInput \<Rightarrow> SanityFinding list" where
  "everythingFailed d input =
    (let ran = length (ranSteps d); failed = failedSteps d
     in if ran = 0 \<or> failed = [] then []
        else if length failed = ran \<and> ran > 1 then
          [\<lparr>F_Kind = ''everythingFailed'',
            F_Message = Sprintf ''all %d steps failed on 100%% of the requests; the response time above is how long the target took to refuse, not the time of the work the scenario meant to measure'' [ArgD (int ran)],
            F_Evidence = Sprintf ''%s requests, %s errors (%s)''
              [ArgS (Grouped (O_Count (Doc_Overall d))), ArgS (Grouped (O_Errors (Doc_Overall d))), ArgS (dominantClasses (Doc_Steps d))]\<rparr>]
        else map (\<lambda>step. \<lparr>F_Kind = ''stepFullyFailed'',
            F_Message = Sprintf ''the step %q failed on 100%% of the requests; no successful response entered its measurement'' [ArgS (SR_Name step)],
            F_Evidence = Sprintf ''%s requests, %s errors (%s)''
              [ArgS (Grouped (SR_Count step)), ArgS (Grouped (SR_Errors step)), ArgS (dominantClasses [step])]\<rparr>) failed)"

definition runShorterThanWindow :: "'h Document \<Rightarrow> DocumentInput \<Rightarrow> SanityFinding list" where
  "runShorterThanWindow d input =
    (if \<not> Doc_Closed d \<or> In_PlannedDuration input \<le> 0 then []
     else
       let actual = Run_DurationMs (Doc_Run d) * Millisecond
       in if actual \<ge> In_PlannedDuration input * appliedTolerance sdiv 100 then []
          else [\<lparr>F_Kind = ''shortRun'',
            F_Message = Sprintf ''the run stopped at %s of the declared %s window; the declared load never got applied in full, and what was measured is only the piece that ran''
              [readableDuration actual, readableDuration (In_PlannedDuration input)],
            F_Evidence = Sprintf ''%d users in a closed loop, %s journeys started''
              [ArgD (Run_Users (Doc_Run d)), ArgS (Grouped (J_Started (Doc_Journey d)))]\<rparr>])"

definition appliedRequests :: "'h Document \<Rightarrow> int" where
  "appliedRequests d = Sch_Sent (Doc_Scheduling d) + Sch_DroppedByInflightLimit (Doc_Scheduling d)"

definition runShorterThanPlan :: "'h Document \<Rightarrow> DocumentInput \<Rightarrow> SanityFinding list" where
  "runShorterThanPlan d input =
    (if In_PlannedRequests input \<le> 0 then runShorterThanWindow d input
     else
       let applied = appliedRequests d
       in if applied \<ge> In_PlannedRequests input * appliedTolerance sdiv 100 then []
          else
            let actual = Run_DurationMs (Doc_Run d) * Millisecond
            in [\<lparr>F_Kind = ''shortRun'',
              F_Message = Sprintf ''the run stopped at %s with %s of %s requests of the declared profile; the declared load never got applied in full, and what was measured is only the piece that ran''
                [readableDuration actual, ArgS (Grouped applied), ArgS (Grouped (In_PlannedRequests input))],
              F_Evidence = Sprintf ''declared profile: %s requests in %s; run: %s requests in %s''
                [ArgS (Grouped (In_PlannedRequests input)), readableDuration (In_PlannedDuration input),
                 ArgS (Grouped applied), readableDuration actual]\<rparr>])"

definition invalidatingWarnings :: "'h Document \<Rightarrow> DocumentInput \<Rightarrow> SanityFinding list" where
  "invalidatingWarnings d input =
    map (\<lambda>warning. \<lparr>F_Kind = W_Kind warning, F_Message = W_Message warning, F_Evidence = W_Evidence warning\<rparr>)
      (filter (\<lambda>warning. W_Severity warning = SeverityHigh) (Doc_Warnings d))"

definition invalidSentence :: sentence where
  "invalidSentence = Plain ''Invalid result: the run did not measure what it set out to measure. This is not a verdict on the target - it is the measurement that does not hold, and that is why no SLO rule was evaluated.''"

type_synonym 'h sanityCheck = "string \<times> ('h Document \<Rightarrow> DocumentInput \<Rightarrow> SanityFinding list)"

definition sanityChecks :: "'h sanityCheck list" where
  "sanityChecks =
    [(''incompleteJourney'', noJourneyCompleted), (''stepWithoutSample'', declaredStepWithoutSamples),
     (''everythingFailed'', everythingFailed), (''shortRun'', runShorterThanPlan),
     (''invalidMeasurement'', invalidatingWarnings)]"

definition runSanityChecks :: "'h sanityCheck list \<Rightarrow> 'h Document \<Rightarrow> DocumentInput \<Rightarrow> Sanity" where
  "runSanityChecks checks d input =
    (let findings = concat (map (\<lambda>(name, check). check d input) checks)
     in if findings \<noteq> []
        then \<lparr>San_Checked = True, San_Valid = False, San_Findings = findings, San_Sentence = invalidSentence\<rparr>
        else \<lparr>San_Checked = True, San_Valid = True, San_Findings = [], San_Sentence = Plain ''''\<rparr>)"

definition CheckSanity :: "'h Document \<Rightarrow> DocumentInput \<Rightarrow> Sanity" where
  "CheckSanity d input = runSanityChecks sanityChecks d input"

section \<open>When a run is valid\<close>

text \<open>The specification: what a run has to have done for its numbers to mean anything.\<close>

definition load_applied :: "'h Document \<Rightarrow> DocumentInput \<Rightarrow> bool" where
  "load_applied d input \<longleftrightarrow>
    (if 0 < In_PlannedRequests input then 99 * In_PlannedRequests input sdiv 100 \<le> appliedRequests d
     else Doc_Closed d \<and> 0 < In_PlannedDuration input \<longrightarrow>
       99 * In_PlannedDuration input sdiv 100 \<le> Run_DurationMs (Doc_Run d) * Millisecond)"

definition measured_what_it_declared :: "'h Document \<Rightarrow> DocumentInput \<Rightarrow> bool" where
  "measured_what_it_declared d input \<longleftrightarrow>
    (J_Started (Doc_Journey d) \<noteq> 0 \<longrightarrow> 0 < J_Completed (Doc_Journey d))
    \<and> (\<forall>name \<in> set (In_DeclaredSteps input). \<exists>step \<in> set (Doc_Steps d). SR_Name step = name \<and> 0 < SR_Count step)
    \<and> (\<forall>step \<in> set (Doc_Steps d). SR_Count step \<noteq> 0 \<longrightarrow> SR_Errors step \<noteq> SR_Count step)
    \<and> load_applied d input
    \<and> (\<forall>warning \<in> set (Doc_Warnings d). W_Severity warning \<noteq> SeverityHigh)"

lemma runSanityChecks_valid_iff:
  "San_Valid (runSanityChecks checks d input) \<longleftrightarrow> (\<forall>(name, check) \<in> set checks. check d input = [])"
  by (auto simp: runSanityChecks_def Let_def)

lemma noJourneyCompleted_iff:
  "noJourneyCompleted d input = [] \<longleftrightarrow> (J_Started (Doc_Journey d) \<noteq> 0 \<longrightarrow> 0 < J_Completed (Doc_Journey d))"
  by (simp add: noJourneyCompleted_def)

lemma declaredStepWithoutSamples_iff:
  "declaredStepWithoutSamples d input = [] \<longleftrightarrow>
   (\<forall>name \<in> set (In_DeclaredSteps input). \<exists>step \<in> set (Doc_Steps d). SR_Name step = name \<and> 0 < SR_Count step)"
  by (auto simp: declaredStepWithoutSamples_def withSamples_def filter_empty_conv image_iff)

lemma everythingFailed_iff:
  "everythingFailed d input = [] \<longleftrightarrow>
   (\<forall>step \<in> set (Doc_Steps d). SR_Count step \<noteq> 0 \<longrightarrow> SR_Errors step \<noteq> SR_Count step)"
proof -
  have "everythingFailed d input = [] \<longleftrightarrow> failedSteps d = []"
    by (auto simp: everythingFailed_def Let_def failedSteps_def)
  then show ?thesis by (auto simp: failedSteps_def ranSteps_def filter_empty_conv)
qed

lemma runShorterThanPlan_iff: "runShorterThanPlan d input = [] \<longleftrightarrow> load_applied d input"
  by (auto simp: runShorterThanPlan_def runShorterThanWindow_def load_applied_def appliedTolerance_def Let_def mult.commute)

lemma invalidatingWarnings_iff:
  "invalidatingWarnings d input = [] \<longleftrightarrow> (\<forall>warning \<in> set (Doc_Warnings d). W_Severity warning \<noteq> SeverityHigh)"
  by (simp add: invalidatingWarnings_def filter_empty_conv)

lemmas sanity_iffs = noJourneyCompleted_iff declaredStepWithoutSamples_iff everythingFailed_iff
  runShorterThanPlan_iff invalidatingWarnings_iff

section \<open>Properties\<close>

text \<open>C9. The sanity verdict is right in both directions: a run is valid exactly when some journey
  completed, every declared step has samples, no step failed on all its requests, at least 99
  percent of the declared load was applied and no warning of high severity was raised; and an
  invalid verdict always names its reason.\<close>

theorem CheckSanity_valid_iff:
  "San_Valid (CheckSanity d input) = measured_what_it_declared d input
   \<and> (San_Valid (CheckSanity d input) \<longleftrightarrow> San_Findings (CheckSanity d input) = [])"
proof -
  have "San_Valid (CheckSanity d input) = measured_what_it_declared d input"
    by (simp add: CheckSanity_def runSanityChecks_valid_iff sanityChecks_def sanity_iffs measured_what_it_declared_def)
  moreover have "San_Valid (CheckSanity d input) \<longleftrightarrow> San_Findings (CheckSanity d input) = []"
    by (auto simp: CheckSanity_def runSanityChecks_def Let_def)
  ultimately show ?thesis by blast
qed

lemma gmap_ok_totalByClass: "gmap_ok (totalByClass steps)"
proof -
  have "gmap_ok m \<Longrightarrow> gmap_ok (foldl (\<lambda>totals step. gadd_all totals (SR_ErrorsByClass step)) m steps)" for m
    by (induction steps arbitrary: m) simp_all
  from this[of "[]"] show ?thesis by (simp add: totalByClass_def)
qed

text \<open>The evidence of a failed step lists each class of error exactly once, the most frequent
  first and ties in order of name, and the counts it shows are those of the steps added up.\<close>

theorem classOrder_most_frequent_first:
  "let totals = totalByClass steps; names = classOrder totals
   in distinct names \<and> set names = set (gkeys totals)
    \<and> sorted_wrt (\<lambda>a b. gnum totals b < gnum totals a \<or> gnum totals a = gnum totals b \<and> a < b) names
    \<and> gtotal totals = (\<Sum>step \<leftarrow> steps. gtotal (SR_ErrorsByClass step))"
proof -
  let ?t = "totalByClass steps"
  let ?k = "\<lambda>name. (- gnum ?t name, name)"
  have d: "distinct (classOrder ?t)" "set (classOrder ?t) = set (gkeys ?t)"
    using gmap_ok_totalByClass[of steps] by (simp_all add: classOrder_def)
  have "sorted (map ?k (classOrder ?t))" by (simp add: classOrder_def)
  moreover have "distinct (map ?k (classOrder ?t))" using d(1) by (simp add: distinct_map inj_on_def)
  ultimately have "sorted_wrt (<) (map ?k (classOrder ?t))" by (simp add: strict_sorted_iff)
  then have "sorted_wrt (\<lambda>a b. gnum ?t b < gnum ?t a \<or> gnum ?t a = gnum ?t b \<and> a < b) (classOrder ?t)"
    by (auto simp: sorted_wrt_map less_prod_def elim!: sorted_wrt_mono_rel[rotated])
  moreover have "gmap_ok m \<Longrightarrow> gtotal (foldl (\<lambda>totals step. gadd_all totals (SR_ErrorsByClass step)) m steps)
      = gtotal m + (\<Sum>step \<leftarrow> steps. gtotal (SR_ErrorsByClass step))" for m
    by (induction steps arbitrary: m) (simp_all add: gtotal_gadd_all)
  ultimately show ?thesis using d by (simp add: Let_def totalByClass_def)
qed

end
