(* ===== verification/Result.thy ===== *)
theory Result
  imports Sanity_Check
begin

text \<open>
  Building the result document of a run (\<open>BuildDocument\<close> in \<open>internal/metrics/result.go\<close>). Proved
  for a collector after any interleaving of operations: the overall numbers are the sums of the
  step numbers, success and error counts add up, the error rate is a proportion, the steps are
  listed once each in order, lost samples or dropped requests always invalidate the result, and a
  closed loop never reports a latency counted from a scheduled instant.
\<close>

section \<open>The document of a run\<close>

definition overallAggregate :: "'h hdr \<Rightarrow> (string, 'h Aggregate) gomap \<Rightarrow> 'h Aggregate" where
  "overallAggregate hdr aggregates =
    foldl (\<lambda>overall key. Aggregate_Add hdr overall (the (gget aggregates key)))
      (NewAggregate hdr ''global'' ''global'' '''') (SortKeys aggregates)"

definition buildSteps :: "'h hdr \<Rightarrow> (string, 'h Aggregate) gomap \<Rightarrow> (string, real) gomap \<Rightarrow> StepResult list" where
  "buildSteps hdr aggregates shares =
    map (\<lambda>key.
      let step = convertStep hdr (the (gget aggregates key))
      in step\<lparr>SR_DeclaredShare := (case gget shares (SR_Key step) of None \<Rightarrow> 0 | Some share \<Rightarrow> share)\<rparr>)
      (SortKeys aggregates)"

definition buildOverall :: "'h hdr \<Rightarrow> 'h Aggregate \<Rightarrow> Duration \<Rightarrow> OverallResult" where
  "buildOverall hdr overall elapsed =
    \<lparr>O_Count = A_Count overall, O_Successes = A_Successes overall, O_Errors = Errors overall,
     O_ErrorRate = (if A_Count overall > 0 then real_of_int (Errors overall) / real_of_int (A_Count overall) else 0),
     O_EffectiveRate = (if Seconds elapsed > 0 then real_of_int (A_Count overall) / Seconds elapsed else 0),
     O_Latency = Aggregate_Distribution hdr overall, O_ServiceLatency = ServiceDistribution hdr overall\<rparr>"

definition buildRun :: "DocumentInput \<Rightarrow> Run" where
  "buildRun input =
    \<lparr>Run_Spec = In_Spec input, Run_Target = In_Target input, Run_Start = In_Start input, Run_End = In_End input,
     Run_DurationMs = Milliseconds (In_End input - In_Start input), Run_Model = In_Model input,
     Run_AppliedPlan = In_Phases input, Run_Users = In_Users input,
     Run_ThinkTimeMs = Milliseconds (In_ThinkTime input), Run_MaxInflight = In_MaxInflight input,
     Run_Seeds = In_Seeds input, Run_SeedsFrom = In_SeedsFrom input, Run_Availability = In_Availability input,
     Run_AuthObtains = In_AuthObtains input, Run_Brokers = In_Brokers input,
     Run_ConsumerLag = In_ConsumerLag input, Run_DeclaredSteps = In_DeclaredSteps input\<rparr>"

definition buildScheduling :: "'h hdr \<Rightarrow> 'h Collector \<Rightarrow> Scheduling" where
  "buildScheduling hdr collector =
    \<lparr>Sch_Sent = Co_Sent collector, Sch_Completed = Co_Completed collector,
     Sch_LateDispatches = Co_LateDispatches collector,
     Sch_DroppedByInflightLimit = Co_DroppedByInflightLimit collector,
     Sch_LostSamples = Co_LostSamples collector, Sch_PeakInflight = Co_PeakInflight collector,
     Sch_LateThresholdMs = real_of_int (Microseconds (Co_LateThreshold collector)) / 1000,
     Sch_Skew = SchedulingSkew hdr collector\<rparr>"

text \<open>The argument \<open>machine\<close> is what \<open>os.Hostname\<close> and the \<open>runtime\<close> package report.\<close>

definition draftDocument :: "'h hdr \<Rightarrow> Environment \<Rightarrow> 'h Collector \<Rightarrow> DocumentInput \<Rightarrow> 'h Document" where
  "draftDocument hdr machine collector input =
    \<lparr>Doc_FormatVersion = ResultFormatVersion, Doc_Tool = ''braunrate'', Doc_Version = In_Version input,
     Doc_Environment = machine\<lparr>Env_Protocols := In_Protocols input\<rparr>,
     Doc_Run = buildRun input, Doc_Scheduling = buildScheduling hdr collector,
     Doc_Journey = \<lparr>J_Started = Co_JourneysStarted collector, J_Completed = Co_JourneysCompleted collector,
       J_Latency = Journeys hdr collector, J_ServiceLatency = zeroDistribution, J_Sentence = Plain ''''\<rparr>,
     Doc_Steps = buildSteps hdr (Co_aggregates collector) (In_DeclaredShares input),
     Doc_Overall = buildOverall hdr (overallAggregate hdr (Co_aggregates collector)) (In_End input - In_Start input),
     Doc_Sanity = zeroSanity, Doc_SLO = zeroVerdict, Doc_Variety = [], Doc_Warnings = [],
     Doc_Series = Buckets collector\<rparr>"

definition uncheckedDocument :: "'h hdr \<Rightarrow> Environment \<Rightarrow> 'h Collector \<Rightarrow> DocumentInput \<Rightarrow> 'h Document" where
  "uncheckedDocument hdr machine collector input =
    (let d = draftDocument hdr machine collector input;
         d = (if Doc_Closed d then dropCorrectedLatency d else d);
         d = d\<lparr>Doc_Journey := (Doc_Journey d)\<lparr>J_Sentence := phraseJourney (Doc_Journey d) (Doc_Closed d)\<rparr>\<rparr>;
         d = d\<lparr>Doc_Variety := Varieties collector (In_Availability input)\<rparr>
     in d\<lparr>Doc_Warnings := evaluateWarnings d @ In_ScenarioWarnings input\<rparr>)"

definition BuildDocument :: "'h hdr \<Rightarrow> Environment \<Rightarrow> 'h Collector \<Rightarrow> DocumentInput \<Rightarrow> 'h Document" where
  "BuildDocument hdr machine collector input =
    (let d = uncheckedDocument hdr machine collector input in d\<lparr>Doc_Sanity := CheckSanity d input\<rparr>)"

section \<open>Sums\<close>

text \<open>A sum over the sorted keys is the sum over the map.\<close>

lemma sum_SortKeys:
  fixes f :: "'h Aggregate \<Rightarrow> int"
  assumes "gmap_ok m"
  shows "(\<Sum>key \<leftarrow> SortKeys m. f (the (gget m key))) = sum_list (map f (gvalues m))"
proof -
  have "mset (map (\<lambda>key. f (the (gget m key))) (SortKeys m)) = mset (map (\<lambda>key. f (the (gget m key))) (gkeys m))"
    by (simp add: SortKeys_def)
  then have "(\<Sum>key \<leftarrow> SortKeys m. f (the (gget m key))) = (\<Sum>key \<leftarrow> gkeys m. f (the (gget m key)))"
    by (metis sum_mset_sum_list)
  also have "map (\<lambda>key. f (the (gget m key))) (gkeys m) = map f (gvalues m)"
    using assms by (auto simp: gkeys_def gvalues_def gget_def)
  finally show ?thesis .
qed

lemma overallAggregate_counters:
  assumes "aggregates_ok c"
  shows "aggregate_ok (overallAggregate hdr (Co_aggregates c))
    \<and> counter_of i (overallAggregate hdr (Co_aggregates c)) = sum_list (map (counter_of i) (gvalues (Co_aggregates c)))"
proof -
  let ?as = "map (\<lambda>key. the (gget (Co_aggregates c) key)) (SortKeys (Co_aggregates c))"
  have fold: "overallAggregate hdr (Co_aggregates c) = foldl (Aggregate_Add hdr) (NewAggregate hdr ''global'' ''global'' '''') ?as"
    by (simp add: overallAggregate_def foldl_map)
  have "\<forall>a \<in> set (gvalues (Co_aggregates c)). aggregate_ok a"
    using assms by (auto simp: aggregates_ok_def gvalues_def)
  then have ok: "\<forall>a \<in> set ?as. aggregate_ok a"
    by (auto simp: SortKeys_def) (metis gget_None_iff gget_in_gvalues not_None_eq option.sel)
  have keys: "gmap_ok (Co_aggregates c)" using assms by (simp add: aggregates_ok_def)
  have "counter_of i (foldl (Aggregate_Add hdr) (NewAggregate hdr ''global'' ''global'' '''') ?as)
      = (\<Sum>a \<leftarrow> ?as. counter_of i a)"
    using steps.obs_merges[OF aggregate_ok_New ok, of i hdr] by (simp add: counter_of_New)
  also have "\<dots> = sum_list (map (counter_of i) (gvalues (Co_aggregates c)))"
    using sum_SortKeys[OF keys, of "counter_of i"] by (simp add: comp_def)
  finally show ?thesis using steps.ok_merges[OF aggregate_ok_New ok, of hdr] by (simp add: fold)
qed

text \<open>The collector a document is built from: some interleaving of operations, then closed.\<close>

abbreviation closed_run :: "'h hdr \<Rightarrow> Time \<Rightarrow> Duration \<Rightarrow> nat \<Rightarrow> collector_event list \<Rightarrow> 'h Collector" where
  "closed_run hdr start threshold capacity evs \<equiv>
    Collector_Close hdr (run_collector hdr start threshold capacity evs)"

lemma collector_ok_parts:
  "collector_ok c \<Longrightarrow> aggregates_ok c" "collector_ok c \<Longrightarrow> views_agree c" "collector_ok c \<Longrightarrow> counts_ok c"
  by (simp_all add: collector_ok_def)

lemma closed_run_ok:
  fixes hdr :: "'h hdr"
  shows "aggregates_ok (closed_run hdr start threshold capacity evs) \<and>
    views_agree (closed_run hdr start threshold capacity evs) \<and> counts_ok (closed_run hdr start threshold capacity evs)"
proof -
  let ?r = "run_collector hdr start threshold capacity evs"
  let ?c = "foldl (apply_sample hdr) (?r\<lparr>Co_input := []\<rparr>) (Co_input ?r)"
  have ok: "collector_ok ?c"
    by (intro foldl_apply_ok collector_ok_input run_collector_ok) simp
  have sums: "sum_list (map f (gvalues (map (\<lambda>(key, bucket). (key, closeBucket hdr bucket)) m))) = sum_list (map f (gvalues m))"
    if "\<And>b. f (closeBucket hdr b) = f b" for f :: "'h Bucket \<Rightarrow> int" and m
    by (induction m) (auto simp: gvalues_def that)
  show ?thesis using collector_ok_parts[OF ok]
    by (simp add: Collector_Close_def Let_def aggregates_ok_def views_agree_def counts_ok_def sums)
qed

lemma BuildDocument_fields:
  "Doc_Scheduling (BuildDocument hdr machine c input) = buildScheduling hdr c"
  "Doc_Run (BuildDocument hdr machine c input) = buildRun input"
  "O_Count (Doc_Overall (BuildDocument hdr machine c input)) = A_Count (overallAggregate hdr (Co_aggregates c))"
  "O_Successes (Doc_Overall (BuildDocument hdr machine c input)) = A_Successes (overallAggregate hdr (Co_aggregates c))"
  "O_Errors (Doc_Overall (BuildDocument hdr machine c input)) = Errors (overallAggregate hdr (Co_aggregates c))"
  "O_ErrorRate (Doc_Overall (BuildDocument hdr machine c input)) =
    O_ErrorRate (buildOverall hdr (overallAggregate hdr (Co_aggregates c)) (In_End input - In_Start input))"
  "map SR_Name (Doc_Steps (BuildDocument hdr machine c input)) =
    map SR_Name (buildSteps hdr (Co_aggregates c) (In_DeclaredShares input))"
  "map SR_Count (Doc_Steps (BuildDocument hdr machine c input)) =
    map SR_Count (buildSteps hdr (Co_aggregates c) (In_DeclaredShares input))"
  "map SR_Errors (Doc_Steps (BuildDocument hdr machine c input)) =
    map SR_Errors (buildSteps hdr (Co_aggregates c) (In_DeclaredShares input))"
  by (simp_all add: BuildDocument_def uncheckedDocument_def Let_def draftDocument_def dropCorrectedLatency_def Doc_Closed_def buildOverall_def)

lemma buildSteps_fields:
  assumes "aggregates_ok c"
  shows "map SR_Name (buildSteps hdr (Co_aggregates c) shares) = SortKeys (Co_aggregates c)"
    "map SR_Count (buildSteps hdr (Co_aggregates c) shares) = map (\<lambda>k. A_Count (the (gget (Co_aggregates c) k))) (SortKeys (Co_aggregates c))"
    "map SR_Errors (buildSteps hdr (Co_aggregates c) shares) = map (\<lambda>k. Errors (the (gget (Co_aggregates c) k))) (SortKeys (Co_aggregates c))"
proof -
  have "A_Step (the (gget (Co_aggregates c) k)) = k" if "k \<in> set (SortKeys (Co_aggregates c))" for k
  proof -
    from that obtain a where "gget (Co_aggregates c) k = Some a"
      using gget_None_iff[of "Co_aggregates c" k] by (auto simp: SortKeys_def)
    with assms show ?thesis by (auto simp: aggregates_ok_def dest!: gget_in_set)
  qed
  then show "map SR_Name (buildSteps hdr (Co_aggregates c) shares) = SortKeys (Co_aggregates c)"
    by (auto simp: buildSteps_def Let_def convertStep_def intro: map_idI)
qed (simp_all add: buildSteps_def Let_def convertStep_def comp_def)

lemma counter_funs: "counter_of Total = A_Count" "counter_of Succeeded = A_Successes"
  by (simp_all add: fun_eq_iff)

lemma overall_sums:
  assumes "aggregates_ok c"
  shows "A_Count (overallAggregate hdr (Co_aggregates c)) = asum A_Count c"
    "A_Successes (overallAggregate hdr (Co_aggregates c)) = asum A_Successes c"
    "Errors (overallAggregate hdr (Co_aggregates c)) = asum Errors c"
    "0 \<le> Errors (overallAggregate hdr (Co_aggregates c))"
    "Errors (overallAggregate hdr (Co_aggregates c)) \<le> A_Count (overallAggregate hdr (Co_aggregates c))"
proof -
  let ?o = "overallAggregate hdr (Co_aggregates c)"
  show t: "A_Count ?o = asum A_Count c" "A_Successes ?o = asum A_Successes c"
    using overallAggregate_counters[OF assms, of hdr Total] overallAggregate_counters[OF assms, of hdr Succeeded]
    by (simp_all only: counter_funs)
  have "sum_list (map Errors as) = sum_list (map A_Count as) - sum_list (map A_Successes as)" for as :: "'a Aggregate list"
    by (induction as) (simp_all add: Errors_def)
  with t show "Errors ?o = asum Errors c" by (simp add: Errors_def)
  show "0 \<le> Errors ?o" "Errors ?o \<le> A_Count ?o"
    using overallAggregate_counters[OF assms, of hdr Total] by (simp_all add: Errors_def aggregate_ok_def)
qed

section \<open>Properties\<close>

text \<open>C4. The document of a run adds up: the overall count is the completed total and the sum of the
  step counts, the overall errors are the sum of the step errors and of the errors in the time
  series, successes and errors make the count, the error rate is between 0 and 1, and the steps
  are listed once each in order of name.\<close>

theorem BuildDocument_adds_up:
  "let d = BuildDocument hdr machine (closed_run hdr start threshold capacity evs) input
   in O_Count (Doc_Overall d) = Sch_Completed (Doc_Scheduling d)
    \<and> O_Count (Doc_Overall d) = (\<Sum>step \<leftarrow> Doc_Steps d. SR_Count step)
    \<and> O_Errors (Doc_Overall d) = (\<Sum>step \<leftarrow> Doc_Steps d. SR_Errors step)
    \<and> O_Errors (Doc_Overall d) = (\<Sum>bucket \<leftarrow> Doc_Series d. B_Errors bucket)
    \<and> O_Successes (Doc_Overall d) + O_Errors (Doc_Overall d) = O_Count (Doc_Overall d)
    \<and> 0 \<le> O_ErrorRate (Doc_Overall d) \<and> O_ErrorRate (Doc_Overall d) \<le> 1
    \<and> sorted_wrt (<) (map SR_Name (Doc_Steps d))"
proof -
  let ?c = "closed_run hdr start threshold capacity evs"
  let ?d = "BuildDocument hdr machine ?c input" and ?o = "overallAggregate hdr (Co_aggregates ?c)"
  have ok: "aggregates_ok ?c" "views_agree ?c" using closed_run_ok by blast+
  have keys: "gmap_ok (Co_aggregates ?c)" using ok(1) by (simp add: aggregates_ok_def)
  note sums = overall_sums[OF ok(1)]
  have series: "(\<Sum>bucket \<leftarrow> Doc_Series ?d. B_Errors bucket) = bsum B_Errors ?c"
  proof -
    have "Doc_Series ?d = Buckets ?c"
      by (simp add: BuildDocument_def uncheckedDocument_def Let_def draftDocument_def dropCorrectedLatency_def)
    moreover have "mset (map B_Errors (Buckets ?c)) = mset (map B_Errors (gvalues (Co_buckets ?c)))"
      by (simp add: Buckets_def mset_exchange_sort)
    ultimately show ?thesis by (metis sum_mset_sum_list)
  qed
  have steps: "(\<Sum>step \<leftarrow> Doc_Steps ?d. SR_Count step) = asum A_Count ?c"
    "(\<Sum>step \<leftarrow> Doc_Steps ?d. SR_Errors step) = asum Errors ?c"
    unfolding BuildDocument_fields buildSteps_fields[OF ok(1)] by (rule sum_SortKeys[OF keys])+
  have "distinct (SortKeys (Co_aggregates ?c))" "sorted (SortKeys (Co_aggregates ?c))"
    using keys by (simp_all add: SortKeys_def sort_Strings_def)
  then have sorted: "sorted_wrt (<) (map SR_Name (Doc_Steps ?d))"
    unfolding BuildDocument_fields buildSteps_fields[OF ok(1)] by (simp add: strict_sorted_iff)
  have rate: "0 \<le> O_ErrorRate (Doc_Overall ?d)" "O_ErrorRate (Doc_Overall ?d) \<le> 1"
    unfolding BuildDocument_fields using sums(4,5) by (auto simp: buildOverall_def)
  have "O_Successes (Doc_Overall ?d) + O_Errors (Doc_Overall ?d) = O_Count (Doc_Overall ?d)"
    by (simp add: BuildDocument_fields Errors_def)
  moreover have "O_Count (Doc_Overall ?d) = asum A_Count ?c" "O_Errors (Doc_Overall ?d) = asum Errors ?c"
    "Sch_Completed (Doc_Scheduling ?d) = asum A_Count ?c" "asum Errors ?c = bsum B_Errors ?c"
    using sums(1,3) ok(2) by (simp_all add: BuildDocument_fields buildScheduling_def views_agree_def)
  ultimately show ?thesis unfolding Let_def using series steps sorted rate by (simp only: simp_thms)
qed

lemma CheckSanity_checked [simp]: "San_Checked (CheckSanity d input)"
  by (simp add: CheckSanity_def runSanityChecks_def Let_def)

lemma BuildDocument_sanity:
  "Doc_Sanity (BuildDocument hdr machine c input) = CheckSanity (uncheckedDocument hdr machine c input) input"
  "Doc_Warnings (BuildDocument hdr machine c input) = Doc_Warnings (uncheckedDocument hdr machine c input)"
  by (simp_all add: BuildDocument_def Let_def)

lemma BuildDocument_warnings:
  "set (dropWarnings (buildScheduling hdr c)) \<union> set (lateWarnings (buildScheduling hdr c))
     \<union> set (lostWarnings (buildScheduling hdr c)) \<subseteq> set (Doc_Warnings (BuildDocument hdr machine c input))"
  by (auto simp: BuildDocument_def uncheckedDocument_def Let_def evaluateWarnings_def draftDocument_def dropCorrectedLatency_def)

lemma high_warning_invalidates:
  assumes "w \<in> set (Doc_Warnings (BuildDocument hdr machine c input))" "W_Severity w = SeverityHigh"
  shows "\<not> Valid (BuildDocument hdr machine c input)"
proof -
  let ?d = "uncheckedDocument hdr machine c input"
  have "invalidatingWarnings ?d input \<noteq> []" using assms by (auto simp: invalidatingWarnings_iff BuildDocument_sanity)
  then have "\<not> San_Valid (CheckSanity ?d input)"
    by (simp add: CheckSanity_def runSanityChecks_valid_iff sanityChecks_def)
  then show ?thesis by (simp add: Valid_def BuildDocument_sanity)
qed

lemma lossy_run_is_invalid:
  assumes "0 < Co_LostSamples c \<or> 0 < Co_DroppedByInflightLimit c
    \<or> 0 < Co_Sent c \<and> Co_Sent c \<le> 100 * Co_LateDispatches c"
  shows "\<not> Valid (BuildDocument hdr machine c input)"
proof -
  let ?s = "buildScheduling hdr c"
  have "\<exists>w \<in> set (dropWarnings ?s) \<union> set (lateWarnings ?s) \<union> set (lostWarnings ?s). W_Severity w = SeverityHigh"
  proof -
    consider "0 < Co_LostSamples c" | "0 < Co_DroppedByInflightLimit c"
      | "0 < Co_Sent c" "Co_Sent c \<le> 100 * Co_LateDispatches c" using assms by blast
    then show ?thesis
    proof cases
      case 3
      then have "real_of_int (Co_Sent c) \<le> 100 * real_of_int (Co_LateDispatches c)" by linarith
      with 3 have "lateProportion ?s \<ge> lateDispatchLimit"
        by (simp add: lateProportion_def lateDispatchLimit_def buildScheduling_def field_simps)
      with 3 show ?thesis by (simp add: lateWarnings_def Let_def) (simp add: buildScheduling_def)
    qed (auto simp: dropWarnings_def lostWarnings_def buildScheduling_def)
  qed
  then obtain w where "w \<in> set (Doc_Warnings (BuildDocument hdr machine c input))" "W_Severity w = SeverityHigh"
    using BuildDocument_warnings[of hdr c machine input] by blast
  then show ?thesis by (rule high_warning_invalidates)
qed


text \<open>The closed loop schedules nothing, so its document has no latency counted from a scheduled
  instant anywhere: overall, journey and every step carry the zero distribution there, and what is
  reported for the journey is the measured one.\<close>

theorem closed_loop_reports_no_corrected_latency:
  assumes "In_Model input = ClosedModel"
  shows "let d = BuildDocument hdr machine c input
    in O_Latency (Doc_Overall d) = zeroDistribution \<and> J_Latency (Doc_Journey d) = zeroDistribution
     \<and> (\<forall>step \<in> set (Doc_Steps d). SR_Latency step = zeroDistribution)
     \<and> Journey_Reported (Doc_Journey d) = Journeys hdr c
     \<and> Overall_Reported (Doc_Overall d) = ServiceDistribution hdr (overallAggregate hdr (Co_aggregates c))
     \<and> ClosedLoopWarning d \<noteq> None"
  using assms
  by (auto simp: BuildDocument_def uncheckedDocument_def Let_def draftDocument_def dropCorrectedLatency_def Doc_Closed_def buildRun_def
      Journey_Reported_def Overall_Reported_def buildOverall_def ClosedLoopWarning_def)

section \<open>Witnesses\<close>

definition example_input :: DocumentInput where
  "example_input = \<lparr>In_Version = ''1'', In_Protocols = [''http''], In_Spec = ''orders'', In_Target = ''http://t'',
     In_Model = ClosedModel, In_Start = 0, In_End = 1000000000, In_Phases = [], In_MaxInflight = 10, In_Seeds = [],
     In_SeedsFrom = [], In_Availability = [], In_AuthObtains = 0, In_ScenarioWarnings = [], In_Brokers = [],
     In_DeclaredSteps = [], In_DeclaredShares = [], In_ConsumerLag = [], In_PlannedDuration = 0,
     In_PlannedRequests = 0, In_Users = 1, In_ThinkTime = 0\<rparr>"

definition example_machine :: Environment where
  "example_machine = \<lparr>Env_Host = ''host'', Env_OS = ''linux'', Env_Arch = ''amd64'', Env_Cores = 4,
     Env_GoVersion = ''go1'', Env_Protocols = []\<rparr>"


theorem closed_loop_reports_no_corrected_latency_witness:
  "O_Latency (Doc_Overall (BuildDocument values_hdr example_machine
      (NewCollectorWithCapacity values_hdr 0 0 5) example_input)) = zeroDistribution"
  using closed_loop_reports_no_corrected_latency[of example_input values_hdr example_machine
      "NewCollectorWithCapacity values_hdr 0 0 5"]
  by (simp add: example_input_def Let_def)

end
