(* ===== verification/Merge.thy ===== *)
theory Merge
  imports Result
begin

text \<open>
  Adding result documents (\<open>internal/metrics/merge.go\<close>): N generators emit partial results and a
  coordinator sums them. Proved: whenever the sum succeeds, every additive number of it, overall, by
  step and class, is the sum over the documents, the window is the union of the windows, and the
  order of the documents is irrelevant to them; and the sum succeeds on documents the tool itself
  wrote.

  A Go map is a reference, and \<open>addCounts\<close> writes into the map of its first argument, which \<open>Merge\<close>
  shares with the documents it was given. The model is of the value returned; what the call does to
  its arguments is not part of it.
\<close>

section \<open>Adding that may fail\<close>

fun foldE :: "('s \<Rightarrow> 'a \<Rightarrow> 'e + 's) \<Rightarrow> 's \<Rightarrow> 'a list \<Rightarrow> 'e + 's" where
  "foldE f s [] = Inr s"
| "foldE f s (x # xs) = (case f s x of Inl e \<Rightarrow> Inl e | Inr s' \<Rightarrow> foldE f s' xs)"

text \<open>The contract of the four additions: counters of well-formed operands add when the addition
  succeeds, and it succeeds on readable operands, with a readable result.\<close>

locale partial_merge =
  fixes ok :: "'s \<Rightarrow> bool" and readable :: "'s \<Rightarrow> bool" and add_into :: "'s \<Rightarrow> 's \<Rightarrow> 'e + 's"
    and obs :: "'i \<Rightarrow> 's \<Rightarrow> int"
  assumes obs_add: "ok s \<Longrightarrow> ok t \<Longrightarrow> add_into s t = Inr u \<Longrightarrow> ok u \<and> obs i u = obs i s + obs i t"
    and add_succeeds: "readable s \<Longrightarrow> readable t \<Longrightarrow> \<exists>u. add_into s t = Inr u \<and> readable u"
begin

lemma obs_fold:
  "ok s \<Longrightarrow> \<forall>t \<in> set ts. ok t \<Longrightarrow> foldE add_into s ts = Inr u \<Longrightarrow>
   ok u \<and> obs i u = obs i s + (\<Sum>t \<leftarrow> ts. obs i t)"
proof (induction ts arbitrary: s)
  case (Cons t ts)
  then obtain s' where s': "add_into s t = Inr s'" "foldE add_into s' ts = Inr u" by (auto split: sum.splits)
  with Cons.prems obs_add[of s t s' i] have "ok s'" "obs i s' = obs i s + obs i t" by simp_all
  with Cons.IH[of s'] Cons.prems s' show ?case by simp
qed simp

lemma fold_succeeds:
  "readable s \<Longrightarrow> \<forall>t \<in> set ts. readable t \<Longrightarrow> \<exists>u. foldE add_into s ts = Inr u \<and> readable u"
proof (induction ts arbitrary: s)
  case (Cons t ts)
  then obtain u where "add_into s t = Inr u" "readable u" using add_succeeds[of s t] by auto
  with Cons show ?case by simp
qed simp

lemma fold_order_irrelevant:
  assumes "ok s" "\<forall>t \<in> set ts. ok t" "foldE add_into s ts = Inr u" "foldE add_into s ts' = Inr u'" "mset ts = mset ts'"
  shows "obs i u = obs i u'"
proof -
  have "mset (map (obs i) ts) = mset (map (obs i) ts')" "\<forall>t \<in> set ts'. ok t"
    using assms(2,5) mset_eq_setD[OF assms(5)] by simp_all
  then have "(\<Sum>t \<leftarrow> ts. obs i t) = (\<Sum>t \<leftarrow> ts'. obs i t)" by (metis sum_mset_sum_list)
  with obs_fold[OF assms(1,2,3), of i] obs_fold[OF assms(1) _ assms(4), of i] \<open>\<forall>t \<in> set ts'. ok t\<close> show ?thesis by simp
qed

end

section \<open>The additions\<close>

definition addCounts :: "(string, int) gomap \<Rightarrow> (string, int) gomap \<Rightarrow> (string, int) gomap" where
  "addCounts into other = (if other = [] then into else gadd_all into other)"

datatype merge_error = NothingToAdd | NotSummable string | DifferentScenarios string string
  | DifferentModels string string | HistogramError metrics_error

text \<open>Both latencies are merged before anything is written, and the first error is returned.\<close>

definition mergeLatencies :: "'h hdr \<Rightarrow> Distribution \<times> Distribution \<Rightarrow> Distribution \<times> Distribution
    \<Rightarrow> metrics_error + Distribution \<times> Distribution" where
  "mergeLatencies hdr = (\<lambda>(corrected, service) (corrected', service').
    case Merged hdr corrected corrected' of Inl err \<Rightarrow> Inl err
    | Inr latency \<Rightarrow> case Merged hdr service service' of Inl err \<Rightarrow> Inl err
    | Inr serviceLatency \<Rightarrow> Inr (latency, serviceLatency))"

definition addStep :: "'h hdr \<Rightarrow> StepResult \<Rightarrow> StepResult \<Rightarrow> metrics_error + StepResult" where
  "addStep hdr into other =
    (case mergeLatencies hdr (SR_Latency into, SR_ServiceLatency into) (SR_Latency other, SR_ServiceLatency other) of
       Inl err \<Rightarrow> Inl err
     | Inr (latency, service) \<Rightarrow> Inr (into\<lparr>SR_Latency := latency, SR_ServiceLatency := service,
         SR_Count := SR_Count into + SR_Count other, SR_Successes := SR_Successes into + SR_Successes other,
         SR_Errors := SR_Errors into + SR_Errors other, SR_Bytes := SR_Bytes into + SR_Bytes other,
         SR_Messages := SR_Messages into + SR_Messages other,
         SR_ErrorsByClass := addCounts (SR_ErrorsByClass into) (SR_ErrorsByClass other),
         SR_StatusByCode := addCounts (SR_StatusByCode into) (SR_StatusByCode other),
         SR_Details := addCounts (SR_Details into) (SR_Details other)\<rparr>))"

definition addOverall :: "'h hdr \<Rightarrow> OverallResult \<Rightarrow> OverallResult \<Rightarrow> metrics_error + OverallResult" where
  "addOverall hdr into other =
    (case mergeLatencies hdr (O_Latency into, O_ServiceLatency into) (O_Latency other, O_ServiceLatency other) of
       Inl err \<Rightarrow> Inl err
     | Inr (latency, service) \<Rightarrow> Inr (into\<lparr>O_Latency := latency, O_ServiceLatency := service,
         O_Count := O_Count into + O_Count other, O_Successes := O_Successes into + O_Successes other,
         O_Errors := O_Errors into + O_Errors other\<rparr>))"

definition addJourney :: "'h hdr \<Rightarrow> Journey \<Rightarrow> Journey \<Rightarrow> metrics_error + Journey" where
  "addJourney hdr into other =
    (case mergeLatencies hdr (J_Latency into, J_ServiceLatency into) (J_Latency other, J_ServiceLatency other) of
       Inl err \<Rightarrow> Inl err
     | Inr (latency, service) \<Rightarrow>
         let into = into\<lparr>J_Latency := latency, J_ServiceLatency := service,
               J_Started := J_Started into + J_Started other, J_Completed := J_Completed into + J_Completed other\<rparr>
         in Inr (into\<lparr>J_Sentence := phraseJourney into False\<rparr>))"

definition addScheduling :: "'h hdr \<Rightarrow> Scheduling \<Rightarrow> Scheduling \<Rightarrow> metrics_error + Scheduling" where
  "addScheduling hdr into other =
    (case Merged hdr (Sch_Skew into) (Sch_Skew other) of Inl err \<Rightarrow> Inl err
     | Inr skew \<Rightarrow> Inr (into\<lparr>Sch_Skew := skew, Sch_Sent := Sch_Sent into + Sch_Sent other,
         Sch_Completed := Sch_Completed into + Sch_Completed other,
         Sch_LateDispatches := Sch_LateDispatches into + Sch_LateDispatches other,
         Sch_DroppedByInflightLimit := Sch_DroppedByInflightLimit into + Sch_DroppedByInflightLimit other,
         Sch_LostSamples := Sch_LostSamples into + Sch_LostSamples other,
         Sch_PeakInflight := Sch_PeakInflight into + Sch_PeakInflight other\<rparr>))"

definition addRun :: "Run \<Rightarrow> Run \<Rightarrow> Run" where
  "addRun into other =
    (let into = into\<lparr>Run_Start := (if Run_Start other < Run_Start into then Run_Start other else Run_Start into)\<rparr>;
         into = into\<lparr>Run_End := (if Run_End other > Run_End into then Run_End other else Run_End into)\<rparr>
     in into\<lparr>Run_DurationMs := Milliseconds (Run_End into - Run_Start into),
          Run_MaxInflight := Run_MaxInflight into + Run_MaxInflight other,
          Run_AuthObtains := Run_AuthObtains into + Run_AuthObtains other\<rparr>)"

section \<open>The sum of documents\<close>

definition summable :: "'h Document \<Rightarrow> merge_error option" where
  "summable d = (if Doc_FormatVersion d = ResultFormatVersion then None else Some (NotSummable (Doc_FormatVersion d)))"

fun comparable_with :: "Run \<Rightarrow> 'h Document list \<Rightarrow> merge_error option" where
  "comparable_with first [] = None"
| "comparable_with first (d # ds) =
    (if Run_Spec (Doc_Run d) \<noteq> Run_Spec first then Some (DifferentScenarios (Run_Spec first) (Run_Spec (Doc_Run d)))
     else if Run_Model (Doc_Run d) \<noteq> Run_Model first then Some (DifferentModels (Run_Model first) (Run_Model (Doc_Run d)))
     else comparable_with first ds)"

fun first_error :: "('a \<Rightarrow> 'e option) \<Rightarrow> 'a list \<Rightarrow> 'e option" where
  "first_error f [] = None"
| "first_error f (x # xs) = (case f x of Some e \<Rightarrow> Some e | None \<Rightarrow> first_error f xs)"

type_synonym step_table = "(string, StepResult) gomap \<times> string list"

definition copySteps :: "StepResult list \<Rightarrow> step_table" where
  "copySteps results =
    foldl (\<lambda>(table, order) step. (gput table (SR_Name step) step, order @ [SR_Name step])) ([], []) results"

definition mergeStep :: "'h hdr \<Rightarrow> step_table \<Rightarrow> StepResult \<Rightarrow> metrics_error + step_table" where
  "mergeStep hdr = (\<lambda>(table, order) step.
    case gget table (SR_Name step) of
      None \<Rightarrow> Inr (gput table (SR_Name step) step, order @ [SR_Name step])
    | Some existing \<Rightarrow> (case addStep hdr existing step of Inl err \<Rightarrow> Inl err
        | Inr added \<Rightarrow> Inr (gput table (SR_Name step) added, order)))"

record merging =
  Mg_Steps :: step_table
  Mg_Overall :: OverallResult
  Mg_Journey :: Journey
  Mg_Scheduling :: Scheduling
  Mg_Run :: Run

definition mergeDocument :: "'h hdr \<Rightarrow> merging \<Rightarrow> 'h Document \<Rightarrow> metrics_error + merging" where
  "mergeDocument hdr m d =
    (case foldE (mergeStep hdr) (Mg_Steps m) (Doc_Steps d) of Inl err \<Rightarrow> Inl err
     | Inr table \<Rightarrow> case addOverall hdr (Mg_Overall m) (Doc_Overall d) of Inl err \<Rightarrow> Inl err
     | Inr overall \<Rightarrow> case addJourney hdr (Mg_Journey m) (Doc_Journey d) of Inl err \<Rightarrow> Inl err
     | Inr journey \<Rightarrow> case addScheduling hdr (Mg_Scheduling m) (Doc_Scheduling d) of Inl err \<Rightarrow> Inl err
     | Inr scheduling \<Rightarrow> Inr \<lparr>Mg_Steps = table, Mg_Overall = overall, Mg_Journey = journey,
         Mg_Scheduling = scheduling, Mg_Run = addRun (Mg_Run m) (Doc_Run d)\<rparr>)"

definition startMerging :: "'h Document \<Rightarrow> merging" where
  "startMerging d = \<lparr>Mg_Steps = copySteps (Doc_Steps d), Mg_Overall = Doc_Overall d, Mg_Journey = Doc_Journey d,
     Mg_Scheduling = Doc_Scheduling d, Mg_Run = Doc_Run d\<rparr>"

definition finishMerging :: "'h Document \<Rightarrow> merging \<Rightarrow> 'h Document" where
  "finishMerging d m =
    (let overall = Mg_Overall m;
         overall = (if O_Count overall > 0
           then overall\<lparr>O_ErrorRate := real_of_int (O_Errors overall) / real_of_int (O_Count overall)\<rparr> else overall);
         seconds = real_of_int (Run_DurationMs (Mg_Run m)) / 1000;
         overall = (if seconds > 0 then overall\<lparr>O_EffectiveRate := real_of_int (O_Count overall) / seconds\<rparr> else overall)
     in d\<lparr>Doc_Series := [], Doc_Variety := [], Doc_Warnings := [], Doc_SLO := zeroVerdict, Doc_Sanity := zeroSanity,
          Doc_Steps := map (\<lambda>name. the (gget (fst (Mg_Steps m)) name)) (sort_Strings (snd (Mg_Steps m))),
          Doc_Overall := overall, Doc_Journey := Mg_Journey m, Doc_Scheduling := Mg_Scheduling m, Doc_Run := Mg_Run m\<rparr>)"

definition Merge :: "'h hdr \<Rightarrow> 'h Document list \<Rightarrow> merge_error + 'h Document" where
  "Merge hdr documents =
    (case documents of [] \<Rightarrow> Inl NothingToAdd
     | [d] \<Rightarrow> Inr d
     | d # ds \<Rightarrow>
         (case first_error summable documents of Some err \<Rightarrow> Inl err
          | None \<Rightarrow> case comparable_with (Doc_Run d) ds of Some err \<Rightarrow> Inl err
          | None \<Rightarrow> case foldE (mergeDocument hdr) (startMerging d) ds of Inl err \<Rightarrow> Inl (HistogramError err)
          | Inr m \<Rightarrow> Inr (finishMerging d m)))"

section \<open>Each addition meets the contract\<close>

definition readable_dist :: "'h hdr \<Rightarrow> Distribution \<Rightarrow> bool" where
  "readable_dist hdr d \<longleftrightarrow> hdr_roundtrip hdr \<and> (\<exists>r. decodeHistogram hdr (D_Histogram d) = Inr r)"

lemma readable_distributionOf: "hdr_roundtrip hdr \<Longrightarrow> readable_dist hdr (distributionOf hdr h)"
  using encode_nonempty[of hdr h] encode_empty[of hdr h]
  by (cases "hdr_TotalCount hdr h = 0") (simp_all add: readable_dist_def distributionOf_def)

lemma readable_zero: "hdr_roundtrip hdr \<Longrightarrow> readable_dist hdr zeroDistribution"
  by (simp add: readable_dist_def zeroDistribution_def decodeHistogram_def)

lemma Merged_succeeds:
  assumes "readable_dist hdr d" "readable_dist hdr d'"
  shows "\<exists>u. Merged hdr d d' = Inr u \<and> readable_dist hdr u"
proof -
  from assms obtain r r' where r: "decodeHistogram hdr (D_Histogram d) = Inr r" "decodeHistogram hdr (D_Histogram d') = Inr r'"
    "hdr_roundtrip hdr" by (auto simp: readable_dist_def)
  with assms readable_distributionOf[OF r(3)] show ?thesis
    by (cases r; cases r') (simp_all add: Merged_def)
qed

lemma mergeLatencies_succeeds:
  assumes "readable_dist hdr a" "readable_dist hdr b" "readable_dist hdr a'" "readable_dist hdr b'"
  shows "\<exists>u v. mergeLatencies hdr (a, b) (a', b') = Inr (u, v) \<and> readable_dist hdr u \<and> readable_dist hdr v"
  using Merged_succeeds[OF assms(1,3)] Merged_succeeds[OF assms(2,4)] by (auto simp: mergeLatencies_def)

datatype step_count = StepTotal | StepSuccesses | StepErrors | StepBytes | StepMessages
  | StepClass string | StepStatus string | StepDetail string

fun step_count_of :: "step_count \<Rightarrow> StepResult \<Rightarrow> int" where
  "step_count_of StepTotal s = SR_Count s"
| "step_count_of StepSuccesses s = SR_Successes s"
| "step_count_of StepErrors s = SR_Errors s"
| "step_count_of StepBytes s = SR_Bytes s"
| "step_count_of StepMessages s = SR_Messages s"
| "step_count_of (StepClass c) s = gnum (SR_ErrorsByClass s) c"
| "step_count_of (StepStatus c) s = gnum (SR_StatusByCode s) c"
| "step_count_of (StepDetail c) s = gnum (SR_Details s) c"

definition step_ok :: "StepResult \<Rightarrow> bool" where
  "step_ok s \<longleftrightarrow> gmap_ok (SR_ErrorsByClass s) \<and> gmap_ok (SR_StatusByCode s) \<and> gmap_ok (SR_Details s)"

lemma addCounts_ok [simp]: "gmap_ok m \<Longrightarrow> gmap_ok (addCounts m other)"
  by (simp add: addCounts_def)

lemma gnum_addCounts: "gmap_ok other \<Longrightarrow> gnum (addCounts m other) k = gnum m k + gnum other k"
  by (simp add: addCounts_def gnum_gadd_all gnum_absent)

lemma addStep_name: "addStep hdr s t = Inr u \<Longrightarrow> SR_Name u = SR_Name s"
  by (auto simp: addStep_def split: sum.splits prod.splits)

interpretation step_sum: partial_merge step_ok
    "\<lambda>s. readable_dist hdr (SR_Latency s) \<and> readable_dist hdr (SR_ServiceLatency s)" "addStep hdr" step_count_of for hdr
proof
  show "step_ok u \<and> step_count_of i u = step_count_of i s + step_count_of i t"
    if "step_ok s" "step_ok t" "addStep hdr s t = Inr u" for s t u i
    using that by (cases i) (auto simp: addStep_def step_ok_def gnum_addCounts split: sum.splits prod.splits)
  show "\<exists>u. addStep hdr s t = Inr u \<and> readable_dist hdr (SR_Latency u) \<and> readable_dist hdr (SR_ServiceLatency u)"
    if "readable_dist hdr (SR_Latency s) \<and> readable_dist hdr (SR_ServiceLatency s)"
      "readable_dist hdr (SR_Latency t) \<and> readable_dist hdr (SR_ServiceLatency t)" for s t
    using mergeLatencies_succeeds[of hdr "SR_Latency s" "SR_ServiceLatency s" "SR_Latency t" "SR_ServiceLatency t"] that
    by (auto simp: addStep_def)
qed

datatype overall_count = OverallTotal | OverallSuccesses | OverallErrors

fun overall_count_of :: "overall_count \<Rightarrow> OverallResult \<Rightarrow> int" where
  "overall_count_of OverallTotal r = O_Count r"
| "overall_count_of OverallSuccesses r = O_Successes r"
| "overall_count_of OverallErrors r = O_Errors r"

interpretation overall_sum: partial_merge "\<lambda>_. True"
    "\<lambda>r. readable_dist hdr (O_Latency r) \<and> readable_dist hdr (O_ServiceLatency r)" "addOverall hdr" overall_count_of for hdr
proof
  show "True \<and> overall_count_of i u = overall_count_of i s + overall_count_of i t" if "addOverall hdr s t = Inr u" for s t u i
    using that by (cases i) (auto simp: addOverall_def split: sum.splits prod.splits)
  show "\<exists>u. addOverall hdr s t = Inr u \<and> readable_dist hdr (O_Latency u) \<and> readable_dist hdr (O_ServiceLatency u)"
    if "readable_dist hdr (O_Latency s) \<and> readable_dist hdr (O_ServiceLatency s)"
      "readable_dist hdr (O_Latency t) \<and> readable_dist hdr (O_ServiceLatency t)" for s t
    using mergeLatencies_succeeds[of hdr "O_Latency s" "O_ServiceLatency s" "O_Latency t" "O_ServiceLatency t"] that
    by (auto simp: addOverall_def)
qed

datatype journey_count = JourneyStarted | JourneyCompleted

fun journey_count_of :: "journey_count \<Rightarrow> Journey \<Rightarrow> int" where
  "journey_count_of JourneyStarted j = J_Started j"
| "journey_count_of JourneyCompleted j = J_Completed j"

interpretation journey_sum: partial_merge "\<lambda>_. True"
    "\<lambda>j. readable_dist hdr (J_Latency j) \<and> readable_dist hdr (J_ServiceLatency j)" "addJourney hdr" journey_count_of for hdr
proof
  show "True \<and> journey_count_of i u = journey_count_of i s + journey_count_of i t" if "addJourney hdr s t = Inr u" for s t u i
    using that by (cases i) (auto simp: addJourney_def Let_def split: sum.splits prod.splits)
  show "\<exists>u. addJourney hdr s t = Inr u \<and> readable_dist hdr (J_Latency u) \<and> readable_dist hdr (J_ServiceLatency u)"
    if "readable_dist hdr (J_Latency s) \<and> readable_dist hdr (J_ServiceLatency s)"
      "readable_dist hdr (J_Latency t) \<and> readable_dist hdr (J_ServiceLatency t)" for s t
    using mergeLatencies_succeeds[of hdr "J_Latency s" "J_ServiceLatency s" "J_Latency t" "J_ServiceLatency t"] that
    by (auto simp: addJourney_def Let_def)
qed

datatype scheduling_count = SchedSent | SchedCompleted | SchedLate | SchedDropped | SchedLost | SchedPeak

fun scheduling_count_of :: "scheduling_count \<Rightarrow> Scheduling \<Rightarrow> int" where
  "scheduling_count_of SchedSent s = Sch_Sent s"
| "scheduling_count_of SchedCompleted s = Sch_Completed s"
| "scheduling_count_of SchedLate s = Sch_LateDispatches s"
| "scheduling_count_of SchedDropped s = Sch_DroppedByInflightLimit s"
| "scheduling_count_of SchedLost s = Sch_LostSamples s"
| "scheduling_count_of SchedPeak s = Sch_PeakInflight s"

interpretation scheduling_sum: partial_merge "\<lambda>_. True" "\<lambda>s. readable_dist hdr (Sch_Skew s)" "addScheduling hdr"
    scheduling_count_of for hdr
proof
  show "True \<and> scheduling_count_of i u = scheduling_count_of i s + scheduling_count_of i t"
    if "addScheduling hdr s t = Inr u" for s t u i
    using that by (cases i) (auto simp: addScheduling_def split: sum.splits)
  show "\<exists>u. addScheduling hdr s t = Inr u \<and> readable_dist hdr (Sch_Skew u)"
    if "readable_dist hdr (Sch_Skew s)" "readable_dist hdr (Sch_Skew t)" for s t
    using Merged_succeeds[OF that] by (auto simp: addScheduling_def)
qed

section \<open>The table of steps\<close>

definition table_ok :: "step_table \<Rightarrow> bool" where
  "table_ok = (\<lambda>(table, order). gmap_ok table \<and> distinct order \<and> set order = set (gkeys table) \<and>
     (\<forall>(name, step) \<in> set table. SR_Name step = name \<and> step_ok step))"

definition table_count :: "step_count \<Rightarrow> string \<Rightarrow> step_table \<Rightarrow> int" where
  "table_count i name t = (case gget (fst t) name of None \<Rightarrow> 0 | Some step \<Rightarrow> step_count_of i step)"

definition named_count :: "step_count \<Rightarrow> string \<Rightarrow> StepResult list \<Rightarrow> int" where
  "named_count i name results = (\<Sum>step \<leftarrow> results. if SR_Name step = name then step_count_of i step else 0)"

lemma table_ok_put:
  assumes "table_ok (table, order)" "step_ok step" "SR_Name step = name"
  shows "table_ok (gput table name step, if name \<in> set order then order else order @ [name])"
proof -
  have "\<forall>(n, s) \<in> set (gput table name step). SR_Name s = n \<and> step_ok s"
    using assms by (auto simp: table_ok_def dest: in_set_gput)
  with assms(1) show ?thesis by (auto simp: table_ok_def)
qed

lemma table_count_put:
  "table_count i n (gput table name step, order) = (if n = name then step_count_of i step else table_count i n (table, order'))"
  by (simp add: table_count_def)

lemma mergeStep_counts:
  assumes "table_ok t" "step_ok step" "mergeStep hdr t step = Inr t'"
  shows "table_ok t' \<and> table_count i n t' = table_count i n t + (if SR_Name step = n then step_count_of i step else 0)"
proof (cases t)
  case (Pair table order)
  show ?thesis
  proof (cases "gget table (SR_Name step)")
    case None
    then have "SR_Name step \<notin> set order" using assms(1) Pair by (auto simp: table_ok_def gget_None_iff)
    with None assms Pair table_ok_put[of table order step "SR_Name step"] show ?thesis
      by (auto simp: mergeStep_def table_count_def)
  next
    case (Some existing)
    then obtain added where added: "addStep hdr existing step = Inr added" "t' = (gput table (SR_Name step) added, order)"
      using assms(3) Pair by (auto simp: mergeStep_def split: sum.splits)
    have ex: "step_ok existing" "SR_Name existing = SR_Name step" "SR_Name step \<in> set order"
      using assms(1) Pair Some by (auto simp: table_ok_def dest!: gget_in_set) (metis Some gget_in_gkeys)
    with step_sum.obs_add[OF ex(1) assms(2) added(1)] addStep_name[OF added(1)]
    show ?thesis using Some Pair added assms(1) table_ok_put[of table order added "SR_Name step"]
      by (auto simp: table_count_def)
  qed
qed

lemma mergeSteps_counts:
  "table_ok t \<Longrightarrow> \<forall>s \<in> set results. step_ok s \<Longrightarrow> foldE (mergeStep hdr) t results = Inr t' \<Longrightarrow>
   table_ok t' \<and> table_count i n t' = table_count i n t + named_count i n results"
proof (induction results arbitrary: t)
  case (Cons s results)
  then obtain u where u: "mergeStep hdr t s = Inr u" "foldE (mergeStep hdr) u results = Inr t'" by (auto split: sum.splits)
  from mergeStep_counts[OF Cons.prems(1) _ u(1)] Cons.prems(2)
  have "table_ok u" "table_count i n u = table_count i n t + (if SR_Name s = n then step_count_of i s else 0)" by simp_all
  with Cons.IH[of u] Cons.prems(2) u(2) show ?case by (simp add: named_count_def)
qed (simp add: named_count_def)

lemma copySteps_counts:
  assumes "distinct (map SR_Name results)" "\<forall>s \<in> set results. step_ok s"
  shows "table_ok (copySteps results) \<and> table_count i n (copySteps results) = named_count i n results
    \<and> set (gkeys (fst (copySteps results))) = set (map SR_Name results)"
  using assms
proof (induction results rule: rev_induct)
  case (snoc s results)
  obtain table order where t: "copySteps results = (table, order)" by (cases "copySteps results") auto
  have step: "copySteps (results @ [s]) = (gput table (SR_Name s) s, order @ [SR_Name s])"
    using t by (simp add: copySteps_def)
  have IH: "table_ok (table, order)" "table_count i n (table, order) = named_count i n results"
    "set (gkeys table) = set (map SR_Name results)" using snoc t by simp_all
  then have new: "SR_Name s \<notin> set order" "gget table (SR_Name s) = None"
    using snoc.prems by (auto simp: table_ok_def gget_None_iff)
  with IH snoc.prems table_ok_put[of table order s "SR_Name s"] show ?case
    unfolding step by (auto simp: table_count_def named_count_def)
qed (simp add: copySteps_def table_ok_def table_count_def named_count_def)

lemma named_count_table:
  assumes "table_ok (table, order)"
  shows "named_count i n (map (\<lambda>name. the (gget table name)) (sort_Strings order)) = table_count i n (table, order)"
    "map SR_Name (map (\<lambda>name. the (gget table name)) (sort_Strings order)) = sort_Strings order"
proof -
  have name: "SR_Name (the (gget table name)) = name" if present: "name \<in> set order" for name
  proof -
    obtain step where "gget table name = Some step"
      using assms present gget_None_iff[of table name] by (auto simp: table_ok_def)
    with assms show ?thesis by (auto simp: table_ok_def dest!: gget_in_set)
  qed
  then show "map SR_Name (map (\<lambda>name. the (gget table name)) (sort_Strings order)) = sort_Strings order"
    by (auto intro: map_idI)
  have single: "distinct xs \<Longrightarrow> (\<Sum>x \<leftarrow> xs. if x = n then f x else 0) = (if n \<in> set xs then f n else 0)"
    for xs :: "string list" and f :: "string \<Rightarrow> int" by (induction xs) auto
  have d: "distinct (sort_Strings order)" using assms by (simp add: table_ok_def sort_Strings_def)
  have "named_count i n (map (\<lambda>name. the (gget table name)) (sort_Strings order))
      = (\<Sum>name \<leftarrow> sort_Strings order. if name = n then step_count_of i (the (gget table name)) else 0)"
    using name by (auto simp: named_count_def comp_def intro!: arg_cong[where f = sum_list])
  also have "\<dots> = table_count i n (table, order)"
    using single[OF d, of "\<lambda>name. step_count_of i (the (gget table name))"] assms gget_None_iff[of table n]
    by (auto simp: table_ok_def table_count_def split: option.splits)
  finally show "named_count i n (map (\<lambda>name. the (gget table name)) (sort_Strings order)) = table_count i n (table, order)" .
qed

section \<open>The parts of the sum\<close>

lemma merge_parts:
  assumes "foldE (mergeDocument hdr) m ds = Inr m'"
  shows "foldE (addOverall hdr) (Mg_Overall m) (map Doc_Overall ds) = Inr (Mg_Overall m')
    \<and> foldE (addJourney hdr) (Mg_Journey m) (map Doc_Journey ds) = Inr (Mg_Journey m')
    \<and> foldE (addScheduling hdr) (Mg_Scheduling m) (map Doc_Scheduling ds) = Inr (Mg_Scheduling m')
    \<and> foldE (mergeStep hdr) (Mg_Steps m) (concat (map Doc_Steps ds)) = Inr (Mg_Steps m')
    \<and> Mg_Run m' = foldl addRun (Mg_Run m) (map Doc_Run ds)"
  using assms
proof (induction ds arbitrary: m)
  case (Cons d ds)
  have app: "foldE f s (xs @ ys) = (case foldE f s xs of Inl e \<Rightarrow> Inl e | Inr s' \<Rightarrow> foldE f s' ys)"
    for f :: "step_table \<Rightarrow> StepResult \<Rightarrow> metrics_error + step_table" and s xs ys
    by (induction xs arbitrary: s) (auto split: sum.splits)
  from Cons.prems obtain u where u: "mergeDocument hdr m d = Inr u" "foldE (mergeDocument hdr) u ds = Inr m'"
    by (auto split: sum.splits)
  from u(1) have "foldE (mergeStep hdr) (Mg_Steps m) (Doc_Steps d) = Inr (Mg_Steps u)"
    "addOverall hdr (Mg_Overall m) (Doc_Overall d) = Inr (Mg_Overall u)"
    "addJourney hdr (Mg_Journey m) (Doc_Journey d) = Inr (Mg_Journey u)"
    "addScheduling hdr (Mg_Scheduling m) (Doc_Scheduling d) = Inr (Mg_Scheduling u)"
    "Mg_Run u = addRun (Mg_Run m) (Doc_Run d)"
    by (auto simp: mergeDocument_def split: sum.splits)
  with Cons.IH[OF u(2)] show ?case by (simp add: app)
qed simp

lemma addRun_window:
  "Run_Start (foldl addRun r rs) = Min (Run_Start ` set (r # rs)) \<and> Run_End (foldl addRun r rs) = Max (Run_End ` set (r # rs))"
proof (induction rs arbitrary: r)
  case (Cons r' rs)
  have "Run_Start (addRun r r') = min (Run_Start r) (Run_Start r')" "Run_End (addRun r r') = max (Run_End r) (Run_End r')"
    by (auto simp: addRun_def Let_def min_def max_def)
  then show ?case using Cons[of "addRun r r'"]
    by (cases "rs = []") (simp_all add: min.assoc max.assoc)
qed simp

lemma foldl_addRun_duration:
  "rs \<noteq> [] \<Longrightarrow> Run_DurationMs (foldl addRun r rs) = Milliseconds (Run_End (foldl addRun r rs) - Run_Start (foldl addRun r rs))"
  by (cases rs rule: rev_cases) (simp_all add: addRun_def Let_def)

lemma Merge_cases:
  assumes "Merge hdr (d # ds) = Inr merged" "ds \<noteq> []"
  obtains m where "foldE (mergeDocument hdr) (startMerging d) ds = Inr m" "merged = finishMerging d m"
  using assms by (cases ds) (auto simp: Merge_def split: option.splits sum.splits)

lemma finishMerging_fields:
  "overall_count_of k (Doc_Overall (finishMerging d m)) = overall_count_of k (Mg_Overall m)"
  "Doc_Journey (finishMerging d m) = Mg_Journey m" "Doc_Scheduling (finishMerging d m) = Mg_Scheduling m"
  "Doc_Run (finishMerging d m) = Mg_Run m"
  "Doc_Steps (finishMerging d m) = map (\<lambda>name. the (gget (fst (Mg_Steps m)) name)) (sort_Strings (snd (Mg_Steps m)))"
  by (cases k) (simp_all add: finishMerging_def Let_def)

definition doc_ok :: "'h Document \<Rightarrow> bool" where
  "doc_ok d \<longleftrightarrow> distinct (map SR_Name (Doc_Steps d)) \<and> (\<forall>s \<in> set (Doc_Steps d). step_ok s)"

lemma named_count_concat: "named_count i n (concat (map f ds)) = (\<Sum>x \<leftarrow> ds. named_count i n (f x))"
  by (induction ds) (simp_all add: named_count_def)

lemma merged_steps:
  assumes "foldE (mergeDocument hdr) (startMerging d) ds = Inr m" "\<forall>x \<in> set (d # ds). doc_ok x"
  shows "named_count i n (Doc_Steps (finishMerging d m)) = (\<Sum>x \<leftarrow> d # ds. named_count i n (Doc_Steps x))
    \<and> sorted_wrt (<) (map SR_Name (Doc_Steps (finishMerging d m)))"
proof -
  have fold: "foldE (mergeStep hdr) (copySteps (Doc_Steps d)) (concat (map Doc_Steps ds)) = Inr (Mg_Steps m)"
    using merge_parts[OF assms(1)] by (simp add: startMerging_def)
  have start: "table_ok (copySteps (Doc_Steps d))"
    "table_count i n (copySteps (Doc_Steps d)) = named_count i n (Doc_Steps d)"
    using assms(2) copySteps_counts[of "Doc_Steps d" i n] by (simp_all add: doc_ok_def)
  have steps_ok: "\<forall>s \<in> set (concat (map Doc_Steps ds)). step_ok s" using assms(2) by (auto simp: doc_ok_def)
  obtain table order where t: "Mg_Steps m = (table, order)" by (cases "Mg_Steps m") auto
  from mergeSteps_counts[OF start(1) steps_ok fold] have ok: "table_ok (table, order)"
    and cnt: "table_count i n (table, order) = named_count i n (Doc_Steps d) + named_count i n (concat (map Doc_Steps ds))"
    using start(2) t by simp_all
  have "distinct (sort_Strings order)" using ok by (simp add: table_ok_def sort_Strings_def)
  then have "sorted_wrt (<) (sort_Strings order)" by (simp add: strict_sorted_iff)
  with named_count_table(1)[OF ok, of i n] named_count_table(2)[OF ok] cnt show ?thesis
    by (simp add: finishMerging_fields t named_count_concat comp_def del: map_map)
qed

section \<open>Properties\<close>

text \<open>C20. When documents are summed, every additive number of the result is the sum over the documents:
  the overall counts, the journeys, the scheduling counters, and for each step by name its counts,
  its errors of each class, its answers of each status and its details; the steps are listed once
  each in order; and the window is the union of the windows.\<close>

theorem Merge_sums:
  assumes "Merge hdr (d # ds) = Inr merged" "ds \<noteq> []" "\<forall>x \<in> set (d # ds). doc_ok x"
  shows "overall_count_of k (Doc_Overall merged) = (\<Sum>x \<leftarrow> d # ds. overall_count_of k (Doc_Overall x))
    \<and> journey_count_of j (Doc_Journey merged) = (\<Sum>x \<leftarrow> d # ds. journey_count_of j (Doc_Journey x))
    \<and> scheduling_count_of s (Doc_Scheduling merged) = (\<Sum>x \<leftarrow> d # ds. scheduling_count_of s (Doc_Scheduling x))
    \<and> named_count i n (Doc_Steps merged) = (\<Sum>x \<leftarrow> d # ds. named_count i n (Doc_Steps x))
    \<and> sorted_wrt (<) (map SR_Name (Doc_Steps merged))
    \<and> Run_Start (Doc_Run merged) = Min ((Run_Start \<circ> Doc_Run) ` set (d # ds))
    \<and> Run_End (Doc_Run merged) = Max ((Run_End \<circ> Doc_Run) ` set (d # ds))
    \<and> Run_DurationMs (Doc_Run merged) = Milliseconds (Run_End (Doc_Run merged) - Run_Start (Doc_Run merged))"
proof -
  from Merge_cases[OF assms(1,2)] obtain m where
    m: "foldE (mergeDocument hdr) (startMerging d) ds = Inr m" and merged: "merged = finishMerging d m" by blast
  note parts = merge_parts[OF m, unfolded startMerging_def, simplified]
  have "overall_count_of k (Mg_Overall m) = overall_count_of k (Doc_Overall d) + (\<Sum>x \<leftarrow> ds. overall_count_of k (Doc_Overall x))"
    using overall_sum.obs_fold[where s = "Doc_Overall d" and ts = "map Doc_Overall ds" and hdr = hdr and u = "Mg_Overall m" and i = k] parts by (simp add: comp_def)
  moreover have "journey_count_of j (Mg_Journey m) = journey_count_of j (Doc_Journey d) + (\<Sum>x \<leftarrow> ds. journey_count_of j (Doc_Journey x))"
    using journey_sum.obs_fold[where s = "Doc_Journey d" and ts = "map Doc_Journey ds" and hdr = hdr and u = "Mg_Journey m" and i = j] parts by (simp add: comp_def)
  moreover have "scheduling_count_of s (Mg_Scheduling m) =
      scheduling_count_of s (Doc_Scheduling d) + (\<Sum>x \<leftarrow> ds. scheduling_count_of s (Doc_Scheduling x))"
    using scheduling_sum.obs_fold[where s = "Doc_Scheduling d" and ts = "map Doc_Scheduling ds" and hdr = hdr and u = "Mg_Scheduling m" and i = s] parts by (simp add: comp_def)
  moreover have run: "Mg_Run m = foldl addRun (Doc_Run d) (map Doc_Run ds)" using parts by simp
  have "Run_Start (Mg_Run m) = Min ((Run_Start \<circ> Doc_Run) ` set (d # ds))"
    "Run_End (Mg_Run m) = Max ((Run_End \<circ> Doc_Run) ` set (d # ds))"
    using addRun_window[of "Doc_Run d" "map Doc_Run ds"] by (simp_all add: run image_comp)
  moreover have "Run_DurationMs (Mg_Run m) = Milliseconds (Run_End (Mg_Run m) - Run_Start (Mg_Run m))"
    unfolding run by (rule foldl_addRun_duration) (simp add: assms(2))
  ultimately show ?thesis unfolding merged finishMerging_fields(1-4)
    using merged_steps[OF m assms(3), of i n] by simp
qed

definition doc_readable :: "'h hdr \<Rightarrow> 'h Document \<Rightarrow> bool" where
  "doc_readable hdr d \<longleftrightarrow> Doc_FormatVersion d = ResultFormatVersion
    \<and> (\<forall>s \<in> set (Doc_Steps d). readable_dist hdr (SR_Latency s) \<and> readable_dist hdr (SR_ServiceLatency s))
    \<and> readable_dist hdr (O_Latency (Doc_Overall d)) \<and> readable_dist hdr (O_ServiceLatency (Doc_Overall d))
    \<and> readable_dist hdr (J_Latency (Doc_Journey d)) \<and> readable_dist hdr (J_ServiceLatency (Doc_Journey d))
    \<and> readable_dist hdr (Sch_Skew (Doc_Scheduling d))"

lemma BuildDocument_readable:
  assumes "hdr_roundtrip hdr"
  shows "doc_readable hdr (BuildDocument hdr machine c input)"
  using readable_distributionOf[OF assms] readable_zero[OF assms]
  by (auto simp: doc_readable_def BuildDocument_def uncheckedDocument_def Let_def draftDocument_def dropCorrectedLatency_def
      buildSteps_def convertStep_def buildOverall_def buildScheduling_def Aggregate_Distribution_def
      ServiceDistribution_def Journeys_def SchedulingSkew_def)

lemma first_error_None: "first_error f xs = None \<longleftrightarrow> (\<forall>x \<in> set xs. f x = None)"
  by (induction xs) (auto split: option.splits)

lemma comparable_with_None:
  "comparable_with r ds = None \<longleftrightarrow> (\<forall>d \<in> set ds. Run_Spec (Doc_Run d) = Run_Spec r \<and> Run_Model (Doc_Run d) = Run_Model r)"
  by (induction ds) auto

definition table_readable :: "'h hdr \<Rightarrow> step_table \<Rightarrow> bool" where
  "table_readable hdr t \<longleftrightarrow>
    (\<forall>s \<in> set (gvalues (fst t)). readable_dist hdr (SR_Latency s) \<and> readable_dist hdr (SR_ServiceLatency s))"

lemma mergeStep_succeeds:
  assumes "table_readable hdr t" "readable_dist hdr (SR_Latency s) \<and> readable_dist hdr (SR_ServiceLatency s)"
  shows "\<exists>t'. mergeStep hdr t s = Inr t' \<and> table_readable hdr t'"
proof (cases t)
  case (Pair table order)
  show ?thesis
  proof (cases "gget table (SR_Name s)")
    case None
    with assms Pair show ?thesis by (auto simp: mergeStep_def table_readable_def dest!: set_gvalues_gput[THEN subsetD])
  next
    case (Some existing)
    with assms(1) Pair have "readable_dist hdr (SR_Latency existing) \<and> readable_dist hdr (SR_ServiceLatency existing)"
      by (auto simp: table_readable_def dest: gget_in_gvalues)
    from step_sum.add_succeeds[OF this assms(2)] assms(1) Some Pair show ?thesis
      by (auto simp: mergeStep_def table_readable_def dest!: set_gvalues_gput[THEN subsetD])
  qed
qed

lemma mergeSteps_succeeds:
  "table_readable hdr t \<Longrightarrow> \<forall>s \<in> set ss. readable_dist hdr (SR_Latency s) \<and> readable_dist hdr (SR_ServiceLatency s) \<Longrightarrow>
   \<exists>t'. foldE (mergeStep hdr) t ss = Inr t' \<and> table_readable hdr t'"
proof (induction ss arbitrary: t)
  case (Cons s ss)
  from mergeStep_succeeds[OF Cons.prems(1), of s] Cons.prems(2)
  obtain t' where "mergeStep hdr t s = Inr t'" "table_readable hdr t'" by auto
  with Cons.IH[of t'] Cons.prems(2) show ?case by simp
qed simp

definition merging_readable :: "'h hdr \<Rightarrow> merging \<Rightarrow> bool" where
  "merging_readable hdr m \<longleftrightarrow> table_readable hdr (Mg_Steps m)
    \<and> (readable_dist hdr (O_Latency (Mg_Overall m)) \<and> readable_dist hdr (O_ServiceLatency (Mg_Overall m)))
    \<and> (readable_dist hdr (J_Latency (Mg_Journey m)) \<and> readable_dist hdr (J_ServiceLatency (Mg_Journey m)))
    \<and> readable_dist hdr (Sch_Skew (Mg_Scheduling m))"

lemma mergeDocument_succeeds:
  assumes "merging_readable hdr m" "doc_readable hdr d"
  shows "\<exists>m'. mergeDocument hdr m d = Inr m' \<and> merging_readable hdr m'"
proof -
  from mergeSteps_succeeds[of hdr "Mg_Steps m" "Doc_Steps d"] assms obtain t where
    t: "foldE (mergeStep hdr) (Mg_Steps m) (Doc_Steps d) = Inr t" "table_readable hdr t"
    by (auto simp: merging_readable_def doc_readable_def)
  from overall_sum.add_succeeds[of hdr "Mg_Overall m" "Doc_Overall d"] assms obtain r where
    r: "addOverall hdr (Mg_Overall m) (Doc_Overall d) = Inr r" "readable_dist hdr (O_Latency r)" "readable_dist hdr (O_ServiceLatency r)"
    by (auto simp: merging_readable_def doc_readable_def)
  from journey_sum.add_succeeds[of hdr "Mg_Journey m" "Doc_Journey d"] assms obtain j where
    j: "addJourney hdr (Mg_Journey m) (Doc_Journey d) = Inr j" "readable_dist hdr (J_Latency j)" "readable_dist hdr (J_ServiceLatency j)"
    by (auto simp: merging_readable_def doc_readable_def)
  from scheduling_sum.add_succeeds[of hdr "Mg_Scheduling m" "Doc_Scheduling d"] assms obtain s where
    s: "addScheduling hdr (Mg_Scheduling m) (Doc_Scheduling d) = Inr s" "readable_dist hdr (Sch_Skew s)"
    by (auto simp: merging_readable_def doc_readable_def)
  from t r j s show ?thesis by (simp add: mergeDocument_def merging_readable_def)
qed

lemma mergeDocuments_succeed:
  "merging_readable hdr m \<Longrightarrow> \<forall>d \<in> set ds. doc_readable hdr d \<Longrightarrow> \<exists>m'. foldE (mergeDocument hdr) m ds = Inr m'"
proof (induction ds arbitrary: m)
  case (Cons d ds)
  with mergeDocument_succeeds[of hdr m d] show ?case by force
qed simp

lemma gvalues_foldl_gput:
  "set (gvalues (fst (foldl (\<lambda>(table, order) step. (gput table (SR_Name step) step, order @ [SR_Name step])) t results)))
    \<subseteq> set (gvalues (fst t)) \<union> set results"
proof (induction results arbitrary: t)
  case (Cons s results)
  from Cons[of "(gput (fst t) (SR_Name s) s, snd t @ [SR_Name s])"] set_gvalues_gput[of "fst t" "SR_Name s" s]
  show ?case by (auto simp: case_prod_unfold)
qed simp

lemma startMerging_readable: "doc_readable hdr d \<Longrightarrow> merging_readable hdr (startMerging d)"
  using gvalues_foldl_gput[of "([], [])" "Doc_Steps d"]
  by (auto simp: merging_readable_def startMerging_def doc_readable_def table_readable_def copySteps_def gvalues_def)

text \<open>The results the tool writes can always be summed: documents of one scenario and one arrival
  model, each built from some collector, are never refused, given only that the histogram package
  reads back what it wrote.\<close>

theorem Merge_accepts_own_documents:
  assumes "hdr_roundtrip hdr" "runs \<noteq> []"
    and "\<forall>(machine, c, input) \<in> set runs. In_Spec input = spec \<and> In_Model input = model"
  shows "\<exists>merged. Merge hdr (map (\<lambda>(machine, c, input). BuildDocument hdr machine c input) runs) = Inr merged"
proof -
  obtain x xs where runs: "runs = x # xs" using assms(2) by (cases runs) auto
  let ?b = "\<lambda>(machine, c, input). BuildDocument hdr machine c input"
  have all: "\<forall>d \<in> set (map ?b runs). doc_readable hdr d \<and> Run_Spec (Doc_Run d) = spec \<and> Run_Model (Doc_Run d) = model"
    using assms(3) BuildDocument_readable[OF assms(1)] by (auto simp: BuildDocument_fields buildRun_def)
  have "first_error summable (map ?b runs) = None" "comparable_with (Doc_Run (?b x)) (map ?b xs) = None"
    using all by (auto simp: runs first_error_None comparable_with_None summable_def doc_readable_def)
  moreover obtain m where "foldE (mergeDocument hdr) (startMerging (?b x)) (map ?b xs) = Inr m"
    using mergeDocuments_succeed[OF startMerging_readable, of hdr "?b x" "map ?b xs"] all by (auto simp: runs)
  ultimately show ?thesis by (cases xs) (auto simp: Merge_def runs simp del: first_error.simps)
qed

text \<open>The sentence of a merged journey is always the one of the open loop: also for runs of the
  closed loop it says the time was counted from a scheduled instant that never existed.\<close>

theorem merged_journey_claims_schedule:
  assumes "addJourney hdr j j' = Inr merged" "J_Started j + J_Started j' \<noteq> 0"
  shows "\<exists>fmt args. J_Sentence merged = Sprintf fmt (args @ [ArgS ''counted from the instant they should have started''])"
  using assms by (auto simp: addJourney_def phraseJourney_def Let_def split: sum.splits prod.splits)

section \<open>Witnesses\<close>

definition example_collector :: "nat list Collector" where
  "example_collector = NewCollectorWithCapacity values_hdr 0 0 5"

definition example_document :: "nat list Document" where
  "example_document = BuildDocument values_hdr example_machine example_collector example_input"

lemma example_steps: "Doc_Steps example_document = []"
  by (simp add: example_document_def BuildDocument_def uncheckedDocument_def Let_def draftDocument_def dropCorrectedLatency_def
      buildSteps_def SortKeys_def example_collector_def NewCollectorWithCapacity_def sort_Strings_def)

theorem Merge_accepts_own_documents_witness:
  "\<exists>merged. Merge values_hdr (map (\<lambda>(machine, c, input). BuildDocument values_hdr machine c input)
     [(example_machine, example_collector, example_input), (example_machine, example_collector, example_input)]) = Inr merged"
  by (rule Merge_accepts_own_documents[OF values_hdr_laws(3), of _ "In_Spec example_input" "In_Model example_input"]) simp_all

theorem Merge_sums_witness:
  "\<exists>merged. Merge values_hdr [example_document, example_document] = Inr merged
     \<and> scheduling_count_of SchedSent (Doc_Scheduling merged) = 0"
proof -
  obtain merged where m: "Merge values_hdr [example_document, example_document] = Inr merged"
    using mergeDocuments_succeed[OF startMerging_readable, of values_hdr example_document "[example_document]"]
      BuildDocument_readable[OF values_hdr_laws(3), of example_machine example_collector example_input]
    by (auto simp: Merge_def example_document_def summable_def doc_readable_def)
  have ok: "\<forall>x \<in> set [example_document, example_document]. doc_ok x" by (simp add: doc_ok_def example_steps)
  have "Sch_Sent (Doc_Scheduling example_document) = 0"
    by (simp add: example_document_def BuildDocument_fields buildScheduling_def example_collector_def NewCollectorWithCapacity_def)
  with Merge_sums[OF m _ ok, of OverallTotal JourneyStarted SchedSent StepTotal "''''"] m show ?thesis by auto
qed

definition example_journey :: Journey where
  "example_journey = \<lparr>J_Started = 1, J_Completed = 1, J_Latency = zeroDistribution,
     J_ServiceLatency = distributionOf values_hdr [7], J_Sentence = Plain ''''\<rparr>"

theorem merged_journey_claims_schedule_witness:
  "\<exists>merged fmt args. addJourney values_hdr example_journey example_journey = Inr merged
     \<and> J_Sentence merged = Sprintf fmt (args @ [ArgS ''counted from the instant they should have started''])"
proof -
  have "readable_dist values_hdr (J_Latency example_journey) \<and> readable_dist values_hdr (J_ServiceLatency example_journey)"
    using readable_zero[OF values_hdr_laws(3)] readable_distributionOf[OF values_hdr_laws(3)] by (simp add: example_journey_def)
  from journey_sum.add_succeeds[OF this this] obtain merged where
    m: "addJourney values_hdr example_journey example_journey = Inr merged" by blast
  have "J_Started example_journey + J_Started example_journey \<noteq> 0" by (simp add: example_journey_def)
  from merged_journey_claims_schedule[OF m this] m show ?thesis by blast
qed

end
