(* ===== verification/Comparison.thy ===== *)
theory Comparison
  imports Result
begin

text \<open>
  Comparing two results (\<open>internal/report/comparison/comparison.go\<close>): per-metric differences with a
  noise band, the steps of both runs side by side, and the caveats that take the ground away from
  the comparison. Proved: the direction of a difference is exactly the noise band around the
  previous value, comparing a valid result with itself finds nothing to say, and the steps listed
  are the union of both runs. Also proved: the summary that stands for the load plan forgets where
  a ramp starts, so two different plans can pass as the same one.
\<close>

section \<open>Data\<close>

definition AcceptedNoise :: real where "AcceptedNoise = 5 / 100"

datatype Direction = DirectionWorse | DirectionBetter | DirectionSame

record Caveat =
  Cav_Text :: sentence
  Cav_Blocking :: bool

text \<open>\<open>Start\<close> is kept as the instant that the code formats to the minute.\<close>

record Identification =
  Id_Spec :: string
  Id_Target :: string
  Id_Start :: Time
  Id_Version :: string

record Difference =
  Diff_Metric :: string
  Diff_Before :: real
  Diff_After :: real
  Diff_Change :: real
  Diff_Direction :: Direction
  Diff_Sentence :: sentence

record StepDifference =
  SD_Step :: string
  SD_P95 :: Difference
  SD_P99 :: Difference
  SD_New :: bool
  SD_Vanished :: bool

record CountDifference =
  CD_Before :: real
  CD_After :: real
  CD_Sentence :: sentence

record Comparison =
  Cmp_Before :: Identification
  Cmp_After :: Identification
  Cmp_Sentence :: sentence
  Cmp_Comparable :: bool
  Cmp_Caveats :: "Caveat list"
  Cmp_Journey :: Difference
  Cmp_Overall :: Difference
  Cmp_JourneyPercentiles :: "(string, Difference) gomap"
  Cmp_OverallPercentiles :: "(string, Difference) gomap"
  Cmp_Steps :: "StepDifference list"
  Cmp_Error :: CountDifference

section \<open>Differences\<close>

definition identify :: "'h Document \<Rightarrow> Identification" where
  "identify d = \<lparr>Id_Spec = Run_Spec (Doc_Run d), Id_Target = Run_Target (Doc_Run d),
     Id_Start = Run_Start (Doc_Run d), Id_Version = Doc_Version d\<rparr>"

definition Magnitude :: "Difference \<Rightarrow> sentence" where
  "Magnitude difference =
    (let percent = Sprintf ''%.0f%%'' [ArgF (\<bar>Diff_Change difference\<bar> * 100)]
     in if Diff_Direction difference = DirectionSame then Plain ''no difference''
        else if Diff_Before difference \<le> 0 \<or> Diff_After difference \<le> 0 then percent
        else
          let greater = max (Diff_After difference) (Diff_Before difference);
              lesser = min (Diff_After difference) (Diff_Before difference);
              times = greater / lesser
          in if times < 2 then percent
             else if times < 10 then Sprintf ''%.1f times'' [ArgF times]
             else Sprintf ''%.0f times'' [ArgF times])"

definition phraseDifference :: "Difference \<Rightarrow> sentence" where
  "phraseDifference difference =
    (if Diff_Before difference = 0 \<and> Diff_After difference = 0
     then Sprintf ''%s: no sample in either run.'' [ArgS (Diff_Metric difference)]
     else if Diff_Direction difference = DirectionSame
     then Sprintf ''%s: %.0f ms against %.0f ms - a difference within the noise of two runs.''
       [ArgS (Diff_Metric difference), ArgF (Diff_Before difference), ArgF (Diff_After difference)]
     else Sprintf ''%s: %s %s - from %.0f ms to %.0f ms.''
       [ArgS (Diff_Metric difference), ArgM (Magnitude difference),
        ArgS (if Diff_Direction difference = DirectionBetter then ''faster'' else ''slower''),
        ArgF (Diff_Before difference), ArgF (Diff_After difference)])"

definition compareDistribution :: "string \<Rightarrow> real \<Rightarrow> real \<Rightarrow> Difference" where
  "compareDistribution name before after =
    (let change = (if before > 0 then (after - before) / before else 0);
         difference = \<lparr>Diff_Metric = name, Diff_Before = before, Diff_After = after, Diff_Change = change,
           Diff_Direction = (if \<bar>change\<bar> < AcceptedNoise then DirectionSame
                             else if change > 0 then DirectionWorse else DirectionBetter),
           Diff_Sentence = Plain ''''\<rparr>
     in difference\<lparr>Diff_Sentence := phraseDifference difference\<rparr>)"

definition percentile_pairs :: "Distribution \<Rightarrow> Distribution \<Rightarrow> (string \<times> real \<times> real) list" where
  "percentile_pairs before after =
    [(''p50'', D_P50 before, D_P50 after), (''p75'', D_P75 before, D_P75 after), (''p90'', D_P90 before, D_P90 after),
     (''p95'', D_P95 before, D_P95 after), (''p99'', D_P99 before, D_P99 after), (''p99.9'', D_P999 before, D_P999 after),
     (''max'', D_Max before, D_Max after)]"

definition comparePercentiles :: "string \<Rightarrow> Distribution \<Rightarrow> Distribution \<Rightarrow> (string, Difference) gomap" where
  "comparePercentiles name before after =
    map (\<lambda>(percentile, b, a). (percentile, compareDistribution (name @ '' ('' @ percentile @ '')'') b a))
      (percentile_pairs before after)"

section \<open>Caveats\<close>

text \<open>\<open>%.0f\<close> rounds half to even.\<close>

definition fmt_f0 :: "real \<Rightarrow> string" where
  "fmt_f0 x =
    (let low = \<lfloor>x\<rfloor>; rest = x - real_of_int low
     in fmt_d (if rest < 1 / 2 \<or> rest = 1 / 2 \<and> even low then low else low + 1))"

definition phaseSummary :: "AppliedPhase \<Rightarrow> string" where
  "phaseSummary phase = AP_Kind phase @ '' up to '' @ fmt_f0 (AP_To phase) @ ''/s for '' @ fmt_d (AP_DurationMs phase sdiv 1000) @ ''s''"

definition planSummary :: "'h Document \<Rightarrow> string" where
  "planSummary d =
    (if Run_AppliedPlan (Doc_Run d) = [] then ''sem plano declarado''
     else Join (map phaseSummary (Run_AppliedPlan (Doc_Run d))) '' + '')"

definition blocking :: "bool \<Rightarrow> sentence \<Rightarrow> Caveat list" where
  "blocking holds text = (if holds then [\<lparr>Cav_Text = text, Cav_Blocking = True\<rparr>] else [])"

definition collectCaveats :: "'h Document \<Rightarrow> 'h Document \<Rightarrow> Caveat list" where
  "collectCaveats before after =
    (let b = Doc_Run before; a = Doc_Run after; be = Doc_Environment before; ae = Doc_Environment after
     in blocking (Run_Spec b \<noteq> Run_Spec a)
          (Sprintf ''the scenarios are different: %q and %q'' [ArgS (Run_Spec b), ArgS (Run_Spec a)])
      @ blocking (Run_Target b \<noteq> Run_Target a)
          (Sprintf ''the targets are different: %s and %s'' [ArgS (Run_Target b), ArgS (Run_Target a)])
      @ blocking (Env_Host be \<noteq> Env_Host ae \<or> Env_Cores be \<noteq> Env_Cores ae)
          (Sprintf ''the generating machines are different: %s with %d cores and %s with %d cores''
            [ArgS (Env_Host be), ArgD (Env_Cores be), ArgS (Env_Host ae), ArgD (Env_Cores ae)])
      @ blocking (planSummary before \<noteq> planSummary after)
          (Sprintf ''the load plans are different: %s and %s'' [ArgS (planSummary before), ArgS (planSummary after)])
      @ blocking (Doc_Version before \<noteq> Doc_Version after)
          (Sprintf ''the runs used different versions of braunrate: %s and %s'' [ArgS (Doc_Version before), ArgS (Doc_Version after)])
      @ blocking (Run_Model b \<noteq> Run_Model a)
          (Sprintf ''the arrival models are different: %s and %s. Closed-loop latency does not compare with latency counted from the scheduled instant - the second includes a delay the first never gets to record''
            [ArgS (Run_Model b), ArgS (Run_Model a)])
      @ blocking (\<not> Valid before) (Plain ''the previous run has an invalid result and its number does not work as a baseline'')
      @ blocking (\<not> Valid after) (Plain ''the new run has an invalid result and its number does not work as a comparison'')
      @ (if Run_AuthObtains b > 0 \<or> Run_AuthObtains a > 0 then
           [\<lparr>Cav_Text = Plain ''both runs used one token for everything; caching or sharding by identity affects them the same way, but it does not disappear from the comparison'',
             Cav_Blocking = False\<rparr>] else []))"

section \<open>Steps and errors\<close>

definition byName :: "StepResult list \<Rightarrow> (string, StepResult) gomap" where
  "byName results = foldl (\<lambda>table step. gput table (SR_Name step) step) [] results"

text \<open>A step absent from one side reads the zero \<open>StepResult\<close>, whose distribution is zero.\<close>

definition reportedOf :: "StepResult option \<Rightarrow> Distribution" where
  "reportedOf found = (case found of None \<Rightarrow> zeroDistribution | Some step \<Rightarrow> Step_Reported step)"

definition compareSteps :: "'h Document \<Rightarrow> 'h Document \<Rightarrow> StepDifference list" where
  "compareSteps before after =
    (let old = byName (Doc_Steps before); new = byName (Doc_Steps after);
         names = sort_Strings (remdups (gkeys old @ gkeys new))
     in map (\<lambda>name. \<lparr>SD_Step = name,
          SD_P95 = compareDistribution (name @ '' (95%)'') (D_P95 (reportedOf (gget old name))) (D_P95 (reportedOf (gget new name))),
          SD_P99 = compareDistribution (name @ '' (99%)'') (D_P99 (reportedOf (gget old name))) (D_P99 (reportedOf (gget new name))),
          SD_New = (gget old name = None), SD_Vanished = (gget new name = None)\<rparr>) names)"

definition compareErrors :: "'h Document \<Rightarrow> 'h Document \<Rightarrow> CountDifference" where
  "compareErrors before after =
    (let b = O_ErrorRate (Doc_Overall before) * 100; a = O_ErrorRate (Doc_Overall after) * 100
     in \<lparr>CD_Before = b, CD_After = a,
          CD_Sentence = (if b = 0 \<and> a = 0 then Plain ''Neither run had errors.''
            else if a > b then Sprintf ''The error rate went up from %.2f%% to %.2f%%.'' [ArgF b, ArgF a]
            else if a < b then Sprintf ''The error rate went down from %.2f%% to %.2f%%.'' [ArgF b, ArgF a]
            else Sprintf ''The error rate stayed at %.2f%% in both.'' [ArgF b])\<rparr>)"

section \<open>The comparison\<close>

definition firstFinding :: "'h Document \<Rightarrow> sentence" where
  "firstFinding d =
    (case San_Findings (Doc_Sanity d) of finding # _ \<Rightarrow> F_Message finding
     | [] \<Rightarrow> (case filter (\<lambda>warning. W_Severity warning = SeverityHigh) (Doc_Warnings d) of
         warning # _ \<Rightarrow> W_Message warning
       | [] \<Rightarrow> Plain ''has an invalid result''))"

definition invalidPhrase :: "'h Document \<Rightarrow> 'h Document \<Rightarrow> sentence" where
  "invalidPhrase before after =
    Sprintf ''There is nothing to compare, because one of the runs does not hold as a measurement: %s.''
      ((if \<not> Valid before then [ArgS ''the previous one '', ArgM (firstFinding before)] else [])
       @ (if \<not> Valid after then [ArgS ''the new one '', ArgM (firstFinding after)] else []))"

definition comparison_phrase :: "Comparison \<Rightarrow> 'h Document \<Rightarrow> 'h Document \<Rightarrow> sentence" where
  "comparison_phrase compared before after =
    (if \<not> Cmp_Comparable compared then invalidPhrase before after
     else
       let main = (if J_Started (Doc_Journey before) = 0 \<or> J_Started (Doc_Journey after) = 0
                   then Cmp_Overall compared else Cmp_Journey compared);
           prefix = (case Diff_Direction main of DirectionWorse \<Rightarrow> ''It got slower''
             | DirectionBetter \<Rightarrow> ''It got faster'' | DirectionSame \<Rightarrow> ''No change worth reading'');
           count = int (length (filter Cav_Blocking (Cmp_Caveats compared)))
       in Sprintf ''%s: %s''
         ([ArgS prefix, ArgM (Diff_Sentence main)]
          @ (if CD_After (Cmp_Error compared) \<noteq> CD_Before (Cmp_Error compared) then [ArgM (CD_Sentence (Cmp_Error compared))] else [])
          @ (if count > 0 then
               [ArgM (Sprintf '' With %s that could explain the difference on %s own.''
                 [ArgS (Text.Count count ''caveat'' ''caveats''), ArgS (Pick count ''its'' ''their'')])]
             else if Cmp_Caveats compared \<noteq> [] then
               [ArgM (Sprintf '' With %s about what changed outside the service.''
                 [ArgS (Text.Count (int (length (Cmp_Caveats compared))) ''caveat'' ''caveats'')])]
             else [])))"

definition Compare :: "'h Document \<Rightarrow> 'h Document \<Rightarrow> Comparison" where
  "Compare before after =
    (let bj = Journey_Reported (Doc_Journey before); aj = Journey_Reported (Doc_Journey after);
         bo = Overall_Reported (Doc_Overall before); ao = Overall_Reported (Doc_Overall after);
         compared = \<lparr>Cmp_Before = identify before, Cmp_After = identify after, Cmp_Sentence = Plain '''',
           Cmp_Comparable = (Valid before \<and> Valid after), Cmp_Caveats = collectCaveats before after,
           Cmp_Journey = compareDistribution ''the whole journey (95%)'' (D_P95 bj) (D_P95 aj),
           Cmp_Overall = compareDistribution ''all requests (95%)'' (D_P95 bo) (D_P95 ao),
           Cmp_JourneyPercentiles = comparePercentiles ''the whole journey'' bj aj,
           Cmp_OverallPercentiles = comparePercentiles ''all requests'' bo ao,
           Cmp_Steps = compareSteps before after, Cmp_Error = compareErrors before after\<rparr>
     in compared\<lparr>Cmp_Sentence := comparison_phrase compared before after\<rparr>)"

section \<open>Lemmas\<close>

lemma compareDistribution_fields [simp]:
  "Diff_Before (compareDistribution n b a) = b" "Diff_After (compareDistribution n b a) = a"
  "Diff_Change (compareDistribution n b a) = (if b > 0 then (a - b) / b else 0)"
  by (simp_all add: compareDistribution_def Let_def)

lemma compareDistribution_direction_raw:
  "Diff_Direction (compareDistribution n b a) =
    (let change = (if b > 0 then (a - b) / b else 0)
     in if \<bar>change\<bar> < AcceptedNoise then DirectionSame else if change > 0 then DirectionWorse else DirectionBetter)"
  by (simp add: compareDistribution_def Let_def)

lemma compareDistribution_self [simp]: "Diff_Direction (compareDistribution n b b) = DirectionSame"
  by (simp add: compareDistribution_direction_raw AcceptedNoise_def)

lemma comparePercentiles_self:
  "(p, diff) \<in> set (comparePercentiles n d d) \<Longrightarrow> Diff_Direction diff = DirectionSame"
  by (auto simp: comparePercentiles_def percentile_pairs_def)

lemma no_blocking [simp]: "(\<forall>caveat \<in> set (blocking holds text). \<not> Cav_Blocking caveat) \<longleftrightarrow> \<not> holds"
  by (simp add: blocking_def)

lemma collectCaveats_trusted_iff:
  "(\<forall>caveat \<in> set (collectCaveats before after). \<not> Cav_Blocking caveat) \<longleftrightarrow>
    Run_Spec (Doc_Run before) = Run_Spec (Doc_Run after) \<and> Run_Target (Doc_Run before) = Run_Target (Doc_Run after)
    \<and> Env_Host (Doc_Environment before) = Env_Host (Doc_Environment after)
    \<and> Env_Cores (Doc_Environment before) = Env_Cores (Doc_Environment after)
    \<and> planSummary before = planSummary after \<and> Doc_Version before = Doc_Version after
    \<and> Run_Model (Doc_Run before) = Run_Model (Doc_Run after) \<and> Valid before \<and> Valid after"
proof -
  have last: "(\<forall>caveat \<in> set (if h then [\<lparr>Cav_Text = msg, Cav_Blocking = False\<rparr>] else []). \<not> Cav_Blocking caveat)"
    for h msg by simp
  show ?thesis
    unfolding collectCaveats_def Let_def set_append ball_Un no_blocking eq_True[THEN iffD2, OF last] by blast
qed

lemma foldl_byName_keys:
  "gmap_ok m \<Longrightarrow> gmap_ok (foldl (\<lambda>table step. gput table (SR_Name step) step) m results)
    \<and> set (gkeys (foldl (\<lambda>table step. gput table (SR_Name step) step) m results)) = set (gkeys m) \<union> SR_Name ` set results"
  by (induction results arbitrary: m) auto

lemma byName_keys [simp]: "set (gkeys (byName results)) = SR_Name ` set results"
  using foldl_byName_keys[of "[]" results] by (simp add: byName_def)

lemma byName_None: "gget (byName results) name = None \<longleftrightarrow> name \<notin> SR_Name ` set results"
  by (simp add: gget_None_iff)

section \<open>Properties\<close>

text \<open>The direction of a difference is the noise band and nothing else: worse when the new value is
  at least five percent above a positive previous value, better when at least five percent below,
  and otherwise not read as a change. A previous value of zero never shows a regression.\<close>

theorem compareDistribution_direction:
  "Diff_Direction (compareDistribution name before after) =
    (if before > 0 \<and> 105 * before \<le> 100 * after then DirectionWorse
     else if before > 0 \<and> 100 * after \<le> 95 * before then DirectionBetter
     else DirectionSame)"
proof (cases "before > 0")
  case True
  then have "AcceptedNoise \<le> (after - before) / before \<longleftrightarrow> 105 * before \<le> 100 * after"
    "(after - before) / before \<le> - AcceptedNoise \<longleftrightarrow> 100 * after \<le> 95 * before"
    by (simp_all add: AcceptedNoise_def field_simps)
  moreover have "0 < AcceptedNoise" by (simp add: AcceptedNoise_def)
  ultimately show ?thesis using True by (auto simp: compareDistribution_direction_raw Let_def abs_if)
qed (simp add: compareDistribution_direction_raw AcceptedNoise_def)

text \<open>A valid result compared with itself stands as a comparison, has no blocking caveat, and shows
  no change in any percentile, in any step or in the error rate, and no step as new or gone.\<close>

theorem Compare_self:
  assumes "Valid d"
  shows "Cmp_Comparable (Compare d d) \<and> (\<forall>caveat \<in> set (Cmp_Caveats (Compare d d)). \<not> Cav_Blocking caveat)
    \<and> Diff_Direction (Cmp_Journey (Compare d d)) = DirectionSame \<and> Diff_Direction (Cmp_Overall (Compare d d)) = DirectionSame
    \<and> (\<forall>(p, diff) \<in> set (Cmp_JourneyPercentiles (Compare d d)). Diff_Direction diff = DirectionSame)
    \<and> (\<forall>(p, diff) \<in> set (Cmp_OverallPercentiles (Compare d d)). Diff_Direction diff = DirectionSame)
    \<and> (\<forall>step \<in> set (Cmp_Steps (Compare d d)). \<not> SD_New step \<and> \<not> SD_Vanished step
         \<and> Diff_Direction (SD_P95 step) = DirectionSame \<and> Diff_Direction (SD_P99 step) = DirectionSame)
    \<and> CD_After (Cmp_Error (Compare d d)) = CD_Before (Cmp_Error (Compare d d))"
proof -
  have "\<forall>caveat \<in> set (collectCaveats d d). \<not> Cav_Blocking caveat"
    using assms by (simp add: collectCaveats_trusted_iff)
  moreover have "\<forall>step \<in> set (compareSteps d d). \<not> SD_New step \<and> \<not> SD_Vanished step
      \<and> Diff_Direction (SD_P95 step) = DirectionSame \<and> Diff_Direction (SD_P99 step) = DirectionSame"
    by (auto simp: compareSteps_def Let_def byName_None)
  moreover have "\<forall>(p, diff) \<in> set (comparePercentiles n x x). Diff_Direction diff = DirectionSame" for n x
    using comparePercentiles_self by fast
  ultimately show ?thesis using assms by (simp add: Compare_def Let_def compareErrors_def)
qed

text \<open>The comparison of steps lists the steps of both runs, each once and in order, and marks as new
  exactly those the previous run did not have and as gone exactly those the new run does not have.\<close>

theorem compareSteps_union:
  "sorted_wrt (<) (map SD_Step (compareSteps before after))
   \<and> set (map SD_Step (compareSteps before after)) = SR_Name ` set (Doc_Steps before) \<union> SR_Name ` set (Doc_Steps after)
   \<and> (\<forall>step \<in> set (compareSteps before after).
        (SD_New step \<longleftrightarrow> SD_Step step \<notin> SR_Name ` set (Doc_Steps before)) \<and>
        (SD_Vanished step \<longleftrightarrow> SD_Step step \<notin> SR_Name ` set (Doc_Steps after)))"
proof -
  let ?names = "sort_Strings (remdups (gkeys (byName (Doc_Steps before)) @ gkeys (byName (Doc_Steps after))))"
  have "map SD_Step (compareSteps before after) = ?names"
    by (simp add: compareSteps_def Let_def comp_def)
  moreover have "sorted_wrt (<) ?names" by (simp add: strict_sorted_iff sort_Strings_def)
  ultimately show ?thesis by (auto simp: compareSteps_def Let_def byName_None)
qed

text \<open>The summary that decides whether two runs applied the same load leaves out where a phase
  starts: a ramp from zero and a ramp from almost the final rate are taken for the same plan, and
  no caveat is raised for it.\<close>

theorem planSummary_forgets_ramp_start:
  "planSummary (d\<lparr>Doc_Run := (Doc_Run d)\<lparr>Run_AppliedPlan := [\<lparr>AP_Kind = ''ramp'', AP_From = from, AP_To = to, AP_DurationMs = ms\<rparr>]\<rparr>\<rparr>)
   = planSummary (d\<lparr>Doc_Run := (Doc_Run d)\<lparr>Run_AppliedPlan := [\<lparr>AP_Kind = ''ramp'', AP_From = from', AP_To = to, AP_DurationMs = ms\<rparr>]\<rparr>\<rparr>)"
  by (simp add: planSummary_def phaseSummary_def)

lemma comparison_witness_valid: "Valid (draftDocument values_hdr example_machine (NewCollectorWithCapacity values_hdr 0 0 5) example_input)"
  by (simp add: Valid_def draftDocument_def zeroSanity_def)

theorem Compare_self_witness:
  "Cmp_Comparable (Compare (draftDocument values_hdr example_machine (NewCollectorWithCapacity values_hdr 0 0 5) example_input)
     (draftDocument values_hdr example_machine (NewCollectorWithCapacity values_hdr 0 0 5) example_input))"
  using Compare_self[OF comparison_witness_valid] by blast

theorem compareSteps_union_witness:
  "sorted_wrt (<) (map SD_Step (compareSteps
     (draftDocument values_hdr example_machine (NewCollectorWithCapacity values_hdr 0 0 5) example_input)
     (draftDocument values_hdr example_machine (NewCollectorWithCapacity values_hdr 0 0 5) example_input)))"
  using compareSteps_union by blast

end
