(* ===== verification/Slo.thy ===== *)
theory Slo
  imports Comparison
begin

text \<open>
  The objectives of a run (\<open>internal/slo/slo.go\<close>): each rule read against the document, regression
  rules against a baseline, and the verdict. Proved: the verdict passes exactly when every rule
  passes, a rule on a step that never ran or over a sample made mostly of failures never approves,
  a regression rule fails only on a difference the comparison trusts and reads as worse, and the
  criteria nobody declared are always reported. Also proved: in the closed loop a latency rule on a
  step is compared with zero, whatever was measured.
\<close>

section \<open>Reading a rule\<close>

record Baseline =
  Base_Comparison :: Comparison
  Base_Path :: string

definition targetName :: "SLORule \<Rightarrow> string" where
  "targetName rule =
    (case Rule_Scope rule of ScopeOverall \<Rightarrow> ''global'' | ScopeJourney \<Rightarrow> ''journey''
     | ScopeRegression \<Rightarrow> ''regression'' | ScopeStep \<Rightarrow> Rule_Step rule)"

definition CutPrefix :: "string \<Rightarrow> string \<Rightarrow> string option" where
  "CutPrefix s prefix = (if HasPrefix s prefix then Some (TrimPrefix s prefix) else None)"

definition splitRegressionMetric :: "string \<Rightarrow> (string \<times> string) option" where
  "splitRegressionMetric metric =
    (case List.map_filter (\<lambda>prefix. case CutPrefix metric prefix of
         Some rest \<Rightarrow> if rest \<noteq> '''' then Some (prefix, ToLower rest) else None
       | None \<Rightarrow> None) [''journey'', ''global''] of
       [] \<Rightarrow> None | found # _ \<Rightarrow> Some found)"

definition share :: "string \<Rightarrow> string" where
  "share percentile =
    (let trimmed = TrimPrefix percentile ''p'' in if trimmed \<noteq> percentile then trimmed @ ''%'' else percentile)"

definition readableName :: "string \<Rightarrow> string" where
  "readableName metric =
    (if metric = ''errors'' then ''the error rate''
     else if metric = ''success'' then ''the success rate''
     else if metric = ''throughput'' then ''the effective rate''
     else if metric = ''max'' then ''the worst response time''
     else case splitRegressionMetric metric of
       Some (prefix, percentile) \<Rightarrow>
         if prefix = ''journey'' then ''the response time of '' @ share percentile @ '' of the journeys''
         else ''the response time of '' @ share percentile @ '' of the responses''
     | None \<Rightarrow> ''the response time of '' @ share metric @ '' of the responses'')"

definition compare :: "real \<Rightarrow> Operator \<Rightarrow> real \<Rightarrow> bool" where
  "compare obtained operator limit =
    (case operator of OpLess \<Rightarrow> obtained < limit | OpLessOrEqual \<Rightarrow> obtained \<le> limit
     | OpGreater \<Rightarrow> obtained > limit | OpGreaterOrEqual \<Rightarrow> obtained \<ge> limit
     | OpNotEqual \<Rightarrow> obtained \<noteq> limit | _ \<Rightarrow> obtained = limit)"

section \<open>Sentences\<close>

definition format :: "real \<Rightarrow> string \<Rightarrow> sentence" where
  "format value unit =
    (if unit = ''ms'' then Sprintf ''%.0f ms'' [ArgF value]
     else if unit = ''%'' then Sprintf ''%.2f%%'' [ArgF value]
     else if unit = ''/s'' then Sprintf ''%.0f/s'' [ArgF value]
     else if unit = ''% worse'' then Sprintf ''%.0f%% worse'' [ArgF value]
     else Sprintf ''%.2f'' [ArgF value])"

definition changeText :: "real \<Rightarrow> sentence" where
  "changeText percentage =
    (if percentage = 0 then Plain ''the same or better'' else Sprintf ''%.1f%% worse'' [ArgF percentage])"

definition observedPhrase :: "Evaluation \<Rightarrow> sentence" where
  "observedPhrase evaluation =
    (let value = format (Ev_Obtained evaluation) (Ev_Unit evaluation)
     in if Ev_Unit evaluation = ''ms'' \<and> HasPrefix (Ev_Metric evaluation) ''p''
        then Sprintf ''answered %s within %s'' [ArgS (share (Ev_Metric evaluation)), ArgM value]
        else Sprintf ''had %s of %s'' [ArgS (readableName (Ev_Metric evaluation)), ArgM value])"

definition phraseEvaluation :: "Evaluation \<Rightarrow> SLORule \<Rightarrow> sentence" where
  "phraseEvaluation evaluation rule =
    (let target = (case Rule_Scope rule of ScopeOverall \<Rightarrow> Plain ''the whole scenario''
           | ScopeJourney \<Rightarrow> Plain ''the whole journey'' | _ \<Rightarrow> Sprintf ''%q'' [ArgS (Ev_Step evaluation)]);
         minimum = (Rule_Operator rule = OpGreater \<or> Rule_Operator rule = OpGreaterOrEqual);
         limit = format (Ev_Limit evaluation) (Ev_Unit evaluation)
     in if Ev_Passed evaluation
        then Sprintf ''Passed: %s %s, %s %s.'' [ArgM target, ArgM (observedPhrase evaluation),
          ArgS (if minimum then ''at the minimum of'' else ''within the limit of''), ArgM limit]
        else Sprintf ''Failed: %s %s, %s %s.'' [ArgM target, ArgM (observedPhrase evaluation),
          ArgS (if minimum then ''below the minimum of'' else ''above the limit of''), ArgM limit])"

definition baseName :: "string \<Rightarrow> string" where
  "baseName path = (if TrimSpace path = '''' then ''the baseline'' else path)"

definition phraseRegression :: "Evaluation \<Rightarrow> SLORule \<Rightarrow> Difference \<Rightarrow> string \<Rightarrow> sentence" where
  "phraseRegression evaluation rule difference base =
    Sprintf ''%s: %s came out %s than %s, %s the limit of %s (from %.0f ms to %.0f ms).''
      [ArgS (if Ev_Passed evaluation then ''Passed'' else ''Failed''), ArgS (readableName (Rule_Metric rule)),
       ArgM (changeText (Ev_Obtained evaluation)), ArgS (baseName base),
       ArgS (if Ev_Passed evaluation then ''within'' else ''above''), ArgM (format (Rule_Limit rule) (Rule_Unit rule)),
       ArgF (Diff_Before difference), ArgF (Diff_After difference)]"

section \<open>Regression rules\<close>

definition differenceOf :: "Comparison \<Rightarrow> string \<Rightarrow> Difference option" where
  "differenceOf compared metric =
    (case splitRegressionMetric metric of None \<Rightarrow> None
     | Some (prefix, percentile) \<Rightarrow>
         if prefix = ''journey'' then gget (Cmp_JourneyPercentiles compared) percentile
         else if prefix = ''global'' then gget (Cmp_OverallPercentiles compared) percentile
         else None)"

definition worsePercentage :: "Difference \<Rightarrow> real" where
  "worsePercentage difference =
    (if Diff_Direction difference \<noteq> DirectionWorse then 0 else Diff_Change difference * 100)"

definition blockingCaveats :: "Comparison \<Rightarrow> sentence list" where
  "blockingCaveats compared = map Cav_Text (filter Cav_Blocking (Cmp_Caveats compared))"

definition evaluateRegression :: "SLORule \<Rightarrow> Evaluation \<Rightarrow> Baseline option \<Rightarrow> Evaluation" where
  "evaluateRegression rule evaluation baseline =
    (case baseline of
       None \<Rightarrow> evaluation\<lparr>Ev_NoData := True, Ev_Passed := True,
         Ev_Sentence := Sprintf ''No baseline: the rule %q needs a previous run. Run with -baseline=previous-run.json.'' [ArgS (Rule_Text rule)]\<rparr>
     | Some base \<Rightarrow>
       (case differenceOf (Base_Comparison base) (Rule_Metric rule) of
          None \<Rightarrow> evaluation\<lparr>Ev_NoData := True, Ev_Passed := True,
            Ev_Sentence := Sprintf ''No baseline: %q does not exist in both runs, so the rule %q cannot be checked.''
              [ArgS (Rule_Metric rule), ArgS (Rule_Text rule)]\<rparr>
        | Some difference \<Rightarrow>
            let evaluation = evaluation\<lparr>Ev_Obtained := worsePercentage difference,
                  Ev_Passed := compare (worsePercentage difference) (Rule_Operator rule) (Rule_Limit rule)\<rparr>
            in if blockingCaveats (Base_Comparison base) \<noteq> [] then
                 evaluation\<lparr>Ev_Untrustworthy := True, Ev_Passed := True,
                   Ev_Sentence := Sprintf ''No verdict: %s is %s than the baseline, but the comparison with %s is not trustworthy (%s), so the rule %q does not fail the build.''
                     ([ArgS (readableName (Rule_Metric rule)), ArgM (changeText (Ev_Obtained evaluation)), ArgS (Base_Path base)]
                      @ map ArgM (blockingCaveats (Base_Comparison base)) @ [ArgS (Rule_Text rule)])\<rparr>
               else if Diff_Direction difference = DirectionSame then
                 evaluation\<lparr>Ev_Passed := True,
                   Ev_Sentence := Sprintf ''Passed: %s stayed within the noise against the baseline (a change below %.0f%% is not read as a regression).''
                     [ArgS (readableName (Rule_Metric rule)), ArgF (AcceptedNoise * 100)]\<rparr>
               else evaluation\<lparr>Ev_Sentence := phraseRegression evaluation rule difference (Base_Path base)\<rparr>))"

section \<open>Absolute rules\<close>

definition latencyMetrics :: "string list" where
  "latencyMetrics = [''p50'', ''p75'', ''p90'', ''p95'', ''p99'', ''p99.9'', ''max'']"

definition refuseLatencyOverFailures :: "SLORule \<Rightarrow> Evaluation \<Rightarrow> int \<Rightarrow> int \<Rightarrow> Evaluation \<times> bool" where
  "refuseLatencyOverFailures rule evaluation sampled worked =
    (if Rule_Metric rule \<notin> set latencyMetrics then (evaluation, False)
     else if sampled \<le> 0 \<or> worked * 2 \<ge> sampled then (evaluation, False)
     else (evaluation\<lparr>Ev_NoData := True, Ev_Passed := False,
       Ev_Sentence := Sprintf ''Not evaluated: %s failed %.0f%% of the time, so %s above is mostly the time to fail, not the time to do the work. The rule %q cannot be checked over this sample, and with no check the gate does not approve.''
         [ArgS (targetName rule), ArgF (real_of_int (sampled - worked) / real_of_int sampled * 100),
          ArgS (readableName (Rule_Metric rule)), ArgS (Rule_Text rule)]\<rparr>, True))"

definition obtainedOf :: "string \<Rightarrow> Distribution \<Rightarrow> int \<Rightarrow> int \<Rightarrow> int \<Rightarrow> real \<Rightarrow> real" where
  "obtainedOf metric distribution requests errors successes effectiveRate =
    (if metric = ''p50'' then D_P50 distribution
     else if metric = ''p75'' then D_P75 distribution
     else if metric = ''p90'' then D_P90 distribution
     else if metric = ''p95'' then D_P95 distribution
     else if metric = ''p99'' then D_P99 distribution
     else if metric = ''p99.9'' then D_P999 distribution
     else if metric = ''max'' then D_Max distribution
     else if metric = ''errors'' then (if requests > 0 then real_of_int errors / real_of_int requests * 100 else 0)
     else if metric = ''success'' then (if requests > 0 then real_of_int successes / real_of_int requests * 100 else 0)
     else if metric = ''throughput'' then effectiveRate
     else 0)"

text \<open>What a rule measures: the distribution, the counts, and how much of the sample worked. \<open>None\<close> is a
  step that is not in the document.\<close>

record measured =
  Ms_Distribution :: Distribution
  Ms_Count :: int
  Ms_Errors :: int
  Ms_Successes :: int
  Ms_Sampled :: int
  Ms_Worked :: int

definition measuredBy :: "SLORule \<Rightarrow> 'h Document \<Rightarrow> (string, StepResult) gomap \<Rightarrow> measured option" where
  "measuredBy rule d byStep =
    (case Rule_Scope rule of
       ScopeOverall \<Rightarrow>
         let o' = Doc_Overall d
         in Some \<lparr>Ms_Distribution = Overall_Reported o', Ms_Count = O_Count o', Ms_Errors = O_Errors o',
              Ms_Successes = O_Successes o', Ms_Sampled = O_Count o', Ms_Worked = O_Count o' - O_Errors o'\<rparr>
     | ScopeJourney \<Rightarrow>
         let j = Doc_Journey d
         in Some \<lparr>Ms_Distribution = Journey_Reported j, Ms_Count = J_Completed j, Ms_Errors = 0, Ms_Successes = 0,
              Ms_Sampled = J_Started j, Ms_Worked = J_Completed j\<rparr>
     | _ \<Rightarrow> (case gget byStep (Rule_Step rule) of None \<Rightarrow> None
         | Some step \<Rightarrow> Some \<lparr>Ms_Distribution = SR_Latency step, Ms_Count = SR_Count step, Ms_Errors = SR_Errors step,
              Ms_Successes = SR_Successes step, Ms_Sampled = SR_Count step, Ms_Worked = SR_Count step - SR_Errors step\<rparr>))"

definition evaluateRule :: "SLORule \<Rightarrow> 'h Document \<Rightarrow> (string, StepResult) gomap \<Rightarrow> Baseline option \<Rightarrow> Evaluation" where
  "evaluateRule rule d byStep baseline =
    (let evaluation = \<lparr>Ev_Step = targetName rule, Ev_Metric = Rule_Metric rule, Ev_Rule = Rule_Text rule, Ev_Obtained = 0,
           Ev_Limit = Rule_Limit rule, Ev_Unit = Rule_Unit rule, Ev_Passed = False, Ev_Sentence = Plain '''',
           Ev_NoData = False, Ev_Untrustworthy = False\<rparr>
     in if Rule_Scope rule = ScopeRegression then evaluateRegression rule evaluation baseline
        else case measuredBy rule d byStep of
          None \<Rightarrow> evaluation\<lparr>Ev_NoData := True, Ev_Passed := False,
            Ev_Sentence := Sprintf ''No data: the step %q produced no requests, so the rule %q cannot be checked.''
              [ArgS (Rule_Step rule), ArgS (Rule_Text rule)]\<rparr>
        | Some m \<Rightarrow>
            (case refuseLatencyOverFailures rule evaluation (Ms_Sampled m) (Ms_Worked m) of
               (refusal, True) \<Rightarrow> refusal
             | (_, False) \<Rightarrow>
                 let obtained = obtainedOf (Rule_Metric rule) (Ms_Distribution m) (Ms_Count m) (Ms_Errors m)
                       (Ms_Successes m) (O_EffectiveRate (Doc_Overall d));
                     evaluation = evaluation\<lparr>Ev_Obtained := obtained,
                       Ev_Passed := compare obtained (Rule_Operator rule) (Rule_Limit rule)\<rparr>
                 in evaluation\<lparr>Ev_Sentence := phraseEvaluation evaluation rule\<rparr>))"

section \<open>The verdict\<close>

definition shortList :: "string list \<Rightarrow> sentence" where
  "shortList names =
    (if length names \<le> 3 then Plain (Join names '', '')
     else Sprintf ''%s and %d more'' [ArgS (Join (take 3 names) '', ''), ArgD (int (length names - 3))])"

definition stepsWithoutRule :: "'h Document \<Rightarrow> string list \<Rightarrow> sentence option" where
  "stepsWithoutRule d declaredStep =
    (let without = filter (\<lambda>name. name \<notin> set declaredStep) (map SR_Name (Doc_Steps d))
     in if without = [] then None
        else Some (Sprintf ''steps with no criterion declared (%d of %d): %s''
          [ArgD (int (length without)), ArgD (int (length (Doc_Steps d))), ArgM (shortList without)]))"

definition undeclared :: "SLORule list \<Rightarrow> 'h Document \<Rightarrow> Baseline option \<Rightarrow> sentence list" where
  "undeclared rules d baseline =
    (if rules = [] then [Plain ''no criterion declared - the scenario runs and reports, but does not work as a gate'']
     else
       let declared = map Rule_Scope rules;
           declaredStep = map Rule_Step (filter (\<lambda>rule. Rule_Scope rule = ScopeStep) rules)
       in (if ScopeJourney \<notin> set declared \<and> J_Started (Doc_Journey d) > 0 \<and> length (Doc_Steps d) > 1
           then [Plain ''journey: no criterion declared - the gate measures isolated steps and leaves out the wait the user feels''] else [])
        @ (if ScopeOverall \<notin> set declared
           then [Plain ''global: no criterion declared - error rate, success rate and effective rate stay out of the gate''] else [])
        @ (case stepsWithoutRule d declaredStep of None \<Rightarrow> [] | Some line \<Rightarrow> [line])
        @ (if ScopeRegression \<notin> set declared
           then [Plain ''regression: no criterion declared - the gate approves without comparing against the previous run'']
           else if baseline = None then [Plain ''regression: declared, but no baseline was passed in -baseline''] else []))"

definition verdict_phrase :: "Verdict \<Rightarrow> sentence" where
  "verdict_phrase verdict =
    (if Ver_Evaluations verdict = [] then Plain ''No SLO declared: nothing was checked.''
     else
       let failures = map Ev_Sentence (filter (\<lambda>evaluation. \<not> Ev_Passed evaluation) (Ver_Evaluations verdict))
       in if failures = [] then
            (if length (Ver_Evaluations verdict) = 1 then Plain ''Passed: the single SLO rule was met.''
             else Sprintf ''Passed: all %d SLO rules were met.'' [ArgD (int (length (Ver_Evaluations verdict)))])
          else Sprintf ''%s'' (map ArgM failures))"

definition Evaluate :: "SLORule list \<Rightarrow> 'h Document \<Rightarrow> Baseline option \<Rightarrow> Verdict" where
  "Evaluate rules d baseline =
    (let evaluations = map (\<lambda>rule. evaluateRule rule d (byName (Doc_Steps d)) baseline) rules;
         verdict = \<lparr>Ver_Passed = (\<forall>evaluation \<in> set evaluations. Ev_Passed evaluation),
           Ver_Evaluations = evaluations, Ver_Undeclared = undeclared rules d baseline, Ver_Sentence = Plain ''''\<rparr>
     in verdict\<lparr>Ver_Sentence := verdict_phrase verdict\<rparr>)"

section \<open>What a met rule means\<close>

text \<open>The specification of a gate, without its sentences: an absolute rule is met when the value it names
  satisfies the comparison over a sample that is not mostly failures, a regression rule unless a
  trusted comparison shows a change beyond the noise that breaks the limit.\<close>

definition regression_met :: "SLORule \<Rightarrow> Baseline option \<Rightarrow> bool" where
  "regression_met rule baseline \<longleftrightarrow>
    (\<forall>base difference. baseline = Some base \<and> differenceOf (Base_Comparison base) (Rule_Metric rule) = Some difference
       \<and> (\<forall>caveat \<in> set (Cmp_Caveats (Base_Comparison base)). \<not> Cav_Blocking caveat)
       \<and> Diff_Direction difference \<noteq> DirectionSame
     \<longrightarrow> compare (worsePercentage difference) (Rule_Operator rule) (Rule_Limit rule))"

definition absolute_met :: "SLORule \<Rightarrow> 'h Document \<Rightarrow> bool" where
  "absolute_met rule d \<longleftrightarrow>
    (\<exists>m. measuredBy rule d (byName (Doc_Steps d)) = Some m
       \<and> (Rule_Metric rule \<in> set latencyMetrics \<longrightarrow> Ms_Sampled m \<le> 2 * Ms_Worked m \<or> Ms_Sampled m \<le> 0)
       \<and> compare (obtainedOf (Rule_Metric rule) (Ms_Distribution m) (Ms_Count m) (Ms_Errors m) (Ms_Successes m)
            (O_EffectiveRate (Doc_Overall d))) (Rule_Operator rule) (Rule_Limit rule))"

definition rule_met :: "SLORule \<Rightarrow> 'h Document \<Rightarrow> Baseline option \<Rightarrow> bool" where
  "rule_met rule d baseline \<longleftrightarrow>
    (if Rule_Scope rule = ScopeRegression then regression_met rule baseline else absolute_met rule d)"

lemma blockingCaveats_empty: "blockingCaveats c = [] \<longleftrightarrow> (\<forall>caveat \<in> set (Cmp_Caveats c). \<not> Cav_Blocking caveat)"
  by (auto simp: blockingCaveats_def filter_empty_conv)

lemma evaluateRegression_passes_iff: "Ev_Passed (evaluateRegression rule evaluation baseline) = regression_met rule baseline"
  by (auto simp: evaluateRegression_def regression_met_def Let_def blockingCaveats_empty split: option.splits)

lemma refusal_iff:
  "snd (refuseLatencyOverFailures rule evaluation sampled worked) \<longleftrightarrow>
   Rule_Metric rule \<in> set latencyMetrics \<and> 0 < sampled \<and> 2 * worked < sampled"
  "snd (refuseLatencyOverFailures rule evaluation sampled worked) \<Longrightarrow>
   \<not> Ev_Passed (fst (refuseLatencyOverFailures rule evaluation sampled worked))"
  by (auto simp: refuseLatencyOverFailures_def split: if_splits)

lemma evaluateRule_passes_iff:
  "Ev_Passed (evaluateRule rule d (byName (Doc_Steps d)) baseline) = rule_met rule d baseline"
proof (cases "Rule_Scope rule = ScopeRegression")
  case True
  then show ?thesis by (simp add: evaluateRule_def Let_def evaluateRegression_passes_iff rule_met_def)
next
  case False
  show ?thesis
  proof (cases "measuredBy rule d (byName (Doc_Steps d))")
    case None
    with False show ?thesis by (simp add: evaluateRule_def Let_def rule_met_def absolute_met_def)
  next
    case (Some m)
    define e where "e = \<lparr>Ev_Step = targetName rule, Ev_Metric = Rule_Metric rule, Ev_Rule = Rule_Text rule, Ev_Obtained = 0,
           Ev_Limit = Rule_Limit rule, Ev_Unit = Rule_Unit rule, Ev_Passed = False, Ev_Sentence = Plain '''',
           Ev_NoData = False, Ev_Untrustworthy = False\<rparr>"
    obtain r b where rb: "refuseLatencyOverFailures rule e (Ms_Sampled m) (Ms_Worked m) = (r, b)" by fastforce
    note refusal = refusal_iff[of rule e "Ms_Sampled m" "Ms_Worked m", unfolded rb, simplified]
    have "evaluateRule rule d (byName (Doc_Steps d)) baseline =
      (case (r, b) of (refusal, True) \<Rightarrow> refusal | (_, False) \<Rightarrow>
         let obtained = obtainedOf (Rule_Metric rule) (Ms_Distribution m) (Ms_Count m) (Ms_Errors m)
               (Ms_Successes m) (O_EffectiveRate (Doc_Overall d));
             evaluation = e\<lparr>Ev_Obtained := obtained, Ev_Passed := compare obtained (Rule_Operator rule) (Rule_Limit rule)\<rparr>
         in evaluation\<lparr>Ev_Sentence := phraseEvaluation evaluation rule\<rparr>)"
      using False Some by (simp add: evaluateRule_def e_def[symmetric] rb)
    with refusal Some False show ?thesis
      by (cases b) (auto simp: rule_met_def absolute_met_def Let_def)
  qed
qed

section \<open>Properties\<close>


text \<open>A response-time rule never approves a sample made mostly of failures: with more than half of
  the requests of the scenario, or of the step, failed, a percentile rule over it does not pass.\<close>

theorem mostly_failures_never_approve:
  assumes "Rule_Scope rule = ScopeOverall" "Rule_Metric rule \<in> set latencyMetrics" "rule \<in> set rules"
    and "0 < O_Count (Doc_Overall d)" "O_Count (Doc_Overall d) < 2 * O_Errors (Doc_Overall d)"
  shows "\<not> Ver_Passed (Evaluate rules d baseline)"
proof -
  have "\<not> rule_met rule d baseline"
    using assms by (auto simp: rule_met_def absolute_met_def measuredBy_def Let_def)
  with assms(3) show ?thesis by (auto simp: Evaluate_def Let_def evaluateRule_passes_iff)
qed

lemma gget_comparePercentiles:
  "gget (comparePercentiles n b a) p = Some difference \<Longrightarrow>
   Diff_Direction difference = DirectionWorse \<Longrightarrow>
   Diff_Before difference > 0 \<and> 105 * Diff_Before difference \<le> 100 * Diff_After difference"
  by (auto simp: comparePercentiles_def percentile_pairs_def gget_def compareDistribution_direction split: if_splits)

text \<open>A regression rule with an upper limit fails the build only for a reason: there is a baseline,
  no blocking caveat, and the percentile it names rose by at least five percent and by at least the
  limit.\<close>

theorem regression_fails_only_on_worsening:
  assumes "\<not> Ev_Passed (evaluateRule rule after (byName (Doc_Steps after)) (Some \<lparr>Base_Comparison = Compare before after, Base_Path = path\<rparr>))"
    and "Rule_Scope rule = ScopeRegression" "Rule_Operator rule = OpLess" "0 < Rule_Limit rule"
  shows "\<exists>difference. differenceOf (Compare before after) (Rule_Metric rule) = Some difference
    \<and> 105 * Diff_Before difference \<le> 100 * Diff_After difference \<and> Rule_Limit rule \<le> Diff_Change difference * 100
    \<and> Valid before \<and> Valid after"
proof -
  from assms(1,2) obtain difference where d: "differenceOf (Compare before after) (Rule_Metric rule) = Some difference"
    "\<forall>caveat \<in> set (Cmp_Caveats (Compare before after)). \<not> Cav_Blocking caveat"
    "\<not> compare (worsePercentage difference) (Rule_Operator rule) (Rule_Limit rule)"
    by (auto simp: evaluateRule_passes_iff rule_met_def regression_met_def)
  from d(3) assms(3,4) have worse: "Diff_Direction difference = DirectionWorse" "Rule_Limit rule \<le> Diff_Change difference * 100"
    by (auto simp: compare_def worsePercentage_def split: if_splits)
  have "Valid before \<and> Valid after"
    using d(2) by (simp add: Compare_def Let_def collectCaveats_trusted_iff)
  moreover have "105 * Diff_Before difference \<le> 100 * Diff_After difference"
    using d(1) worse(1)
    by (auto simp: differenceOf_def Compare_def Let_def dest!: gget_comparePercentiles split: option.splits prod.splits if_splits)
  ultimately show ?thesis using d(1) worse(2) by blast
qed

text \<open>In the closed loop a response-time rule on a step is compared with zero: the document of a
  closed run has no corrected latency, the rule reads that field and not the reported one, and so
  every upper limit is met whatever the step measured, as long as half of its requests worked.\<close>

theorem closed_loop_step_rule_reads_zero:
  assumes "In_Model input = ClosedModel" "d = BuildDocument hdr machine c input"
    and "Rule_Scope rule = ScopeStep" "Rule_Metric rule \<in> set latencyMetrics" "Rule_Operator rule = OpLess" "0 < Rule_Limit rule"
    and "step \<in> set (Doc_Steps d)" "SR_Name step = Rule_Step rule"
    and "\<forall>s \<in> set (Doc_Steps d). SR_Count s \<le> 2 * (SR_Count s - SR_Errors s)"
  shows "Ev_Passed (evaluateRule rule d (byName (Doc_Steps d)) baseline)"
proof -
  have zero: "\<forall>s \<in> set (Doc_Steps d). SR_Latency s = zeroDistribution"
    using assms(1,2) by (auto simp: BuildDocument_def uncheckedDocument_def Let_def draftDocument_def dropCorrectedLatency_def
        Doc_Closed_def buildRun_def)
  have "set (gvalues (foldl (\<lambda>table step. gput table (SR_Name step) step) m results)) \<subseteq> set (gvalues m) \<union> set results" for m results
  proof (induction results arbitrary: m)
    case (Cons r results)
    with set_gvalues_gput[of m "SR_Name r" r] show ?case by fastforce
  qed simp
  from this[of "[]" "Doc_Steps d"] have stored: "set (gvalues (byName (Doc_Steps d))) \<subseteq> set (Doc_Steps d)"
    by (simp add: byName_def gvalues_def)
  have "gget (byName (Doc_Steps d)) (Rule_Step rule) \<noteq> None" unfolding byName_None not_not assms(8)[symmetric] using assms(7) by (rule imageI)
  then obtain s where s: "gget (byName (Doc_Steps d)) (Rule_Step rule) = Some s" by blast
  with stored have "s \<in> set (Doc_Steps d)" by (auto dest: gget_in_gvalues)
  with zero assms(9) have "SR_Latency s = zeroDistribution" "SR_Count s \<le> 2 * (SR_Count s - SR_Errors s)" by auto
  with s assms(3,4,5,6) show ?thesis
    by (auto simp: evaluateRule_passes_iff rule_met_def absolute_met_def measuredBy_def compare_def obtainedOf_def
        latencyMetrics_def zeroDistribution_def)
qed

section \<open>Witnesses\<close>

definition example_rule :: "SLOScope \<Rightarrow> string \<Rightarrow> string \<Rightarrow> SLORule" where
  "example_rule scope step metric = \<lparr>Rule_Scope = scope, Rule_Step = step, Rule_Metric = metric, Rule_Operator = OpLess,
     Rule_Limit = 10, Rule_Unit = ''ms'', Rule_Text = ''p95 < 10 ms''\<rparr>"

definition slow_step :: "nat list Aggregate" where
  "slow_step = Aggregate_Record values_hdr (NewAggregate values_hdr ''login'' ''login'' ''http'') (example_sample Success 90000000)"

definition slow_collector :: "nat list Collector" where
  "slow_collector = NewCollectorWithCapacity values_hdr 0 0 5\<lparr>Co_aggregates := [(''login'', slow_step)]\<rparr>"

definition slow_document :: "nat list Document" where
  "slow_document = BuildDocument values_hdr example_machine slow_collector example_input"

lemma slow_steps: "\<exists>s. Doc_Steps slow_document = [s] \<and> SR_Name s = ''login'' \<and> SR_Count s = 1 \<and> SR_Errors s = 0"
proof -
  have "map SR_Name (Doc_Steps slow_document) = [''login'']" "map SR_Count (Doc_Steps slow_document) = [1]"
    "map SR_Errors (Doc_Steps slow_document) = [0]"
    by (simp_all add: slow_document_def BuildDocument_fields buildSteps_def SortKeys_def slow_collector_def gkeys_def sort_Strings_def
        Let_def convertStep_def gget_Cons slow_step_def field_simps_of_ops NewAggregate_def Errors_def example_sample_def)
  then show ?thesis by (cases "Doc_Steps slow_document") auto
qed

theorem closed_loop_step_rule_reads_zero_witness:
  "Ev_Passed (evaluateRule (example_rule ScopeStep ''login'' ''p95'') slow_document (byName (Doc_Steps slow_document)) None)
   \<and> D_P95 (Aggregate_Distribution values_hdr slow_step) = 90"
proof -
  obtain s where s: "Doc_Steps slow_document = [s]" "SR_Name s = ''login''" "SR_Count s = 1" "SR_Errors s = 0"
    using slow_steps by blast
  have "Ev_Passed (evaluateRule (example_rule ScopeStep ''login'' ''p95'') slow_document (byName (Doc_Steps slow_document)) None)"
    by (rule closed_loop_step_rule_reads_zero[where input = example_input and step = s, OF _ slow_document_def])
      (simp_all add: s example_rule_def example_input_def latencyMetrics_def)
  moreover have "D_P95 (Aggregate_Distribution values_hdr slow_step) = 90"
    by (simp add: Aggregate_Distribution_def slow_step_def Aggregate_Record_def recordLatency_def recordOutcome_def NewAggregate_def
        example_sample_def IsZero_def zeroTime_def save_def clampUs_def CorrectedLatency_def Microseconds_def signed_divide_int_def
        minLatencyUs_def maxLatencyUs_def values_hdr_def distributionOf_def quantile_of_def inMilliseconds_def)
  ultimately show ?thesis by blast
qed

definition failing_document :: "nat list Document" where
  "failing_document = slow_document\<lparr>Doc_Overall := (Doc_Overall slow_document)\<lparr>O_Count := 10, O_Errors := 9\<rparr>\<rparr>"

theorem mostly_failures_never_approve_witness:
  "\<not> Ver_Passed (Evaluate [example_rule ScopeOverall '''' ''p95''] failing_document None)"
  by (rule mostly_failures_never_approve[of "example_rule ScopeOverall '''' ''p95''"])
    (simp_all add: example_rule_def latencyMetrics_def failing_document_def)

definition before_document :: "nat list Document" where
  "before_document = draftDocument values_hdr example_machine (NewCollectorWithCapacity values_hdr 0 0 5\<lparr>Co_journeys := [10000]\<rparr>) example_input"

definition after_document :: "nat list Document" where
  "after_document = draftDocument values_hdr example_machine (NewCollectorWithCapacity values_hdr 0 0 5\<lparr>Co_journeys := [20000]\<rparr>) example_input"

lemma example_regression:
  "differenceOf (Compare before_document after_document) ''journeyP95'' = Some (compareDistribution ''the whole journey (p95)'' 10 20)"
proof -
  have split: "splitRegressionMetric ''journeyP95'' = Some (''journey'', ''p95'')" by code_simp
  have "Journey_Reported (Doc_Journey before_document) = distributionOf values_hdr [10000]"
    "Journey_Reported (Doc_Journey after_document) = distributionOf values_hdr [20000]"
    by (simp_all add: before_document_def after_document_def draftDocument_def Journey_Reported_def Journeys_def
        distributionOf_def zeroDistribution_def values_hdr_def)
  moreover have "D_P95 (distributionOf values_hdr [10000]) = 10" "D_P95 (distributionOf values_hdr [20000]) = 20"
    by (simp_all add: distributionOf_def values_hdr_def quantile_of_def inMilliseconds_def)
  ultimately show ?thesis
    by (simp add: differenceOf_def split Compare_def Let_def comparePercentiles_def percentile_pairs_def gget_def)
qed

theorem regression_fails_only_on_worsening_witness:
  "\<exists>difference. differenceOf (Compare before_document after_document) ''journeyP95'' = Some difference
    \<and> 105 * Diff_Before difference \<le> 100 * Diff_After difference \<and> Valid before_document \<and> Valid after_document"
proof -
  let ?rule = "example_rule ScopeRegression '''' ''journeyP95''"
  let ?base = "Some \<lparr>Base_Comparison = Compare before_document after_document, Base_Path = ''''\<rparr>"
  have valid: "Valid before_document" "Valid after_document"
    by (simp_all add: Valid_def before_document_def after_document_def draftDocument_def zeroSanity_def)
  have "\<forall>caveat \<in> set (Cmp_Caveats (Compare before_document after_document)). \<not> Cav_Blocking caveat"
    using valid by (simp add: Compare_def Let_def collectCaveats_trusted_iff planSummary_def before_document_def after_document_def
        draftDocument_def)
  then have "\<not> rule_met ?rule after_document ?base"
    by (simp add: rule_met_def regression_met_def example_rule_def example_regression compareDistribution_direction
        compare_def worsePercentage_def)
  then have "\<not> Ev_Passed (evaluateRule ?rule after_document (byName (Doc_Steps after_document)) ?base)"
    by (simp add: evaluateRule_passes_iff)
  from regression_fails_only_on_worsening[OF this] show ?thesis by (simp add: example_rule_def) blast
qed


end
