(* ===== verification/Data.thy ===== *)
theory Data
  imports Model "HOL-Library.Word"
begin

text \<open>
  Data sources (\<open>internal/data/data.go\<close>): a CSV file consumed by a policy, or synthetic fields made by
  generators. The generator of pseudo-random numbers (\<open>math/rand\<close>) is the method table \<open>'r rng\<close>, an
  argument, with its documented ranges as the hypothesis \<open>rng_ranges\<close>; the parsed lines of the file
  are an argument of \<open>openCSV\<close>. Proved: what each policy hands out at each call, that a record has
  exactly the fields the source announces, that the streams of one seed never coincide, and that the
  generated documents pass the modulo 11 rule.
\<close>

unbundle bit_operations_syntax

section \<open>Interface\<close>

text \<open>
  What the engine relies on: a source announces its fields, keeps announcing the same ones, and every
  record it hands out has exactly those.
\<close>

locale data_source =
  fixes ok :: "'s \<Rightarrow> bool" and next_record :: "'s \<Rightarrow> int \<Rightarrow> ('e + (string, string) gomap) \<times> 's"
    and available :: "'s \<Rightarrow> (string, int) gomap"
  assumes ok_next: "ok s \<Longrightarrow> ok (snd (next_record s user))"
    and available_next: "ok s \<Longrightarrow> set (gkeys (available (snd (next_record s user)))) = set (gkeys (available s))"
    and provides: "ok s \<Longrightarrow> fst (next_record s user) = Inr record_values \<Longrightarrow>
      set (gkeys record_values) = set (gkeys (available s))"
begin

fun drain :: "'s \<Rightarrow> int list \<Rightarrow> ('e + (string, string) gomap) list" where
  "drain s [] = []"
| "drain s (user # users) = (case next_record s user of (r, s') \<Rightarrow> r # drain s' users)"

lemma drain_provides:
  "ok s \<Longrightarrow> Inr record_values \<in> set (drain s users) \<Longrightarrow> set (gkeys record_values) = set (gkeys (available s))"
proof (induction users arbitrary: s)
  case (Cons user users)
  obtain r s' where n: "next_record s user = (r, s')" by fastforce
  from ok_next[OF Cons.prems(1), of user] available_next[OF Cons.prems(1), of user] n
  have "ok s'" "set (gkeys (available s')) = set (gkeys (available s))" by simp_all
  with Cons n provides[OF Cons.prems(1), of user] show ?case by auto
qed simp

end

section \<open>Random numbers\<close>

record 'r rng =
  rng_New :: "64 word \<Rightarrow> 'r"
  rng_Int63n :: "'r \<Rightarrow> int \<Rightarrow> int \<times> 'r"
  rng_Intn :: "'r \<Rightarrow> int \<Rightarrow> int \<times> 'r"
  rng_Uint32 :: "'r \<Rightarrow> int \<times> 'r"
  rng_Float64 :: "'r \<Rightarrow> real \<times> 'r"

definition rng_ranges :: "'r rng \<Rightarrow> bool" where
  "rng_ranges rng \<longleftrightarrow>
    (\<forall>r n. 0 < n \<longrightarrow> 0 \<le> fst (rng_Int63n rng r n) \<and> fst (rng_Int63n rng r n) < n) \<and>
    (\<forall>r n. 0 < n \<longrightarrow> 0 \<le> fst (rng_Intn rng r n) \<and> fst (rng_Intn rng r n) < n) \<and>
    (\<forall>r. 0 \<le> fst (rng_Uint32 rng r) \<and> fst (rng_Uint32 rng r) < 2 ^ 32) \<and>
    (\<forall>r. 0 \<le> fst (rng_Float64 rng r) \<and> fst (rng_Float64 rng r) < 1)"

section \<open>CSV files\<close>

datatype data_error = CannotOpen string | InvalidFile string | NoLines string | RanOut string nat
  | NoFields string | InvalidArgument string | EmptyInterval | PatternWithoutFormat | UnknownGenerator string
  | FieldError string string data_error

record 'r csvSource =
  csv_name :: string
  csv_columns :: "string list"
  csv_records :: "string list list"
  csv_consume :: ConsumePolicy
  csv_position :: int
  csv_exhausted :: bool
  csv_random :: 'r

definition seedOf :: "DataSource \<Rightarrow> 64 word" where
  "seedOf source = (if Data_Seed source = 0 then 1 else of_int (Data_Seed source))"

text \<open>\<open>lines\<close> is what opening and reading the file gives: \<open>Inl\<close> when it cannot be opened or is no CSV.\<close>

definition openCSV :: "'r rng \<Rightarrow> DataSource \<Rightarrow> data_error + string list list \<Rightarrow> data_error + 'r csvSource" where
  "openCSV rng source lines =
    (case lines of Inl err \<Rightarrow> Inl err
     | Inr ls \<Rightarrow> if length ls < 2 then Inl (NoLines (Data_File source))
         else Inr \<lparr>csv_name = Data_Name source, csv_columns = hd ls, csv_records = tl ls,
           csv_consume = Data_Consume source, csv_position = 0, csv_exhausted = False,
           csv_random = rng_New rng (seedOf source)\<rparr>)"

definition csv_field :: "'r csvSource \<Rightarrow> string \<Rightarrow> string" where
  "csv_field source column = csv_name source @ ''.'' @ column"

definition csv_Available :: "'r csvSource \<Rightarrow> (string, int) gomap" where
  "csv_Available source =
    foldl (\<lambda>available (position, column).
      gput available (csv_field source column)
        (int (length (remdups (map (\<lambda>row. row ! position) (filter (\<lambda>row. position < length row) (csv_records source)))))))
      [] (enumerate 0 (csv_columns source))"

definition csv_row :: "'r csvSource \<Rightarrow> int \<Rightarrow> (string, string) gomap" where
  "csv_row source index =
    (let row = csv_records source ! nat index
     in foldl (\<lambda>vals (position, column).
          if position < length row then gput vals (csv_field source column) (row ! position) else vals)
        [] (enumerate 0 (csv_columns source)))"

definition csv_Next :: "'r rng \<Rightarrow> 'r csvSource \<Rightarrow> int \<Rightarrow> (data_error + (string, string) gomap) \<times> 'r csvSource" where
  "csv_Next rng source virtualUser =
    (let total = int (length (csv_records source))
     in case csv_consume source of
       ConsumeRandom \<Rightarrow>
         (case rng_Int63n rng (csv_random source) total of (index, r) \<Rightarrow>
            (Inr (csv_row source index), source\<lparr>csv_random := r\<rparr>))
     | ConsumeUniquePerUser \<Rightarrow> (Inr (csv_row source (virtualUser smod total)), source)
     | ConsumeSequential \<Rightarrow>
         let index = csv_position source;
             source' = source\<lparr>csv_position := csv_position source + 1\<rparr>
         in if index \<ge> total then (Inl (RanOut (csv_name source) (nat total)), source'\<lparr>csv_exhausted := True\<rparr>)
            else (Inr (csv_row source index), source')
     | ConsumeCircular \<Rightarrow>
         (Inr (csv_row source (csv_position source smod total)), source\<lparr>csv_position := csv_position source + 1\<rparr>))"

section \<open>Generators\<close>

definition streamSeed :: "64 word \<Rightarrow> 64 word \<Rightarrow> 64 word" where
  "streamSeed seed sequence =
    (let mixed = seed * 0x9E3779B97F4A7C15 + sequence;
         mixed = mixed XOR drop_bit 30 mixed;
         mixed = mixed * 0xBF58476D1CE4E5B9;
         mixed = mixed XOR drop_bit 27 mixed;
         mixed = mixed * 0x94D049BB133111EB
     in mixed XOR drop_bit 31 mixed)"

definition splitGenerator :: "string \<Rightarrow> string \<times> string list" where
  "splitGenerator expression =
    (let expression = TrimSpace expression
     in case Cut expression ''('' of (name, rest, found) \<Rightarrow>
          if \<not> found \<or> \<not> HasSuffix expression '')'' then (expression, [])
          else let content = butlast rest
               in if TrimSpace content = '''' then (name, [])
                  else (name, map TrimSpace (Split content '','')))"

fun draw_digits :: "'r rng \<Rightarrow> 'r \<Rightarrow> nat \<Rightarrow> int list \<times> 'r" where
  "draw_digits rng r 0 = ([], r)"
| "draw_digits rng r (Suc n) =
    (case rng_Intn rng r 10 of (digit, r') \<Rightarrow> case draw_digits rng r' n of (digits, r'') \<Rightarrow> (digit # digits, r''))"

text \<open>The loop indexes \<open>digits\<close> by the positions of \<open>weights\<close>; both callers pass as many digits as weights.\<close>

definition checkDigit :: "int list \<Rightarrow> int list \<Rightarrow> int" where
  "checkDigit digits weights =
    (let total = sum_list (map (\<lambda>(digit, weight). digit * weight) (zip digits weights));
         remainder = total smod 11
     in if remainder \<ge> 2 then 11 - remainder else 0)"

definition cpfWeights :: "int list list" where
  "cpfWeights = [[10, 9, 8, 7, 6, 5, 4, 3, 2], [11, 10, 9, 8, 7, 6, 5, 4, 3, 2]]"

definition cnpjWeights :: "int list list" where
  "cnpjWeights = [[5, 4, 3, 2, 9, 8, 7, 6, 5, 4, 3, 2], [6, 5, 4, 3, 2, 9, 8, 7, 6, 5, 4, 3, 2]]"

definition with_check_digits :: "int list \<Rightarrow> int list list \<Rightarrow> int list" where
  "with_check_digits digits weights = foldl (\<lambda>digits weight. digits @ [checkDigit digits weight]) digits weights"

definition brazilianDocument :: "'r rng \<Rightarrow> 'r \<Rightarrow> nat \<Rightarrow> int list list \<Rightarrow> string \<times> 'r" where
  "brazilianDocument rng r len weights =
    (case draw_digits rng r len of (digits, r') \<Rightarrow>
       (map (\<lambda>digit. digit_char (nat digit)) (with_check_digits digits weights), r'))"

fun fromPattern :: "'r rng \<Rightarrow> 'r \<Rightarrow> string \<Rightarrow> string \<times> 'r" where
  "fromPattern rng r [] = ([], r)"
| "fromPattern rng r (c # format) =
    (if c = CHR ''#'' then
       (case rng_Intn rng r 10 of (n, r') \<Rightarrow> case fromPattern rng r' format of (s, r'') \<Rightarrow> (digit_char (nat n) # s, r''))
     else if c = CHR ''@'' then
       (case rng_Intn rng r 26 of (n, r') \<Rightarrow> case fromPattern rng r' format of (s, r'') \<Rightarrow> (char_of (65 + nat n) # s, r''))
     else (case fromPattern rng r format of (s, r') \<Rightarrow> (c # s, r')))"

definition names :: "string list" where
  "names = [''ana'', ''bruno'', ''carla'', ''diego'', ''elisa'', ''fabio'', ''gabriela'', ''heitor'', ''isabel'', ''joao'']"

definition lastNames :: "string list" where
  "lastNames = [''souza'', ''lima'', ''braun'', ''costa'', ''martins'', ''azevedo'', ''ferreira'', ''rocha'']"

definition letters :: string where "letters = ''abcdefghijklmnopqrstuvwxyz''"

fun draw_letters :: "'r rng \<Rightarrow> 'r \<Rightarrow> nat \<Rightarrow> string \<times> 'r" where
  "draw_letters rng r 0 = ([], r)"
| "draw_letters rng r (Suc n) =
    (case rng_Intn rng r (int (length letters)) of (i, r') \<Rightarrow> case draw_letters rng r' n of (s, r'') \<Rightarrow> (letters ! nat i # s, r''))"

fun show_hex :: "nat \<Rightarrow> nat \<Rightarrow> string" where
  "show_hex 0 n = []"
| "show_hex (Suc width) n = show_hex width (n div 16) @ [''0123456789abcdef'' ! (n mod 16)]"

text \<open>\<open>FormatFloat(x, 'f', 2, 64)\<close>: hundredths, rounded half to even.\<close>

definition fmt_f2 :: "real \<Rightarrow> string" where
  "fmt_f2 x =
    (let low = \<lfloor>100 * \<bar>x\<bar>\<rfloor>; rest = 100 * \<bar>x\<bar> - real_of_int low;
         cents = nat (if rest < 1 / 2 \<or> rest = 1 / 2 \<and> even low then low else low + 1)
     in (if x < 0 then ''-'' else '''') @ show_nat (cents div 100) @ ''.'' @ [digit_char (cents div 10 mod 10), digit_char (cents mod 10)])"

definition or_zero :: "int option \<Rightarrow> int" where
  "or_zero n = (case n of None \<Rightarrow> 0 | Some k \<Rightarrow> k)"

definition generate_uuid :: "'r rng \<Rightarrow> 'r \<Rightarrow> string \<times> 'r" where
  "generate_uuid rng r =
    (case rng_Uint32 rng r of (a, r1) \<Rightarrow> case rng_Intn rng r1 0xffff of (b, r2) \<Rightarrow>
     case rng_Intn rng r2 0xffff of (c, r3) \<Rightarrow> case rng_Intn rng r3 0xffff of (d, r4) \<Rightarrow>
     case rng_Int63n rng r4 0xffffffffffff of (e, r5) \<Rightarrow>
       (show_hex 8 (nat a) @ ''-'' @ show_hex 4 (nat b) @ ''-'' @ show_hex 4 (nat c) @ ''-'' @ show_hex 4 (nat d) @ ''-'' @ show_hex 12 (nat e), r5))"

definition generate_number :: "'r rng \<Rightarrow> 'r \<Rightarrow> string list \<Rightarrow> data_error + string \<times> 'r" where
  "generate_number rng r args =
    (let bounds = (if length args = 2 then
           (case ParseFloat (args ! 0) of None \<Rightarrow> Inl (InvalidArgument (args ! 0))
            | Some minimum \<Rightarrow> case ParseFloat (args ! 1) of None \<Rightarrow> Inl (InvalidArgument (args ! 1))
            | Some maximum \<Rightarrow> Inr (minimum, maximum))
         else Inr (0, 100))
     in case bounds of Inl err \<Rightarrow> Inl err
        | Inr (minimum, maximum) \<Rightarrow>
            if maximum \<le> minimum then Inl EmptyInterval
            else case rng_Float64 rng r of (f, r') \<Rightarrow> Inr (fmt_f2 (minimum + f * (maximum - minimum)), r'))"

definition generate_integer :: "'r rng \<Rightarrow> 'r \<Rightarrow> string list \<Rightarrow> data_error + string \<times> 'r" where
  "generate_integer rng r args =
    (let (minimum, maximum) = (if length args = 2 then (or_zero (ParseInt (args ! 0)), or_zero (ParseInt (args ! 1))) else (0, 100))
     in if maximum \<le> minimum then Inl EmptyInterval
        else case rng_Int63n rng r (maximum - minimum) of (n, r') \<Rightarrow> Inr (fmt_d (minimum + n), r'))"

definition generate :: "'r rng \<Rightarrow> Generator \<Rightarrow> 'r \<Rightarrow> int \<Rightarrow> data_error + string \<times> 'r" where
  "generate rng generator r sequence =
    (case splitGenerator (Gen_Recipe generator) of (name, args) \<Rightarrow>
       if name = ''uuid'' then Inr (generate_uuid rng r)
       else if name = ''sequence'' then Inr (fmt_d sequence, r)
       else if name = ''number'' then generate_number rng r args
       else if name = ''integer'' then generate_integer rng r args
       else if name = ''name'' then
         (case rng_Intn rng r (int (length names)) of (i, r') \<Rightarrow> case rng_Intn rng r' (int (length lastNames)) of (j, r'') \<Rightarrow>
            Inr (names ! nat i @ '' '' @ lastNames ! nat j, r''))
       else if name = ''email'' then
         (case rng_Intn rng r (int (length names)) of (i, r') \<Rightarrow> Inr (names ! nat i @ ''.'' @ fmt_d sequence @ ''@exemplo.com'', r'))
       else if name = ''text'' then
         Inr (draw_letters rng r (nat (if length args = 1 then or_zero (ParseInt (hd args)) else 12)))
       else if name = ''pattern'' then
         (let format = (if args \<noteq> [] then Join args '','' else Gen_Format generator)
          in if TrimSpace format = '''' then Inl PatternWithoutFormat else Inr (fromPattern rng r format))
       else if name = ''cpf'' then Inr (brazilianDocument rng r 9 cpfWeights)
       else if name = ''cnpj'' then Inr (brazilianDocument rng r 12 cnpjWeights)
       else Inl (UnknownGenerator name))"

section \<open>Synthetic sources\<close>

record syntheticSource =
  syn_name :: string
  syn_fields :: "(string, Generator) gomap"
  syn_sortedNames :: "string list"
  syn_seed :: "64 word"
  syn_sequence :: int

definition newSyntheticSource :: "DataSource \<Rightarrow> data_error + syntheticSource" where
  "newSyntheticSource source =
    (if Data_Fields source = [] then Inl (NoFields (Data_Name source))
     else Inr \<lparr>syn_name = Data_Name source, syn_fields = Data_Fields source,
       syn_sortedNames = sort_Strings (gkeys (Data_Fields source)), syn_seed = seedOf source, syn_sequence = 0\<rparr>)"

definition syn_field :: "syntheticSource \<Rightarrow> string \<Rightarrow> string" where
  "syn_field source field = syn_name source @ ''.'' @ field"

definition syn_Available :: "syntheticSource \<Rightarrow> (string, int) gomap" where
  "syn_Available source = foldl (\<lambda>available field. gput available (syn_field source field) (- 1)) [] (syn_sortedNames source)"

fun generate_fields :: "'r rng \<Rightarrow> syntheticSource \<Rightarrow> int \<Rightarrow> (string, string) gomap \<Rightarrow> 'r \<Rightarrow> string list
    \<Rightarrow> data_error + (string, string) gomap" where
  "generate_fields rng source sequence vals r [] = Inr vals"
| "generate_fields rng source sequence vals r (field # flds) =
    (case generate rng (the (gget (syn_fields source) field)) r sequence of
       Inl err \<Rightarrow> Inl (FieldError field (syn_name source) err)
     | Inr (value, r') \<Rightarrow> generate_fields rng source sequence (gput vals (syn_field source field) value) r' flds)"

definition syn_Next :: "'r rng \<Rightarrow> syntheticSource \<Rightarrow> int \<Rightarrow> (data_error + (string, string) gomap) \<times> syntheticSource" where
  "syn_Next rng source virtualUser =
    (let sequence = syn_sequence source + 1;
         r = rng_New rng (streamSeed (syn_seed source) (of_int sequence))
     in (generate_fields rng source sequence [] r (syn_sortedNames source), source\<lparr>syn_sequence := sequence\<rparr>))"

text \<open>The function handed over for a per-use field: a new sequence number and a new stream at each call.\<close>

definition syn_generateOnce :: "'r rng \<Rightarrow> syntheticSource \<Rightarrow> string \<Rightarrow> (data_error + string) \<times> syntheticSource" where
  "syn_generateOnce rng source field =
    (let sequence = syn_sequence source + 1;
         r = rng_New rng (streamSeed (syn_seed source) (of_int sequence))
     in ((case generate rng (the (gget (syn_fields source) field)) r sequence of Inl err \<Rightarrow> Inl err | Inr (value, _) \<Rightarrow> Inr value),
         source\<lparr>syn_sequence := sequence\<rparr>))"

definition syn_PerUse :: "syntheticSource \<Rightarrow> (string \<times> string) list" where
  "syn_PerUse source =
    map (\<lambda>field. (syn_field source field, field))
      (filter (\<lambda>field. Gen_PerUse (the (gget (syn_fields source) field))) (syn_sortedNames source))"

section \<open>Sources\<close>

text \<open>The interface \<open>Source\<close> and its two implementations. Only the synthetic one has \<open>PerUse\<close>.\<close>

datatype 'r Source = CsvSource "'r csvSource" | SyntheticSource syntheticSource

fun Source_Name :: "'r Source \<Rightarrow> string" where
  "Source_Name (CsvSource source) = csv_name source"
| "Source_Name (SyntheticSource source) = syn_name source"

fun Source_Next :: "'r rng \<Rightarrow> 'r Source \<Rightarrow> int \<Rightarrow> (data_error + (string, string) gomap) \<times> 'r Source" where
  "Source_Next rng (CsvSource source) user = (case csv_Next rng source user of (record, source) \<Rightarrow> (record, CsvSource source))"
| "Source_Next rng (SyntheticSource source) user = (case syn_Next rng source user of (record, source) \<Rightarrow> (record, SyntheticSource source))"

fun Source_Exhausted :: "'r Source \<Rightarrow> bool" where
  "Source_Exhausted (CsvSource source) = csv_exhausted source"
| "Source_Exhausted (SyntheticSource source) = False"

fun Source_Available :: "'r Source \<Rightarrow> (string, int) gomap" where
  "Source_Available (CsvSource source) = csv_Available source"
| "Source_Available (SyntheticSource source) = syn_Available source"

fun Source_PerUse :: "'r Source \<Rightarrow> (string \<times> string) list" where
  "Source_PerUse (CsvSource source) = []"
| "Source_PerUse (SyntheticSource source) = syn_PerUse source"

text \<open>\<open>Open\<close>: \<open>read\<close> gives the lines of a file under the root, or why it cannot.\<close>

definition Open :: "'r rng \<Rightarrow> (string \<Rightarrow> data_error + string list list) \<Rightarrow> DataSource \<Rightarrow> data_error + 'r Source" where
  "Open rng read source =
    (if Synthetic source
     then (case newSyntheticSource source of Inl err \<Rightarrow> Inl err | Inr opened \<Rightarrow> Inr (SyntheticSource opened))
     else (case openCSV rng source (read (Data_File source)) of Inl err \<Rightarrow> Inl err | Inr opened \<Rightarrow> Inr (CsvSource opened)))"

section \<open>Every record has the announced fields\<close>

text \<open>\<open>encoding/csv\<close> refuses a file whose rows have different numbers of fields.\<close>

definition csv_ok :: "'r csvSource \<Rightarrow> bool" where
  "csv_ok source \<longleftrightarrow> csv_records source \<noteq> [] \<and> 0 \<le> csv_position source \<and>
    (\<forall>row \<in> set (csv_records source). length row = length (csv_columns source))"

lemma foldl_gput_keys:
  "set (gkeys (foldl (\<lambda>m (position, column). gput m (f column) (g position column)) m xs)) =
    set (gkeys m) \<union> (f \<circ> snd) ` set xs"
  by (induction xs arbitrary: m) auto

lemma enumerate_image: "(f \<circ> snd) ` set (enumerate k xs) = f ` set xs"
proof -
  have "snd ` set (enumerate k xs) = set xs" by (metis list.set_map map_snd_enumerate)
  then show ?thesis by (metis image_comp)
qed

lemma csv_Available_keys: "set (gkeys (csv_Available source)) = csv_field source ` set (csv_columns source)"
  unfolding csv_Available_def foldl_gput_keys enumerate_image by simp

lemma foldl_row_keys:
  assumes "\<forall>(position, column) \<in> set xs. position < length row"
  shows "set (gkeys (foldl (\<lambda>vals (position, column). if position < length row
      then gput vals (f column) (row ! position) else vals) m xs)) = set (gkeys m) \<union> (f \<circ> snd) ` set xs"
  using assms by (induction xs arbitrary: m) auto

lemma csv_row_keys:
  assumes "csv_ok source" "0 \<le> index" "index < int (length (csv_records source))"
  shows "set (gkeys (csv_row source index)) = csv_field source ` set (csv_columns source)"
proof -
  let ?row = "csv_records source ! nat index"
  have "?row \<in> set (csv_records source)" using assms(2,3) by (simp add: nat_less_iff)
  then have "length ?row = length (csv_columns source)" using assms(1) by (simp add: csv_ok_def)
  then have "\<forall>(position, column) \<in> set (enumerate 0 (csv_columns source)). position < length ?row"
    by (auto simp: in_set_enumerate_eq)
  from foldl_row_keys[OF this, of "csv_field source" "[]"] show ?thesis
    unfolding csv_row_def Let_def enumerate_image by simp
qed

lemma csv_field_update [simp]:
  "csv_field (source\<lparr>csv_position := p\<rparr>) = csv_field source" "csv_field (source\<lparr>csv_exhausted := e\<rparr>) = csv_field source"
  "csv_field (source\<lparr>csv_random := r\<rparr>) = csv_field source"
  by (simp_all add: csv_field_def fun_eq_iff)

lemma smod_range: "0 \<le> a \<Longrightarrow> 0 < b \<Longrightarrow> 0 \<le> a smod b \<and> a smod b < b" for a b :: int
  by (cases "a = 0") (simp_all add: signed_modulo_int_def)

lemma csv_Next_state:
  "csv_columns (snd (csv_Next rng source user)) = csv_columns source"
  "csv_records (snd (csv_Next rng source user)) = csv_records source"
  "csv_name (snd (csv_Next rng source user)) = csv_name source"
  "csv_consume (snd (csv_Next rng source user)) = csv_consume source"
  "0 \<le> csv_position source \<Longrightarrow> 0 \<le> csv_position (snd (csv_Next rng source user))"
  by (auto simp: csv_Next_def Let_def split: ConsumePolicy.splits prod.splits)

lemma csv_Next_keys:
  assumes "csv_ok source" "rng_ranges rng" "0 \<le> user" "fst (csv_Next rng source user) = Inr vals"
  shows "set (gkeys vals) = csv_field source ` set (csv_columns source)"
proof -
  have len: "0 < int (length (csv_records source))" using assms(1) by (cases "csv_records source") (auto simp: csv_ok_def)
  have draw: "0 \<le> fst (rng_Int63n rng (csv_random source) (int (length (csv_records source))))
     \<and> fst (rng_Int63n rng (csv_random source) (int (length (csv_records source)))) < int (length (csv_records source))"
    using assms(2) len by (simp add: rng_ranges_def)
  have pos: "0 \<le> csv_position source" using assms(1) by (simp add: csv_ok_def)
  from assms(4) show ?thesis
    using csv_row_keys[OF assms(1)] draw smod_range[OF assms(3) len] smod_range[OF pos len] pos
    by (auto simp: csv_Next_def Let_def split: ConsumePolicy.splits prod.splits if_splits)
qed

text \<open>
  Both kinds of source meet the interface. The laws of the generator are part of the state predicate:
  \<open>rng_ranges rng\<close> is what the state of a CSV source relies on, and the user numbers the engine
  passes are never negative.
\<close>

interpretation csv: data_source "\<lambda>source. csv_ok source \<and> rng_ranges rng"
    "\<lambda>source user. csv_Next rng source \<bar>user\<bar>" csv_Available for rng
proof
  fix s :: "'a csvSource" and user :: int and vals
  assume ok: "csv_ok s \<and> rng_ranges rng"
  show "csv_ok (snd (csv_Next rng s \<bar>user\<bar>)) \<and> rng_ranges rng"
    using ok by (simp add: csv_ok_def csv_Next_state)
  show "set (gkeys (csv_Available (snd (csv_Next rng s \<bar>user\<bar>)))) = set (gkeys (csv_Available s))"
    by (simp add: csv_Available_keys csv_Next_state csv_field_def)
  show "set (gkeys vals) = set (gkeys (csv_Available s))" if "fst (csv_Next rng s \<bar>user\<bar>) = Inr vals"
    using csv_Next_keys[of s rng "\<bar>user\<bar>" vals] ok that by (simp add: csv_Available_keys)
qed

lemma generate_fields_keys:
  "generate_fields rng source sequence vals r flds = Inr vals' \<Longrightarrow>
   set (gkeys vals') = set (gkeys vals) \<union> syn_field source ` set flds"
  by (induction rng source sequence vals r flds rule: generate_fields.induct) (auto split: sum.splits prod.splits)

lemma syn_Available_keys: "set (gkeys (syn_Available source)) = syn_field source ` set (syn_sortedNames source)"
proof -
  have "set (gkeys (foldl (\<lambda>available field. gput available (syn_field source field) (- 1 :: int)) m flds)) =
    set (gkeys m) \<union> syn_field source ` set flds" for m flds
    by (induction flds arbitrary: m) auto
  then show ?thesis by (simp add: syn_Available_def)
qed

interpretation synthetic: data_source "\<lambda>source. True" "syn_Next rng" syn_Available for rng
  by unfold_locales
    (auto simp: syn_Next_def Let_def syn_Available_keys syn_field_def dest!: generate_fields_keys)

section \<open>Streams of random numbers\<close>

lemma xorshift_inj:
  fixes x y :: "64 word"
  assumes "x XOR drop_bit n x = y XOR drop_bit n y" "0 < n"
  shows "x = y"
proof -
  let ?d = "x XOR y"
  have shift: "bit ?d i = bit ?d (i + n)" if "i < 64" for i
  proof -
    have "bit (x XOR drop_bit n x) i = bit (y XOR drop_bit n y) i" using assms(1) by simp
    with that show ?thesis by (auto simp: bit_xor_iff bit_drop_bit_eq add.commute)
  qed
  have "\<not> bit ?d i" for i
  proof (induction "64 - i" arbitrary: i rule: less_induct)
    case less
    show ?case
    proof (cases "i < 64")
      case True
      with less[of "i + n"] shift[OF True] assms(2) show ?thesis by simp
    next
      case False
      then show ?thesis using bit_imp_le_length[of ?d i] by auto
    qed
  qed
  then show ?thesis by (intro bit_eqI) (simp add: bit_xor_iff)
qed

lemma odd_mult_inj:
  fixes a b x y :: "64 word"
  assumes "a * b = 1" "x * a = y * a"
  shows "x = y"
proof -
  have "x * a * b = y * a * b" using assms(2) by simp
  then show ?thesis by (simp add: mult.assoc assms(1))
qed

section \<open>Properties\<close>

fun csv_results :: "'r rng \<Rightarrow> 'r csvSource \<Rightarrow> int list \<Rightarrow> (data_error + (string, string) gomap) list" where
  "csv_results rng source [] = []"
| "csv_results rng source (user # users) =
    fst (csv_Next rng source user) # csv_results rng (snd (csv_Next rng source user)) users"

definition csv_expected :: "'r csvSource \<Rightarrow> int \<Rightarrow> int \<Rightarrow> data_error + (string, string) gomap" where
  "csv_expected source n user =
    (let total = int (length (csv_records source))
     in if csv_consume source = ConsumeSequential \<and> total \<le> n then Inl (RanOut (csv_name source) (length (csv_records source)))
        else Inr (csv_row source (if csv_consume source = ConsumeSequential then n
          else if csv_consume source = ConsumeUniquePerUser then user mod total else n mod total)))"

lemma csv_row_cong:
  "csv_name s = csv_name t \<Longrightarrow> csv_columns s = csv_columns t \<Longrightarrow> csv_records s = csv_records t \<Longrightarrow> csv_row s = csv_row t"
proof -
  assume *: "csv_name s = csv_name t" "csv_columns s = csv_columns t" "csv_records s = csv_records t"
  then have f: "csv_field s = csv_field t" by (simp add: csv_field_def fun_eq_iff)
  show ?thesis unfolding csv_row_def * f by (rule refl)
qed

lemma csv_Next_expected:
  assumes "csv_consume source \<noteq> ConsumeRandom" "0 \<le> csv_position source" "0 \<le> user"
  shows "fst (csv_Next rng source user) = csv_expected source (csv_position source) user"
    "csv_consume source = ConsumeUniquePerUser \<or> csv_position (snd (csv_Next rng source user)) = csv_position source + 1"
  using assms smod_range[of user "int (length (csv_records source))"]
  by (cases "csv_consume source"; simp add: csv_Next_def csv_expected_def Let_def smod_eq_mod)+

text \<open>What a CSV source hands out at each call is what its policy says: sequential gives row after
  row and, once past the last, an error that says the data ran out; circular starts over; unique
  per user gives the row of the user, modulo the number of rows.\<close>

theorem csv_policies:
  assumes "csv_consume source \<noteq> ConsumeRandom" "csv_position source = 0" "\<forall>user \<in> set users. 0 \<le> user" "n < length users"
  shows "csv_results rng source users ! n = csv_expected source (int n) (users ! n)"
proof -
  have "csv_results rng s us ! m = csv_expected s (csv_position s + int m) (us ! m)"
    if "csv_consume s \<noteq> ConsumeRandom" "0 \<le> csv_position s" "\<forall>u \<in> set us. 0 \<le> u" "m < length us" for s us m
    using that
  proof (induction us arbitrary: s m)
    case (Cons u us)
    note step = csv_Next_expected[of s u rng]
    show ?case
    proof (cases m)
      case 0
      with Cons.prems step show ?thesis by simp
    next
      case (Suc k)
      let ?s = "snd (csv_Next rng s u)"
      have "csv_results rng ?s us ! k = csv_expected ?s (csv_position ?s + int k) (us ! k)"
        using Cons.prems Suc by (intro Cons.IH) (simp_all add: csv_Next_state)
      moreover have "csv_expected ?s = csv_expected s"
        unfolding csv_expected_def csv_row_cong[of ?s s, OF csv_Next_state(3,1,2)] csv_Next_state by (rule refl)
      moreover have "csv_expected s (csv_position ?s + int k) (us ! k) = csv_expected s (csv_position s + int m) (us ! k)"
      proof (cases "csv_consume s = ConsumeUniquePerUser")
        case True
        then show ?thesis by (simp add: csv_expected_def Let_def)
      next
        case False
        with step(2) Cons.prems have "csv_position ?s + int k = csv_position s + int m" using Suc by simp
        then show ?thesis by simp
      qed
      ultimately show ?thesis using Suc by simp
    qed
  qed simp
  from this[of source users n] assms show ?thesis by simp
qed

text \<open>The streams of one seed never coincide, and the streams of different seeds differ at every
  position: the mixing of seed and sequence loses nothing.\<close>

theorem streamSeed_injective:
  "(streamSeed seed sequence = streamSeed seed sequence' \<longleftrightarrow> sequence = sequence')
   \<and> (streamSeed seed sequence = streamSeed seed' sequence \<longleftrightarrow> seed = seed')"
proof -
  have inv: "(0xBF58476D1CE4E5B9 :: 64 word) * 0x96DE1B173F119089 = 1"
    "(0x94D049BB133111EB :: 64 word) * 0x319642B2D24D8EC3 = 1"
    "(0x9E3779B97F4A7C15 :: 64 word) * 0xF1DE83E19937733D = 1" by simp_all
  have mix: "seed * 0x9E3779B97F4A7C15 + sequence = seed' * 0x9E3779B97F4A7C15 + sequence'"
    if "streamSeed seed sequence = streamSeed seed' sequence'" for seed seed' sequence sequence' :: "64 word"
  proof -
    define f where "f x = x XOR drop_bit 30 x" for x :: "64 word"
    define g where "g x = x XOR drop_bit 27 x" for x :: "64 word"
    define h where "h x = x XOR drop_bit 31 x" for x :: "64 word"
    let ?u = "seed * 0x9E3779B97F4A7C15 + sequence" and ?v = "seed' * 0x9E3779B97F4A7C15 + sequence'"
    from that have "h (g (f ?u * 0xBF58476D1CE4E5B9) * 0x94D049BB133111EB) = h (g (f ?v * 0xBF58476D1CE4E5B9) * 0x94D049BB133111EB)"
      by (simp add: streamSeed_def Let_def f_def g_def h_def)
    then have "g (f ?u * 0xBF58476D1CE4E5B9) * 0x94D049BB133111EB = g (f ?v * 0xBF58476D1CE4E5B9) * 0x94D049BB133111EB"
      unfolding h_def by (rule xorshift_inj) simp
    then have "g (f ?u * 0xBF58476D1CE4E5B9) = g (f ?v * 0xBF58476D1CE4E5B9)" by (rule odd_mult_inj[OF inv(2)])
    then have "f ?u * 0xBF58476D1CE4E5B9 = f ?v * 0xBF58476D1CE4E5B9" unfolding g_def by (rule xorshift_inj) simp
    then have "f ?u = f ?v" by (rule odd_mult_inj[OF inv(1)])
    then show ?thesis unfolding f_def by (rule xorshift_inj) simp
  qed
  have "sequence = sequence'" if "streamSeed seed sequence = streamSeed seed sequence'" using mix[OF that] by simp
  moreover have "seed = seed'" if "streamSeed seed sequence = streamSeed seed' sequence"
    by (rule odd_mult_inj[OF inv(3)]) (rule add_right_cancel[THEN iffD1, OF mix[OF that]])
  ultimately show ?thesis by blast
qed

lemma digit_bounds_draw:
  assumes "rng_ranges rng"
  shows "length (fst (draw_digits rng r n)) = n \<and> (\<forall>d \<in> set (fst (draw_digits rng r n)). 0 \<le> d \<and> d < 10)"
proof (induction n arbitrary: r)
  case (Suc n)
  have "0 \<le> fst (rng_Intn rng r 10) \<and> fst (rng_Intn rng r 10) < 10" using assms by (simp add: rng_ranges_def)
  with Suc[of "snd (rng_Intn rng r 10)"] show ?case by (auto simp: case_prod_unfold)
qed simp

lemma checkDigit_modulo_11:
  assumes "0 \<le> sum_list (map (\<lambda>(digit, weight). digit * weight) (zip digits weights))"
  shows "checkDigit digits weights = 10 * sum_list (map (\<lambda>(digit, weight). digit * weight) (zip digits weights)) mod 11 mod 10
    \<and> 0 \<le> checkDigit digits weights \<and> checkDigit digits weights < 10"
proof -
  define t where "t = sum_list (map (\<lambda>(digit, weight). digit * weight) (zip digits weights))"
  have s: "t smod 11 = t mod 11" using assms by (cases "t = 0") (simp_all add: t_def signed_modulo_int_def)
  have "10 * t mod 11 = 10 * (t mod 11) mod 11" by (simp add: mod_mult_right_eq)
  moreover have "0 \<le> t mod 11" "t mod 11 < 11" by simp_all
  then have "t mod 11 \<in> {0,1,2,3,4,5,6,7,8,9,10}" unfolding insert_iff empty_iff by presburger
  ultimately show ?thesis unfolding checkDigit_def Let_def t_def[symmetric] s by auto
qed

text \<open>Every CPF the generator makes is one the target accepts: eleven digits, the tenth and the
  eleventh being the check digits of the modulo 11 rule over the ones before them.\<close>

theorem generated_cpf_is_valid:
  assumes "rng_ranges rng"
  shows "let s = fst (brazilianDocument rng r 9 cpfWeights); ds = map (\<lambda>c. int (digit_value c)) s
    in length s = 11 \<and> list_all is_digit s
     \<and> ds ! 9 = 10 * (\<Sum>i \<leftarrow> [0..<9]. ds ! i * (10 - int i)) mod 11 mod 10
     \<and> ds ! 10 = 10 * (\<Sum>i \<leftarrow> [0..<10]. ds ! i * (11 - int i)) mod 11 mod 10"
proof -
  obtain digits r' where draw: "draw_digits rng r 9 = (digits, r')" by fastforce
  from digit_bounds_draw[OF assms, of r 9] draw have len: "length digits = 9" and
    bounds: "\<forall>d \<in> set digits. 0 \<le> d \<and> d < 10" by simp_all
  from len obtain a b c d e f g h i where ds: "digits = [a, b, c, d, e, f, g, h, i]"
    by (auto simp: numeral_eq_Suc length_Suc_conv)
  let ?w1 = "[10, 9, 8, 7, 6, 5, 4, 3, 2] :: int list" and ?w2 = "[11, 10, 9, 8, 7, 6, 5, 4, 3, 2] :: int list"
  define x where "x = checkDigit digits ?w1"
  define y where "y = checkDigit (digits @ [x]) ?w2"
  have t1: "0 \<le> sum_list (map (\<lambda>(digit, weight). digit * weight) (zip digits ?w1))" using bounds by (simp add: ds)
  have x: "x = 10 * sum_list (map (\<lambda>(digit, weight). digit * weight) (zip digits ?w1)) mod 11 mod 10" "0 \<le> x" "x < 10"
    using checkDigit_modulo_11[OF t1] by (simp_all add: x_def)
  have t2: "0 \<le> sum_list (map (\<lambda>(digit, weight). digit * weight) (zip (digits @ [x]) ?w2))" using bounds x(2) by (simp add: ds)
  have y: "y = 10 * sum_list (map (\<lambda>(digit, weight). digit * weight) (zip (digits @ [x]) ?w2)) mod 11 mod 10" "0 \<le> y" "y < 10"
    using checkDigit_modulo_11[OF t2] by (simp_all add: y_def)
  have upts: "[0..<9] = [0, 1, 2, 3, 4, 5, 6, 7, 8::nat]" "[0..<10] = [0, 1, 2, 3, 4, 5, 6, 7, 8, 9::nat]" by code_simp+
  let ?all = "digits @ [x, y]"
  have s: "fst (brazilianDocument rng r 9 cpfWeights) = map (\<lambda>digit. digit_char (nat digit)) ?all"
    by (simp add: brazilianDocument_def draw with_check_digits_def cpfWeights_def x_def y_def)
  have all: "\<forall>d \<in> set ?all. 0 \<le> d \<and> d < 10" using bounds x(2,3) y(2,3) by auto
  then have "map (\<lambda>c. int (digit_value c)) (map (\<lambda>digit. digit_char (nat digit)) ?all) = ?all"
    unfolding map_map by (intro map_idI) (auto simp: nat_less_iff)
  moreover have "list_all is_digit (map (\<lambda>digit. digit_char (nat digit)) ?all)"
    using all by (auto simp: list_all_iff nat_less_iff)
  moreover have "(\<Sum>i \<leftarrow> [0..<9]. ?all ! i * (10 - int i)) = sum_list (map (\<lambda>(digit, weight). digit * weight) (zip digits ?w1))"
    "(\<Sum>i \<leftarrow> [0..<10]. ?all ! i * (11 - int i)) = sum_list (map (\<lambda>(digit, weight). digit * weight) (zip (digits @ [x]) ?w2))"
    by (simp_all add: ds upts)
  moreover have "?all ! 9 = x" "?all ! 10 = y" "length ?all = 11" by (simp_all add: ds)
  ultimately show ?thesis unfolding Let_def s using x(1) y(1) by (simp only: length_map simp_thms)
qed

section \<open>Witnesses\<close>

text \<open>A generator that counts: it shows the ranges can hold.\<close>

definition counting_rng :: "nat rng" where
  "counting_rng = \<lparr>rng_New = (\<lambda>seed. 0), rng_Int63n = (\<lambda>r n. (int r mod n, Suc r)), rng_Intn = (\<lambda>r n. (int r mod n, Suc r)),
     rng_Uint32 = (\<lambda>r. (int r mod 2 ^ 32, Suc r)), rng_Float64 = (\<lambda>r. (1 / 2, Suc r))\<rparr>"

lemma counting_rng_ranges: "rng_ranges counting_rng"
  by (simp add: rng_ranges_def counting_rng_def)

definition example_csv :: "ConsumePolicy \<Rightarrow> nat csvSource" where
  "example_csv policy = \<lparr>csv_name = ''users'', csv_columns = [''id''], csv_records = [[''7''], [''9'']],
     csv_consume = policy, csv_position = 0, csv_exhausted = False, csv_random = 0\<rparr>"

theorem csv_policies_witness:
  "csv_results counting_rng (example_csv ConsumeSequential) [0, 1, 2] ! 2 = Inl (RanOut ''users'' 2)
   \<and> csv_results counting_rng (example_csv ConsumeCircular) [0, 1, 2] ! 2 = Inr (csv_row (example_csv ConsumeCircular) 0)"
  using csv_policies[of "example_csv ConsumeSequential" "[0, 1, 2]" 2 counting_rng]
    csv_policies[of "example_csv ConsumeCircular" "[0, 1, 2]" 2 counting_rng]
  by (simp add: csv_expected_def example_csv_def del: csv_results.simps)

theorem generated_cpf_is_valid_witness:
  "length (fst (brazilianDocument counting_rng 1 9 cpfWeights)) = 11"
  using generated_cpf_is_valid[OF counting_rng_ranges, of 1] unfolding Let_def by blast

end
