(* ===== verification/Correlation.thy ===== *)
theory Correlation
  imports Model Interpolation
begin

text \<open>
  What a response gives to the next steps (\<open>internal/correlation/correlation.go\<close>) and what it has to
  satisfy (\<open>assertion.go\<close>).

  The regular expressions of Go, the JSON reader \<open>gjson\<close> and the shortest decimal spelling of a float
  are the fields of \<open>'x readers\<close>; \<open>'x\<close> is a compiled expression. The map of compiled expressions the
  package keeps is passed along as \<open>regexCompilados\<close>.
\<close>

record json_result =
  Js_Exists :: bool
  Js_Number :: bool
  Js_Float :: real
  Js_String :: string

record 'x readers =
  regexp_Compile :: "string \<Rightarrow> string + 'x"
  regexp_FindSubmatch :: "'x \<Rightarrow> string \<Rightarrow> string list option"
  regexp_Match :: "'x \<Rightarrow> string \<Rightarrow> bool"
  gjson_GetBytes :: "string \<Rightarrow> string \<Rightarrow> json_result"
  gjson_ValidBytes :: "string \<Rightarrow> bool"
  FormatFloat :: "real \<Rightarrow> string"

type_synonym 'x regexCompilados = "(string, 'x) gomap"

text \<open>\<open>compile\<close>: an expression is compiled once per process.\<close>

definition compile :: "'x readers \<Rightarrow> 'x regexCompilados \<Rightarrow> string \<Rightarrow> (string + 'x) \<times> 'x regexCompilados" where
  "compile rd cache expression =
    (case gget cache expression of
       Some compiled \<Rightarrow> (Inr compiled, cache)
     | None \<Rightarrow> (case regexp_Compile rd expression of
         Inl err \<Rightarrow> (Inl err, cache)
       | Inr compiled \<Rightarrow> (Inr compiled, gput cache expression compiled)))"

section \<open>Captures\<close>

record CaptureError =
  CE_Variable :: string
  CE_Expression :: string
  CE_Reason :: string

definition CaptureError_Error :: "CaptureError \<Rightarrow> string" where
  "CaptureError_Error e = ''I could not capture '' @ Quote (CE_Variable e) @ '' with '' @ CE_Expression e @ '': '' @ CE_Reason e"

definition capture_fails :: "Capture \<Rightarrow> string \<Rightarrow> CaptureError + string" where
  "capture_fails capture reason =
    Inl \<lparr>CE_Variable = Cap_Variable capture, CE_Expression = Cap_Expression capture, CE_Reason = reason\<rparr>"

definition PathToGJSON :: "string \<Rightarrow> string" where
  "PathToGJSON expression =
    (let path = TrimPrefix (TrimSpace expression) ''$'';
         path = TrimPrefix path ''.'';
         path = ReplaceAll path (CHR ''['') ''.'';
         path = ReplaceAll path (CHR '']'') ''''
     in path)"

definition extractFromJSON :: "'x readers \<Rightarrow> Capture \<Rightarrow> Response \<Rightarrow> CaptureError + string" where
  "extractFromJSON rd capture response =
    (let path = PathToGJSON (Cap_Expression capture);
         result = gjson_GetBytes rd (Resp_Body response) path
     in if \<not> Js_Exists result
        then (if \<not> gjson_ValidBytes rd (Resp_Body response)
              then capture_fails capture ''the response is not valid JSON''
              else capture_fails capture ''path not found in the response body'')
        else Inr (Js_String result))"

text \<open>The pair of one \<open>Set-Cookie\<close> value: what stands before the attributes, cut at the first \<open>=\<close>.\<close>

definition cookie_pair :: "string \<Rightarrow> string \<times> string \<times> bool" where
  "cookie_pair value = (case Cut value '';'' of (pair, _, _) \<Rightarrow> Cut (TrimSpace pair) ''='')"

fun find_cookie :: "string \<Rightarrow> string list \<Rightarrow> string option" where
  "find_cookie expression [] = None"
| "find_cookie expression (value # rest) =
    (case cookie_pair value of (cookie, content, found) \<Rightarrow>
       if found \<and> EqualFold (TrimSpace cookie) expression then Some (TrimSpace content)
       else find_cookie expression rest)"

fun cookie_loop :: "string \<Rightarrow> (string, string list) gomap \<Rightarrow> string option" where
  "cookie_loop expression [] = None"
| "cookie_loop expression ((name, header_values) # rest) =
    (if \<not> EqualFold name ''Set-Cookie'' then cookie_loop expression rest
     else case find_cookie expression header_values of
       Some content \<Rightarrow> Some content
     | None \<Rightarrow> cookie_loop expression rest)"

definition extractCookie :: "Capture \<Rightarrow> Response \<Rightarrow> CaptureError + string" where
  "extractCookie capture response =
    (case cookie_loop (Cap_Expression capture) (Resp_Headers response) of
       Some content \<Rightarrow> Inr content
     | None \<Rightarrow> capture_fails capture ''the response did not carry that cookie in Set-Cookie'')"

definition Extract :: "'x readers \<Rightarrow> 'x regexCompilados \<Rightarrow> Capture \<Rightarrow> Response \<Rightarrow>
    (CaptureError + string) \<times> 'x regexCompilados" where
  "Extract rd cache capture response =
    (case Cap_Origin capture of
       CaptureJSON \<Rightarrow> (extractFromJSON rd capture response, cache)
     | CaptureHeader \<Rightarrow>
         ((case List.find (\<lambda>(name, header_values). EqualFold name (Cap_Expression capture) \<and> header_values \<noteq> [])
                (Resp_Headers response) of
             Some (name, header_values) \<Rightarrow> Inr (hd header_values)
           | None \<Rightarrow> capture_fails capture ''header not present in the response''), cache)
     | CaptureCookie \<Rightarrow> (extractCookie capture response, cache)
     | CaptureRegex \<Rightarrow>
         (case compile rd cache (Cap_Expression capture) of
            (Inl err, cache) \<Rightarrow> (capture_fails capture (''invalid regular expression: '' @ err), cache)
          | (Inr compiled, cache) \<Rightarrow>
              ((case regexp_FindSubmatch rd compiled (Resp_Body response) of
                  None \<Rightarrow> capture_fails capture ''no match in the body''
                | Some groups \<Rightarrow> Inr (if length groups > 1 then groups ! 1 else groups ! 0)), cache))
     | CaptureStatus \<Rightarrow> (Inr (fmt_d (Resp_Status response)), cache)
     | CaptureBody \<Rightarrow> (Inr (Resp_Body response), cache)
     | CaptureUnknown \<Rightarrow> (capture_fails capture ''unknown capture source'', cache))"

section \<open>Assertions\<close>

record AssertionFailure =
  AF_Description :: string
  AF_Expected :: string
  AF_Obtained :: string

definition AssertionFailure_Error :: "AssertionFailure \<Rightarrow> string" where
  "AssertionFailure_Error failure =
    AF_Description failure @ '': expected '' @ AF_Expected failure @ '', got '' @ AF_Obtained failure"

definition failure_of :: "string \<Rightarrow> string \<Rightarrow> string \<Rightarrow> AssertionFailure option" where
  "failure_of description expected obtained =
    Some \<lparr>AF_Description = description, AF_Expected = expected, AF_Obtained = obtained\<rparr>"

definition serves :: "Operator \<Rightarrow> real \<Rightarrow> real \<Rightarrow> bool" where
  "serves operator obtained expected =
    (case operator of
       OpLess \<Rightarrow> obtained < expected
     | OpLessOrEqual \<Rightarrow> obtained \<le> expected
     | OpGreater \<Rightarrow> obtained > expected
     | OpGreaterOrEqual \<Rightarrow> obtained \<ge> expected
     | OpNotEqual \<Rightarrow> obtained \<noteq> expected
     | _ \<Rightarrow> obtained = expected)"

definition compareNumbers :: "'x readers \<Rightarrow> Assertion \<Rightarrow> real \<Rightarrow> string \<Rightarrow> string \<Rightarrow> AssertionFailure option" where
  "compareNumbers rd assertion obtained expectedText description =
    (case ParseFloat (TrimSpace expectedText) of
       None \<Rightarrow> failure_of description expectedText ''the expected value is not a number''
     | Some expected \<Rightarrow>
         if serves (As_Operator assertion) obtained expected then None
         else let operator = operator_text (As_Operator assertion);
                  operator = (if operator = '''' then ''=='' else operator)
              in failure_of description (operator @ '' '' @ expectedText) (FormatFloat rd obtained))"

definition evaluateJSON :: "'x readers \<Rightarrow> Assertion \<Rightarrow> Response \<Rightarrow> string \<Rightarrow> AssertionFailure option" where
  "evaluateJSON rd assertion response expected =
    (let description = ''field '' @ As_Target assertion;
         result = gjson_GetBytes rd (Resp_Body response) (PathToGJSON (As_Target assertion));
         obtained = Js_String result
     in if As_Operator assertion = OpExists
        then (if Js_Exists result then None else failure_of description ''to be present in the response'' ''not present'')
        else if \<not> Js_Exists result then failure_of description (Quote expected) ''field not present in the response''
        else case (if Js_Number result then ParseFloat expected else None) of
          Some number \<Rightarrow> compareNumbers rd assertion (Js_Float result) (FormatFloat rd number) description
        | None \<Rightarrow>
            (case As_Operator assertion of
               OpNotEqual \<Rightarrow> if obtained \<noteq> expected then None
                 else failure_of description (''diferente de '' @ Quote expected) (Quote obtained)
             | OpContains \<Rightarrow> if Contains obtained expected then None
                 else failure_of description (''conter '' @ Quote expected) (Quote obtained)
             | _ \<Rightarrow> if obtained = expected then None
                 else failure_of description (Quote expected) (Quote obtained)))"

fun evaluateHeader :: "Assertion \<Rightarrow> string \<Rightarrow> (string, string list) gomap \<Rightarrow> AssertionFailure option" where
  "evaluateHeader assertion expected [] =
    failure_of (''header '' @ As_Target assertion) (Quote expected) ''header not present''"
| "evaluateHeader assertion expected ((name, header_values) # rest) =
    (if EqualFold name (As_Target assertion)
     then (if list_ex (\<lambda>value. value = expected \<or> As_Operator assertion = OpContains \<and> Contains value expected) header_values
           then None
           else failure_of (''header '' @ As_Target assertion) (Quote expected) (Quote (Join header_values '', '')))
     else evaluateHeader assertion expected rest)"

text \<open>The caller has already put the values in the text it expects: \<open>expected\<close> is \<open>resolve(assertion.Value)\<close>.\<close>

definition evaluate_resolved :: "'x readers \<Rightarrow> 'x regexCompilados \<Rightarrow> Assertion \<Rightarrow> Response \<Rightarrow> string \<Rightarrow>
    AssertionFailure option \<times> 'x regexCompilados" where
  "evaluate_resolved rd cache assertion response expected =
    (case As_Kind assertion of
       AssertStatus \<Rightarrow> (compareNumbers rd assertion (real_of_int (Resp_Status response)) expected ''status'', cache)
     | AssertBodyContains \<Rightarrow>
         ((if Contains (Resp_Body response) expected then None
           else failure_of ''response body'' (''contain '' @ Quote expected) ''body without that text''), cache)
     | AssertHeader \<Rightarrow> (evaluateHeader assertion expected (Resp_Headers response), cache)
     | AssertRegex \<Rightarrow>
         (case compile rd cache expected of
            (Inl err, cache) \<Rightarrow> (failure_of ''regular expression'' expected (''invalid expression: '' @ err), cache)
          | (Inr compiled, cache) \<Rightarrow>
              ((if regexp_Match rd compiled (Resp_Body response) then None
                else failure_of ''response body'' (''match /'' @ expected @ ''/'') ''no match''), cache))
     | AssertJSON \<Rightarrow> (evaluateJSON rd assertion response expected, cache)
     | AssertUnknown \<Rightarrow> (failure_of ''assertion'' '''' ''unknown kind'', cache))"

text \<open>\<open>Evaluate\<close> first calls \<open>resolve\<close>, which may change the state of the iteration.\<close>

definition Evaluate :: "'x readers \<Rightarrow> 'x regexCompilados \<Rightarrow> Assertion \<Rightarrow> Response \<Rightarrow> (string \<Rightarrow> 's \<Rightarrow> string \<times> 's) \<Rightarrow> 's \<Rightarrow>
    AssertionFailure option \<times> 'x regexCompilados \<times> 's" where
  "Evaluate rd cache assertion response resolve s =
    (case resolve (As_Value assertion) s of (expected, s) \<Rightarrow>
       case evaluate_resolved rd cache assertion response expected of (failure, cache) \<Rightarrow> (failure, cache, s))"

section \<open>The map of compiled expressions changes nothing\<close>

definition cache_sound :: "'x readers \<Rightarrow> 'x regexCompilados \<Rightarrow> bool" where
  "cache_sound rd cache \<longleftrightarrow> (\<forall>expression compiled. gget cache expression = Some compiled \<longrightarrow> regexp_Compile rd expression = Inr compiled)"

lemma compile_sound:
  assumes "cache_sound rd cache"
  shows "fst (compile rd cache expression) = regexp_Compile rd expression"
    and "cache_sound rd (snd (compile rd cache expression))"
  using assms by (auto simp: compile_def cache_sound_def split: option.splits sum.splits if_splits)

lemma empty_cache_sound: "cache_sound rd []"
  by (simp add: cache_sound_def gget_def)

text \<open>The map after any expressions have been compiled in the process.\<close>

definition compiled_so_far :: "'x readers \<Rightarrow> string list \<Rightarrow> 'x regexCompilados" where
  "compiled_so_far rd = foldl (\<lambda>cache expression. snd (compile rd cache expression)) []"

lemma compiled_so_far_sound: "cache_sound rd (compiled_so_far rd expressions)"
proof -
  have "cache_sound rd cache \<Longrightarrow> cache_sound rd (foldl (\<lambda>cache e. snd (compile rd cache e)) cache expressions)" for cache
    by (induction expressions arbitrary: cache) (simp_all add: compile_sound)
  from this[OF empty_cache_sound] show ?thesis by (simp add: compiled_so_far_def)
qed

lemma compile_pair: "cache_sound rd cache \<Longrightarrow> \<exists>cache'. compile rd cache expression = (regexp_Compile rd expression, cache')"
  using compile_sound(1)[of rd cache expression] by (metis eq_fst_iff)

lemma Extract_sound:
  assumes "cache_sound rd cache" "cache_sound rd cache'"
  shows "fst (Extract rd cache capture response) = fst (Extract rd cache' capture response)"
proof -
  obtain c1 c2 where "compile rd cache (Cap_Expression capture) = (regexp_Compile rd (Cap_Expression capture), c1)"
      "compile rd cache' (Cap_Expression capture) = (regexp_Compile rd (Cap_Expression capture), c2)"
    using assms compile_pair by blast
  then show ?thesis
    by (cases "regexp_Compile rd (Cap_Expression capture)") (simp_all add: Extract_def split: CaptureOrigin.split)
qed

lemma evaluate_sound:
  assumes "cache_sound rd cache" "cache_sound rd cache'"
  shows "fst (evaluate_resolved rd cache assertion response expected) = fst (evaluate_resolved rd cache' assertion response expected)"
proof -
  obtain c1 c2 where "compile rd cache expected = (regexp_Compile rd expected, c1)"
      "compile rd cache' expected = (regexp_Compile rd expected, c2)"
    using assms compile_pair by blast
  then show ?thesis
    by (cases "regexp_Compile rd expected") (simp_all add: evaluate_resolved_def split: AssertionKind.split)
qed

text \<open>Whatever expressions have been compiled before, in whatever order, a capture and an assertion give what they
  would give in a fresh process: the shared map of compiled expressions is never seen.\<close>

theorem regex_cache_transparent:
  "fst (Extract rd (compiled_so_far rd expressions) capture response) = fst (Extract rd [] capture response)
   \<and> fst (evaluate_resolved rd (compiled_so_far rd expressions) assertion response expected)
     = fst (evaluate_resolved rd [] assertion response expected)"
  using Extract_sound[OF compiled_so_far_sound empty_cache_sound] evaluate_sound[OF compiled_so_far_sound empty_cache_sound]
  by blast

section \<open>Cookies\<close>

lemma find_cookie_Some:
  "find_cookie expression header_values = Some v \<Longrightarrow>
   \<exists>value \<in> set header_values. \<exists>cookie content. cookie_pair value = (cookie, content, True)
     \<and> EqualFold (TrimSpace cookie) expression \<and> v = TrimSpace content"
  by (induction expression header_values rule: find_cookie.induct) (auto split: prod.splits if_splits)

lemma cookie_loop_Some:
  "cookie_loop expression headers = Some v \<Longrightarrow>
   \<exists>(name, header_values) \<in> set headers. EqualFold name ''Set-Cookie'' \<and> find_cookie expression header_values = Some v"
  by (induction expression headers rule: cookie_loop.induct) (auto split: option.splits if_splits)

lemma cookie_loop_None:
  "cookie_loop expression headers = None \<longleftrightarrow>
   (\<forall>(name, header_values) \<in> set headers. EqualFold name ''Set-Cookie'' \<longrightarrow> find_cookie expression header_values = None)"
  by (induction expression headers rule: cookie_loop.induct) (auto split: option.splits if_splits)

lemma find_cookie_None:
  "find_cookie expression header_values = None \<longleftrightarrow>
   (\<forall>value \<in> set header_values. \<not> (snd (snd (cookie_pair value)) \<and> EqualFold (TrimSpace (fst (cookie_pair value))) expression))"
  by (induction expression header_values rule: find_cookie.induct) (auto split: prod.splits if_splits)

text \<open>What a pair is, without the functions that find it.\<close>

definition is_pair_of :: "string \<Rightarrow> string \<Rightarrow> string \<Rightarrow> bool" where
  "is_pair_of value cookie content \<longleftrightarrow>
    (\<exists>pair attributes. value = pair @ attributes \<and> CHR '';'' \<notin> set pair \<and> (attributes = [] \<or> hd attributes = CHR '';'')
       \<and> TrimSpace pair = cookie @ CHR ''='' # content \<and> CHR ''='' \<notin> set cookie)"

lemma cookie_pair_is_pair:
  assumes "cookie_pair value = (cookie, content, True)"
  shows "is_pair_of value cookie content" "CHR '';'' \<notin> set (TrimSpace content)"
proof -
  obtain pair attributes found where cut: "Cut value '';'' = (pair, attributes, found)" by (metis prod_cases3)
  with assms have eq: "Cut (TrimSpace pair) ''='' = (cookie, content, True)" by (simp add: cookie_pair_def)
  note pair = Cut_char[OF cut] and content = Cut_char[OF eq]
  then show "is_pair_of value cookie content"
    unfolding is_pair_of_def by (intro exI[of _ pair] exI[of _ "if found then CHR '';'' # attributes else []"]) auto
  have "set content \<subseteq> set pair" using content set_TrimSpace[of pair] by auto
  with pair show "CHR '';'' \<notin> set (TrimSpace content)" using set_TrimSpace[of content] by blast
qed

text \<open>A captured cookie is the content of the pair of some \<open>Set-Cookie\<close> header whose name is the one asked for, and the
  attributes that follow the pair never enter it.\<close>

theorem extractCookie_takes_the_pair:
  assumes "extractCookie capture response = Inr v"
  shows "CHR '';'' \<notin> set v \<and>
    (\<exists>name header_values value cookie content. (name, header_values) \<in> set (Resp_Headers response)
      \<and> EqualFold name ''Set-Cookie'' \<and> value \<in> set header_values \<and> is_pair_of value cookie content
      \<and> EqualFold (TrimSpace cookie) (Cap_Expression capture) \<and> v = TrimSpace content)"
proof -
  from assms have "cookie_loop (Cap_Expression capture) (Resp_Headers response) = Some v"
    by (simp add: extractCookie_def capture_fails_def split: option.splits)
  then obtain name header_values where header: "(name, header_values) \<in> set (Resp_Headers response)" "EqualFold name ''Set-Cookie''"
      "find_cookie (Cap_Expression capture) header_values = Some v"
    using cookie_loop_Some by fastforce
  then obtain line cookie content where found: "line \<in> set header_values" "cookie_pair line = (cookie, content, True)"
      "EqualFold (TrimSpace cookie) (Cap_Expression capture)" "v = TrimSpace content"
    using find_cookie_Some by metis
  from header(1,2) found cookie_pair_is_pair[OF found(2)] show ?thesis by blast
qed

section \<open>Assertions on a field\<close>

text \<open>On a numeric field with a numeric expected value, an assertion passes exactly when the comparison it names holds
  between the two numbers, the detour of the expected value through its decimal spelling included.\<close>

theorem evaluateJSON_compares_numbers:
  assumes "Js_Exists (gjson_GetBytes rd (Resp_Body response) (PathToGJSON (As_Target assertion)))"
    and "Js_Number (gjson_GetBytes rd (Resp_Body response) (PathToGJSON (As_Target assertion)))"
    and "ParseFloat expected = Some number"
    and spelling: "ParseFloat (TrimSpace (FormatFloat rd number)) = Some number"
    and "As_Operator assertion \<noteq> OpExists"
  shows "evaluateJSON rd assertion response expected = None \<longleftrightarrow>
    serves (As_Operator assertion) (Js_Float (gjson_GetBytes rd (Resp_Body response) (PathToGJSON (As_Target assertion)))) number"
  using assms by (simp add: evaluateJSON_def compareNumbers_def failure_of_def Let_def)

text \<open>On a field that is not a number an order is read as equality: the text \<open>5\<close> is accepted as less than \<open>5\<close>.\<close>

lemma order_on_text_is_equality:
  assumes "Js_Exists (gjson_GetBytes rd (Resp_Body response) (PathToGJSON (As_Target assertion)))"
    and "\<not> Js_Number (gjson_GetBytes rd (Resp_Body response) (PathToGJSON (As_Target assertion)))"
    and "As_Operator assertion \<in> {OpLess, OpLessOrEqual, OpGreater, OpGreaterOrEqual}"
  shows "evaluateJSON rd assertion response expected = None \<longleftrightarrow>
    Js_String (gjson_GetBytes rd (Resp_Body response) (PathToGJSON (As_Target assertion))) = expected"
  using assms by (auto simp: evaluateJSON_def failure_of_def Let_def)

section \<open>Witnesses\<close>

definition example_readers :: "unit readers" where
  "example_readers = \<lparr>regexp_Compile = (\<lambda>_. Inr ()), regexp_FindSubmatch = (\<lambda>_ body. Some [body]), regexp_Match = (\<lambda>_ _. True),
     gjson_GetBytes = (\<lambda>body path. \<lparr>Js_Exists = path = ''invoice.amount'', Js_Number = True, Js_Float = 1999 / 10, Js_String = ''199.9''\<rparr>),
     gjson_ValidBytes = (\<lambda>_. True), FormatFloat = (\<lambda>_. ''500'')\<rparr>"

definition example_response :: Response where
  "example_response = \<lparr>Resp_Status = 200, Resp_Body = ''{}'',
     Resp_Headers = [(''set-cookie'', [''trace=zzz; Path=/'', ''session=8f3a; Path=/; HttpOnly''])],
     Resp_Bytes = 0, Resp_Messages = 0, Resp_Class = Success, Resp_Detail = '''', Resp_Key = '''',
     Resp_Attributes = [], Resp_Collapses = []\<rparr>"

definition example_cookie :: Capture where
  "example_cookie = \<lparr>Cap_Variable = ''sid'', Cap_Origin = CaptureCookie, Cap_Expression = ''Session'', Cap_Required = True, Cap_Default = ''''\<rparr>"

lemma example_cookie_value: "extractCookie example_cookie example_response = Inr ''8f3a''"
  by code_simp

theorem extractCookie_takes_the_pair_witness:
  "extractCookie example_cookie example_response = Inr ''8f3a'' \<and> CHR '';'' \<notin> set ''8f3a''"
  using extractCookie_takes_the_pair[OF example_cookie_value] example_cookie_value by blast

definition example_assertion :: Assertion where
  "example_assertion = \<lparr>As_Kind = AssertJSON, As_Target = ''$.invoice.amount'', As_Operator = OpLess, As_Value = ''500''\<rparr>"

lemma example_path: "PathToGJSON ''$.invoice.amount'' = ''invoice.amount''"
  by code_simp

lemma ParseFloat_500: "ParseFloat ''500'' = Some 500"
proof -
  have "show_nat 500 = ''500''" by code_simp
  with ParseFloat_show_nat[of 500] show ?thesis by simp
qed

lemma TrimSpace_500: "TrimSpace ''500'' = ''500''"
  by code_simp

theorem evaluateJSON_compares_numbers_witness:
  "evaluateJSON example_readers example_assertion example_response ''500'' = None"
proof -
  have "Js_Exists (gjson_GetBytes example_readers (Resp_Body example_response) (PathToGJSON (As_Target example_assertion)))"
       "Js_Number (gjson_GetBytes example_readers (Resp_Body example_response) (PathToGJSON (As_Target example_assertion)))"
       "ParseFloat (TrimSpace (FormatFloat example_readers 500)) = Some 500" "As_Operator example_assertion \<noteq> OpExists"
    by (simp_all add: example_readers_def example_assertion_def example_path ParseFloat_500 TrimSpace_500)
  from evaluateJSON_compares_numbers[OF this(1,2) ParseFloat_500 this(3,4)]
  show ?thesis by (simp add: serves_def example_assertion_def example_readers_def)
qed

end
