(* ===== verification/Clock.thy ===== *)
theory Clock
  imports Prelude
begin

text \<open>
  The clocks of the engine (\<open>internal/engine/clock.go\<close>): the interface \<open>Clock\<close>, the clock of the
  machine with its final spin, and the virtual clock of the tests.

  Reading a clock and waiting on it change the world \<open>'w\<close> the clock lives in. \<open>WaitUntil\<close> answers
  \<open>None\<close> when it never returns. The locale \<open>clock\<close> is what the engine relies on, stated over the
  instant \<open>reading\<close> the world stands at.
\<close>

record 'w Clock =
  Clock_Now :: "'w \<Rightarrow> Time \<times> 'w"
  Clock_WaitUntil :: "Time \<Rightarrow> 'w \<Rightarrow> 'w option"

locale clock =
  fixes now :: "'w \<Rightarrow> Time \<times> 'w"
    and wait_until :: "Time \<Rightarrow> 'w \<Rightarrow> 'w option"
    and reading :: "'w \<Rightarrow> Time"
  assumes now_reads: "now w = (t, w') \<Longrightarrow> reading w \<le> t \<and> reading w' = t"
    and wait_reaches: "wait_until instant w = Some w' \<Longrightarrow> instant \<le> reading w' \<and> reading w \<le> reading w'"
begin

text \<open>The order of the engine: wait for the scheduled instant, then read the instant of the dispatch.\<close>

lemma dispatch_after_schedule:
  assumes "wait_until scheduled w = Some w1" "now w1 = (dispatch, w2)"
  shows "scheduled \<le> dispatch" "reading w \<le> dispatch" "reading w2 = dispatch"
  using now_reads[OF assms(2)] wait_reaches[OF assms(1)] by auto

lemma now_nondecreasing: "now w = (t, w') \<Longrightarrow> now w' = (u, w'') \<Longrightarrow> t \<le> u"
  using now_reads by metis

lemma now_reads_snd: "reading w \<le> fst (now w)" "reading (snd (now w)) = fst (now w)"
  using now_reads[of w "fst (now w)" "snd (now w)"] by simp_all

end

text \<open>A clock whose waits return, as long as what keeps it going (\<open>live\<close>) lasts.\<close>

locale live_clock = clock now wait_until reading
  for now :: "'w \<Rightarrow> Time \<times> 'w" and wait_until :: "Time \<Rightarrow> 'w \<Rightarrow> 'w option" and reading :: "'w \<Rightarrow> Time" +
  fixes live :: "'w \<Rightarrow> bool"
  assumes wait_returns: "live w \<Longrightarrow> wait_until instant w \<noteq> None"
    and wait_keeps_live: "wait_until instant w = Some w' \<Longrightarrow> live w \<Longrightarrow> live w'"
    and now_keeps_live: "now w = (t, w') \<Longrightarrow> live w \<Longrightarrow> live w'"
begin

text \<open>So a dispatch always comes: the wait ends and the clock is read at the scheduled instant or after it.\<close>

lemma dispatch_comes:
  assumes "live w"
  obtains w1 dispatch w2 where "wait_until scheduled w = Some w1" "now w1 = (dispatch, w2)" "live w2"
proof -
  from wait_returns[OF assms] obtain w1 where w1: "wait_until scheduled w = Some w1" by blast
  obtain t w2 where w2: "now w1 = (t, w2)" by fastforce
  from that[OF w1 w2] now_keeps_live[OF w2 wait_keeps_live[OF w1 assms]] show thesis .
qed

end

section \<open>The virtual clock\<close>

record VirtualClock =
  vc_now :: Time
  vc_Esperas :: "Time list"

definition NewVirtualClock :: "Time \<Rightarrow> VirtualClock" where
  "NewVirtualClock start = \<lparr>vc_now = start, vc_Esperas = []\<rparr>"

definition virtual_Now :: "VirtualClock \<Rightarrow> Time \<times> VirtualClock" where
  "virtual_Now v = (vc_now v, v)"

definition virtual_WaitUntil :: "Time \<Rightarrow> VirtualClock \<Rightarrow> VirtualClock option" where
  "virtual_WaitUntil instant v =
    (let v = v\<lparr>vc_Esperas := vc_Esperas v @ [instant]\<rparr>
     in Some (if instant > vc_now v then v\<lparr>vc_now := instant\<rparr> else v))"

definition Advance :: "Duration \<Rightarrow> VirtualClock \<Rightarrow> VirtualClock" where
  "Advance duration v = v\<lparr>vc_now := vc_now v + duration\<rparr>"

interpretation virtual: clock virtual_Now virtual_WaitUntil vc_now
  by unfold_locales (auto simp: virtual_Now_def virtual_WaitUntil_def Let_def split: if_splits)

interpretation virtual: live_clock virtual_Now virtual_WaitUntil vc_now "\<lambda>v. True"
  by unfold_locales (simp_all add: virtual_WaitUntil_def Let_def)

section \<open>The clock of the machine\<close>

text \<open>
  \<open>time.Now\<close> reads a monotonic clock and \<open>time.Sleep\<close> pauses for at least what it was asked. The machine
  is the time at its last action and how many nanoseconds each later action takes: \<open>mc_elapsed k\<close> is
  what passes before the \<open>k\<close>-th reading, or beyond the pause asked for when the action is a sleep.
\<close>

record machine =
  mc_wall :: Time
  mc_actions :: nat
  mc_elapsed :: "nat \<Rightarrow> nat"

definition time_Now :: "machine \<Rightarrow> Time \<times> machine" where
  "time_Now m = (let t = mc_wall m + int (mc_elapsed m (mc_actions m)) in (t, m\<lparr>mc_wall := t, mc_actions := Suc (mc_actions m)\<rparr>))"

definition time_Sleep :: "Duration \<Rightarrow> machine \<Rightarrow> machine" where
  "time_Sleep d m = m\<lparr>mc_wall := mc_wall m + max 0 d + int (mc_elapsed m (mc_actions m)), mc_actions := Suc (mc_actions m)\<rparr>"

partial_function (option) spin :: "Time \<Rightarrow> machine \<Rightarrow> machine option" where
  "spin instant m = (case time_Now m of (t, m') \<Rightarrow> if t < instant then spin instant m' else Some m')"

definition system_WaitUntil :: "Time \<Rightarrow> machine \<Rightarrow> machine option" where
  "system_WaitUntil instant m =
    (case time_Now m of (t, m) \<Rightarrow>
       let remaining = instant - t
       in if remaining \<le> 0 then Some m
          else let m = (if remaining > 2 * Millisecond then time_Sleep (remaining - 1500 * Microsecond) m else m)
               in spin instant m)"

lemma spin_reaches:
  assumes "spin instant m = Some m'"
  shows "instant \<le> mc_wall m' \<and> mc_wall m \<le> mc_wall m'"
proof (rule spin.raw_induct[OF _ assms])
  fix spin instant m m'
  assume "\<And>instant m m'. spin instant m = Some m' \<Longrightarrow> instant \<le> mc_wall m' \<and> mc_wall m \<le> mc_wall m'"
    and "(case time_Now m of (t, m') \<Rightarrow> if t < instant then spin instant m' else Some m') = Some m'"
  then show "instant \<le> mc_wall m' \<and> mc_wall m \<le> mc_wall m'"
    by (fastforce simp: time_Now_def Let_def split: if_splits)
qed

lemma time_Now_reads: "time_Now m = (t, m') \<Longrightarrow> mc_wall m \<le> t \<and> mc_wall m' = t \<and> mc_elapsed m' = mc_elapsed m"
  by (auto simp: time_Now_def Let_def)

lemma time_Sleep_reads: "mc_wall m \<le> mc_wall (time_Sleep d m)"
  by (simp add: time_Sleep_def)

lemma system_WaitUntil_reaches:
  assumes "system_WaitUntil instant m = Some m'"
  shows "instant \<le> mc_wall m' \<and> mc_wall m \<le> mc_wall m'"
proof -
  obtain t m1 where now: "time_Now m = (t, m1)" by fastforce
  let ?m = "if instant - t > 2 * Millisecond then time_Sleep (instant - t - 1500 * Microsecond) m1 else m1"
  have "mc_wall m1 \<le> mc_wall ?m" using time_Sleep_reads by simp
  moreover from assms now have "instant - t \<le> 0 \<and> m' = m1 \<or> spin instant ?m = Some m'"
    by (auto simp: system_WaitUntil_def Let_def split: if_splits)
  ultimately show ?thesis using time_Now_reads[OF now] spin_reaches[of instant ?m m'] by auto
qed

interpretation system: clock time_Now system_WaitUntil mc_wall
  using time_Now_reads system_WaitUntil_reaches by unfold_locales blast+

section \<open>The spin ends, and ends on time\<close>

definition keeps_ticking :: "machine \<Rightarrow> bool" where
  "keeps_ticking m \<longleftrightarrow> (\<forall>n. \<exists>k \<ge> n. 0 < mc_elapsed m k)"

definition after_reading :: "machine \<Rightarrow> machine" where
  "after_reading m = snd (time_Now m)"

lemma after_reading_fields [simp]:
  "mc_wall (after_reading m) = mc_wall m + int (mc_elapsed m (mc_actions m))"
  "mc_actions (after_reading m) = Suc (mc_actions m)"
  "mc_elapsed (after_reading m) = mc_elapsed m"
  by (simp_all add: after_reading_def time_Now_def Let_def)

lemma spin_step:
  "spin instant m = (if mc_wall (after_reading m) < instant then spin instant (after_reading m) else Some (after_reading m))"
  by (subst spin.simps) (simp add: after_reading_def time_Now_def Let_def)

lemma system_WaitUntil_eq:
  "system_WaitUntil instant m =
    (let m = after_reading m; remaining = instant - mc_wall m
     in if remaining \<le> 0 then Some m
        else spin instant (if remaining > 2 * Millisecond then time_Sleep (remaining - 1500 * Microsecond) m else m))"
  by (simp add: system_WaitUntil_def after_reading_def time_Now_def Let_def)

lemma keeps_ticking_after [simp]: "keeps_ticking (after_reading m) \<longleftrightarrow> keeps_ticking m"
  by (simp add: keeps_ticking_def)

text \<open>Until the next reading that shows progress the spin stays where it is; that reading brings the instant nearer.\<close>

lemma spin_ends_from:
  assumes nearer: "\<And>m'. keeps_ticking m' \<Longrightarrow> mc_wall m < mc_wall m' \<Longrightarrow> spin instant m' \<noteq> None"
    and "keeps_ticking m" and "mc_actions m \<le> k" and "0 < mc_elapsed m k"
  shows "spin instant m \<noteq> None"
  using assms
proof (induction "k - mc_actions m" arbitrary: m)
  case 0
  then have "mc_wall m < mc_wall (after_reading m)" by simp
  with 0 show ?case by (subst spin_step) auto
next
  case (Suc d)
  have "spin instant (after_reading m) \<noteq> None"
  proof (rule Suc(1))
    fix m' assume "keeps_ticking m'" "mc_wall (after_reading m) < mc_wall m'"
    with Suc(3) show "spin instant m' \<noteq> None" by simp
  qed (use Suc in auto)
  then show ?case by (subst spin_step) auto
qed

lemma spin_ends: "keeps_ticking m \<Longrightarrow> spin instant m \<noteq> None"
proof (induction "nat (instant - mc_wall m)" arbitrary: m rule: less_induct)
  case less
  from less(2) obtain k where k: "mc_actions m \<le> k" "0 < mc_elapsed m k" by (auto simp: keeps_ticking_def)
  show ?case
  proof (cases "mc_wall m < instant")
    case True
    show ?thesis
    proof (rule spin_ends_from[OF _ less(2) k])
      fix m' assume "keeps_ticking m'" "mc_wall m < mc_wall m'"
      with True less(1)[of m'] show "spin instant m' \<noteq> None" by simp
    qed
  next
    case False
    then show ?thesis by (subst spin_step) simp
  qed
qed

lemma keeps_ticking_Sleep [simp]: "keeps_ticking (time_Sleep d m) \<longleftrightarrow> keeps_ticking m"
  by (simp add: keeps_ticking_def time_Sleep_def)

lemma system_WaitUntil_ends: "keeps_ticking m \<Longrightarrow> system_WaitUntil instant m \<noteq> None"
  using spin_ends by (simp add: system_WaitUntil_eq Let_def del: after_reading_fields)

text \<open>On a machine whose clock keeps moving, waiting for an instant returns, and it returns at that instant or after
  it, however far away the instant is.\<close>

theorem WaitUntil_returns:
  assumes "keeps_ticking m"
  shows "\<exists>m'. system_WaitUntil instant m = Some m' \<and> instant \<le> mc_wall m'"
  using system_WaitUntil_ends[OF assms] system_WaitUntil_reaches by blast

lemma spin_elapsed:
  assumes "spin instant m = Some m'"
  shows "mc_elapsed m' = mc_elapsed m"
proof (rule spin.raw_induct[OF _ assms])
  fix spin instant m m'
  assume "\<And>instant m m'. spin instant m = Some m' \<Longrightarrow> mc_elapsed m' = mc_elapsed m"
    and "(case time_Now m of (t, m') \<Rightarrow> if t < instant then spin instant m' else Some m') = Some m'"
  then show "mc_elapsed m' = mc_elapsed m"
    by (fastforce simp: time_Now_def Let_def split: if_splits)
qed

interpretation system: live_clock time_Now system_WaitUntil mc_wall keeps_ticking
proof unfold_locales
  show "system_WaitUntil instant m \<noteq> None" if "keeps_ticking m" for instant m using that by (rule system_WaitUntil_ends)
  show "keeps_ticking m'" if "system_WaitUntil instant m = Some m'" "keeps_ticking m" for instant m m'
  proof -
    from that(1) have "mc_elapsed m' = mc_elapsed m"
      by (auto simp: system_WaitUntil_eq Let_def time_Sleep_def dest: spin_elapsed split: if_splits)
    with that(2) show ?thesis by (simp add: keeps_ticking_def)
  qed
  show "keeps_ticking m'" if "time_Now m = (t, m')" "keeps_ticking m" for m t m'
    using that time_Now_reads by (simp add: keeps_ticking_def)
qed

lemma spin_punctual:
  assumes "spin instant m = Some m'" and "mc_wall m \<le> instant" and "\<And>k. int (mc_elapsed m k) \<le> d"
  shows "mc_wall m' \<le> instant + d"
proof -
  have "mc_wall m \<le> instant \<longrightarrow> (\<forall>k. int (mc_elapsed m k) \<le> d) \<longrightarrow> mc_wall m' \<le> instant + d"
  proof (rule spin.raw_induct[OF _ assms(1)])
    fix spin instant m m'
    assume ih: "\<And>instant m m'. spin instant m = Some m' \<Longrightarrow> mc_wall m \<le> instant \<longrightarrow> (\<forall>k. int (mc_elapsed m k) \<le> d) \<longrightarrow> mc_wall m' \<le> instant + d"
      and run: "(case time_Now m of (t, m') \<Rightarrow> if t < instant then spin instant m' else Some m') = Some m'"
    have "(case time_Now m of (t, m') \<Rightarrow> if t < instant then spin instant m' else Some m') =
        (if mc_wall (after_reading m) < instant then spin instant (after_reading m) else Some (after_reading m))"
      by (simp add: after_reading_def time_Now_def Let_def)
    with run have "mc_wall (after_reading m) < instant \<and> spin instant (after_reading m) = Some m' \<or> m' = after_reading m"
      by (metis option.inject)
    with ih[of instant "after_reading m" m']
    show "mc_wall m \<le> instant \<longrightarrow> (\<forall>k. int (mc_elapsed m k) \<le> d) \<longrightarrow> mc_wall m' \<le> instant + d"
      by (auto simp: add_mono)
  qed
  with assms(2,3) show ?thesis by blast
qed

text \<open>A wait that begins before its instant ends at most one reading of the clock after it, when no reading and no
  sleep takes longer than the millisecond and a half the final spin is given.\<close>

theorem WaitUntil_punctual:
  assumes "system_WaitUntil instant m = Some m'" and "\<And>k. int (mc_elapsed m k) \<le> d" and "d \<le> 1500 * Microsecond"
    and "fst (time_Now m) < instant"
  shows "instant \<le> mc_wall m' \<and> mc_wall m' \<le> instant + d"
proof -
  let ?m = "if instant - fst (time_Now m) > 2 * Millisecond
            then time_Sleep (instant - fst (time_Now m) - 1500 * Microsecond) (after_reading m) else after_reading m"
  have fst: "fst (time_Now m) = mc_wall (after_reading m)" by (simp add: after_reading_def time_Now_def Let_def)
  from assms(1,4) have "spin instant ?m = Some m'"
    unfolding fst system_WaitUntil_eq by (simp add: Let_def)
  moreover from assms(2)[of "Suc (mc_actions m)"] assms(3,4) have "mc_wall ?m \<le> instant"
    unfolding fst by (simp add: time_Sleep_def)
  moreover have "int (mc_elapsed ?m k) \<le> d" for k using assms(2)[of k] by (simp add: time_Sleep_def)
  ultimately have "mc_wall m' \<le> instant + d" by (rule spin_punctual)
  with system_WaitUntil_reaches[OF assms(1)] show ?thesis by simp
qed

section \<open>Witnesses\<close>

definition example_clockwork :: machine where
  "example_clockwork = \<lparr>mc_wall = 0, mc_actions = 0, mc_elapsed = (\<lambda>k. if even k then 0 else 700)\<rparr>"

lemma example_clockwork_ticks: "keeps_ticking example_clockwork"
proof -
  have "\<exists>k \<ge> n. odd k" for n :: nat by (rule exI[of _ "Suc (2 * n)"]) simp
  then show ?thesis unfolding keeps_ticking_def example_clockwork_def by fastforce
qed

theorem WaitUntil_returns_witness: "\<exists>m'. system_WaitUntil 5000000 example_clockwork = Some m' \<and> 5000000 \<le> mc_wall m'"
  by (rule WaitUntil_returns[OF example_clockwork_ticks])

lemma example_wait: "system_WaitUntil 1000 example_clockwork = Some (example_clockwork\<lparr>mc_wall := 1400, mc_actions := 4\<rparr>)"
proof -
  have "spin 1000 (example_clockwork\<lparr>mc_actions := 1\<rparr>) = Some (example_clockwork\<lparr>mc_wall := 1400, mc_actions := 4\<rparr>)"
    by (subst spin_step, subst spin_step, subst spin_step)
       (simp add: example_clockwork_def after_reading_def time_Now_def Let_def)
  then show ?thesis
    by (simp add: system_WaitUntil_def time_Now_def Let_def example_clockwork_def)
qed

theorem WaitUntil_punctual_witness: "(1000::int) \<le> 1400 \<and> (1400::int) \<le> 1000 + 700"
  using WaitUntil_punctual[OF example_wait, of 700] by (simp add: example_clockwork_def time_Now_def Let_def)

end
