(* ===== verification/Auth.thy ===== *)
theory Auth
  imports Model Values Clock
begin

text \<open>
  The credential of a run (\<open>internal/auth/auth.go\<close>): the header of an iteration, the request that
  obtains a token and when it is made again.

  \<open>'s\<close> is the state outside the manager: the clock, the target, the data sources. The manager reads
  the clock with \<open>now\<close>, runs the auth request with \<open>execute\<close>, and resolves its texts with the values
  of the iteration (\<open>generate\<close> and \<open>env\<close> are those of \<open>Values.Resolve\<close>). The mutex makes \<open>ensureToken\<close>
  one step.
\<close>

record 'c Manager =
  Man_config :: "'c Auth"
  Man_values :: "(string, string) gomap"
  Man_obtained :: bool
  Man_obtidoEm :: Time
  Man_Obtains :: int

type_synonym ('c, 'g, 's) RunStep = "'c Step \<Rightarrow> 'g Values \<Rightarrow> 's \<Rightarrow> (string + Response) \<times> 'g Values \<times> 's"

definition NewManager :: "'c Auth \<Rightarrow> 'c Manager" where
  "NewManager config = \<lparr>Man_config = config, Man_values = [], Man_obtained = False, Man_obtidoEm = zeroTime, Man_Obtains = 0\<rparr>"

definition venceu :: "('s \<Rightarrow> Time \<times> 's) \<Rightarrow> 'c Manager \<Rightarrow> 's \<Rightarrow> bool \<times> 's" where
  "venceu now manager s =
    (if Auth_RefreshAfter (Man_config manager) \<le> 0 then (False, s)
     else case now s of (t, s) \<Rightarrow> (t - Man_obtidoEm manager \<ge> Auth_RefreshAfter (Man_config manager), s))"

text \<open>What the auth request produced: every value that was not there before it, or was another one.\<close>

definition produced :: "(string, string) gomap \<Rightarrow> (string, string) gomap \<Rightarrow> (string, string) gomap" where
  "produced input outcome = foldl (\<lambda>kept (name, value). if gget input name = Some value then kept else gput kept name value) [] outcome"

definition obtain_token :: "'c config_methods \<Rightarrow> ('c, 'g, 's) RunStep \<Rightarrow> ('s \<Rightarrow> Time \<times> 's) \<Rightarrow> 'c Step \<Rightarrow> 'c Manager \<Rightarrow>
    'g Values \<Rightarrow> 's \<Rightarrow> string option \<times> 'c Manager \<times> 's" where
  "obtain_token methods execute now step manager iteration_values s =
    (let input = vals iteration_values; obtainValues = New 0 0 input
     in case execute step obtainValues s of
       (Inl err, _, s) \<Rightarrow> (Some (''could not obtain the credential ('' @ AggregationKey methods step @ ''): '' @ err), manager, s)
     | (Inr response, obtainValues, s) \<Rightarrow>
         if Resp_Status response \<ge> 400
         then (Some (''the auth request answered '' @ fmt_d (Resp_Status response)
                 @ ''; check the user, the password and the path in '' @ [CHR 0x27] @ ''auth.obtain'' @ [CHR 0x27]), manager, s)
         else case now s of (t, s) \<Rightarrow>
           (None, manager\<lparr>Man_values := produced input (vals obtainValues), Man_obtained := True, Man_obtidoEm := t,
                    Man_Obtains := Man_Obtains manager + 1\<rparr>, s))"

definition ensureToken :: "'c config_methods \<Rightarrow> ('c, 'g, 's) RunStep \<Rightarrow> ('s \<Rightarrow> Time \<times> 's) \<Rightarrow> 'c Step \<Rightarrow> 'c Manager \<Rightarrow>
    'g Values \<Rightarrow> 's \<Rightarrow> string option \<times> 'c Manager \<times> 's" where
  "ensureToken methods execute now step manager iteration_values s =
    (if Man_obtained manager
     then (case venceu now manager s of (expired, s) \<Rightarrow>
             if \<not> expired then (None, manager, s) else obtain_token methods execute now step manager iteration_values s)
     else obtain_token methods execute now step manager iteration_values s)"

section \<open>Base64\<close>

definition base64_alphabet :: string where
  "base64_alphabet = ''ABCDEFGHIJKLMNOPQRSTUVWXYZabcdefghijklmnopqrstuvwxyz0123456789+/''"

definition base64_digit :: "nat \<Rightarrow> char" where
  "base64_digit n = base64_alphabet ! (n mod 64)"

definition byte :: "char \<Rightarrow> nat" where
  "byte c = of_char c"

text \<open>\<open>base64.StdEncoding.EncodeToString\<close>: three bytes to four digits, padded with \<open>=\<close>.\<close>

fun EncodeToString :: "string \<Rightarrow> string" where
  "EncodeToString [] = []"
| "EncodeToString [a] =
    (let n = byte a * 16 in [base64_digit (n div 64), base64_digit n, CHR ''='', CHR ''=''])"
| "EncodeToString [a, b] =
    (let n = byte a * 1024 + byte b * 4
     in [base64_digit (n div 4096), base64_digit (n div 64), base64_digit n, CHR ''=''])"
| "EncodeToString (a # b # c # rest) =
    (let n = byte a * 65536 + byte b * 256 + byte c
     in [base64_digit (n div 262144), base64_digit (n div 4096), base64_digit (n div 64), base64_digit n] @ EncodeToString rest)"

section \<open>The header\<close>

definition Header :: "'c config_methods \<Rightarrow> ('c, 'g, 's) RunStep \<Rightarrow> ('s \<Rightarrow> Time \<times> 's) \<Rightarrow> ('g, 's) generate \<Rightarrow> environ \<Rightarrow>
    'c Manager \<Rightarrow> 'g Values \<Rightarrow> 's \<Rightarrow> (string + string \<times> string) \<times> 'c Manager \<times> 'g Values \<times> 's" where
  "Header methods execute now generate env manager iteration_values s =
    (let config = Man_config manager in
     if Auth_Kind config = AuthBasic then
       (case Resolve generate env iteration_values s (Auth_User config) of (user, iteration_values, s) \<Rightarrow>
        case Resolve generate env iteration_values s (Auth_Password config) of (password, iteration_values, s) \<Rightarrow>
          (Inr (''Authorization'', ''Basic '' @ EncodeToString (user @ '':'' @ password)), manager, iteration_values, s))
     else
       let (err, manager, iteration_values, s) =
         (case Auth_Obtain config of
            None \<Rightarrow> (None, manager, iteration_values, s)
          | Some step \<Rightarrow>
              (case ensureToken methods execute now step manager iteration_values s of
                 (Some err, manager, s) \<Rightarrow> (Some err, manager, iteration_values, s)
               | (None, manager, s) \<Rightarrow> (None, manager, SetAll iteration_values (Man_values manager), s)))
       in case err of
            Some err \<Rightarrow> (Inl err, manager, iteration_values, s)
          | None \<Rightarrow>
              (case Cut (Auth_Header config) '':'' of (name, model, found) \<Rightarrow>
                 if \<not> found
                 then (Inl (''the auth header has to be \"Name: value\", got '' @ Quote (Auth_Header config)), manager, iteration_values, s)
                 else case Resolve generate env iteration_values s model of (text, iteration_values, s) \<Rightarrow>
                   (Inr (TrimSpace name, TrimSpace text), manager, iteration_values, s)))"

section \<open>What the auth request leaves behind\<close>

lemma gmap_ok_produced: "gmap_ok (produced input outcome)"
proof -
  have "gmap_ok kept \<Longrightarrow> gmap_ok (foldl (\<lambda>kept (name, value). if gget input name = Some value then kept else gput kept name value) kept outcome)" for kept
    by (induction outcome arbitrary: kept) (auto split: prod.splits)
  then show ?thesis by (simp add: produced_def)
qed

lemma gget_produced:
  assumes "gmap_ok outcome"
  shows "gget (produced input outcome) name =
    (case gget outcome name of Some value \<Rightarrow> if gget input name = Some value then None else Some value | None \<Rightarrow> None)"
proof -
  have "gmap_ok outcome \<Longrightarrow> gget (foldl (\<lambda>kept (name, value). if gget input name = Some value then kept else gput kept name value) kept outcome) name =
    (case gget outcome name of Some value \<Rightarrow> if gget input name = Some value then gget kept name else Some value | None \<Rightarrow> gget kept name)" for kept
  proof (induction outcome arbitrary: kept)
    case (Cons entry outcome)
    obtain n v where entry: "entry = (n, v)" by fastforce
    with Cons have "gmap_ok outcome" "gget outcome n = None" by (auto simp: gget_def gkeys_def map_of_eq_None_iff)
    with Cons.IH[of "if gget input n = Some v then kept else gput kept n v"] show ?case
      by (auto simp: entry gget_Cons split: option.splits)
  qed (simp add: gget_def)
  from this[OF assms, of "[]"] show ?thesis by (simp add: produced_def gget_def split: option.splits)
qed

lemma gmap_ok_New: "gmap_ok (vals (New u i base))"
  by (simp add: New_def gmap_ok_foldl_gput)

text \<open>
  A runner of auth requests: it writes only the variables the step declares. The client of this
  contract is the manager, whose remembered values are then only among those.
\<close>

locale obtaining =
  fixes execute :: "('c, 'g, 's) RunStep"
    and writes :: "'c Step \<Rightarrow> string set"
  assumes keeps_map: "execute step v s = (r, v', s') \<Longrightarrow> gmap_ok (vals v) \<Longrightarrow> gmap_ok (vals v')"
    and keeps_others: "execute step v s = (r, v', s') \<Longrightarrow> n \<notin> writes step \<Longrightarrow> gget (vals v') n = gget (vals v) n"
begin

lemma ensureToken_values:
  assumes "ensureToken methods execute now step m v s = (err, m', s')"
    and "n \<notin> writes step" and "gget (Man_values m) n = None" and "gmap_ok (vals v)"
  shows "gget (Man_values m') n = None"
proof -
  have New: "gget (vals (New 0 0 (vals v))) n = gget (vals v) n"
    using Value_New[OF assms(4)] by (simp add: Value_def)
  have "gget (Man_values m') n = None" if run: "obtain_token methods execute now step m v s1 = (err, m', s')" for s1
  proof -
    obtain r v1 s2 where ex: "execute step (New 0 0 (vals v)) s1 = (r, v1, s2)" by (metis prod_cases3)
    have same: "gget (vals v1) n = gget (vals v) n" using keeps_others[OF ex assms(2)] New by simp
    have ok: "gmap_ok (vals v1)" by (rule keeps_map[OF ex gmap_ok_New])
    from run ex assms(3) show ?thesis
      by (auto simp: obtain_token_def Let_def gget_produced[OF ok] same split: sum.splits if_splits prod.splits option.splits)
  qed
  with assms show ?thesis by (auto simp: ensureToken_def split: if_splits prod.splits)
qed

end

section \<open>A manager over a run\<close>

text \<open>
  What can happen to the manager and the world while a run lasts: an iteration asks for its header,
  or something else happens outside and time passes.
\<close>

inductive auth_run :: "'c config_methods \<Rightarrow> ('c, 'g, 's) RunStep \<Rightarrow> ('s \<Rightarrow> Time \<times> 's) \<Rightarrow> ('g, 's) generate \<Rightarrow> environ \<Rightarrow>
    ('s \<Rightarrow> Time) \<Rightarrow> 'c Auth \<Rightarrow> 's \<Rightarrow> 'c Manager \<Rightarrow> 's \<Rightarrow> bool"
  for methods execute now generate env reading config s0 where
  Start: "auth_run methods execute now generate env reading config s0 (NewManager config) s0"
| Ask: "auth_run methods execute now generate env reading config s0 m s \<Longrightarrow>
    Header methods execute now generate env m v s = (result, m', v', s') \<Longrightarrow> gmap_ok (vals v) \<Longrightarrow>
    auth_run methods execute now generate env reading config s0 m' s'"
| Pass: "auth_run methods execute now generate env reading config s0 m s \<Longrightarrow> reading s \<le> reading s' \<Longrightarrow>
    auth_run methods execute now generate env reading config s0 m s'"

text \<open>Every change of the manager is one \<open>ensureToken\<close>; what follows it is substitution.\<close>

lemma Header_cases:
  assumes "Header methods execute now generate env m v s = (result, m', v', s')"
  obtains (no_request) "m' = m" "Auth_Kind (Man_config m) = AuthBasic \<or> Auth_Obtain (Man_config m) = None"
  | (request) step err s1 where "Auth_Obtain (Man_config m) = Some step" "Auth_Kind (Man_config m) \<noteq> AuthBasic"
      "ensureToken methods execute now step m v s = (err, m', s1)"
  using assms
  by (auto simp: Header_def Let_def split: if_splits prod.splits option.splits)

lemma Resolve_world:
  assumes "Resolve generate env v s model = (t, v', s')" and fwd: "\<And>g s. reading s \<le> reading (snd (generate g s))"
  shows "(reading s :: Time) \<le> reading s'"
proof (rule Resolve_world_invariant[OF _ assms(1)])
  fix g w r w' assume "generate g w = (r, w')" "reading s \<le> reading w"
  with fwd[of w g] show "reading s \<le> reading w'" by simp
qed simp

definition goes_forward :: "('s \<Rightarrow> Time) \<Rightarrow> ('c, 'g, 's) RunStep \<Rightarrow> ('g, 's) generate \<Rightarrow> bool" where
  "goes_forward reading execute generate \<longleftrightarrow>
    (\<forall>step v s. reading s \<le> reading (snd (snd (execute step v s)))) \<and> (\<forall>g s. reading s \<le> reading (snd (generate g s)))"

text \<open>The invariant: the tokens obtained so far fit, one refresh interval apart, between the start and the last one.\<close>

definition spaced :: "Time \<Rightarrow> Duration \<Rightarrow> Time \<Rightarrow> 'c Manager \<Rightarrow> bool" where
  "spaced start refresh reached m \<longleftrightarrow>
    (if Man_obtained m
     then 0 < Man_Obtains m \<and> Man_obtidoEm m \<le> reached
       \<and> (if 0 < refresh then refresh * (Man_Obtains m - 1) \<le> Man_obtidoEm m - start else Man_Obtains m = 1)
     else Man_Obtains m = 0)"

lemma spaced_later: "spaced start refresh reached m \<Longrightarrow> reached \<le> later \<Longrightarrow> spaced start refresh later m"
  by (auto simp: spaced_def split: if_splits)

lemma obtain_token_spaced:
  assumes run: "obtain_token methods execute now step m v s = (err, m', s')"
    and clk: "clock now wait_until reading" and fwd: "goes_forward reading execute generate"
    and sp: "spaced start refresh (reading s) m"
    and due: "Man_obtained m \<Longrightarrow> 0 < refresh \<and> Man_obtidoEm m + refresh \<le> reading s" and begun: "start \<le> reading s"
  shows "spaced start refresh (reading s') m' \<and> reading s \<le> reading s'"
proof -
  obtain r v1 s1 where ex: "execute step (New 0 0 (vals v)) s = (r, v1, s1)" by (metis prod_cases3)
  have mono: "reading s \<le> reading s1" using fwd ex unfolding goes_forward_def by (metis snd_conv)
  show ?thesis
  proof (cases "m' = m")
    case True
    with run ex have "s' = s1 \<or> s' = snd (now s1)" by (auto simp: obtain_token_def Let_def split: sum.splits if_splits prod.splits)
    with mono clock.now_reads_snd[OF clk, of s1] True spaced_later[OF sp] show ?thesis by (metis order_trans)
  next
    case False
    obtain t s2 where now: "now s1 = (t, s2)" by fastforce
    from False run ex now have eq: "s' = s2" "Man_obtained m'" "Man_obtidoEm m' = t" "Man_Obtains m' = Man_Obtains m + 1"
      by (auto simp: obtain_token_def Let_def split: sum.splits if_splits)
    have t: "reading s1 \<le> t" "reading s2 = t" using clock.now_reads[OF clk now] by auto
    show ?thesis
    proof (cases "Man_obtained m")
      case True
      with sp due[OF True] have "refresh * (Man_Obtains m - 1) \<le> Man_obtidoEm m - start" "0 < Man_Obtains m" by (auto simp: spaced_def)
      moreover have "refresh * Man_Obtains m = refresh * (Man_Obtains m - 1) + refresh" by (simp add: algebra_simps)
      ultimately show ?thesis using due[OF True] eq t mono by (simp add: spaced_def)
    next
      case False
      with sp eq t mono begun show ?thesis by (simp add: spaced_def)
    qed
  qed
qed

lemma ensureToken_spaced:
  assumes run: "ensureToken methods execute now step m v s = (err, m', s')"
    and clk: "clock now wait_until reading" and fwd: "goes_forward reading execute generate"
    and sp: "spaced start (Auth_RefreshAfter (Man_config m)) (reading s) m" and begun: "start \<le> reading s"
  shows "spaced start (Auth_RefreshAfter (Man_config m)) (reading s') m' \<and> reading s \<le> reading s'"
proof (cases "Man_obtained m")
  case False
  with run have "obtain_token methods execute now step m v s = (err, m', s')" by (simp add: ensureToken_def)
  from obtain_token_spaced[OF this clk fwd sp _ begun] False show ?thesis by simp
next
  case True
  obtain expired s1 where ve: "venceu now m s = (expired, s1)" by fastforce
  have mono: "reading s \<le> reading s1"
    using ve clock.now_reads_snd[OF clk, of s] by (auto simp: venceu_def split: if_splits prod.splits)
  show ?thesis
  proof (cases expired)
    case False
    with run True ve mono spaced_later[OF sp mono] show ?thesis by (auto simp: ensureToken_def)
  next
    case late: True
    with run True ve have "obtain_token methods execute now step m v s1 = (err, m', s')" by (simp add: ensureToken_def)
    moreover have "0 < Auth_RefreshAfter (Man_config m) \<and> Man_obtidoEm m + Auth_RefreshAfter (Man_config m) \<le> reading s1"
      using ve late clock.now_reads_snd[OF clk, of s] by (auto simp: venceu_def split: if_splits prod.splits)
    ultimately show ?thesis
      using obtain_token_spaced[OF _ clk fwd spaced_later[OF sp mono]] mono begun by (meson order_trans)
  qed
qed

lemma ensureToken_config: "ensureToken methods execute now step m v s = (err, m', s') \<Longrightarrow> Man_config m' = Man_config m"
  by (auto simp: ensureToken_def obtain_token_def Let_def split: if_splits prod.splits sum.splits)

lemma Header_config: "Header methods execute now generate env m v s = (result, m', v', s') \<Longrightarrow> Man_config m' = Man_config m"
  by (erule Header_cases) (auto dest: ensureToken_config)

lemma Header_world:
  assumes "Header methods execute now generate env m v s = (result, m', v', s')"
    and "clock now wait_until reading" and fwd: "goes_forward reading execute generate"
    and "spaced start (Auth_RefreshAfter (Man_config m)) (reading s) m" "start \<le> reading s"
  shows "spaced start (Auth_RefreshAfter (Man_config m)) (reading s') m' \<and> reading s \<le> reading s'"
proof -
  have res: "Resolve generate env v s model = (t, v', s') \<Longrightarrow> reading s \<le> reading s'" for v s model t v' s'
    using Resolve_world[of generate env v s model t v' s' reading] fwd by (simp add: goes_forward_def)
  from assms(1) show ?thesis
  proof (cases rule: Header_cases)
    case no_request
    with assms(1) have "reading s \<le> reading s'"
      by (auto simp: Header_def Let_def split: if_splits prod.splits option.splits dest!: res)
    with no_request assms(4) spaced_later show ?thesis by blast
  next
    case (request step err s1)
    from ensureToken_spaced[OF request(3) assms(2) fwd assms(4,5)]
    have s1: "spaced start (Auth_RefreshAfter (Man_config m)) (reading s1) m'" "reading s \<le> reading s1" by auto
    from request assms(1) have "reading s1 \<le> reading s'"
      by (auto simp: Header_def Let_def split: if_splits prod.splits option.splits dest!: res)
    with s1 spaced_later show ?thesis by (meson order_trans)
  qed
qed

lemma auth_run_spaced:
  assumes "auth_run methods execute now generate env reading config s0 m s"
    and clk: "clock now wait_until reading" and fwd: "goes_forward reading execute generate"
  shows "Man_config m = config \<and> reading s0 \<le> reading s \<and> spaced (reading s0) (Auth_RefreshAfter config) (reading s) m"
  using assms(1)
proof (induction rule: auth_run.induct)
  case Start
  show ?case by (simp add: NewManager_def spaced_def)
next
  case (Ask m s v result m' v' s')
  with Header_world[OF Ask(2) clk fwd, of "reading s0"] Header_config[OF Ask(2)] show ?case by auto
next
  case (Pass m s s')
  then show ?case using spaced_later by (meson order_trans)
qed


context obtaining
begin

lemma auth_run_values:
  assumes "auth_run methods execute now generate env reading config s0 m s"
    and "\<And>step. Auth_Obtain config = Some step \<Longrightarrow> n \<notin> writes step"
  shows "Man_config m = config \<and> gmap_ok (Man_values m) \<and> gget (Man_values m) n = None"
  using assms(1)
proof (induction rule: auth_run.induct)
  case Start
  show ?case by (simp add: NewManager_def gget_def gkeys_def)
next
  case (Ask m s v result m' v' s')
  have ok: "ensureToken methods execute now step m v s = (err, m', s1) \<Longrightarrow> gmap_ok (Man_values m')" for step err s1
    using Ask.IH by (auto simp: ensureToken_def obtain_token_def Let_def gmap_ok_produced split: if_splits prod.splits sum.splits)
  from Ask(2) show ?case
  proof (cases rule: Header_cases)
    case (request step err s1)
    with Ask assms(2) ensureToken_values[OF request(3)] ok[OF request(3)] Header_config[OF Ask(2)] show ?thesis by auto
  qed (use Ask in auto)
qed

text \<open>Whatever the manager remembers, a variable the auth request does not write keeps the value of the iteration.\<close>

lemma Header_keeps_variable:
  assumes run: "auth_run methods execute now generate env reading config s0 m s"
    and free: "\<And>step. Auth_Obtain config = Some step \<Longrightarrow> n \<notin> writes step"
    and ask: "Header methods execute now generate env m v s = (result, m', v', s')" and "gmap_ok (vals v)"
  shows "Value v' n = Value v n"
proof -
  have "auth_run methods execute now generate env reading config s0 m' s'" using run ask assms(4) by (rule Ask)
  from auth_run_values[OF this free] have "gmap_ok (Man_values m')" "gget (Man_values m') n = None" by auto
  then have set: "Value (SetAll v (Man_values m')) n = Value v n" by (simp add: Value_SetAll)
  have res: "Resolve generate env v s model = (t, v', s') \<Longrightarrow> Value v' n = Value v n" for v s model t v' s'
    using resolve_segments_state by (fastforce simp: Resolve_def Value_def split: if_splits)
  from ask show ?thesis
    by (auto simp: Header_def Let_def set split: if_splits prod.splits option.splits dest!: res)
qed

end

section \<open>The basic credential\<close>

definition base64_value :: "char \<Rightarrow> nat" where
  "base64_value c = length (takeWhile (\<lambda>d. d \<noteq> c) base64_alphabet)"

definition six_more :: "nat \<Rightarrow> char \<Rightarrow> nat" where
  "six_more n c = n * 64 + base64_value c"

text \<open>The decoder of RFC 4648, as the reader of the header has it.\<close>

fun DecodeString :: "string \<Rightarrow> string" where
  "DecodeString (p # q # r # t # rest) =
    (let n = six_more (base64_value p) q in
     if r = CHR ''='' then [char_of (n div 16)]
     else let n = six_more n r in
       if t = CHR ''='' then [char_of (n div 1024), char_of (n div 4 mod 256)]
       else let n = six_more n t
            in [char_of (n div 65536), char_of (n div 256 mod 256), char_of (n mod 256)] @ DecodeString rest)"
| "DecodeString s = []"

lemma base64_digits: "base64_value (base64_digit n) = n mod 64" "base64_digit n \<noteq> CHR ''=''"
proof -
  have "list_all (\<lambda>i. base64_value (base64_alphabet ! i) = i \<and> base64_alphabet ! i \<noteq> CHR ''='') [0..<64]" by code_simp
  then show "base64_value (base64_digit n) = n mod 64" "base64_digit n \<noteq> CHR ''=''"
    by (simp_all add: base64_digit_def list_all_iff)
qed

lemma six_more_div: "six_more (n div 64) (base64_digit n) = n"
  by (simp add: six_more_def base64_digits div_mult_mod_eq)

lemma digits64_2: "n < 4096 \<Longrightarrow> six_more (n div 64 mod 64) (base64_digit n) = n"
  by (simp add: six_more_def base64_digits div_mult_mod_eq less_mult_imp_div_less)

lemma digits64_3:
  assumes "n < 262144"
  shows "six_more (six_more (n div 4096 mod 64) (base64_digit (n div 64))) (base64_digit n) = n"
proof -
  have "n div 4096 = n div 64 div 64" by (simp add: div_mult2_eq[symmetric])
  with assms have "six_more (n div 4096 mod 64) (base64_digit (n div 64)) = n div 64"
    using digits64_2[of "n div 64"] by (simp add: less_mult_imp_div_less)
  then show ?thesis by (simp only: six_more_div)
qed

lemma digits64_4:
  assumes "n < 16777216"
  shows "six_more (six_more (six_more (n div 262144 mod 64) (base64_digit (n div 4096))) (base64_digit (n div 64))) (base64_digit n) = n"
proof -
  have "n div 262144 = n div 64 div 4096" "n div 4096 = n div 64 div 64" by (simp_all add: div_mult2_eq[symmetric])
  with assms have "six_more (six_more (n div 262144 mod 64) (base64_digit (n div 4096))) (base64_digit (n div 64)) = n div 64"
    using digits64_3[of "n div 64"] by (simp add: less_mult_imp_div_less)
  then show ?thesis by (simp only: six_more_div)
qed

lemma byte_less: "byte c < 256"
  by (simp add: byte_def)

lemma char_of_byte [simp]: "char_of (byte c) = c"
  by (simp add: byte_def)

lemma byte_of_mod: "n mod 256 = byte c \<Longrightarrow> char_of n = c"
  by (metis char_of_byte char_of_mod_256)

lemma DecodeString_EncodeToString: "DecodeString (EncodeToString s) = s"
proof (induction s rule: EncodeToString.induct)
  case (2 a)
  define n where n: "n = byte a * 16"
  with byte_less[of a] have "n < 4096" "n div 16 = byte a" by simp_all
  then show ?case
    using digits64_2[of n] by (simp add: Let_def base64_digits n[symmetric] del: char_of_mod_256)
next
  case (3 a b)
  define n where n: "n = byte a * 1024 + byte b * 4"
  with byte_less[of a] byte_less[of b] have "n < 262144" "n div 1024 = byte a" "n div 4 mod 256 = byte b" by simp_all
  then show ?case
    using digits64_3[of n] by (simp add: Let_def base64_digits n[symmetric] del: char_of_mod_256)
next
  case (4 a b c rest)
  define n where n: "n = byte a * 65536 + byte b * 256 + byte c"
  define x where x: "x = byte a * 256 + byte b"
  have "n = x * 256 + byte c" by (simp add: n x)
  with byte_less[of c] have nx: "n div 256 = x" "n mod 256 = byte c" "n div 65536 = x div 256"
    by (simp_all add: div_mult2_eq[of _ 256 256, simplified])
  from byte_less[of a] byte_less[of b] byte_less[of c]
  have "n < 16777216" "n div 65536 = byte a" "n div 256 mod 256 = byte b" "n mod 256 = byte c"
    unfolding nx by (simp_all add: n x)
  with 4 digits64_4[of n] show ?case by (simp add: Let_def base64_digits n[symmetric] del: char_of_mod_256)
qed simp

text \<open>With basic authentication no request is made, and whoever decodes the header finds exactly the user and the
  password of the iteration, whatever bytes they are made of.\<close>

theorem basic_header_roundtrip:
  assumes "Auth_Kind (Man_config m) = AuthBasic"
    and "Resolve generate env v s (Auth_User (Man_config m)) = (user, v1, s1)"
    and "Resolve generate env v1 s1 (Auth_Password (Man_config m)) = (password, v2, s2)"
  shows "\<exists>e. Header methods execute now generate env m v s = (Inr (''Authorization'', ''Basic '' @ e), m, v2, s2)
    \<and> DecodeString e = user @ '':'' @ password"
  using assms DecodeString_EncodeToString[of "user @ '':'' @ password"] by (auto simp: Header_def)

section \<open>Witnesses\<close>

definition example_login :: "unit Step" where
  "example_login = \<lparr>Step_Name = ''obtain auth'', Step_Protocol = ''http'', Step_Config = None, Step_Weight = 0,
     Step_Checks = [], Step_Captures = [], Step_Assertions = []\<rparr>"

definition example_auth :: "AuthKind \<Rightarrow> unit Auth" where
  "example_auth kind = \<lparr>Auth_Kind = kind, Auth_Obtain = Some example_login, Auth_RefreshAfter = 10,
     Auth_Header = ''Authorization: Bearer ${token}'', Auth_User = ''ana'', Auth_Password = ''${PASSWORD}''\<rparr>"

definition example_auth_methods :: "unit config_methods" where
  "example_auth_methods = \<lparr>Method_AggregationKey = (\<lambda>_. ''''), Method_Describe = (\<lambda>_. None), Method_Value = (\<lambda>_. GoOther), Method_Brokers = (\<lambda>_. None)\<rparr>"

definition example_execute :: "(unit, unit, VirtualClock) RunStep" where
  "example_execute step v s =
    (Inr \<lparr>Resp_Status = 200, Resp_Body = [], Resp_Headers = [], Resp_Bytes = 0, Resp_Messages = 0, Resp_Class = Success,
          Resp_Detail = [], Resp_Key = [], Resp_Attributes = [], Resp_Collapses = []\<rparr>, Values.Set v ''token'' ''abc'', s)"

definition example_generate :: "(unit, VirtualClock) generate" where
  "example_generate g s = (None, s)"

definition example_env :: environ where
  "example_env name = (if name = ''PASSWORD'' then Some ''s3cret'' else None)"

abbreviation example_ask :: "unit Manager \<Rightarrow> VirtualClock \<Rightarrow> (string + string \<times> string) \<times> unit Manager \<times> unit Values \<times> VirtualClock" where
  "example_ask m s \<equiv> Header example_auth_methods example_execute virtual_Now example_generate example_env m (New 0 0 []) s"

lemma example_asks:
  "example_ask (NewManager (example_auth AuthToken)) (NewVirtualClock 0) =
    (fst (example_ask (NewManager (example_auth AuthToken)) (NewVirtualClock 0)),
     (NewManager (example_auth AuthToken))\<lparr>Man_values := [(''token'', ''abc'')], Man_obtained := True, Man_obtidoEm := 0, Man_Obtains := 1\<rparr>,
     fst (snd (snd (example_ask (NewManager (example_auth AuthToken)) (NewVirtualClock 0)))), NewVirtualClock 0)"
  "example_ask ((NewManager (example_auth AuthToken))\<lparr>Man_values := [(''token'', ''abc'')], Man_obtained := True, Man_obtidoEm := 0, Man_Obtains := 1\<rparr>)
      (NewVirtualClock 10) =
    (fst (example_ask ((NewManager (example_auth AuthToken))\<lparr>Man_values := [(''token'', ''abc'')], Man_obtained := True, Man_obtidoEm := 0, Man_Obtains := 1\<rparr>) (NewVirtualClock 10)),
     (NewManager (example_auth AuthToken))\<lparr>Man_values := [(''token'', ''abc'')], Man_obtained := True, Man_obtidoEm := 10, Man_Obtains := 2\<rparr>,
     fst (snd (snd (example_ask ((NewManager (example_auth AuthToken))\<lparr>Man_values := [(''token'', ''abc'')], Man_obtained := True, Man_obtidoEm := 0, Man_Obtains := 1\<rparr>) (NewVirtualClock 10)))), NewVirtualClock 10)"
  by code_simp+

lemma example_auth_run:
  "auth_run example_auth_methods example_execute virtual_Now example_generate example_env vc_now (example_auth AuthToken) (NewVirtualClock 0)
    ((NewManager (example_auth AuthToken))\<lparr>Man_values := [(''token'', ''abc'')], Man_obtained := True, Man_obtidoEm := 10, Man_Obtains := 2\<rparr>)
    (NewVirtualClock 10)"
proof -
  have ok: "gmap_ok (vals (New 0 0 []))" by (rule gmap_ok_New)
  have "vc_now (NewVirtualClock 0) \<le> vc_now (NewVirtualClock 10)" by (simp add: NewVirtualClock_def)
  from Ask[OF Pass[OF Ask[OF Start example_asks(1) ok] this] example_asks(2) ok] show ?thesis .
qed

lemma example_forward: "goes_forward vc_now example_execute example_generate"
  by (simp add: goes_forward_def example_execute_def example_generate_def)


lemma example_resolve:
  "Resolve example_generate example_env (New 0 0 []) (NewVirtualClock 0) (Auth_User (example_auth AuthBasic)) =
    (''ana'', New 0 0 [], NewVirtualClock 0)"
  "Resolve example_generate example_env (New 0 0 []) (NewVirtualClock 0) (Auth_Password (example_auth AuthBasic)) =
    (''s3cret'', New 0 0 [], NewVirtualClock 0)"
  by code_simp+

theorem basic_header_roundtrip_witness:
  "\<exists>e. example_ask (NewManager (example_auth AuthBasic)) (NewVirtualClock 0)
     = (Inr (''Authorization'', ''Basic '' @ e), NewManager (example_auth AuthBasic), New 0 0 [], NewVirtualClock 0)
   \<and> DecodeString e = ''ana:s3cret''"
  using basic_header_roundtrip[of "NewManager (example_auth AuthBasic)" example_generate example_env "New 0 0 []" "NewVirtualClock 0" "''ana''"
      "New 0 0 []" "NewVirtualClock 0" "''s3cret''" "New 0 0 []" "NewVirtualClock 0" example_auth_methods example_execute virtual_Now]
    example_resolve by (simp add: NewManager_def example_auth_def)

end
