(* ===== verification/Messaging.thy ===== *)
theory Messaging
  imports Model
begin

text \<open>
  How a broker is reached (\<open>internal/messaging\<close>): TLS settings, the SASL mechanism, what is handed to the
  Kafka and AMQP clients, what may be printed about a broker and how an error of a broker is classified.
  Reading certificate files, the SCRAM mechanism and parsing an address belong to the standard library and
  to the clients: they are the method tables \<open>'k pki\<close> and \<open>'u urls\<close> and the argument \<open>scram\<close>. Proved: nothing
  that is printed depends on a password, no connection that authenticates by password is opened without
  one, and no declared encryption is left out of it.
\<close>

section \<open>Kinds of authentication\<close>

definition NoAuth :: string where "NoAuth = ''''"
definition SaslPlain :: string where "SaslPlain = ''saslPlain''"
definition SCRAM256 :: string where "SCRAM256 = ''scramSha256''"
definition SCRAM512 :: string where "SCRAM512 = ''scramSha512''"
definition MSKIAM :: string where "MSKIAM = ''mskIam''"
definition External :: string where "External = ''certificate''"

lemmas kind_defs = NoAuth_def SaslPlain_def SCRAM256_def SCRAM512_def MSKIAM_def External_def

definition KnownKinds :: "string list" where
  "KnownKinds = [SaslPlain, SCRAM256, SCRAM512, MSKIAM, External]"

definition Secured :: "Broker option \<Rightarrow> bool" where
  "Secured broker \<longleftrightarrow> (case broker of None \<Rightarrow> False | Some b \<Rightarrow> BA_Kind (Br_Auth b) \<noteq> NoAuth \<or> TLS_Enabled (Br_TLS b))"

section \<open>What may be printed\<close>

definition describe_auth :: "BrokerAuth \<Rightarrow> string list" where
  "describe_auth auth =
    (if BA_Kind auth = NoAuth then []
     else if BA_Kind auth = MSKIAM then [''mskIam (region '' @ BA_Region auth @ '', credential from the standard AWS chain)'']
     else if BA_Kind auth = External then [''client certificate'']
     else [BA_Kind auth @ '', user '' @ (if BA_User auth = '''' then ''no user'' else BA_User auth)])"

definition describe_TLS :: "TLS \<Rightarrow> string list" where
  "describe_TLS tls =
    (if TLS_Enabled tls
     then [''TLS'' @ (if TLS_CA tls \<noteq> '''' then '' with a private CA'' else '''')
             @ (if TLS_Certificate tls \<noteq> '''' then '' and a client certificate'' else '''')]
     else [])"

definition Describe :: "Broker option \<Rightarrow> string" where
  "Describe broker =
    (case broker of None \<Rightarrow> ''no authentication''
     | Some b \<Rightarrow> if \<not> Secured broker then ''no authentication''
         else Join (describe_auth (Br_Auth b) @ describe_TLS (Br_TLS b)) '' + '')"

definition describe_pair :: "string \<times> Broker option \<Rightarrow> string list" where
  "describe_pair pair =
    (case pair of (name, broker) \<Rightarrow>
       case broker of None \<Rightarrow> []
       | Some b \<Rightarrow>
           [name @ '' at '' @ (if Br_Addresses b \<noteq> [] then Join (Br_Addresses b) '', '' else ''the target address'')
              @ '': '' @ Describe broker])"

definition DescribeMessaging :: "Settings option \<Rightarrow> string list" where
  "DescribeMessaging settings =
    (case settings of None \<Rightarrow> []
     | Some s \<Rightarrow> concat (map describe_pair [(''kafka'', Set_Kafka s), (''amqp'', Set_AMQP s)]))"

definition Explain :: "string \<Rightarrow> Broker option \<Rightarrow> string" where
  "Explain kind broker =
    (if kind = ''authentication''
     then ''the broker refused the credential ('' @ Describe broker @ ''): check the user and the environment variable holding the password''
     else if kind = ''authorization''
     then ''the credential was accepted and has no permission on that topic or group ('' @ Describe broker
            @ ''): this is an ACL matter on the broker, not a wrong password''
     else '''')"

section \<open>Errors of a broker\<close>

definition authentication_signs :: "string list" where
  "authentication_signs = [''sasl authentication failed'', ''authentication failed'', ''invalid credentials'',
     ''sasl_authentication_failed'', ''unsupported sasl mechanism'', ''login was refused'', ''login refused'']"

definition authorization_signs :: "string list" where
  "authorization_signs = [''topic authorization failed'', ''group authorization failed'', ''cluster authorization failed'',
     ''not authorized'', ''access refused'', ''access_refused'']"

definition ClassifyError :: "string option \<Rightarrow> string \<times> bool" where
  "ClassifyError err =
    (case err of None \<Rightarrow> ('''', False)
     | Some message \<Rightarrow>
         let text = ToLower message
         in if \<exists>sign \<in> set authentication_signs. Contains text sign then (''authentication'', True)
            else if \<exists>sign \<in> set authorization_signs. Contains text sign then (''authorization'', True)
            else ('''', False))"

section \<open>Opening a connection\<close>

record 'k pki =
  pki_ReadFile :: "string \<Rightarrow> string + string"
  pki_AppendCertsFromPEM :: "string \<Rightarrow> bool"
  pki_LoadX509KeyPair :: "string \<Rightarrow> string \<Rightarrow> string + 'k"

record 'k tls_Config =
  Cfg_RootCAs :: "string option"
  Cfg_Certificates :: "'k list"

definition tls_roots :: "'k pki \<Rightarrow> TLS \<Rightarrow> sentence + string option" where
  "tls_roots pki settings =
    (if TLS_CA settings = '''' then Inr None
     else case pki_ReadFile pki (TLS_CA settings) of
         Inl err \<Rightarrow> Inl (Sprintf ''could not read the CA at %s: %w'' [ArgS (TLS_CA settings), ArgS err])
       | Inr pem \<Rightarrow>
           if pki_AppendCertsFromPEM pki pem then Inr (Some pem)
           else Inl (Sprintf ''the file %s has no valid PEM certificate'' [ArgS (TLS_CA settings)]))"

definition tls_pairs :: "'k pki \<Rightarrow> TLS \<Rightarrow> sentence + 'k list" where
  "tls_pairs pki settings =
    (if TLS_Certificate settings = '''' \<and> TLS_Key settings = '''' then Inr []
     else if TLS_Certificate settings = '''' \<or> TLS_Key settings = ''''
     then Inl (Plain (''a client certificate needs both files: '' @ apos @ ''certificate'' @ apos @ '' and '' @ apos @ ''key'' @ apos))
     else case pki_LoadX509KeyPair pki (TLS_Certificate settings) (TLS_Key settings) of
         Inl err \<Rightarrow> Inl (Sprintf ''could not load the certificate/key pair: %w'' [ArgS err])
       | Inr pair \<Rightarrow> Inr [pair])"

definition TLS_Config :: "'k pki \<Rightarrow> TLS \<Rightarrow> sentence + 'k tls_Config option" where
  "TLS_Config pki settings =
    (if \<not> TLS_Enabled settings then Inr None
     else case tls_roots pki settings of
         Inl err \<Rightarrow> Inl err
       | Inr roots \<Rightarrow>
           case tls_pairs pki settings of
             Inl err \<Rightarrow> Inl err
           | Inr pairs \<Rightarrow> Inr (Some \<lparr>Cfg_RootCAs = roots, Cfg_Certificates = pairs\<rparr>))"

definition broker_TLSConfig :: "'k pki \<Rightarrow> Broker option \<Rightarrow> sentence + 'k tls_Config option" where
  "broker_TLSConfig pki broker = (case broker of None \<Rightarrow> Inr None | Some b \<Rightarrow> TLS_Config pki (Br_TLS b))"

definition credentialPresent :: "Broker \<Rightarrow> sentence option" where
  "credentialPresent broker =
    (let auth = Br_Auth broker
     in if BA_Password auth \<noteq> '''' then None
        else if BA_PasswordVar auth \<noteq> ''''
        then Some (Sprintf ''the environment variable %s is not set, so the broker password came out empty: run with %s=... in the environment''
               [ArgS (BA_PasswordVar auth), ArgS (BA_PasswordVar auth)])
        else Some (Sprintf ''%s auth with no declared password'' [ArgS (BA_Kind auth)]))"

datatype 'm Mechanism = PlainMechanism string string | ScramMechanism 'm | MskMechanism string

text \<open>\<open>scram hash user password\<close> is \<open>scram.Mechanism\<close> of the Kafka client.\<close>

definition mechanism :: "(string \<Rightarrow> string \<Rightarrow> string \<Rightarrow> sentence + 'm) \<Rightarrow> Broker \<Rightarrow> sentence + 'm Mechanism option" where
  "mechanism scram broker =
    (let auth = Br_Auth broker;
         with_password = (\<lambda>made. case credentialPresent broker of Some err \<Rightarrow> Inl err | None \<Rightarrow> made);
         scrambled = (\<lambda>hash. case scram hash (BA_User auth) (BA_Password auth) of
             Inl err \<Rightarrow> Inl err | Inr m \<Rightarrow> Inr (Some (ScramMechanism m)))
     in if BA_Kind auth = NoAuth \<or> BA_Kind auth = External then Inr None
        else if BA_Kind auth = SaslPlain then with_password (Inr (Some (PlainMechanism (BA_User auth) (BA_Password auth))))
        else if BA_Kind auth = SCRAM256 then with_password (scrambled ''SHA256'')
        else if BA_Kind auth = SCRAM512 then with_password (scrambled ''SHA512'')
        else if BA_Kind auth = MSKIAM then Inr (Some (MskMechanism (BA_Region auth)))
        else Inl (Sprintf ''unknown auth type: %q'' [ArgS (BA_Kind auth)]))"

record ('m, 'k) connection =
  Con_SASL :: "'m Mechanism option"
  Con_TLS :: "'k tls_Config option"
  Con_Timeout :: Duration

definition Transport :: "'k pki \<Rightarrow> (string \<Rightarrow> string \<Rightarrow> string \<Rightarrow> sentence + 'm) \<Rightarrow> Broker option \<Rightarrow> sentence + ('m, 'k) connection option" where
  "Transport pki scram broker =
    (case broker of None \<Rightarrow> Inr None
     | Some b \<Rightarrow>
         if \<not> Secured broker then Inr None
         else case mechanism scram b of
             Inl err \<Rightarrow> Inl err
           | Inr sasl \<Rightarrow>
               case broker_TLSConfig pki broker of
                 Inl err \<Rightarrow> Inl err
               | Inr tls \<Rightarrow> Inr (Some \<lparr>Con_SASL = sasl, Con_TLS = tls, Con_Timeout = 10 * Second\<rparr>))"

text \<open>\<open>Dialer\<close> fills another struct of the client with the same three values, and sets \<open>DualStack\<close>.\<close>

definition Dialer :: "'k pki \<Rightarrow> (string \<Rightarrow> string \<Rightarrow> string \<Rightarrow> sentence + 'm) \<Rightarrow> Broker option \<Rightarrow>
    sentence + (('m, 'k) connection \<times> bool) option" where
  "Dialer pki scram broker =
    (case broker of None \<Rightarrow> Inr None
     | Some b \<Rightarrow>
         if \<not> Secured broker then Inr None
         else case mechanism scram b of
             Inl err \<Rightarrow> Inl err
           | Inr sasl \<Rightarrow>
               case broker_TLSConfig pki broker of
                 Inl err \<Rightarrow> Inl err
               | Inr tls \<Rightarrow> Inr (Some (\<lparr>Con_SASL = sasl, Con_TLS = tls, Con_Timeout = 10 * Second\<rparr>, True)))"

text \<open>\<open>strings.Replace\<close> with a count of one: the first occurrence only.\<close>

definition Replace_first :: "string \<Rightarrow> string \<Rightarrow> string \<Rightarrow> string" where
  "Replace_first s old new = (case Cut s old of (before, after, found) \<Rightarrow> if found then before @ new @ after else s)"

datatype amqp_sasl = PlainAuth string string | ExternalAuth

text \<open>What \<open>DialAMQP\<close> hands to \<open>amqp.DialConfig\<close>: the address, the mechanisms and the TLS configuration.\<close>

definition DialAMQP :: "'k pki \<Rightarrow> Broker option \<Rightarrow> string \<Rightarrow> sentence + string \<times> amqp_sasl list \<times> 'k tls_Config option" where
  "DialAMQP pki broker address =
    (let sasl = (case broker of None \<Rightarrow> []
           | Some b \<Rightarrow> if BA_Kind (Br_Auth b) = SaslPlain then [PlainAuth (BA_User (Br_Auth b)) (BA_Password (Br_Auth b))]
               else if BA_Kind (Br_Auth b) = External then [ExternalAuth] else [])
     in case broker_TLSConfig pki broker of
          Inl err \<Rightarrow> Inl err
        | Inr None \<Rightarrow> Inr (address, sasl, None)
        | Inr (Some tls) \<Rightarrow> Inr (Replace_first address ''amqp://'' ''amqps://'', sasl, Some tls))"

definition SupportsAMQP :: "Broker option \<Rightarrow> sentence option" where
  "SupportsAMQP broker =
    (case broker of None \<Rightarrow> None
     | Some b \<Rightarrow> if BA_Kind (Br_Auth b) \<in> {NoAuth, SaslPlain, External} then None
         else Some (Sprintf ''RabbitMQ does not use %q: the available types are saslPlain (user and password) and certificate (mTLS)'' [ArgS (BA_Kind (Br_Auth b))]))"

record 'u urls =
  url_Parse :: "string \<Rightarrow> 'u option"
  url_Username :: "'u \<Rightarrow> string option"
  url_with_User :: "string \<Rightarrow> 'u \<Rightarrow> 'u"
  url_String :: "'u \<Rightarrow> string"

definition SafeAddress :: "'u urls \<Rightarrow> string \<Rightarrow> string" where
  "SafeAddress urls address =
    (case url_Parse urls address of None \<Rightarrow> address
     | Some parsed \<Rightarrow> case url_Username urls parsed of None \<Rightarrow> address
         | Some user \<Rightarrow> url_String urls (url_with_User urls user parsed))"

section \<open>Properties\<close>

definition with_password :: "string \<Rightarrow> Broker \<Rightarrow> Broker" where
  "with_password password broker = broker\<lparr>Br_Auth := (Br_Auth broker)\<lparr>BA_Password := password\<rparr>\<rparr>"

definition with_passwords :: "string \<Rightarrow> string \<Rightarrow> Settings \<Rightarrow> Settings" where
  "with_passwords kafka amqp s =
    s\<lparr>Set_Kafka := map_option (with_password kafka) (Set_Kafka s), Set_AMQP := map_option (with_password amqp) (Set_AMQP s)\<rparr>"

lemma Describe_with_password: "Describe (map_option (with_password password) broker) = Describe broker"
  by (cases broker) (simp_all add: Describe_def Secured_def with_password_def describe_auth_def)

lemma describe_pair_with_password: "describe_pair (name, map_option (with_password password) broker) = describe_pair (name, broker)"
  using Describe_with_password[of password broker] by (cases broker) (simp_all add: describe_pair_def with_password_def)

text \<open>Nothing that is printed about a broker depends on a password: the lines of the report and the explanation of a
  refused credential are the same whatever the passwords are.\<close>

theorem described_without_secret:
  "DescribeMessaging (Some (with_passwords kafka amqp settings)) = DescribeMessaging (Some settings)
   \<and> Explain kind (map_option (with_password password) broker) = Explain kind broker"
  by (simp add: DescribeMessaging_def with_passwords_def describe_pair_with_password Explain_def Describe_with_password)

lemma mechanism_cases:
  assumes "mechanism scram broker = Inr sasl"
  shows "BA_Kind (Br_Auth broker) \<in> insert NoAuth (set KnownKinds)"
    and "BA_Kind (Br_Auth broker) \<in> {SaslPlain, SCRAM256, SCRAM512} \<Longrightarrow> BA_Password (Br_Auth broker) \<noteq> '''' \<and> sasl \<noteq> None"
    and "BA_Kind (Br_Auth broker) = MSKIAM \<Longrightarrow> sasl = Some (MskMechanism (BA_Region (Br_Auth broker)))"
  using assms by (auto simp: mechanism_def KnownKinds_def kind_defs credentialPresent_def Let_def split: if_splits option.splits sum.splits)

lemma TLS_Config_enabled: "TLS_Config pki settings = Inr tls \<Longrightarrow> TLS_Enabled settings \<longleftrightarrow> tls \<noteq> None"
  by (auto simp: TLS_Config_def split: if_splits sum.splits)

lemma TLS_Config_private:
  assumes "TLS_Config pki settings = Inr (Some tls)"
  shows "TLS_CA settings \<noteq> '''' \<longleftrightarrow> Cfg_RootCAs tls \<noteq> None"
    and "TLS_Certificate settings \<noteq> '''' \<longleftrightarrow> Cfg_Certificates tls \<noteq> []"
  using assms by (auto simp: TLS_Config_def tls_roots_def tls_pairs_def split: if_splits sum.splits)

text \<open>A connection to Kafka is opened with everything that was declared for it or not at all: an unknown kind of
  authentication is refused, a password kind never goes out with an empty password, TLS is on exactly when
  it was declared, with the private authority and the client certificate exactly when they were declared,
  and only a broker that declares neither gets a plain connection.\<close>

theorem Transport_complete_or_refused:
  assumes "Transport pki scram (Some broker) = Inr opened"
  shows "BA_Kind (Br_Auth broker) \<in> insert NoAuth (set KnownKinds)
    \<and> (case opened of
         None \<Rightarrow> BA_Kind (Br_Auth broker) = NoAuth \<and> \<not> TLS_Enabled (Br_TLS broker)
       | Some c \<Rightarrow>
           (BA_Kind (Br_Auth broker) \<in> {SaslPlain, SCRAM256, SCRAM512} \<longrightarrow> BA_Password (Br_Auth broker) \<noteq> '''' \<and> Con_SASL c \<noteq> None)
         \<and> (case Con_TLS c of
              None \<Rightarrow> \<not> TLS_Enabled (Br_TLS broker)
            | Some tls \<Rightarrow> TLS_Enabled (Br_TLS broker) \<and> (TLS_CA (Br_TLS broker) \<noteq> '''' \<longleftrightarrow> Cfg_RootCAs tls \<noteq> None)
                \<and> (TLS_Certificate (Br_TLS broker) \<noteq> '''' \<longleftrightarrow> Cfg_Certificates tls \<noteq> [])))"
proof (cases "Secured (Some broker)")
  case False
  with assms show ?thesis by (auto simp: Transport_def Secured_def)
next
  case True
  with assms obtain sasl tls where made: "mechanism scram broker = Inr sasl" "TLS_Config pki (Br_TLS broker) = Inr tls"
      "opened = Some \<lparr>Con_SASL = sasl, Con_TLS = tls, Con_Timeout = 10 * Second\<rparr>"
    by (auto simp: Transport_def broker_TLSConfig_def split: sum.splits)
  show ?thesis
    using mechanism_cases[OF made(1)] TLS_Config_enabled[OF made(2)] TLS_Config_private[of pki "Br_TLS broker"] made(2,3)
    by (auto split: option.splits)
qed

text \<open>The same is not true of RabbitMQ: the mechanism is built from an empty password too.\<close>

lemma DialAMQP_sends_empty_password:
  assumes "BA_Kind (Br_Auth broker) = SaslPlain" "BA_Password (Br_Auth broker) = ''''" "\<not> TLS_Enabled (Br_TLS broker)"
  shows "DialAMQP pki (Some broker) address = Inr (address, [PlainAuth (BA_User (Br_Auth broker)) ''''], None)"
  using assms by (simp add: DialAMQP_def broker_TLSConfig_def TLS_Config_def)

text \<open>An error is classified at most once, and a wrong credential wins over a missing permission.\<close>

lemma ClassifyError_cases:
  "ClassifyError err \<in> {(''authentication'', True), (''authorization'', True), ('''', False)}"
  "ClassifyError (Some message) = (''authorization'', True) \<Longrightarrow> sign \<in> set authentication_signs \<Longrightarrow> \<not> Contains (ToLower message) sign"
  by (auto simp: ClassifyError_def Let_def split: option.splits if_splits)

section \<open>Witness\<close>

definition example_broker :: Broker where
  "example_broker = \<lparr>Br_Addresses = [''kafka.homolog:9092''],
     Br_Auth = \<lparr>BA_Kind = ''saslPlain'', BA_User = ''loader'', BA_UserVar = '''', BA_PasswordVar = ''KAFKA_PASSWORD'', BA_Password = ''s3cret'', BA_Region = ''''\<rparr>,
     Br_TLS = \<lparr>TLS_Enabled = True, TLS_CA = ''ca.pem'', TLS_Certificate = '''', TLS_Key = ''''\<rparr>\<rparr>"

definition example_pki :: "unit pki" where
  "example_pki = \<lparr>pki_ReadFile = Inr, pki_AppendCertsFromPEM = (\<lambda>_. True), pki_LoadX509KeyPair = (\<lambda>_ _. Inr ())\<rparr>"

abbreviation example_opened :: "(unit, unit) connection" where
  "example_opened \<equiv> \<lparr>Con_SASL = Some (PlainMechanism ''loader'' ''s3cret''),
     Con_TLS = Some \<lparr>Cfg_RootCAs = Some ''ca.pem'', Cfg_Certificates = []\<rparr>, Con_Timeout = 10 * Second\<rparr>"

lemma example_transport: "Transport example_pki (\<lambda>_ _ _. Inr ()) (Some example_broker) = Inr (Some example_opened)"
  by code_simp

theorem Transport_complete_or_refused_witness:
  "BA_Password (Br_Auth example_broker) \<noteq> '''' \<and> TLS_Enabled (Br_TLS example_broker)"
  using Transport_complete_or_refused[OF example_transport] by (simp add: example_broker_def kind_defs)

end
