(* ===== verification/Iteration.thy ===== *)
theory Iteration
  imports Correlation Auth Data Document Mix Messaging
begin

text \<open>
  One iteration of a scenario (\<open>internal/engine/executor.go\<close>): a step with its request, checks and
  captures (\<open>runStep\<close>, \<open>check\<close>), the auth request (\<open>runAuthStep\<close>) and the whole journey
  (\<open>runIteration\<close>).

  The state an iteration shares with the rest of the run is a \<open>surroundings\<close> record: the data sources, the
  compiled expressions, what the collector was told, in order, and the world \<open>'w\<close> behind the clock and
  the protocols. A protocol is a method table whose \<open>Execute\<close> is a function of the request and the world.
  \<open>Config.Resolve\<close> is called with a function; a configuration answers it as a \<open>resolution\<close>, the tree of
  the texts it asks for and of what it becomes.
\<close>

section \<open>Configurations and protocols\<close>

datatype 'c resolution = Resolved 'c | Asks string "string \<Rightarrow> 'c resolution"

primrec run_resolution :: "(string \<Rightarrow> 's \<Rightarrow> string \<times> 's) \<Rightarrow> 'c resolution \<Rightarrow> 's \<Rightarrow> 'c \<times> 's" where
  "run_resolution resolve (Resolved config) = (\<lambda>s. (config, s))"
| "run_resolution resolve (Asks asked continue) =
    (\<lambda>s. case resolve asked s of (answer, s) \<Rightarrow> run_resolution resolve (continue answer) s)"

record 'c engine_methods =
  Method_Resolve :: "'c \<Rightarrow> 'c resolution"
  Method_WithHeader :: "'c \<Rightarrow> (string \<Rightarrow> string \<Rightarrow> 'c) option"
  Method_RequestBody :: "'c \<Rightarrow> string option"
  Method_PollInterval :: "'c \<Rightarrow> Duration option"

record 'c Request =
  Req_StepName :: string
  Req_Config :: 'c
  Req_URLBase :: string
  Req_Vars :: "(string, string) gomap"
  Req_Messaging :: "Settings option"

record ('c, 'w) Protocol =
  Proto_Execute :: "'c Request \<Rightarrow> 'w \<Rightarrow> Response \<times> 'w"
  Proto_Prepare :: "('c Request \<Rightarrow> 'w \<Rightarrow> string option \<times> 'w) option"
  Proto_Available :: "('w \<Rightarrow> (string, int) gomap) option"
  Proto_ConsumerLag :: "('w \<Rightarrow> ConsumerLag list) option"
  Proto_UseTLS :: "((string \<times> string) tls_Config option \<Rightarrow> 'w \<Rightarrow> 'w) option"

text \<open>What surrounds the executor: the compiled protocols and the packages it calls.\<close>

record ('c, 'r, 'x, 'w) host =
  Host_methods :: "'c config_methods"
  Host_engine :: "'c engine_methods"
  Host_protocols :: "(string, ('c, 'w) Protocol) gomap"
  Host_readers :: "'x readers"
  Host_rng :: "'r rng"
  Host_env :: environ
  Host_clock :: "'w Clock"
  Host_unmarshal :: "string \<Rightarrow> json option"
  Host_error_text :: "data_error \<Rightarrow> string"

record 'c Executor =
  Ex_scenario :: "'c Spec"
  Ex_mixOrder :: "nat list"

record ('r, 'x, 'w) surroundings =
  Su_sources :: "'r Source list"
  Su_regexes :: "'x regexCompilados"
  Su_collecting :: bool
  Su_told :: "collector_event list"
  Su_world :: 'w

type_synonym generator_key = "nat \<times> string"
type_synonym iteration_values = "generator_key Values"

definition tell :: "collector_event \<Rightarrow> ('r, 'x, 'w) surroundings \<Rightarrow> ('r, 'x, 'w) surroundings" where
  "tell event s = s\<lparr>Su_told := Su_told s @ [event]\<rparr>"

definition engine_now :: "('c, 'r, 'x, 'w) host \<Rightarrow> ('r, 'x, 'w) surroundings \<Rightarrow> Time \<times> ('r, 'x, 'w) surroundings" where
  "engine_now host s = (case Clock_Now (Host_clock host) (Su_world s) of (t, w) \<Rightarrow> (t, s\<lparr>Su_world := w\<rparr>))"

text \<open>The closure of a per-use field: a new value from the source it came from.\<close>

definition engine_generate :: "('c, 'r, 'x, 'w) host \<Rightarrow> (generator_key, ('r, 'x, 'w) surroundings) generate" where
  "engine_generate host key s =
    (case key of (index, field) \<Rightarrow>
       if index < length (Su_sources s) then
         (case Su_sources s ! index of
            CsvSource source \<Rightarrow> (None, s)
          | SyntheticSource source \<Rightarrow>
              (case syn_generateOnce (Host_rng host) source field of (result, source) \<Rightarrow>
                 (case result of Inl err \<Rightarrow> None | Inr value \<Rightarrow> Some value,
                  s\<lparr>Su_sources := (Su_sources s)[index := SyntheticSource source]\<rparr>)))
       else (None, s))"

definition engine_resolve :: "('c, 'r, 'x, 'w) host \<Rightarrow> string \<Rightarrow> iteration_values \<times> ('r, 'x, 'w) surroundings \<Rightarrow>
    string \<times> iteration_values \<times> ('r, 'x, 'w) surroundings" where
  "engine_resolve host text = (\<lambda>(v, s). Resolve (engine_generate host) (Host_env host) v s text)"

section \<open>A step\<close>

record 'c Observation =
  Ob_Step :: string
  Ob_Key :: string
  Ob_Config :: "'c option"
  Ob_Response :: "Response option"
  Ob_Captured :: "(string, string) gomap"
  Ob_Vars :: "(string, string) gomap"
  Ob_Failures :: "string list"
  Ob_Class :: "ErrorClass option"
  Ob_Duration :: Duration

fun first_check_failure :: "Check list \<Rightarrow> Response \<Rightarrow> (ErrorClass \<times> string) option" where
  "first_check_failure [] response = None"
| "first_check_failure (check # checks) response =
    (case Check_Kind check of
       CheckStatus \<Rightarrow>
         if Resp_Status response \<noteq> Check_Status check
         then Some (ErrStatus, ''expected status '' @ fmt_d (Check_Status check) @ '', got '' @ fmt_d (Resp_Status response))
         else first_check_failure checks response
     | CheckBody \<Rightarrow>
         if \<not> Contains (Resp_Body response) (Check_Text check)
         then Some (ErrAssertion, ''the body does not contain '' @ Quote (Check_Text check))
         else first_check_failure checks response)"

fun first_assertion_failure :: "('c, 'r, 'x, 'w) host \<Rightarrow> Assertion list \<Rightarrow> Response \<Rightarrow> iteration_values \<Rightarrow> ('r, 'x, 'w) surroundings \<Rightarrow>
    AssertionFailure option \<times> iteration_values \<times> ('r, 'x, 'w) surroundings" where
  "first_assertion_failure host [] response v s = (None, v, s)"
| "first_assertion_failure host (assertion # rest) response v s =
    (case Evaluate (Host_readers host) (Su_regexes s) assertion response (engine_resolve host) (v, s) of
       (failure, cache, v, s) \<Rightarrow>
         let s = s\<lparr>Su_regexes := cache\<rparr>
         in case failure of Some err \<Rightarrow> (Some err, v, s) | None \<Rightarrow> first_assertion_failure host rest response v s)"

text \<open>\<open>check\<close>: \<open>None\<close> is the class \<open>Success\<close>.\<close>

definition check :: "('c, 'r, 'x, 'w) host \<Rightarrow> 'c Step \<Rightarrow> Response \<Rightarrow> iteration_values \<Rightarrow> ('r, 'x, 'w) surroundings \<Rightarrow>
    (ErrorClass \<times> string) option \<times> iteration_values \<times> ('r, 'x, 'w) surroundings" where
  "check host step response v s =
    (case first_check_failure (Step_Checks step) response of
       Some failure \<Rightarrow> (Some failure, v, s)
     | None \<Rightarrow>
         (case first_assertion_failure host (Step_Assertions step) response v s of
            (Some err, v, s) \<Rightarrow> (Some (ErrAssertion, AssertionFailure_Error err), v, s)
          | (None, v, s) \<Rightarrow> (None, v, s)))"

text \<open>The loop over the captures: what is captured, and the error of the required one that failed.\<close>

fun run_captures :: "'x readers \<Rightarrow> Capture list \<Rightarrow> Response \<Rightarrow> (string, string) gomap \<Rightarrow> iteration_values \<Rightarrow> ('r, 'x, 'w) surroundings \<Rightarrow>
    CaptureError option \<times> (string, string) gomap \<times> iteration_values \<times> ('r, 'x, 'w) surroundings" where
  "run_captures rd [] response captured v s = (None, captured, v, s)"
| "run_captures rd (capture # rest) response captured v s =
    (case Extract rd (Su_regexes s) capture response of (result, cache) \<Rightarrow>
       let s = s\<lparr>Su_regexes := cache\<rparr>
       in case result of
            Inr value \<Rightarrow> run_captures rd rest response (gput captured (Cap_Variable capture) value)
                (Values.Set v (Cap_Variable capture) value) s
          | Inl err \<Rightarrow>
              if Cap_Required capture then (Some err, captured, v, s)
              else run_captures rd rest response (gput captured (Cap_Variable capture) (Cap_Default capture))
                (Values.Set v (Cap_Variable capture) (Cap_Default capture)) s)"

definition resolved_config :: "('c, 'r, 'x, 'w) host \<Rightarrow> 'c Step \<Rightarrow> string \<times> string \<Rightarrow> iteration_values \<Rightarrow> ('r, 'x, 'w) surroundings \<Rightarrow>
    'c \<times> iteration_values \<times> ('r, 'x, 'w) surroundings" where
  "resolved_config host step authHeader v s =
    (case run_resolution (engine_resolve host) (Method_Resolve (Host_engine host) (the (Step_Config step))) (v, s) of (config, v, s) \<Rightarrow>
       (if fst authHeader \<noteq> ''''
        then (case Method_WithHeader (Host_engine host) config of
                Some with_header \<Rightarrow> with_header (fst authHeader) (snd authHeader) | None \<Rightarrow> config)
        else config, v, s))"

definition note_shape :: "('c, 'r, 'x, 'w) host \<Rightarrow> 'c Step \<Rightarrow> 'c \<Rightarrow> ('r, 'x, 'w) surroundings \<Rightarrow> ('r, 'x, 'w) surroundings" where
  "note_shape host step config s =
    (if Su_collecting s
     then (case Method_RequestBody (Host_engine host) config of
             Some body \<Rightarrow> if body \<noteq> [] then tell (EvUses [(BodyShapeName @ Step_Name step, BodyShape (Host_unmarshal host) body)] []) s else s
           | None \<Rightarrow> s)
     else s)"

definition note_dimensions :: "Response \<Rightarrow> ('r, 'x, 'w) surroundings \<Rightarrow> ('r, 'x, 'w) surroundings" where
  "note_dimensions response s =
    (if Su_collecting s \<and> Resp_Attributes response \<noteq> [] then tell (EvUses (Resp_Attributes response) (Resp_Collapses response)) s else s)"

text \<open>What becomes of an answer: its class, its detail, the failures for the debug reader and the captures.\<close>

definition judge :: "('c, 'r, 'x, 'w) host \<Rightarrow> 'c Step \<Rightarrow> Response \<Rightarrow> iteration_values \<Rightarrow> ('r, 'x, 'w) surroundings \<Rightarrow>
    ErrorClass \<times> string \<times> string list \<times> (string, string) gomap \<times> iteration_values \<times> ('r, 'x, 'w) surroundings" where
  "judge host step response v s =
    (if Resp_Class response \<noteq> Success then (Resp_Class response, Resp_Detail response, [], [], v, s)
     else case check host step response v s of
       (Some (class, detail), v, s) \<Rightarrow> (class, detail, [detail], [], v, s)
     | (None, v, s) \<Rightarrow>
         (case run_captures (Host_readers host) (Step_Captures step) response [] v s of
            (Some err, captured, v, s) \<Rightarrow> (ErrCorrelation, CaptureError_Error err, [CaptureError_Error err], captured, v, s)
          | (None, captured, v, s) \<Rightarrow> (Success, Resp_Detail response, [], captured, v, s)))"

text \<open>A step whose protocol is compiled in has a configuration: \<open>the\<close> stands where the code dereferences it.\<close>

definition runStep :: "('c, 'r, 'x, 'w) host \<Rightarrow> 'c Executor \<Rightarrow> 'c Step \<Rightarrow> Time \<Rightarrow> iteration_values \<Rightarrow> string \<times> string \<Rightarrow>
    ('r, 'x, 'w) surroundings \<Rightarrow> Sample \<times> 'c Observation \<times> iteration_values \<times> ('r, 'x, 'w) surroundings" where
  "runStep host executor step scheduled v authHeader s =
    (let key = AggregationKey (Host_methods host) step;
         observation = \<lparr>Ob_Step = Step_Name step, Ob_Key = key, Ob_Config = None, Ob_Response = None, Ob_Captured = [], Ob_Vars = [],
           Ob_Failures = [], Ob_Class = None, Ob_Duration = 0\<rparr>;
         sample = \<lparr>S_LatencyKind = NoLatencyKind, S_Step = Step_Name step, S_Key = key, S_Protocol = Step_Protocol step,
           S_ScheduledAt = scheduled, S_SentAt = zeroTime, S_FinishedAt = zeroTime, S_Class = Success, S_Detail = '''',
           S_Status = 0, S_Bytes = 0, S_Messages = 0\<rparr>
     in case gget (Host_protocols host) (Step_Protocol step) of
       None \<Rightarrow>
         (case engine_now host s of (t, s) \<Rightarrow>
            (sample\<lparr>S_SentAt := t, S_FinishedAt := t, S_Class := ErrConfig, S_Detail := ''protocol not compiled into this binary''\<rparr>,
             observation, v, s))
     | Some implementation \<Rightarrow>
         (case resolved_config host step authHeader v s of (config, v, s) \<Rightarrow>
          case engine_now host (note_shape host step config s) of (sent, s) \<Rightarrow>
          case Proto_Execute implementation \<lparr>Req_StepName = Step_Name step, Req_Config = config,
              Req_URLBase = Spec_Target (Ex_scenario executor), Req_Vars = vals v,
              Req_Messaging = Spec_Messaging (Ex_scenario executor)\<rparr> (Su_world s) of (response, w) \<Rightarrow>
          case engine_now host (s\<lparr>Su_world := w\<rparr>) of (finished, s) \<Rightarrow>
          let key = (if Resp_Key response \<noteq> '''' then Resp_Key response else key)
          in case judge host step response v (note_dimensions response s) of (class, detail, failures, captured, v, s) \<Rightarrow>
            (sample\<lparr>S_SentAt := sent, S_FinishedAt := finished, S_Status := Resp_Status response, S_Bytes := Resp_Bytes response,
               S_Messages := Resp_Messages response, S_Class := class, S_Detail := detail, S_Key := key\<rparr>,
             observation\<lparr>Ob_Key := key, Ob_Config := Some config, Ob_Response := Some response, Ob_Captured := captured,
               Ob_Vars := vals v, Ob_Failures := failures, Ob_Class := Some class, Ob_Duration := finished - sent\<rparr>,
             v, s)))"

definition zeroResponse :: Response where
  "zeroResponse = \<lparr>Resp_Status = 0, Resp_Body = [], Resp_Headers = [], Resp_Bytes = 0, Resp_Messages = 0, Resp_Class = Success,
     Resp_Detail = [], Resp_Key = [], Resp_Attributes = [], Resp_Collapses = []\<rparr>"

definition runAuthStep :: "('c, 'r, 'x, 'w) host \<Rightarrow> 'c Executor \<Rightarrow> ('c, generator_key, ('r, 'x, 'w) surroundings) RunStep" where
  "runAuthStep host executor step v s =
    (case engine_now host s of (t, s) \<Rightarrow>
     case runStep host executor step t v ('''', '''') s of (sample, observation, v, s) \<Rightarrow>
       (if S_Class sample \<noteq> Success \<and> S_Class sample \<noteq> ErrStatus then Inl (S_Detail sample)
        else Inr (case Ob_Response observation of Some response \<Rightarrow> response | None \<Rightarrow> zeroResponse), v, s))"

section \<open>An iteration\<close>

text \<open>The loop over the sources: the record of each and its per-use generators, or the sample of the one that failed.\<close>

fun draw_sources :: "('c, 'r, 'x, 'w) host \<Rightarrow> nat \<Rightarrow> nat \<Rightarrow> int \<Rightarrow> iteration_values \<Rightarrow> ('r, 'x, 'w) surroundings \<Rightarrow>
    (string \<times> data_error + iteration_values) \<times> ('r, 'x, 'w) surroundings" where
  "draw_sources host index 0 iteration v s = (Inr v, s)"
| "draw_sources host index (Suc remaining) iteration v s =
    (case Source_Next (Host_rng host) (Su_sources s ! index) iteration of (record, source) \<Rightarrow>
       let s = s\<lparr>Su_sources := (Su_sources s)[index := source]\<rparr>
       in case record of
            Inl err \<Rightarrow> (Inl (Source_Name source, err), s)
          | Inr incoming \<Rightarrow>
              let v = SetAll v incoming;
                  v = foldl (\<lambda>v (name, field). SetPerUse v name (index, field)) v (Source_PerUse source)
              in draw_sources host (Suc index) remaining iteration v s)"

fun run_steps :: "('c, 'r, 'x, 'w) host \<Rightarrow> 'c Executor \<Rightarrow> bool \<Rightarrow> 'c Step list \<Rightarrow> Time \<Rightarrow> iteration_values \<Rightarrow> string \<times> string \<Rightarrow>
    ('r, 'x, 'w) surroundings \<Rightarrow> bool \<times> Time \<times> iteration_values \<times> ('r, 'x, 'w) surroundings" where
  "run_steps host executor corrected [] instant v authHeader s = (True, instant, v, s)"
| "run_steps host executor corrected (step # steps) instant v authHeader s =
    (case runStep host executor step instant v authHeader s of (sample, observation, v, s) \<Rightarrow>
       let sample = sample\<lparr>S_LatencyKind := (if corrected then CorrectedLatencyKind else ServiceLatencyKind)\<rparr>;
           s = tell (EvRecord sample) s
       in if S_Class sample \<noteq> Success then (False, S_FinishedAt sample, v, s)
          else run_steps host executor False steps (S_FinishedAt sample) v authHeader s)"

definition failure_sample :: "string \<Rightarrow> string \<Rightarrow> string \<Rightarrow> Time \<Rightarrow> Time \<Rightarrow> ErrorClass \<Rightarrow> string \<Rightarrow> Sample" where
  "failure_sample step key proto scheduled finished class detail =
    \<lparr>S_LatencyKind = NoLatencyKind, S_Step = step, S_Key = key, S_Protocol = proto, S_ScheduledAt = scheduled, S_SentAt = scheduled,
     S_FinishedAt = finished, S_Class = class, S_Detail = detail, S_Status = 0, S_Bytes = 0, S_Messages = 0\<rparr>"

text \<open>The header of the iteration, empty when the scenario declares no authentication.\<close>

definition iteration_header :: "('c, 'r, 'x, 'w) host \<Rightarrow> 'c Executor \<Rightarrow> 'c Manager option \<Rightarrow> iteration_values \<Rightarrow> ('r, 'x, 'w) surroundings \<Rightarrow>
    (string + string \<times> string) \<times> 'c Manager option \<times> iteration_values \<times> ('r, 'x, 'w) surroundings" where
  "iteration_header host executor manager v s =
    (case manager of
       None \<Rightarrow> (Inr ('''', ''''), None, v, s)
     | Some m \<Rightarrow> (case Header (Host_methods host) (runAuthStep host executor) (engine_now host) (engine_generate host) (Host_env host) m v s of
         (header, m, v, s) \<Rightarrow> (header, Some m, v, s)))"

definition runIteration :: "('c, 'r, 'x, 'w) host \<Rightarrow> 'c Executor \<Rightarrow> int \<Rightarrow> int \<Rightarrow> Time \<Rightarrow> 'c Manager option \<Rightarrow> ('r, 'x, 'w) surroundings \<Rightarrow>
    'c Manager option \<times> ('r, 'x, 'w) surroundings" where
  "runIteration host executor virtualUser iteration scheduled manager s =
    (let scenario = Ex_scenario executor; v = New virtualUser iteration (Spec_Vars scenario)
     in case draw_sources host 0 (length (Su_sources s)) iteration v s of
       (Inl (name, err), s) \<Rightarrow>
         (case engine_now host s of (t, s) \<Rightarrow>
            (manager, tell (EvRecord (failure_sample (''data: '' @ name) name ''data'' scheduled t ErrConfig (Host_error_text host err))) s))
     | (Inr v, s) \<Rightarrow>
         (case iteration_header host executor manager v s of
            (Inl err, manager, v, s) \<Rightarrow>
              (case engine_now host s of (t, s) \<Rightarrow>
                 (manager, tell (EvRecord (failure_sample ''authentication'' ''authentication'' ''http'' scheduled t ErrAuth
                    (err @ '' '' @ em_dash @ '' target '' @ Spec_Target scenario))) s))
          | (Inr authHeader, manager, v, s) \<Rightarrow>
              (case run_steps host executor (\<not> Closed (Spec_Load scenario)) (stepsOf (Ex_mixOrder executor) scenario iteration) scheduled v authHeader s of
                 (completed, finish, v, s) \<Rightarrow>
                   (manager, tell (EvUses (Uses v) []) (tell (EvJourney scheduled finish completed) s)))))"

section \<open>What a step does to the values\<close>

lemma Resolve_state:
  assumes "Resolve draw env v s model = (t, v', s')"
  shows "vals v' = vals v" "perUse v' = perUse v"
  using assms resolve_segments_state by (fastforce simp: Resolve_def split: if_splits)+

lemma engine_resolve_vals: "engine_resolve host asked (v, s) = (t, v', s') \<Longrightarrow> vals v' = vals v"
  by (simp add: engine_resolve_def Resolve_state)

text \<open>What every substitution keeps, the resolution of a configuration keeps.\<close>

lemma run_resolution_invariant:
  assumes "\<And>asked st answer st'. resolve asked st = (answer, st') \<Longrightarrow> P st \<Longrightarrow> P st'"
    and "run_resolution resolve tree st = (config, st')" and "P st"
  shows "P st'"
  using assms(2,3)
proof (induction tree arbitrary: st)
  case (Asks asked continue)
  then show ?case using assms(1) by (fastforce split: prod.splits)
qed simp

lemma resolved_config_vals:
  assumes "resolved_config host step authHeader v s = (config, v', s')"
  shows "vals v' = vals v"
proof -
  obtain config0 where "run_resolution (engine_resolve host) (Method_Resolve (Host_engine host) (the (Step_Config step))) (v, s) = (config0, v', s')"
    using assms by (auto simp: resolved_config_def split: prod.splits)
  from run_resolution_invariant[where P = "\<lambda>(u, _). vals u = vals v", OF _ this] show ?thesis
    using engine_resolve_vals by fastforce
qed

lemma first_assertion_failure_vals:
  "first_assertion_failure host assertions response v s = (failure, v', s') \<Longrightarrow> vals v' = vals v"
proof (induction assertions arbitrary: v s)
  case (Cons assertion rest)
  obtain failure1 cache1 v1 s1 where ev: "Evaluate (Host_readers host) (Su_regexes s) assertion response (engine_resolve host) (v, s) = (failure1, cache1, v1, s1)"
    by (metis prod_cases4)
  then have "vals v1 = vals v" using engine_resolve_vals by (fastforce simp: Evaluate_def split: prod.splits)
  with Cons ev show ?case by (cases failure1) (auto simp: Let_def)
qed simp

lemma check_vals: "check host step response v s = (failure, v', s') \<Longrightarrow> vals v' = vals v"
  by (auto simp: check_def dest!: first_assertion_failure_vals split: option.splits prod.splits)

lemma vals_Set [simp]: "vals (Values.Set v n x) = gput (vals v) n x"
  by (simp add: Set_def)

lemma run_captures_vals:
  "run_captures rd captures response captured v s = (err, captured', v', s') \<Longrightarrow>
   (gmap_ok (vals v) \<longrightarrow> gmap_ok (vals v')) \<and> (\<forall>n. n \<notin> Cap_Variable ` set captures \<longrightarrow> gget (vals v') n = gget (vals v) n)"
proof (induction captures arbitrary: captured v s)
  case (Cons capture rest)
  obtain result cache where ex: "Extract rd (Su_regexes s) capture response = (result, cache)" by fastforce
  show ?case
  proof (cases result)
    case (Inl err1)
    with Cons.prems ex Cons.IH show ?thesis
      by (cases "Cap_Required capture") (fastforce simp: Let_def)+
  next
    case (Inr extracted)
    with Cons.prems ex have "run_captures rd rest response (gput captured (Cap_Variable capture) extracted)
        (Values.Set v (Cap_Variable capture) extracted) (s\<lparr>Su_regexes := cache\<rparr>) = (err, captured', v', s')"
      by (simp add: Let_def)
    from Cons.IH[OF this] show ?thesis by auto
  qed
qed simp

definition captured_variables :: "'c Step \<Rightarrow> string set" where
  "captured_variables step = Cap_Variable ` set (Step_Captures step)"

definition writes_only :: "string set \<Rightarrow> iteration_values \<Rightarrow> iteration_values \<Rightarrow> bool" where
  "writes_only written v v' \<longleftrightarrow>
    (gmap_ok (vals v) \<longrightarrow> gmap_ok (vals v')) \<and> (\<forall>n. n \<notin> written \<longrightarrow> gget (vals v') n = gget (vals v) n)"

lemma judge_vals:
  "judge host step response v s = (class, detail, failures, captured, v', s') \<Longrightarrow> writes_only (captured_variables step) v v'"
  unfolding writes_only_def captured_variables_def
  by (fastforce simp: judge_def dest!: check_vals run_captures_vals split: if_splits option.splits prod.splits)

text \<open>The stages of a step whose protocol is compiled in.\<close>

lemma runStep_stages:
  assumes "runStep host executor step scheduled v authHeader s = (sample, observation, v', s')"
    and "gget (Host_protocols host) (Step_Protocol step) = Some implementation"
  obtains config v1 s1 sent s2 request response w finished s3 kind detail failures captured where
    "resolved_config host step authHeader v s = (config, v1, s1)"
    "engine_now host (note_shape host step config s1) = (sent, s2)"
    "Proto_Execute implementation request (Su_world s2) = (response, w)"
    "engine_now host (s2\<lparr>Su_world := w\<rparr>) = (finished, s3)"
    "judge host step response v1 (note_dimensions response s3) = (kind, detail, failures, captured, v', s')"
    "S_Class sample = kind" "S_SentAt sample = sent" "S_FinishedAt sample = finished" "Ob_Response observation = Some response"
proof -
  obtain config v1 s1 where config: "resolved_config host step authHeader v s = (config, v1, s1)" by (metis prod_cases3)
  obtain sent s2 where sent: "engine_now host (note_shape host step config s1) = (sent, s2)" by fastforce
  let ?request = "\<lparr>Req_StepName = Step_Name step, Req_Config = config,
      Req_URLBase = Spec_Target (Ex_scenario executor), Req_Vars = vals v1, Req_Messaging = Spec_Messaging (Ex_scenario executor)\<rparr>"
  obtain response w where response: "Proto_Execute implementation ?request (Su_world s2) = (response, w)" by fastforce
  obtain finished s3 where finished: "engine_now host (s2\<lparr>Su_world := w\<rparr>) = (finished, s3)" by fastforce
  obtain kind detail failures captured v2 s4 where judged:
    "judge host step response v1 (note_dimensions response s3) = (kind, detail, failures, captured, v2, s4)" by (metis prod_cases6)
  from assms config sent response finished judged have "v' = v2" "s' = s4" "S_Class sample = kind" "S_SentAt sample = sent"
      "S_FinishedAt sample = finished" "Ob_Response observation = Some response"
    by (auto simp: runStep_def Let_def)
  with config sent response finished judged show thesis by (intro that) auto
qed

lemma runStep_vals:
  assumes "runStep host executor step scheduled v authHeader s = (sample, observation, v', s')"
  shows "writes_only (captured_variables step) v v'"
proof (cases "gget (Host_protocols host) (Step_Protocol step)")
  case None
  with assms show ?thesis by (auto simp: runStep_def Let_def writes_only_def split: prod.splits)
next
  case (Some implementation)
  with assms show ?thesis
    by (rule runStep_stages) (auto simp: writes_only_def dest!: resolved_config_vals judge_vals)
qed

interpretation auth_step: obtaining "runAuthStep host executor" captured_variables for host executor
proof unfold_locales
  fix step v s r v' s' n
  assume run: "runAuthStep host executor step v s = (r, v', s')"
  then have "writes_only (captured_variables step) v v'"
    by (auto simp: runAuthStep_def split: prod.splits dest: runStep_vals)
  then show "gmap_ok (vals v) \<Longrightarrow> gmap_ok (vals v')" "n \<notin> captured_variables step \<Longrightarrow> gget (vals v') n = gget (vals v) n"
    by (auto simp: writes_only_def)
qed

section \<open>What a step tells the collector\<close>

definition only_uses :: "collector_event list \<Rightarrow> bool" where
  "only_uses events \<longleftrightarrow> (\<forall>event \<in> set events. \<exists>u c. event = EvUses u c)"

text \<open>Between two states the collector was told of uses only.\<close>

definition told_uses :: "('r, 'x, 'w) surroundings \<Rightarrow> ('r, 'x, 'w) surroundings \<Rightarrow> bool" where
  "told_uses s s' \<longleftrightarrow> Su_collecting s' = Su_collecting s \<and> (\<exists>events. Su_told s' = Su_told s @ events \<and> only_uses events)"

lemma told_uses_refl [intro, simp]: "told_uses s s"
  by (simp add: told_uses_def only_uses_def)

lemma told_uses_trans: "told_uses s s' \<Longrightarrow> told_uses s' s'' \<Longrightarrow> told_uses s s''"
  by (force simp: told_uses_def only_uses_def)

lemma told_uses_tell [intro]: "told_uses s (tell (EvUses u c) s)"
  by (auto simp: told_uses_def only_uses_def tell_def)

lemma told_uses_updates [simp]:
  "told_uses s (s'\<lparr>Su_regexes := cache\<rparr>) = told_uses s s'"
  "told_uses s (s'\<lparr>Su_world := w\<rparr>) = told_uses s s'"
  "told_uses s (s'\<lparr>Su_sources := sources\<rparr>) = told_uses s s'"
  "told_uses (s\<lparr>Su_regexes := cache\<rparr>) s' = told_uses s s'"
  "told_uses (s\<lparr>Su_world := w\<rparr>) s' = told_uses s s'"
  "told_uses (s\<lparr>Su_sources := sources\<rparr>) s' = told_uses s s'"
  by (simp_all add: told_uses_def)

lemma engine_now_told: "engine_now host s = (t, s') \<Longrightarrow> told_uses s s'"
  by (auto simp: engine_now_def split: prod.splits)

lemma engine_generate_told: "engine_generate host g s = (r, s') \<Longrightarrow> told_uses s s'"
  by (auto simp: engine_generate_def split: prod.splits if_splits Source.splits)

lemma Resolve_told:
  assumes "Resolve (engine_generate host) env v s model = (t, v', s')"
  shows "told_uses s s'"
  by (rule Resolve_world_invariant[OF _ assms]) (auto dest: engine_generate_told intro: told_uses_trans)

lemma engine_resolve_told: "engine_resolve host asked (v, s) = (t, v', s') \<Longrightarrow> told_uses s s'"
  by (simp add: engine_resolve_def Resolve_told)

lemma resolved_config_told:
  assumes "resolved_config host step authHeader v s = (config, v', s')"
  shows "told_uses s s'"
proof -
  obtain config0 where "run_resolution (engine_resolve host) (Method_Resolve (Host_engine host) (the (Step_Config step))) (v, s) = (config0, v', s')"
    using assms by (auto simp: resolved_config_def split: prod.splits)
  from run_resolution_invariant[where P = "\<lambda>(_, s1). told_uses s s1", OF _ this] show ?thesis
    using engine_resolve_told told_uses_trans by fastforce
qed

lemma first_assertion_failure_told:
  "first_assertion_failure host assertions response v s = (failure, v', s') \<Longrightarrow> told_uses s s'"
proof (induction assertions arbitrary: v s)
  case (Cons assertion rest)
  obtain failure1 cache1 v1 s1 where ev: "Evaluate (Host_readers host) (Su_regexes s) assertion response (engine_resolve host) (v, s) = (failure1, cache1, v1, s1)"
    by (metis prod_cases4)
  then have first: "told_uses s s1" using engine_resolve_told by (fastforce simp: Evaluate_def split: prod.splits)
  show ?case
  proof (cases failure1)
    case None
    with Cons.prems ev have "first_assertion_failure host rest response v1 (s1\<lparr>Su_regexes := cache1\<rparr>) = (failure, v', s')" by (simp add: Let_def)
    from told_uses_trans[OF first] Cons.IH[OF this] show ?thesis by simp
  qed (use Cons ev first in auto)
qed simp

lemma run_captures_told:
  "run_captures rd captures response captured v s = (err, captured', v', s') \<Longrightarrow> told_uses s s'"
proof (induction captures arbitrary: captured v s)
  case (Cons capture rest)
  obtain result cache where ex: "Extract rd (Su_regexes s) capture response = (result, cache)" by fastforce
  have "told_uses (s\<lparr>Su_regexes := cache\<rparr>) s'"
    using Cons ex by (cases result; cases "Cap_Required capture") (fastforce simp: Let_def)+
  then show ?case by simp
qed simp

lemma check_told: "check host step response v s = (failure, v', s') \<Longrightarrow> told_uses s s'"
  by (auto simp: check_def dest!: first_assertion_failure_told split: option.splits prod.splits)

lemma judge_told: "judge host step response v s = (class, detail, failures, captured, v', s') \<Longrightarrow> told_uses s s'"
  by (auto simp: judge_def dest!: check_told run_captures_told intro: told_uses_trans split: if_splits option.splits prod.splits)

lemma note_told [simp]: "told_uses s (note_shape host step config s)" "told_uses s (note_dimensions response s)"
  by (auto simp: note_shape_def note_dimensions_def split: option.splits)

lemma runStep_told:
  assumes "runStep host executor step scheduled v authHeader s = (sample, observation, v', s')"
  shows "told_uses s s'"
proof (cases "gget (Host_protocols host) (Step_Protocol step)")
  case None
  with assms show ?thesis by (auto simp: runStep_def Let_def split: prod.splits dest: engine_now_told)
next
  case (Some implementation)
  with assms show ?thesis
  proof (rule runStep_stages)
    fix config v1 s1 sent s2 response finished s3 kind detail failures captured w
    assume "resolved_config host step authHeader v s = (config, v1, s1)" "engine_now host (note_shape host step config s1) = (sent, s2)"
      "engine_now host (s2\<lparr>Su_world := w\<rparr>) = (finished, s3)"
      "judge host step response v1 (note_dimensions response s3) = (kind, detail, failures, captured, v', s')"
    then have "told_uses s s1" "told_uses (note_shape host step config s1) s2" "told_uses s2 s3" "told_uses (note_dimensions response s3) s'"
      by (auto dest: resolved_config_told engine_now_told judge_told)
    then show ?thesis by (meson note_told told_uses_trans)
  qed
qed

lemma runStep_sample:
  assumes "runStep host executor step scheduled v authHeader s = (sample, observation, v', s')"
  shows "S_Step sample = Step_Name step" "S_ScheduledAt sample = scheduled" "S_Protocol sample = Step_Protocol step"
  using assms by (auto simp: runStep_def Let_def split: option.splits prod.splits)

lemma runAuthStep_told: "runAuthStep host executor step v s = (r, v', s') \<Longrightarrow> told_uses s s'"
  by (auto simp: runAuthStep_def split: prod.splits dest!: runStep_told engine_now_told intro: told_uses_trans)

lemma ensureToken_told:
  assumes "ensureToken methods (runAuthStep host executor) (engine_now host) step m v s = (err, m', s')"
  shows "told_uses s s'"
proof -
  have get: "obtain_token methods (runAuthStep host executor) (engine_now host) step m v s = (err, m', s') \<Longrightarrow> told_uses s s'" for s
    by (auto simp: obtain_token_def Let_def split: prod.splits sum.splits if_splits dest!: runAuthStep_told engine_now_told intro: told_uses_trans)
  obtain expired s1 where ve: "venceu (engine_now host) m s = (expired, s1)" by fastforce
  then have "told_uses s s1" by (auto simp: venceu_def split: if_splits prod.splits dest: engine_now_told)
  with assms ve get[of s] get[of s1] show ?thesis
    by (auto simp: ensureToken_def split: if_splits intro: told_uses_trans)
qed

lemma Header_told:
  assumes "Header methods (runAuthStep host executor) (engine_now host) (engine_generate host) env m v s = (result, m', v', s')"
  shows "told_uses s s'"
  using assms
  by (auto simp: Header_def Let_def split: if_splits prod.splits option.splits
      dest!: Resolve_told ensureToken_told intro: told_uses_trans)

lemma iteration_header_told:
  "iteration_header host executor manager v s = (header, manager', v', s') \<Longrightarrow> told_uses s s'"
  by (auto simp: iteration_header_def split: option.splits prod.splits dest: Header_told)

lemma draw_sources_told: "draw_sources host index n iteration v s = (result, s') \<Longrightarrow> told_uses s s'"
proof (induction n arbitrary: index v s)
  case (Suc n)
  then show ?case by (fastforce simp: Let_def split: prod.splits sum.splits)
qed simp

section \<open>The journey\<close>

definition records_of :: "collector_event list \<Rightarrow> Sample list" where
  "records_of events = List.map_filter (\<lambda>event. case event of EvRecord sample \<Rightarrow> Some sample | _ \<Rightarrow> None) events"

definition journeys_of :: "collector_event list \<Rightarrow> (Time \<times> Time \<times> bool) list" where
  "journeys_of events = List.map_filter (\<lambda>event. case event of EvJourney scheduled finish completed \<Rightarrow> Some (scheduled, finish, completed) | _ \<Rightarrow> None) events"

lemma records_append [simp]: "records_of (a @ b) = records_of a @ records_of b" "journeys_of (a @ b) = journeys_of a @ journeys_of b"
  by (simp_all add: records_of_def journeys_of_def map_filter_def)

lemma records_simps [simp]:
  "records_of [] = []" "records_of (EvRecord sample # rest) = sample # records_of rest"
  "records_of (EvJourney a b c # rest) = records_of rest" "records_of (EvUses u c' # rest) = records_of rest"
  "journeys_of [] = []" "journeys_of (EvRecord sample # rest) = journeys_of rest"
  "journeys_of (EvJourney a b c # rest) = (a, b, c) # journeys_of rest" "journeys_of (EvUses u c' # rest) = journeys_of rest"
  by (simp_all add: records_of_def journeys_of_def map_filter_def)

lemma only_uses_silent: "only_uses events \<Longrightarrow> records_of events = [] \<and> journeys_of events = []"
  by (auto simp: only_uses_def records_of_def journeys_of_def map_filter_def filter_empty_conv split: collector_event.splits)

text \<open>
  What the samples of a journey are: one per step that ran, in order, each scheduled when the one
  before it finished, only the first one on the clock of the schedule, and every one but the last a
  success.
\<close>

definition journey_of :: "'c Step list \<Rightarrow> bool \<Rightarrow> Time \<Rightarrow> Sample list \<Rightarrow> Time \<Rightarrow> bool \<Rightarrow> bool" where
  "journey_of steps corrected scheduled samples finish completed \<longleftrightarrow>
    length samples \<le> length steps \<and> (steps \<noteq> [] \<longrightarrow> samples \<noteq> [])
    \<and> (\<forall>i < length samples. S_Step (samples ! i) = Step_Name (steps ! i)
         \<and> S_ScheduledAt (samples ! i) = (if i = 0 then scheduled else S_FinishedAt (samples ! (i - 1)))
         \<and> S_LatencyKind (samples ! i) = (if i = 0 \<and> corrected then CorrectedLatencyKind else ServiceLatencyKind))
    \<and> (\<forall>i. Suc i < length samples \<longrightarrow> S_Class (samples ! i) = Success)
    \<and> finish = (if samples = [] then scheduled else S_FinishedAt (last samples))
    \<and> (completed \<longleftrightarrow> length samples = length steps \<and> (\<forall>sample \<in> set samples. S_Class sample = Success))
    \<and> (\<not> completed \<longrightarrow> S_Class (last samples) \<noteq> Success)"

lemma journey_of_Nil: "journey_of [] corrected t [] t True"
  by (simp add: journey_of_def)

lemma journey_of_failed:
  assumes "S_Step x = Step_Name step" "S_ScheduledAt x = t" "S_Class x \<noteq> Success"
    and "S_LatencyKind x = (if corrected then CorrectedLatencyKind else ServiceLatencyKind)"
  shows "journey_of (step # steps) corrected t [x] (S_FinishedAt x) False"
  using assms by (simp add: journey_of_def)

lemma journey_of_Cons:
  assumes "S_Step x = Step_Name step" "S_ScheduledAt x = t" "S_Class x = Success"
    and "S_LatencyKind x = (if corrected then CorrectedLatencyKind else ServiceLatencyKind)"
    and rest: "journey_of steps False (S_FinishedAt x) samples finish completed"
  shows "journey_of (step # steps) corrected t (x # samples) finish completed"
proof -
  note r = rest[unfolded journey_of_def]
  have fields: "S_Step ((x # samples) ! i) = Step_Name ((step # steps) ! i)
         \<and> S_ScheduledAt ((x # samples) ! i) = (if i = 0 then t else S_FinishedAt ((x # samples) ! (i - 1)))
         \<and> S_LatencyKind ((x # samples) ! i) = (if i = 0 \<and> corrected then CorrectedLatencyKind else ServiceLatencyKind)"
    if "i < length (x # samples)" for i
    using that assms(1,2,4) r by (cases i) (auto simp: nth_Cons' gr0_conv_Suc)
  have success: "S_Class ((x # samples) ! i) = Success" if "Suc i < length (x # samples)" for i
    using that assms(3) r by (cases i) auto
  show ?thesis
    unfolding journey_of_def
  proof (intro conjI allI impI)
    show "length (x # samples) \<le> length (step # steps)" using r by simp
    show "finish = (if x # samples = [] then t else S_FinishedAt (last (x # samples)))" using r by simp
    show "completed = (length (x # samples) = length (step # steps) \<and> (\<forall>sample\<in>set (x # samples). S_Class sample = Success))"
      using r assms(3) by auto
    show "S_Class (last (x # samples)) \<noteq> Success" if "\<not> completed" using r that by (cases "samples = []") auto
  qed (use fields success in auto)
qed

lemma told_uses_silent:
  "told_uses s s' \<Longrightarrow> \<exists>events. Su_told s' = Su_told s @ events \<and> records_of events = [] \<and> journeys_of events = []"
  using only_uses_silent by (auto simp: told_uses_def)

lemma run_steps_journey:
  assumes "run_steps host executor corrected steps t v authHeader s = (completed, finish, v', s')"
  shows "\<exists>events. Su_told s' = Su_told s @ events \<and> journeys_of events = []
    \<and> journey_of steps corrected t (records_of events) finish completed"
  using assms
proof (induction steps arbitrary: corrected t v s)
  case Nil
  then show ?case by (simp add: journey_of_Nil)
next
  case (Cons step steps)
  obtain x0 observation v1 s1 where run: "runStep host executor step t v authHeader s = (x0, observation, v1, s1)" by (metis prod_cases4)
  define x where "x = x0\<lparr>S_LatencyKind := (if corrected then CorrectedLatencyKind else ServiceLatencyKind)\<rparr>"
  have x: "S_Step x = Step_Name step" "S_ScheduledAt x = t" "S_LatencyKind x = (if corrected then CorrectedLatencyKind else ServiceLatencyKind)"
    using runStep_sample[OF run] by (simp_all add: x_def)
  obtain uses where uses: "Su_told s1 = Su_told s @ uses" "records_of uses = []" "journeys_of uses = []"
    using told_uses_silent[OF runStep_told[OF run]] by blast
  show ?case
  proof (cases "S_Class x = Success")
    case False
    with Cons.prems run have "completed = False" "finish = S_FinishedAt x" "s' = tell (EvRecord x) s1"
      by (auto simp: x_def Let_def)
    with journey_of_failed[OF x(1,2) False x(3)] uses show ?thesis by (auto simp: tell_def)
  next
    case True
    with Cons.prems run have "run_steps host executor False steps (S_FinishedAt x) v1 authHeader (tell (EvRecord x) s1) = (completed, finish, v', s')"
      by (auto simp: x_def Let_def)
    from Cons.IH[OF this] obtain events where "Su_told s' = Su_told s @ uses @ [EvRecord x] @ events" "journeys_of events = []"
        "journey_of steps False (S_FinishedAt x) (records_of events) finish completed"
      using uses(1) by (auto simp: tell_def)
    with journey_of_Cons[OF x(1,2) True x(3)] uses show ?thesis
      by (intro exI[of _ "uses @ [EvRecord x] @ events"]) simp
  qed
qed

lemma runIteration_outcome:
  "\<exists>events. Su_told (snd (runIteration host executor user iteration scheduled manager s)) = Su_told s @ events \<and>
    ((\<exists>sample. records_of events = [sample] \<and> journeys_of events = [] \<and> S_Class sample \<in> {ErrConfig, ErrAuth} \<and> S_ScheduledAt sample = scheduled)
     \<or> (\<exists>finish completed. journeys_of events = [(scheduled, finish, completed)]
          \<and> journey_of (stepsOf (Ex_mixOrder executor) (Ex_scenario executor) iteration) (\<not> Closed (Spec_Load (Ex_scenario executor)))
              scheduled (records_of events) finish completed))"
  (is "\<exists>events. Su_told (snd ?run) = _ \<and> _")
proof -
  let ?v = "New user iteration (Spec_Vars (Ex_scenario executor))"
  obtain manager' s' where run: "?run = (manager', s')" by fastforce
  obtain drawn s1 where draw: "draw_sources host 0 (length (Su_sources s)) iteration ?v s = (drawn, s1)" by fastforce
  obtain before where before: "Su_told s1 = Su_told s @ before" "records_of before = []" "journeys_of before = []"
    using told_uses_silent[OF draw_sources_told[OF draw]] by blast
  have failing: ?thesis if fails: "s' = tell (EvRecord (failure_sample a b c scheduled t k d)) s4" "k \<in> {ErrConfig, ErrAuth}"
      "engine_now host s3 = (t, s4)" "told_uses s s3" for a b c t k d s3 s4
  proof -
    obtain silent where "Su_told s4 = Su_told s @ silent" "records_of silent = []" "journeys_of silent = []"
      using told_uses_silent[OF told_uses_trans[OF fails(4) engine_now_told[OF fails(3)]]] by blast
    with run fails(1,2) show ?thesis
      by (intro exI[of _ "silent @ [EvRecord (failure_sample a b c scheduled t k d)]"]) (simp add: tell_def failure_sample_def)
  qed
  show ?thesis
  proof (cases drawn)
    case (Inl failed)
    obtain name err where "failed = (name, err)" by fastforce
    with run draw Inl failing[of _ _ _ _ ErrConfig] draw_sources_told[OF draw] show ?thesis
      by (auto simp: runIteration_def Let_def split: prod.splits)
  next
    case (Inr v1)
    obtain header m2 v2 s2 where head: "iteration_header host executor manager v1 s1 = (header, m2, v2, s2)" by (metis prod_cases4)
    have told2: "told_uses s s2" using draw_sources_told[OF draw] iteration_header_told[OF head] by (rule told_uses_trans)
    show ?thesis
    proof (cases header)
      case (Inl err)
      with run draw Inr head failing[of _ _ _ _ ErrAuth] told2 show ?thesis
        by (auto simp: runIteration_def Let_def split: prod.splits)
    next
      case header: (Inr authHeader)
      let ?steps = "stepsOf (Ex_mixOrder executor) (Ex_scenario executor) iteration"
      obtain completed finish v3 s3 where steps:
        "run_steps host executor (\<not> Closed (Spec_Load (Ex_scenario executor))) ?steps scheduled v2 authHeader s2 = (completed, finish, v3, s3)"
        by (metis prod_cases4)
      obtain silent where silent: "Su_told s2 = Su_told s @ silent" "records_of silent = []" "journeys_of silent = []"
        using told_uses_silent[OF told2] by blast
      from run_steps_journey[OF steps] obtain events where events: "Su_told s3 = Su_told s2 @ events" "journeys_of events = []"
        "journey_of ?steps (\<not> Closed (Spec_Load (Ex_scenario executor))) scheduled (records_of events) finish completed" by blast
      from run draw Inr head header steps have "s' = tell (EvUses (Uses v3) []) (tell (EvJourney scheduled finish completed) s3)"
        by (auto simp: runIteration_def Let_def)
      with run silent events show ?thesis
        by (intro exI[of _ "silent @ events @ [EvJourney scheduled finish completed] @ [EvUses (Uses v3) []]"]) (simp add: tell_def)
    qed
  qed
qed

text \<open>C7. An iteration tells the collector one of two things. Either nothing of the scenario ran, because a data source or the
  credential failed: then there is one sample of that failure and no journey. Or the steps of the
  iteration ran in order up to the first that failed: one sample each, every later one scheduled when
  the one before finished, only the first one measured from the schedule and only in the open model,
  and one journey, from the scheduled instant to the last sample, complete exactly when every step
  succeeded.\<close>

theorem runIteration_tells:
  "\<exists>events. Su_told (snd (runIteration host executor user iteration scheduled manager s)) = Su_told s @ events \<and>
    ((\<exists>sample. records_of events = [sample] \<and> journeys_of events = [] \<and> S_Class sample \<in> {ErrConfig, ErrAuth} \<and> S_ScheduledAt sample = scheduled)
     \<or> (\<exists>finish completed. journeys_of events = [(scheduled, finish, completed)]
          \<and> journey_of (stepsOf (Ex_mixOrder executor) (Ex_scenario executor) iteration) (\<not> Closed (Spec_Load (Ex_scenario executor)))
              scheduled (records_of events) finish completed))"
  by (rule runIteration_outcome)

section \<open>What a success means\<close>

definition check_holds :: "Response \<Rightarrow> Check \<Rightarrow> bool" where
  "check_holds response c \<longleftrightarrow> (case Check_Kind c of CheckStatus \<Rightarrow> Resp_Status response = Check_Status c
     | CheckBody \<Rightarrow> (\<exists>before after. Resp_Body response = before @ Check_Text c @ after))"

lemma first_check_failure_None:
  "first_check_failure checks response = None \<longleftrightarrow> (\<forall>c \<in> set checks. check_holds response c)"
  by (induction checks) (auto simp: check_holds_def Contains_iff split: CheckKind.split)

lemma first_check_failure_class: "first_check_failure checks response = Some (k, d) \<Longrightarrow> k \<noteq> Success"
  by (induction checks) (auto split: CheckKind.splits if_splits)

abbreviation regexes_sound :: "('c, 'r, 'x, 'w) host \<Rightarrow> ('r, 'x, 'w) surroundings \<Rightarrow> bool" where
  "regexes_sound host s \<equiv> cache_sound (Host_readers host) (Su_regexes s)"

lemma Extract_cache_sound: "cache_sound rd cache \<Longrightarrow> cache_sound rd (snd (Extract rd cache capture response))"
  using compile_sound(2)[of rd cache "Cap_Expression capture"]
  by (auto simp: Extract_def split: CaptureOrigin.split prod.splits sum.splits)

lemma evaluate_cache_sound: "cache_sound rd cache \<Longrightarrow> cache_sound rd (snd (evaluate_resolved rd cache assertion response expected))"
  using compile_sound(2)[of rd cache expected]
  by (auto simp: evaluate_resolved_def split: AssertionKind.split prod.splits sum.splits)

lemma engine_resolve_regexes:
  assumes "engine_resolve host asked (v, s) = (t, v', s')"
  shows "Su_regexes s' = Su_regexes s"
proof (rule Resolve_world_invariant[where Q = "\<lambda>s1. Su_regexes s1 = Su_regexes s"])
  show "Resolve (engine_generate host) (Host_env host) v s asked = (t, v', s')" using assms by (simp add: engine_resolve_def)
qed (auto simp: engine_generate_def split: prod.splits if_splits Source.splits)

lemma resolved_config_regexes:
  assumes "resolved_config host step authHeader v s = (config, v', s')"
  shows "Su_regexes s' = Su_regexes s"
proof -
  obtain config0 where "run_resolution (engine_resolve host) (Method_Resolve (Host_engine host) (the (Step_Config step))) (v, s) = (config0, v', s')"
    using assms by (auto simp: resolved_config_def split: prod.splits)
  from run_resolution_invariant[where P = "\<lambda>(_, s1). Su_regexes s1 = Su_regexes s", OF _ this] show ?thesis
    using engine_resolve_regexes by fastforce
qed

text \<open>An assertion holds when it accepts the answer for the text its value becomes with the values of the iteration.\<close>

definition assertion_holds :: "('c, 'r, 'x, 'w) host \<Rightarrow> (string, string) gomap \<Rightarrow> Response \<Rightarrow> Assertion \<Rightarrow> bool" where
  "assertion_holds host known response assertion \<longleftrightarrow>
    (\<exists>v s expected st. vals v = known \<and> engine_resolve host (As_Value assertion) (v, s) = (expected, st)
       \<and> fst (evaluate_resolved (Host_readers host) [] assertion response expected) = None)"

lemma first_assertion_failure_None:
  assumes "first_assertion_failure host assertions response v s = (failure, v', s')" and "regexes_sound host s"
  shows "regexes_sound host s' \<and> (failure = None \<longrightarrow> (\<forall>a \<in> set assertions. assertion_holds host (vals v) response a))"
  using assms
proof (induction assertions arbitrary: v s)
  case (Cons assertion rest)
  obtain expected v1 s1 where res: "engine_resolve host (As_Value assertion) (v, s) = (expected, v1, s1)" by (metis prod_cases3)
  obtain failure1 cache1 where ev: "evaluate_resolved (Host_readers host) (Su_regexes s) assertion response expected = (failure1, cache1)" by fastforce
  have vals: "vals v1 = vals v" using res by (rule engine_resolve_vals)
  have sound: "cache_sound (Host_readers host) cache1" using evaluate_cache_sound[OF Cons.prems(2)] ev by (metis snd_conv)
  show ?case
  proof (cases failure1)
    case (Some err)
    with Cons.prems res ev sound show ?thesis by (auto simp: Evaluate_def Let_def)
  next
    case None
    with ev evaluate_sound[OF Cons.prems(2) empty_cache_sound, of assertion response expected] res
    have "assertion_holds host (vals v) response assertion" unfolding assertion_holds_def by (metis fst_conv)
    moreover from None Cons.prems res ev
    have "first_assertion_failure host rest response v1 (s1\<lparr>Su_regexes := cache1\<rparr>) = (failure, v', s')" by (simp add: Evaluate_def Let_def)
    ultimately show ?thesis using Cons.IH[of v1 "s1\<lparr>Su_regexes := cache1\<rparr>"] sound vals by auto
  qed
qed simp

definition captured_value :: "'x readers \<Rightarrow> Response \<Rightarrow> Capture \<Rightarrow> string" where
  "captured_value rd response capture = (case fst (Extract rd [] capture response) of Inr x \<Rightarrow> x | Inl _ \<Rightarrow> Cap_Default capture)"

lemma run_captures_None:
  assumes "run_captures rd captures response captured v s = (None, captured', v', s')"
    and "cache_sound rd (Su_regexes s)" and "distinct (map Cap_Variable captures)"
  shows "\<forall>c \<in> set captures. (Cap_Required c \<longrightarrow> \<not> isl (fst (Extract rd [] c response)))
    \<and> Value v' (Cap_Variable c) = Some (captured_value rd response c)"
  using assms
proof (induction captures arbitrary: captured v s)
  case (Cons capture rest)
  obtain result cache where ex: "Extract rd (Su_regexes s) capture response = (result, cache)" by fastforce
  have result: "fst (Extract rd [] capture response) = result"
    using Extract_sound[OF Cons.prems(2) empty_cache_sound, of capture response] ex by simp
  have sound: "cache_sound rd cache" using Extract_cache_sound[OF Cons.prems(2)] ex by (metis snd_conv)
  from Cons.prems(1) ex have required: "Cap_Required capture \<Longrightarrow> \<not> isl result"
    and run: "run_captures rd rest response (gput captured (Cap_Variable capture) (captured_value rd response capture))
       (Values.Set v (Cap_Variable capture) (captured_value rd response capture)) (s\<lparr>Su_regexes := cache\<rparr>) = (None, captured', v', s')"
    by (auto simp: Let_def captured_value_def result split: sum.splits if_splits)
  have "Value v' (Cap_Variable capture) = Some (captured_value rd response capture)"
    using run_captures_vals[OF run] Cons.prems(3) by (auto simp: Value_def)
  with Cons.IH[OF run] Cons.prems(3) sound required result show ?case by auto
qed simp

lemma runStep_success_stages:
  assumes run: "runStep host executor step scheduled v authHeader s = (sample, observation, v', s')" and success: "S_Class sample = Success"
  obtains config v1 s1 response s2 detail failures captured where
    "resolved_config host step authHeader v s = (config, v1, s1)" "Su_regexes s2 = Su_regexes s1"
    "judge host step response v1 s2 = (Success, detail, failures, captured, v', s')" "Ob_Response observation = Some response"
proof -
  have now: "engine_now host s = (t, s') \<Longrightarrow> Su_regexes s' = Su_regexes s" for s t s'
    by (auto simp: engine_now_def split: prod.splits)
  have noted: "Su_regexes (note_shape host step config s) = Su_regexes s" "Su_regexes (note_dimensions response s) = Su_regexes s" for config response s
    by (simp_all add: note_shape_def note_dimensions_def tell_def split: option.splits)
  from run success obtain implementation where "gget (Host_protocols host) (Step_Protocol step) = Some implementation"
    by (auto simp: runStep_def Let_def split: option.splits prod.splits)
  from run this show thesis
  proof (rule runStep_stages)
    fix config v1 s1 sent s2 response finished s3 kind detail failures captured w
    assume config: "resolved_config host step authHeader v s = (config, v1, s1)" and sent: "engine_now host (note_shape host step config s1) = (sent, s2)"
      and finished: "engine_now host (s2\<lparr>Su_world := w\<rparr>) = (finished, s3)"
      and judged: "judge host step response v1 (note_dimensions response s3) = (kind, detail, failures, captured, v', s')"
      and kind: "S_Class sample = kind" and observed: "Ob_Response observation = Some response"
    have "Su_regexes (note_dimensions response s3) = Su_regexes s1" using now[OF sent] now[OF finished] by (simp add: noted)
    from that[OF config this] judged kind success observed show thesis by simp
  qed
qed

text \<open>C19. A sample is a success only when the protocol answered with success, every status and body check holds of that answer,
  every assertion accepts it for the text its value becomes, and every required capture found its
  value; and then the next steps see, under each captured variable, what the answer held there, or the
  declared default where an optional capture found nothing.\<close>

theorem runStep_success:
  assumes run: "runStep host executor step scheduled v authHeader s = (sample, observation, v', s')"
    and success: "S_Class sample = Success"
    and sound: "regexes_sound host s" and caps: "distinct (map Cap_Variable (Step_Captures step))"
  shows "\<exists>response. Ob_Response observation = Some response \<and> Resp_Class response = Success
    \<and> (\<forall>c \<in> set (Step_Checks step). check_holds response c)
    \<and> (\<forall>a \<in> set (Step_Assertions step). assertion_holds host (vals v) response a)
    \<and> (\<forall>c \<in> set (Step_Captures step). (Cap_Required c \<longrightarrow> \<not> isl (fst (Extract (Host_readers host) [] c response)))
         \<and> Value v' (Cap_Variable c) = Some (captured_value (Host_readers host) response c))"
proof -
  from run success obtain config v1 s1 response s2 detail failures captured
    where config: "resolved_config host step authHeader v s = (config, v1, s1)"
      and regexes: "Su_regexes s2 = Su_regexes s1"
      and judged: "judge host step response v1 s2 = (Success, detail, failures, captured, v', s')"
      and observed: "Ob_Response observation = Some response"
    by (rule runStep_success_stages)
  from judged obtain v2 s3 where checked: "Resp_Class response = Success" "check host step response v1 s2 = (None, v2, s3)"
      and captures: "run_captures (Host_readers host) (Step_Captures step) response [] v2 s3 = (None, captured, v', s')"
    by (auto simp: judge_def check_def split: if_splits option.splits prod.splits dest: first_check_failure_class)
  from checked(2) have checks: "first_check_failure (Step_Checks step) response = None"
      "first_assertion_failure host (Step_Assertions step) response v1 s2 = (None, v2, s3)"
    by (auto simp: check_def split: option.splits prod.splits)
  have "regexes_sound host s2" using sound regexes resolved_config_regexes[OF config] by simp
  from first_assertion_failure_None[OF checks(2) this] run_captures_None[OF captures _ caps] first_check_failure_None
    checks(1) checked(1) observed resolved_config_vals[OF config]
  show ?thesis by metis
qed

text \<open>Whatever the credential manager obtained and remembered during the run, asking it for the header never changes a
  variable the auth request does not capture: the data of an iteration is its own.\<close>

theorem auth_keeps_iteration_data:
  assumes "auth_run methods (runAuthStep host executor) (engine_now host) (engine_generate host) env reading config s0 m s"
    and "\<And>step. Auth_Obtain config = Some step \<Longrightarrow> n \<notin> captured_variables step"
    and "Header methods (runAuthStep host executor) (engine_now host) (engine_generate host) env m v s = (result, m', v', s')"
    and "gmap_ok (vals v)"
  shows "Value v' n = Value v n"
  using assms by (rule auth_step.Header_keeps_variable)

section \<open>Witnesses\<close>

definition example_engine :: "unit engine_methods" where
  "example_engine = \<lparr>Method_Resolve = (\<lambda>config. Asks ''/orders/${orders.id}'' (\<lambda>_. Resolved config)), Method_WithHeader = (\<lambda>_. None),
     Method_RequestBody = (\<lambda>_. None), Method_PollInterval = (\<lambda>_. None)\<rparr>"

definition example_protocol :: "(unit, VirtualClock) Protocol" where
  "example_protocol = \<lparr>Proto_Execute = (\<lambda>request w. (example_response, Advance 5 w)), Proto_Prepare = None, Proto_Available = None,
     Proto_ConsumerLag = None, Proto_UseTLS = None\<rparr>"

definition example_host :: "(unit, nat, unit, VirtualClock) host" where
  "example_host = \<lparr>Host_methods = example_auth_methods, Host_engine = example_engine, Host_protocols = [(''http'', example_protocol)],
     Host_readers = example_readers, Host_rng = counting_rng, Host_env = (\<lambda>_. None),
     Host_clock = \<lparr>Clock_Now = virtual_Now, Clock_WaitUntil = virtual_WaitUntil\<rparr>,
     Host_unmarshal = (\<lambda>_. None), Host_error_text = (\<lambda>_. '''')\<rparr>"

definition example_executor :: "unit Executor" where
  "example_executor = \<lparr>Ex_scenario = example_mix, Ex_mixOrder = []\<rparr>"

definition example_surroundings :: "(nat, unit, VirtualClock) surroundings" where
  "example_surroundings = \<lparr>Su_sources = [], Su_regexes = [], Su_collecting = True, Su_told = [], Su_world = NewVirtualClock 0\<rparr>"

definition example_order_step :: "unit Step" where
  "example_order_step = \<lparr>Step_Name = ''orders'', Step_Protocol = ''http'', Step_Config = Some (), Step_Weight = 0,
     Step_Checks = [\<lparr>Check_Kind = CheckStatus, Check_Status = 200, Check_Text = ''''\<rparr>], Step_Captures = [example_cookie], Step_Assertions = []\<rparr>"

abbreviation example_values :: iteration_values where
  "example_values \<equiv> New 0 0 [(''orders.id'', ''7'')]"

abbreviation example_run :: "Sample \<times> unit Observation \<times> iteration_values \<times> (nat, unit, VirtualClock) surroundings" where
  "example_run \<equiv> runStep example_host example_executor example_order_step 0 example_values ('''', '''') example_surroundings"

lemma example_run_success: "S_Class (fst example_run) = Success"
  by code_simp

theorem runStep_success_witness:
  "\<exists>response. Ob_Response (fst (snd example_run)) = Some response \<and> check_holds response \<lparr>Check_Kind = CheckStatus, Check_Status = 200, Check_Text = ''''\<rparr>
    \<and> Value (fst (snd (snd example_run))) ''sid'' = Some (captured_value example_readers response example_cookie)"
proof -
  have "example_run = (fst example_run, fst (snd example_run), fst (snd (snd example_run)), snd (snd (snd example_run)))" by simp
  from runStep_success[OF this example_run_success] show ?thesis
    by (auto simp: example_order_step_def example_surroundings_def example_host_def empty_cache_sound example_cookie_def)
qed

abbreviation example_header :: "(string + string \<times> string) \<times> unit Manager \<times> iteration_values \<times> (nat, unit, VirtualClock) surroundings" where
  "example_header \<equiv> Header example_auth_methods (runAuthStep example_host example_executor) (engine_now example_host) (engine_generate example_host)
     (\<lambda>_. None) (NewManager (example_auth AuthToken)) example_values example_surroundings"

theorem auth_keeps_iteration_data_witness:
  "Value (fst (snd (snd example_header))) ''orders.id'' = Value example_values ''orders.id''"
proof -
  have "example_header = (fst example_header, fst (snd example_header), fst (snd (snd example_header)), snd (snd (snd example_header)))" by simp
  moreover have "\<And>step. Auth_Obtain (example_auth AuthToken) = Some step \<Longrightarrow> ''orders.id'' \<notin> captured_variables step"
    by (auto simp: example_auth_def example_login_def captured_variables_def)
  ultimately show ?thesis by (intro auth_keeps_iteration_data[OF Start _ _ gmap_ok_New])
qed

end
