(* ===== verification/Drive.thy ===== *)
theory Drive
  imports Iteration Plan
begin

text \<open>
  The two loops that apply the load (\<open>driveOpen\<close> and \<open>driveClosed\<close> of \<open>internal/engine/executor.go\<close>), as
  step relations: the dispatcher and the iterations it started run in any order.

  An iteration is what it tells the collector, one event at a time. The dispatcher's own step is one
  action, from the wait to the start of the goroutine: only the dispatcher raises the number in flight, so
  an iteration that ends between the comparison and the increment could as well have ended before.
  \<open>moves\<close> is what the iterations may do to the world between two steps. \<open>cancelled\<close> is \<open>runContext.Err\<close>.
\<close>

section \<open>The open model\<close>

record 'w drive =
  Dr_index :: int
  Dr_inflight :: int
  Dr_pending :: "(int \<times> collector_event list) list"
  Dr_told :: "collector_event list"
  Dr_left :: bool
  Dr_world :: 'w

definition drive_start :: "'w \<Rightarrow> 'w drive" where
  "drive_start w = \<lparr>Dr_index = 0, Dr_inflight = 0, Dr_pending = [], Dr_told = [], Dr_left = False, Dr_world = w\<rparr>"

inductive drive_step ::
  "('w \<Rightarrow> Time \<times> 'w) \<Rightarrow> (Time \<Rightarrow> 'w \<Rightarrow> 'w option) \<Rightarrow> ('w \<Rightarrow> 'w \<Rightarrow> bool) \<Rightarrow> (int \<Rightarrow> Time \<Rightarrow> collector_event list \<Rightarrow> bool) \<Rightarrow>
   ('w \<Rightarrow> bool) \<Rightarrow> Plan \<Rightarrow> Time \<Rightarrow> int \<Rightarrow> 'w drive \<Rightarrow> 'w drive \<Rightarrow> bool"
  for now wait_until moves tells cancelled plan start maxInflight where
  Leave: "\<not> Dr_left d \<Longrightarrow> Dr_index d \<ge> totalRequests plan \<or> cancelled (Dr_world d) \<Longrightarrow>
    drive_step now wait_until moves tells cancelled plan start maxInflight d (d\<lparr>Dr_left := True\<rparr>)"
| Drop: "\<not> Dr_left d \<Longrightarrow> Dr_index d < totalRequests plan \<Longrightarrow> \<not> cancelled (Dr_world d) \<Longrightarrow>
    offset = InstantOf plan (Dr_index d) \<Longrightarrow> scheduled = start + offset \<Longrightarrow>
    wait_until scheduled (Dr_world d) = Some w1 \<Longrightarrow> now w1 = (dispatch, w2) \<Longrightarrow>
    Dr_inflight d \<ge> maxInflight \<Longrightarrow>
    drive_step now wait_until moves tells cancelled plan start maxInflight d
      (d\<lparr>Dr_index := Dr_index d + 1, Dr_told := Dr_told d @ [EvDrop], Dr_world := w2\<rparr>)"
| Dispatch: "\<not> Dr_left d \<Longrightarrow> Dr_index d < totalRequests plan \<Longrightarrow> \<not> cancelled (Dr_world d) \<Longrightarrow>
    offset = InstantOf plan (Dr_index d) \<Longrightarrow> scheduled = start + offset \<Longrightarrow>
    wait_until scheduled (Dr_world d) = Some w1 \<Longrightarrow> now w1 = (dispatch, w2) \<Longrightarrow>
    Dr_inflight d < maxInflight \<Longrightarrow> tells (Dr_index d) scheduled events \<Longrightarrow>
    drive_step now wait_until moves tells cancelled plan start maxInflight d
      (d\<lparr>Dr_index := Dr_index d + 1, Dr_inflight := Dr_inflight d + 1,
         Dr_pending := Dr_pending d @ [(Dr_index d, events)],
         Dr_told := Dr_told d @ [EvDispatch scheduled dispatch (RateAt plan offset) (Dr_inflight d + 1)], Dr_world := w2\<rparr>)"
| Tell: "Dr_pending d = before @ (index, event # events) # after \<Longrightarrow> moves (Dr_world d) w \<Longrightarrow>
    drive_step now wait_until moves tells cancelled plan start maxInflight d
      (d\<lparr>Dr_pending := before @ (index, events) # after, Dr_told := Dr_told d @ [event], Dr_world := w\<rparr>)"
| Done: "Dr_pending d = before @ (index, []) # after \<Longrightarrow> moves (Dr_world d) w \<Longrightarrow>
    drive_step now wait_until moves tells cancelled plan start maxInflight d
      (d\<lparr>Dr_pending := before @ after, Dr_inflight := Dr_inflight d - 1, Dr_world := w\<rparr>)"

text \<open>\<open>group.Wait()\<close> returns when the loop has been left and no iteration is pending.\<close>

definition drive_ended :: "'w drive \<Rightarrow> bool" where
  "drive_ended d \<longleftrightarrow> Dr_left d \<and> Dr_pending d = []"

declare drive_step.intros [intro]
inductive_cases drive_stepE [elim]: "drive_step now wait_until moves tells cancelled plan start maxInflight d d'"

inductive drive_reach ::
  "('w \<Rightarrow> Time \<times> 'w) \<Rightarrow> (Time \<Rightarrow> 'w \<Rightarrow> 'w option) \<Rightarrow> ('w \<Rightarrow> 'w \<Rightarrow> bool) \<Rightarrow> (int \<Rightarrow> Time \<Rightarrow> collector_event list \<Rightarrow> bool) \<Rightarrow>
   ('w \<Rightarrow> bool) \<Rightarrow> Plan \<Rightarrow> Time \<Rightarrow> int \<Rightarrow> 'w \<Rightarrow> 'w drive \<Rightarrow> bool"
  for now wait_until moves tells cancelled plan start maxInflight w0 where
  Init: "drive_reach now wait_until moves tells cancelled plan start maxInflight w0 (drive_start w0)"
| Step: "drive_reach now wait_until moves tells cancelled plan start maxInflight w0 d \<Longrightarrow>
    drive_step now wait_until moves tells cancelled plan start maxInflight d d' \<Longrightarrow>
    drive_reach now wait_until moves tells cancelled plan start maxInflight w0 d'"

section \<open>Every run ends\<close>

definition drive_measure :: "Plan \<Rightarrow> ('w drive \<times> 'w drive) set" where
  "drive_measure plan = inv_image (less_than <*lex*> less_than)
    (\<lambda>d. (if Dr_left d then 0 else Suc (nat (totalRequests plan - Dr_index d)),
          sum_list (map (\<lambda>(index, events). Suc (length events)) (Dr_pending d))))"

lemma wf_drive_measure: "wf (drive_measure plan)"
  by (simp add: drive_measure_def wf_lex_prod)

lemma drive_step_decreases:
  "drive_step now wait_until moves tells cancelled plan start maxInflight d d' \<Longrightarrow> (d', d) \<in> drive_measure plan"
  by (erule drive_step.cases) (auto simp: drive_measure_def)

lemma drive_step_wf: "wfp (\<lambda>d' d. drive_step now wait_until moves tells cancelled plan start maxInflight d d')"
proof (rule wfp_if_convertible_to_wfp[of "\<lambda>d' d. (d', d) \<in> drive_measure plan" _ id])
  show "wfp (\<lambda>d' d. (d', d) \<in> drive_measure plan)" using wf_drive_measure[of plan] by (simp add: wfp_def)
qed (simp add: drive_step_decreases)

section \<open>The driver over a clock and iterations\<close>

text \<open>
  What the driver relies on: a clock that keeps going, and iterations that exist, that never tell the
  collector of a dispatch or a drop, and that never turn the clock back.
\<close>

definition dispatches :: "collector_event list \<Rightarrow> (Time \<times> Time) list" where
  "dispatches events = List.map_filter (\<lambda>event. case event of EvDispatch scheduled dispatch rate inflight \<Rightarrow> Some (scheduled, dispatch) | _ \<Rightarrow> None) events"

lemma dispatches_simps [simp]:
  "dispatches [] = []" "dispatches (a @ b) = dispatches a @ dispatches b"
  "dispatches [EvDispatch scheduled dispatch rate inflight] = [(scheduled, dispatch)]"
  "dispatches [EvDrop] = []" "dispatches [EvRecord sample] = []" "dispatches [EvJourney x y z] = []"
  "dispatches [EvUses u c] = []" "dispatches [EvConsume] = []"
  by (simp_all add: dispatches_def map_filter_def)

locale driving = live_clock now wait_until reading live
  for now :: "'w \<Rightarrow> Time \<times> 'w" and wait_until :: "Time \<Rightarrow> 'w \<Rightarrow> 'w option" and reading :: "'w \<Rightarrow> Time" and live :: "'w \<Rightarrow> bool" +
  fixes moves :: "'w \<Rightarrow> 'w \<Rightarrow> bool" and tells :: "int \<Rightarrow> Time \<Rightarrow> collector_event list \<Rightarrow> bool"
  assumes some_iteration: "\<exists>events. tells index scheduled events"
    and quiet: "tells index scheduled events \<Longrightarrow> event \<in> set events \<Longrightarrow> event_adds Dispatched event = 0 \<and> event_adds Dropped event = 0"
    and moves_forward: "moves w w' \<Longrightarrow> reading w \<le> reading w'"
    and moves_live: "moves w w' \<Longrightarrow> live w \<Longrightarrow> live w'"
    and moves_refl: "moves w w"
begin

definition drive_inv :: "Plan \<Rightarrow> int \<Rightarrow> 'w drive \<Rightarrow> bool" where
  "drive_inv plan maxInflight d \<longleftrightarrow>
    0 \<le> Dr_index d \<and> Dr_index d \<le> max 0 (totalRequests plan)
    \<and> Dr_inflight d = int (length (Dr_pending d)) \<and> Dr_inflight d \<le> max 0 maxInflight
    \<and> (\<Sum>event \<leftarrow> Dr_told d. event_adds Dispatched event) + (\<Sum>event \<leftarrow> Dr_told d. event_adds Dropped event) = Dr_index d
    \<and> (\<forall>(index, events) \<in> set (Dr_pending d). \<forall>event \<in> set events. event_adds Dispatched event = 0 \<and> event_adds Dropped event = 0)"

lemma drive_inv_step:
  assumes "drive_step now wait_until moves tells cancelled plan start maxInflight d d'" and "drive_inv plan maxInflight d"
  shows "drive_inv plan maxInflight d'"
  using assms(1)
proof cases
  case (Dispatch offset scheduled w1 dispatch w2 events)
  with assms(2) quiet[OF Dispatch(10)] show ?thesis by (auto simp: drive_inv_def)
qed (use assms(2) in \<open>auto simp: drive_inv_def\<close>)

lemma drive_reach_inv:
  "drive_reach now wait_until moves tells cancelled plan start maxInflight w0 d \<Longrightarrow> drive_inv plan maxInflight d"
proof (induction rule: drive_reach.induct)
  case Init
  show ?case by (simp add: drive_start_def drive_inv_def)
qed (rule drive_inv_step)

lemma drive_reach_live:
  assumes "drive_reach now wait_until moves tells cancelled plan start maxInflight w0 d" and "live w0"
  shows "live (Dr_world d)"
  using assms(1)
proof (induction rule: drive_reach.induct)
  case Init
  with assms(2) show ?case by (simp add: drive_start_def)
next
  case (Step d d')
  from Step(2) show ?case
    by cases (use Step.IH in \<open>auto dest: wait_keeps_live now_keeps_live moves_live\<close>)
qed

text \<open>Until it has ended, a run can always go on.\<close>

lemma drive_progress:
  assumes "drive_reach now wait_until moves tells cancelled plan start maxInflight w0 d" and "live w0" and "\<not> drive_ended d"
  shows "\<exists>d'. drive_step now wait_until moves tells cancelled plan start maxInflight d d'"
proof (cases "Dr_pending d")
  case (Cons entry rest)
  obtain index events where entry: "entry = (index, events)" by fastforce
  have "Dr_pending d = [] @ (index, events) # rest" using Cons entry by simp
  then show ?thesis using moves_refl[of "Dr_world d"] by (cases events) (fastforce intro: Tell Done)+
next
  case Nil
  with assms(3) have left: "\<not> Dr_left d" by (simp add: drive_ended_def)
  show ?thesis
  proof (cases "Dr_index d \<ge> totalRequests plan \<or> cancelled (Dr_world d)")
    case True
    with left show ?thesis by blast
  next
    case False
    obtain w1 dispatch w2 where "wait_until (start + InstantOf plan (Dr_index d)) (Dr_world d) = Some w1" "now w1 = (dispatch, w2)"
      using dispatch_comes[OF drive_reach_live[OF assms(1,2)]] by metis
    with False left some_iteration[of "Dr_index d" "start + InstantOf plan (Dr_index d)"] show ?thesis
      by (cases "Dr_inflight d \<ge> maxInflight") (fastforce intro: Drop Dispatch)+
  qed
qed

text \<open>The dispatches told so far: never before their instant, and in the order of the clock.\<close>

definition dispatch_inv :: "Plan \<Rightarrow> Time \<Rightarrow> 'w drive \<Rightarrow> bool" where
  "dispatch_inv plan start d \<longleftrightarrow>
    (\<forall>(index, events) \<in> set (Dr_pending d). \<forall>event \<in> set events. event_adds Dispatched event = 0)
    \<and> (\<forall>(scheduled, dispatch) \<in> set (dispatches (Dr_told d)). scheduled \<le> dispatch \<and> dispatch \<le> reading (Dr_world d)
         \<and> (\<exists>index. 0 \<le> index \<and> index < Dr_index d \<and> scheduled = start + InstantOf plan index))
    \<and> sorted (map snd (dispatches (Dr_told d))) \<and> 0 \<le> Dr_index d"

lemma dispatch_inv_dispatch:
  assumes inv: "dispatch_inv plan start d" and "scheduled = start + InstantOf plan (Dr_index d)"
    and "wait_until scheduled (Dr_world d) = Some w1" "now w1 = (dispatch, w2)" and "tells (Dr_index d) scheduled events"
  shows "dispatch_inv plan start (d\<lparr>Dr_index := Dr_index d + 1, Dr_inflight := Dr_inflight d + 1,
         Dr_pending := Dr_pending d @ [(Dr_index d, events)],
         Dr_told := Dr_told d @ [EvDispatch scheduled dispatch rate inflight], Dr_world := w2\<rparr>)"
proof -
  note times = dispatch_after_schedule[OF assms(3,4)]
  have earlier: "s \<le> t \<and> t \<le> reading w2 \<and> (\<exists>index. 0 \<le> index \<and> index < Dr_index d + 1 \<and> s = start + InstantOf plan index)"
    if "(s, t) \<in> set (dispatches (Dr_told d))" for s t
    using inv that times unfolding dispatch_inv_def by fastforce
  have "sorted (map snd (dispatches (Dr_told d)) @ [dispatch])"
    using inv times unfolding dispatch_inv_def by (fastforce simp: sorted_append)
  moreover have "\<exists>index. 0 \<le> index \<and> index < Dr_index d + 1 \<and> scheduled = start + InstantOf plan index"
    using inv assms(2) unfolding dispatch_inv_def by force
  ultimately show ?thesis
    using inv quiet[OF assms(5)] times earlier unfolding dispatch_inv_def by (auto simp: split: prod.splits)
qed

lemma dispatch_inv_other:
  assumes "dispatch_inv plan start d" and "Dr_index d \<le> Dr_index d'" "dispatches (Dr_told d') = dispatches (Dr_told d)"
    "reading (Dr_world d) \<le> reading (Dr_world d')"
    "\<forall>(index, events) \<in> set (Dr_pending d'). \<forall>event \<in> set events. event_adds Dispatched event = 0"
  shows "dispatch_inv plan start d'"
  using assms unfolding dispatch_inv_def by fastforce

lemma dispatch_inv_step:
  assumes "drive_step now wait_until moves tells cancelled plan start maxInflight d d'" and inv: "dispatch_inv plan start d"
  shows "dispatch_inv plan start d'"
  using assms(1)
proof cases
  case Leave
  with inv show ?thesis by (intro dispatch_inv_other[OF inv]) (auto simp: dispatch_inv_def)
next
  case (Drop offset scheduled w1 dispatch w2)
  with inv dispatch_after_schedule(2,3)[OF Drop(7,8)] show ?thesis
    by (intro dispatch_inv_other[OF inv]) (auto simp: dispatch_inv_def)
next
  case (Dispatch offset scheduled w1 dispatch w2 events)
  with dispatch_inv_dispatch[OF inv] show ?thesis by simp
next
  case (Tell before index event events after w)
  then have "event_adds Dispatched event = 0" using inv by (auto simp: dispatch_inv_def)
  then have "dispatches [event] = []" by (cases event) simp_all
  with Tell inv moves_forward[OF Tell(3)] show ?thesis by (intro dispatch_inv_other[OF inv]) (auto simp: dispatch_inv_def)
next
  case (Done before index after w)
  with inv moves_forward[OF Done(3)] show ?thesis by (intro dispatch_inv_other[OF inv]) (auto simp: dispatch_inv_def)
qed

lemma drive_reach_dispatches:
  "drive_reach now wait_until moves tells cancelled plan start maxInflight w0 d \<Longrightarrow> dispatch_inv plan start d"
proof (induction rule: drive_reach.induct)
  case Init
  show ?case by (simp add: dispatch_inv_def drive_start_def)
qed (rule dispatch_inv_step)

text \<open>A run that was never cancelled leaves the loop only when the plan is through.\<close>

lemma drive_complete:
  assumes "drive_reach now wait_until moves tells cancelled plan start maxInflight w0 d" and "\<And>w. \<not> cancelled w" and "Dr_left d"
  shows "totalRequests plan \<le> Dr_index d"
  using assms(1,3)
proof (induction rule: drive_reach.induct)
  case (Step d d')
  from Step(2) show ?case
    by cases (use Step assms(2) in auto)
qed (simp add: drive_start_def)

end

section \<open>The iterations of the engine\<close>

definition quiet_event :: "collector_event \<Rightarrow> bool" where
  "quiet_event event \<longleftrightarrow> event_adds Dispatched event = 0 \<and> event_adds Dropped event = 0"

definition told_quiet :: "('r, 'x, 'w) surroundings \<Rightarrow> ('r, 'x, 'w) surroundings \<Rightarrow> bool" where
  "told_quiet s s' \<longleftrightarrow> (\<exists>events. Su_told s' = Su_told s @ events \<and> (\<forall>event \<in> set events. quiet_event event))"

lemma quiet_events [simp]: "quiet_event (EvRecord sample)" "quiet_event (EvJourney x y z)" "quiet_event (EvUses u c)"
  by (simp_all add: quiet_event_def)

lemma told_quiet_trans: "told_quiet s s' \<Longrightarrow> told_quiet s' s'' \<Longrightarrow> told_quiet s s''"
  by (force simp: told_quiet_def)

lemma told_quiet_tell: "told_quiet s s' \<Longrightarrow> quiet_event event \<Longrightarrow> told_quiet s (tell event s')"
  by (force simp: told_quiet_def tell_def)

lemma told_uses_quiet: "told_uses s s' \<Longrightarrow> told_quiet s s'"
  by (fastforce simp: told_uses_def only_uses_def told_quiet_def)

lemma run_steps_quiet:
  "run_steps host executor corrected steps t v authHeader s = (completed, finish, v', s') \<Longrightarrow> told_quiet s s'"
proof (induction steps arbitrary: corrected t v s)
  case Nil
  then show ?case by (simp add: told_uses_quiet)
next
  case (Cons step steps)
  obtain x observation v1 s1 where run: "runStep host executor step t v authHeader s = (x, observation, v1, s1)" by (metis prod_cases4)
  have "told_quiet s (tell (EvRecord y) s1)" for y
    using told_quiet_tell[OF told_uses_quiet[OF runStep_told[OF run]]] by simp
  with Cons run show ?case by (auto simp: Let_def split: if_splits) (meson told_quiet_trans)+
qed

lemma runIteration_quiet:
  assumes "runIteration host executor user iteration scheduled manager s = (manager', s')"
  shows "told_quiet s s'"
  using assms
  by (auto simp: runIteration_def Let_def split: prod.splits sum.splits
      dest!: draw_sources_told iteration_header_told engine_now_told run_steps_quiet told_uses_quiet
      intro!: told_quiet_tell) (meson told_quiet_trans)+

text \<open>What the iteration with an index may tell, from any state of the rest of the run.\<close>

definition engine_tells :: "('c, 'r, 'x, 'w) host \<Rightarrow> 'c Executor \<Rightarrow> int \<Rightarrow> Time \<Rightarrow> collector_event list \<Rightarrow> bool" where
  "engine_tells host executor index scheduled events \<longleftrightarrow>
    (\<exists>manager s manager' s'. runIteration host executor index index scheduled manager s = (manager', s') \<and> Su_told s' = Su_told s @ events)"

lemma engine_tells_quiet: "engine_tells host executor index scheduled events \<Longrightarrow> event \<in> set events \<Longrightarrow> quiet_event event"
  by (auto simp: engine_tells_def told_quiet_def dest!: runIteration_quiet)

lemma engine_tells_some: "\<exists>events. engine_tells host executor index scheduled events"
proof -
  obtain manager' s' where run: "runIteration host executor index index scheduled None (undefined\<lparr>Su_told := []\<rparr>) = (manager', s')" by fastforce
  from runIteration_quiet[OF this] have "\<exists>events. Su_told s' = Su_told (undefined\<lparr>Su_told := []\<rparr>) @ events" by (auto simp: told_quiet_def)
  with run show ?thesis unfolding engine_tells_def by blast
qed

text \<open>The driver on the clock of the machine and on the clock of the tests, with the iterations of the engine.\<close>

definition machine_moves :: "machine \<Rightarrow> machine \<Rightarrow> bool" where
  "machine_moves m m' \<longleftrightarrow> mc_wall m \<le> mc_wall m' \<and> mc_elapsed m' = mc_elapsed m"

interpretation machine_run: driving time_Now system_WaitUntil mc_wall keeps_ticking machine_moves "engine_tells host executor" for host executor
  by unfold_locales (auto simp: engine_tells_some machine_moves_def keeps_ticking_def dest: engine_tells_quiet[unfolded quiet_event_def])

interpretation virtual_run: driving virtual_Now virtual_WaitUntil vc_now "\<lambda>v. True" "\<lambda>v v'. vc_now v \<le> vc_now v'" "engine_tells host executor" for host executor
  by unfold_locales (auto simp: engine_tells_some dest: engine_tells_quiet[unfolded quiet_event_def])

section \<open>The closed model\<close>

text \<open>
  A user is at the head of its loop (\<open>Cd_idle\<close>), in an iteration, thinking until an instant, or gone. The
  test of the deadline, the number of the iteration and its instant are one action; the number comes from
  an atomic counter.
\<close>

record 'w closed_drive =
  Cd_idle :: "int list"
  Cd_running :: "(int \<times> collector_event list) list"
  Cd_thinking :: "(int \<times> Time) list"
  Cd_gone :: "int list"
  Cd_iterations :: int
  Cd_told :: "collector_event list"
  Cd_world :: 'w

definition closed_start :: "int \<Rightarrow> 'w \<Rightarrow> 'w closed_drive" where
  "closed_start users w = \<lparr>Cd_idle = [0..users - 1], Cd_running = [], Cd_thinking = [], Cd_gone = [], Cd_iterations = 0, Cd_told = [], Cd_world = w\<rparr>"

inductive closed_step ::
  "('w \<Rightarrow> Time \<times> 'w) \<Rightarrow> (Time \<Rightarrow> 'w \<Rightarrow> 'w option) \<Rightarrow> ('w \<Rightarrow> 'w \<Rightarrow> bool) \<Rightarrow> (int \<Rightarrow> int \<Rightarrow> Time \<Rightarrow> collector_event list \<Rightarrow> bool) \<Rightarrow>
   ('w \<Rightarrow> bool) \<Rightarrow> Time \<Rightarrow> Duration \<Rightarrow> 'w closed_drive \<Rightarrow> 'w closed_drive \<Rightarrow> bool"
  for now wait_until moves tells cancelled deadline thinkTime where
  Begin: "Cd_idle d = before @ user # after \<Longrightarrow> \<not> cancelled (Cd_world d) \<Longrightarrow> now (Cd_world d) = (t, w1) \<Longrightarrow> t < deadline \<Longrightarrow>
    now w1 = (scheduled, w2) \<Longrightarrow> tells user (Cd_iterations d) scheduled events \<Longrightarrow>
    closed_step now wait_until moves tells cancelled deadline thinkTime d
      (d\<lparr>Cd_idle := before @ after, Cd_running := Cd_running d @ [(user, events)], Cd_iterations := Cd_iterations d + 1, Cd_world := w2\<rparr>)"
| Cancelled: "Cd_idle d = before @ user # after \<Longrightarrow> cancelled (Cd_world d) \<Longrightarrow>
    closed_step now wait_until moves tells cancelled deadline thinkTime d (d\<lparr>Cd_idle := before @ after, Cd_gone := Cd_gone d @ [user]\<rparr>)"
| Deadline: "Cd_idle d = before @ user # after \<Longrightarrow> \<not> cancelled (Cd_world d) \<Longrightarrow> now (Cd_world d) = (t, w1) \<Longrightarrow> deadline \<le> t \<Longrightarrow>
    closed_step now wait_until moves tells cancelled deadline thinkTime d
      (d\<lparr>Cd_idle := before @ after, Cd_gone := Cd_gone d @ [user], Cd_world := w1\<rparr>)"
| TellEvent: "Cd_running d = before @ (user, event # events) # after \<Longrightarrow> moves (Cd_world d) w \<Longrightarrow>
    closed_step now wait_until moves tells cancelled deadline thinkTime d
      (d\<lparr>Cd_running := before @ (user, events) # after, Cd_told := Cd_told d @ [event], Cd_world := w\<rparr>)"
| Back: "Cd_running d = before @ (user, []) # after \<Longrightarrow> thinkTime \<le> 0 \<Longrightarrow>
    closed_step now wait_until moves tells cancelled deadline thinkTime d
      (d\<lparr>Cd_running := before @ after, Cd_idle := Cd_idle d @ [user]\<rparr>)"
| Think: "Cd_running d = before @ (user, []) # after \<Longrightarrow> thinkTime > 0 \<Longrightarrow> now (Cd_world d) = (t, w1) \<Longrightarrow>
    closed_step now wait_until moves tells cancelled deadline thinkTime d
      (d\<lparr>Cd_running := before @ after, Cd_thinking := Cd_thinking d @ [(user, t + thinkTime)], Cd_world := w1\<rparr>)"
| Wake: "Cd_thinking d = before @ (user, until) # after \<Longrightarrow> wait_until until (Cd_world d) = Some w1 \<Longrightarrow>
    closed_step now wait_until moves tells cancelled deadline thinkTime d
      (d\<lparr>Cd_thinking := before @ after, Cd_idle := Cd_idle d @ [user], Cd_world := w1\<rparr>)"

inductive closed_reach ::
  "('w \<Rightarrow> Time \<times> 'w) \<Rightarrow> (Time \<Rightarrow> 'w \<Rightarrow> 'w option) \<Rightarrow> ('w \<Rightarrow> 'w \<Rightarrow> bool) \<Rightarrow> (int \<Rightarrow> int \<Rightarrow> Time \<Rightarrow> collector_event list \<Rightarrow> bool) \<Rightarrow>
   ('w \<Rightarrow> bool) \<Rightarrow> Time \<Rightarrow> Duration \<Rightarrow> int \<Rightarrow> 'w \<Rightarrow> 'w closed_drive \<Rightarrow> bool"
  for now wait_until moves tells cancelled deadline thinkTime users w0 where
  ClosedInit: "closed_reach now wait_until moves tells cancelled deadline thinkTime users w0 (closed_start users w0)"
| ClosedStep: "closed_reach now wait_until moves tells cancelled deadline thinkTime users w0 d \<Longrightarrow>
    closed_step now wait_until moves tells cancelled deadline thinkTime d d' \<Longrightarrow>
    closed_reach now wait_until moves tells cancelled deadline thinkTime users w0 d'"

definition closed_ended :: "'w closed_drive \<Rightarrow> bool" where
  "closed_ended d \<longleftrightarrow> Cd_idle d = [] \<and> Cd_running d = [] \<and> Cd_thinking d = []"

definition user_tells :: "('c, 'r, 'x, 'w) host \<Rightarrow> 'c Executor \<Rightarrow> int \<Rightarrow> int \<Rightarrow> Time \<Rightarrow> collector_event list \<Rightarrow> bool" where
  "user_tells host executor user iteration scheduled events \<longleftrightarrow>
    (\<exists>manager s manager' s'. runIteration host executor user iteration scheduled manager s = (manager', s') \<and> Su_told s' = Su_told s @ events)"

lemma user_tells_quiet: "user_tells host executor user iteration scheduled events \<Longrightarrow> event \<in> set events \<Longrightarrow> quiet_event event"
  by (auto simp: user_tells_def told_quiet_def dest!: runIteration_quiet)

text \<open>Where every user is, and that nothing was ever dispatched or dropped.\<close>

definition closed_users :: "'w closed_drive \<Rightarrow> int multiset" where
  "closed_users d = mset (Cd_idle d) + mset (map fst (Cd_running d)) + mset (map fst (Cd_thinking d)) + mset (Cd_gone d)"

lemma closed_step_users:
  "closed_step now wait_until moves tells cancelled deadline thinkTime d d' \<Longrightarrow> closed_users d' = closed_users d"
  by (erule closed_step.cases) (auto simp: closed_users_def)

lemma closed_step_quiet:
  assumes "closed_step now wait_until moves (user_tells host executor) cancelled deadline thinkTime d d'"
    and "\<forall>event \<in> set (Cd_told d). quiet_event event" and "\<forall>(user, events) \<in> set (Cd_running d). \<forall>event \<in> set events. quiet_event event"
  shows "(\<forall>event \<in> set (Cd_told d'). quiet_event event) \<and> (\<forall>(user, events) \<in> set (Cd_running d'). \<forall>event \<in> set events. quiet_event event)"
  using assms(1) by cases (use assms(2,3) in \<open>auto dest: user_tells_quiet\<close>)

lemma closed_reach_inv:
  "closed_reach now wait_until moves (user_tells host executor) cancelled deadline thinkTime users w0 d \<Longrightarrow>
   closed_users d = mset [0..users - 1] \<and> (\<forall>event \<in> set (Cd_told d). quiet_event event)
   \<and> (\<forall>(user, events) \<in> set (Cd_running d). \<forall>event \<in> set events. quiet_event event)"
proof (induction rule: closed_reach.induct)
  case ClosedInit
  show ?case by (simp add: closed_start_def closed_users_def)
next
  case (ClosedStep d d')
  then show ?case using closed_step_users[OF ClosedStep(2)] closed_step_quiet[OF ClosedStep(2)] by simp
qed

section \<open>Properties of the drivers\<close>

abbreviation open_reach :: "('c, 'r, 'x, 'v) host \<Rightarrow> 'c Executor \<Rightarrow> (machine \<Rightarrow> bool) \<Rightarrow> Plan \<Rightarrow> Time \<Rightarrow> int \<Rightarrow> machine \<Rightarrow> machine drive \<Rightarrow> bool" where
  "open_reach host executor \<equiv> drive_reach time_Now system_WaitUntil machine_moves (engine_tells host executor)"

abbreviation open_step :: "('c, 'r, 'x, 'v) host \<Rightarrow> 'c Executor \<Rightarrow> (machine \<Rightarrow> bool) \<Rightarrow> Plan \<Rightarrow> Time \<Rightarrow> int \<Rightarrow> machine drive \<Rightarrow> machine drive \<Rightarrow> bool" where
  "open_step host executor \<equiv> drive_step time_Now system_WaitUntil machine_moves (engine_tells host executor)"

text \<open>C3. At every moment of an open run, in every interleaving of the dispatcher and the iterations: each arrival of the plan
  that came up was dispatched or counted as dropped, exactly once; the number in flight is the number
  of iterations started and not finished, and never exceeds the limit; no request leaves before its
  scheduled instant, every scheduled instant is one of the plan, and dispatches happen in the order of
  the clock.\<close>

theorem driveOpen_invariant:
  assumes "open_reach host executor cancelled plan start maxInflight m d"
  shows "(\<Sum>event \<leftarrow> Dr_told d. event_adds Dispatched event) + (\<Sum>event \<leftarrow> Dr_told d. event_adds Dropped event) = Dr_index d
    \<and> Dr_index d \<le> max 0 (totalRequests plan)
    \<and> Dr_inflight d = int (length (Dr_pending d)) \<and> Dr_inflight d \<le> max 0 maxInflight
    \<and> (\<forall>(scheduled, dispatch) \<in> set (dispatches (Dr_told d)). scheduled \<le> dispatch
         \<and> (\<exists>index. 0 \<le> index \<and> index < Dr_index d \<and> scheduled = start + InstantOf plan index))
    \<and> sorted (map snd (dispatches (Dr_told d)))"
  using machine_run.drive_reach_inv[OF assms] machine_run.drive_reach_dispatches[OF assms]
  unfolding machine_run.drive_inv_def machine_run.dispatch_inv_def by fastforce

text \<open>An open run cannot go on for ever: whatever the clock does and in whatever order the iterations advance, every
  sequence of steps of the dispatcher and of the iterations is finite.\<close>

theorem driveOpen_terminates: "wfp (\<lambda>d' d. open_step host executor cancelled plan start maxInflight d d')"
  by (rule drive_step_wf)

lemma drive_reaches_end:
  assumes "open_reach host executor cancelled plan start maxInflight m d" and live: "keeps_ticking m"
  shows "\<exists>d'. open_reach host executor cancelled plan start maxInflight m d' \<and> drive_ended d'
    \<and> (open_step host executor cancelled plan start maxInflight)\<^sup>*\<^sup>* d d'"
  using assms(1)
proof (induction d rule: wfp_induct[OF drive_step_wf[of time_Now system_WaitUntil machine_moves "engine_tells host executor" cancelled plan start maxInflight]])
  case (1 d)
  show ?case
  proof (cases "drive_ended d")
    case False
    from machine_run.drive_progress[OF 1(2) live False] obtain d1
      where step: "open_step host executor cancelled plan start maxInflight d d1" by blast
    from 1(1) step Step[OF 1(2) step] obtain d' where "open_reach host executor cancelled plan start maxInflight m d'" "drive_ended d'"
        "(open_step host executor cancelled plan start maxInflight)\<^sup>*\<^sup>* d1 d'" by blast
    with step show ?thesis by (meson converse_rtranclp_into_rtranclp)
  qed (use 1(2) in blast)
qed

text \<open>C16. On a machine whose clock keeps moving an open run is never stuck: from every moment of it the end can be reached,
  with the loop left and every iteration finished; and when the run is not cancelled, every request of
  the plan was then dispatched or counted as dropped.\<close>

theorem driveOpen_reaches_the_end:
  assumes "open_reach host executor cancelled plan start maxInflight m d" and "keeps_ticking m"
  shows "\<exists>d'. (open_step host executor cancelled plan start maxInflight)\<^sup>*\<^sup>* d d' \<and> drive_ended d'
    \<and> ((\<forall>w. \<not> cancelled w) \<longrightarrow>
        (\<Sum>event \<leftarrow> Dr_told d'. event_adds Dispatched event) + (\<Sum>event \<leftarrow> Dr_told d'. event_adds Dropped event) = max 0 (totalRequests plan))"
proof -
  from drive_reaches_end[OF assms] obtain d' where d': "open_reach host executor cancelled plan start maxInflight m d'" "drive_ended d'"
      "(open_step host executor cancelled plan start maxInflight)\<^sup>*\<^sup>* d d'" by blast
  have "Dr_index d' = max 0 (totalRequests plan)" if "\<forall>w. \<not> cancelled w"
    using machine_run.drive_complete[OF d'(1)] machine_run.drive_reach_inv[OF d'(1)] that d'(2)
    by (fastforce simp: drive_ended_def machine_run.drive_inv_def)
  with d' machine_run.drive_reach_inv[OF d'(1)] show ?thesis
    by (intro exI[of _ d']) (simp add: machine_run.drive_inv_def)
qed


section \<open>Witnesses\<close>

definition example_plan :: Plan where
  "example_plan = CompilePlan \<lparr>Load_Model = OpenArrival, Load_Phases = [\<lparr>Ph_Kind = PhaseSteady, Ph_From = 0, Ph_To = 1, Ph_For = Second\<rparr>],
     Load_Users = 0, Load_For = 0, Load_ThinkTime = 0\<rparr>"

lemma example_plan_one: "totalRequests example_plan = 1" "InstantOf example_plan 0 = 0"
  by (simp_all add: example_plan_def CompilePlan_def Closed_def countInPhase_def Seconds_def InitialRate_def FinalRate_def InstantOf_def instantInPhase_def)

abbreviation example_reach :: "machine drive \<Rightarrow> bool" where
  "example_reach \<equiv> open_reach example_host example_executor (\<lambda>_. False) example_plan 0 1 example_clockwork"

lemma example_dispatched: "\<exists>d. example_reach d \<and> Dr_index d = 1 \<and> dispatches (Dr_told d) = [(0, 700)]"
proof -
  obtain events where events: "engine_tells example_host example_executor 0 0 events" using engine_tells_some by blast
  have "drive_step time_Now system_WaitUntil machine_moves (engine_tells example_host example_executor) (\<lambda>_. False) example_plan 0 1
      (drive_start example_clockwork) ((drive_start example_clockwork)\<lparr>Dr_index := 0 + 1, Dr_inflight := 0 + 1,
         Dr_pending := [] @ [(0, events)], Dr_told := [] @ [EvDispatch 0 700 (RateAt example_plan 0) (0 + 1)],
         Dr_world := example_clockwork\<lparr>mc_wall := 700, mc_actions := 2\<rparr>\<rparr>)"
    using Dispatch[of "drive_start example_clockwork" example_plan "\<lambda>_. False" 0 0 0 system_WaitUntil
        "example_clockwork\<lparr>mc_actions := 1\<rparr>" time_Now 700 "example_clockwork\<lparr>mc_wall := 700, mc_actions := 2\<rparr>" 1 "engine_tells example_host example_executor" events machine_moves]
      events by (simp add: drive_start_def example_plan_one system_WaitUntil_def time_Now_def example_clockwork_def Let_def)
  from Step[OF Init this] show ?thesis by (intro exI conjI) (assumption, simp_all)
qed

theorem driveOpen_invariant_witness:
  "\<exists>d. example_reach d \<and> dispatches (Dr_told d) = [(0, 700)] \<and> Dr_inflight d = int (length (Dr_pending d)) \<and> Dr_inflight d \<le> 1"
proof -
  from example_dispatched obtain d where d: "example_reach d" "dispatches (Dr_told d) = [(0, 700)]" by blast
  from driveOpen_invariant[OF d(1)] d show ?thesis by auto
qed

theorem driveOpen_reaches_the_end_witness:
  "\<exists>d'. (open_step example_host example_executor (\<lambda>_. False) example_plan 0 1)\<^sup>*\<^sup>* (drive_start example_clockwork) d' \<and> drive_ended d'
    \<and> (\<Sum>event \<leftarrow> Dr_told d'. event_adds Dispatched event) + (\<Sum>event \<leftarrow> Dr_told d'. event_adds Dropped event) = 1"
  using driveOpen_reaches_the_end[OF Init example_clockwork_ticks, of example_host example_executor "\<lambda>_. False" example_plan 0 1]
  by (simp add: example_plan_one)


end
