(* ===== verification/References.thy ===== *)
theory References
  imports Mix Text
begin

text \<open>
  Where every \<open>${name}\<close> of a scenario comes from (\<open>internal/scenario/references.go\<close> and
  \<open>references_model.go\<close>): the variables a scenario declares, the check of every text of a built scenario,
  the fields it reads from each data source, and the values a session supplies.

  The environment is the argument \<open>env\<close>. The texts of a step configuration, which the code collects by
  reflection, are those of \<open>textsOf\<close>. A refusal carries the format and the arguments of its message.
\<close>

definition suggest :: "string \<Rightarrow> string list \<Rightarrow> sentence" where
  "suggest received valid =
    (case Closest received valid of (best, found) \<Rightarrow>
       Sprintf ''%s    available: %s''
         [ArgM (if found then Sprintf (''    did you mean %q?'' @ nl ) [ArgS best] else Plain ''''), ArgS (Join valid '', '')])"

definition suggestWithExample :: "string \<Rightarrow> string list \<Rightarrow> string \<Rightarrow> sentence" where
  "suggestWithExample received valid example = Sprintf (''%s'' @ nl @ ''%s'') [ArgM (suggest received valid), ArgS example]"

section \<open>What a scenario declares\<close>

record variableScope =
  vs_names :: "string list"
  vs_sources :: "(string, DataSource) gomap"

definition knownVariables :: "'c Spec \<Rightarrow> variableScope" where
  "knownVariables spec =
    \<lparr>vs_names = map fst (Spec_Vars spec)
        @ concat (map (\<lambda>step. map Cap_Variable (Step_Captures step)) (Spec_Steps spec))
        @ (case Spec_Auth spec of None \<Rightarrow> []
           | Some auth \<Rightarrow> (case Auth_Obtain auth of None \<Rightarrow> [] | Some step \<Rightarrow> map Cap_Variable (Step_Captures step))),
     vs_sources = foldl (\<lambda>sources source. gput sources (Data_Name source) source) [] (Spec_Data spec)\<rparr>"

definition env_defined :: "environ \<Rightarrow> string \<Rightarrow> bool" where
  "env_defined env name \<longleftrightarrow> env name \<noteq> None"

definition fromEnvironment :: "environ \<Rightarrow> string \<Rightarrow> bool" where
  "fromEnvironment env name \<longleftrightarrow> IsEnvironmentName name \<or> env_defined env name"

definition hasField :: "(string, Generator) gomap \<Rightarrow> string \<Rightarrow> bool" where
  "hasField flds name \<longleftrightarrow> gget flds name \<noteq> None"

definition sortedFields :: "(string, Generator) gomap \<Rightarrow> string list" where
  "sortedFields flds = sort_Strings (gkeys flds)"

definition declaredNames :: "variableScope \<Rightarrow> string list" where
  "declaredNames known = sort_Strings (remdups (vs_names known)
     @ concat (map (\<lambda>(name, source). map (\<lambda>field. name @ ''.'' @ field) (gkeys (Data_Fields source))
         @ (if Data_Fields source = [] then [name @ ''.<csv column>''] else [])) (vs_sources known)))"

definition declarationForms :: "string \<Rightarrow> sentence" where
  "declarationForms name = Sprintf (''    declare where it comes from:'' @ nl @ ''      variables: { %s: value }                # fixed in the scenario'' @ nl @ ''      variables: { %s: \"${%s:-fallback}\" }  # from the environment, with a fallback'' @ nl @ ''      capture: { %s: $.field }                # from an earlier response'' @ nl @ ''      data: { orders: { file: orders.csv } }  # and then ${orders.%s}'' @ nl @ ''    an UPPERCASE name comes from the environment with nothing to declare: ${%s}'')
     [ArgS name, ArgS name, ArgS (ToUpper name), ArgS name, ArgS name, ArgS (ToUpper name)]"

definition wherePeopleDeclare :: "variableScope \<Rightarrow> string \<Rightarrow> sentence" where
  "wherePeopleDeclare known name =
    (let available = declaredNames known
     in if available = [] then declarationForms name
        else if snd (Closest name available) then suggest name available
        else Sprintf (''%s'' @ nl @ ''%s'') [ArgM (suggest name available), ArgM (declarationForms name)])"

definition availableSources :: "variableScope \<Rightarrow> string \<Rightarrow> sentence" where
  "availableSources known received =
    (let source_names = gkeys (vs_sources known)
     in if source_names = [] then Plain (''    no data source was declared; the '' @ apos @ ''data'' @ apos @ '' block is where they go'')
        else suggest received (sort_Strings source_names))"

definition resolveFromSource :: "variableScope \<Rightarrow> string \<Rightarrow> string \<Rightarrow> reference \<Rightarrow> sentence option" where
  "resolveFromSource known source field used =
    (case gget (vs_sources known) source of
       None \<Rightarrow> Some (Sprintf (''${%s} asks for the field %q of the data source %q, and no source with that name was declared.'' @ nl @ ''%s'')
                 [ArgS (ref_name used), ArgS field, ArgS source, ArgM (availableSources known source)])
     | Some declared \<Rightarrow>
         if Synthetic declared \<and> Data_Fields declared \<noteq> [] \<and> \<not> hasField (Data_Fields declared) field
         then Some (Sprintf (''the source %q does not generate the field %q.'' @ nl @ ''%s'')
                 [ArgS source, ArgS field, ArgM (suggest field (sortedFields (Data_Fields declared)))])
         else None)"

definition resolve_reference :: "environ \<Rightarrow> variableScope \<Rightarrow> reference \<Rightarrow> sentence option" where
  "resolve_reference env known used =
    (if ref_hasDefault used \<or> fromEnvironment env (ref_name used) \<or> ref_name used \<in> set (vs_names known) then None
     else case Cut (ref_name used) ''.'' of (source, field, dotted) \<Rightarrow>
       if dotted then resolveFromSource known source field used
       else Some (Sprintf (''I do not know where ${%s} comes from.'' @ nl @ ''%s'') [ArgS (ref_name used), ArgM (wherePeopleDeclare known (ref_name used))]))"

section \<open>Checking a built scenario\<close>

definition needs_environment :: "environ \<Rightarrow> reference \<Rightarrow> bool" where
  "needs_environment env used \<longleftrightarrow> \<not> ref_hasDefault used \<and> IsEnvironmentName (ref_name used) \<and> \<not> env_defined env (ref_name used)"

fun check_used :: "environ \<Rightarrow> variableScope \<Rightarrow> sentence \<Rightarrow> reference list \<Rightarrow> string list \<Rightarrow> sentence + string list" where
  "check_used env known where [] missing = Inr missing"
| "check_used env known where (used # rest) missing =
    (case resolve_reference env known used of
       Some message \<Rightarrow> Inl (Sprintf ''%s: %w'' [ArgM where, ArgM message])
     | None \<Rightarrow> check_used env known where rest (if needs_environment env used then List.insert (ref_name used) missing else missing))"

definition checkText :: "environ \<Rightarrow> variableScope \<Rightarrow> string \<Rightarrow> sentence \<Rightarrow> string list \<Rightarrow> sentence + string list" where
  "checkText env known text where missing = check_used env known where (referencesIn text) missing"

fun check_texts :: "environ \<Rightarrow> variableScope \<Rightarrow> (sentence \<times> string) list \<Rightarrow> string list \<Rightarrow> sentence + string list" where
  "check_texts env known [] missing = Inr missing"
| "check_texts env known ((where, text) # rest) missing =
    (case checkText env known text where missing of
       Inl err \<Rightarrow> Inl err
     | Inr missing \<Rightarrow> check_texts env known rest missing)"

text \<open>The texts the code visits, in its order, each with the place an error names.\<close>

definition visited_texts :: "'c config_methods \<Rightarrow> 'c Spec \<Rightarrow> (sentence \<times> string) list" where
  "visited_texts methods spec =
    map (\<lambda>(name, text). (Sprintf ''variable %q'' [ArgS name], text)) (Spec_Vars spec)
    @ concat (map (\<lambda>step. map (\<lambda>text. (Sprintf ''step %q'' [ArgS (Step_Name step)], text))
        (config_texts methods step @ map As_Value (Step_Assertions step))) (Spec_Steps spec))"

fun unique :: "string list \<Rightarrow> string list" where
  "unique [] = []"
| "unique [name] = [name]"
| "unique (a # b # rest) = (if a = b then unique (b # rest) else a # unique (b # rest))"

definition CheckReferences :: "'c config_methods \<Rightarrow> environ \<Rightarrow> 'c Spec \<Rightarrow> sentence + 'c Spec" where
  "CheckReferences methods env spec =
    (case check_texts env (knownVariables spec) (visited_texts methods spec) [] of
       Inl err \<Rightarrow> Inl err
     | Inr missing \<Rightarrow>
         Inr (spec\<lparr>Spec_MissingEnvironment := unique (sort_Strings (Spec_MissingEnvironment spec @ missing))\<rparr>))"

section \<open>The fields read from each source\<close>

text \<open>The name of a reference with a dot and something after it: the source and the field.\<close>

definition field_reference :: "reference \<Rightarrow> (string \<times> string) option" where
  "field_reference used = (case Cut (ref_name used) ''.'' of (source, field, dotted) \<Rightarrow>
     if \<not> dotted \<or> field = '''' then None else Some (source, field))"

definition collected_texts :: "'c config_methods \<Rightarrow> 'c Spec \<Rightarrow> string list" where
  "collected_texts methods spec =
    map snd (Spec_Vars spec) @ [Spec_Target spec]
    @ concat (map (\<lambda>step. config_texts methods step @ concat (map (\<lambda>a. [As_Target a, As_Value a]) (Step_Assertions step))) (Spec_Steps spec))"

definition collect_field :: "(string, string list) gomap \<Rightarrow> string \<times> string \<Rightarrow> (string, string list) gomap" where
  "collect_field bySource = (\<lambda>(source, field).
     gput bySource source (List.insert field (case gget bySource source of None \<Rightarrow> [] | Some known \<Rightarrow> known)))"

definition ReferencedFields :: "'c config_methods \<Rightarrow> 'c Spec \<Rightarrow> (string, string list) gomap" where
  "ReferencedFields methods spec =
    (let bySource = foldl collect_field []
           (List.map_filter field_reference (concat (map referencesIn (collected_texts methods spec))))
     in map (\<lambda>(source, flds). (source, sort_Strings flds)) bySource)"

section \<open>Values of the session\<close>

definition brokers_of :: "'c Spec \<Rightarrow> Broker list" where
  "brokers_of spec = (case Spec_Messaging spec of None \<Rightarrow> []
     | Some settings \<Rightarrow> (case Set_Kafka settings of None \<Rightarrow> [] | Some b \<Rightarrow> [b]) @ (case Set_AMQP settings of None \<Rightarrow> [] | Some b \<Rightarrow> [b]))"

definition brokerCredentialNames :: "'c Spec \<Rightarrow> string list" where
  "brokerCredentialNames spec = filter (\<lambda>name. name \<noteq> '''')
     (concat (map (\<lambda>b. [BA_UserVar (Br_Auth b), BA_PasswordVar (Br_Auth b)]) (brokers_of spec)))"

definition fill_broker :: "(string, string) gomap \<Rightarrow> Broker \<Rightarrow> Broker" where
  "fill_broker environment broker =
    (let auth = Br_Auth broker;
         auth = (case gget environment (BA_UserVar auth) of
             Some value \<Rightarrow> if BA_UserVar auth \<noteq> '''' then auth\<lparr>BA_User := value\<rparr> else auth | None \<Rightarrow> auth);
         auth = (case gget environment (BA_PasswordVar auth) of
             Some value \<Rightarrow> if BA_PasswordVar auth \<noteq> '''' then auth\<lparr>BA_Password := value\<rparr> else auth | None \<Rightarrow> auth)
     in broker\<lparr>Br_Auth := auth\<rparr>)"

definition fillBrokerCredentials :: "(string, string) gomap \<Rightarrow> 'c Spec \<Rightarrow> 'c Spec" where
  "fillBrokerCredentials environment spec =
    (case Spec_Messaging spec of None \<Rightarrow> spec
     | Some settings \<Rightarrow> spec\<lparr>Spec_Messaging := Some (settings\<lparr>Set_Kafka := map_option (fill_broker environment) (Set_Kafka settings),
         Set_AMQP := map_option (fill_broker environment) (Set_AMQP settings)\<rparr>)\<rparr>)"

definition ResolveWith :: "(string, string) gomap \<Rightarrow> 'c Spec \<Rightarrow> 'c Spec" where
  "ResolveWith environment spec =
    (if environment = [] then spec
     else let broker = brokerCredentialNames spec;
              merged = foldl (\<lambda>m (n, v). gput m n v) [] (Spec_Vars spec);
              merged = foldl (\<lambda>m (n, v). if n \<in> set broker then m else gput m n v) merged environment;
              spec = fillBrokerCredentials environment (spec\<lparr>Spec_Vars := merged\<rparr>)
          in spec\<lparr>Spec_MissingEnvironment := filter (\<lambda>name. gget environment name = None) (Spec_MissingEnvironment spec)\<rparr>)"

definition SessionCredentials :: "'c Spec \<Rightarrow> string list" where
  "SessionCredentials spec = Spec_MissingEnvironment spec"

section \<open>The check accepts exactly what can be resolved\<close>

definition declared_variable :: "'c Spec \<Rightarrow> string \<Rightarrow> bool" where
  "declared_variable spec name \<longleftrightarrow>
    name \<in> fst ` set (Spec_Vars spec)
    \<or> (\<exists>step \<in> set (Spec_Steps spec). \<exists>capture \<in> set (Step_Captures step). name = Cap_Variable capture)
    \<or> (\<exists>auth step. Spec_Auth spec = Some auth \<and> Auth_Obtain auth = Some step \<and> (\<exists>capture \<in> set (Step_Captures step). name = Cap_Variable capture))"

definition declared_field :: "'c Spec \<Rightarrow> string \<Rightarrow> bool" where
  "declared_field spec name \<longleftrightarrow>
    (\<exists>source field declared. name = source @ ''.'' @ field \<and> CHR ''.'' \<notin> set source
       \<and> List.find (\<lambda>d. Data_Name d = source) (rev (Spec_Data spec)) = Some declared
       \<and> (Synthetic declared \<and> Data_Fields declared \<noteq> [] \<longrightarrow> field \<in> fst ` set (Data_Fields declared)))"

definition resolvable :: "environ \<Rightarrow> 'c Spec \<Rightarrow> reference \<Rightarrow> bool" where
  "resolvable env spec used \<longleftrightarrow>
    ref_hasDefault used \<or> IsEnvironmentName (ref_name used) \<or> env (ref_name used) \<noteq> None
    \<or> declared_variable spec (ref_name used) \<or> declared_field spec (ref_name used)"

lemma vs_names_known: "name \<in> set (vs_names (knownVariables spec)) \<longleftrightarrow> declared_variable spec name"
  by (cases "Spec_Auth spec"; cases "Auth_Obtain (the (Spec_Auth spec))") (auto simp: knownVariables_def declared_variable_def image_iff)

lemma gget_sources: "gget (foldl (\<lambda>sources source. gput sources (Data_Name source) source) m ds) name =
   (case List.find (\<lambda>d. Data_Name d = name) (rev ds) of None \<Rightarrow> gget m name | Some d \<Rightarrow> Some d)"
proof (induction ds rule: rev_induct)
  case (snoc d ds)
  then show ?case by auto
qed simp

lemma vs_sources_known: "gget (vs_sources (knownVariables spec)) name = List.find (\<lambda>d. Data_Name d = name) (rev (Spec_Data spec))"
  using gget_sources[of "[]" "Spec_Data spec" name] by (simp add: knownVariables_def gget_def split: option.splits)

lemma Cut_dot: "name = source @ ''.'' @ field \<and> CHR ''.'' \<notin> set source \<longleftrightarrow> Cut name ''.'' = (source, field, True)"
proof
  show "Cut name ''.'' = (source, field, True)" if "name = source @ ''.'' @ field \<and> CHR ''.'' \<notin> set source"
    using that Cut_single[of "CHR ''.''" source field] by simp
  show "name = source @ ''.'' @ field \<and> CHR ''.'' \<notin> set source" if "Cut name ''.'' = (source, field, True)"
    using Cut_char[OF that] by simp
qed

lemma resolveFromSource_None:
  "resolveFromSource (knownVariables spec) source field used = None \<longleftrightarrow>
   (\<exists>declared. List.find (\<lambda>d. Data_Name d = source) (rev (Spec_Data spec)) = Some declared
      \<and> (Synthetic declared \<and> Data_Fields declared \<noteq> [] \<longrightarrow> field \<in> fst ` set (Data_Fields declared)))"
proof (cases "List.find (\<lambda>d. Data_Name d = source) (rev (Spec_Data spec))")
  case (Some declared)
  have "hasField (Data_Fields declared) field \<longleftrightarrow> field \<in> fst ` set (Data_Fields declared)"
    by (simp add: hasField_def gget_def map_of_eq_None_iff)
  with Some show ?thesis by (auto simp: resolveFromSource_def vs_sources_known)
qed (simp add: resolveFromSource_def vs_sources_known)

lemma resolve_reference_None: "resolve_reference env (knownVariables spec) used = None \<longleftrightarrow> resolvable env spec used"
proof -
  obtain source field dotted where cut: "Cut (ref_name used) ''.'' = (source, field, dotted)" by (metis prod_cases3)
  have "declared_field spec (ref_name used) \<longleftrightarrow> dotted \<and> resolveFromSource (knownVariables spec) source field used = None"
    unfolding declared_field_def resolveFromSource_None conj_assoc[symmetric] Cut_dot cut by auto
  then show ?thesis
    by (simp add: resolve_reference_def cut vs_names_known resolvable_def fromEnvironment_def env_defined_def)
qed

text \<open>What a loop over references or texts returns when nothing is refused, and when something is.\<close>

lemma check_used_result:
  "case check_used env (knownVariables spec) place refs missing of
     Inl err \<Rightarrow> \<exists>used \<in> set refs. \<not> resolvable env spec used
   | Inr missing' \<Rightarrow> (\<forall>used \<in> set refs. resolvable env spec used)
       \<and> set missing' = set missing \<union> ref_name ` {used \<in> set refs. needs_environment env used}"
proof (induction refs arbitrary: missing)
  case (Cons used refs)
  show ?case
  proof (cases "resolve_reference env (knownVariables spec) used")
    case None
    then have ok: "resolvable env spec used" using resolve_reference_None[of env spec used] by simp
    define missing1 where "missing1 = (if needs_environment env used then List.insert (ref_name used) missing else missing)"
    have "check_used env (knownVariables spec) place (used # refs) missing = check_used env (knownVariables spec) place refs missing1"
      using None by (simp add: missing1_def)
    moreover have "set missing1 = set missing \<union> ref_name ` {u \<in> {used}. needs_environment env u}" by (auto simp: missing1_def)
    ultimately show ?thesis using Cons[of missing1] ok by (auto split: sum.splits)
  next
    case (Some message)
    then have "\<not> resolvable env spec used" using resolve_reference_None[of env spec used] by simp
    with Some show ?thesis by simp
  qed
qed simp

definition references_of :: "(sentence \<times> string) list \<Rightarrow> reference set" where
  "references_of texts = {used. \<exists>(place, text) \<in> set texts. used \<in> set (referencesIn text)}"

lemma references_of_simps [simp]:
  "references_of [] = {}" "references_of ((place, text) # rest) = set (referencesIn text) \<union> references_of rest"
  by (auto simp: references_of_def)

lemma check_texts_result:
  "case check_texts env (knownVariables spec) texts missing of
     Inl err \<Rightarrow> \<exists>used \<in> references_of texts. \<not> resolvable env spec used
   | Inr missing' \<Rightarrow> (\<forall>used \<in> references_of texts. resolvable env spec used)
       \<and> set missing' = set missing \<union> ref_name ` {used \<in> references_of texts. needs_environment env used}"
proof (induction texts arbitrary: missing)
  case (Cons entry texts)
  obtain place line where entry: "entry = (place, line)" by fastforce
  show ?case
  proof (cases "checkText env (knownVariables spec) line place missing")
    case (Inl err)
    with check_used_result[where env = env and spec = spec and place = place and refs = "referencesIn line" and missing = missing] show ?thesis by (auto simp: entry checkText_def)
  next
    case (Inr missing1)
    with check_used_result[where env = env and spec = spec and place = place and refs = "referencesIn line" and missing = missing] Cons[of missing1] show ?thesis
      by (auto simp: entry checkText_def split: sum.splits)
  qed
qed simp

lemma set_unique: "set (unique names) = set names"
  by (induction names rule: unique.induct) auto

lemma unique_sorted: "sorted names \<Longrightarrow> sorted (unique names) \<and> distinct (unique names)"
proof (induction names rule: unique.induct)
  case (3 a b rest)
  then show ?case using set_unique[of "b # rest"] by (auto simp: order_antisym)
qed simp_all


text \<open>The texts of the authentication are not among those visited: its header may refer to a name nobody declares.\<close>

lemma auth_texts_not_visited: "visited_texts methods (spec\<lparr>Spec_Auth := auth\<rparr>) = visited_texts methods spec"
  by (simp add: visited_texts_def config_texts_def)

section \<open>What a session supplies\<close>

lemma gget_foldl_skipping:
  "gmap_ok environment \<Longrightarrow> gget (foldl (\<lambda>m (n, v). if n \<in> B then m else gput m n v) m environment) name =
    (if name \<in> B then gget m name else case gget environment name of Some v \<Rightarrow> Some v | None \<Rightarrow> gget m name)"
proof (induction environment arbitrary: m)
  case (Cons entry rest)
  obtain n v where entry: "entry = (n, v)" by fastforce
  with Cons.prems have "gmap_ok rest" "gget rest n = None" by (auto simp: gget_def gkeys_def map_of_eq_None_iff)
  with Cons.IH[of "if n \<in> B then m else gput m n v"] show ?case by (auto simp: entry gget_Cons split: option.splits)
qed simp

lemma fillBrokerCredentials_fields [simp]:
  "Spec_Vars (fillBrokerCredentials environment spec) = Spec_Vars spec"
  "Spec_MissingEnvironment (fillBrokerCredentials environment spec) = Spec_MissingEnvironment spec"
  by (simp_all add: fillBrokerCredentials_def split: option.splits)

text \<open>Values supplied for a session reach the iterations as variables, except the credentials of a broker: those never
  become variables, and go to the connection instead. A name stops counting as missing exactly when it
  was supplied.\<close>

theorem ResolveWith_supplies:
  assumes "gmap_ok environment" and "gmap_ok (Spec_Vars spec)"
  shows "gget (Spec_Vars (ResolveWith environment spec)) name =
      (if name \<in> set (brokerCredentialNames spec) then gget (Spec_Vars spec) name
       else case gget environment name of Some v \<Rightarrow> Some v | None \<Rightarrow> gget (Spec_Vars spec) name)
    \<and> set (Spec_MissingEnvironment (ResolveWith environment spec)) = set (Spec_MissingEnvironment spec) - set (gkeys environment)
    \<and> brokers_of (ResolveWith environment spec) = map (fill_broker environment) (brokers_of spec)"
proof (cases "environment = []")
  case True
  have "fill_broker [] b = b" for b by (simp add: fill_broker_def gget_def Let_def)
  then have "map (fill_broker []) bs = bs" for bs by (induction bs) simp_all
  with True show ?thesis by (simp add: ResolveWith_def gget_def gkeys_def)
next
  case False
  have "gget (foldl (\<lambda>m (n, v). gput m n v) [] (Spec_Vars spec)) name = gget (Spec_Vars spec) name"
    (is "gget ?merged name = _") using assms(2) by (simp add: gget_foldl_gput gget_rev split: option.splits)
  then have "gget (Spec_Vars (ResolveWith environment spec)) name =
      (if name \<in> set (brokerCredentialNames spec) then gget (Spec_Vars spec) name
       else case gget environment name of Some v \<Rightarrow> Some v | None \<Rightarrow> gget (Spec_Vars spec) name)"
    using False gget_foldl_skipping[OF assms(1), where B = "set (brokerCredentialNames spec)" and m = ?merged and name = name]
    unfolding ResolveWith_def Let_def by (simp split: option.splits)
  moreover have "set (Spec_MissingEnvironment (ResolveWith environment spec)) = set (Spec_MissingEnvironment spec) - set (gkeys environment)"
    using False by (auto simp: ResolveWith_def Let_def gget_None_iff)
  moreover have "brokers_of (ResolveWith environment spec) = map (fill_broker environment) (brokers_of spec)"
    using False by (auto simp: ResolveWith_def Let_def brokers_of_def fillBrokerCredentials_def split: option.splits)
  ultimately show ?thesis by blast
qed

section \<open>Witnesses\<close>

definition example_needy :: "unit Spec" where
  "example_needy = example_mix\<lparr>Spec_Vars := [(''base'', ''${API_KEY}'')], Spec_MissingEnvironment := [''API_KEY''], Spec_Auth := None, Spec_Messaging := None\<rparr>"

theorem ResolveWith_supplies_witness:
  "gget (Spec_Vars (ResolveWith [(''API_KEY'', ''k'')] example_needy)) ''API_KEY'' = Some ''k''
   \<and> Spec_MissingEnvironment (ResolveWith [(''API_KEY'', ''k'')] example_needy) = []"
  using ResolveWith_supplies[of "[(''API_KEY'', ''k'')]" example_needy "''API_KEY''"]
  by (simp add: example_needy_def gkeys_def gget_def brokerCredentialNames_def brokers_of_def)

lemma example_needy_refs: "references_of (visited_texts example_methods example_needy) = {\<lparr>ref_name = ''API_KEY'', ref_hasDefault = False, ref_offset = 0\<rparr>}"
proof -
  have "visited_texts example_methods example_needy = [(Sprintf ''variable %q'' [ArgS ''base''], ''${API_KEY}'')]" by code_simp
  moreover have "referencesIn ''${API_KEY}'' = [\<lparr>ref_name = ''API_KEY'', ref_hasDefault = False, ref_offset = 0\<rparr>]" by code_simp
  ultimately show ?thesis by simp
qed


end
