(* ===== verification/Engine.thy ===== *)
theory Engine
  imports Drive Result Validation
begin

text \<open>
  The engine around the drivers (\<open>internal/engine/executor.go\<close> and \<open>datafields.go\<close>): building it from a
  scenario and its options (\<open>NewEngine\<close>), preparing the protocols, one iteration in debug mode, and a whole
  run from the first reading of the clock to the document (\<open>open_execution\<close>, \<open>closed_execution\<close>). What a
  file holds and the certificates on disk are arguments. Proved: the fields a scenario reads are there when
  an iteration starts, and a run accounts in its document for the whole plan.
\<close>

section \<open>Options\<close>

text \<open>The callbacks \<open>OnProgress\<close> and \<open>OnStep\<close> only observe and are left out.\<close>

record 'w Options =
  Opt_Version :: string
  Opt_MaxInflight :: int
  Opt_LateThreshold :: Duration
  Opt_Clock :: "'w Clock option"
  Opt_DataRoot :: string
  Opt_ProgressInterval :: Duration

definition DefaultOptions :: "'w Clock \<Rightarrow> 'w Options" where
  "DefaultOptions system =
    \<lparr>Opt_Version = ''0.2.0'', Opt_MaxInflight = 20000, Opt_LateThreshold = 10 * Millisecond, Opt_Clock = Some system,
     Opt_DataRoot = '''', Opt_ProgressInterval = Second\<rparr>"

definition with_defaults :: "'w Clock \<Rightarrow> 'w Options \<Rightarrow> 'w Options" where
  "with_defaults system options =
    (let options = (if Opt_Clock options = None then options\<lparr>Opt_Clock := Some system\<rparr> else options);
         options = (if Opt_LateThreshold options \<le> 0 then options\<lparr>Opt_LateThreshold := 10 * Millisecond\<rparr> else options)
     in if Opt_MaxInflight options \<le> 0 then options\<lparr>Opt_MaxInflight := 20000\<rparr> else options)"

section \<open>The fields of the data\<close>

datatype engine_error = DataFailed data_error | FieldUnknown string string "string list" | TLSFailed sentence

definition columnsOf :: "string list \<Rightarrow> string \<Rightarrow> string list" where
  "columnsOf available source =
    sort_Strings (concat (map (\<lambda>name. case Cut name ''.'' of (declared, column, dotted) \<Rightarrow>
      if dotted \<and> declared = source then [column] else []) available))"

fun field_loop :: "string list \<Rightarrow> string \<Rightarrow> string list \<Rightarrow> engine_error option" where
  "field_loop available source [] = None"
| "field_loop available source (field # listed) =
    (if source @ ''.'' @ field \<in> set available then field_loop available source listed
     else Some (FieldUnknown source field (columnsOf available source)))"

text \<open>The code ranges over a map, in an order of its own: when several fields are unknown it names any of them.\<close>

fun source_loop :: "string list \<Rightarrow> (string, string list) gomap \<Rightarrow> engine_error option" where
  "source_loop available [] = None"
| "source_loop available ((source, listed) # rest) =
    (if columnsOf available source = [] then source_loop available rest
     else case field_loop available source listed of Some err \<Rightarrow> Some err | None \<Rightarrow> source_loop available rest)"

definition available_names :: "'r Source list \<Rightarrow> string list" where
  "available_names sources = remdups (concat (map (\<lambda>source. gkeys (Source_Available source)) sources))"

definition checkDataFields :: "'c config_methods \<Rightarrow> 'c Spec \<Rightarrow> 'r Source list \<Rightarrow> engine_error option" where
  "checkDataFields methods spec sources = source_loop (available_names sources) (ReferencedFields methods spec)"

section \<open>Building the engine\<close>

definition Registered :: "('c, 'r, 'x, 'w) host \<Rightarrow> string list" where
  "Registered host = sort_Strings (gkeys (Host_protocols host))"

definition use_TLS :: "('c, 'r, 'x, 'w) host \<Rightarrow> (string \<times> string) tls_Config option \<Rightarrow> 'w \<Rightarrow> string \<Rightarrow> 'w" where
  "use_TLS host settings w name =
    (case gget (Host_protocols host) name of None \<Rightarrow> w
     | Some implementation \<Rightarrow> case Proto_UseTLS implementation of None \<Rightarrow> w | Some use_settings \<Rightarrow> use_settings settings w)"

definition applyTLS :: "(string \<times> string) pki \<Rightarrow> ('c, 'r, 'x, 'w) host \<Rightarrow> 'c Spec \<Rightarrow> 'w \<Rightarrow> sentence option \<times> 'w" where
  "applyTLS pki host spec w =
    (case Spec_TLS spec of None \<Rightarrow> (None, w)
     | Some tls \<Rightarrow>
         case TLS_Config pki tls of
           Inl err \<Rightarrow> (Some err, w)
         | Inr settings \<Rightarrow> (None, foldl (use_TLS host settings) w (Registered host)))"

record ('c, 'r, 'w) engine =
  En_executor :: "'c Executor"
  En_plan :: Plan
  En_options :: "'w Options"
  En_sources :: "'r Source list"
  En_authenticator :: "'c Manager option"

fun open_sources :: "'r rng \<Rightarrow> (string \<Rightarrow> data_error + string list list) \<Rightarrow> DataSource list \<Rightarrow> data_error + 'r Source list" where
  "open_sources rng read [] = Inr []"
| "open_sources rng read (source # rest) =
    (case Open rng read source of
       Inl err \<Rightarrow> Inl err
     | Inr opened \<Rightarrow> (case open_sources rng read rest of Inl err \<Rightarrow> Inl err | Inr sources \<Rightarrow> Inr (opened # sources)))"

text \<open>\<open>read root file\<close> is what opening and parsing a file under the data root gives.\<close>

definition NewEngine :: "(string \<times> string) pki \<Rightarrow> (string \<Rightarrow> string \<Rightarrow> data_error + string list list) \<Rightarrow> 'w Clock \<Rightarrow> ('c, 'r, 'x, 'w) host \<Rightarrow>
    'c Spec \<Rightarrow> 'w Options \<Rightarrow> 'w \<Rightarrow> (engine_error + ('c, 'r, 'w) engine) \<times> 'w" where
  "NewEngine pki read system host spec options w =
    (let options = with_defaults system options
     in case open_sources (Host_rng host) (read (Opt_DataRoot options)) (Spec_Data spec) of
          Inl err \<Rightarrow> (Inl (DataFailed err), w)
        | Inr sources \<Rightarrow>
            case checkDataFields (Host_methods host) spec sources of
              Some err \<Rightarrow> (Inl err, w)
            | None \<Rightarrow>
                case applyTLS pki host spec w of
                  (Some err, w) \<Rightarrow> (Inl (TLSFailed err), w)
                | (None, w) \<Rightarrow>
                    (Inr \<lparr>En_executor = \<lparr>Ex_scenario = spec, Ex_mixOrder = MixOrder spec\<rparr>, En_plan = CompilePlan (Spec_Load spec),
                       En_options = options, En_sources = sources, En_authenticator = map_option NewManager (Spec_Auth spec)\<rparr>, w))"

section \<open>Preparation\<close>

fun prepare_steps :: "('c, 'r, 'x, 'w) host \<Rightarrow> 'c Executor \<Rightarrow> 'c Step list \<Rightarrow> iteration_values \<Rightarrow> ('r, 'x, 'w) surroundings \<Rightarrow>
    sentence option \<times> ('r, 'x, 'w) surroundings" where
  "prepare_steps host executor [] v s = (None, s)"
| "prepare_steps host executor (step # steps) v s =
    (case gget (Host_protocols host) (Step_Protocol step) of
       None \<Rightarrow> prepare_steps host executor steps v s
     | Some implementation \<Rightarrow>
         case Proto_Prepare implementation of
           None \<Rightarrow> prepare_steps host executor steps v s
         | Some prepare \<Rightarrow>
             (case run_resolution (engine_resolve host) (Method_Resolve (Host_engine host) (the (Step_Config step))) (v, s) of (config, v, s) \<Rightarrow>
              case prepare \<lparr>Req_StepName = Step_Name step, Req_Config = config, Req_URLBase = Spec_Target (Ex_scenario executor),
                  Req_Vars = [], Req_Messaging = Spec_Messaging (Ex_scenario executor)\<rparr> (Su_world s) of
                (Some err, w) \<Rightarrow> (Some (Sprintf ''could not prepare the step %q: %w'' [ArgS (Step_Name step), ArgS err]), s\<lparr>Su_world := w\<rparr>)
              | (None, w) \<Rightarrow> prepare_steps host executor steps v (s\<lparr>Su_world := w\<rparr>)))"

definition prepareProtocols :: "('c, 'r, 'x, 'w) host \<Rightarrow> 'c Executor \<Rightarrow> ('r, 'x, 'w) surroundings \<Rightarrow> sentence option \<times> ('r, 'x, 'w) surroundings" where
  "prepareProtocols host executor s =
    prepare_steps host executor (Spec_Steps (Ex_scenario executor)) (New 0 0 (Spec_Vars (Ex_scenario executor))) s"

section \<open>One iteration in debug mode\<close>

text \<open>The loop over the sources of \<open>Debug\<close>: unlike that of an iteration, a failure comes with the values so far.\<close>

fun debug_sources :: "('c, 'r, 'x, 'w) host \<Rightarrow> nat \<Rightarrow> nat \<Rightarrow> iteration_values \<Rightarrow> ('r, 'x, 'w) surroundings \<Rightarrow>
    data_error option \<times> iteration_values \<times> ('r, 'x, 'w) surroundings" where
  "debug_sources host index 0 v s = (None, v, s)"
| "debug_sources host index (Suc remaining) v s =
    (case Source_Next (Host_rng host) (Su_sources s ! index) 0 of (record, source) \<Rightarrow>
       let s = s\<lparr>Su_sources := (Su_sources s)[index := source]\<rparr>
       in case record of
            Inl err \<Rightarrow> (Some err, v, s)
          | Inr incoming \<Rightarrow>
              let v = SetAll v incoming;
                  v = foldl (\<lambda>v (name, field). SetPerUse v name (index, field)) v (Source_PerUse source)
              in debug_sources host (Suc index) remaining v s)"

fun debug_steps :: "('c, 'r, 'x, 'w) host \<Rightarrow> 'c Executor \<Rightarrow> 'c Step list \<Rightarrow> Time \<Rightarrow> iteration_values \<Rightarrow> string \<times> string \<Rightarrow>
    ('r, 'x, 'w) surroundings \<Rightarrow> 'c Observation list \<times> iteration_values \<times> ('r, 'x, 'w) surroundings" where
  "debug_steps host executor [] instant v authHeader s = ([], v, s)"
| "debug_steps host executor (step # steps) instant v authHeader s =
    (case runStep host executor step instant v authHeader s of (sample, observation, v, s) \<Rightarrow>
       if S_Class sample \<noteq> Success then ([observation], v, s)
       else case debug_steps host executor steps (S_FinishedAt sample) v authHeader s of
         (observations, v, s) \<Rightarrow> (observation # observations, v, s))"

datatype debug_error = DebugData data_error | DebugAuth string

definition Debug :: "('c, 'r, 'x, 'w) host \<Rightarrow> 'c Executor \<Rightarrow> 'c Manager option \<Rightarrow> ('r, 'x, 'w) surroundings \<Rightarrow>
    'c Observation list \<times> (string, string) gomap \<times> debug_error option \<times> 'c Manager option \<times> ('r, 'x, 'w) surroundings" where
  "Debug host executor manager s =
    (case debug_sources host 0 (length (Su_sources s)) (New 0 0 (Spec_Vars (Ex_scenario executor))) s of
       (Some err, v, s) \<Rightarrow> ([], vals v, Some (DebugData err), manager, s)
     | (None, v, s) \<Rightarrow>
         (case iteration_header host executor manager v s of
            (Inl err, manager, v, s) \<Rightarrow> ([], vals v, Some (DebugAuth err), manager, s)
          | (Inr authHeader, manager, v, s) \<Rightarrow>
              (case engine_now host s of (instant, s) \<Rightarrow>
               case debug_steps host executor (Spec_Steps (Ex_scenario executor)) instant v authHeader s of
                 (observations, v, s) \<Rightarrow> (observations, vals v, None, manager, s))))"

section \<open>What the document is told\<close>

definition declaredShares :: "'c Spec \<Rightarrow> 'c config_methods \<Rightarrow> (string, real) gomap" where
  "declaredShares spec methods =
    (if HasMix spec
     then foldl (\<lambda>shares (index, step). gput shares (AggregationKey methods step) (DeclaredShare spec index)) [] (enumerate 0 (Spec_Steps spec))
     else [])"

definition declaredSteps :: "'c Spec \<Rightarrow> string list" where
  "declaredSteps spec = map Step_Name (Spec_Steps spec)"

text \<open>
  The first line of a message. The only argument of that line is quoted, so it holds no line break: the
  first line of the text is the first line of the format with the arguments it uses.
\<close>

definition firstLine :: "sentence \<Rightarrow> sentence" where
  "firstLine text =
    (case text of Sprintf format arguments \<Rightarrow>
       let line = TrimPrefix (fst (Cut format nl)) ''Warning: ''
       in Sprintf line (take (length (filter (\<lambda>c. c = CHR ''%'') line)) arguments))"

definition fixed_step_warning :: "sentence \<Rightarrow> Warning" where
  "fixed_step_warning text =
    \<lparr>W_Kind = ''stepWithoutVariation'', W_Severity = SeverityLow, W_Message = firstLine text,
     W_Evidence = Plain ''no ${} in the step, so it does not enter the observed variety''\<rparr>"

definition polling_warning :: "('c, 'r, 'x, 'w) host \<Rightarrow> 'c Step \<Rightarrow> Warning list" where
  "polling_warning host step =
    (case Step_Config step of None \<Rightarrow> []
     | Some config \<Rightarrow>
         case Method_PollInterval (Host_engine host) config of None \<Rightarrow> []
         | Some interval \<Rightarrow>
             if interval \<le> 0 then []
             else [\<lparr>W_Kind = ''waitByPolling'', W_Severity = SeverityLow,
                W_Message = Sprintf ''the step %q waits by polling every %s: its time has that granularity, so it reads longer than the real one, never shorter''
                  [ArgS (Step_Name step), ArgT interval],
                W_Evidence = Plain (AggregationKey (Host_methods host) step)\<rparr>])"

definition scenarioWarnings :: "('c, 'r, 'x, 'w) host \<Rightarrow> 'c Spec \<Rightarrow> Warning list" where
  "scenarioWarnings host spec =
    map fixed_step_warning (FixedStepWarnings (Host_methods host) spec) @ concat (map (polling_warning host) (Spec_Steps spec))"

definition appliedPhases :: "'c Spec \<Rightarrow> AppliedPhase list" where
  "appliedPhases spec =
    map (\<lambda>phase. \<lparr>AP_Kind = mentions (Ph_Kind phase), AP_From = InitialRate phase, AP_To = FinalRate phase,
      AP_DurationMs = Milliseconds (Ph_For phase)\<rparr>) (Load_Phases (Spec_Load spec))"

definition put_all :: "(string, int) gomap \<Rightarrow> (string, int) gomap \<Rightarrow> (string, int) gomap" where
  "put_all m entries = foldl (\<lambda>m (name, howMany). gput m name howMany) m entries"

definition protocol_availability :: "('c, 'r, 'x, 'w) host \<Rightarrow> 'w \<Rightarrow> string \<Rightarrow> (string, int) gomap" where
  "protocol_availability host w name =
    (case gget (Host_protocols host) name of None \<Rightarrow> []
     | Some implementation \<Rightarrow> case Proto_Available implementation of None \<Rightarrow> [] | Some available \<Rightarrow> available w)"

definition availability :: "('c, 'r, 'x, 'w) host \<Rightarrow> ('c, 'r, 'w) engine \<Rightarrow> 'w \<Rightarrow> Availability" where
  "availability host engine w =
    (let a = foldl put_all [] (map Source_Available (En_sources engine));
         a = foldl put_all a (map (protocol_availability host w) (Registered host))
     in case Spec_Auth (Ex_scenario (En_executor engine)) of None \<Rightarrow> a
        | Some auth \<Rightarrow> case Auth_Obtain auth of None \<Rightarrow> a
            | Some step \<Rightarrow> put_all a (map (\<lambda>capture. (Cap_Variable capture, 1)) (Step_Captures step)))"

definition seeds :: "'c Spec \<Rightarrow> (string, int) gomap" where
  "seeds spec =
    foldl (\<lambda>m source. if UsesSeed source then gput m (Data_Name source) (if Data_Seed source = 0 then 1 else Data_Seed source) else m)
      [] (Spec_Data spec)"

definition authObtains :: "'c Manager option \<Rightarrow> int" where
  "authObtains manager = (case manager of None \<Rightarrow> 0 | Some m \<Rightarrow> Man_Obtains m)"

definition consumerLag :: "('c, 'r, 'x, 'w) host \<Rightarrow> 'w \<Rightarrow> ConsumerLag list" where
  "consumerLag host w =
    concat (map (\<lambda>name. case gget (Host_protocols host) name of None \<Rightarrow> []
      | Some implementation \<Rightarrow> case Proto_ConsumerLag implementation of None \<Rightarrow> [] | Some lags \<Rightarrow> lags w) (Registered host))"

fun model_text :: "ArrivalModel \<Rightarrow> string" where
  "model_text OpenArrival = ''open''"
| "model_text ClosedArrival = ''closed''"

definition documentInput :: "('c, 'r, 'x, 'w) host \<Rightarrow> ('c, 'r, 'w) engine \<Rightarrow> 'w \<Rightarrow> Time \<Rightarrow> Time \<Rightarrow> DocumentInput" where
  "documentInput host engine w start finish =
    (let spec = Ex_scenario (En_executor engine); load = Spec_Load spec; plan = En_plan engine
     in \<lparr>In_Version = Opt_Version (En_options engine), In_Protocols = Registered host, In_Spec = Spec_Name spec,
         In_Target = Spec_Target spec, In_Model = model_text (Load_Model load), In_Start = start, In_End = finish,
         In_Phases = appliedPhases spec, In_MaxInflight = Opt_MaxInflight (En_options engine), In_Seeds = seeds spec,
         In_SeedsFrom = SeedsFromEnvironment spec, In_Availability = availability host engine w,
         In_AuthObtains = authObtains (En_authenticator engine), In_ScenarioWarnings = scenarioWarnings host spec,
         In_Brokers = DescribeMessaging (Spec_Messaging spec), In_DeclaredSteps = declaredSteps spec,
         In_DeclaredShares = declaredShares spec (Host_methods host), In_ConsumerLag = consumerLag host w,
         In_PlannedDuration = plan_duration plan, In_PlannedRequests = totalRequests plan,
         In_Users = Load_Users load, In_ThinkTime = Load_ThinkTime load\<rparr>)"

text \<open>One tick of \<open>follow\<close>: what the callback of progress receives.\<close>

definition follow_tick :: "'h hdr \<Rightarrow> Plan \<Rightarrow> 'h Collector \<Rightarrow> Duration \<Rightarrow> Snapshot \<times> real \<times> Duration" where
  "follow_tick hdr plan collector elapsed =
    (Collector_Snapshot hdr collector, RateAt plan elapsed, max 0 (plan_duration plan - elapsed))"

section \<open>The fields a scenario reads are there\<close>

text \<open>
  \<open>encoding/csv\<close> gives every record at least one field and refuses a file whose records have different
  numbers of them: \<open>csv_shape\<close> is what a parsed file looks like.
\<close>

definition csv_shape :: "string list list \<Rightarrow> bool" where
  "csv_shape rows \<longleftrightarrow> (\<forall>row \<in> set rows. row \<noteq> [] \<and> length row = length (hd rows))"

fun source_ok :: "'r rng \<Rightarrow> 'r Source \<Rightarrow> bool" where
  "source_ok rng (CsvSource source) \<longleftrightarrow> csv_ok source \<and> rng_ranges rng"
| "source_ok rng (SyntheticSource source) \<longleftrightarrow> True"

interpretation any_source: data_source "source_ok rng" "\<lambda>source user. Source_Next rng source \<bar>user\<bar>" Source_Available for rng
proof
  fix s :: "'a Source" and user :: int and incoming
  assume ok: "source_ok rng s"
  show "source_ok rng (snd (Source_Next rng s \<bar>user\<bar>))"
    using ok csv.ok_next by (cases s) (auto simp: case_prod_unfold)
  show "set (gkeys (Source_Available (snd (Source_Next rng s \<bar>user\<bar>)))) = set (gkeys (Source_Available s))"
    using ok by (cases s) (simp_all add: case_prod_unfold csv.available_next synthetic.available_next)
  show "set (gkeys incoming) = set (gkeys (Source_Available s))" if "fst (Source_Next rng s \<bar>user\<bar>) = Inr incoming"
    using ok that by (cases s) (simp_all add: case_prod_unfold csv.provides synthetic.provides)
qed

text \<open>The sources during a run: drawn from by iterations and by per-use fields, in any order.\<close>

inductive sources_reach :: "'r rng \<Rightarrow> 'r Source list \<Rightarrow> 'r Source list \<Rightarrow> bool" for rng initial where
  Opened: "sources_reach rng initial initial"
| Drawn: "sources_reach rng initial sources \<Longrightarrow> index < length sources \<Longrightarrow> 0 \<le> user \<Longrightarrow>
    sources_reach rng initial (sources[index := snd (Source_Next rng (sources ! index) user)])"
| Used: "sources_reach rng initial sources \<Longrightarrow> index < length sources \<Longrightarrow> sources ! index = SyntheticSource source \<Longrightarrow>
    sources_reach rng initial (sources[index := SyntheticSource (snd (syn_generateOnce rng source field))])"

definition same_source :: "'r rng \<Rightarrow> 'r Source \<Rightarrow> 'r Source \<Rightarrow> bool" where
  "same_source rng a b \<longleftrightarrow> (source_ok rng a \<longrightarrow> source_ok rng b \<and> set (gkeys (Source_Available b)) = set (gkeys (Source_Available a)))"

lemma same_source_Next: "0 \<le> user \<Longrightarrow> same_source rng a b \<Longrightarrow> same_source rng a (snd (Source_Next rng b user))"
  using any_source.ok_next[of rng b user] any_source.available_next[of rng b user] by (simp add: same_source_def)

lemma same_source_Once:
  "same_source rng a (SyntheticSource source) \<Longrightarrow> same_source rng a (SyntheticSource (snd (syn_generateOnce rng source field)))"
  by (simp add: same_source_def syn_generateOnce_def Let_def syn_Available_keys syn_field_def split: option.splits)

lemma sources_reach_same: "sources_reach rng initial sources \<Longrightarrow> list_all2 (same_source rng) initial sources"
proof (induction rule: sources_reach.induct)
  case Opened
  show ?case by (simp add: list_all2_conv_all_nth same_source_def)
next
  case (Drawn sources index user)
  then show ?case by (auto simp: list_all2_conv_all_nth nth_list_update same_source_Next)
next
  case (Used sources index source field)
  then show ?case by (auto simp: list_all2_conv_all_nth nth_list_update intro: same_source_Once) (metis same_source_Once)
qed

lemma sources_reach_names:
  assumes "sources_reach rng initial sources" and "\<forall>source \<in> set initial. source_ok rng source"
  shows "set (available_names sources) = set (available_names initial)" "\<forall>source \<in> set sources. source_ok rng source"
proof -
  have same: "length sources = length initial" "same_source rng (initial ! i) (sources ! i)" if "i < length initial" for i
    using sources_reach_same[OF assms(1)] that by (auto simp: list_all2_conv_all_nth)
  have len: "length sources = length initial" using sources_reach_same[OF assms(1)] by (simp add: list_all2_lengthD)
  have each: "source_ok rng (sources ! i)" "set (gkeys (Source_Available (sources ! i))) = set (gkeys (Source_Available (initial ! i)))"
    if "i < length initial" for i
    using same(2)[OF that] assms(2) that by (simp_all add: same_source_def)
  show "\<forall>source \<in> set sources. source_ok rng source" using each(1) len by (auto simp: in_set_conv_nth)
  show "set (available_names sources) = set (available_names initial)"
    using each(2) len by (fastforce simp: available_names_def in_set_conv_nth)
qed

text \<open>Drawing from every source leaves a value under every announced name.\<close>

lemma vals_SetPerUse_foldl: "vals (foldl (\<lambda>v (name, field). SetPerUse v name (g field)) v entries) = vals v"
  by (induction entries arbitrary: v) (auto simp: SetPerUse_def)

lemma keys_SetAll: "set (gkeys (vals (SetAll v incoming))) = set (gkeys (vals v)) \<union> set (gkeys incoming)"
proof -
  have "set (gkeys (foldl (\<lambda>m (n, v). gput m n v) m incoming)) = set (gkeys m) \<union> set (gkeys incoming)" for m
    by (induction incoming arbitrary: m) (auto simp: gkeys_def[of "_ # _"] simp flip: gkeys_def)
  then show ?thesis by (simp add: SetAll_def)
qed

lemma draw_sources_provides:
  assumes "draw_sources host index remaining iteration v s = (Inr v', s')" and "0 \<le> iteration"
    and "index + remaining = length (Su_sources s)" and "\<forall>source \<in> set (Su_sources s). source_ok (Host_rng host) source"
  shows "set (gkeys (vals v)) \<union> (\<Union>i \<in> {index..<index + remaining}. set (gkeys (Source_Available (Su_sources s ! i)))) \<subseteq> set (gkeys (vals v'))"
  using assms(1,3,4)
proof (induction remaining arbitrary: index v s)
  case 0
  then show ?case by simp
next
  case (Suc remaining)
  obtain drawn source where n: "Source_Next (Host_rng host) (Su_sources s ! index) iteration = (drawn, source)" by fastforce
  let ?s = "s\<lparr>Su_sources := (Su_sources s)[index := source]\<rparr>"
  from Suc.prems n obtain incoming where drawn: "drawn = Inr incoming" by (cases drawn) (auto simp: Let_def)
  let ?v = "foldl (\<lambda>v (name, field). SetPerUse v name (index, field)) (SetAll v incoming) (Source_PerUse source)"
  have ok: "source_ok (Host_rng host) (Su_sources s ! index)" using Suc.prems by simp
  have keys: "set (gkeys incoming) = set (gkeys (Source_Available (Su_sources s ! index)))"
    using any_source.provides[OF ok, of iteration incoming] n drawn assms(2) by simp
  have "source_ok (Host_rng host) source" using any_source.ok_next[OF ok, of iteration] n assms(2) by simp
  then have "\<forall>source \<in> set (Su_sources ?s). source_ok (Host_rng host) source"
    using Suc.prems(3) set_update_subset_insert[of "Su_sources s" index source] by auto
  moreover have "draw_sources host (Suc index) remaining iteration ?v ?s = (Inr v', s')" using Suc.prems(1) n drawn by (simp add: Let_def)
  ultimately have "set (gkeys (vals ?v)) \<union> (\<Union>i \<in> {Suc index..<Suc index + remaining}. set (gkeys (Source_Available (Su_sources ?s ! i))))
      \<subseteq> set (gkeys (vals v'))"
    using Suc.prems(2) by (intro Suc.IH) simp_all
  moreover have "(\<Union>i \<in> {Suc index..<Suc index + remaining}. set (gkeys (Source_Available (Su_sources ?s ! i)))) =
      (\<Union>i \<in> {Suc index..<Suc index + remaining}. set (gkeys (Source_Available (Su_sources s ! i))))" by simp
  moreover have "set (gkeys (vals ?v)) = set (gkeys (vals v)) \<union> set (gkeys (Source_Available (Su_sources s ! index)))"
    by (simp add: vals_SetPerUse_foldl[of "\<lambda>field. (index, field)"] keys_SetAll keys)
  moreover have "{index..<index + Suc remaining} = insert index {Suc index..<Suc index + remaining}" by auto
  ultimately show ?case by auto
qed

lemma collect_fields_keep:
  "(source, field) \<in> set entries \<or> (\<exists>listed. gget m source = Some listed \<and> field \<in> set listed) \<Longrightarrow>
   \<exists>listed. gget (foldl collect_field m entries) source = Some listed \<and> field \<in> set listed"
proof (induction entries arbitrary: m)
  case (Cons entry entries)
  have "(source, field) \<in> set entries \<or> (\<exists>listed. gget (collect_field m entry) source = Some listed \<and> field \<in> set listed)"
    using Cons.prems by (auto simp: collect_field_def split: prod.splits)
  from Cons.IH[OF this] show ?case by simp
qed simp

definition reads_field :: "'c config_methods \<Rightarrow> 'c Spec \<Rightarrow> string \<Rightarrow> string \<Rightarrow> bool" where
  "reads_field methods spec source field \<longleftrightarrow>
    (\<exists>text \<in> set (collected_texts methods spec). \<exists>used \<in> set (referencesIn text). field_reference used = Some (source, field))"

lemma ReferencedFields_reads:
  assumes "reads_field methods spec source field"
  shows "\<exists>listed. (source, listed) \<in> set (ReferencedFields methods spec) \<and> field \<in> set listed"
proof -
  let ?entries = "List.map_filter field_reference (concat (map referencesIn (collected_texts methods spec)))"
  have "(source, field) \<in> set ?entries" using assms by (force simp: reads_field_def map_filter_def)
  then obtain listed where "gget (foldl collect_field [] ?entries) source = Some listed" "field \<in> set listed"
    using collect_fields_keep by blast
  then show ?thesis by (force simp: ReferencedFields_def Let_def dest: gget_in_set)
qed

lemma source_loop_None:
  "source_loop available referenced = None \<Longrightarrow> (source, listed) \<in> set referenced \<Longrightarrow> columnsOf available source \<noteq> [] \<Longrightarrow>
   field \<in> set listed \<Longrightarrow> source @ ''.'' @ field \<in> set available"
proof (induction available referenced rule: source_loop.induct)
  case (2 available source' listed' rest)
  have "set listed' \<subseteq> {f. source' @ ''.'' @ f \<in> set available}" if "field_loop available source' listed' = None"
    using that by (induction available source' listed' rule: field_loop.induct) (auto split: if_splits)
  with 2 show ?case by (auto split: if_splits option.splits)
qed simp

lemma columnsOf_found: "source @ ''.'' @ column \<in> set available \<Longrightarrow> CHR ''.'' \<notin> set source \<Longrightarrow> columnsOf available source \<noteq> []"
  using Cut_single[of "CHR ''.''" source column] by (force simp: columnsOf_def simp flip: set_empty2)

lemma field_reference_source: "field_reference used = Some (source, field) \<Longrightarrow> CHR ''.'' \<notin> set source"
  by (auto simp: field_reference_def split: prod.splits if_splits dest: Cut_char)

lemma openCSV_ok:
  assumes "openCSV rng source (Inr rows) = Inr opened" and "csv_shape rows"
  shows "csv_ok opened" "\<exists>column. Data_Name source @ ''.'' @ column \<in> set (gkeys (csv_Available opened))"
proof -
  from assms obtain header first rest where rows: "rows = header # first # rest"
    by (cases rows; cases "tl rows") (auto simp: openCSV_def split: if_splits)
  with assms show "csv_ok opened" by (auto simp: openCSV_def csv_ok_def csv_shape_def)
  from rows assms(2) obtain column columns where "header = column # columns" by (cases header) (auto simp: csv_shape_def)
  with rows assms(1) show "\<exists>column. Data_Name source @ ''.'' @ column \<in> set (gkeys (csv_Available opened))"
    by (auto simp: openCSV_def csv_Available_keys csv_field_def)
qed

lemma Open_ok:
  assumes "Open rng read source = Inr opened" and "\<And>file rows. read file = Inr rows \<Longrightarrow> csv_shape rows" and "rng_ranges rng"
  shows "source_ok rng opened \<and> (\<exists>column. Data_Name source @ ''.'' @ column \<in> set (gkeys (Source_Available opened)))"
proof (cases "Synthetic source")
  case True
  with assms(1) have fields: "Data_Fields source \<noteq> []" and opened: "opened = SyntheticSource \<lparr>syn_name = Data_Name source,
      syn_fields = Data_Fields source, syn_sortedNames = sort_Strings (gkeys (Data_Fields source)),
      syn_seed = seedOf source, syn_sequence = 0\<rparr>"
    by (auto simp: Open_def newSyntheticSource_def Let_def split: if_splits sum.splits)
  from fields obtain name where "name \<in> set (gkeys (Data_Fields source))" by (cases "Data_Fields source") (auto simp: gkeys_def)
  then show ?thesis by (auto simp: opened syn_Available_keys syn_field_def)
next
  case False
  with assms(1) obtain rows csv where rows: "read (Data_File source) = Inr rows" "openCSV rng source (Inr rows) = Inr csv" "opened = CsvSource csv"
    by (cases "read (Data_File source)") (auto simp: Open_def openCSV_def split: sum.splits)
  from openCSV_ok[OF rows(2) assms(2)[OF rows(1)]] assms(3) rows(3) show ?thesis by simp
qed

lemma open_sources_ok:
  assumes "open_sources rng read sources = Inr opened" and "\<And>file rows. read file = Inr rows \<Longrightarrow> csv_shape rows" and "rng_ranges rng"
  shows "(\<forall>source \<in> set opened. source_ok rng source)
    \<and> (\<forall>source \<in> set sources. \<exists>column. Data_Name source @ ''.'' @ column \<in> set (available_names opened))"
  using assms(1)
proof (induction sources arbitrary: opened)
  case (Cons source sources)
  from Cons.prems obtain first rest where opened: "Open rng read source = Inr first" "open_sources rng read sources = Inr rest" "opened = first # rest"
    by (auto split: sum.splits)
  have names: "set (available_names (first # rest)) = set (gkeys (Source_Available first)) \<union> set (available_names rest)"
    by (simp add: available_names_def)
  have "source_ok rng first \<and> (\<exists>column. Data_Name source @ ''.'' @ column \<in> set (gkeys (Source_Available first)))"
    using Open_ok[OF opened(1) _ assms(3)] assms(2) by blast
  with Cons.IH[OF opened(2)] show ?case unfolding opened(3) names list.set ball_simps Un_iff by blast
qed (simp add: available_names_def)

text \<open>C18. A field of a declared data source never becomes a blank in a request: once the engine accepted the scenario, every
  iteration that could draw its data starts with a value for each field the scenario reads, whatever the
  sources went through before it.\<close>

theorem fields_are_there:
  assumes accepted: "NewEngine pki read system host spec options w = (Inr engine, w')"
    and shape: "\<And>root file rows. read root file = Inr rows \<Longrightarrow> csv_shape rows" and ranges: "rng_ranges (Host_rng host)"
    and run: "sources_reach (Host_rng host) (En_sources engine) (Su_sources s)"
    and drawn: "draw_sources host 0 (length (Su_sources s)) iteration v s = (Inr v', s')" and "0 \<le> iteration"
    and reads: "reads_field (Host_methods host) spec source field"
    and declared: "\<exists>d \<in> set (Spec_Data spec). Data_Name d = source"
  shows "Value v' (source @ ''.'' @ field) \<noteq> None"
proof -
  let ?rng = "Host_rng host" and ?read = "read (Opt_DataRoot (with_defaults system options))"
  from accepted have opened: "open_sources ?rng ?read (Spec_Data spec) = Inr (En_sources engine)"
      and checked: "checkDataFields (Host_methods host) spec (En_sources engine) = None"
    by (auto simp: NewEngine_def Let_def split: sum.splits option.splits prod.splits)
  have ok: "\<forall>source \<in> set (En_sources engine). source_ok ?rng source"
      "\<forall>source \<in> set (Spec_Data spec). \<exists>column. Data_Name source @ ''.'' @ column \<in> set (available_names (En_sources engine))"
    using open_sources_ok[OF opened _ ranges] shape by blast+
  from reads have dot: "CHR ''.'' \<notin> set source" using field_reference_source by (auto simp: reads_field_def)
  from ok declared have "columnsOf (available_names (En_sources engine)) source \<noteq> []" using columnsOf_found[OF _ dot] by blast
  with ReferencedFields_reads[OF reads] checked have "source @ ''.'' @ field \<in> set (available_names (En_sources engine))"
    unfolding checkDataFields_def using source_loop_None by metis
  then have "source @ ''.'' @ field \<in> set (available_names (Su_sources s))"
    using sources_reach_names(1)[OF run] ok by blast
  then have "source @ ''.'' @ field \<in> (\<Union>i \<in> {0..<0 + length (Su_sources s)}. set (gkeys (Source_Available (Su_sources s ! i))))"
    by (auto simp: available_names_def in_set_conv_nth[where xs = "Su_sources s"] Bex_def)
  with draw_sources_provides[OF drawn \<open>0 \<le> iteration\<close> _ sources_reach_names(2)[OF run ok(1)]]
  have "source @ ''.'' @ field \<in> set (gkeys (vals v'))" by (simp only: add_0) blast
  then show ?thesis by (simp add: Value_def gget_None_iff)
qed

section \<open>A whole run\<close>

text \<open>
  What the collector did: the events of the run with the turns of the consumer anywhere between them.
\<close>

definition consumed_from :: "collector_event list \<Rightarrow> collector_event list \<Rightarrow> bool" where
  "consumed_from told events \<longleftrightarrow>
    filter (\<lambda>event. event \<noteq> EvConsume) events = filter (\<lambda>event. event \<noteq> EvConsume) told"

definition run_document :: "'h hdr \<Rightarrow> Environment \<Rightarrow> 'w Options \<Rightarrow> DocumentInput \<Rightarrow> collector_event list \<Rightarrow> 'h Document" where
  "run_document hdr environment options input events =
    BuildDocument hdr environment
      (Collector_Close hdr (foldl (collector_exec hdr) (NewCollector hdr (In_Start input) (Opt_LateThreshold options)) events)) input"

text \<open>The run changes the sources and the credential manager of the engine, never its scenario, plan and options.\<close>

definition after_run :: "('c, 'r, 'w) engine \<Rightarrow> ('c, 'r, 'w) engine \<Rightarrow> bool" where
  "after_run engine engine' \<longleftrightarrow> En_executor engine' = En_executor engine \<and> En_plan engine' = En_plan engine \<and> En_options engine' = En_options engine"

inductive open_execution :: "'h hdr \<Rightarrow> Environment \<Rightarrow> ('c, 'r, 'x, 'w) host \<Rightarrow> ('c, 'r, 'w) engine \<Rightarrow> (machine \<Rightarrow> bool) \<Rightarrow> machine \<Rightarrow>
    DocumentInput \<Rightarrow> 'h Document \<Rightarrow> bool" for hdr environment host engine cancelled m where
  OpenRun: "\<not> Closed (Spec_Load (Ex_scenario (En_executor engine))) \<Longrightarrow> time_Now m = (start, m1) \<Longrightarrow>
    open_reach host (En_executor engine) cancelled (En_plan engine) start (Opt_MaxInflight (En_options engine)) m1 d \<Longrightarrow> drive_ended d \<Longrightarrow>
    time_Now (Dr_world d) = (finish, m2) \<Longrightarrow> consumed_from (Dr_told d) events \<Longrightarrow> after_run engine engine' \<Longrightarrow>
    input = documentInput host engine' w start finish \<Longrightarrow> document = run_document hdr environment (En_options engine) input events \<Longrightarrow>
    open_execution hdr environment host engine cancelled m input document"

inductive closed_execution :: "'h hdr \<Rightarrow> Environment \<Rightarrow> ('c, 'r, 'x, 'w) host \<Rightarrow> ('c, 'r, 'w) engine \<Rightarrow> (machine \<Rightarrow> bool) \<Rightarrow> machine \<Rightarrow>
    DocumentInput \<Rightarrow> 'h Document \<Rightarrow> bool" for hdr environment host engine cancelled m where
  ClosedRun: "load = Spec_Load (Ex_scenario (En_executor engine)) \<Longrightarrow> Closed load \<Longrightarrow> time_Now m = (start, m1) \<Longrightarrow>
    closed_reach time_Now system_WaitUntil machine_moves (user_tells host (En_executor engine)) cancelled (start + Load_For load) (Load_ThinkTime load)
      (Load_Users load) m1 d \<Longrightarrow> closed_ended d \<Longrightarrow>
    time_Now (Cd_world d) = (finish, m2) \<Longrightarrow> consumed_from (Cd_told d) events \<Longrightarrow> after_run engine engine' \<Longrightarrow>
    input = documentInput host engine' w start finish \<Longrightarrow> document = run_document hdr environment (En_options engine) input events \<Longrightarrow>
    closed_execution hdr environment host engine cancelled m input document"

subsection \<open>From the events to the document\<close>

lemma consumed_tally: "consumed_from told events \<Longrightarrow> (\<Sum>event \<leftarrow> events. event_adds tally event) = (\<Sum>event \<leftarrow> told. event_adds tally event)"
proof -
  have "(\<Sum>event \<leftarrow> events. event_adds tally event) = (\<Sum>event \<leftarrow> filter (\<lambda>event. event \<noteq> EvConsume) events. event_adds tally event)" for events
    by (induction events) (cases tally; auto)+
  from this[of events] this[of told] show "consumed_from told events \<Longrightarrow> ?thesis" by (simp add: consumed_from_def)
qed

lemma apply_sample_peak [simp]: "Co_PeakInflight (apply_sample hdr c sample) = Co_PeakInflight c"
  by (simp add: apply_sample_def bucketDe_def updateBucket_def recordInAggregate_def Let_def split: option.splits)

lemma Close_counts [simp]:
  "Co_Sent (Collector_Close hdr c) = Co_Sent c" "Co_DroppedByInflightLimit (Collector_Close hdr c) = Co_DroppedByInflightLimit c"
  "Co_JourneysStarted (Collector_Close hdr c) = Co_JourneysStarted c" "Co_PeakInflight (Collector_Close hdr c) = Co_PeakInflight c"
proof -
  have "Co_Sent (foldl (apply_sample hdr) c samples) = Co_Sent c \<and> Co_DroppedByInflightLimit (foldl (apply_sample hdr) c samples) = Co_DroppedByInflightLimit c
      \<and> Co_JourneysStarted (foldl (apply_sample hdr) c samples) = Co_JourneysStarted c \<and> Co_PeakInflight (foldl (apply_sample hdr) c samples) = Co_PeakInflight c" for c samples
    by (induction samples arbitrary: c) simp_all
  then show "Co_Sent (Collector_Close hdr c) = Co_Sent c" "Co_DroppedByInflightLimit (Collector_Close hdr c) = Co_DroppedByInflightLimit c"
      "Co_JourneysStarted (Collector_Close hdr c) = Co_JourneysStarted c" "Co_PeakInflight (Collector_Close hdr c) = Co_PeakInflight c"
    by (simp_all add: Collector_Close_def Let_def)
qed

lemma run_peak:
  assumes "\<forall>event \<in> set events. \<forall>s t r i. event = EvDispatch s t r i \<longrightarrow> i \<le> bound" and "Co_PeakInflight c \<le> bound"
  shows "Co_PeakInflight (foldl (collector_exec hdr) c events) \<le> bound"
  using assms
proof (induction events arbitrary: c)
  case (Cons event events)
  have "Co_PeakInflight (collector_exec hdr c event) \<le> bound"
    using Cons.prems
    by (cases event) (auto simp: Collector_Record_def consume_def RecordDispatch_def RecordJourney_def recordUses_def RecordInflightDrop_def
        bucketDe_def updateBucket_def Let_def split: list.splits option.splits)
  with Cons show ?case by simp
qed simp

lemma NewCollector_run: "foldl (collector_exec hdr) (NewCollector hdr start threshold) events = run_collector hdr start threshold 16384 events"
  by (simp add: NewCollector_def)

lemma run_document_counts:
  assumes "consumed_from told events" and "document = run_document hdr environment options input events"
  shows "Sch_Sent (Doc_Scheduling document) = (\<Sum>event \<leftarrow> told. event_adds Dispatched event)"
    "Sch_DroppedByInflightLimit (Doc_Scheduling document) = (\<Sum>event \<leftarrow> told. event_adds Dropped event)"
    "J_Started (Doc_Journey document) = (\<Sum>event \<leftarrow> told. event_adds JourneysBegun event)"
    "Doc_Run document = buildRun input"
proof -
  let ?c = "run_collector hdr (In_Start input) (Opt_LateThreshold options) 16384 events"
  have tally: "tally_of i ?c = (\<Sum>event \<leftarrow> told. event_adds i event)" for i
    unfolding run_tally consumed_tally[OF assms(1)] by (rule refl)
  show "Sch_Sent (Doc_Scheduling document) = (\<Sum>event \<leftarrow> told. event_adds Dispatched event)"
    "Sch_DroppedByInflightLimit (Doc_Scheduling document) = (\<Sum>event \<leftarrow> told. event_adds Dropped event)"
    using tally[of Dispatched] tally[of Dropped]
    by (simp_all add: assms(2) run_document_def NewCollector_run BuildDocument_fields buildScheduling_def)
  show "J_Started (Doc_Journey document) = (\<Sum>event \<leftarrow> told. event_adds JourneysBegun event)"
    using tally[of JourneysBegun]
    by (simp add: assms(2) run_document_def NewCollector_run BuildDocument_def uncheckedDocument_def draftDocument_def dropCorrectedLatency_def Let_def)
  show "Doc_Run document = buildRun input" by (simp add: assms(2) run_document_def BuildDocument_fields)
qed

lemma run_document_peak:
  assumes "consumed_from told events" and "document = run_document hdr environment options input events"
    and "\<forall>s t r i. EvDispatch s t r i \<in> set told \<longrightarrow> i \<le> bound" and "0 \<le> bound"
  shows "Sch_PeakInflight (Doc_Scheduling document) \<le> bound"
proof -
  have "set (filter (\<lambda>event. event \<noteq> EvConsume) events) = set (filter (\<lambda>event. event \<noteq> EvConsume) told)"
    using assms(1) unfolding consumed_from_def by (rule arg_cong)
  then have "EvDispatch s t r i \<in> set events \<longleftrightarrow> EvDispatch s t r i \<in> set told" for s t r i
    unfolding set_eq_iff set_filter mem_Collect_eq by (elim allE[of _ "EvDispatch s t r i"]) simp
  then have "\<forall>event \<in> set events. \<forall>s t r i. event = EvDispatch s t r i \<longrightarrow> i \<le> bound" using assms(3) by blast
  from run_peak[OF this, of "NewCollector hdr (In_Start input) (Opt_LateThreshold options)" hdr] assms(4)
  show ?thesis
    by (simp add: assms(2) run_document_def BuildDocument_fields buildScheduling_def NewCollector_def NewCollectorWithCapacity_def)
qed

subsection \<open>From the driver to the events\<close>

lemma journeys_of_sum: "(\<Sum>event \<leftarrow> events. event_adds JourneysBegun event) = int (length (journeys_of events))"
proof (induction events)
  case (Cons event events)
  then show ?case by (cases event) (simp_all add: journeys_of_def map_filter_def)
qed (simp add: journeys_of_def map_filter_def)

lemma engine_tells_journey: "engine_tells host executor index scheduled events \<Longrightarrow> (\<Sum>event \<leftarrow> events. event_adds JourneysBegun event) \<le> 1"
proof -
  assume "engine_tells host executor index scheduled events"
  then obtain manager s manager' s' where "runIteration host executor index index scheduled manager s = (manager', s')" "Su_told s' = Su_told s @ events"
    by (auto simp: engine_tells_def)
  with runIteration_outcome[of host executor index index scheduled manager s] show ?thesis by (auto simp: journeys_of_sum)
qed

definition journeys_left :: "'w drive \<Rightarrow> int" where
  "journeys_left d = (\<Sum>(index, events) \<leftarrow> Dr_pending d. \<Sum>event \<leftarrow> events. event_adds JourneysBegun event)"

lemma journeys_left_nonneg: "0 \<le> journeys_left d"
proof -
  have adds: "0 \<le> event_adds JourneysBegun event" for event by (cases event) simp_all
  show ?thesis unfolding journeys_left_def by (rule sum_list_nonneg) (auto intro!: sum_list_nonneg adds)
qed

lemma open_reach_journeys:
  assumes "open_reach host executor cancelled plan start maxInflight m d"
  shows "(\<Sum>event \<leftarrow> Dr_told d. event_adds JourneysBegun event) + journeys_left d \<le> (\<Sum>event \<leftarrow> Dr_told d. event_adds Dispatched event)
    \<and> (\<forall>s t r i. EvDispatch s t r i \<in> set (Dr_told d) \<longrightarrow> i \<le> max 0 maxInflight)"
  using assms
proof (induction rule: drive_reach.induct)
  case Init
  show ?case by (simp add: drive_start_def journeys_left_def)
next
  case (Step d d')
  note inv = machine_run.drive_reach_inv[OF Step(1)]
  from Step(2) show ?case
  proof cases
    case (Dispatch offset scheduled w1 dispatch w2 events)
    with Step.IH engine_tells_journey[OF Dispatch(10)] show ?thesis by (auto simp: journeys_left_def)
  next
    case (Tell before index event events after w)
    then have "event_adds Dispatched event = 0" using inv by (auto simp: machine_run.drive_inv_def)
    then have "event_adds Dispatched event = 0 \<and> (\<forall>s t r i. event \<noteq> EvDispatch s t r i)" by auto
    with Tell Step.IH show ?thesis by (auto simp: journeys_left_def)
  qed (use Step.IH in \<open>auto simp: journeys_left_def\<close>)
qed

lemma closed_reach_deadline:
  assumes "closed_reach time_Now system_WaitUntil machine_moves tells cancelled deadline thinkTime users m d"
    and "\<And>w. \<not> cancelled w"
  shows "Cd_gone d \<noteq> [] \<longrightarrow> deadline \<le> mc_wall (Cd_world d)"
  using assms(1)
proof (induction rule: closed_reach.induct)
  case ClosedInit
  show ?case by (simp add: closed_start_def)
next
  case (ClosedStep d d')
  from ClosedStep(2) have "mc_wall (Cd_world d) \<le> mc_wall (Cd_world d') \<and> (Cd_gone d' = Cd_gone d \<or> deadline \<le> mc_wall (Cd_world d'))"
  proof cases
    case (Begin before user after t w1 scheduled w2 events)
    with system.now_reads[OF Begin(4)] system.now_reads[OF Begin(6)] show ?thesis by simp
  next
    case (Deadline before user after t w1)
    with system.now_reads[OF Deadline(4)] show ?thesis by simp
  next
    case (Think before user after t w1)
    with system.now_reads[OF Think(4)] show ?thesis by simp
  next
    case (Wake before user until after w1)
    with system.wait_reaches[OF Wake(3)] show ?thesis by simp
  qed (use assms(2) in \<open>auto simp: machine_moves_def\<close>)
  with ClosedStep.IH show ?case by auto
qed

section \<open>Properties\<close>

text \<open>C10. The document of an open run accounts for the plan: no more requests than planned were sent or dropped, no more
  journeys started than requests were sent, and no more were ever in flight than the limit allows; and
  when the run was not cancelled, every request of the plan was sent or counted as dropped, so the run is
  never declared shorter than its plan.\<close>

theorem open_run_accounts_for_the_plan:
  assumes "open_execution hdr environment host engine cancelled m input document"
  shows "let scheduling = Doc_Scheduling document; total = max 0 (totalRequests (En_plan engine))
    in Sch_Sent scheduling + Sch_DroppedByInflightLimit scheduling \<le> total \<and> J_Started (Doc_Journey document) \<le> Sch_Sent scheduling
      \<and> Sch_PeakInflight scheduling \<le> max 0 (Opt_MaxInflight (En_options engine))
      \<and> ((\<forall>w. \<not> cancelled w) \<longrightarrow>
          Sch_Sent scheduling + Sch_DroppedByInflightLimit scheduling = total \<and> runShorterThanPlan document input = [])"
  using assms
proof cases
  case (OpenRun start m1 d finish m2 events engine' w)
  note inv = machine_run.drive_reach_inv[OF OpenRun(3), unfolded machine_run.drive_inv_def]
  note counts = run_document_counts[OF OpenRun(6,9)]
  note journeys = open_reach_journeys[OF OpenRun(3)]
  have "Dr_index d = max 0 (totalRequests (En_plan engine))" if "\<forall>w. \<not> cancelled w"
    using machine_run.drive_complete[OF OpenRun(3)] OpenRun(4) inv that by (auto simp: drive_ended_def)
  then have whole: "Sch_Sent (Doc_Scheduling document) + Sch_DroppedByInflightLimit (Doc_Scheduling document) = max 0 (totalRequests (En_plan engine))"
    if "\<forall>w. \<not> cancelled w" using counts inv that by simp
  have "Load_Model (Spec_Load (Ex_scenario (En_executor engine'))) = OpenArrival"
    using OpenRun(1,7) by (cases "Load_Model (Spec_Load (Ex_scenario (En_executor engine)))") (auto simp: Closed_def after_run_def)
  then have "\<not> Doc_Closed document" "In_PlannedRequests input = totalRequests (En_plan engine)"
    using counts(4) OpenRun(7,8) by (simp_all add: Doc_Closed_def ClosedModel_def buildRun_def documentInput_def after_run_def Let_def)
  moreover have "99 * n sdiv 100 \<le> n" if "0 < n" for n :: int using that by (simp add: signed_divide_int_def)
  ultimately have "runShorterThanPlan document input = []" if "\<forall>w. \<not> cancelled w"
    using whole[OF that] unfolding runShorterThanPlan_iff load_applied_def by (simp add: appliedRequests_def)
  moreover have "Sch_PeakInflight (Doc_Scheduling document) \<le> max 0 (Opt_MaxInflight (En_options engine))"
    using run_document_peak[OF OpenRun(6,9)] journeys by simp
  ultimately show ?thesis
    using whole counts inv journeys journeys_left_nonneg[of d] by (auto simp: Let_def)
qed

text \<open>In the closed model a run that was not cancelled lasts its declared window: with at least one user and a window of at
  least a tenth of a second it is never declared shorter than its plan, and it never claims that anything
  was dispatched or dropped.\<close>

theorem closed_run_lasts_its_window:
  assumes "closed_execution hdr environment host engine cancelled m input document"
    and "NewEngine pki read system host' spec options w = (Inr engine, w')"
    and "\<forall>w. \<not> cancelled w" and "0 < Load_Users (Spec_Load spec)" and "100 * Millisecond \<le> Load_For (Spec_Load spec)"
  shows "runShorterThanPlan document input = [] \<and> Sch_Sent (Doc_Scheduling document) = 0 \<and> Sch_DroppedByInflightLimit (Doc_Scheduling document) = 0"
  using assms(1)
proof cases
  case (ClosedRun load start m1 d finish m2 events engine' w0)
  have built: "Ex_scenario (En_executor engine) = spec" "En_plan engine = CompilePlan (Spec_Load spec)"
    using assms(2) by (auto simp: NewEngine_def Let_def split: sum.splits option.splits prod.splits)
  note counts = run_document_counts[OF ClosedRun(7,10)]
  note inv = closed_reach_inv[OF ClosedRun(4)]
  have "mset (Cd_gone d) = mset [0..Load_Users load - 1]" using inv ClosedRun(5) by (auto simp: closed_ended_def closed_users_def)
  then have "Cd_gone d \<noteq> []" using assms(4) ClosedRun(1) built(1) by (auto dest: mset_eq_length)
  with closed_reach_deadline[OF ClosedRun(4)] assms(3) have "start + Load_For load \<le> mc_wall (Cd_world d)" by simp
  with system.now_reads[OF ClosedRun(6)] have "Load_For load \<le> finish - start" by simp
  moreover have "x - 1000000 \<le> Milliseconds x * 1000000" if "0 \<le> x" for x
  proof -
    have "Milliseconds x = x div 1000000" using that by (cases "x = 0") (simp_all add: Milliseconds_def signed_divide_int_def)
    then show ?thesis by presburger
  qed
  ultimately have long: "Load_For load - 1000000 \<le> Milliseconds (finish - start) * 1000000"
    using assms(5) ClosedRun(1) built(1) by (smt (verit))
  have input: "In_PlannedRequests input = 0" "In_PlannedDuration input = Load_For load" "In_End input - In_Start input = finish - start"
    using ClosedRun(1,2,8,9) built by (simp_all add: documentInput_def after_run_def CompilePlan_def Let_def)
  have "99 * n sdiv 100 \<le> n - 1000000" if "100000000 \<le> n" for n :: int using that by (simp add: signed_divide_int_def)
  then have "runShorterThanPlan document input = []"
    using long input assms(5) ClosedRun(1) built(1) counts(4) unfolding runShorterThanPlan_iff load_applied_def buildRun_def by fastforce
  moreover have "(\<Sum>event \<leftarrow> Cd_told d. event_adds tally event) = 0" if "tally \<in> {Dispatched, Dropped}" for tally
  proof -
    have "map (event_adds tally) (Cd_told d) = map (\<lambda>_. 0) (Cd_told d)" using inv that by (auto simp: quiet_event_def)
    then show ?thesis by (metis sum_list_0)
  qed
  ultimately show ?thesis using counts by simp
qed

section \<open>Witnesses\<close>

definition example_orders :: DataSource where
  "example_orders = \<lparr>Data_Name = ''orders'', Data_File = '''', Data_Consume = ConsumeCircular, Data_Seed = 0, Data_SeedFrom = '''',
     Data_Fields = [(''id'', \<lparr>Gen_Recipe = ''sequence'', Gen_Format = '''', Gen_PerUse = False\<rparr>)]\<rparr>"

definition example_reading :: "unit Spec" where
  "example_reading = example_mix\<lparr>Spec_Target := ''http://t/${orders.id}'', Spec_Data := [example_orders]\<rparr>"

definition no_files :: "string \<Rightarrow> string \<Rightarrow> data_error + string list list" where
  "no_files dir file = Inl (CannotOpen file)"

definition no_certificates :: "(string \<times> string) pki" where
  "no_certificates = \<lparr>pki_ReadFile = Inl, pki_AppendCertsFromPEM = (\<lambda>_. False), pki_LoadX509KeyPair = (\<lambda>_ _. Inl '''')\<rparr>"

definition example_options :: "VirtualClock Options" where
  "example_options = (DefaultOptions (Host_clock example_host))\<lparr>Opt_MaxInflight := 1\<rparr>"

definition example_new :: "unit Spec \<Rightarrow> (engine_error + (unit, nat, VirtualClock) engine) \<times> VirtualClock" where
  "example_new spec = NewEngine no_certificates no_files (Host_clock example_host) example_host spec example_options (NewVirtualClock 0)"

definition example_built :: "(unit, nat, VirtualClock) engine" where
  "example_built = projr (fst (example_new example_reading))"

lemma example_accepted: "example_new example_reading = (Inr example_built, NewVirtualClock 0)"
proof -
  have "\<not> isl (fst (example_new example_reading))" "snd (example_new example_reading) = NewVirtualClock 0" by code_simp+
  then show ?thesis by (cases "example_new example_reading") (auto simp: example_built_def)
qed

lemma example_reads: "reads_field (Host_methods example_host) example_reading ''orders'' ''id''"
proof -
  have "list_ex (\<lambda>text. list_ex (\<lambda>used. field_reference used = Some (''orders'', ''id'')) (referencesIn text))
    (collected_texts (Host_methods example_host) example_reading)" by code_simp
  then show ?thesis by (simp add: reads_field_def list_ex_iff)
qed

theorem fields_are_there_witness:
  "\<exists>v' s'. draw_sources example_host 0 1 4 (New 4 4 []) (example_surroundings\<lparr>Su_sources := En_sources example_built\<rparr>) = (Inr v', s')
    \<and> Value v' ''orders.id'' \<noteq> None"
proof -
  let ?s = "example_surroundings\<lparr>Su_sources := En_sources example_built\<rparr>"
  have "\<not> isl (fst (draw_sources example_host 0 1 4 (New 4 4 []) ?s))" "length (En_sources example_built) = 1" by code_simp+
  then obtain v' s' where drawn: "draw_sources example_host 0 (length (Su_sources ?s)) 4 (New 4 4 []) ?s = (Inr v', s')"
    and len: "length (Su_sources ?s) = 1"
    by (cases "draw_sources example_host 0 1 4 (New 4 4 []) ?s"; cases "fst (draw_sources example_host 0 1 4 (New 4 4 []) ?s)") auto
  have "Value v' (''orders'' @ ''.'' @ ''id'') \<noteq> None"
    by (rule fields_are_there[OF example_accepted[unfolded example_new_def] _ _ _ drawn _ example_reads])
      (simp_all add: no_files_def example_host_def counting_rng_ranges Opened example_reading_def example_orders_def)
  with drawn len show ?thesis by auto
qed

definition example_open :: "(unit, nat, VirtualClock) engine" where
  "example_open = example_built\<lparr>En_executor := example_executor, En_plan := example_plan\<rparr>"

theorem open_run_accounts_for_the_plan_witness:
  "\<exists>input document. open_execution values_hdr example_machine example_host example_open (\<lambda>_. False) example_clockwork input document
    \<and> Sch_Sent (Doc_Scheduling document) + Sch_DroppedByInflightLimit (Doc_Scheduling document) = 1"
proof -
  obtain start m1 where starts: "time_Now example_clockwork = (start, m1)" by fastforce
  have "keeps_ticking m1" using system.now_keeps_live[OF starts example_clockwork_ticks] .
  with drive_reaches_end[OF Init] obtain d where d: "open_reach example_host (En_executor example_open) (\<lambda>_. False) (En_plan example_open) start
      (Opt_MaxInflight (En_options example_open)) m1 d" "drive_ended d" by blast
  obtain finish m2 where finish: "time_Now (Dr_world d) = (finish, m2)" by fastforce
  let ?input = "documentInput example_host example_open (NewVirtualClock 0) start finish"
  have "open_execution values_hdr example_machine example_host example_open (\<lambda>_. False) example_clockwork ?input
      (run_document values_hdr example_machine (En_options example_open) ?input (Dr_told d))"
    by (rule OpenRun[OF _ starts d finish]) (simp_all add: consumed_from_def after_run_def example_open_def example_executor_def example_mix_def Closed_def)
  moreover from open_run_accounts_for_the_plan[OF this] have "Sch_Sent (Doc_Scheduling (run_document values_hdr example_machine (En_options example_open) ?input (Dr_told d)))
      + Sch_DroppedByInflightLimit (Doc_Scheduling (run_document values_hdr example_machine (En_options example_open) ?input (Dr_told d))) = 1"
    by (simp add: Let_def example_open_def example_plan_one)
  ultimately show ?thesis by blast
qed

definition slow_clockwork :: machine where
  "slow_clockwork = \<lparr>mc_wall = 0, mc_actions = 0, mc_elapsed = (\<lambda>_. 100000000)\<rparr>"

definition example_closed_spec :: "unit Spec" where
  "example_closed_spec = example_mix\<lparr>Spec_Load := \<lparr>Load_Model = ClosedArrival, Load_Phases = [], Load_Users = 1, Load_For = 100000000, Load_ThinkTime = 0\<rparr>\<rparr>"

lemma example_closed_built:
  "\<exists>engine. example_new example_closed_spec = (Inr engine, NewVirtualClock 0) \<and> Ex_scenario (En_executor engine) = example_closed_spec"
  by (simp add: example_new_def NewEngine_def example_closed_spec_def example_mix_def checkDataFields_def available_names_def applyTLS_def
      ReferencedFields_def collected_texts_def config_texts_def example_step_def referencesIn_def Let_def map_filter_def)

theorem closed_run_lasts_its_window_witness:
  "\<exists>engine input document. closed_execution values_hdr example_machine example_host engine (\<lambda>_. False) slow_clockwork input document
    \<and> runShorterThanPlan document input = []"
proof -
  from example_closed_built obtain engine where built: "example_new example_closed_spec = (Inr engine, NewVirtualClock 0)"
    "Ex_scenario (En_executor engine) = example_closed_spec" by blast
  let ?m = "\<lambda>k. slow_clockwork\<lparr>mc_wall := 100000000 * int k, mc_actions := k\<rparr>"
  let ?start = "closed_start 1 (?m 1)"
  let ?reach = "closed_reach time_Now system_WaitUntil machine_moves (user_tells example_host (En_executor engine)) (\<lambda>_. False) (100000000 + 100000000) 0 1 (?m 1)"
  have now: "time_Now slow_clockwork = (100000000, ?m 1)" "time_Now (?m 1) = (200000000, ?m 2)" "time_Now (?m 2) = (300000000, ?m 3)"
    by (simp_all add: time_Now_def slow_clockwork_def Let_def)
  have "?reach (?start\<lparr>Cd_idle := [] @ [], Cd_gone := Cd_gone ?start @ [0], Cd_world := ?m 2\<rparr>)"
    by (rule ClosedStep[OF ClosedInit], rule Deadline[where before = "[]" and after = "[]" and user = 0 and t = 200000000])
      (use now(2) in \<open>simp_all add: closed_start_def\<close>)
  then have reach: "?reach \<lparr>Cd_idle = [], Cd_running = [], Cd_thinking = [], Cd_gone = [0], Cd_iterations = 0, Cd_told = [], Cd_world = ?m 2\<rparr>"
    by (simp add: closed_start_def)
  let ?input = "documentInput example_host engine (NewVirtualClock 0) 100000000 300000000"
  have "closed_execution values_hdr example_machine example_host engine (\<lambda>_. False) slow_clockwork ?input
      (run_document values_hdr example_machine (En_options engine) ?input [])"
    by (rule ClosedRun[where d = "\<lparr>Cd_idle = [], Cd_running = [], Cd_thinking = [], Cd_gone = [0], Cd_iterations = 0, Cd_told = [], Cd_world = ?m 2\<rparr>",
          OF refl _ now(1)])
      (use reach now(3) built(2) in \<open>simp_all add: example_closed_spec_def Closed_def closed_ended_def consumed_from_def after_run_def\<close>)
  moreover from closed_run_lasts_its_window[OF this built(1)[unfolded example_new_def]]
  have "runShorterThanPlan (run_document values_hdr example_machine (En_options engine) ?input []) ?input = []"
    by (simp add: example_closed_spec_def)
  ultimately show ?thesis by blast
qed

end
