(* ===== verification/Runner.thy ===== *)
theory Runner
  imports Engine Slo
begin

text \<open>
  Where a scenario becomes a result (\<open>internal/runner/runner.go\<close>): the refusals before a run, the gate after
  it and the exit code, the iteration of debug mode, what a valid scenario says about itself and the reading
  of a result from disk. Parsing a scenario, decoding a result and the run itself are arguments; a run is
  what \<open>open_execution\<close> and \<open>closed_execution\<close> of the engine may produce. Writing the JSON, HTML and CSV files
  is output and is left out. Proved: what each exit code means.
\<close>

section \<open>Faults and exit codes\<close>

definition ExitPassed :: int where "ExitPassed = 0"
definition ExitSLO :: int where "ExitSLO = 1"
definition ExitBadFile :: int where "ExitBadFile = 2"
definition ExitInvalid :: int where "ExitInvalid = 3"

lemmas exit_codes = ExitPassed_def ExitSLO_def ExitBadFile_def ExitInvalid_def

datatype fault_message = Told sentence | Problems "problem list" | EngineSays engine_error | DebugSays debug_error

record Fault =
  Fault_Exit :: int
  Fault_Message :: fault_message

definition badFile :: "fault_message \<Rightarrow> Fault" where
  "badFile message = \<lparr>Fault_Exit = ExitBadFile, Fault_Message = message\<rparr>"

record runner_Options =
  RO_Version :: string
  RO_MaxInflight :: int
  RO_LateThreshold :: Duration
  RO_BaselinePath :: string
  RO_Environment :: "(string, string) gomap"

definition runner_DefaultOptions :: "string \<Rightarrow> runner_Options" where
  "runner_DefaultOptions version =
    \<lparr>RO_Version = version, RO_MaxInflight = 20000, RO_LateThreshold = 10 * Millisecond, RO_BaselinePath = '''', RO_Environment = []\<rparr>"

section \<open>Before a run\<close>

definition RequireEnvironment :: "'c Spec \<Rightarrow> Fault option" where
  "RequireEnvironment spec =
    (case Spec_MissingEnvironment spec of [] \<Rightarrow> None
     | first # rest \<Rightarrow> Some \<lparr>Fault_Exit = ExitBadFile, Fault_Message = Told (Sprintf
         (''the scenario uses %s, and that variable is not in the environment: the field would come out empty and the target would answer with an error that explains nothing.'' @ nl
          @ ''    run with:  %s=... braunrate execute scenario.yaml'' @ nl
          @ ''    or declare a fallback in the scenario itself:  variables: { %s: \"${%s:-value}\" }'')
         [ArgS (Join (first # rest) '', ''), ArgS first, ArgS (ToLower first), ArgS first])\<rparr>)"

text \<open>\<open>Check\<close>: what parsing the text gave, validated.\<close>

definition Check :: "'c config_methods \<Rightarrow> environ \<Rightarrow> (string \<Rightarrow> (string \<times> string) option) \<Rightarrow> sentence + 'c Spec \<Rightarrow> Fault + 'c Spec \<times> Plan" where
  "Check methods env parse_url parsed =
    (case parsed of
       Inl err \<Rightarrow> Inl (badFile (Told (Sprintf ''error in the scenario: %v'' [ArgM err])))
     | Inr spec \<Rightarrow>
         case Validate methods env parse_url spec of
           Some problems \<Rightarrow> Inl (badFile (Problems problems))
         | None \<Rightarrow> Inr (spec, CompilePlan (Spec_Load spec)))"

definition engine_options :: "'w Clock \<Rightarrow> runner_Options \<Rightarrow> string \<Rightarrow> 'w Options" where
  "engine_options system options dataRoot =
    (DefaultOptions system)\<lparr>Opt_Version := RO_Version options, Opt_MaxInflight := RO_MaxInflight options,
       Opt_LateThreshold := RO_LateThreshold options, Opt_DataRoot := dataRoot\<rparr>"

text \<open>Everything \<open>ExecuteSpec\<close> does before the load: supply the session values, validate, refuse what is missing, build the engine.\<close>

definition prepare_run :: "(string \<times> string) pki \<Rightarrow> (string \<Rightarrow> string \<Rightarrow> data_error + string list list) \<Rightarrow> 'w Clock \<Rightarrow> ('c, 'r, 'x, 'w) host \<Rightarrow>
    (string \<Rightarrow> (string \<times> string) option) \<Rightarrow> 'c Spec \<Rightarrow> string \<Rightarrow> runner_Options \<Rightarrow> 'w \<Rightarrow> (Fault + 'c Spec \<times> ('c, 'r, 'w) engine) \<times> 'w" where
  "prepare_run pki read system host parse_url spec dataRoot options w =
    (let spec = ResolveWith (RO_Environment options) spec
     in case Validate (Host_methods host) (Host_env host) parse_url spec of
          Some problems \<Rightarrow> (Inl (badFile (Problems problems)), w)
        | None \<Rightarrow>
            case RequireEnvironment spec of
              Some fault \<Rightarrow> (Inl fault, w)
            | None \<Rightarrow>
                (case NewEngine pki read system host spec (engine_options system options dataRoot) w of
                   (Inl err, w) \<Rightarrow> (Inl (badFile (EngineSays err)), w)
                 | (Inr engine, w) \<Rightarrow> (Inr (spec, engine), w)))"

section \<open>After a run\<close>

text \<open>\<open>ReadDocument\<close>: \<open>file\<close> is the content or why it cannot be read, \<open>decode\<close> is \<open>json.Unmarshal\<close> of a result.\<close>

definition ReadableResultFormats :: "string list" where "ReadableResultFormats = [''3'', ''4'']"

definition ReadDocument :: "(string \<Rightarrow> string + 'h Document) \<Rightarrow> string \<Rightarrow> string + string \<Rightarrow> sentence + 'h Document" where
  "ReadDocument decode path file =
    (case file of
       Inl err \<Rightarrow> Inl (Sprintf ''could not read %s: %v'' [ArgS path, ArgS err])
     | Inr content \<Rightarrow>
         case decode content of
           Inl err \<Rightarrow> Inl (Sprintf ''%s is not a braunrate result: %v'' [ArgS path, ArgS err])
         | Inr document \<Rightarrow>
             if Doc_Tool document = '''' \<and> Contains content (Quote ''ferramenta'')
             then Inl (Sprintf (''%s was written by braunrate 0.5.0, whose result fields were in Portuguese.'' @ nl
                    @ ''    run the scenario again with this version to get a result in the current format'') [ArgS path])
             else if Doc_Tool document \<noteq> ''braunrate''
             then Inl (Sprintf ''%s was not generated by braunrate; use the file from -result'' [ArgS path])
             else if Doc_FormatVersion document \<notin> set ReadableResultFormats
             then Inl (Sprintf ''%s is in result format %q and this version reads the formats %s''
                    [ArgS path, ArgS (Doc_FormatVersion document), ArgS (Join ReadableResultFormats '', '')])
             else Inr document)"

definition verdict :: "'h Document \<Rightarrow> int" where
  "verdict document =
    (if \<not> Valid document then ExitInvalid else if \<not> Ver_Passed (Doc_SLO document) then ExitSLO else ExitPassed)"

record ('c, 'h) Result =
  Res_Spec :: "'c Spec"
  Res_Plan :: Plan
  Res_Document :: "'h Document"
  Res_Exit :: int

definition gate :: "'c Spec \<Rightarrow> 'h Document \<Rightarrow> Baseline option \<Rightarrow> 'h Document" where
  "gate spec document baseline =
    (if Valid document then document\<lparr>Doc_SLO := Evaluate (Spec_SLO spec) document baseline\<rparr> else document)"

definition baseline_of :: "(string \<Rightarrow> string + 'h Document) \<Rightarrow> (string \<Rightarrow> string + string) \<Rightarrow> string \<Rightarrow> 'h Document \<Rightarrow> sentence + Baseline option" where
  "baseline_of decode files path document =
    (if path = '''' then Inr None
     else case ReadDocument decode path (files path) of
         Inl err \<Rightarrow> Inl err
       | Inr before \<Rightarrow> Inr (Some \<lparr>Base_Comparison = Compare before document, Base_Path = path\<rparr>))"

text \<open>\<open>ExecuteSpec\<close> with \<open>execute\<close> for the run of the engine: the result, and the fault that came with it if there is one.\<close>

definition ExecuteSpec :: "(string \<times> string) pki \<Rightarrow> (string \<Rightarrow> string \<Rightarrow> data_error + string list list) \<Rightarrow> 'w Clock \<Rightarrow> ('c, 'r, 'x, 'w) host \<Rightarrow>
    (string \<Rightarrow> (string \<times> string) option) \<Rightarrow> (('c, 'r, 'w) engine \<Rightarrow> 'w \<Rightarrow> 'h Document \<times> 'w) \<Rightarrow> (string \<Rightarrow> string + 'h Document) \<Rightarrow>
    (string \<Rightarrow> string + string) \<Rightarrow> 'c Spec \<Rightarrow> string \<Rightarrow> runner_Options \<Rightarrow> 'w \<Rightarrow> ('c, 'h) Result option \<times> Fault option \<times> 'w" where
  "ExecuteSpec pki read system host parse_url execute decode files spec dataRoot options w =
    (case prepare_run pki read system host parse_url spec dataRoot options w of
       (Inl fault, w) \<Rightarrow> (None, Some fault, w)
     | (Inr (spec, engine), w) \<Rightarrow>
         (case execute engine w of (document, w) \<Rightarrow>
            let result = \<lparr>Res_Spec = spec, Res_Plan = En_plan engine, Res_Document = document, Res_Exit = 0\<rparr>
            in case baseline_of decode files (RO_BaselinePath options) document of
                 Inl err \<Rightarrow> (Some result, Some (badFile (Told err)), w)
               | Inr baseline \<Rightarrow>
                   let document = gate spec document baseline
                   in (Some (result\<lparr>Res_Document := document, Res_Exit := verdict document\<rparr>), None, w)))"

section \<open>Debug\<close>

record 'c debugged =
  It_Observations :: "'c Observation list"
  It_Vars :: "(string, string) gomap"
  It_Spec :: "'c Spec"

definition observed_success :: "'c Observation \<Rightarrow> bool" where
  "observed_success observation \<longleftrightarrow> Ob_Class observation = Some Success"

definition Complete :: "'c debugged \<Rightarrow> bool" where
  "Complete iteration \<longleftrightarrow> \<not> length (It_Observations iteration) < length (Spec_Steps (It_Spec iteration))
     \<and> list_all observed_success (It_Observations iteration)"

definition Failed :: "'c debugged \<Rightarrow> bool" where
  "Failed iteration \<longleftrightarrow> list_ex (\<lambda>observation. \<not> observed_success observation) (It_Observations iteration)"

text \<open>What becomes of the iteration of the engine.\<close>

definition runner_Debug :: "'c Spec \<Rightarrow> 'c Observation list \<times> (string, string) gomap \<times> debug_error option \<Rightarrow> 'c debugged \<times> Fault option" where
  "runner_Debug spec outcome =
    (case outcome of (observations, vars, err) \<Rightarrow>
       case err of
         Some e \<Rightarrow> (\<lparr>It_Observations = [], It_Vars = [], It_Spec = spec\<rparr>, Some \<lparr>Fault_Exit = ExitSLO, Fault_Message = DebugSays e\<rparr>)
       | None \<Rightarrow> (\<lparr>It_Observations = observations, It_Vars = vars, It_Spec = spec\<rparr>, None))"

section \<open>What a valid scenario says about itself\<close>

definition measuredCeiling :: int where "measuredCeiling = 20000"

definition unusualRateWarning :: "Plan \<Rightarrow> sentence list" where
  "unusualRateWarning plan =
    (if PeakRate plan \<le> real_of_int measuredCeiling then []
     else [Sprintf (''Is that the rate you meant? The profile peaks at %s/s, which over %s is %s requests. ''
            @ ''The generator was measured sustaining %s/s on every repetition and missing some above that (docs/medicoes-fase0.md), ''
            @ ''so past that point the report can be measuring braunrate and not the target. Nothing here refuses: if that is the rate, run it.'')
            [ArgS (Grouped (trunc (PeakRate plan))), ArgT (plan_duration plan), ArgS (Grouped (totalRequests plan)), ArgS (Grouped measuredCeiling)]])"

definition missingEnvironmentWarning :: "'c Spec \<Rightarrow> sentence" where
  "missingEnvironmentWarning spec =
    Sprintf (''Environment variable not set: %s. Here that is only a warning; in a run the field would come out empty, so '' @ apos @ ''braunrate execute'' @ apos @ '' refuses until the variable exists.'')
      [ArgS (Join (Spec_MissingEnvironment spec) '', '')]"

definition describe_size :: "'c Spec \<Rightarrow> Plan \<Rightarrow> sentence" where
  "describe_size spec plan =
    (if Closed (Spec_Load spec)
     then Sprintf ''Valid scenario: %q, %s, %d users in a closed loop for %s.''
       [ArgS (Spec_Name spec), ArgS (Count (int (length (Spec_Steps spec))) ''step'' ''steps''), ArgD (Load_Users (Spec_Load spec)), ArgT (plan_duration plan)]
     else Sprintf ''Valid scenario: %q, %s, %s in %s.''
       [ArgS (Spec_Name spec), ArgS (Count (int (length (Spec_Steps spec))) ''step'' ''steps''), ArgS (Count (totalRequests plan) ''iteration'' ''iterations''), ArgT (plan_duration plan)])"

definition runner_Describe :: "'c config_methods \<Rightarrow> 'c Spec \<Rightarrow> Plan \<Rightarrow> sentence list" where
  "runner_Describe methods spec plan =
    [describe_size spec plan]
    @ (case ClosedModelWarning spec of None \<Rightarrow> [] | Some warning \<Rightarrow> [warning])
    @ (if Spec_SLO spec = [] then [Plain (''No slo declared: the run will never fail for slowness. Add an '' @ apos @ ''slo'' @ apos @ '' block to turn it into a CI gate.'')] else [])
    @ map (\<lambda>broker. Plain (''Messaging: '' @ broker)) (DescribeMessaging (Spec_Messaging spec))
    @ (if Spec_Requires spec \<noteq> []
       then [Sprintf ''It depends on external infrastructure: %s. Without it the run does not happen.'' [ArgS (Join (Spec_Requires spec) '', '')]] else [])
    @ (if Spec_MissingEnvironment spec \<noteq> [] then [missingEnvironmentWarning spec] else [])
    @ unusualRateWarning plan @ FixedStepWarnings methods spec @ GateWarnings spec"

section \<open>What the exit codes mean\<close>

lemma gate_keeps [simp]: "Valid (gate spec document baseline) = Valid document"
  by (simp add: gate_def Valid_def)

lemma rule_met_SLO [simp]: "rule_met rule (document\<lparr>Doc_SLO := slo\<rparr>) baseline = rule_met rule document baseline"
  by (cases "Rule_Scope rule") (simp_all add: rule_met_def absolute_met_def measuredBy_def Let_def)

lemma Evaluate_passed: "Ver_Passed (Evaluate rules document baseline) \<longleftrightarrow> (\<forall>rule \<in> set rules. rule_met rule document baseline)"
  by (auto simp: Evaluate_def Let_def evaluateRule_passes_iff)

lemma verdict_gate:
  "verdict (gate spec document baseline) =
    (if \<not> Valid document then ExitInvalid
     else if \<exists>rule \<in> set (Spec_SLO spec). \<not> rule_met rule document baseline then ExitSLO else ExitPassed)"
  by (simp add: verdict_def Evaluate_passed) (auto simp: gate_def Evaluate_passed)

lemma prepare_run_faults:
  "fst (prepare_run pki read system host parse_url spec dataRoot options w) = Inl fault \<Longrightarrow> Fault_Exit fault = ExitBadFile"
  by (auto simp: prepare_run_def badFile_def RequireEnvironment_def Let_def split: option.splits sum.splits prod.splits list.splits)

text \<open>C15. The exit code is the contract with the build. When the scenario is refused before the run the fault says code 2 and
  nothing was measured. Otherwise an invalid measurement gives code 3 and none of the rules is evaluated; a
  valid one gives code 1 when some rule of the gate is not met and 0 when all are; and a baseline that
  cannot be read is a fault with code 2 beside the result.\<close>

theorem exit_codes_mean:
  assumes "ExecuteSpec pki read system host parse_url execute decode files spec dataRoot options w = (result, fault, w')"
  shows "(case result of
      None \<Rightarrow> \<exists>f. fault = Some f \<and> Fault_Exit f = ExitBadFile
    | Some r \<Rightarrow> (\<exists>spec' engine w1 document w2. prepare_run pki read system host parse_url spec dataRoot options w = (Inr (spec', engine), w1)
        \<and> execute engine w1 = (document, w2) \<and> Res_Plan r = En_plan engine
        \<and> (case baseline_of decode files (RO_BaselinePath options) document of
             Inl err \<Rightarrow> \<exists>f. fault = Some f \<and> Fault_Exit f = ExitBadFile
           | Inr baseline \<Rightarrow> fault = None \<and> Valid (Res_Document r) = Valid document
               \<and> (\<not> Valid document \<longrightarrow> Res_Exit r = ExitInvalid \<and> Res_Document r = document)
               \<and> (Valid document \<longrightarrow> Res_Exit r = (if \<forall>rule \<in> set (Spec_SLO spec'). rule_met rule document baseline then ExitPassed else ExitSLO)))))"
proof (cases "prepare_run pki read system host parse_url spec dataRoot options w")
  case (Pair prepared w1)
  show ?thesis
  proof (cases prepared)
    case (Inl f)
    with assms Pair prepare_run_faults[of pki read system host parse_url spec dataRoot options w f] show ?thesis
      by (auto simp: ExecuteSpec_def)
  next
    case (Inr ready)
    obtain spec' engine where ready: "ready = (spec', engine)" by fastforce
    obtain document w2 where run: "execute engine w1 = (document, w2)" by fastforce
    show ?thesis
    proof (cases "baseline_of decode files (RO_BaselinePath options) document")
      case (Inl err)
      with assms Pair Inr ready run show ?thesis by (auto simp: ExecuteSpec_def badFile_def Let_def)
    next
      case baseline: (Inr baseline)
      from assms Pair Inr ready run baseline have "result = Some \<lparr>Res_Spec = spec', Res_Plan = En_plan engine,
          Res_Document = gate spec' document baseline, Res_Exit = verdict (gate spec' document baseline)\<rparr>" "fault = None"
        by (auto simp: ExecuteSpec_def Let_def)
      with Pair Inr ready run baseline show ?thesis
        by (simp add: verdict_gate) (simp add: gate_def)
    qed
  qed
qed

lemma valid_document_measured:
  "Valid (BuildDocument hdr machine c input) \<longleftrightarrow> measured_what_it_declared (uncheckedDocument hdr machine c input) input"
  by (simp add: Valid_def BuildDocument_sanity)
    (simp add: CheckSanity_def runSanityChecks_valid_iff sanityChecks_def sanity_iffs measured_what_it_declared_def)

lemma unchecked_fields:
  "Doc_Steps (uncheckedDocument hdr machine c input) = Doc_Steps (BuildDocument hdr machine c input)"
  "Doc_Scheduling (uncheckedDocument hdr machine c input) = Doc_Scheduling (BuildDocument hdr machine c input)"
  by (simp_all add: BuildDocument_def Let_def)

lemma closed_counts:
  "0 \<le> Co_LostSamples (Collector_Close hdr (run_collector hdr start threshold capacity events))"
  "0 \<le> Co_DroppedByInflightLimit (Collector_Close hdr (run_collector hdr start threshold capacity events))"
  using closed_run_ok[of hdr start threshold capacity events] by (simp_all add: counts_ok_def)

lemma valid_run_is_clean:
  assumes "document = run_document hdr environment options input events" and "Valid document"
  shows "Sch_LostSamples (Doc_Scheduling document) = 0 \<and> Sch_DroppedByInflightLimit (Doc_Scheduling document) = 0
    \<and> (0 < Sch_Sent (Doc_Scheduling document) \<longrightarrow> 100 * Sch_LateDispatches (Doc_Scheduling document) < Sch_Sent (Doc_Scheduling document))
    \<and> (\<forall>name \<in> set (In_DeclaredSteps input). \<exists>step \<in> set (Doc_Steps document). SR_Name step = name \<and> 0 < SR_Count step \<and> SR_Errors step \<noteq> SR_Count step)
    \<and> (0 < In_PlannedRequests input \<longrightarrow> 99 * In_PlannedRequests input sdiv 100 \<le> appliedRequests document)"
proof -
  let ?c = "Collector_Close hdr (run_collector hdr (In_Start input) (Opt_LateThreshold options) 16384 events)"
  have document: "document = BuildDocument hdr environment ?c input" using assms(1) by (simp add: run_document_def NewCollector_run)
  have clean: "\<not> (0 < Co_LostSamples ?c \<or> 0 < Co_DroppedByInflightLimit ?c \<or> 0 < Co_Sent ?c \<and> Co_Sent ?c \<le> 100 * Co_LateDispatches ?c)"
    using lossy_run_is_invalid[of ?c hdr environment input] assms(2) document by blast
  have scheduling: "Doc_Scheduling document = buildScheduling hdr ?c" by (simp add: document BuildDocument_fields)
  have "Sch_LostSamples (Doc_Scheduling document) = 0 \<and> Sch_DroppedByInflightLimit (Doc_Scheduling document) = 0
    \<and> (0 < Sch_Sent (Doc_Scheduling document) \<longrightarrow> 100 * Sch_LateDispatches (Doc_Scheduling document) < Sch_Sent (Doc_Scheduling document))"
    using clean closed_counts[of hdr "In_Start input" "Opt_LateThreshold options" 16384 events]
    by (simp add: scheduling buildScheduling_def) linarith
  moreover have "measured_what_it_declared (uncheckedDocument hdr environment ?c input) input"
    using assms(2) valid_document_measured document by blast
  then have "(\<forall>name \<in> set (In_DeclaredSteps input). \<exists>step \<in> set (Doc_Steps document). SR_Name step = name \<and> 0 < SR_Count step)"
      "(\<forall>step \<in> set (Doc_Steps document). SR_Count step \<noteq> 0 \<longrightarrow> SR_Errors step \<noteq> SR_Count step)"
      "0 < In_PlannedRequests input \<longrightarrow> 99 * In_PlannedRequests input sdiv 100 \<le> appliedRequests document"
    unfolding measured_what_it_declared_def load_applied_def appliedRequests_def unchecked_fields document[symmetric] by (simp_all split: if_splits)
  ultimately show ?thesis by fastforce
qed

text \<open>C6. A green build means what it says. When the run of an open scenario ends with exit code 0, no sample was lost, no
  request was dropped, fewer than one dispatch in a hundred was late, at least 99 percent of the plan was
  really sent, every declared step was measured and did not fail every time, and every rule of the gate is
  met.\<close>

theorem green_build:
  assumes run: "open_execution hdr environment host engine cancelled m input document"
    and green: "verdict (gate (Ex_scenario (En_executor engine)) document baseline) = ExitPassed"
    and planned: "0 < totalRequests (En_plan engine)"
  shows "let scheduling = Doc_Scheduling document; spec = Ex_scenario (En_executor engine)
    in Sch_LostSamples scheduling = 0 \<and> Sch_DroppedByInflightLimit scheduling = 0
      \<and> (0 < Sch_Sent scheduling \<longrightarrow> 100 * Sch_LateDispatches scheduling < Sch_Sent scheduling)
      \<and> 99 * totalRequests (En_plan engine) sdiv 100 \<le> Sch_Sent scheduling \<and> Sch_Sent scheduling \<le> totalRequests (En_plan engine)
      \<and> (\<forall>name \<in> set (declaredSteps spec). \<exists>step \<in> set (Doc_Steps document). SR_Name step = name \<and> 0 < SR_Count step \<and> SR_Errors step \<noteq> SR_Count step)
      \<and> (\<forall>rule \<in> set (Spec_SLO spec). rule_met rule document baseline)"
proof -
  have valid: "Valid document" and rules: "\<forall>rule \<in> set (Spec_SLO (Ex_scenario (En_executor engine))). rule_met rule document baseline"
    using green by (auto simp: verdict_gate exit_codes split: if_splits)
  from run show ?thesis
  proof cases
    case (OpenRun start m1 d finish m2 events engine' w)
    have input: "In_PlannedRequests input = totalRequests (En_plan engine)" "In_DeclaredSteps input = declaredSteps (Ex_scenario (En_executor engine))"
      using OpenRun(7,8) by (simp_all add: documentInput_def after_run_def Let_def)
    note clean = valid_run_is_clean[OF OpenRun(9) valid, unfolded input]
    have sent: "Sch_Sent (Doc_Scheduling document) + Sch_DroppedByInflightLimit (Doc_Scheduling document) \<le> max 0 (totalRequests (En_plan engine))"
      using machine_run.drive_reach_inv[OF OpenRun(3)] run_document_counts[OF OpenRun(6,9)] by (simp add: machine_run.drive_inv_def)
    from clean planned sent rules show ?thesis by (auto simp: appliedRequests_def Let_def)
  qed
qed

section \<open>Witnesses\<close>

definition green_step :: "unit Step" where
  "green_step = example_order_step\<lparr>Step_Captures := []\<rparr>"

definition green_spec :: "unit Spec" where
  "green_spec = example_mix\<lparr>Spec_Steps := [green_step]\<rparr>"

definition green_engine :: "(unit, nat, VirtualClock) engine" where
  "green_engine = \<lparr>En_executor = \<lparr>Ex_scenario = green_spec, Ex_mixOrder = []\<rparr>, En_plan = example_plan,
     En_options = \<lparr>Opt_Version = ''1'', Opt_MaxInflight = 1, Opt_LateThreshold = 10 * Millisecond, Opt_Clock = None, Opt_DataRoot = '''', Opt_ProgressInterval = Second\<rparr>,
     En_sources = [], En_authenticator = None\<rparr>"

definition green_events :: "collector_event list" where
  "green_events = Su_told (snd (runIteration example_host (En_executor green_engine) 0 0 700 None (example_surroundings\<lparr>Su_world := NewVirtualClock 1000\<rparr>)))"

lemma green_events_eq: "green_events = [EvRecord \<lparr>S_LatencyKind = CorrectedLatencyKind, S_Step = ''orders'', S_Key = [],
      S_Protocol = ''http'', S_ScheduledAt = 700, S_SentAt = 1000, S_FinishedAt = 1005, S_Class = Success, S_Detail = [], S_Status = 200,
      S_Bytes = 0, S_Messages = 0\<rparr>, EvJourney 700 1005 True, EvUses [] []]"
  by code_simp

abbreviation green_told :: "collector_event list" where
  "green_told \<equiv> EvDispatch 700 1400 (RateAt example_plan 0) 1 # green_events"

definition green_collector :: "nat list Collector" where
  "green_collector = Collector_Close values_hdr (run_collector values_hdr 700 10000000 16384 green_told)"

definition green_input :: DocumentInput where
  "green_input = documentInput example_host green_engine (NewVirtualClock 0) 700 2100"

definition green_document :: "nat list Document" where
  "green_document = run_document values_hdr example_machine (En_options green_engine) green_input green_told"

lemma green_key: "bucketKey 700 = 0" by code_simp

lemma green_counts:
  "Co_Sent green_collector = 1" "Co_LateDispatches green_collector = 0" "Co_LostSamples green_collector = 0"
  "Co_DroppedByInflightLimit green_collector = 0" "Co_JourneysStarted green_collector = 1" "Co_JourneysCompleted green_collector = 1"
  "Co_variety green_collector = []" "length (Co_buckets green_collector) = 1" "gkeys (Co_aggregates green_collector) = [''orders'']"
  "A_Count (the (gget (Co_aggregates green_collector) ''orders'')) = 1" "Errors (the (gget (Co_aggregates green_collector) ''orders'')) = 0"
  "A_Step (the (gget (Co_aggregates green_collector) ''orders'')) = ''orders''"
  by (simp_all add: green_collector_def green_events_eq Collector_Close_def NewCollectorWithCapacity_def RecordDispatch_def bucketDe_def
      updateBucket_def green_key gget_Cons Let_def Collector_Record_def RecordJourney_def recordUses_def apply_sample_def
      recordInAggregate_def gkeys_def Aggregate_Record_def Errors_def NewAggregate_def recordOutcome_def recordLatency_def)

lemma green_declared: "In_DeclaredSteps green_input = [''orders'']" "In_PlannedRequests green_input = 1" "In_Model green_input = ''open''" "In_Start green_input = 700"
  "In_ScenarioWarnings green_input = scenarioWarnings example_host green_spec"
  by (simp_all add: green_input_def documentInput_def green_engine_def green_spec_def example_mix_def declaredSteps_def green_step_def example_order_step_def
      example_plan_one Let_def)

lemma green_is_built: "green_document = BuildDocument values_hdr example_machine green_collector green_input"
  by (simp add: green_document_def run_document_def NewCollector_def green_collector_def green_declared) (simp add: green_engine_def)

lemma scenarioWarnings_low: "warning \<in> set (scenarioWarnings host spec) \<Longrightarrow> W_Severity warning = SeverityLow"
  by (auto simp: scenarioWarnings_def fixed_step_warning_def polling_warning_def split: option.splits if_splits)

lemma unchecked_warnings:
  fixes hdr :: "'h hdr"
  shows "\<exists>d :: 'h Document. Doc_Warnings (uncheckedDocument hdr machine c input) = evaluateWarnings d @ In_ScenarioWarnings input
    \<and> Doc_Scheduling d = buildScheduling hdr c \<and> Doc_Variety d = Varieties c (In_Availability input)"
proof -
  let ?d = "draftDocument hdr machine c input"
  let ?e = "if Doc_Closed ?d then dropCorrectedLatency ?d else ?d"
  let ?f = "?e\<lparr>Doc_Journey := (Doc_Journey ?e)\<lparr>J_Sentence := phraseJourney (Doc_Journey ?e) (Doc_Closed ?e)\<rparr>,
    Doc_Variety := Varieties c (In_Availability input)\<rparr>"
  have "Doc_Warnings (uncheckedDocument hdr machine c input) = evaluateWarnings ?f @ In_ScenarioWarnings input"
    by (simp add: uncheckedDocument_def Let_def)
  moreover have "Doc_Scheduling ?f = buildScheduling hdr c" by (simp add: draftDocument_def dropCorrectedLatency_def)
  moreover have "Doc_Variety ?f = Varieties c (In_Availability input)" by simp
  ultimately show ?thesis by (intro exI[of _ ?f] conjI)
qed

lemma degradation_medium: "detectTargetDegradation d = Some warning \<Longrightarrow> W_Severity warning = SeverityMedium"
  by (auto simp: detectTargetDegradation_def Let_def split: if_splits)

lemma quiet_scheduling:
  "dropWarnings (buildScheduling values_hdr green_collector) = []" "lateWarnings (buildScheduling values_hdr green_collector) = []"
  "lostWarnings (buildScheduling values_hdr green_collector) = []"
  by (simp_all add: dropWarnings_def lateWarnings_def lostWarnings_def lateProportion_def lateDispatchLimit_def buildScheduling_def green_counts)

lemma green_valid: "Valid green_document"
proof -
  let ?d = "uncheckedDocument values_hdr example_machine green_collector green_input"
  have open_run: "\<not> Doc_Closed (draftDocument values_hdr example_machine green_collector green_input)"
    by (simp add: Doc_Closed_def draftDocument_def buildRun_def green_declared ClosedModel_def)
  have "J_Completed (Doc_Journey ?d) = 1" using open_run by (simp add: uncheckedDocument_def Let_def) (simp add: draftDocument_def green_counts)
  moreover have "Doc_Steps ?d = buildSteps values_hdr (Co_aggregates green_collector) (In_DeclaredShares green_input)"
    using open_run by (simp add: uncheckedDocument_def Let_def) (simp add: draftDocument_def)
  then have "map SR_Name (Doc_Steps ?d) = [''orders'']" "map SR_Count (Doc_Steps ?d) = [1]" "map SR_Errors (Doc_Steps ?d) = [0]"
    by (simp_all add: buildSteps_def SortKeys_def green_counts sort_Strings_def convertStep_def Let_def)
  then obtain step where "Doc_Steps ?d = [step]" "SR_Name step = ''orders''" "SR_Count step = 1" "SR_Errors step = 0"
    by (cases "Doc_Steps ?d") auto
  moreover have scheduling: "Doc_Scheduling ?d = buildScheduling values_hdr green_collector"
    by (simp add: unchecked_fields BuildDocument_fields)
  then have "load_applied ?d green_input"
    by (simp add: load_applied_def green_declared appliedRequests_def buildScheduling_def green_counts signed_divide_int_def)
  moreover have "W_Severity warning \<noteq> SeverityHigh" if "warning \<in> set (Doc_Warnings ?d)" for warning
  proof -
    have "Varieties green_collector (In_Availability green_input) = []"
      by (simp add: Varieties_def buildVarieties_def green_counts sort_Strings_def)
    with unchecked_warnings[of values_hdr example_machine green_collector green_input]
    obtain d :: "nat list Document" where "Doc_Warnings ?d = evaluateWarnings d @ scenarioWarnings example_host green_spec"
        "Doc_Scheduling d = buildScheduling values_hdr green_collector" "Doc_Variety d = []"
      by (auto simp: green_declared)
    then show ?thesis
      using that by (auto simp: evaluateWarnings_def quiet_scheduling VarietyWarnings_def dest!: scenarioWarnings_low degradation_medium split: option.splits)
  qed
  ultimately show ?thesis
    unfolding green_is_built valid_document_measured measured_what_it_declared_def by (simp add: green_declared)
qed

lemma tell_all:
  assumes "drive_reach now wait_until moves tells cancelled plan start limit w0 d" and "moves (Dr_world d) (Dr_world d)" and "Dr_pending d = [(index, events)]"
  shows "drive_reach now wait_until moves tells cancelled plan start limit w0 (d\<lparr>Dr_pending := [(index, [])], Dr_told := Dr_told d @ events\<rparr>)"
  using assms
proof (induction events arbitrary: d)
  case Nil
  then have "d\<lparr>Dr_pending := [(index, [])], Dr_told := Dr_told d @ []\<rparr> = d" by (cases d) simp
  with Nil(1) show ?case by simp
next
  case (Cons event events)
  have "drive_reach now wait_until moves tells cancelled plan start limit w0
      (d\<lparr>Dr_pending := [] @ (index, events) # [], Dr_told := Dr_told d @ [event], Dr_world := Dr_world d\<rparr>)"
    using Cons.prems(2,3) by (intro Step[OF Cons.prems(1)] Tell) simp_all
  from Cons.IH[OF this] Cons.prems(2) show ?case by simp
qed

abbreviation green_machine :: "int \<Rightarrow> nat \<Rightarrow> machine" where
  "green_machine wall actions \<equiv> example_clockwork\<lparr>mc_wall := wall, mc_actions := actions\<rparr>"

lemma green_readings:
  "time_Now (green_machine 0 1) = (700, green_machine 700 2)" "system_WaitUntil 700 (green_machine 700 2) = Some (green_machine 700 3)"
  "time_Now (green_machine 700 3) = (1400, green_machine 1400 4)" "time_Now (green_machine 2100 4) = (2100, green_machine 2100 5)"
  by (simp_all add: system_WaitUntil_def time_Now_def example_clockwork_def Let_def)

lemma green_reach:
  "open_reach example_host (En_executor green_engine) (\<lambda>_. False) example_plan 700 1 (green_machine 700 2)
    \<lparr>Dr_index = 1, Dr_inflight = 0, Dr_pending = [], Dr_told = green_told, Dr_left = True, Dr_world = green_machine 2100 4\<rparr>"
proof -
  let ?reach = "open_reach example_host (En_executor green_engine) (\<lambda>_. False) example_plan 700 1 (green_machine 700 2)"
  have tells: "engine_tells example_host (En_executor green_engine) 0 700 green_events"
    unfolding engine_tells_def green_events_def
    by (intro exI[of _ None] exI[of _ "example_surroundings\<lparr>Su_world := NewVirtualClock 1000\<rparr>"] exI conjI, rule prod.collapse[symmetric])
      (simp add: example_surroundings_def)
  have "?reach ((drive_start (green_machine 700 2))\<lparr>Dr_index := 0 + 1, Dr_inflight := 0 + 1, Dr_pending := [] @ [(0, green_events)],
      Dr_told := [] @ [EvDispatch 700 1400 (RateAt example_plan 0) (0 + 1)], Dr_world := green_machine 1400 4\<rparr>)"
    using Step[OF Init Dispatch[of "drive_start (green_machine 700 2)" example_plan "\<lambda>_. False" 0 700 700 system_WaitUntil "green_machine 700 3"
      time_Now 1400 "green_machine 1400 4" 1 "engine_tells example_host (En_executor green_engine)" green_events machine_moves]]
      tells green_readings(2,3) by (simp add: drive_start_def example_plan_one)
  from tell_all[OF this] have "?reach \<lparr>Dr_index = 1, Dr_inflight = 1, Dr_pending = [(0, [])], Dr_told = green_told, Dr_left = False, Dr_world = green_machine 1400 4\<rparr>"
    by (simp add: machine_moves_def drive_start_def)
  from Step[OF this Done[where before = "[]" and after = "[]" and index = 0 and w = "green_machine 2100 4"]]
  have "?reach \<lparr>Dr_index = 1, Dr_inflight = 0, Dr_pending = [], Dr_told = green_told, Dr_left = False, Dr_world = green_machine 2100 4\<rparr>"
    by (simp add: machine_moves_def)
  from Step[OF this Leave] show ?thesis by (simp add: example_plan_one)
qed

theorem green_build_witness:
  "open_execution values_hdr example_machine example_host green_engine (\<lambda>_. False) (green_machine 0 1) green_input green_document
    \<and> verdict (gate green_spec green_document None) = ExitPassed \<and> Sch_Sent (Doc_Scheduling green_document) = 1
    \<and> (\<exists>step \<in> set (Doc_Steps green_document). SR_Name step = ''orders'' \<and> 0 < SR_Count step)"
proof -
  have run: "open_execution values_hdr example_machine example_host green_engine (\<lambda>_. False) (green_machine 0 1) green_input green_document"
    by (rule OpenRun[OF _ green_readings(1), where d = "\<lparr>Dr_index = 1, Dr_inflight = 0, Dr_pending = [],
        Dr_told = green_told, Dr_left = True, Dr_world = green_machine 2100 4\<rparr>" and events = green_told and engine' = green_engine and finish = 2100 and ?m2.0 = "green_machine 2100 5"])
      (use green_reach green_readings(4) in \<open>simp_all add: green_input_def green_document_def consumed_from_def after_run_def drive_ended_def green_engine_def green_spec_def example_mix_def Closed_def\<close>)
  have spec: "Ex_scenario (En_executor green_engine) = green_spec" "En_plan green_engine = example_plan" by (simp_all add: green_engine_def)
  have green: "verdict (gate green_spec green_document None) = ExitPassed"
    using green_valid by (simp add: verdict_gate green_spec_def example_mix_def)
  have "declaredSteps green_spec = [''orders'']" by (simp add: declaredSteps_def green_spec_def green_step_def example_order_step_def)
  with green_build[OF run, of None] spec green run show ?thesis
    by (auto simp: Let_def example_plan_one green_is_built BuildDocument_fields buildScheduling_def green_counts)
qed

definition gated_spec :: "unit Spec" where
  "gated_spec = example_closed_spec\<lparr>Spec_Target := ''http://t'', Spec_Steps := [green_step]\<rparr>"

abbreviation gated_prepare :: "(Fault + unit Spec \<times> (unit, nat, VirtualClock) engine) \<times> VirtualClock" where
  "gated_prepare \<equiv> prepare_run no_certificates no_files (Host_clock example_host) example_host (\<lambda>_. Some (''http'', ''t'')) gated_spec ''''
     (runner_DefaultOptions ''1'') (NewVirtualClock 0)"

lemma gated_run: "\<not> isl (fst gated_prepare) \<and> Spec_SLO (fst (projr (fst gated_prepare))) = []" by code_simp

lemma gated_prepared: "\<not> isl (fst gated_prepare)" using gated_run by (rule conjunct1)

lemma gated_rules: "Spec_SLO (fst (projr (fst gated_prepare))) = []" using gated_run by (rule conjunct2)

theorem exit_codes_mean_witness:
  "\<exists>r w'. ExecuteSpec no_certificates no_files (Host_clock example_host) example_host (\<lambda>_. Some (''http'', ''t'')) (\<lambda>_ w. (green_document, w))
      (\<lambda>_. Inl '''') (\<lambda>_. Inl '''') gated_spec '''' (runner_DefaultOptions ''1'') (NewVirtualClock 0) = (Some r, None, w') \<and> Res_Exit r = ExitPassed"
proof -
  obtain spec engine w1 where prepared: "gated_prepare = (Inr (spec, engine), w1)"
    using gated_prepared by (cases "gated_prepare"; cases "fst gated_prepare") auto
  let ?run = "ExecuteSpec no_certificates no_files (Host_clock example_host) example_host (\<lambda>_. Some (''http'', ''t'')) (\<lambda>_ w. (green_document, w))
      (\<lambda>_. Inl '''') (\<lambda>_. Inl '''') gated_spec '''' (runner_DefaultOptions ''1'') (NewVirtualClock 0)"
  have baseline: "baseline_of (\<lambda>_. Inl '''') (\<lambda>_. Inl '''') (RO_BaselinePath (runner_DefaultOptions ''1'')) green_document = Inr None"
    by (simp add: baseline_of_def runner_DefaultOptions_def)
  obtain r w' where run: "?run = (Some r, None, w')"
    using prepared baseline by (auto simp: ExecuteSpec_def Let_def)
  have "Spec_SLO spec = []" using gated_rules prepared by simp
  with exit_codes_mean[OF run] prepared baseline green_valid have "Res_Exit r = ExitPassed" by auto
  with run show ?thesis by blast
qed

end
