(* ===== verification/Runs.thy ===== *)
theory Runs
  imports Runner "HOL-Library.Sublist"
begin

text \<open>
  The runs a server keeps in memory (\<open>internal/server/runs.go\<close>). A run is shared by the goroutine that executes
  it, the requests that cancel it and the goroutines that follow it: every critical section of its mutex is
  one step of \<open>run_step\<close>, and so is every send and receive on a channel. The two channels of a follower hold
  64 lines each; \<open>append\<close> drops a line that does not fit. Proved: a cancellation is never lost, a run canceled
  before its result was looked at never comes out as done, and what a client reads is the run from its
  beginning, in order and, when it keeps up, whole. The window between looking at the cancellation and
  settling the outcome is shown to be real.
\<close>

section \<open>A run\<close>

datatype run_status = statusRunning | statusDone | statusFailed | statusInterrupted

record 'h outcome =
  Oc_Status :: run_status
  Oc_Exit :: int
  Oc_Message :: sentence
  Oc_Finished :: Time
  Oc_Document :: "'h Document option"

text \<open>\<open>stop\<close> is the cancellation of the context of the run: \<open>Run_armed\<close> says that it has been stored.\<close>

record 'h run =
  Run_ID :: string
  Run_Scenario :: string
  Run_Name :: string
  Run_Started :: Time
  Run_outcome :: "'h outcome"
  Run_closed :: bool
  Run_canceled :: bool
  Run_armed :: bool
  Run_lines :: "sentence list"

definition run_cancel :: "'h run \<Rightarrow> bool \<times> bool \<times> 'h run" where
  "run_cancel created =
    (let already = Run_canceled created \<or> Oc_Status (Run_outcome created) \<noteq> statusRunning
     in (\<not> already, Run_armed created, created\<lparr>Run_canceled := True\<rparr>))"

definition run_arm :: "'h run \<Rightarrow> bool \<times> 'h run" where
  "run_arm created = (Run_canceled created, created\<lparr>Run_armed := True\<rparr>)"

definition wasCanceled :: "'h run \<Rightarrow> bool" where
  "wasCanceled created = Run_canceled created"

definition run_state :: "'h run \<Rightarrow> 'h outcome" where
  "run_state created = Run_outcome created"

definition settle :: "'h outcome \<Rightarrow> 'h run \<Rightarrow> 'h run" where
  "settle settled created = created\<lparr>Run_outcome := settled\<rparr>"

section \<open>Followers\<close>

text \<open>One call of \<open>follow\<close>: the lines still to replay, the channel \<open>append\<close> sends on, the line the goroutine holds between
  its two selects, the channel the handler reads from and what it has read. \<open>Fo_missed\<close> records that a line did
  not fit; \<open>Fo_gone\<close> that the client has left.\<close>

record follower =
  Fo_live :: bool
  Fo_watching :: bool
  Fo_replay :: "sentence list"
  Fo_channel :: "sentence list"
  Fo_closed :: bool
  Fo_hand :: "sentence option"
  Fo_out :: "sentence list"
  Fo_read :: "sentence list"
  Fo_missed :: bool
  Fo_gone :: bool
  Fo_over :: bool

definition channel_capacity :: nat where "channel_capacity = 64"

definition deliver :: "sentence \<Rightarrow> follower \<Rightarrow> follower" where
  "deliver line f =
    (if \<not> Fo_watching f then f
     else if length (Fo_channel f) < channel_capacity then f\<lparr>Fo_channel := Fo_channel f @ [line]\<rparr>
     else f\<lparr>Fo_missed := True\<rparr>)"

definition shut :: "follower \<Rightarrow> follower" where
  "shut f = (if Fo_watching f then f\<lparr>Fo_watching := False, Fo_closed := True\<rparr> else f)"

definition follow :: "'h run \<Rightarrow> follower" where
  "follow found =
    \<lparr>Fo_live = (\<not> Run_closed found), Fo_watching = (\<not> Run_closed found), Fo_replay = Run_lines found, Fo_channel = [], Fo_closed = False,
     Fo_hand = None, Fo_out = [], Fo_read = [], Fo_missed = False, Fo_gone = False, Fo_over = False\<rparr>"

inductive follower_step :: "follower \<Rightarrow> follower \<Rightarrow> bool" where
  Replay: "\<not> Fo_over f \<Longrightarrow> Fo_replay f = line # rest \<Longrightarrow> length (Fo_out f) < channel_capacity \<Longrightarrow>
    follower_step f (f\<lparr>Fo_replay := rest, Fo_out := Fo_out f @ [line]\<rparr>)"
| Receive: "\<not> Fo_over f \<Longrightarrow> Fo_live f \<Longrightarrow> Fo_replay f = [] \<Longrightarrow> Fo_hand f = None \<Longrightarrow> Fo_channel f = line # rest \<Longrightarrow>
    follower_step f (f\<lparr>Fo_hand := Some line, Fo_channel := rest\<rparr>)"
| Send: "\<not> Fo_over f \<Longrightarrow> Fo_hand f = Some line \<Longrightarrow> length (Fo_out f) < channel_capacity \<Longrightarrow>
    follower_step f (f\<lparr>Fo_hand := None, Fo_out := Fo_out f @ [line]\<rparr>)"
| EndReplay: "\<not> Fo_over f \<Longrightarrow> \<not> Fo_live f \<Longrightarrow> Fo_replay f = [] \<Longrightarrow> follower_step f (f\<lparr>Fo_over := True\<rparr>)"
| EndLive: "\<not> Fo_over f \<Longrightarrow> Fo_live f \<Longrightarrow> Fo_replay f = [] \<Longrightarrow> Fo_hand f = None \<Longrightarrow> Fo_channel f = [] \<Longrightarrow> Fo_closed f \<Longrightarrow>
    follower_step f (f\<lparr>Fo_over := True\<rparr>)"
| Read: "\<not> Fo_gone f \<Longrightarrow> Fo_out f = line # rest \<Longrightarrow> follower_step f (f\<lparr>Fo_out := rest, Fo_read := Fo_read f @ [line]\<rparr>)"
| HangUp: "\<not> Fo_gone f \<Longrightarrow> follower_step f (f\<lparr>Fo_gone := True\<rparr>)"
| Leave: "\<not> Fo_over f \<Longrightarrow> Fo_live f \<Longrightarrow> Fo_gone f \<Longrightarrow> follower_step f (f\<lparr>Fo_over := True\<rparr>)"

section \<open>Finishing\<close>

definition verdictLine :: "int \<Rightarrow> 'h Document \<Rightarrow> sentence" where
  "verdictLine exit_code document =
    (if \<not> Valid document then Sprintf ''invalid result (code %d): the run did not measure what it set out to measure'' [ArgD exit_code]
     else if Ver_Evaluations (Doc_SLO document) = [] then Sprintf ''described (code %d): no criterion declared, so it neither approves nor rejects'' [ArgD exit_code]
     else if \<not> Ver_Passed (Doc_SLO document) then Sprintf ''failed the SLO (code %d)'' [ArgD exit_code]
     else Sprintf ''passed (code %d)'' [ArgD exit_code])"

text \<open>What \<open>runner.Execute\<close> came back with: an error, with the exit code it carries when it is a \<open>runner.Fault\<close>, or a result.\<close>

datatype 'h executed = ExecutedError sentence "int option" | ExecutedResult int "'h Document"

definition finish_outcome :: "bool \<Rightarrow> Time \<Rightarrow> 'h executed \<Rightarrow> 'h outcome \<times> sentence" where
  "finish_outcome canceled time executed =
    (case executed of
       ExecutedError message fault \<Rightarrow>
         (\<lparr>Oc_Status = statusFailed, Oc_Exit = (case fault of None \<Rightarrow> ExitBadFile | Some exit_code \<Rightarrow> exit_code), Oc_Message = message, Oc_Finished = time, Oc_Document = None\<rparr>, message)
     | ExecutedResult exit_code document \<Rightarrow>
         if canceled then
           (\<lparr>Oc_Status = statusInterrupted, Oc_Exit = exit_code, Oc_Message = Plain '''', Oc_Finished = time, Oc_Document = Some document\<rparr>,
            Plain ''interrupted: the run was canceled and measured only the part that ran'')
         else
           (\<lparr>Oc_Status = statusDone, Oc_Exit = exit_code, Oc_Message = Plain '''', Oc_Finished = time, Oc_Document = Some document\<rparr>,
            verdictLine exit_code document))"

text \<open>Where \<open>finish\<close> is: not called, with the outcome in hand, having settled it, having said it, closed.\<close>

datatype 'h finishing = Working | Settling "'h outcome" sentence | Saying sentence | Shutting | Over

text \<open>A run with everyone around it. \<open>Rs_stops\<close> counts the calls of \<open>stop\<close> that are about to be made outside the mutex,
  \<open>Rs_stopped\<close> says the context was canceled, and \<open>Rs_answers\<close> is what the requests to cancel were told.\<close>

record 'h run_system =
  Rs_run :: "'h run"
  Rs_finish :: "'h finishing"
  Rs_followers :: "follower list"
  Rs_stops :: nat
  Rs_stopped :: bool
  Rs_answers :: "bool list"

definition headline :: "'c Spec \<Rightarrow> Plan \<Rightarrow> sentence" where
  "headline spec plan =
    (if Closed (Spec_Load spec)
     then Sprintf ''running %q against %s: %d users in a closed loop for %s''
       [ArgS (Spec_Name spec), ArgS (Spec_Target spec), ArgD (Load_Users (Spec_Load spec)), ArgT (plan_duration plan)]
     else Sprintf ''running %q against %s: %d iterations in %s''
       [ArgS (Spec_Name spec), ArgS (Spec_Target spec), ArgD (totalRequests plan), ArgT (plan_duration plan)])"

definition new_run :: "string \<Rightarrow> string \<Rightarrow> Time \<Rightarrow> 'c Spec \<Rightarrow> Plan \<Rightarrow> 'h run" where
  "new_run run_id scenarioName time spec plan =
    \<lparr>Run_ID = run_id, Run_Scenario = scenarioName, Run_Name = Spec_Name spec, Run_Started = time,
     Run_outcome = \<lparr>Oc_Status = statusRunning, Oc_Exit = 0, Oc_Message = Plain '''', Oc_Finished = zeroTime, Oc_Document = None\<rparr>,
     Run_closed = False, Run_canceled = False, Run_armed = False, Run_lines = [headline spec plan]\<rparr>"

definition started :: "'h run \<Rightarrow> 'h run_system" where
  "started created = \<lparr>Rs_run = created, Rs_finish = Working, Rs_followers = [], Rs_stops = 0, Rs_stopped = False, Rs_answers = []\<rparr>"

definition append_line :: "sentence \<Rightarrow> 'h run_system \<Rightarrow> 'h run_system" where
  "append_line line s = s\<lparr>Rs_run := (Rs_run s)\<lparr>Run_lines := Run_lines (Rs_run s) @ [line]\<rparr>, Rs_followers := map (deliver line) (Rs_followers s)\<rparr>"

definition close_run :: "'h run_system \<Rightarrow> 'h run_system" where
  "close_run s = s\<lparr>Rs_run := (Rs_run s)\<lparr>Run_closed := True\<rparr>, Rs_followers := map shut (Rs_followers s)\<rparr>"

inductive run_step :: "'h executed \<Rightarrow> 'h run_system \<Rightarrow> 'h run_system \<Rightarrow> bool" for executed where
  Cancel: "run_cancel (Rs_run s) = (answer, armed, r) \<Longrightarrow>
    run_step executed s (s\<lparr>Rs_run := r, Rs_stops := (if armed then Suc (Rs_stops s) else Rs_stops s), Rs_answers := Rs_answers s @ [answer]\<rparr>)"
| Arm: "\<not> Run_armed (Rs_run s) \<Longrightarrow> run_arm (Rs_run s) = (canceled, r) \<Longrightarrow>
    run_step executed s (s\<lparr>Rs_run := r, Rs_stops := (if canceled then Suc (Rs_stops s) else Rs_stops s)\<rparr>)"
| Stop: "Rs_stops s = Suc n \<Longrightarrow> run_step executed s (s\<lparr>Rs_stops := n, Rs_stopped := True\<rparr>)"
| Progress: "Rs_finish s = Working \<Longrightarrow> run_step executed s (append_line line s)"
| Look: "Rs_finish s = Working \<Longrightarrow> finish_outcome (wasCanceled (Rs_run s)) time executed = (settled, line) \<Longrightarrow>
    run_step executed s (s\<lparr>Rs_finish := Settling settled line\<rparr>)"
| Settle: "Rs_finish s = Settling settled line \<Longrightarrow> run_step executed s (s\<lparr>Rs_run := settle settled (Rs_run s), Rs_finish := Saying line\<rparr>)"
| Say: "Rs_finish s = Saying line \<Longrightarrow> run_step executed s ((append_line line s)\<lparr>Rs_finish := Shutting\<rparr>)"
| Shut: "Rs_finish s = Shutting \<Longrightarrow> run_step executed s ((close_run s)\<lparr>Rs_finish := Over\<rparr>)"
| Follow: "run_step executed s (s\<lparr>Rs_followers := Rs_followers s @ [follow (Rs_run s)]\<rparr>)"
| Followed: "i < length (Rs_followers s) \<Longrightarrow> follower_step (Rs_followers s ! i) f \<Longrightarrow>
    run_step executed s (s\<lparr>Rs_followers := (Rs_followers s)[i := f]\<rparr>)"

inductive_cases run_stepE [elim]: "run_step executed s s'"
inductive_cases follower_stepE [elim]: "follower_step f f'"

definition fresh_run :: "'h run \<Rightarrow> bool" where
  "fresh_run r \<longleftrightarrow> Oc_Status (Run_outcome r) = statusRunning \<and> \<not> Run_closed r \<and> \<not> Run_canceled r \<and> \<not> Run_armed r"

inductive run_reach :: "'h executed \<Rightarrow> 'h run_system \<Rightarrow> bool" for executed where
  Started: "fresh_run r \<Longrightarrow> run_reach executed (started r)"
| Stepped: "run_reach executed s \<Longrightarrow> run_step executed s s' \<Longrightarrow> run_reach executed s'"

section \<open>The invariant\<close>

definition pending_lines :: "follower \<Rightarrow> sentence list" where
  "pending_lines f = Fo_read f @ Fo_out f @ (case Fo_hand f of None \<Rightarrow> [] | Some line \<Rightarrow> [line]) @ Fo_replay f @ Fo_channel f"

text \<open>What is true of every follower: its lines are lines of the run, all of them unless one did not fit; a line in its
  hand or channel comes after the replay; and one that is over without the client leaving has nothing left to send.\<close>

definition follower_ok :: "'h run \<Rightarrow> follower \<Rightarrow> bool" where
  "follower_ok r f \<longleftrightarrow> subseq (pending_lines f) (Run_lines r) \<and> (\<not> Fo_missed f \<longrightarrow> pending_lines f = Run_lines r)
    \<and> (Fo_hand f \<noteq> None \<longrightarrow> Fo_replay f = [])
    \<and> (Fo_watching f \<longleftrightarrow> Fo_live f \<and> \<not> Run_closed r) \<and> (Fo_live f \<longrightarrow> Fo_closed f = Run_closed r)
    \<and> (\<not> Fo_live f \<longrightarrow> Run_closed r \<and> Fo_channel f = [] \<and> Fo_hand f = None \<and> \<not> Fo_missed f)
    \<and> (Fo_over f \<and> \<not> Fo_gone f \<longrightarrow> Run_closed r \<and> Fo_replay f = [] \<and> Fo_hand f = None \<and> Fo_channel f = [])"

fun finish_ok :: "'h finishing \<Rightarrow> 'h run \<Rightarrow> bool" where
  "finish_ok Working r \<longleftrightarrow> Oc_Status (Run_outcome r) = statusRunning \<and> \<not> Run_closed r"
| "finish_ok (Settling settled line) r \<longleftrightarrow> Oc_Status (Run_outcome r) = statusRunning \<and> Oc_Status settled \<noteq> statusRunning \<and> \<not> Run_closed r
     \<and> (Oc_Status settled = statusInterrupted \<longrightarrow> Run_canceled r)"
| "finish_ok (Saying line) r \<longleftrightarrow> Oc_Status (Run_outcome r) \<noteq> statusRunning \<and> \<not> Run_closed r \<and> (Oc_Status (Run_outcome r) = statusInterrupted \<longrightarrow> Run_canceled r)"
| "finish_ok Shutting r \<longleftrightarrow> Oc_Status (Run_outcome r) \<noteq> statusRunning \<and> \<not> Run_closed r \<and> (Oc_Status (Run_outcome r) = statusInterrupted \<longrightarrow> Run_canceled r)"
| "finish_ok Over r \<longleftrightarrow> Oc_Status (Run_outcome r) \<noteq> statusRunning \<and> Run_closed r \<and> (Oc_Status (Run_outcome r) = statusInterrupted \<longrightarrow> Run_canceled r)"

definition run_ok :: "'h run_system \<Rightarrow> bool" where
  "run_ok s \<longleftrightarrow> (\<forall>f \<in> set (Rs_followers s). follower_ok (Rs_run s) f) \<and> finish_ok (Rs_finish s) (Rs_run s)
    \<and> (Run_canceled (Rs_run s) \<and> Run_armed (Rs_run s) \<longrightarrow> Rs_stopped s \<or> 0 < Rs_stops s)"

section \<open>Every step keeps the invariant\<close>

lemma follower_step_ok:
  assumes "follower_step f f'" and "follower_ok r f"
  shows "follower_ok r f'"
  using assms by cases (auto simp: follower_ok_def pending_lines_def split: option.splits)

lemma pending_lines_deliver:
  "pending_lines (deliver line f) = (if Fo_watching f \<and> length (Fo_channel f) < channel_capacity then pending_lines f @ [line] else pending_lines f)"
  by (simp add: pending_lines_def deliver_def)

lemma deliver_ok:
  assumes "follower_ok r f" and "\<not> Run_closed r"
  shows "follower_ok (r\<lparr>Run_lines := Run_lines r @ [line]\<rparr>) (deliver line f)"
proof -
  have live: "Fo_live f" "Fo_watching f" using assms by (auto simp: follower_ok_def)
  have sub: "subseq (pending_lines f) (Run_lines r)" using assms by (simp add: follower_ok_def)
  have longer: "subseq (pending_lines f) (Run_lines r @ [line])" using list_emb_append_mono[OF sub, of "[]" "[line]"] by simp
  show ?thesis using assms live sub longer unfolding follower_ok_def pending_lines_deliver
    by (auto simp: deliver_def list_emb_append_mono)
qed

lemma shut_ok: "follower_ok r f \<Longrightarrow> follower_ok (r\<lparr>Run_closed := True\<rparr>) (shut f)"
  by (auto simp: follower_ok_def shut_def pending_lines_def)

lemma follow_ok: "follower_ok r (follow r)"
  by (simp add: follower_ok_def follow_def pending_lines_def)

text \<open>A follower sees nothing of a run but its lines and whether it is closed.\<close>

lemma follower_ok_canceled [simp]: "follower_ok (r\<lparr>Run_canceled := b\<rparr>) f = follower_ok r f"
  by (simp add: follower_ok_def)

lemma follower_ok_armed [simp]: "follower_ok (r\<lparr>Run_armed := b\<rparr>) f = follower_ok r f"
  by (simp add: follower_ok_def)

lemma follower_ok_outcome [simp]: "follower_ok (r\<lparr>Run_outcome := x\<rparr>) f = follower_ok r f"
  by (simp add: follower_ok_def)

lemma finish_outcome_status:
  "finish_outcome canceled time executed = (settled, line) \<Longrightarrow>
    Oc_Status settled \<noteq> statusRunning \<and> (Oc_Status settled = statusInterrupted \<longrightarrow> canceled) \<and> (canceled \<longrightarrow> Oc_Status settled \<noteq> statusDone)"
  by (auto simp: finish_outcome_def split: executed.splits if_splits)

lemma started_ok: "fresh_run r \<Longrightarrow> run_ok (started r)"
  by (simp add: run_ok_def started_def fresh_run_def)

lemma finish_ok_canceled: "finish_ok fin r \<Longrightarrow> finish_ok fin (r\<lparr>Run_canceled := True\<rparr>)"
  by (cases fin) auto

lemma finish_ok_armed [simp]: "finish_ok fin (r\<lparr>Run_armed := True\<rparr>) = finish_ok fin r"
  by (cases fin) auto

lemma finish_ok_lines [simp]: "finish_ok fin (r\<lparr>Run_lines := lines\<rparr>) = finish_ok fin r"
  by (cases fin) auto

lemma append_line_followers_ok:
  assumes "\<forall>f \<in> set (Rs_followers s). follower_ok (Rs_run s) f" and "\<not> Run_closed (Rs_run s)"
  shows "\<forall>f \<in> set (Rs_followers (append_line line s)). follower_ok (Rs_run (append_line line s)) f"
  using assms by (auto simp: append_line_def deliver_ok)

lemma run_step_ok:
  assumes "run_step executed s s'" and ok: "run_ok s"
  shows "run_ok s'"
  using assms(1)
proof cases
  case (Cancel answer armed r)
  then show ?thesis using ok by (auto simp: run_ok_def run_cancel_def finish_ok_canceled)
next
  case (Arm canceled r)
  then show ?thesis using ok by (auto simp: run_ok_def run_arm_def)
next
  case (Stop n)
  then show ?thesis using ok by (auto simp: run_ok_def)
next
  case (Progress line)
  then show ?thesis using ok append_line_followers_ok[of s line] by (auto simp: run_ok_def append_line_def)
next
  case (Look time settled line)
  then show ?thesis using ok finish_outcome_status[OF Look(3)] by (auto simp: run_ok_def wasCanceled_def)
next
  case (Settle settled line)
  then show ?thesis using ok by (auto simp: run_ok_def settle_def)
next
  case (Say line)
  then show ?thesis using ok append_line_followers_ok[of s line] by (auto simp: run_ok_def append_line_def)
next
  case Shut
  then show ?thesis using ok by (auto simp: run_ok_def close_run_def shut_ok)
next
  case Follow
  then show ?thesis using ok follow_ok by (auto simp: run_ok_def)
next
  case (Followed i f)
  then show ?thesis using ok follower_step_ok[of "Rs_followers s ! i" f "Rs_run s"]
    by (auto simp: run_ok_def dest!: set_update_subset_insert[THEN subsetD])
qed

lemma run_reach_ok: "run_reach executed s \<Longrightarrow> run_ok s"
  by (induction rule: run_reach.induct) (auto intro: started_ok run_step_ok)

section \<open>Cancelling\<close>

text \<open>Once the context is canceled it stays canceled, and so does the run.\<close>

lemma run_step_keeps:
  assumes "run_step executed s s'"
  shows "Rs_stopped s \<Longrightarrow> Rs_stopped s'" and "Run_canceled (Rs_run s) \<Longrightarrow> Run_canceled (Rs_run s')"
  using assms by (cases, auto simp: run_cancel_def run_arm_def settle_def append_line_def close_run_def)+

text \<open>Canceled before its result was looked at: from there on no step of anyone makes it done.\<close>

definition never_done :: "'h run_system \<Rightarrow> bool" where
  "never_done s \<longleftrightarrow> Run_canceled (Rs_run s) \<and> Oc_Status (Run_outcome (Rs_run s)) \<noteq> statusDone
    \<and> (case Rs_finish s of Settling settled line \<Rightarrow> Oc_Status settled \<noteq> statusDone | _ \<Rightarrow> True)"

lemma never_done_kept:
  assumes "run_step executed s s'" and "never_done s"
  shows "never_done s'"
  using assms(1)
proof cases
  case (Look time settled line)
  then show ?thesis using assms(2) finish_outcome_status[OF Look(3)] by (simp add: never_done_def wasCanceled_def)
qed (use assms(2) in \<open>auto simp: never_done_def run_cancel_def run_arm_def settle_def append_line_def close_run_def split: finishing.splits\<close>)

lemma never_done_forever: "(run_step executed)\<^sup>*\<^sup>* s s' \<Longrightarrow> never_done s \<Longrightarrow> never_done s'"
  by (induction rule: rtranclp_induct) (auto intro: never_done_kept)

lemma canceled_working_never_done:
  assumes "run_reach executed s" and "Run_canceled (Rs_run s)" and "Rs_finish s = Working"
  shows "never_done s"
  using run_reach_ok[OF assms(1)] assms(2,3) by (simp add: never_done_def run_ok_def)

text \<open>The window the mutex leaves open: \<open>finish\<close> reads \<open>wasCanceled\<close> in one critical section and settles in another. A request to
  cancel that falls between the two is accepted, and the run comes out as done all the same.\<close>

lemma cancel_between_look_and_settle:
  assumes "run_reach (ExecutedResult exit_code document) s" and "Rs_finish s = Working" and "\<not> Run_canceled (Rs_run s)"
  shows "\<exists>s'. (run_step (ExecutedResult exit_code document))\<^sup>*\<^sup>* s s' \<and> Rs_answers s' = Rs_answers s @ [True]
    \<and> Run_canceled (Rs_run s') \<and> Oc_Status (Run_outcome (Rs_run s')) = statusDone"
proof -
  let ?E = "ExecutedResult exit_code document"
  obtain settled line where outcome: "finish_outcome False zeroTime ?E = (settled, line)" by (cases "finish_outcome False zeroTime ?E")
  let ?s1 = "s\<lparr>Rs_finish := Settling settled line\<rparr>"
  have running: "Oc_Status (Run_outcome (Rs_run s)) = statusRunning"
    using run_reach_ok[OF assms(1)] assms(2) by (simp add: run_ok_def)
  have "run_step ?E s ?s1"
    using assms(2,3) by (auto intro!: run_step.Look[where time = zeroTime] simp: outcome wasCanceled_def)
  moreover obtain answer armed r where cancel: "run_cancel (Rs_run ?s1) = (answer, armed, r)" by (metis prod_cases3)
  let ?s2 = "?s1\<lparr>Rs_run := r, Rs_stops := (if armed then Suc (Rs_stops ?s1) else Rs_stops ?s1), Rs_answers := Rs_answers ?s1 @ [answer]\<rparr>"
  have "run_step ?E ?s1 ?s2" using cancel by (rule run_step.Cancel)
  moreover have "run_step ?E ?s2 (?s2\<lparr>Rs_run := settle settled r, Rs_finish := Saying line\<rparr>)"
    using run_step.Settle[of ?s2 settled line ?E] by simp
  moreover have "answer" "Run_canceled r" "Oc_Status settled = statusDone"
    using cancel running assms(3) outcome by (auto simp: run_cancel_def finish_outcome_def)
  ultimately show ?thesis
    by (intro exI[of _ "?s2\<lparr>Rs_run := settle settled r, Rs_finish := Saying line\<rparr>"])
      (auto simp: settle_def intro: rtranclp.rtrancl_into_rtrancl)
qed

section \<open>What a client reads\<close>

text \<open>The steps of a follower whose client stays.\<close>

definition attended :: "follower \<Rightarrow> follower \<Rightarrow> bool" where
  "attended f f' \<longleftrightarrow> follower_step f f' \<and> \<not> Fo_gone f'"

definition follower_work :: "follower \<Rightarrow> nat" where
  "follower_work f = 3 * length (Fo_channel f) + (if Fo_hand f = None then 0 else 2) + 2 * length (Fo_replay f) + length (Fo_out f)
    + (if Fo_over f then 0 else 1)"

lemma attended_decreases: "attended f f' \<Longrightarrow> follower_work f' < follower_work f"
  unfolding attended_def by (auto simp: follower_work_def elim!: follower_step.cases)

text \<open>The follower of a closed run is never stuck while its client reads.\<close>

lemma attended_progress:
  assumes ok: "follower_ok r f" and closed: "Run_closed r" and here: "\<not> Fo_gone f" and unfinished: "\<not> Fo_over f \<or> Fo_out f \<noteq> []"
  shows "\<exists>f'. attended f f'"
proof (cases "Fo_out f")
  case (Cons line rest)
  then show ?thesis using here follower_step.Read[OF here Cons] by (auto simp: attended_def)
next
  case Nil
  then have room: "length (Fo_out f) < channel_capacity" and on: "\<not> Fo_over f" using unfinished by (simp_all add: channel_capacity_def)
  consider (replay) line rest where "Fo_replay f = line # rest" | (hand) line where "Fo_replay f = []" "Fo_hand f = Some line"
    | (channel) line rest where "Fo_replay f = []" "Fo_hand f = None" "Fo_channel f = line # rest"
    | (spent) "Fo_replay f = []" "Fo_hand f = None" "Fo_channel f = []"
    by (cases "Fo_replay f"; cases "Fo_hand f"; cases "Fo_channel f") auto
  then show ?thesis
  proof cases
    case replay
    then show ?thesis using here follower_step.Replay[OF on replay room] by (auto simp: attended_def)
  next
    case hand
    then show ?thesis using here follower_step.Send[OF on hand(2) room] by (auto simp: attended_def)
  next
    case channel
    then have "Fo_live f" using ok by (auto simp: follower_ok_def)
    from follower_step.Receive[OF on this channel] show ?thesis using here by (auto simp: attended_def)
  next
    case spent
    show ?thesis
    proof (cases "Fo_live f")
      case True
      then have "Fo_closed f" using ok closed by (simp add: follower_ok_def)
      from follower_step.EndLive[OF on True spent this] show ?thesis using here by (auto simp: attended_def)
    next
      case False
      from follower_step.EndReplay[OF on False spent(1)] show ?thesis using here by (auto simp: attended_def)
    qed
  qed
qed

lemma follower_step_missed: "follower_step f f' \<Longrightarrow> Fo_missed f' = Fo_missed f"
  by (auto elim!: follower_step.cases)

text \<open>So it ends, having handed over what it had.\<close>

lemma attended_ends:
  assumes "follower_ok r f" and "Run_closed r" and "\<not> Fo_gone f"
  shows "\<exists>f'. attended\<^sup>*\<^sup>* f f' \<and> Fo_over f' \<and> Fo_out f' = [] \<and> \<not> Fo_gone f' \<and> Fo_missed f' = Fo_missed f \<and> follower_ok r f'"
  using assms
proof (induction "follower_work f" arbitrary: f rule: less_induct)
  case less
  show ?case
  proof (cases "Fo_over f \<and> Fo_out f = []")
    case True
    then show ?thesis using less.prems by blast
  next
    case False
    then obtain f1 where step: "attended f f1" using attended_progress[OF less.prems] by blast
    have "follower_ok r f1" "\<not> Fo_gone f1" "Fo_missed f1 = Fo_missed f"
      using step follower_step_ok less.prems(1) follower_step_missed by (auto simp: attended_def)
    then obtain f' where "attended\<^sup>*\<^sup>* f1 f'" "Fo_over f'" "Fo_out f' = []" "\<not> Fo_gone f'" "Fo_missed f' = Fo_missed f" "follower_ok r f'"
      using less.hyps[OF attended_decreases[OF step] _ less.prems(2)] by metis
    then show ?thesis using converse_rtranclp_into_rtranclp[of attended, OF step] by blast
  qed
qed

lemma follower_over_read:
  assumes "follower_ok r f" and "Fo_over f" and "\<not> Fo_gone f" and "Fo_out f = []"
  shows "subseq (Fo_read f) (Run_lines r)" and "\<not> Fo_missed f \<Longrightarrow> Fo_read f = Run_lines r"
  using assms by (auto simp: follower_ok_def pending_lines_def)

text \<open>The follower of a run that is already closed sends its replay without watching the request: a client that leaves with
  more lines left than the channel holds leaves a goroutine that can never take another step.\<close>

lemma replay_fills:
  "\<not> Fo_over f \<Longrightarrow> length (Fo_out f) + n \<le> channel_capacity \<Longrightarrow> n \<le> length (Fo_replay f) \<Longrightarrow>
    follower_step\<^sup>*\<^sup>* f (f\<lparr>Fo_replay := drop n (Fo_replay f), Fo_out := Fo_out f @ take n (Fo_replay f)\<rparr>)"
proof (induction n arbitrary: f)
  case (Suc n)
  then obtain line rest where replay: "Fo_replay f = line # rest" by (cases "Fo_replay f") auto
  let ?f = "f\<lparr>Fo_replay := rest, Fo_out := Fo_out f @ [line]\<rparr>"
  have "follower_step f ?f" using Suc.prems replay by (intro follower_step.Replay) auto
  moreover have "follower_step\<^sup>*\<^sup>* ?f (?f\<lparr>Fo_replay := drop n rest, Fo_out := (Fo_out f @ [line]) @ take n rest\<rparr>)"
    using Suc.IH[of ?f] Suc.prems replay by simp
  ultimately show ?case using replay by (simp add: converse_rtranclp_into_rtranclp)
qed simp

lemma closed_run_can_leak_a_follower:
  assumes "Run_closed r" and "channel_capacity < length (Run_lines r)"
  shows "\<exists>f. follower_step\<^sup>*\<^sup>* (follow r) f \<and> \<not> Fo_over f \<and> (\<forall>f'. \<not> follower_step f f')"
proof -
  let ?f = "(follow r)\<lparr>Fo_replay := drop channel_capacity (Run_lines r), Fo_out := take channel_capacity (Run_lines r)\<rparr>"
  have "follower_step\<^sup>*\<^sup>* (follow r) ?f" using replay_fills[of "follow r" channel_capacity] assms(2) by (simp add: follow_def)
  moreover have "follower_step ?f (?f\<lparr>Fo_gone := True\<rparr>)" by (rule follower_step.HangUp) (simp add: follow_def)
  ultimately have "follower_step\<^sup>*\<^sup>* (follow r) (?f\<lparr>Fo_gone := True\<rparr>)" by simp
  moreover have "\<not> follower_step (?f\<lparr>Fo_gone := True\<rparr>) f'" for f'
    using assms by (auto simp: follow_def min_def elim!: follower_step.cases)
  ultimately show ?thesis by (intro exI[of _ "?f\<lparr>Fo_gone := True\<rparr>"]) (simp add: follow_def)
qed

section \<open>Properties\<close>

text \<open>C12. C1: a cancellation is never lost and never contradicted. When a run is canceled before \<open>finish\<close> looked at it,
  then in whatever order the executing goroutine, further requests and the followers go on, the run never
  becomes done; and as soon as its context exists, that context has been canceled or the call that cancels
  it is on its way, also when the request came before the context.\<close>

theorem canceled_run_is_never_done:
  assumes "run_reach executed s" and "Run_canceled (Rs_run s)" and "Rs_finish s = Working" and "(run_step executed)\<^sup>*\<^sup>* s s'"
  shows "Oc_Status (run_state (Rs_run s')) \<noteq> statusDone \<and> Run_canceled (Rs_run s')
    \<and> (Run_armed (Rs_run s') \<longrightarrow> Rs_stopped s' \<or> 0 < Rs_stops s')"
proof -
  have "never_done s'" using never_done_forever[OF assms(4)] canceled_working_never_done[OF assms(1-3)] .
  moreover have "run_reach executed s'" using assms(4,1) by (induction rule: rtranclp_induct) (auto intro: run_reach.Stepped)
  ultimately show ?thesis using run_reach_ok[of executed s'] by (simp add: never_done_def run_ok_def run_state_def)
qed

definition served_run :: "nat list run" where
  "served_run = new_run ''r001'' ''checkout.yaml'' 0 green_spec example_plan"

lemma served_run_fresh: "fresh_run served_run"
  by (simp add: fresh_run_def served_run_def new_run_def)

text \<open>Canceled before it was armed, then armed, executed and settled.\<close>

definition example_canceled :: "nat list run_system" where
  "example_canceled = (started served_run)\<lparr>Rs_run := served_run\<lparr>Run_canceled := True\<rparr>, Rs_answers := [True]\<rparr>"

definition example_armed :: "nat list run_system" where
  "example_armed = example_canceled\<lparr>Rs_run := (Rs_run example_canceled)\<lparr>Run_armed := True\<rparr>, Rs_stops := 1\<rparr>"

lemma example_canceled_reached: "run_reach executed example_canceled"
  using run_step.Cancel[of "started served_run" True False "served_run\<lparr>Run_canceled := True\<rparr>" executed]
  by (intro run_reach.Stepped[OF run_reach.Started[OF served_run_fresh]])
    (simp add: run_cancel_def example_canceled_def started_def served_run_def new_run_def)

lemma example_armed_step: "run_step executed example_canceled example_armed"
  using run_step.Arm[of example_canceled True "(Rs_run example_canceled)\<lparr>Run_armed := True\<rparr>" executed]
  by (simp add: run_arm_def example_canceled_def example_armed_def started_def served_run_def new_run_def)

theorem canceled_run_is_never_done_witness:
  "\<exists>s. (run_step (ExecutedResult 0 green_document))\<^sup>*\<^sup>* example_canceled s \<and> Rs_finish s \<noteq> Working \<and> Oc_Status (run_state (Rs_run s)) = statusInterrupted
    \<and> Oc_Status (run_state (Rs_run s)) \<noteq> statusDone \<and> (Rs_stopped s \<or> 0 < Rs_stops s)"
proof -
  let ?E = "ExecutedResult 0 green_document"
  obtain settled line where outcome: "finish_outcome True 5 ?E = (settled, line)" by (cases "finish_outcome True 5 ?E")
  let ?look = "example_armed\<lparr>Rs_finish := Settling settled line\<rparr>"
  let ?done = "?look\<lparr>Rs_run := settle settled (Rs_run ?look), Rs_finish := Saying line\<rparr>"
  have "run_step ?E example_armed ?look" using outcome
    by (intro run_step.Look[where time = 5]) (simp_all add: example_armed_def example_canceled_def started_def wasCanceled_def)
  moreover have "run_step ?E ?look ?done" by (rule run_step.Settle) simp
  ultimately have steps: "(run_step ?E)\<^sup>*\<^sup>* example_canceled ?done"
    using example_armed_step[of ?E] by (meson r_into_rtranclp rtranclp_trans)
  have facts: "Run_canceled (Rs_run example_canceled)" "Rs_finish example_canceled = Working" "Run_armed (Rs_run ?done)"
    by (simp_all add: example_armed_def example_canceled_def started_def settle_def)
  have "Oc_Status settled = statusInterrupted" using outcome by (auto simp: finish_outcome_def)
  moreover note canceled_run_is_never_done[OF example_canceled_reached facts(1,2) steps]
  ultimately show ?thesis using steps facts(3) by (intro exI[of _ ?done]) (simp add: settle_def run_state_def)
qed

text \<open>C13. C1: what a client reads. Whoever follows a run, from any moment of it and however the sends interleave with the
  run, can read on to the end of the stream once the run is over; what it has read then is made of the lines of the run
  in their order, from the first, and is exactly the lines of the run when it never fell more than the channel behind.\<close>

theorem client_reads_the_run:
  assumes "run_reach executed s" and "Rs_finish s = Over" and "f \<in> set (Rs_followers s)" and "\<not> Fo_gone f"
  shows "\<exists>f'. attended\<^sup>*\<^sup>* f f' \<and> Fo_over f' \<and> Fo_out f' = [] \<and> subseq (Fo_read f') (Run_lines (Rs_run s))
    \<and> (\<not> Fo_missed f \<longrightarrow> Fo_read f' = Run_lines (Rs_run s))"
proof -
  have "follower_ok (Rs_run s) f" and "Run_closed (Rs_run s)"
    using run_reach_ok[OF assms(1)] assms(2,3) by (auto simp: run_ok_def)
  from attended_ends[OF this assms(4)] show ?thesis using follower_over_read by blast
qed

definition example_over :: "nat list run_system" where
  "example_over = \<lparr>Rs_run = served_run\<lparr>Run_outcome := fst (finish_outcome False 5 (ExecutedError (Plain ''no target'') None)), Run_closed := True,
       Run_lines := Run_lines served_run @ [Plain ''no target'']\<rparr>,
     Rs_finish = Over, Rs_followers = [shut (deliver (Plain ''no target'') (follow served_run))], Rs_stops = 0, Rs_stopped = False, Rs_answers = []\<rparr>"

lemma example_over_reached: "run_reach (ExecutedError (Plain ''no target'') None) example_over"
proof -
  let ?E = "ExecutedError (Plain ''no target'') None :: nat list executed"
  obtain settled line where outcome: "finish_outcome False 5 ?E = (settled, line)" by (cases "finish_outcome False 5 ?E")
  let ?s0 = "started served_run"
  let ?s1 = "?s0\<lparr>Rs_followers := Rs_followers ?s0 @ [follow (Rs_run ?s0)]\<rparr>"
  let ?s2 = "?s1\<lparr>Rs_finish := Settling settled line\<rparr>"
  let ?s3 = "?s2\<lparr>Rs_run := settle settled (Rs_run ?s2), Rs_finish := Saying line\<rparr>"
  let ?s4 = "(append_line line ?s3)\<lparr>Rs_finish := Shutting\<rparr>"
  let ?s5 = "(close_run ?s4)\<lparr>Rs_finish := Over\<rparr>"
  have "run_reach ?E ?s1" by (rule run_reach.Stepped[OF run_reach.Started[OF served_run_fresh] run_step.Follow])
  then have "run_reach ?E ?s2"
    by (rule run_reach.Stepped[OF _ run_step.Look[where time = 5]]) (use outcome in \<open>simp_all add: started_def wasCanceled_def served_run_def new_run_def\<close>)
  then have "run_reach ?E ?s3" by (rule run_reach.Stepped[OF _ run_step.Settle]) simp
  then have "run_reach ?E ?s4" by (rule run_reach.Stepped[OF _ run_step.Say]) simp
  then have "run_reach ?E ?s5" by (rule run_reach.Stepped[OF _ run_step.Shut]) simp
  moreover have "?s5 = example_over" using outcome
    by (auto simp: example_over_def started_def settle_def append_line_def close_run_def finish_outcome_def)
  ultimately show ?thesis by simp
qed

theorem client_reads_the_run_witness:
  "\<exists>f'. attended\<^sup>*\<^sup>* (hd (Rs_followers example_over)) f' \<and> Fo_over f' \<and> Fo_out f' = []
    \<and> Fo_read f' = Run_lines served_run @ [Plain ''no target'']"
proof -
  have "hd (Rs_followers example_over) \<in> set (Rs_followers example_over)" "Rs_finish example_over = Over"
    "\<not> Fo_gone (hd (Rs_followers example_over))" "\<not> Fo_missed (hd (Rs_followers example_over))"
    by (simp_all add: example_over_def shut_def deliver_def follow_def channel_capacity_def)
  with client_reads_the_run[OF example_over_reached, of "hd (Rs_followers example_over)"] show ?thesis
    by (auto simp: example_over_def)
qed

end
