(* ===== verification/Yaml.thy ===== *)
theory Yaml
  imports References
begin

text \<open>
  What every reader of a scenario file is made of (\<open>internal/scenario/yaml.go\<close>, \<open>yamlerror.go\<close>, \<open>interpolacao.go\<close>):
  the tree the YAML package hands over, the errors with a position, the loops over the pairs of a map, and
  the durations and rates of a plan. The tree is the documented type \<open>yaml.Node\<close> of \<open>gopkg.in/yaml.v3\<close>, whose
  parser is not part of the model. \<open>time.ParseDuration\<close> follows the standard library byte by byte, with exact
  fractions.
\<close>

section \<open>The tree\<close>

datatype node_kind = DocumentNode | SequenceNode | MappingNode | ScalarNode | AliasNode

datatype node_style = PlainStyle | SingleQuotedStyle | DoubleQuotedStyle | OtherStyle

datatype yaml_node = Node (Node_Kind: node_kind) (Node_Style: node_style) (Node_Value: string) (Node_Line: int) (Node_Column: int)
  (Node_Content: "yaml_node list")

text \<open>\<open>for index := 0; index+1 < len(node.Content); index += 2\<close>: the keys and values of a map.\<close>

fun node_pairs :: "yaml_node list \<Rightarrow> (yaml_node \<times> yaml_node) list" where
  "node_pairs (key # val # rest) = (key, val) # node_pairs rest"
| "node_pairs [key] = []"
| "node_pairs [] = []"

section \<open>Errors\<close>

record ScenarioError =
  SE_File :: string
  SE_Line :: int
  SE_Column :: int
  SE_Message :: sentence

definition ScenarioError_Error :: "ScenarioError \<Rightarrow> sentence" where
  "ScenarioError_Error scenarioError =
    (if SE_Line scenarioError = 0 then SE_Message scenarioError
     else if SE_File scenarioError = '''' then Sprintf ''line %d: %s'' [ArgD (SE_Line scenarioError), ArgM (SE_Message scenarioError)]
     else Sprintf ''%s:%d:%d: %s'' [ArgS (SE_File scenarioError), ArgD (SE_Line scenarioError), ArgD (SE_Column scenarioError), ArgM (SE_Message scenarioError)])"

definition missingEnvironmentHint :: "environ \<Rightarrow> yaml_node option \<Rightarrow> sentence" where
  "missingEnvironmentHint env node =
    (case node of None \<Rightarrow> Plain ''''
     | Some node \<Rightarrow>
         if \<not> Contains (Node_Value node) ''${'' then Plain ''''
         else case UnresolvedEnvironment env (Node_Value node) of
             [] \<Rightarrow> Plain ''''
           | [name] \<Rightarrow> Sprintf (nl @ ''    the environment variable %s is not set, so this field kept the raw reference.'' @ nl @ ''    run with %s=... , or declare a default in the file: ${%s:-value}'') [ArgS name, ArgS name, ArgS name]
           | missing \<Rightarrow> Sprintf (nl @ ''    these environment variables are not set: %s.'' @ nl @ ''    run with them in the environment, or declare a default in the file: ${NAME:-value}'') [ArgS (Join missing '', '')])"

definition nodeError :: "environ \<Rightarrow> yaml_node option \<Rightarrow> sentence \<Rightarrow> ScenarioError" where
  "nodeError env node message =
    \<lparr>SE_File = '''', SE_Line = (case node of None \<Rightarrow> 0 | Some n \<Rightarrow> Node_Line n), SE_Column = (case node of None \<Rightarrow> 0 | Some n \<Rightarrow> Node_Column n),
     SE_Message = Sprintf ''%s%s'' [ArgM message, ArgM (missingEnvironmentHint env node)]\<rparr>"

abbreviation refuse :: "environ \<Rightarrow> yaml_node \<Rightarrow> sentence \<Rightarrow> ScenarioError + 'a" where
  "refuse env node message \<equiv> Inl (nodeError env (Some node) message)"

section \<open>Loops with an early return\<close>

definition bind_ok :: "'e + 'a \<Rightarrow> ('a \<Rightarrow> 'e + 'b) \<Rightarrow> 'e + 'b" where
  "bind_ok x f = (case x of Inl err \<Rightarrow> Inl err | Inr a \<Rightarrow> f a)"

fun read_pairs :: "('s \<Rightarrow> yaml_node \<Rightarrow> yaml_node \<Rightarrow> 'e + 's) \<Rightarrow> (yaml_node \<times> yaml_node) list \<Rightarrow> 's \<Rightarrow> 'e + 's" where
  "read_pairs read [] s = Inr s"
| "read_pairs read ((key, val) # rest) s = bind_ok (read s key val) (read_pairs read rest)"

fun read_all :: "('a \<Rightarrow> 'e + 'b) \<Rightarrow> 'a list \<Rightarrow> 'e + 'b list" where
  "read_all read [] = Inr []"
| "read_all read (x # xs) = bind_ok (read x) (\<lambda>y. bind_ok (read_all read xs) (\<lambda>ys. Inr (y # ys)))"

lemma bind_ok_Inr [simp]: "bind_ok x f = Inr b \<longleftrightarrow> (\<exists>a. x = Inr a \<and> f a = Inr b)"
  by (cases x) (simp_all add: bind_ok_def)

lemma bind_ok_simps [simp]: "bind_ok (Inl e) f = Inl e" "bind_ok (Inr a) f = f a"
  by (simp_all add: bind_ok_def)

lemma read_pairs_inv:
  assumes "read_pairs read pairs s = Inr s'" and "P s"
    and "\<And>key val s s'. (key, val) \<in> set pairs \<Longrightarrow> read s key val = Inr s' \<Longrightarrow> P s \<Longrightarrow> P s'"
  shows "P s'"
  using assms
proof (induction pairs arbitrary: s)
  case (Cons pair rest)
  obtain key val where pair: "pair = (key, val)" by fastforce
  with Cons.prems(1) obtain s1 where "read s key val = Inr s1" "read_pairs read rest s1 = Inr s'" by auto
  with Cons.IH[of s1] Cons.prems(2,3) pair show ?case by (meson list.set_intros)
qed simp

lemma read_all_Inr: "read_all read xs = Inr ys \<longleftrightarrow> list_all2 (\<lambda>x y. read x = Inr y) xs ys"
  by (induction xs arbitrary: ys) (auto simp: list_all2_Cons1)

lemma read_all_each: "read_all read xs = Inr ys \<Longrightarrow> (\<And>x y. read x = Inr y \<Longrightarrow> P y) \<Longrightarrow> y \<in> set ys \<Longrightarrow> P y"
  by (auto simp: read_all_Inr list_all2_conv_all_nth in_set_conv_nth)

section \<open>Numbers, durations and rates\<close>

definition in_int64 :: "int \<Rightarrow> bool" where
  "in_int64 n \<longleftrightarrow> - (2 ^ 63) \<le> n \<and> n < 2 ^ 63"

definition Atoi :: "string \<Rightarrow> int option" where
  "Atoi s = (case ParseInt s of None \<Rightarrow> None | Some n \<Rightarrow> if in_int64 n then Some n else None)"

definition unitMap :: "(string \<times> int) list" where
  "unitMap = [(''ns'', 1), (''us'', 1000), ([CHR 0xC2, CHR 0xB5, CHR ''s''], 1000), ([CHR 0xCE, CHR 0xBC, CHR ''s''], 1000),
     (''ms'', 1000000), (''s'', 1000000000), (''m'', 60000000000), (''h'', 3600000000000)]"

text \<open>\<open>leadingFraction\<close>: the value of the digits and the power of ten under it; a digit too many is skipped.\<close>

fun leadingFraction :: "string \<Rightarrow> int \<Rightarrow> int \<Rightarrow> bool \<Rightarrow> int \<times> int" where
  "leadingFraction [] x scale overflow = (x, scale)"
| "leadingFraction (c # s) x scale overflow =
    (let y = x * 10 + int (digit_value c)
     in if overflow \<or> x > (2 ^ 63 - 1) div 10 \<or> y > 2 ^ 63 then leadingFraction s x scale True
        else leadingFraction s y (scale * 10) False)"

text \<open>One turn of the loop of \<open>time.ParseDuration\<close>: a number and its unit, and what follows.\<close>

definition duration_part :: "char \<Rightarrow> bool" where
  "duration_part c \<longleftrightarrow> c = CHR ''.'' \<or> is_digit c"

definition duration_term :: "string \<Rightarrow> (int \<times> string) option" where
  "duration_term s =
    (let whole = takeWhile is_digit s; rest = dropWhile is_digit s; point = HasPrefix rest ''.'';
         fraction = (if point then takeWhile is_digit (tl rest) else []); rest = (if point then dropWhile is_digit (tl rest) else rest);
         v = int (read_nat whole); (f, scale) = leadingFraction fraction 0 1 False;
         u = takeWhile (\<lambda>c. \<not> duration_part c) rest; rest = dropWhile (\<lambda>c. \<not> duration_part c) rest
     in if v > 2 ^ 63 \<or> whole @ fraction = [] \<or> u = [] then None
        else case map_of unitMap u of
            None \<Rightarrow> None
          | Some unit \<Rightarrow>
              if v > 2 ^ 63 div unit then None
              else let v = v * unit; v = (if f > 0 then v + f * unit div scale else v)
                   in if v > 2 ^ 63 then None else Some (v, rest))"

lemma duration_term_shorter: "duration_term s = Some (v, rest) \<Longrightarrow> length rest < length s"
proof -
  assume parsed: "duration_term s = Some (v, rest)"
  define after where "after = (if HasPrefix (dropWhile is_digit s) ''.'' then dropWhile is_digit (tl (dropWhile is_digit s)) else dropWhile is_digit s)"
  from parsed have u: "takeWhile (\<lambda>c. \<not> duration_part c) after \<noteq> []" and rest: "rest = dropWhile (\<lambda>c. \<not> duration_part c) after"
    by (auto simp: duration_term_def after_def Let_def split: prod.splits if_splits option.splits)
  have "length after = length (takeWhile (\<lambda>c. \<not> duration_part c) after) + length rest"
    unfolding rest by (metis length_append takeWhile_dropWhile_id)
  moreover have "length after \<le> length s"
    unfolding after_def by (smt (verit) length_dropWhile_le length_tl diff_le_self order_trans)
  ultimately show ?thesis using u by (cases "takeWhile (\<lambda>c. \<not> duration_part c) after") auto
qed

function duration_terms :: "string \<Rightarrow> int \<Rightarrow> int option" where
  "duration_terms s d =
    (if s = [] then Some d
     else case duration_term s of
         None \<Rightarrow> None
       | Some (v, rest) \<Rightarrow> let d = (d + v) mod 2 ^ 64 in if d > 2 ^ 63 then None else duration_terms rest d)"
  by pat_completeness auto
termination
  by (relation "measure (\<lambda>(s, d). length s)") (auto dest: duration_term_shorter)

definition ParseDuration :: "string \<Rightarrow> Duration option" where
  "ParseDuration s =
    (case parse_sign s of (neg, s) \<Rightarrow>
       if s = ''0'' then Some 0
       else if s = [] then None
       else case duration_terms s 0 of
           None \<Rightarrow> None
         | Some d \<Rightarrow> if neg then Some (- d) else if d > 2 ^ 63 - 1 then None else Some d)"

definition readDuration :: "environ \<Rightarrow> yaml_node \<Rightarrow> ScenarioError + Duration" where
  "readDuration env node =
    (case ParseDuration (Node_Value node) of
       None \<Rightarrow> refuse env node (Sprintf ''invalid duration: %q (use 30s, 5m, 1h30m)'' [ArgS (Node_Value node)])
     | Some duration \<Rightarrow> Inr duration)"

text \<open>The number before the unit of a rate and what the unit divides by; no unit is refused when a number stands alone.\<close>

definition rate_unit :: "string \<Rightarrow> (string \<times> real) option" where
  "rate_unit text =
    (if HasSuffix text ''/s'' then Some (TrimSuffix text ''/s'', 1)
     else if HasSuffix text ''/m'' then Some (TrimSuffix text ''/m'', 60)
     else if HasSuffix text ''/h'' then Some (TrimSuffix text ''/h'', 3600)
     else if ParseFloat text \<noteq> None then None else Some (text, 1))"

definition readRate :: "environ \<Rightarrow> yaml_node \<Rightarrow> ScenarioError + real" where
  "readRate env node =
    (let text = TrimSpace (Node_Value node)
     in case rate_unit text of
          None \<Rightarrow> refuse env node (Sprintf (''rate without a unit: %q'' @ nl @ ''    say over which interval: %s/s (per second), %s/m (per minute) or %s/h (per hour)'') [ArgS text, ArgS text, ArgS text, ArgS text])
        | Some (number, divisor) \<Rightarrow>
            case ParseFloat (TrimSpace number) of
              None \<Rightarrow> refuse env node (Sprintf ''invalid rate: %q (use for example 50/s)'' [ArgS (Node_Value node)])
            | Some rate \<Rightarrow> if rate \<le> 0 then refuse env node (Plain ''rate has to be greater than zero'') else Inr (rate / divisor))"

lemma readRate_positive: "readRate env node = Inr rate \<Longrightarrow> 0 < rate"
  by (auto simp: readRate_def rate_unit_def Let_def split: option.splits if_splits)

lemma readDuration_Inr: "readDuration env node = Inr d \<longleftrightarrow> ParseDuration (Node_Value node) = Some d"
  by (simp add: readDuration_def split: option.splits)

lemma ParseDuration_examples:
  "ParseDuration ''1h30m'' = Some (90 * 60 * Second)" "ParseDuration ''1.5s'' = Some (1500 * Millisecond)" "ParseDuration ''-30s'' = Some (- 30 * Second)"
  "ParseDuration ''30'' = None" "ParseDuration ''0'' = Some 0" "ParseDuration '''' = None" "ParseDuration ''.s'' = None"
  by code_simp+

end
