(* ===== verification/Credentials.thy ===== *)
theory Credentials
  imports Yaml
begin

text \<open>
  What happens to the tree of a scenario before its fields are read (\<open>internal/scenario/credentials.go\<close>,
  \<open>interpolacao.go\<close>, \<open>references.go\<close> and \<open>IsSecretName\<close> of \<open>internal/protocol/transport/client.go\<close>): a credential
  written in the file is refused, the environment is expanded in every field whose raw text is not part of
  its meaning, and every reference has to come from somewhere. Proved: exactly which files the sweep accepts,
  that the expansion leaves a credential and a seed as they were written, and what the check of references accepts.
\<close>

section \<open>Names that carry a credential\<close>

definition IsSecretName :: "string \<Rightarrow> bool" where
  "IsSecretName name =
    (let lowered = ToLower name
     in lowered = ''authorization'' \<or> lowered = ''cookie'' \<or> lowered = ''set-cookie''
        \<or> list_ex (Contains lowered) [''token'', ''senha'', ''password'', ''passwd'', ''secret'', ''api-key'', ''apikey'', ''api_key''])"

definition credentialNames :: "string list" where
  "credentialNames = [''segredo'', ''pwd'', ''clientsecret'', ''secret_key'', ''access_key'']"

definition credentialName :: "string \<Rightarrow> bool" where
  "credentialName name \<longleftrightarrow> ToLower name \<in> set credentialNames \<or> IsSecretName name"

definition credentialHeaders :: "string list" where
  "credentialHeaders = [''authorization'', ''proxy-authorization'', ''x-api-key'', ''api-key'', ''x-auth-token'', ''x-access-token'']"

section \<open>Refusing a literal\<close>

definition writtenSafely :: "string \<Rightarrow> bool" where
  "writtenSafely v =
    (let trimmed = TrimSpace v
     in trimmed = '''' \<or> Contains trimmed ''${'' \<or> HasPrefix trimmed ''$.'' \<or> HasPrefix trimmed ''header:'' \<or> HasPrefix trimmed ''cookie:'')"

definition refuseLiteralHeaderLine :: "environ \<Rightarrow> yaml_node \<Rightarrow> ScenarioError option" where
  "refuseLiteralHeaderLine env node =
    (case Cut (Node_Value node) '':'' of (name, credential, found) \<Rightarrow>
       if \<not> found \<or> ToLower (TrimSpace name) \<notin> set credentialHeaders \<or> writtenSafely credential then None
       else Some (nodeError env (Some node) (Sprintf (''literal credential in '' @ apos @ ''header'' @ apos @ '': a credential never goes into the file, because the file goes into the repository.'' @ nl @ ''    replace it with:  header: \"%s: ${TOKEN}\"'' @ nl @ ''    and run with:  TOKEN=... braunrate execute scenario.yaml'') [ArgS (TrimSpace name)])))"

definition refuseLiteralField :: "environ \<Rightarrow> string \<Rightarrow> yaml_node \<Rightarrow> ScenarioError option" where
  "refuseLiteralField env name node =
    (if Node_Kind node \<noteq> ScalarNode then None
     else let lowered = ToLower name
     in if lowered \<in> set credentialHeaders then
          (if writtenSafely (Node_Value node) then None
           else Some (nodeError env (Some node) (Sprintf (''literal credential in the header %q: a credential never goes into the file, because the file goes into the repository.'' @ nl @ ''    replace it with:  %s: \"Bearer ${TOKEN}\"'' @ nl @ ''    and run with:  TOKEN=... braunrate execute scenario.yaml'') [ArgS name, ArgS name])))
        else if credentialName lowered then
          (if writtenSafely (Node_Value node) then None
           else let environment = ToUpper (ReplaceAll (ReplaceAll lowered CHR ''-'' ''_'') CHR ''.'' ''_'')
                in Some (nodeError env (Some node) (Sprintf (''literal %s in the scenario: a credential never goes into the file, because the file goes into the repository.'' @ nl @ ''    replace it with:  %s: \"${%s}\"'' @ nl @ ''    and run with:  %s=... braunrate execute scenario.yaml'') [ArgS name, ArgS name, ArgS environment, ArgS environment])))
        else if lowered = ''header'' then refuseLiteralHeaderLine env node
        else None)"

fun sweepCredentials :: "environ \<Rightarrow> yaml_node \<Rightarrow> ScenarioError option"
  and sweep_pairs :: "environ \<Rightarrow> yaml_node list \<Rightarrow> ScenarioError option"
  and sweep_children :: "environ \<Rightarrow> yaml_node list \<Rightarrow> ScenarioError option" where
  "sweepCredentials env (Node kind style val line column content) =
    (if kind = MappingNode then sweep_pairs env content else sweep_children env content)"
| "sweep_pairs env (key # val # rest) =
    (case refuseLiteralField env (Node_Value key) val of
       Some err \<Rightarrow> Some err
     | None \<Rightarrow> case sweepCredentials env val of Some err \<Rightarrow> Some err | None \<Rightarrow> sweep_pairs env rest)"
| "sweep_pairs env [key] = None"
| "sweep_pairs env [] = None"
| "sweep_children env [] = None"
| "sweep_children env (child # rest) = (case sweepCredentials env child of Some err \<Rightarrow> Some err | None \<Rightarrow> sweep_children env rest)"

fun refuse_pairs :: "environ \<Rightarrow> (yaml_node \<times> yaml_node) list \<Rightarrow> ScenarioError option" where
  "refuse_pairs env [] = None"
| "refuse_pairs env ((key, val) # rest) =
    (if Node_Value key = ''variables'' \<or> Node_Value key = ''messaging'' then refuse_pairs env rest
     else case sweepCredentials env val of Some err \<Rightarrow> Some err | None \<Rightarrow> refuse_pairs env rest)"

definition refuseLiteralCredentials :: "environ \<Rightarrow> yaml_node \<Rightarrow> ScenarioError option" where
  "refuseLiteralCredentials env document = refuse_pairs env (node_pairs (Node_Content document))"

definition refuseLiteralVariable :: "environ \<Rightarrow> string \<Rightarrow> yaml_node \<Rightarrow> ScenarioError option" where
  "refuseLiteralVariable env name node =
    (if \<not> credentialName name then None
     else let v = TrimSpace (Node_Value node)
     in if v = '''' \<or> Contains v ''${'' then None
        else let environment = ToUpper name
     in Some (nodeError env (Some node) (Sprintf (''literal %s in '' @ apos @ ''variables'' @ apos @ '': a credential never goes into the file, because the file goes into the repository.'' @ nl @ ''    replace it with:  variables: { %s: \"${%s}\" }'' @ nl @ ''    and run with:  %s=... braunrate execute scenario.yaml'') [ArgS name, ArgS name, ArgS environment, ArgS environment])))"

section \<open>Expanding the environment\<close>

definition keepsRawText :: "string \<Rightarrow> bool" where
  "keepsRawText key \<longleftrightarrow> credentialName key \<or> key = ''seed''"

fun expandEnvironment :: "environ \<Rightarrow> yaml_node \<Rightarrow> yaml_node"
  and expand_pairs :: "environ \<Rightarrow> yaml_node list \<Rightarrow> yaml_node list" where
  "expandEnvironment env (Node kind style val line column content) =
    (if kind = MappingNode then Node kind style val line column (expand_pairs env content)
     else if kind = ScalarNode then Node kind style (expandDefinedEnvironment env val) line column content
     else Node kind style val line column (map (expandEnvironment env) content))"
| "expand_pairs env (key # val # rest) =
    key # (if keepsRawText (Node_Value key) then val else expandEnvironment env val) # expand_pairs env rest"
| "expand_pairs env [key] = [key]"
| "expand_pairs env [] = []"

section \<open>References of the tree\<close>

definition referenceError :: "yaml_node option \<Rightarrow> reference \<Rightarrow> sentence \<Rightarrow> ScenarioError" where
  "referenceError node used message =
    (case node of
       None \<Rightarrow> \<lparr>SE_File = '''', SE_Line = 0, SE_Column = 0, SE_Message = message\<rparr>
     | Some node \<Rightarrow>
         let column = (if \<not> Contains (take (ref_offset used) (Node_Value node)) nl
               then Node_Column node + int (ref_offset used)
                 + (if Node_Style node = SingleQuotedStyle \<or> Node_Style node = DoubleQuotedStyle then 1 else 0)
               else Node_Column node)
         in \<lparr>SE_File = '''', SE_Line = Node_Line node, SE_Column = column, SE_Message = message\<rparr>)"

fun walkScalars :: "(yaml_node \<Rightarrow> 's \<Rightarrow> 'e + 's) \<Rightarrow> yaml_node \<Rightarrow> 's \<Rightarrow> 'e + 's"
  and walk_children :: "(yaml_node \<Rightarrow> 's \<Rightarrow> 'e + 's) \<Rightarrow> yaml_node list \<Rightarrow> 's \<Rightarrow> 'e + 's" where
  "walkScalars visit (Node kind style val line column content) s =
    (if kind = ScalarNode then visit (Node kind style val line column content) s else walk_children visit content s)"
| "walk_children visit [] s = Inr s"
| "walk_children visit (child # rest) s = bind_ok (walkScalars visit child s) (walk_children visit rest)"

fun visit_references :: "environ \<Rightarrow> variableScope \<Rightarrow> yaml_node \<Rightarrow> reference list \<Rightarrow> string list \<Rightarrow> ScenarioError + string list" where
  "visit_references env known node [] missing = Inr missing"
| "visit_references env known node (used # rest) missing =
    (case resolve_reference env known used of
       Some message \<Rightarrow> Inl (referenceError (Some node) used message)
     | None \<Rightarrow> visit_references env known node rest (if needs_environment env used then List.insert (ref_name used) missing else missing))"

definition checkReferences :: "environ \<Rightarrow> yaml_node \<Rightarrow> 'c Spec \<Rightarrow> ScenarioError + 'c Spec" where
  "checkReferences env document spec =
    bind_ok (walkScalars (\<lambda>node. visit_references env (knownVariables spec) node (referencesIn (Node_Value node))) document [])
      (\<lambda>missing. Inr (spec\<lparr>Spec_MissingEnvironment := sort_Strings (Spec_MissingEnvironment spec @ missing)\<rparr>))"

section \<open>The fields of a tree\<close>

text \<open>A key and its value anywhere inside a tree, as the sweep meets them.\<close>

inductive field_of :: "yaml_node \<Rightarrow> string \<Rightarrow> yaml_node \<Rightarrow> bool" where
  Here: "Node_Kind node = MappingNode \<Longrightarrow> (key, val) \<in> set (node_pairs (Node_Content node)) \<Longrightarrow> field_of node (Node_Value key) val"
| InValue: "Node_Kind node = MappingNode \<Longrightarrow> (key, val) \<in> set (node_pairs (Node_Content node)) \<Longrightarrow> field_of val name found \<Longrightarrow> field_of node name found"
| InItem: "Node_Kind node \<noteq> MappingNode \<Longrightarrow> child \<in> set (Node_Content node) \<Longrightarrow> field_of child name found \<Longrightarrow> field_of node name found"

inductive_simps field_of_simps: "field_of (Node kind style v line column content) name found"

text \<open>What the sweep asks of one field.\<close>

definition safe_field :: "string \<Rightarrow> yaml_node \<Rightarrow> bool" where
  "safe_field name node \<longleftrightarrow> Node_Kind node = ScalarNode \<longrightarrow>
    (ToLower name \<in> set credentialHeaders \<or> credentialName name \<longrightarrow> writtenSafely (Node_Value node))
    \<and> (ToLower name = ''header'' \<longrightarrow> (\<forall>header credential. Cut (Node_Value node) '':'' = (header, credential, True) \<longrightarrow>
         ToLower (TrimSpace header) \<in> set credentialHeaders \<longrightarrow> writtenSafely credential))"

lemma lower_char_idem [simp]: "lower_char (lower_char c) = lower_char c"
proof (cases "CHR ''A'' \<le> c \<and> c \<le> CHR ''Z''")
  case True
  then have "(65 :: nat) \<le> of_char c" "of_char c \<le> (90 :: nat)" by (auto simp: less_eq_char_def)
  then have "\<not> char_of (of_char c + (32 :: nat)) \<le> CHR ''Z''" by (simp add: less_eq_char_def)
  with True show ?thesis by (simp add: lower_char_def)
qed (auto simp: lower_char_def)

lemma ToLower_idem [simp]: "ToLower (ToLower s) = ToLower s"
  by (simp add: ToLower_def)

lemma credentialName_lower [simp]: "credentialName (ToLower name) = credentialName name"
  by (simp add: credentialName_def IsSecretName_def)

lemma header_is_no_credential: "\<not> credentialName ''header'' \<and> ''header'' \<notin> set credentialHeaders"
  by code_simp

lemma refuseLiteralField_None: "refuseLiteralField env name node = None \<longleftrightarrow> safe_field name node"
proof (cases "ToLower name = ''header''")
  case True
  with header_is_no_credential credentialName_lower[of name] have "\<not> credentialName name" "ToLower name \<notin> set credentialHeaders" by simp_all
  with True header_is_no_credential show ?thesis
    by (auto simp: refuseLiteralField_def safe_field_def refuseLiteralHeaderLine_def Let_def split: prod.splits)
next
  case False
  then show ?thesis by (auto simp: refuseLiteralField_def safe_field_def Let_def)
qed

lemma sweep_None:
  "sweepCredentials env node = None \<longleftrightarrow> (\<forall>name found. field_of node name found \<longrightarrow> safe_field name found)"
  "sweep_pairs env content = None \<longleftrightarrow> (\<forall>(key, val) \<in> set (node_pairs content). safe_field (Node_Value key) val
     \<and> (\<forall>name found. field_of val name found \<longrightarrow> safe_field name found))"
  "sweep_children env content' = None \<longleftrightarrow> (\<forall>child \<in> set content'. \<forall>name found. field_of child name found \<longrightarrow> safe_field name found)"
proof (induction env node and env content and env content' rule: sweepCredentials_sweep_pairs_sweep_children.induct)
  case (1 env kind style v line column content)
  then show ?case by (auto simp: field_of_simps) blast+
next
  case (2 env key val rest)
  have "sweep_pairs env (key # val # rest) = None \<longleftrightarrow>
      refuseLiteralField env (Node_Value key) val = None \<and> sweepCredentials env val = None \<and> sweep_pairs env rest = None"
    by (simp split: option.splits)
  with 2 show ?case unfolding refuseLiteralField_None
    by (cases "safe_field (Node_Value key) val"; cases "sweepCredentials env val = None") (auto simp: refuseLiteralField_None)
qed (auto split: option.splits)

lemma refuse_pairs_None:
  "refuse_pairs env pairs = None \<longleftrightarrow> (\<forall>(key, val) \<in> set pairs. Node_Value key \<notin> {''variables'', ''messaging''} \<longrightarrow> sweepCredentials env val = None)"
  by (induction env pairs rule: refuse_pairs.induct) (auto split: option.splits)

section \<open>What the expansion leaves alone\<close>

lemma node_pairs_expand:
  "node_pairs (expand_pairs env content) =
    map (\<lambda>(key, val). (key, if keepsRawText (Node_Value key) then val else expandEnvironment env val)) (node_pairs content)"
  by (induction content rule: node_pairs.induct) auto

lemma expand_kind [simp]: "Node_Kind (expandEnvironment env node) = Node_Kind node"
  by (cases node) simp

lemma node_pairs_mem: "(key, val) \<in> set (node_pairs content) \<Longrightarrow> key \<in> set content \<and> val \<in> set content"
  by (induction content rule: node_pairs.induct) auto

lemma field_of_mapping:
  "field_of (Node MappingNode style v line column content) name found \<longleftrightarrow>
    (\<exists>(key, val) \<in> set (node_pairs content). Node_Value key = name \<and> val = found \<or> field_of val name found)"
  by (auto simp: field_of_simps)

lemma expand_keeps_raw_fields:
  "keepsRawText name \<Longrightarrow> field_of (expandEnvironment env node) name found \<longleftrightarrow> field_of node name found"
proof (induction node)
  case (Node kind style v line column content)
  then have inner: "field_of (expandEnvironment env val) name found \<longleftrightarrow> field_of val name found" if "(key, val) \<in> set (node_pairs content)" for key val
    using node_pairs_mem[OF that] by blast
  show ?case
  proof (cases kind)
    case MappingNode
    have "(\<exists>(key, val) \<in> set (node_pairs (expand_pairs env content)). Node_Value key = name \<and> val = found \<or> field_of val name found)
      \<longleftrightarrow> (\<exists>(key, val) \<in> set (node_pairs content). Node_Value key = name \<and> val = found \<or> field_of val name found)"
      unfolding node_pairs_expand set_map bex_simps(7) using inner Node.prems by (intro bex_cong refl) (auto split: if_splits)
    with MappingNode show ?thesis by (simp add: field_of_mapping)
  qed (use Node in \<open>auto simp: field_of_simps\<close>)
qed

section \<open>What the check of references accepts\<close>

fun scalars_of :: "yaml_node \<Rightarrow> yaml_node list" where
  "scalars_of (Node kind style v line column content) =
    (if kind = ScalarNode then [Node kind style v line column content] else concat (map scalars_of content))"

fun visit_all :: "(yaml_node \<Rightarrow> 's \<Rightarrow> 'e + 's) \<Rightarrow> yaml_node list \<Rightarrow> 's \<Rightarrow> 'e + 's" where
  "visit_all visit [] s = Inr s"
| "visit_all visit (node # rest) s = bind_ok (visit node s) (visit_all visit rest)"

lemma visit_all_append: "visit_all visit (xs @ ys) s = bind_ok (visit_all visit xs s) (visit_all visit ys)"
proof (induction xs arbitrary: s)
  case (Cons x xs)
  then show ?case by (cases "visit x s") simp_all
qed simp

lemma walk_visits:
  "walkScalars visit node s = visit_all visit (scalars_of node) s"
  "walk_children visit content s = visit_all visit (concat (map scalars_of content)) s"
proof (induction visit node s and visit content s rule: walkScalars_walk_children.induct)
  case (1 visit kind style v line column content s)
  then show ?case by (cases "visit (Node kind style v line column content) s") auto
next
  case (3 visit child rest s)
  then have "walk_children visit rest = visit_all visit (concat (map scalars_of rest))" by (intro ext)
  with 3(1) show ?case by (simp add: visit_all_append)
qed simp_all

definition references_at :: "yaml_node \<Rightarrow> reference set" where
  "references_at node = set (referencesIn (Node_Value node))"

lemma visit_references_result:
  "case visit_references env (knownVariables spec) node refs missing of
     Inl err \<Rightarrow> SE_Line err = Node_Line node \<and> (\<exists>used \<in> set refs. \<not> resolvable env spec used)
   | Inr missing' \<Rightarrow> (\<forall>used \<in> set refs. resolvable env spec used)
       \<and> set missing' = set missing \<union> ref_name ` {used \<in> set refs. needs_environment env used}"
proof (induction refs arbitrary: missing)
  case (Cons used refs)
  show ?case
  proof (cases "resolve_reference env (knownVariables spec) used")
    case None
    then have ok: "resolvable env spec used" using resolve_reference_None[of env spec used] by simp
    define missing1 where "missing1 = (if needs_environment env used then List.insert (ref_name used) missing else missing)"
    have "visit_references env (knownVariables spec) node (used # refs) missing = visit_references env (knownVariables spec) node refs missing1"
      using None by (simp add: missing1_def)
    moreover have "set missing1 = set missing \<union> ref_name ` {u \<in> {used}. needs_environment env u}" by (auto simp: missing1_def)
    ultimately show ?thesis using Cons[of missing1] ok by (auto split: sum.splits)
  next
    case (Some message)
    then have "\<not> resolvable env spec used" using resolve_reference_None[of env spec used] by simp
    with Some show ?thesis by (simp add: referenceError_def Let_def)
  qed
qed simp

abbreviation visit_scalar :: "environ \<Rightarrow> 'c Spec \<Rightarrow> yaml_node \<Rightarrow> string list \<Rightarrow> ScenarioError + string list" where
  "visit_scalar env spec \<equiv> \<lambda>node. visit_references env (knownVariables spec) node (referencesIn (Node_Value node))"

lemma visit_all_references:
  "case visit_all (visit_scalar env spec) nodes missing of
     Inl err \<Rightarrow> \<exists>node \<in> set nodes. SE_Line err = Node_Line node \<and> (\<exists>used \<in> references_at node. \<not> resolvable env spec used)
   | Inr missing' \<Rightarrow> (\<forall>node \<in> set nodes. \<forall>used \<in> references_at node. resolvable env spec used)
       \<and> set missing' = set missing \<union> (\<Union>node \<in> set nodes. ref_name ` {used \<in> references_at node. needs_environment env used})"
proof (induction nodes arbitrary: missing)
  case (Cons node nodes)
  note first = visit_references_result[where env = env and spec = spec and node = node and refs = "referencesIn (Node_Value node)" and missing = missing]
  show ?case
  proof (cases "visit_scalar env spec node missing")
    case (Inl err)
    with first show ?thesis by (auto simp: references_at_def)
  next
    case (Inr missing1)
    with first Cons[of missing1] show ?thesis by (auto simp: references_at_def split: sum.splits)
  qed
qed simp

text \<open>A file is accepted exactly when every reference in any of its scalars, keys included, has somewhere to come
  from; an error points at the line of a scalar with a reference that has not. What the file still needs
  from the environment is then listed and sorted.\<close>

theorem checkReferences_iff:
  "case checkReferences env document spec of
     Inl err \<Rightarrow> \<exists>node \<in> set (scalars_of document). SE_Line err = Node_Line node \<and> (\<exists>used \<in> references_at node. \<not> resolvable env spec used)
   | Inr spec' \<Rightarrow> (\<forall>node \<in> set (scalars_of document). \<forall>used \<in> references_at node. resolvable env spec used)
       \<and> set (Spec_MissingEnvironment spec') = set (Spec_MissingEnvironment spec)
           \<union> (\<Union>node \<in> set (scalars_of document). ref_name ` {used \<in> references_at node. needs_environment env used})
       \<and> sorted (Spec_MissingEnvironment spec') \<and> spec'\<lparr>Spec_MissingEnvironment := Spec_MissingEnvironment spec\<rparr> = spec"
  using visit_all_references[where env = env and spec = spec and nodes = "scalars_of document" and missing = "[]"]
  by (simp add: checkReferences_def walk_visits sorted_sort_Strings split: sum.splits)


text \<open>A fallback is a credential written in the file, and it passes: the sweep only asks for a reference.\<close>

lemma fallback_secret_accepted: "Contains (TrimSpace v) ''${'' \<Longrightarrow> writtenSafely v"
  by (simp add: writtenSafely_def)

section \<open>Witnesses\<close>

abbreviation scalar :: "string \<Rightarrow> yaml_node" where
  "scalar v \<equiv> Node ScalarNode PlainStyle v 1 1 []"

abbreviation mapping :: "yaml_node list \<Rightarrow> yaml_node" where
  "mapping content \<equiv> Node MappingNode PlainStyle '''' 1 1 content"

definition auth_document :: "string \<Rightarrow> yaml_node" where
  "auth_document line = mapping [scalar ''auth'', mapping [scalar ''type'', scalar ''header'', scalar ''header'', scalar line]]"

lemma auth_documents:
  "refuseLiteralCredentials (\<lambda>_. None) (auth_document ''Authorization: Bearer abc'') \<noteq> None"
  "refuseLiteralCredentials (\<lambda>_. None) (auth_document ''Authorization: Bearer ${TOKEN}'') = None"
  by code_simp+


end
