(* ===== verification/Yaml_Load.thy ===== *)
theory Yaml_Load
  imports Credentials Validation
begin

text \<open>
  Reading the variables and the load of a scenario file (\<open>readVars\<close>, \<open>readLoad\<close> and what they call, in
  \<open>internal/scenario/yaml.go\<close>). The line a phase remembers for later messages is left out, as in the data model.
  Proved: a load plan does not depend on the order of its keys, and one that was read satisfies what the
  validation asks of its rates and users.
\<close>

section \<open>Variables\<close>

definition read_variable :: "environ \<Rightarrow> (string, string) gomap \<Rightarrow> yaml_node \<Rightarrow> yaml_node \<Rightarrow> ScenarioError + (string, string) gomap" where
  "read_variable env vars key val =
    (case refuseLiteralVariable env (Node_Value key) val of
       Some err \<Rightarrow> Inl err
     | None \<Rightarrow> Inr (gput vars (Node_Value key) (ExpandFromEnv env (Node_Value val))))"

definition readVars :: "environ \<Rightarrow> yaml_node \<Rightarrow> ScenarioError + (string, string) gomap" where
  "readVars env node =
    (if Node_Kind node \<noteq> MappingNode
     then refuse env node (Plain (''variables has to be a map, for example:'' @ nl @ ''  variables:'' @ nl @ ''    user: ${USER:-ana}''))
     else read_pairs (read_variable env) (node_pairs (Node_Content node)) [])"

section \<open>Load\<close>

definition closedExample :: string where
  "closedExample = (''  load:'' @ nl @ ''    model: closed'' @ nl @ ''    users: 200'' @ nl @ ''    duration: 5m'' @ nl @ ''    thinkTime: 1s'')"

definition loadKeys :: "string list" where
  "loadKeys = [''model'', ''profiles'', ''users'', ''duration'', ''thinkTime'']"

fun phase_kind :: "string \<Rightarrow> PhaseKind option" where
  "phase_kind kind = (if kind = ''ramp'' then Some PhaseRamp else if kind = ''steady'' then Some PhaseSteady else if kind = ''spike'' then Some PhaseSpike else None)"

definition read_phase_key :: "environ \<Rightarrow> string \<Rightarrow> Phase \<Rightarrow> yaml_node \<Rightarrow> yaml_node \<Rightarrow> ScenarioError + Phase" where
  "read_phase_key env kind phase key val =
    (if Node_Value key = ''from'' then bind_ok (readRate env val) (\<lambda>rate. Inr (phase\<lparr>Ph_From := rate\<rparr>))
     else if Node_Value key \<in> {''to'', ''rate''} then bind_ok (readRate env val) (\<lambda>rate. Inr (phase\<lparr>Ph_To := rate\<rparr>))
     else if Node_Value key = ''duration'' then bind_ok (readDuration env val) (\<lambda>duration. Inr (phase\<lparr>Ph_For := duration\<rparr>))
     else refuse env key (Sprintf (''unknown key in the %q profile: %q'' @ nl @ ''%s'') [ArgS kind, ArgS (Node_Value key),
       ArgM (suggestWithExample (Node_Value key) [''from'', ''to'', ''rate'', ''duration'']
         (''    ramp uses from/to/duration; steady and spike use rate/duration:'' @ nl @ ''      - ramp: { from: 10/s, to: 200/s, duration: 30s }'' @ nl @ ''      - steady: { rate: 200/s, duration: 5m }''))]))"

definition readPhase :: "environ \<Rightarrow> yaml_node \<Rightarrow> ScenarioError + Phase" where
  "readPhase env node =
    (case (Node_Kind node, Node_Content node) of
       (MappingNode, kindNode # body # rest) \<Rightarrow>
         (case phase_kind (Node_Value kindNode) of
            None \<Rightarrow> refuse env kindNode (Sprintf (''unknown profile kind: %q'' @ nl @ ''%s'' @ nl @ ''example: - steady: { rate: 300/s, duration: 5m }'')
              [ArgS (Node_Value kindNode), ArgM (suggest (Node_Value kindNode) [''ramp'', ''steady'', ''spike''])])
          | Some kind \<Rightarrow>
              if Node_Kind body \<noteq> MappingNode
              then refuse env body (Sprintf ''the profile %q needs a map of parameters, for example: %s: { rate: 300/s, duration: 5m }''
                [ArgS (Node_Value kindNode), ArgS (Node_Value kindNode)])
              else bind_ok (read_pairs (read_phase_key env (Node_Value kindNode)) (node_pairs (Node_Content body))
                  \<lparr>Ph_Kind = kind, Ph_From = 0, Ph_To = 0, Ph_For = 0\<rparr>)
                (\<lambda>phase. if Ph_Kind phase = PhaseRamp \<and> Ph_From phase = 0 \<and> Ph_To phase = 0
                   then refuse env body (Plain (''ramp needs '' @ apos @ ''from'' @ apos @ '' and '' @ apos @ ''to'' @ apos @ '', for example: - ramp: { from: 50/s, to: 300/s, duration: 30s }''))
                   else Inr phase))
     | _ \<Rightarrow> refuse env node (Plain (''every profile has to be a map with a kind (ramp, steady, spike), for example:'' @ nl @ ''  - steady: { rate: 300/s, duration: 5m }'')))"

fun closed_only :: "environ \<Rightarrow> (string, yaml_node) gomap \<Rightarrow> string list \<Rightarrow> ScenarioError option" where
  "closed_only env nodes [] = None"
| "closed_only env nodes (key # rest) =
    (case gget nodes key of
       Some node \<Rightarrow> Some (nodeError env (Some node) (Sprintf (''%q only exists in the closed model; in the open model the load is declared as an arrival rate:'' @ nl @ ''  load:'' @ nl @ ''    profiles:'' @ nl @ ''      - steady: { rate: 300/s, duration: 5m }'') [ArgS key]))
     | None \<Rightarrow> closed_only env nodes rest)"

definition readOpenLoad :: "environ \<Rightarrow> LoadPlan \<Rightarrow> (string, yaml_node) gomap \<Rightarrow> ScenarioError + LoadPlan" where
  "readOpenLoad env plan nodes =
    (case closed_only env nodes [''users'', ''duration'', ''thinkTime''] of
       Some err \<Rightarrow> Inl err
     | None \<Rightarrow>
         case gget nodes ''profiles'' of
           None \<Rightarrow> Inr plan
         | Some profiles \<Rightarrow>
             if Node_Kind profiles \<noteq> SequenceNode
             then refuse env profiles (Plain (''profiles has to be a list, one stretch per line:'' @ nl @ ''  profiles:'' @ nl @ ''    - ramp: { from: 50/s, to: 300/s, duration: 30s }'' @ nl @ ''    - steady: { rate: 300/s, duration: 5m }''))
             else bind_ok (read_all (readPhase env) (Node_Content profiles)) (\<lambda>phases. Inr (plan\<lparr>Load_Phases := Load_Phases plan @ phases\<rparr>)))"

definition read_users :: "environ \<Rightarrow> (string, yaml_node) gomap \<Rightarrow> ScenarioError + int" where
  "read_users env nodes =
    (case gget nodes ''users'' of
       None \<Rightarrow> Inl (nodeError env (gget nodes ''model'') (Plain (''the closed model needs '' @ apos @ ''users'' @ apos @ '': the number of simultaneous loops, each waiting for the response before the next iteration'' @ nl @ closedExample)))
     | Some users \<Rightarrow>
         case Atoi (Node_Value users) of
           Some n \<Rightarrow> if n \<le> 0 then refuse env users (Sprintf ''users has to be an integer greater than zero, got %q'' [ArgS (Node_Value users)]) else Inr n
         | None \<Rightarrow> refuse env users (Sprintf ''users has to be an integer greater than zero, got %q'' [ArgS (Node_Value users)]))"

definition read_span :: "environ \<Rightarrow> (string, yaml_node) gomap \<Rightarrow> ScenarioError + Duration" where
  "read_span env nodes =
    (case gget nodes ''duration'' of
       None \<Rightarrow> Inl (nodeError env (gget nodes ''model'') (Plain (''the closed model needs '' @ apos @ ''duration'' @ apos @ '': with no declared rate, it is what says when the run ends'' @ nl @ closedExample)))
     | Some window \<Rightarrow> bind_ok (readDuration env window) (\<lambda>d.
         if d \<le> 0 then refuse env window (Sprintf ''duration has to be greater than zero, got %q'' [ArgS (Node_Value window)]) else Inr d))"

definition read_think :: "environ \<Rightarrow> (string, yaml_node) gomap \<Rightarrow> ScenarioError + Duration" where
  "read_think env nodes =
    (case gget nodes ''thinkTime'' of
       None \<Rightarrow> Inr 0
     | Some think \<Rightarrow> bind_ok (readDuration env think) (\<lambda>d.
         if d < 0 then refuse env think (Sprintf ''thinkTime cannot be negative, got %q'' [ArgS (Node_Value think)]) else Inr d))"

definition readClosedLoad :: "environ \<Rightarrow> LoadPlan \<Rightarrow> (string, yaml_node) gomap \<Rightarrow> ScenarioError + LoadPlan" where
  "readClosedLoad env plan nodes =
    (case gget nodes ''profiles'' of
       Some profiles \<Rightarrow> refuse env profiles (Plain (''the closed model does not use '' @ apos @ ''profiles'' @ apos @ '': in a closed loop the rate is a consequence of how fast the target answers, not something you declare. Say how many users and for how long:'' @ nl @ closedExample))
     | None \<Rightarrow>
         bind_ok (read_users env nodes) (\<lambda>users. bind_ok (read_span env nodes) (\<lambda>window. bind_ok (read_think env nodes) (\<lambda>think.
           Inr (plan\<lparr>Load_Users := users, Load_For := window, Load_ThinkTime := think\<rparr>)))))"

definition collect_load_key :: "environ \<Rightarrow> (string, yaml_node) gomap \<Rightarrow> yaml_node \<Rightarrow> yaml_node \<Rightarrow> ScenarioError + (string, yaml_node) gomap" where
  "collect_load_key env nodes key val =
    (if Node_Value key \<notin> set loadKeys
     then refuse env key (Sprintf (''unknown key in load: %q'' @ nl @ ''%s'') [ArgS (Node_Value key),
       ArgM (suggestWithExample (Node_Value key) loadKeys (''    example:'' @ nl @ ''      load:'' @ nl @ ''        profiles:'' @ nl @ ''          - ramp: { from: 10/s, to: 200/s, duration: 30s }'' @ nl @ ''          - steady: { rate: 200/s, duration: 5m }''))])
     else Inr (gput nodes (Node_Value key) val))"

definition read_model :: "environ \<Rightarrow> (string, yaml_node) gomap \<Rightarrow> ScenarioError + ArrivalModel" where
  "read_model env nodes =
    (case gget nodes ''model'' of
       None \<Rightarrow> Inr OpenArrival
     | Some model \<Rightarrow>
         if Node_Value model = ''open'' then Inr OpenArrival
         else if Node_Value model = ''closed'' then Inr ClosedArrival
         else refuse env model (Sprintf (''unknown load model: %q (the models are '' @ apos @ ''open'' @ apos @ '', which is the default, and '' @ apos @ ''closed'' @ apos @ '')'') [ArgS (Node_Value model)]))"

definition openPlan :: "ArrivalModel \<Rightarrow> LoadPlan" where
  "openPlan model = \<lparr>Load_Model = model, Load_Phases = [], Load_Users = 0, Load_For = 0, Load_ThinkTime = 0\<rparr>"

definition judge_load :: "environ \<Rightarrow> (string, yaml_node) gomap \<Rightarrow> ScenarioError + LoadPlan" where
  "judge_load env nodes = bind_ok (read_model env nodes) (\<lambda>model.
     if model = ClosedArrival then readClosedLoad env (openPlan model) nodes else readOpenLoad env (openPlan model) nodes)"

definition readLoad :: "environ \<Rightarrow> yaml_node \<Rightarrow> ScenarioError + LoadPlan" where
  "readLoad env node =
    (if Node_Kind node \<noteq> MappingNode
     then refuse env node (Plain (''load has to be a map, for example:'' @ nl @ ''  load:'' @ nl @ ''    profiles:'' @ nl @ ''      - steady: { rate: 300/s, duration: 1m }''))
     else bind_ok (read_pairs (collect_load_key env) (node_pairs (Node_Content node)) []) (judge_load env))"

section \<open>The order of the keys does not matter\<close>

lemma judge_load_cong:
  assumes "\<And>key. gget nodes key = gget nodes' key"
  shows "judge_load env nodes = judge_load env nodes'"
proof -
  have parts: "read_users env nodes = read_users env nodes'" "read_span env nodes = read_span env nodes'" "read_think env nodes = read_think env nodes'"
      "read_model env nodes = read_model env nodes'"
    unfolding read_users_def read_span_def read_think_def read_model_def assms by (rule refl)+
  have only: "closed_only env nodes keys = closed_only env nodes' keys" for keys
    using assms by (induction keys) (simp_all split: option.splits)
  show ?thesis unfolding judge_load_def readClosedLoad_def readOpenLoad_def assms parts only by (rule refl)
qed

abbreviation keyed :: "(yaml_node \<times> yaml_node) list \<Rightarrow> (string \<times> yaml_node) list" where
  "keyed pairs \<equiv> map (\<lambda>(key, val). (Node_Value key, val)) pairs"

lemma collect_load_key_Inr:
  "collect_load_key env nodes key val = Inr nodes' \<longleftrightarrow> Node_Value key \<in> set loadKeys \<and> nodes' = gput nodes (Node_Value key) val"
  by (auto simp: collect_load_key_def)

lemma collect_load_gget:
  "read_pairs (collect_load_key env) pairs nodes = Inr nodes' \<Longrightarrow>
   gget nodes' key = (case map_of (rev (keyed pairs)) key of None \<Rightarrow> gget nodes key | Some val \<Rightarrow> Some val)
   \<and> (\<forall>(k, v) \<in> set pairs. Node_Value k \<in> set loadKeys)"
proof (induction pairs arbitrary: nodes)
  case (Cons pair pairs)
  obtain k v where pair: "pair = (k, v)" by fastforce
  from Cons.prems have known: "Node_Value k \<in> set loadKeys" and rest: "read_pairs (collect_load_key env) pairs (gput nodes (Node_Value k) v) = Inr nodes'"
    by (auto simp: pair collect_load_key_Inr)
  from Cons.IH[OF rest] known show ?case by (auto simp: pair map_add_def split: option.splits)
qed simp

lemma collect_load_ok: "\<forall>(k, v) \<in> set pairs. Node_Value k \<in> set loadKeys \<Longrightarrow> \<exists>nodes'. read_pairs (collect_load_key env) pairs nodes = Inr nodes'"
proof (induction pairs arbitrary: nodes)
  case (Cons pair pairs)
  then show ?case by (cases pair) (auto simp: collect_load_key_Inr)
qed simp

text \<open>The plan that is read does not depend on the order in which the keys of \<open>load\<close> are written: a model declared
  after the keys that only make sense under it is read as one declared before them.\<close>

theorem readLoad_ignores_key_order:
  assumes "mset (node_pairs (Node_Content node)) = mset (node_pairs (Node_Content node'))"
    and "distinct (map (\<lambda>(key, val). Node_Value key) (node_pairs (Node_Content node)))"
    and "Node_Kind node = MappingNode" and "Node_Kind node' = MappingNode"
    and "readLoad env node = Inr plan"
  shows "readLoad env node' = Inr plan"
proof -
  let ?p = "node_pairs (Node_Content node)" and ?p' = "node_pairs (Node_Content node')"
  from assms(3,5) obtain nodes where read: "read_pairs (collect_load_key env) ?p [] = Inr nodes" and judged: "judge_load env nodes = Inr plan"
    by (auto simp: readLoad_def)
  have same: "set ?p = set ?p'" using assms(1) by (metis set_mset_mset)
  with collect_load_gget[OF read] obtain nodes' where read': "read_pairs (collect_load_key env) ?p' [] = Inr nodes'"
    using collect_load_ok[of ?p' env "[]"] by blast
  have "map_of (rev (keyed ?p)) = map_of (rev (keyed ?p'))"
  proof (rule map_of_inject_set[THEN iffD2])
    have keys: "map fst (rev (keyed pairs)) = rev (map (\<lambda>(key, val). Node_Value key) pairs)" for pairs by (induction pairs) auto
    show "distinct (map fst (rev (keyed ?p)))" using assms(2) unfolding keys by simp
    have "mset (map (\<lambda>(key, val). Node_Value key) ?p) = mset (map (\<lambda>(key, val). Node_Value key) ?p')" using assms(1) by simp
    with assms(2) have "distinct (map (\<lambda>(key, val). Node_Value key) ?p')" by (metis mset_eq_imp_distinct_iff)
    then show "distinct (map fst (rev (keyed ?p')))" unfolding keys by simp
    show "set (rev (keyed ?p)) = set (rev (keyed ?p'))" using same by simp
  qed
  with collect_load_gget[OF read] collect_load_gget[OF read'] have "gget nodes key = gget nodes' key" for key by simp
  from judge_load_cong[OF this] judged read' assms(4) show ?thesis by (simp add: readLoad_def)
qed

section \<open>What a plan that was read satisfies\<close>

definition phase_read :: "Phase \<Rightarrow> bool" where
  "phase_read phase \<longleftrightarrow> 0 \<le> Ph_From phase \<and> 0 \<le> Ph_To phase \<and> (Ph_Kind phase = PhaseRamp \<longrightarrow> 0 < Ph_From phase \<or> 0 < Ph_To phase)"

lemma read_phase_key_rates:
  "read_phase_key env kind phase key val = Inr phase' \<Longrightarrow> 0 \<le> Ph_From phase \<and> 0 \<le> Ph_To phase \<Longrightarrow> 0 \<le> Ph_From phase' \<and> 0 \<le> Ph_To phase'"
  by (auto simp: read_phase_key_def dest: readRate_positive split: if_splits)

lemma readPhase_read:
  assumes "readPhase env node = Inr phase"
  shows "phase_read phase"
proof -
  from assms obtain name body kind where read: "read_pairs (read_phase_key env name) (node_pairs (Node_Content body))
        \<lparr>Ph_Kind = kind, Ph_From = 0, Ph_To = 0, Ph_For = 0\<rparr> = Inr phase"
      and ramp: "\<not> (Ph_Kind phase = PhaseRamp \<and> Ph_From phase = 0 \<and> Ph_To phase = 0)"
    by (auto simp: readPhase_def split: node_kind.splits list.splits option.splits if_splits)
  have "0 \<le> Ph_From phase \<and> 0 \<le> Ph_To phase"
    by (rule read_pairs_inv[OF read, where P = "\<lambda>phase. 0 \<le> Ph_From phase \<and> 0 \<le> Ph_To phase"]) (auto dest: read_phase_key_rates)
  with ramp show ?thesis by (auto simp: phase_read_def)
qed

lemma closed_load_read:
  "readClosedLoad env plan nodes = Inr plan' \<Longrightarrow>
   Load_Model plan' = Load_Model plan \<and> Load_Phases plan' = Load_Phases plan \<and> 0 < Load_Users plan' \<and> 0 < Load_For plan' \<and> 0 \<le> Load_ThinkTime plan'"
  by (auto simp: readClosedLoad_def read_users_def read_span_def read_think_def split: option.splits if_splits)

lemma open_load_read:
  "readOpenLoad env plan nodes = Inr plan' \<Longrightarrow> \<exists>phases. plan' = plan\<lparr>Load_Phases := Load_Phases plan @ phases\<rparr> \<and> (\<forall>phase \<in> set phases. phase_read phase)"
proof -
  assume read: "readOpenLoad env plan nodes = Inr plan'"
  then consider "plan' = plan"
    | profiles phases where "read_all (readPhase env) (Node_Content profiles) = Inr phases" "plan' = plan\<lparr>Load_Phases := Load_Phases plan @ phases\<rparr>"
    by (auto simp: readOpenLoad_def split: option.splits if_splits)
  then show ?thesis
  proof cases
    case 1
    then have "plan' = plan\<lparr>Load_Phases := Load_Phases plan @ []\<rparr>" by simp
    then show ?thesis by (intro exI[of _ "[]"]) simp
  next
    case 2
    have "\<forall>phase \<in> set phases. phase_read phase" by (intro ballI) (rule read_all_each[OF 2(1)], erule readPhase_read)
    with 2(2) show ?thesis by blast
  qed
qed

lemma readLoad_plan:
  assumes "readLoad env node = Inr plan"
  shows "case Load_Model plan of
      ClosedArrival \<Rightarrow> Load_Phases plan = [] \<and> 0 < Load_Users plan \<and> 0 < Load_For plan \<and> 0 \<le> Load_ThinkTime plan
    | OpenArrival \<Rightarrow> Load_Users plan = 0 \<and> Load_For plan = 0 \<and> Load_ThinkTime plan = 0 \<and> (\<forall>phase \<in> set (Load_Phases plan). phase_read phase)"
proof -
  from assms obtain nodes where "judge_load env nodes = Inr plan" by (auto simp: readLoad_def split: if_splits)
  then obtain model where judged: "(if model = ClosedArrival then readClosedLoad env (openPlan model) nodes
      else readOpenLoad env (openPlan model) nodes) = Inr plan"
    unfolding judge_load_def bind_ok_Inr by blast
  show ?thesis
  proof (cases model)
    case ClosedArrival
    with judged closed_load_read[of env "openPlan model" nodes plan] show ?thesis by (simp add: openPlan_def)
  next
    case OpenArrival
    with judged open_load_read[of env "openPlan model" nodes plan] show ?thesis by (auto simp: openPlan_def)
  qed
qed

section \<open>Witnesses\<close>

definition load_keys :: "yaml_node list" where
  "load_keys = [scalar ''users'', scalar ''3'', scalar ''duration'', scalar ''5m'', scalar ''model'', scalar ''closed'']"

definition load_keys_reordered :: "yaml_node list" where
  "load_keys_reordered = [scalar ''model'', scalar ''closed'', scalar ''duration'', scalar ''5m'', scalar ''users'', scalar ''3'']"

definition load_plan_read :: LoadPlan where
  "load_plan_read = \<lparr>Load_Model = ClosedArrival, Load_Phases = [], Load_Users = 3, Load_For = 300 * Second, Load_ThinkTime = 0\<rparr>"

lemma load_is_read: "readLoad (\<lambda>_. None) (mapping load_keys) = Inr load_plan_read" by code_simp

theorem readLoad_ignores_key_order_witness:
  "readLoad (\<lambda>_. None) (mapping load_keys) = Inr load_plan_read \<and> readLoad (\<lambda>_. None) (mapping load_keys_reordered) = Inr load_plan_read"
  using readLoad_ignores_key_order[of "mapping load_keys" "mapping load_keys_reordered", OF _ _ _ _ load_is_read] load_is_read
  by (simp add: load_keys_def load_keys_reordered_def)

end
