(* ===== verification/Yaml_Correlation.thy ===== *)
theory Yaml_Correlation
  imports Credentials Slo
begin

text \<open>
  Reading captures, checks, data sources and the rules of the gate (\<open>internal/scenario/yaml_correlation.go\<close>,
  \<open>ReadSeed\<close> of \<open>seed.go\<close>, \<open>readRequirements\<close> of \<open>validation.go\<close>). The line each of them remembers for later messages is
  left out, as in the data model, and so are the words of an error of the standard library. Proved: a
  comparison is read back as it was written, and every rule of the gate that is read is one the evaluation
  really measures.
\<close>

section \<open>Captures\<close>

definition ParseCapture :: "string \<Rightarrow> string \<Rightarrow> sentence + Capture" where
  "ParseCapture name text =
    (let expression = TrimSpace text;
         capture = (\<lambda>origin expression. \<lparr>Cap_Variable = name, Cap_Origin = origin, Cap_Expression = expression, Cap_Required = True, Cap_Default = ''''\<rparr>)
     in if expression = ''status'' then Inr (capture CaptureStatus expression)
        else if expression = ''body'' then Inr (capture CaptureBody expression)
        else if HasPrefix expression ''$'' then Inr (capture CaptureJSON expression)
        else if HasPrefix expression ''header:'' then Inr (capture CaptureHeader (TrimSpace (TrimPrefix expression ''header:'')))
        else if HasPrefix expression ''cookie:'' then Inr (capture CaptureCookie (TrimSpace (TrimPrefix expression ''cookie:'')))
        else if HasPrefix expression ''/'' \<and> HasSuffix expression ''/'' \<and> length expression > 2
        then Inr (capture CaptureRegex (take (length expression - 2) (drop 1 expression)))
        else Inl (Sprintf (''could not tell where to capture %q from.'' @ nl @ ''    use one of these forms:'' @ nl @ ''      %s: $.path.in.the.json     from a field of the JSON body'' @ nl @ ''      %s: header:X-Request-Id    from a response header'' @ nl @ ''      %s: cookie:session         the value of a cookie from Set-Cookie'' @ nl @ ''      %s: /token=([a-z0-9]+)/    by the first group of the regular expression'') (replicate 5 (ArgS name))))"

definition parseCaptureExpression :: "environ \<Rightarrow> string \<Rightarrow> yaml_node \<Rightarrow> ScenarioError + Capture" where
  "parseCaptureExpression env name node =
    (case ParseCapture name (Node_Value node) of Inl err \<Rightarrow> refuse env node (Sprintf ''%v'' [ArgM err]) | Inr capture \<Rightarrow> Inr capture)"

definition read_capture_key :: "environ \<Rightarrow> string \<Rightarrow> Capture \<Rightarrow> yaml_node \<Rightarrow> yaml_node \<Rightarrow> ScenarioError + Capture" where
  "read_capture_key env name capture key val =
    (if Node_Value key = ''from'' then bind_ok (parseCaptureExpression env name val)
       (\<lambda>parsed. Inr (capture\<lparr>Cap_Origin := Cap_Origin parsed, Cap_Expression := Cap_Expression parsed\<rparr>))
     else if Node_Value key = ''default'' then Inr (capture\<lparr>Cap_Default := Node_Value val, Cap_Required := False\<rparr>)
     else if Node_Value key = ''required'' then Inr (capture\<lparr>Cap_Required := (Node_Value val \<noteq> ''false'')\<rparr>)
     else refuse env key (Sprintf ''unknown key in the capture %q: %q (use from, default or required)'' [ArgS name, ArgS (Node_Value key)]))"

definition readFullCapture :: "environ \<Rightarrow> string \<Rightarrow> yaml_node \<Rightarrow> ScenarioError + Capture" where
  "readFullCapture env name node =
    bind_ok (read_pairs (read_capture_key env name) (node_pairs (Node_Content node))
        \<lparr>Cap_Variable = name, Cap_Origin = CaptureUnknown, Cap_Expression = '''', Cap_Required = True, Cap_Default = ''''\<rparr>)
      (\<lambda>capture. if Cap_Origin capture = CaptureUnknown
         then refuse env node (Sprintf (''the capture %q needs '' @ apos @ ''from'' @ apos @ '', for example: from: $.invoice.id'') [ArgS name]) else Inr capture)"

definition read_capture :: "environ \<Rightarrow> yaml_node \<times> yaml_node \<Rightarrow> ScenarioError + Capture" where
  "read_capture env = (\<lambda>(name, val).
     if Node_Kind val = MappingNode then readFullCapture env (Node_Value name) val else parseCaptureExpression env (Node_Value name) val)"

definition readCaptures :: "environ \<Rightarrow> yaml_node \<Rightarrow> ScenarioError + Capture list" where
  "readCaptures env node =
    (if Node_Kind node \<noteq> MappingNode
     then refuse env node (Plain ''capture has to be a map, for example: capture: { invoiceId: $.invoice.id }'')
     else read_all (read_capture env) (node_pairs (Node_Content node)))"

section \<open>Checks and assertions\<close>

definition first_operator :: "Operator list \<Rightarrow> string \<Rightarrow> Operator option" where
  "first_operator operators text = List.find (\<lambda>operator. HasPrefix text (operator_text operator)) operators"

definition ParseComparison :: "string \<Rightarrow> string \<Rightarrow> Assertion" where
  "ParseComparison target raw =
    (let text = TrimSpace raw;
         assertion = (\<lambda>operator v. \<lparr>As_Kind = AssertUnknown, As_Target = target, As_Operator = operator, As_Value = v\<rparr>)
     in case first_operator [OpLessOrEqual, OpGreaterOrEqual, OpNotEqual, OpLess, OpGreater] text of
          Some operator \<Rightarrow> assertion operator (TrimSpace (TrimPrefix text (operator_text operator)))
        | None \<Rightarrow>
            if HasPrefix text ''contains '' then assertion OpContains (TrimSpace (TrimPrefix text ''contains ''))
            else if text = ''exists'' then assertion OpExists ''''
            else if text = ''contains'' then assertion OpContains text
            else assertion OpEqual text)"

definition read_status :: "environ \<Rightarrow> yaml_node \<Rightarrow> ScenarioError + Check" where
  "read_status env val =
    (case Atoi (TrimSpace (Node_Value val)) of
       None \<Rightarrow> refuse env val (Sprintf ''invalid status: %q (use a number, for example 200)'' [ArgS (Node_Value val)])
     | Some status \<Rightarrow> Inr \<lparr>Check_Kind = CheckStatus, Check_Status = status, Check_Text = ''''\<rparr>)"

definition json_assertion :: "yaml_node \<times> yaml_node \<Rightarrow> Assertion" where
  "json_assertion = (\<lambda>(key, val). (ParseComparison (Node_Value key) (Node_Value val))\<lparr>As_Kind := AssertJSON\<rparr>)"

definition header_assertion :: "yaml_node \<times> yaml_node \<Rightarrow> Assertion" where
  "header_assertion = (\<lambda>(key, val). \<lparr>As_Kind = AssertHeader, As_Target = Node_Value key, As_Operator = OpEqual, As_Value = Node_Value val\<rparr>)"

definition body_assertion :: "AssertionKind \<Rightarrow> yaml_node \<Rightarrow> Assertion" where
  "body_assertion kind val = \<lparr>As_Kind = kind, As_Target = '''', As_Operator = OpNone, As_Value = Node_Value val\<rparr>"

definition read_check_key :: "environ \<Rightarrow> Check list \<times> Assertion list \<Rightarrow> yaml_node \<Rightarrow> yaml_node \<Rightarrow> ScenarioError + Check list \<times> Assertion list" where
  "read_check_key env acc key val = (case acc of (checks, assertions) \<Rightarrow>
     if Node_Value key = ''status'' then bind_ok (read_status env val) (\<lambda>check. Inr (checks @ [check], assertions))
     else if Node_Value key = ''bodyContains'' then Inr (checks, assertions @ [body_assertion AssertBodyContains val])
     else if Node_Value key = ''bodyMatches'' then Inr (checks, assertions @ [body_assertion AssertRegex val])
     else if Node_Value key = ''json'' then
       (if Node_Kind val \<noteq> MappingNode then refuse env val (Plain ''json has to be a map, for example: json: { $.status: PAID }'')
        else Inr (checks, assertions @ map json_assertion (node_pairs (Node_Content val))))
     else if Node_Value key = ''header'' then
       (if Node_Kind val \<noteq> MappingNode then refuse env val (Plain ''header has to be a map, for example: header: { Content-Type: application/json }'')
        else Inr (checks, assertions @ map header_assertion (node_pairs (Node_Content val))))
     else refuse env key (Sprintf (''unknown check: %q'' @ nl @ ''    available: status, bodyContains, bodyMatches, json, header'') [ArgS (Node_Value key)]))"

definition readAssertions :: "environ \<Rightarrow> yaml_node \<Rightarrow> ScenarioError + Check list \<times> Assertion list" where
  "readAssertions env node =
    (if Node_Kind node \<noteq> MappingNode then refuse env node (Plain ''expect has to be a map, for example: expect: { status: 200 }'')
     else read_pairs (read_check_key env) (node_pairs (Node_Content node)) ([], []))"

section \<open>Data sources\<close>

text \<open>\<open>FindStringSubmatch\<close> of the reference pattern: the name of the first reference of a text.\<close>

definition referencedEnvironmentName :: "string \<Rightarrow> string" where
  "referencedEnvironmentName text =
    (case List.map_filter (\<lambda>seg. case seg of Lit c \<Rightarrow> None | Ref offset name fallback \<Rightarrow> Some name) (scanVars scenario_name_char 0 text) of
       [] \<Rightarrow> '''' | name # _ \<Rightarrow> name)"

definition ReadSeed :: "environ \<Rightarrow> string \<Rightarrow> sentence + int \<times> string" where
  "ReadSeed env declared =
    (let text = TrimSpace declared; resolved = ExpandFromEnv env text; name = referencedEnvironmentName text;
         origin = (if name \<noteq> '''' \<and> env name \<noteq> None then name else '''')
     in case Atoi (TrimSpace resolved) of
          Some seed \<Rightarrow> Inr (seed, origin)
        | None \<Rightarrow>
            if origin \<noteq> '''' then Inl (Sprintf ''invalid seed: $%s is %q and the seed has to be a whole number'' [ArgS origin, ArgS resolved])
            else Inl (Sprintf ''invalid seed: %q (use a whole number, or ${SEED:-42} to take it from the environment)'' [ArgS declared]))"

definition ParseGenerator :: "string \<Rightarrow> Generator" where
  "ParseGenerator recipe = \<lparr>Gen_Recipe = recipe, Gen_Format = '''', Gen_PerUse = False\<rparr>"

definition read_generator_key :: "environ \<Rightarrow> string \<Rightarrow> Generator \<Rightarrow> yaml_node \<Rightarrow> yaml_node \<Rightarrow> ScenarioError + Generator" where
  "read_generator_key env field generator key val =
    (if Node_Value key = ''type'' then Inr (generator\<lparr>Gen_Recipe := Node_Value val\<rparr>)
     else if Node_Value key = ''format'' then Inr (generator\<lparr>Gen_Format := Node_Value val\<rparr>)
     else if Node_Value key = ''newEvery'' then
       (if Node_Value val = ''use'' then Inr (generator\<lparr>Gen_PerUse := True\<rparr>)
        else if Node_Value val = ''iteration'' then Inr (generator\<lparr>Gen_PerUse := False\<rparr>)
        else refuse env val (Sprintf (''newEvery takes '' @ apos @ ''iteration'' @ apos @ '' (the default) or '' @ apos @ ''use'' @ apos @ '': %q'' @ nl @ ''    iteration keeps the same value across both steps of the same journey, which is what an idempotency key needs'') [ArgS (Node_Value val)]))
     else refuse env key (Sprintf (''unknown key in the field %q: %q'' @ nl @ ''    available: type, format, newEvery'' @ nl @ ''    example: %s: { type: pattern, format: \"ORD-######\" }'') [ArgS field, ArgS (Node_Value key), ArgS field]))"

definition readGenerator :: "environ \<Rightarrow> string \<Rightarrow> yaml_node \<Rightarrow> ScenarioError + Generator" where
  "readGenerator env field node =
    (if Node_Kind node \<noteq> MappingNode then Inr (ParseGenerator (Node_Value node))
     else bind_ok (read_pairs (read_generator_key env field) (node_pairs (Node_Content node)) \<lparr>Gen_Recipe = '''', Gen_Format = '''', Gen_PerUse = False\<rparr>)
       (\<lambda>generator.
          if Gen_Recipe generator = '''' then refuse env node (Sprintf (''the field %q needs '' @ apos @ ''type'' @ apos @ '', for example: %s: { type: pattern, format: \"ORD-######\" }'') [ArgS field, ArgS field])
          else if Gen_Recipe generator = ''pattern'' \<and> Gen_Format generator = ''''
          then refuse env node (Sprintf (''the field %q is of type pattern and needs '' @ apos @ ''format'' @ apos @ '', for example: { type: pattern, format: \"ORD-######\" }'' @ nl @ ''    # becomes a digit and @ becomes a letter; everything else comes out literal'') [ArgS field])
          else Inr generator))"

definition read_generated_field :: "environ \<Rightarrow> (string, Generator) gomap \<Rightarrow> yaml_node \<Rightarrow> yaml_node \<Rightarrow> ScenarioError + (string, Generator) gomap" where
  "read_generated_field env generated key val = bind_ok (readGenerator env (Node_Value key) val) (\<lambda>generator. Inr (gput generated (Node_Value key) generator))"

fun consume_policy :: "string \<Rightarrow> ConsumePolicy option" where
  "consume_policy mode = (if mode = ''sequential'' then Some ConsumeSequential else if mode = ''random'' then Some ConsumeRandom
     else if mode = ''circular'' then Some ConsumeCircular else if mode = ''uniquePerUser'' then Some ConsumeUniquePerUser else None)"

definition read_source_key :: "environ \<Rightarrow> string \<Rightarrow> DataSource \<Rightarrow> yaml_node \<Rightarrow> yaml_node \<Rightarrow> ScenarioError + DataSource" where
  "read_source_key env name source key val =
    (if Node_Value key = ''file'' then Inr (source\<lparr>Data_File := Node_Value val\<rparr>)
     else if Node_Value key = ''consume'' then
       (case consume_policy (Node_Value val) of
          Some policy \<Rightarrow> Inr (source\<lparr>Data_Consume := policy\<rparr>)
        | None \<Rightarrow> refuse env val (Sprintf (''unknown consume mode: %q'' @ nl @ ''    available: circular (default), sequential, random, uniquePerUser'') [ArgS (Node_Value val)]))
     else if Node_Value key = ''seed'' then
       (case ReadSeed env (Node_Value val) of
          Inl err \<Rightarrow> refuse env val (Sprintf ''%v'' [ArgM err])
        | Inr (seed, origin) \<Rightarrow> Inr (source\<lparr>Data_Seed := seed, Data_SeedFrom := origin\<rparr>))
     else if Node_Value key = ''generate'' then
       (if Node_Kind val \<noteq> MappingNode then refuse env val (Plain ''generate has to be a map, for example: generate: { id: uuid, amount: number(10,500) }'')
        else bind_ok (read_pairs (read_generated_field env) (node_pairs (Node_Content val)) []) (\<lambda>generated. Inr (source\<lparr>Data_Fields := generated\<rparr>)))
     else refuse env key (Sprintf (''unknown key in the data source %q: %q'' @ nl @ ''    available: file, generate, consume, seed'') [ArgS name, ArgS (Node_Value key)]))"

definition read_source :: "environ \<Rightarrow> yaml_node \<times> yaml_node \<Rightarrow> ScenarioError + DataSource" where
  "read_source env = (\<lambda>(name, body).
     if Node_Kind body \<noteq> MappingNode
     then refuse env body (Sprintf (''the data source %q needs a map with '' @ apos @ ''file'' @ apos @ '' or '' @ apos @ ''generate'' @ apos @ '', for example:'' @ nl @ ''  %s: { file: data/subscribers.csv, consume: circular }'') [ArgS (Node_Value name), ArgS (Node_Value name)])
     else bind_ok (read_pairs (read_source_key env (Node_Value name)) (node_pairs (Node_Content body))
         \<lparr>Data_Name = Node_Value name, Data_File = '''', Data_Consume = ConsumeCircular, Data_Seed = 0, Data_SeedFrom = '''', Data_Fields = []\<rparr>)
       (\<lambda>source. if Data_File source = '''' \<and> Data_Fields source = []
          then refuse env body (Sprintf (''the data source %q needs '' @ apos @ ''file'' @ apos @ '' (CSV) or '' @ apos @ ''generate'' @ apos @ '' (synthetic data)'') [ArgS (Node_Value name)])
          else Inr source))"

definition readData :: "environ \<Rightarrow> yaml_node \<Rightarrow> ScenarioError + DataSource list" where
  "readData env node =
    (if Node_Kind node \<noteq> MappingNode
     then refuse env node (Plain (''data has to be a map of sources, for example:'' @ nl @ ''    data:'' @ nl @ ''      subscribers:'' @ nl @ ''        file: data/subscribers.csv''))
     else read_all (read_source env) (node_pairs (Node_Content node)))"

section \<open>Rules of the gate\<close>

definition scopeOf :: "string \<Rightarrow> SLOScope" where
  "scopeOf target = (if target = ''global'' then ScopeOverall else if target = ''journey'' then ScopeJourney
     else if target = ''regression'' then ScopeRegression else ScopeStep)"

definition isRegressionMetric :: "string \<Rightarrow> bool" where
  "isRegressionMetric metric =
    list_ex (\<lambda>prefix. HasPrefix metric prefix \<and> drop (length prefix) metric \<in> {''P50'', ''P75'', ''P90'', ''P95'', ''P99'', ''P99.9'', ''Max''}) [''journey'', ''global'']"

definition describeMetric :: "SLORule \<Rightarrow> sentence + SLORule" where
  "describeMetric rule =
    (let metric = Rule_Metric rule
     in if Rule_Scope rule = ScopeRegression then
          (if \<not> isRegressionMetric metric then Inl (Sprintf (''unknown regression metric: %q'' @ nl @ ''    available: journeyP50, journeyP95, journeyP99, globalP95, globalP99'' @ nl @ ''    example: - regression: { journeyP95: <= 10%% worse }'') [ArgS metric])
           else Inr (rule\<lparr>Rule_Unit := ''% worse''\<rparr>))
        else bind_ok
          (if metric \<in> {''p50'', ''p75'', ''p90'', ''p95'', ''p99'', ''p99.9'', ''max''} then Inr (rule\<lparr>Rule_Unit := ''ms''\<rparr>)
           else if metric = ''errors'' then Inr (rule\<lparr>Rule_Unit := ''%''\<rparr>)
           else if metric = ''success'' then Inr (rule\<lparr>Rule_Unit := ''%'', Rule_Operator := OpGreaterOrEqual\<rparr>)
           else if metric = ''throughput'' then
             (if Rule_Scope rule \<noteq> ScopeOverall then Inl (Sprintf (''%q only exists in global, because it is the rate of the whole run'' @ nl @ ''    write:  - global: { %s: >= 200/s }'') [ArgS metric, ArgS metric])
              else Inr (rule\<lparr>Rule_Unit := ''/s'', Rule_Operator := OpGreaterOrEqual\<rparr>))
           else Inl (Sprintf (''unknown slo metric: %q'' @ nl @ ''    available: p50, p75, p90, p95, p99, p99.9, max, errors, success, throughput'') [ArgS metric]))
          (\<lambda>rule. if Rule_Scope rule = ScopeJourney \<and> metric \<in> {''errors'', ''success''}
             then Inl (Sprintf (''%q does not exist in journey: a journey that does not reach the end already invalidates the run'' @ nl @ ''    for the error rate write:  - global: { %s: ... }'') [ArgS metric, ArgS metric])
             else Inr rule))"

definition parseLimit :: "string \<Rightarrow> string \<Rightarrow> real option" where
  "parseLimit text unit =
    (let text = TrimSpace text
     in if unit = ''ms'' then
          (case ParseDuration text of
             Some duration \<Rightarrow> Some (real_of_int (Microseconds duration) / 1000)
           | None \<Rightarrow> ParseFloat text)
        else if unit = ''%'' then ParseFloat (TrimSuffix text ''%'')
        else if unit = ''% worse'' then ParseFloat (TrimSpace (TrimSuffix (TrimSpace (TrimSuffix text ''worse'')) ''%''))
        else ParseFloat (TrimSuffix text ''/s''))"

definition read_limit :: "string \<Rightarrow> SLORule \<Rightarrow> sentence + SLORule" where
  "read_limit rawLimit rule =
    (let text = TrimSpace rawLimit; rule = rule\<lparr>Rule_Text := Rule_Metric rule @ '': '' @ text\<rparr>;
         (rule, text) = (case first_operator [OpLessOrEqual, OpGreaterOrEqual, OpLess, OpGreater] text of
             Some operator \<Rightarrow> (rule\<lparr>Rule_Operator := operator\<rparr>, TrimSpace (TrimPrefix text (operator_text operator)))
           | None \<Rightarrow> (rule, text))
     in case parseLimit text (Rule_Unit rule) of
          None \<Rightarrow> Inl (Sprintf (''invalid limit in %q: %v'' @ nl @ ''    examples: p95: < 150ms | errors: < 0.1 | success: >= 99.9 | throughput: >= 200/s | journeyP95: <= 10%% worse'') [ArgS (Rule_Metric rule), ArgS text])
        | Some limit \<Rightarrow> Inr (rule\<lparr>Rule_Limit := limit\<rparr>))"

definition ParseSLORule :: "string \<Rightarrow> string \<Rightarrow> string \<Rightarrow> sentence + SLORule" where
  "ParseSLORule target metric rawLimit =
    (let scope = scopeOf target
     in bind_ok (describeMetric \<lparr>Rule_Scope = scope, Rule_Step = (if scope \<noteq> ScopeStep then '''' else target), Rule_Metric = metric,
            Rule_Operator = OpLessOrEqual, Rule_Limit = 0, Rule_Unit = '''', Rule_Text = ''''\<rparr>) (read_limit rawLimit))"

definition readSLORule :: "environ \<Rightarrow> string \<Rightarrow> yaml_node \<times> yaml_node \<Rightarrow> ScenarioError + SLORule" where
  "readSLORule env target = (\<lambda>(metricNode, limitNode).
     case ParseSLORule target (Node_Value metricNode) (Node_Value limitNode) of
       Inl err \<Rightarrow> refuse env limitNode (Sprintf ''%v'' [ArgM err]) | Inr rule \<Rightarrow> Inr rule)"

definition read_rules_of :: "environ \<Rightarrow> yaml_node \<Rightarrow> ScenarioError + SLORule list" where
  "read_rules_of env item =
    (case (Node_Kind item, Node_Content item) of
       (MappingNode, target # limits # rest) \<Rightarrow>
         if Node_Kind limits \<noteq> MappingNode
         then refuse env limits (Sprintf ''the limits of %q have to be a map, for example: { p95: < 150ms, errors: 0 %% }'' [ArgS (Node_Value target)])
         else read_all (readSLORule env (Node_Value target)) (node_pairs (Node_Content limits))
     | _ \<Rightarrow> refuse env item (Plain (''every slo rule is a map with the step name (or '' @ apos @ ''global'' @ apos @ '') and the limits, for example:'' @ nl @ ''  - look up order: { p95: < 150ms }'')))"

definition readSLO :: "environ \<Rightarrow> yaml_node \<Rightarrow> ScenarioError + SLORule list" where
  "readSLO env node =
    (if Node_Kind node \<noteq> SequenceNode
     then refuse env node (Plain (''slo has to be a list, for example:'' @ nl @ ''    slo:'' @ nl @ ''      - look up order: { p95: < 150ms }'' @ nl @ ''      - global: { errors: < 0.1 }''))
     else bind_ok (read_all (read_rules_of env) (Node_Content node)) (\<lambda>groups. Inr (concat groups)))"

section \<open>Requirements\<close>

definition KnownRequirements :: "string list" where
  "KnownRequirements = [''kafka'', ''amqp'', ''mqtt'', ''credential'']"

definition read_requirement :: "environ \<Rightarrow> yaml_node \<Rightarrow> ScenarioError + string" where
  "read_requirement env item =
    (if Node_Value item \<notin> set KnownRequirements
     then refuse env item (Sprintf (''unknown dependency: %q'' @ nl @ ''%s'') [ArgS (Node_Value item), ArgM (suggest (Node_Value item) KnownRequirements)])
     else Inr (Node_Value item))"

definition readRequirements :: "environ \<Rightarrow> yaml_node \<Rightarrow> ScenarioError + string list" where
  "readRequirements env node =
    (if Node_Kind node \<noteq> SequenceNode
     then refuse env node (Plain (''requires has to be a list, for example: requires: [kafka]'' @ nl @ ''    it declares the external infrastructure without which this scenario does not run''))
     else read_all (read_requirement env) (Node_Content node))"

section \<open>Every rule that is read is measured\<close>

text \<open>What the evaluation knows how to measure: the metric exists in the scope of the rule, and a regression finds
  its percentile in every comparison.\<close>

definition measurable :: "SLORule \<Rightarrow> bool" where
  "measurable rule \<longleftrightarrow> Rule_Operator rule \<in> {OpLess, OpLessOrEqual, OpGreater, OpGreaterOrEqual}
    \<and> (case Rule_Scope rule of
         ScopeRegression \<Rightarrow> Rule_Unit rule = ''% worse'' \<and> isRegressionMetric (Rule_Metric rule)
       | scope \<Rightarrow>
           (Rule_Unit rule = ''ms'' \<and> Rule_Metric rule \<in> set latencyMetrics)
           \<or> (Rule_Unit rule = ''%'' \<and> Rule_Metric rule \<in> {''errors'', ''success''} \<and> scope \<noteq> ScopeJourney)
           \<or> (Rule_Unit rule = ''/s'' \<and> Rule_Metric rule = ''throughput'' \<and> scope = ScopeOverall))"

lemma describeMetric_measurable:
  assumes "describeMetric rule = Inr rule'" and "Rule_Operator rule = OpLessOrEqual"
  shows "measurable rule'"
proof (cases "Rule_Scope rule = ScopeRegression")
  case True
  with assms show ?thesis by (auto simp: describeMetric_def Let_def measurable_def split: if_split_asm)
next
  case False
  then show ?thesis
    using assms by (cases "Rule_Scope rule") (simp_all add: describeMetric_def Let_def measurable_def split: if_split_asm, auto simp: latencyMetrics_def)
qed

lemma first_operator_mem: "first_operator operators text = Some operator \<Longrightarrow> operator \<in> set operators"
  by (simp add: first_operator_def find_Some_iff) force

lemma measurable_upd [simp]:
  "measurable (rule\<lparr>Rule_Text := t\<rparr>) = measurable rule" "measurable (rule\<lparr>Rule_Limit := l\<rparr>) = measurable rule"
  by (simp_all add: measurable_def split: SLOScope.splits)

lemma measurable_operator:
  "measurable rule \<Longrightarrow> operator \<in> {OpLess, OpLessOrEqual, OpGreater, OpGreaterOrEqual} \<Longrightarrow> measurable (rule\<lparr>Rule_Operator := operator\<rparr>)"
  by (auto simp: measurable_def split: SLOScope.splits)

lemma read_limit_measurable:
  assumes "read_limit rawLimit described = Inr rule" and "measurable described"
  shows "measurable rule"
proof (cases "first_operator [OpLessOrEqual, OpGreaterOrEqual, OpLess, OpGreater] (TrimSpace rawLimit)")
  case None
  with assms show ?thesis by (auto simp: read_limit_def Let_def split: option.splits)
next
  case (Some operator)
  then have "operator \<in> {OpLess, OpLessOrEqual, OpGreater, OpGreaterOrEqual}" by (auto dest: first_operator_mem)
  with assms Some show ?thesis by (auto simp: read_limit_def Let_def measurable_operator split: option.splits)
qed

lemma ParseSLORule_measurable: "ParseSLORule target metric rawLimit = Inr rule \<Longrightarrow> measurable rule"
  unfolding ParseSLORule_def Let_def bind_ok_Inr by (auto dest!: describeMetric_measurable intro: read_limit_measurable)

lemma HasPrefix_drop: "HasPrefix m p \<and> drop (length p) m \<in> S \<longleftrightarrow> (\<exists>s \<in> S. m = p @ s)"
  by (auto simp: HasPrefix_iff)

lemma regression_parts:
  "isRegressionMetric metric \<longleftrightarrow>
    (\<exists>prefix \<in> set [''journey'', ''global'']. \<exists>percentile \<in> {''P50'', ''P75'', ''P90'', ''P95'', ''P99'', ''P99.9'', ''Max''}. metric = prefix @ percentile)"
  unfolding isRegressionMetric_def list_ex_iff HasPrefix_drop by (rule refl)

lemma regression_split:
  assumes "isRegressionMetric metric"
  shows "\<exists>prefix \<in> {''journey'', ''global''}. \<exists>percentile \<in> {''p50'', ''p75'', ''p90'', ''p95'', ''p99'', ''p99.9'', ''max''}.
     splitRegressionMetric metric = Some (prefix, percentile)"
proof -
  have "list_all (\<lambda>prefix. list_all (\<lambda>percentile. splitRegressionMetric (prefix @ percentile) = Some (prefix, ToLower percentile)
      \<and> ToLower percentile \<in> {''p50'', ''p75'', ''p90'', ''p95'', ''p99'', ''p99.9'', ''max''})
    [''P50'', ''P75'', ''P90'', ''P95'', ''P99'', ''P99.9'', ''Max'']) [''journey'', ''global'']"
    by code_simp
  note each = this[unfolded list_all_iff, rule_format]
  from assms obtain prefix percentile where prefix: "prefix \<in> set [''journey'', ''global'']"
      and percentile: "percentile \<in> set [''P50'', ''P75'', ''P90'', ''P95'', ''P99'', ''P99.9'', ''Max'']" and metric: "metric = prefix @ percentile"
    unfolding regression_parts list.set by (elim bexE)
  from prefix have "prefix \<in> {''journey'', ''global''}" by simp
  with each[OF prefix percentile] metric show ?thesis by blast
qed

lemma percentile_found:
  "percentile \<in> {''p50'', ''p75'', ''p90'', ''p95'', ''p99'', ''p99.9'', ''max''} \<Longrightarrow> gget (comparePercentiles name b a) percentile \<noteq> None"
  by (auto simp: comparePercentiles_def percentile_pairs_def gget_def)

lemma Compare_percentiles:
  "\<exists>b a. Cmp_JourneyPercentiles (Compare before after) = comparePercentiles ''the whole journey'' b a"
  "\<exists>b a. Cmp_OverallPercentiles (Compare before after) = comparePercentiles ''all requests'' b a"
  by (auto simp: Compare_def Let_def)

lemma regression_found:
  assumes "isRegressionMetric metric"
  shows "differenceOf (Compare before after) metric \<noteq> None"
proof -
  from regression_split[OF assms] obtain prefix percentile where "prefix \<in> {''journey'', ''global''}"
      "percentile \<in> {''p50'', ''p75'', ''p90'', ''p95'', ''p99'', ''p99.9'', ''max''}" "splitRegressionMetric metric = Some (prefix, percentile)"
    by blast
  with percentile_found[of percentile] Compare_percentiles[of before after] show ?thesis by (auto simp: differenceOf_def)
qed

lemma readSLO_measurable:
  assumes "readSLO env node = Inr rules" and "rule \<in> set rules"
  shows "measurable rule"
proof -
  from assms obtain groups group where groups: "read_all (read_rules_of env) (Node_Content node) = Inr groups" "group \<in> set groups" "rule \<in> set group"
    by (auto simp: readSLO_def split: if_splits)
  have "\<forall>rule \<in> set group. measurable rule"
  proof (rule read_all_each[OF groups(1) _ groups(2)])
    fix item rules
    assume "read_rules_of env item = Inr rules"
    then obtain target pairs where read: "read_all (readSLORule env target) pairs = Inr rules"
      by (auto simp: read_rules_of_def split: node_kind.splits list.splits if_splits)
    show "\<forall>rule \<in> set rules. measurable rule"
      by (intro ballI) (rule read_all_each[OF read], auto simp: readSLORule_def intro: ParseSLORule_measurable split: sum.splits)
  qed
  with groups(3) show ?thesis by blast
qed


section \<open>A comparison is read as it was written\<close>

definition print_comparison :: "Operator \<Rightarrow> string \<Rightarrow> string" where
  "print_comparison operator v =
    (case operator of OpEqual \<Rightarrow> v | OpExists \<Rightarrow> ''exists'' | OpContains \<Rightarrow> ''contains '' @ v | _ \<Rightarrow> operator_text operator @ '' '' @ v)"

lemma TrimSpace_fixed: "TrimSpace s = s \<longleftrightarrow> s = [] \<or> \<not> space_char (hd s) \<and> \<not> space_char (last s)"
proof (cases s)
  case (Cons c r)
  show ?thesis
  proof
    assume fixed: "TrimSpace s = s"
    have len: "length (TrimSpace s) \<le> length (dropWhile space_char s)"
      unfolding TrimSpace_def by (metis length_dropWhile_le length_rev)
    have "\<not> space_char (hd s)"
    proof
      assume "space_char (hd s)"
      then have "length (dropWhile space_char s) \<le> length r" by (simp add: Cons length_dropWhile_le)
      with len fixed Cons show False by simp
    qed
    moreover from this have "dropWhile space_char s = s" by (simp add: Cons)
    with fixed have "dropWhile space_char (rev s) = rev s" unfolding TrimSpace_def by (metis rev_rev_ident)
    then have "\<not> space_char (last s)" by (metis Cons hd_dropWhile hd_rev list.distinct(1) rev_is_Nil_conv)
    ultimately show "s = [] \<or> \<not> space_char (hd s) \<and> \<not> space_char (last s)" by simp
  next
    assume "s = [] \<or> \<not> space_char (hd s) \<and> \<not> space_char (last s)"
    then have ends: "\<not> space_char (hd s)" "\<not> space_char (last s)" using Cons by auto
    from ends(1) have first: "dropWhile space_char s = s" by (simp add: Cons)
    from ends(2) have last: "\<not> space_char (hd (rev s))" by (simp add: hd_rev)
    have "dropWhile space_char (rev s) = rev s" using last by (cases "rev s") simp_all
    with first show "TrimSpace s = s" by (simp add: TrimSpace_def)
  qed
qed (simp add: TrimSpace_def)

lemma TrimSpace_append:
  assumes "v \<noteq> []" and "TrimSpace v = v" and "p \<noteq> []" and "\<not> space_char (hd p)"
  shows "TrimSpace (p @ v) = p @ v" and "TrimSpace ('' '' @ v) = v"
proof -
  from assms(1,2) have v: "\<not> space_char (hd v)" "\<not> space_char (last v)" by (simp_all add: TrimSpace_fixed)
  then show "TrimSpace (p @ v) = p @ v" using assms by (simp add: TrimSpace_fixed)
  have "dropWhile space_char ('' '' @ v) = dropWhile space_char v" by (simp add: space_char_def)
  then have "TrimSpace ('' '' @ v) = TrimSpace v" by (simp add: TrimSpace_def)
  with assms(2) show "TrimSpace ('' '' @ v) = v" by simp
qed

definition comparable :: "Operator \<Rightarrow> string \<Rightarrow> bool" where
  "comparable operator v \<longleftrightarrow> TrimSpace v = v \<and> (case operator of
      OpExists \<Rightarrow> v = ''''
    | OpEqual \<Rightarrow> v \<noteq> ''exists'' \<and> v \<noteq> ''contains'' \<and> \<not> HasPrefix v ''contains ''
        \<and> first_operator [OpLessOrEqual, OpGreaterOrEqual, OpNotEqual, OpLess, OpGreater] v = None
    | OpNone \<Rightarrow> False
    | _ \<Rightarrow> v \<noteq> '''')"

text \<open>Writing a comparison and reading it back gives the same comparison, for every operator the file format has and
  every value that can be written: without blanks around it, not empty where the operator needs one, and
  for an equality not itself the spelling of another comparison.\<close>

theorem comparison_roundtrip:
  assumes "comparable operator v"
  shows "ParseComparison target (print_comparison operator v) = \<lparr>As_Kind = AssertUnknown, As_Target = target, As_Operator = operator, As_Value = v\<rparr>"
proof -
  from assms have trimmed: "TrimSpace v = v" by (simp add: comparable_def)
  have ordering: ?thesis if "operator \<in> {OpLessOrEqual, OpGreaterOrEqual, OpNotEqual, OpLess, OpGreater}" "v \<noteq> ''''"
  proof -
    have whole: "TrimSpace ((operator_text operator @ '' '') @ v) = operator_text operator @ '' '' @ v"
      using TrimSpace_append(1)[OF that(2) trimmed, of "operator_text operator @ '' ''"] that(1) by (auto simp: space_char_def)
    have first: "first_operator [OpLessOrEqual, OpGreaterOrEqual, OpNotEqual, OpLess, OpGreater] (operator_text operator @ '' '' @ v) = Some operator"
      using that(1) by (auto simp: first_operator_def HasPrefix_def)
    have "print_comparison operator v = (operator_text operator @ '' '') @ v" using that(1) by (auto simp: print_comparison_def)
    with whole first TrimSpace_append(2)[OF that(2) trimmed, of "''x''"] show ?thesis by (simp add: ParseComparison_def space_char_def)
  qed
  have containing: ?thesis if "operator = OpContains" "v \<noteq> ''''"
  proof -
    have whole: "TrimSpace (''contains '' @ v) = ''contains '' @ v" using TrimSpace_append(1)[OF that(2) trimmed, of "''contains ''"] by (simp add: space_char_def)
    have none: "first_operator [OpLessOrEqual, OpGreaterOrEqual, OpNotEqual, OpLess, OpGreater] (''contains '' @ v) = None"
      by (simp add: first_operator_def HasPrefix_def)
    have "TrimPrefix (''contains '' @ v) ''contains '' = v" by (simp only: TrimPrefix_append)
    with that(1) trimmed whole none show ?thesis by (simp add: ParseComparison_def print_comparison_def HasPrefix_def)
  qed
  have exist: ?thesis if "operator = OpExists" "v = ''''"
  proof -
    have "ParseComparison target ''exists'' = \<lparr>As_Kind = AssertUnknown, As_Target = target, As_Operator = OpExists, As_Value = ''''\<rparr>" by code_simp
    with that show ?thesis by (simp add: print_comparison_def)
  qed
  show ?thesis
    using assms ordering containing exist trimmed
    by (cases operator) (simp_all add: comparable_def, simp_all add: ParseComparison_def print_comparison_def)
qed

section \<open>Witnesses\<close>

definition example_slo :: yaml_node where
  "example_slo = Node SequenceNode PlainStyle '''' 1 1 [mapping [scalar ''regression'', mapping [scalar ''journeyP95'', scalar ''<= 10% worse'']]]"

lemma example_slo_read: "\<not> isl (readSLO (\<lambda>_. None) example_slo) \<and> map Rule_Metric (projr (readSLO (\<lambda>_. None) example_slo)) = [''journeyP95'']
    \<and> map Rule_Scope (projr (readSLO (\<lambda>_. None) example_slo)) = [ScopeRegression]"
  by code_simp


theorem comparison_roundtrip_witness:
  "ParseComparison ''$.total'' ''>= 10'' = \<lparr>As_Kind = AssertUnknown, As_Target = ''$.total'', As_Operator = OpGreaterOrEqual, As_Value = ''10''\<rparr>"
  using comparison_roundtrip[of OpGreaterOrEqual "''10''" "''$.total''"] by (simp add: comparable_def print_comparison_def TrimSpace_fixed space_char_def)

end
