(* ===== verification/Yaml_Messaging.thy ===== *)
theory Yaml_Messaging
  imports Credentials Messaging
begin

text \<open>
  Reading the \<open>messaging\<close> and \<open>tls\<close> blocks (\<open>internal/scenario/yaml_messaging.go\<close>). The line a broker remembers for later
  messages is left out, as in the data model. Proved: a password of a broker never comes from the file, only
  from the environment variable the file names.
\<close>

section \<open>A reference and nothing else\<close>

definition reference_char :: "char \<Rightarrow> bool" where
  "reference_char c \<longleftrightarrow> letter_char c \<or> is_digit c \<or> c = CHR ''_''"

text \<open>The expression \<open>environmentReference\<close>: a whole text that is a dollar, an open brace, a name and a closing brace.\<close>

definition environmentReference :: "string \<Rightarrow> bool" where
  "environmentReference text =
    (HasPrefix text ''${'' \<and> HasSuffix text ''}'' \<and> length text > 3
     \<and> (let name = take (length text - 3) (drop 2 text) in name_start (hd name) \<and> list_all reference_char (tl name)))"

text \<open>\<open>strings.Trim(text, set)\<close>.\<close>

definition Trim :: "string \<Rightarrow> string \<Rightarrow> string" where
  "Trim text cutset = rev (dropWhile (\<lambda>c. c \<in> set cutset) (rev (dropWhile (\<lambda>c. c \<in> set cutset) text)))"

definition EnvironmentVariable :: "string \<Rightarrow> string \<times> bool" where
  "EnvironmentVariable text =
    (let trimmed = TrimSpace text in if \<not> environmentReference trimmed then ('''', False) else (Trim trimmed ''${}'', True))"

definition refuseLiteralSecret :: "environ \<Rightarrow> string \<Rightarrow> yaml_node \<Rightarrow> ScenarioError option" where
  "refuseLiteralSecret env field node =
    (if environmentReference (TrimSpace (Node_Value node)) then None
     else Some (nodeError env (Some node) (Sprintf (''literal %s in the scenario: a credential never goes into the file, because the file goes into the repository.'' @ nl @ ''    replace it with:  %s: ${BROKER_PASSWORD}'' @ nl @ ''    and run with:  BROKER_PASSWORD=... braunrate execute scenario.yaml'' @ nl @ ''    a fallback value (${VAR:-something}) does not work either: the fallback would be the secret written in the file'') [ArgS field, ArgS field])))"

definition kindNames :: "string list" where
  "kindNames = KnownKinds"

section \<open>Reading\<close>

definition brokerExample :: string where
  "brokerExample = (''  messaging:'' @ nl @ ''    kafka:'' @ nl @ ''      brokers: [kafka.staging:9093]'' @ nl @ ''      auth: { type: scramSha512, user: \"${KAFKA_USER}\", password: \"${KAFKA_PASSWORD}\" }'' @ nl @ ''      tls: { ca: /path/to/ca.pem }'')"

definition zeroBrokerAuth :: BrokerAuth where
  "zeroBrokerAuth = \<lparr>BA_Kind = NoAuth, BA_User = '''', BA_UserVar = '''', BA_PasswordVar = '''', BA_Password = '''', BA_Region = ''''\<rparr>"

definition zeroTLS :: TLS where
  "zeroTLS = \<lparr>TLS_Enabled = False, TLS_CA = '''', TLS_Certificate = '''', TLS_Key = ''''\<rparr>"

definition read_tls_key :: "environ \<Rightarrow> TLS \<Rightarrow> yaml_node \<Rightarrow> yaml_node \<Rightarrow> ScenarioError + TLS" where
  "read_tls_key env settings key val =
    (if Node_Value key = ''ca'' then Inr (settings\<lparr>TLS_CA := ExpandFromEnv env (Node_Value val)\<rparr>)
     else if Node_Value key = ''certificate'' then Inr (settings\<lparr>TLS_Certificate := ExpandFromEnv env (Node_Value val)\<rparr>)
     else if Node_Value key = ''key'' then Inr (settings\<lparr>TLS_Key := ExpandFromEnv env (Node_Value val)\<rparr>)
     else refuse env key (Sprintf (''unknown key in tls: %q'' @ nl @ ''%s'') [ArgS (Node_Value key), ArgM (suggest (Node_Value key) [''ca'', ''certificate'', ''key''])]))"

definition readBrokerTLS :: "environ \<Rightarrow> yaml_node \<Rightarrow> ScenarioError + TLS" where
  "readBrokerTLS env node =
    (let settings = zeroTLS\<lparr>TLS_Enabled := True\<rparr>
     in if Node_Kind node = ScalarNode then
          (if Node_Value node \<noteq> ''true'' \<and> Node_Value node \<noteq> ''false''
           then refuse env node (Plain (''tls takes true, false or a map with '' @ apos @ ''ca'' @ apos @ '', '' @ apos @ ''certificate'' @ apos @ '' and '' @ apos @ ''key'' @ apos))
           else Inr (settings\<lparr>TLS_Enabled := (Node_Value node = ''true'')\<rparr>))
        else if Node_Kind node \<noteq> MappingNode
        then refuse env node (Plain ''tls has to be true, false or a map, for example: tls: { ca: /path/to/ca.pem }'')
        else read_pairs (read_tls_key env) (node_pairs (Node_Content node)) settings)"

definition read_auth_key :: "environ \<Rightarrow> BrokerAuth \<Rightarrow> yaml_node \<Rightarrow> yaml_node \<Rightarrow> ScenarioError + BrokerAuth" where
  "read_auth_key env auth key val =
    (if Node_Value key = ''type'' then
       (if Node_Value val \<notin> set KnownKinds
        then refuse env val (Sprintf (''unknown auth type: %q'' @ nl @ ''%s'' @ nl @ ''    OAUTHBEARER is not in v1: see the README'') [ArgS (Node_Value val), ArgM (suggest (Node_Value val) kindNames)])
        else Inr (auth\<lparr>BA_Kind := Node_Value val\<rparr>))
     else if Node_Value key = ''user'' then
       Inr (auth\<lparr>BA_UserVar := fst (EnvironmentVariable (Node_Value val)), BA_User := ExpandFromEnv env (Node_Value val)\<rparr>)
     else if Node_Value key = ''password'' then
       (case refuseLiteralSecret env ''password'' val of
          Some err \<Rightarrow> Inl err
        | None \<Rightarrow> Inr (auth\<lparr>BA_PasswordVar := fst (EnvironmentVariable (Node_Value val)), BA_Password := ExpandFromEnv env (Node_Value val)\<rparr>))
     else if Node_Value key = ''region'' then Inr (auth\<lparr>BA_Region := ExpandFromEnv env (Node_Value val)\<rparr>)
     else if Node_Value key \<in> {''key'', ''token'', ''secret'', ''secret_key'', ''access_key''} then
       refuse env key (Sprintf (''there is no %q here, and there will not be: an access key is never asked for in the scenario.'' @ nl @ ''    For AWS MSK use the standard AWS chain (environment variable, profile or machine role):'' @ nl @ ''      auth: { type: mskIam, region: us-east-1 }'') [ArgS (Node_Value key)])
     else refuse env key (Sprintf (''unknown key in auth: %q'' @ nl @ ''%s'') [ArgS (Node_Value key), ArgM (suggest (Node_Value key) [''type'', ''user'', ''password'', ''region''])]))"

definition readBrokerAuth :: "environ \<Rightarrow> yaml_node \<Rightarrow> ScenarioError + BrokerAuth" where
  "readBrokerAuth env node =
    (if Node_Kind node \<noteq> MappingNode
     then refuse env node (Plain (''auth has to be a map, for example:'' @ nl @ ''    auth: { type: scramSha512, user: \"${KAFKA_USER}\", password: \"${KAFKA_PASSWORD}\" }''))
     else bind_ok (read_pairs (read_auth_key env) (node_pairs (Node_Content node)) zeroBrokerAuth)
       (\<lambda>auth. if BA_Kind auth = NoAuth
          then refuse env node (Sprintf (''auth with no '' @ apos @ ''type'' @ apos @ '': declare which one, among %s'') [ArgS (Join kindNames '', '')]) else Inr auth))"

definition read_broker_key :: "environ \<Rightarrow> string \<Rightarrow> Broker \<Rightarrow> yaml_node \<Rightarrow> yaml_node \<Rightarrow> ScenarioError + Broker" where
  "read_broker_key env technology broker key val =
    (if Node_Value key \<in> {''brokers'', ''addresses''} then
       (if Node_Kind val \<noteq> SequenceNode then refuse env val (Plain ''brokers has to be a list, for example: brokers: [kafka.staging:9093]'')
        else Inr (broker\<lparr>Br_Addresses := Br_Addresses broker @ map (\<lambda>item. ExpandFromEnv env (Node_Value item)) (Node_Content val)\<rparr>))
     else if Node_Value key = ''auth'' then bind_ok (readBrokerAuth env val) (\<lambda>auth. Inr (broker\<lparr>Br_Auth := auth\<rparr>))
     else if Node_Value key = ''tls'' then bind_ok (readBrokerTLS env val) (\<lambda>settings. Inr (broker\<lparr>Br_TLS := settings\<rparr>))
     else refuse env key (Sprintf (''unknown key in messaging.%s: %q'' @ nl @ ''%s'') [ArgS technology, ArgS (Node_Value key),
       ArgM (suggest (Node_Value key) [''brokers'', ''auth'', ''tls''])]))"

definition readBroker :: "environ \<Rightarrow> string \<Rightarrow> yaml_node \<Rightarrow> ScenarioError + Broker" where
  "readBroker env technology node =
    (if Node_Kind node \<noteq> MappingNode
     then refuse env node (Sprintf (''%s has to be a map, for example:'' @ nl @ ''%s'') [ArgS technology, ArgS brokerExample])
     else bind_ok (read_pairs (read_broker_key env technology) (node_pairs (Node_Content node)) \<lparr>Br_Addresses = [], Br_Auth = zeroBrokerAuth, Br_TLS = zeroTLS\<rparr>)
       (\<lambda>broker.
          if BA_Kind (Br_Auth broker) = MSKIAM \<and> BA_Region (Br_Auth broker) = ''''
          then refuse env node (Plain (''mskIam needs the region, for example:'' @ nl @ ''    auth: { type: mskIam, region: us-east-1 }''))
          else let broker = (if BA_Kind (Br_Auth broker) = MSKIAM then broker\<lparr>Br_TLS := (Br_TLS broker)\<lparr>TLS_Enabled := True\<rparr>\<rparr> else broker)
          in if technology = ''amqp'' then
               (case SupportsAMQP (Some broker) of Some err \<Rightarrow> refuse env node (Sprintf ''%v'' [ArgM err]) | None \<Rightarrow> Inr broker)
             else Inr broker))"

definition read_technology :: "environ \<Rightarrow> Settings \<Rightarrow> yaml_node \<Rightarrow> yaml_node \<Rightarrow> ScenarioError + Settings" where
  "read_technology env settings key val =
    bind_ok (readBroker env (Node_Value key) val) (\<lambda>broker.
      if Node_Value key = ''kafka'' then Inr (settings\<lparr>Set_Kafka := Some broker\<rparr>)
      else if Node_Value key = ''amqp'' then Inr (settings\<lparr>Set_AMQP := Some broker\<rparr>)
      else refuse env key (Sprintf (''unknown technology in messaging: %q'' @ nl @ ''%s'') [ArgS (Node_Value key), ArgM (suggest (Node_Value key) [''kafka'', ''amqp''])]))"

definition readMessaging :: "environ \<Rightarrow> yaml_node \<Rightarrow> ScenarioError + Settings" where
  "readMessaging env node =
    (if Node_Kind node \<noteq> MappingNode
     then refuse env node (Plain (''messaging has to be a map by technology, for example:'' @ nl @ brokerExample))
     else read_pairs (read_technology env) (node_pairs (Node_Content node)) \<lparr>Set_Kafka = None, Set_AMQP = None\<rparr>)"

section \<open>A password comes from the environment\<close>

lemma scanVars_literals:
  "\<forall>c \<in> set s. c \<noteq> CHR ''$'' \<Longrightarrow> scanVars p offset (s @ t) = map Lit s @ scanVars p (offset + length s) t"
proof (induction s arbitrary: offset)
  case (Cons c s)
  then have "matchVar p (c # s @ t) = None" by (auto simp: matchVar_def split: list.splits)
  with Cons show ?case by (simp add: scanVars.simps)
qed simp

lemma environmentReference_iff:
  "environmentReference text \<longleftrightarrow> (\<exists>c name. text = ''${'' @ (c # name) @ ''}'' \<and> name_start c \<and> list_all reference_char name)"
proof
  assume ref: "environmentReference text"
  then obtain rest where rest: "text = ''${'' @ rest" by (auto simp: environmentReference_def HasPrefix_iff)
  with ref have "length rest > 1" "drop (length rest - 1) rest = ''}''" by (auto simp: environmentReference_def HasSuffix_def drop_Cons' split: if_splits)
  then obtain middle where middle: "rest = middle @ ''}''" "middle \<noteq> []" by (metis append_take_drop_id append_Nil length_Cons less_irrefl list.size(3) One_nat_def)
  then obtain c name where "middle = c # name" by (cases middle) auto
  with ref rest middle show "\<exists>c name. text = ''${'' @ (c # name) @ ''}'' \<and> name_start c \<and> list_all reference_char name"
    by (auto simp: environmentReference_def Let_def)
next
  assume "\<exists>c name. text = ''${'' @ (c # name) @ ''}'' \<and> name_start c \<and> list_all reference_char name"
  then show "environmentReference text" by (auto simp: environmentReference_def HasPrefix_def HasSuffix_def Let_def)
qed

lemma TrimSpace_split: "\<exists>before after. s = before @ TrimSpace s @ after \<and> list_all space_char (before @ after)"
proof -
  have all: "list_all space_char (takeWhile space_char t)" for t by (auto simp: list_all_iff dest: set_takeWhileD)
  let ?t = "dropWhile space_char s"
  have "s = takeWhile space_char s @ ?t" by simp
  moreover have "rev ?t = takeWhile space_char (rev ?t) @ dropWhile space_char (rev ?t)" by simp
  then have "?t = TrimSpace s @ rev (takeWhile space_char (rev ?t))" unfolding TrimSpace_def by (metis rev_append rev_rev_ident)
  ultimately have "s = takeWhile space_char s @ TrimSpace s @ rev (takeWhile space_char (rev ?t))" by simp
  moreover have "list_all space_char (takeWhile space_char s @ rev (takeWhile space_char (rev ?t)))" using all[of s] all[of "rev ?t"] by (auto simp: list_all_iff)
  ultimately show ?thesis by blast
qed

lemma blank_no_dollar: "list_all space_char s \<Longrightarrow> \<forall>c \<in> set s. c \<noteq> CHR ''$''"
proof -
  have "\<not> space_char CHR ''$''" by code_simp
  then show "list_all space_char s \<Longrightarrow> \<forall>c \<in> set s. c \<noteq> CHR ''$''" unfolding list_all_iff by blast
qed

lemma reference_name_char: "reference_char c \<Longrightarrow> scenario_name_char c" "reference_char c \<Longrightarrow> c \<notin> set ''${}''" "name_start c \<Longrightarrow> reference_char c"
proof -
  show "reference_char c \<Longrightarrow> scenario_name_char c" by (auto simp: reference_char_def scenario_name_char_def)
  show "name_start c \<Longrightarrow> reference_char c" by (auto simp: reference_char_def name_start_def)
  have "\<not> reference_char CHR ''$''" "\<not> reference_char CHR ''{''" "\<not> reference_char CHR ''}''" by code_simp+
  then show "reference_char c \<Longrightarrow> c \<notin> set ''${}''" by auto
qed

lemma Trim_reference:
  assumes "name_start c" "list_all reference_char name"
  shows "Trim (''${'' @ (c # name) @ ''}'') ''${}'' = c # name"
proof -
  have inner: "\<forall>x \<in> set (c # name). x \<notin> set ''${}''"
    using assms reference_name_char(2,3) unfolding list_all_iff by (metis set_ConsD)
  then have front: "dropWhile (\<lambda>x. x \<in> set ''${}'') (''${'' @ (c # name) @ ''}'') = (c # name) @ ''}''" by simp
  have "hd (rev (c # name)) \<in> set (c # name)" by (metis list.distinct(1) hd_in_set rev_is_Nil_conv set_rev)
  with inner have "dropWhile (\<lambda>x. x \<in> set ''${}'') (rev (c # name)) = rev (c # name)" by (metis dropWhile_eq_self_iff)
  then have "dropWhile (\<lambda>x. x \<in> set ''${}'') (rev ((c # name) @ ''}'')) = rev (c # name)" by simp
  with front show ?thesis by (simp add: Trim_def)
qed

lemma Expand_reference:
  assumes "list_all space_char (before @ after)" "name_start c" "list_all reference_char name"
  shows "ExpandFromEnv env (before @ (''${'' @ (c # name) @ ''}'') @ after) = before @ (case env (c # name) of Some v \<Rightarrow> v | None \<Rightarrow> '''') @ after"
proof -
  have chars: "\<forall>x \<in> set name. scenario_name_char x" using assms(3) reference_name_char(1) by (auto simp: list_all_iff)
  have stop: "\<not> scenario_name_char CHR ''}''" using stop_char_not_name(1) runtime_of_scenario by blast
  have scan: "takeWhile scenario_name_char (name @ CHR ''}'' # after) = name" "dropWhile scenario_name_char (name @ CHR ''}'' # after) = CHR ''}'' # after"
    using chars stop by simp_all
  have found: "matchVar scenario_name_char (CHR ''$'' # CHR ''{'' # c # name @ CHR ''}'' # after) = Some (c # name, None, after)"
    using assms(2) by (simp add: matchVar_def scan)
  have "scanVars scenario_name_char 0 (before @ (''${'' @ (c # name) @ ''}'') @ after)
      = map Lit before @ scanVars scenario_name_char (length before) (CHR ''$'' # CHR ''{'' # c # name @ CHR ''}'' # after)"
    using scanVars_literals[OF blank_no_dollar, of before scenario_name_char 0] assms(1) by simp
  moreover have "scanVars scenario_name_char offset (CHR ''$'' # CHR ''{'' # c # name @ CHR ''}'' # after)
      = Ref offset (c # name) None # map Lit after" for offset
    using scanVars_literals[OF blank_no_dollar, of after scenario_name_char _ "[]"] assms(1) by (simp add: scanVars.simps(2) found)
  moreover have "concat (map (\<lambda>seg. case seg of Lit c \<Rightarrow> [c] | Ref offset name fallback \<Rightarrow> f name fallback) (map Lit s)) = s" for s f
    by (induction s) simp_all
  ultimately show ?thesis by (cases "env (c # name)") (simp_all add: ExpandFromEnv_def or_empty_def)
qed

text \<open>What is true of the password of a broker that was read.\<close>

definition password_from_environment :: "environ \<Rightarrow> BrokerAuth \<Rightarrow> bool" where
  "password_from_environment env auth \<longleftrightarrow> BA_Password auth = '''' \<and> BA_PasswordVar auth = ''''
    \<or> BA_PasswordVar auth \<noteq> '''' \<and> (\<exists>before after. list_all space_char (before @ after)
        \<and> BA_Password auth = before @ (case env (BA_PasswordVar auth) of Some v \<Rightarrow> v | None \<Rightarrow> '''') @ after)"

lemma read_password:
  assumes "environmentReference (TrimSpace text)"
  shows "password_from_environment env (auth\<lparr>BA_PasswordVar := fst (EnvironmentVariable text), BA_Password := ExpandFromEnv env text\<rparr>)"
proof -
  from assms obtain c name where ref: "TrimSpace text = ''${'' @ (c # name) @ ''}''" "name_start c" "list_all reference_char name"
    unfolding environmentReference_iff by blast
  obtain before after where split: "text = before @ TrimSpace text @ after" "list_all space_char (before @ after)" using TrimSpace_split by blast
  have "fst (EnvironmentVariable text) = c # name"
    using assms Trim_reference[OF ref(2,3)] by (simp add: EnvironmentVariable_def ref(1) Let_def)
  moreover have "ExpandFromEnv env text = before @ (case env (c # name) of Some v \<Rightarrow> v | None \<Rightarrow> '''') @ after"
    using Expand_reference[OF split(2) ref(2,3)] split(1) ref(1) by metis
  ultimately show ?thesis using split(2) by (auto simp: password_from_environment_def)
qed

lemma read_auth_key_password:
  "read_auth_key env auth key val = Inr auth' \<Longrightarrow> password_from_environment env auth \<Longrightarrow> password_from_environment env auth'"
  using read_password[of "Node_Value val" env auth]
  by (auto simp: read_auth_key_def refuseLiteralSecret_def password_from_environment_def split: if_split_asm)

lemma zero_password: "password_from_environment env zeroBrokerAuth"
  by (simp add: zeroBrokerAuth_def password_from_environment_def)

lemma readBrokerAuth_password: "readBrokerAuth env node = Inr auth \<Longrightarrow> password_from_environment env auth"
proof -
  assume "readBrokerAuth env node = Inr auth"
  then have read: "read_pairs (read_auth_key env) (node_pairs (Node_Content node)) zeroBrokerAuth = Inr auth"
    by (auto simp: readBrokerAuth_def split: if_split_asm)
  show ?thesis by (rule read_pairs_inv[OF read, where P = "password_from_environment env", OF zero_password]) (rule read_auth_key_password)
qed

lemma readBroker_password: "readBroker env technology node = Inr broker \<Longrightarrow> password_from_environment env (Br_Auth broker)"
proof -
  assume "readBroker env technology node = Inr broker"
  then obtain read_broker where read: "read_pairs (read_broker_key env technology) (node_pairs (Node_Content node))
      \<lparr>Br_Addresses = [], Br_Auth = zeroBrokerAuth, Br_TLS = zeroTLS\<rparr> = Inr read_broker" and auth: "Br_Auth broker = Br_Auth read_broker"
    by (auto simp: readBroker_def Let_def split: if_split_asm option.splits)
  have "password_from_environment env (Br_Auth read_broker)"
    by (rule read_pairs_inv[OF read, where P = "\<lambda>broker. password_from_environment env (Br_Auth broker)"])
      (auto simp: read_broker_key_def zero_password split: if_split_asm dest: readBrokerAuth_password)
  with auth show ?thesis by simp
qed

definition settings_brokers :: "Settings \<Rightarrow> Broker list" where
  "settings_brokers settings = (case Set_Kafka settings of None \<Rightarrow> [] | Some b \<Rightarrow> [b]) @ (case Set_AMQP settings of None \<Rightarrow> [] | Some b \<Rightarrow> [b])"

lemma messaging_password:
  assumes "readMessaging env node = Inr settings" and "broker \<in> set (settings_brokers settings)"
  shows "password_from_environment env (Br_Auth broker)"
proof -
  let ?P = "\<lambda>settings. \<forall>broker \<in> set (settings_brokers settings). password_from_environment env (Br_Auth broker)"
  from assms(1) have read: "read_pairs (read_technology env) (node_pairs (Node_Content node)) \<lparr>Set_Kafka = None, Set_AMQP = None\<rparr> = Inr settings"
    by (auto simp: readMessaging_def split: if_split_asm)
  have "?P settings"
  proof (rule read_pairs_inv[OF read])
    show "?P \<lparr>Set_Kafka = None, Set_AMQP = None\<rparr>" by (simp add: settings_brokers_def)
    fix key val s s'
    assume step: "read_technology env s key val = Inr s'" and before: "?P s"
    from step obtain new where "password_from_environment env (Br_Auth new)" "s' = s\<lparr>Set_Kafka := Some new\<rparr> \<or> s' = s\<lparr>Set_AMQP := Some new\<rparr>"
      by (auto simp: read_technology_def dest: readBroker_password split: if_split_asm)
    with before show "?P s'" by (auto simp: settings_brokers_def split: option.splits)
  qed
  with assms(2) show ?thesis by blast
qed

text \<open>The password of a broker never comes from the file. Every broker that is read either has no password or has the
  value of the environment variable the file names, with at most the blanks written around the reference,
  and that name is kept, so that a value of the session can take its place.\<close>

theorem broker_password_from_environment:
  assumes "readMessaging env node = Inr settings" and "broker \<in> set (settings_brokers settings)"
  shows "password_from_environment env (Br_Auth broker)"
  using assms by (rule messaging_password)

section \<open>Witnesses\<close>

definition example_messaging :: yaml_node where
  "example_messaging = mapping [scalar ''kafka'', mapping [scalar ''auth'',
     mapping [scalar ''type'', scalar ''saslPlain'', scalar ''user'', scalar ''ana'', scalar ''password'', scalar ''${KAFKA_PASSWORD}'']]]"

definition example_secrets :: environ where
  "example_secrets name = (if name = ''KAFKA_PASSWORD'' then Some ''s3cret'' else None)"

definition example_kafka :: Broker where
  "example_kafka = \<lparr>Br_Addresses = [], Br_Auth = \<lparr>BA_Kind = SaslPlain, BA_User = ''ana'', BA_UserVar = '''',
     BA_PasswordVar = ''KAFKA_PASSWORD'', BA_Password = ''s3cret'', BA_Region = ''''\<rparr>, Br_TLS = zeroTLS\<rparr>"

lemma example_messaging_read: "readMessaging example_secrets example_messaging = Inr \<lparr>Set_Kafka = Some example_kafka, Set_AMQP = None\<rparr>"
  by code_simp

theorem broker_password_from_environment_witness: "password_from_environment example_secrets (Br_Auth example_kafka)"
  by (rule broker_password_from_environment[OF example_messaging_read]) (simp add: settings_brokers_def)

end
