(* ===== verification/Parse.thy ===== *)
theory Parse
  imports Yaml_Load Yaml_Correlation Yaml_Messaging
begin

text \<open>
  Reading a whole scenario file (\<open>Parse\<close>, \<open>ParseFile\<close>, \<open>readSteps\<close>, \<open>readStep\<close> of \<open>internal/scenario/yaml.go\<close>, \<open>readAuth\<close> of
  \<open>yaml_correlation.go\<close>, the answer to a file that is not YAML of \<open>yamlerror.go\<close>, and the recognition of the old
  format of \<open>migration.go\<close>). The YAML package is the argument \<open>unmarshal\<close>, which gives a tree or the text of an
  error; the protocols compiled in are the argument \<open>registry\<close>, which gives for each name how its
  configuration is decoded. Proved: what every scenario that was read satisfies.
\<close>

section \<open>The old format\<close>

definition topKeyRenames :: "(string, string) gomap" where
  "topKeyRenames = [(''nome'', ''name''), (''alvo'', ''target''), (''requer'', ''requires''), (''variaveis'', ''variables''), (''autenticacao'', ''auth''),
     (''mensageria'', ''messaging''), (''dados'', ''data''), (''carga'', ''load''), (''cenario'', ''scenario'')]"

definition stepKeyRenames :: "(string, string) gomap" where
  "stepKeyRenames = [(''nome'', ''name''), (''peso'', ''weight''), (''captura'', ''capture''), (''verificar'', ''expect''), (''espera'', ''expect''), (''aguardar'', ''await'')]"

definition RenamedTopKey :: "string \<Rightarrow> string option" where "RenamedTopKey key = gget topKeyRenames key"

definition RenamedStepKey :: "string \<Rightarrow> string option" where "RenamedStepKey key = gget stepKeyRenames key"

definition outdatedFormat :: "string \<Rightarrow> string \<Rightarrow> sentence" where
  "outdatedFormat key replacement = Sprintf (''this scenario uses the Portuguese format, replaced in 0.6.0 (%q is now %q).'' @ nl @ ''    braunrate migrate <file>'' @ nl @ ''    converts it to the English format, keeping comments and order. No behavior changes.'') [ArgS key, ArgS replacement]"

section \<open>Steps\<close>

definition TopKeys :: "string list" where
  "TopKeys = [''name'', ''target'', ''requires'', ''variables'', ''auth'', ''tls'', ''messaging'', ''data'', ''load'', ''scenario'', ''slo'']"

definition StepKeys :: "string list" where
  "StepKeys = [''name'', ''weight'', ''capture'', ''expect'']"

text \<open>\<open>Decode\<close> of a protocol answers with a configuration, with an error that already has a position, or with another one.\<close>

datatype decode_error = Positioned ScenarioError | Unpositioned sentence

type_synonym 'c registry = "(string, yaml_node \<Rightarrow> decode_error + 'c) gomap"

definition registered_names :: "'c registry \<Rightarrow> string list" where
  "registered_names registry = sort_Strings (gkeys registry)"

definition zeroStep :: "'c Step" where
  "zeroStep = \<lparr>Step_Name = '''', Step_Protocol = '''', Step_Config = None, Step_Weight = 0, Step_Checks = [], Step_Captures = [], Step_Assertions = []\<rparr>"

definition read_weight :: "environ \<Rightarrow> yaml_node \<Rightarrow> ScenarioError + int" where
  "read_weight env val =
    (case Atoi (TrimSpace (Node_Value val)) of
       Some weight \<Rightarrow> if weight \<le> 0 then refuse env val (Plain ''weight has to be an integer greater than zero, for example: weight: 60'') else Inr weight
     | None \<Rightarrow> refuse env val (Plain ''weight has to be an integer greater than zero, for example: weight: 60''))"

definition unknown_step_key :: "environ \<Rightarrow> 'c registry \<Rightarrow> yaml_node \<Rightarrow> ScenarioError" where
  "unknown_step_key env registry key =
    (case RenamedStepKey (Node_Value key) of
       Some replacement \<Rightarrow> nodeError env (Some key) (Sprintf ''%s'' [ArgM (outdatedFormat (Node_Value key) replacement)])
     | None \<Rightarrow> nodeError env (Some key) (Sprintf (''I do not recognize %q as a kind of step'' @ nl @ ''%s'') [ArgS (Node_Value key),
         ArgM (suggestWithExample (Node_Value key) (registered_names registry @ StepKeys)
           (''    a step is a map with the protocol and what it carries:'' @ nl @ ''      - http: GET /orders/1'' @ nl @ ''        name: look up order'' @ nl @ ''        expect: { status: 200 }'' @ nl @ ''        capture: { invoiceId: \"$.lastInvoice.id\" }''))]))"

definition read_step_key :: "environ \<Rightarrow> 'c registry \<Rightarrow> 'c Step \<times> yaml_node option \<Rightarrow> yaml_node \<Rightarrow> yaml_node \<Rightarrow> ScenarioError + 'c Step \<times> yaml_node option" where
  "read_step_key env registry acc key val = (case acc of (step, configNode) \<Rightarrow>
     if Node_Value key = ''name'' then Inr (step\<lparr>Step_Name := Node_Value val\<rparr>, configNode)
     else if Node_Value key = ''expect'' then bind_ok (readAssertions env val)
       (\<lambda>(checks, assertions). Inr (step\<lparr>Step_Checks := checks, Step_Assertions := assertions\<rparr>, configNode))
     else if Node_Value key = ''capture'' then bind_ok (readCaptures env val) (\<lambda>captures. Inr (step\<lparr>Step_Captures := captures\<rparr>, configNode))
     else if Node_Value key = ''weight'' then bind_ok (read_weight env val) (\<lambda>weight. Inr (step\<lparr>Step_Weight := weight\<rparr>, configNode))
     else if gget registry (Node_Value key) = None then Inl (unknown_step_key env registry key)
     else if Step_Protocol step \<noteq> ''''
     then refuse env key (Sprintf ''the step declares more than one protocol: %q and %q'' [ArgS (Step_Protocol step), ArgS (Node_Value key)])
     else Inr (step\<lparr>Step_Protocol := Node_Value key\<rparr>, Some val))"

definition decode_step :: "environ \<Rightarrow> 'c config_methods \<Rightarrow> 'c registry \<Rightarrow> 'c Step \<Rightarrow> yaml_node \<Rightarrow> ScenarioError + 'c Step" where
  "decode_step env methods registry step configNode =
    (case the (gget registry (Step_Protocol step)) configNode of
       Inl (Positioned err) \<Rightarrow> Inl err
     | Inl (Unpositioned err) \<Rightarrow> refuse env configNode (Sprintf ''%v'' [ArgM err])
     | Inr config \<Rightarrow> Inr (step\<lparr>Step_Config := Some config,
         Step_Name := (if Step_Name step = '''' then Method_AggregationKey methods config else Step_Name step)\<rparr>))"

definition readStep :: "environ \<Rightarrow> 'c config_methods \<Rightarrow> 'c registry \<Rightarrow> yaml_node \<Rightarrow> ScenarioError + 'c Step" where
  "readStep env methods registry node =
    (if Node_Kind node \<noteq> MappingNode
     then refuse env node (Plain (''every step has to be a map, for example:'' @ nl @ ''  - http: GET /orders/1'' @ nl @ ''    name: look up order''))
     else bind_ok (read_pairs (read_step_key env registry) (node_pairs (Node_Content node)) (zeroStep, None))
       (\<lambda>(step, configNode). if Step_Protocol step = ''''
          then refuse env node (Sprintf (''step with no protocol (compiled in: %s), for example:'' @ nl @ ''  - http: GET /orders/1'') [ArgS (Join (registered_names registry) '', '')])
          else decode_step env methods registry step (the configNode)))"

definition readSteps :: "environ \<Rightarrow> 'c config_methods \<Rightarrow> 'c registry \<Rightarrow> yaml_node \<Rightarrow> ScenarioError + 'c Step list" where
  "readSteps env methods registry node =
    (if Node_Kind node \<noteq> SequenceNode
     then refuse env node (Plain (''scenario has to be a list of steps, one per line:'' @ nl @ ''  scenario:'' @ nl @ ''    - http: GET /orders/1''))
     else read_all (readStep env methods registry) (Node_Content node))"

section \<open>Authentication\<close>

fun auth_kind :: "string \<Rightarrow> AuthKind option" where
  "auth_kind kind = (if kind = ''token'' then Some AuthToken else if kind = ''basic'' then Some AuthBasic else if kind = ''header'' then Some AuthHeader else None)"

definition read_scenario_auth_key :: "environ \<Rightarrow> 'c config_methods \<Rightarrow> 'c registry \<Rightarrow> 'c Auth \<Rightarrow> yaml_node \<Rightarrow> yaml_node \<Rightarrow> ScenarioError + 'c Auth" where
  "read_scenario_auth_key env methods registry auth key val =
    (if Node_Value key = ''type'' then
       (case auth_kind (Node_Value val) of
          Some kind \<Rightarrow> Inr (auth\<lparr>Auth_Kind := kind\<rparr>)
        | None \<Rightarrow> refuse env val (Sprintf ''unknown auth type: %q (use token, basic or header)'' [ArgS (Node_Value val)]))
     else if Node_Value key = ''obtain'' then bind_ok (readStep env methods registry val) (\<lambda>step. Inr (auth\<lparr>Auth_Obtain := Some (step\<lparr>Step_Name := ''obtain auth''\<rparr>)\<rparr>))
     else if Node_Value key = ''refreshAfter'' then
       (case ParseDuration (Node_Value val) of
          None \<Rightarrow> refuse env val (Sprintf ''invalid refreshAfter: %q (use for example 25m)'' [ArgS (Node_Value val)])
        | Some duration \<Rightarrow> Inr (auth\<lparr>Auth_RefreshAfter := duration\<rparr>))
     else if Node_Value key = ''header'' then Inr (auth\<lparr>Auth_Header := Node_Value val\<rparr>)
     else if Node_Value key = ''user'' then Inr (auth\<lparr>Auth_User := Node_Value val\<rparr>)
     else if Node_Value key = ''password'' then Inr (auth\<lparr>Auth_Password := Node_Value val\<rparr>)
     else refuse env key (Sprintf (''unknown key in auth: %q'' @ nl @ ''%s'') [ArgS (Node_Value key),
       ArgM (suggestWithExample (Node_Value key) [''type'', ''obtain'', ''refreshAfter'', ''header'', ''user'', ''password'']
         (''    '' @ apos @ ''obtain'' @ apos @ '' carries a whole request plus the capture of the token:'' @ nl @ ''      auth:'' @ nl @ ''        type: token'' @ nl @ ''        obtain:'' @ nl @ ''          http: { method: POST, path: /auth/token, body: { user: ana, password: \"${PASSWORD}\" } }'' @ nl @ ''          capture: { token: \"$.access_token\" }'' @ nl @ ''        refreshAfter: 25m''))]))"

definition complete_auth :: "environ \<Rightarrow> yaml_node \<Rightarrow> 'c Auth \<Rightarrow> ScenarioError + 'c Auth" where
  "complete_auth env node auth =
    (if Auth_Kind auth = AuthToken \<and> Auth_Obtain auth = None
     then refuse env node (Plain (''token auth needs the '' @ apos @ ''obtain'' @ apos @ '' block with the request that returns the token:'' @ nl @ ''    obtain:'' @ nl @ ''      http: { method: POST, path: /auth/token, body: { user: ana, password: \"${PASSWORD}\" } }'' @ nl @ ''      capture: { token: $.access_token }''))
     else if Auth_Kind auth = AuthBasic \<and> (Auth_User auth = '''' \<or> Auth_Password auth = '''')
     then refuse env node (Plain (''basic auth needs a user and a password, for example:'' @ nl @ ''  auth: { type: basic, user: ana, password: \"${PASSWORD}\" }''))
     else Inr (if Auth_Header auth = '''' \<and> Auth_Kind auth \<noteq> AuthBasic then auth\<lparr>Auth_Header := ''Authorization: Bearer ${token}''\<rparr> else auth))"

definition readAuth :: "environ \<Rightarrow> 'c config_methods \<Rightarrow> 'c registry \<Rightarrow> yaml_node \<Rightarrow> ScenarioError + 'c Auth" where
  "readAuth env methods registry node =
    (if Node_Kind node \<noteq> MappingNode
     then refuse env node (Plain (''auth has to be a map, for example:'' @ nl @ ''  auth:'' @ nl @ ''    type: token'' @ nl @ ''    obtain:'' @ nl @ ''      http: { method: POST, path: /auth/token, body: { user: ana, password: \"${PASSWORD}\" } }'' @ nl @ ''      capture: { token: $.access_token }''))
     else bind_ok (read_pairs (read_scenario_auth_key env methods registry) (node_pairs (Node_Content node))
         \<lparr>Auth_Kind = AuthToken, Auth_Obtain = None, Auth_RefreshAfter = 0, Auth_Header = '''', Auth_User = '''', Auth_Password = ''''\<rparr>)
       (complete_auth env node))"

section \<open>A file that is not YAML\<close>

definition suspects :: "string list" where "suspects = [''${'', ''$.'', ''#'']"

definition Index :: "string \<Rightarrow> string \<Rightarrow> nat option" where
  "Index s sub = (case Cut s sub of (before, after, found) \<Rightarrow> if found then Some (length before) else None)"

definition suspect_column :: "string \<Rightarrow> nat option" where
  "suspect_column line =
    (if \<not> Contains line ''{'' \<and> \<not> Contains line ''['' then None
     else (case List.map_filter (Index line) suspects of [] \<Rightarrow> None | column # _ \<Rightarrow> Some (column + 1)))"

definition suspect :: "string \<Rightarrow> int \<Rightarrow> int \<times> int" where
  "suspect content from =
    (let lines = Split content nl
     in case List.map_filter (\<lambda>number. if number \<le> int (length lines) then map_option (\<lambda>column. (number, int column)) (suspect_column (lines ! nat (number - 1))) else None)
            [from, from + 1, from + 2, from + 3] of
          [] \<Rightarrow> (from, 1) | found # _ \<Rightarrow> found)"

definition lineAt :: "string \<Rightarrow> int \<Rightarrow> string" where
  "lineAt content line =
    (if line \<le> 0 then '''' else let lines = Split content nl in if line > int (length lines) then '''' else lines ! nat (line - 1))"

definition inlineAdvice :: "string \<Rightarrow> string" where
  "inlineAdvice line =
    (if Contains line ''${'' then (''Inside { } YAML reads '' @ apos @ ''{'' @ apos @ '' and '' @ apos @ ''}'' @ apos @ '' as structure, and ${variable} carries both.'' @ nl @ ''    quote the value, for example:'' @ nl @ ''      kafka: { topic: orders, key: \"${orders.id}\" }'')
     else if Contains line ''['' \<and> Contains line ''$.'' then (''A JSON path with a bracket, like $.items[0].id, needs quotes inside { }:'' @ nl @ ''      capture: { invoiceId: \"$.items[0].id\" }'')
     else if Contains line ''#'' then (''A '' @ apos @ ''#'' @ apos @ '' inside { } starts a comment and swallows the rest of the line.'' @ nl @ ''    quote the value, for example:'' @ nl @ ''      generate: { id: { type: pattern, format: \"ORD-######\" } }'')
     else (''check that every key has a value and that keys are separated by commas, for example:'' @ nl @ ''      http: { method: GET, path: /orders }''))"

definition explainYAML :: "string \<Rightarrow> string \<Rightarrow> string" where
  "explainYAML problem line =
    (if Contains problem (''did not find expected '' @ apos @ '','' @ apos @ '' or '' @ apos @ ''}'' @ apos) \<or> Contains problem (''did not find expected '' @ apos @ '','' @ apos @ '' or '' @ apos @ '']'' @ apos)
     then ''an inline map that does not close. '' @ inlineAdvice line
     else if Contains problem (''could not find expected '' @ apos @ '':'' @ apos)
     then (''the colon after the key is missing.'' @ nl @ ''    in YAML every key ends in '' @ apos @ '':'' @ apos @ '', like this:  name: Order lookup'')
     else if Contains problem ''found character that cannot start any token''
     then (''there is a tab character on this line, and YAML does not accept tabs for indentation.'' @ nl @ ''    replace the tab with spaces (two per level, like the rest of the file)'')
     else if Contains problem ''mapping values are not allowed in this context''
     then (''there is a colon inside a value that is not quoted.'' @ nl @ ''    quote the value, like this:  header: \"X-API-Key: ${API_KEY}\"'')
     else if Contains problem ''did not find expected key'' \<or> Contains problem ''found a tab character''
     then (''the indentation on this line is inconsistent.'' @ nl @ ''    always use spaces, and the same number of spaces for items at the same level'')
     else ''the file is not valid YAML on this line: '' @ problem)"

definition atoiOr :: "string \<Rightarrow> int \<Rightarrow> int" where
  "atoiOr text fallback = (case Atoi text of None \<Rightarrow> fallback | Some n \<Rightarrow> if n \<le> 0 then fallback else n)"

text \<open>The expression \<open>yamlLine\<close>: the line an error of the package names, if it names one, and the problem.\<close>

definition yamlLine :: "string \<Rightarrow> (string \<times> string) option" where
  "yamlLine err =
    (if \<not> HasPrefix err ''yaml: '' \<or> Contains (TrimPrefix err ''yaml: '') nl then None
     else let rest = TrimPrefix err ''yaml: ''; digits = takeWhile is_digit (drop 5 rest); after = dropWhile is_digit (drop 5 rest)
     in if HasPrefix rest ''line '' \<and> digits \<noteq> [] \<and> HasPrefix after '': '' then Some (digits, drop 2 after) else Some ('''', rest))"

definition translateYAMLError :: "string \<Rightarrow> string \<Rightarrow> ScenarioError" where
  "translateYAMLError content err =
    (case yamlLine (TrimSpace err) of
       None \<Rightarrow> \<lparr>SE_File = '''', SE_Line = 1, SE_Column = 0, SE_Message = Sprintf ''the file is not valid YAML: %v'' [ArgS err]\<rparr>
     | Some (number, problem) \<Rightarrow>
         (case suspect content (atoiOr number 1) of (line, column) \<Rightarrow>
            \<lparr>SE_File = '''', SE_Line = line, SE_Column = column, SE_Message = Plain (explainYAML problem (lineAt content line))\<rparr>))"

section \<open>The whole file\<close>

definition emptySpec :: "'c Spec" where
  "emptySpec = \<lparr>Spec_Name = '''', Spec_Target = '''', Spec_Requires = [], Spec_MissingEnvironment = [], Spec_Vars = [], Spec_Auth = None, Spec_Messaging = None,
     Spec_TLS = None, Spec_Data = [], Spec_Load = openPlan OpenArrival, Spec_Steps = [], Spec_SLO = []\<rparr>"

definition unknown_top_key :: "environ \<Rightarrow> yaml_node \<Rightarrow> ScenarioError" where
  "unknown_top_key env key =
    (case RenamedTopKey (Node_Value key) of
       Some replacement \<Rightarrow> nodeError env (Some key) (Sprintf ''%s'' [ArgM (outdatedFormat (Node_Value key) replacement)])
     | None \<Rightarrow> nodeError env (Some key) (Sprintf (''unknown key at the top of the scenario: %q'' @ nl @ ''%s'') [ArgS (Node_Value key),
         ArgM (suggestWithExample (Node_Value key) TopKeys (''    a minimal scenario has four of them:'' @ nl @ ''      name: Order lookup'' @ nl @ ''      target: http://127.0.0.1:8080'' @ nl @ ''      load: { profiles: [ { steady: { rate: 100/s, duration: 1m } } ] }'' @ nl @ ''      scenario:'' @ nl @ ''        - http: GET /orders/1''))]))"

definition read_top_key :: "environ \<Rightarrow> 'c config_methods \<Rightarrow> 'c registry \<Rightarrow> 'c Spec \<Rightarrow> yaml_node \<Rightarrow> yaml_node \<Rightarrow> ScenarioError + 'c Spec" where
  "read_top_key env methods registry spec key val =
    (if Node_Value key = ''name'' then Inr (spec\<lparr>Spec_Name := Node_Value val\<rparr>)
     else if Node_Value key = ''target'' then Inr (spec\<lparr>Spec_Target := Node_Value val\<rparr>)
     else if Node_Value key = ''variables'' then bind_ok (readVars env val) (\<lambda>vars. Inr (spec\<lparr>Spec_Vars := vars\<rparr>))
     else if Node_Value key = ''load'' then bind_ok (readLoad env val) (\<lambda>load. Inr (spec\<lparr>Spec_Load := load\<rparr>))
     else if Node_Value key = ''scenario'' then bind_ok (readSteps env methods registry val) (\<lambda>steps. Inr (spec\<lparr>Spec_Steps := steps\<rparr>))
     else if Node_Value key = ''auth'' then bind_ok (readAuth env methods registry val) (\<lambda>auth. Inr (spec\<lparr>Spec_Auth := Some auth\<rparr>))
     else if Node_Value key = ''data'' then bind_ok (readData env val) (\<lambda>sources. Inr (spec\<lparr>Spec_Data := sources\<rparr>))
     else if Node_Value key = ''tls'' then bind_ok (readBrokerTLS env val) (\<lambda>settings. Inr (spec\<lparr>Spec_TLS := Some settings\<rparr>))
     else if Node_Value key = ''messaging'' then bind_ok (readMessaging env val) (\<lambda>settings. Inr (spec\<lparr>Spec_Messaging := Some settings\<rparr>))
     else if Node_Value key = ''requires'' then bind_ok (readRequirements env val) (\<lambda>requirements. Inr (spec\<lparr>Spec_Requires := requirements\<rparr>))
     else if Node_Value key = ''slo'' then bind_ok (readSLO env val) (\<lambda>rules. Inr (spec\<lparr>Spec_SLO := rules\<rparr>))
     else Inl (unknown_top_key env key))"

definition parse_document :: "environ \<Rightarrow> 'c config_methods \<Rightarrow> 'c registry \<Rightarrow> yaml_node \<Rightarrow> ScenarioError + 'c Spec" where
  "parse_document env methods registry document =
    (if Node_Kind document \<noteq> MappingNode
     then refuse env document (Plain (''a scenario has to be a map of keys, starting with:'' @ nl @ ''  name: Order lookup'' @ nl @ ''  target: http://127.0.0.1:8080''))
     else case refuseLiteralCredentials env document of
         Some err \<Rightarrow> Inl err
       | None \<Rightarrow>
           let document = expandEnvironment env document
           in bind_ok (read_pairs (read_top_key env methods registry) (node_pairs (Node_Content document)) emptySpec)
                (\<lambda>spec. checkReferences env document (spec\<lparr>Spec_Target := interpolateKnown env (Spec_Target spec) (Spec_Vars spec)\<rparr>)))"

definition Parse :: "environ \<Rightarrow> (string \<Rightarrow> string + yaml_node) \<Rightarrow> 'c config_methods \<Rightarrow> 'c registry \<Rightarrow> string \<Rightarrow> ScenarioError + 'c Spec" where
  "Parse env unmarshal methods registry content =
    (case unmarshal content of
       Inl err \<Rightarrow> Inl (translateYAMLError content err)
     | Inr tree \<Rightarrow>
         case Node_Content tree of
           [] \<Rightarrow> Inl \<lparr>SE_File = '''', SE_Line = 1, SE_Column = 0, SE_Message = Plain ''empty scenario''\<rparr>
         | document # _ \<Rightarrow> parse_document env methods registry document)"

datatype read_failure = NotExist | NotPermitted | ReadFailed string

definition readError :: "string \<Rightarrow> read_failure \<Rightarrow> ScenarioError" where
  "readError path err = \<lparr>SE_File = path, SE_Line = 0, SE_Column = 0, SE_Message = (case err of
       NotExist \<Rightarrow> Sprintf (''I could not find the file %s.'' @ nl @ ''    to start a scenario from scratch:  braunrate new %s'' @ nl @ ''    to see the ones nearby:  ls *.yaml'') [ArgS path, ArgS path]
     | NotPermitted \<Rightarrow> Sprintf ''I am not allowed to read %s'' [ArgS path]
     | ReadFailed reason \<Rightarrow> Sprintf ''I could not read %s: %v'' [ArgS path, ArgS reason])\<rparr>"

definition ParseFile :: "environ \<Rightarrow> (string \<Rightarrow> string + yaml_node) \<Rightarrow> 'c config_methods \<Rightarrow> 'c registry \<Rightarrow> (string \<Rightarrow> read_failure + string) \<Rightarrow> string \<Rightarrow> ScenarioError + 'c Spec" where
  "ParseFile env unmarshal methods registry files path =
    (case files path of
       Inl err \<Rightarrow> Inl (readError path err)
     | Inr content \<Rightarrow>
         case Parse env unmarshal methods registry content of Inl err \<Rightarrow> Inl (err\<lparr>SE_File := path\<rparr>) | Inr spec \<Rightarrow> Inr spec)"

section \<open>What a scenario that was read satisfies\<close>

definition step_read :: "'c registry \<Rightarrow> 'c Step \<Rightarrow> bool" where
  "step_read registry step \<longleftrightarrow> gget registry (Step_Protocol step) \<noteq> None \<and> Step_Config step \<noteq> None \<and> 0 \<le> Step_Weight step
    \<and> (\<forall>capture \<in> set (Step_Captures step). Cap_Origin capture \<noteq> CaptureUnknown)"

definition auth_read :: "'c registry \<Rightarrow> 'c Auth \<Rightarrow> bool" where
  "auth_read registry auth \<longleftrightarrow> (Auth_Kind auth = AuthToken \<longrightarrow> Auth_Obtain auth \<noteq> None)
    \<and> (Auth_Kind auth = AuthBasic \<longrightarrow> Auth_User auth \<noteq> '''' \<and> Auth_Password auth \<noteq> '''') \<and> (Auth_Kind auth \<noteq> AuthBasic \<longrightarrow> Auth_Header auth \<noteq> '''')
    \<and> (\<forall>step. Auth_Obtain auth = Some step \<longrightarrow> step_read registry step)"

definition load_read :: "LoadPlan \<Rightarrow> bool" where
  "load_read plan \<longleftrightarrow> (case Load_Model plan of
      ClosedArrival \<Rightarrow> Load_Phases plan = [] \<and> 0 < Load_Users plan \<and> 0 < Load_For plan \<and> 0 \<le> Load_ThinkTime plan
    | OpenArrival \<Rightarrow> Load_Users plan = 0 \<and> Load_For plan = 0 \<and> Load_ThinkTime plan = 0 \<and> (\<forall>phase \<in> set (Load_Phases plan). phase_read phase))"

definition scenario_read :: "environ \<Rightarrow> 'c registry \<Rightarrow> 'c Spec \<Rightarrow> bool" where
  "scenario_read env registry spec \<longleftrightarrow> load_read (Spec_Load spec)
    \<and> (\<forall>step \<in> set (Spec_Steps spec). step_read registry step)
    \<and> (\<forall>rule \<in> set (Spec_SLO spec). measurable rule)
    \<and> (\<forall>source \<in> set (Spec_Data spec). Data_File source \<noteq> '''' \<or> Data_Fields source \<noteq> [])
    \<and> (\<forall>broker \<in> set (brokers_of spec). password_from_environment env (Br_Auth broker))
    \<and> (\<forall>auth. Spec_Auth spec = Some auth \<longrightarrow> auth_read registry auth)
    \<and> set (Spec_Requires spec) \<subseteq> set KnownRequirements"

lemma ParseCapture_origin: "ParseCapture name line = Inr capture \<Longrightarrow> Cap_Origin capture \<noteq> CaptureUnknown"
  by (auto simp: ParseCapture_def Let_def split: if_split_asm)

lemma readCaptures_origin: "readCaptures env node = Inr captures \<Longrightarrow> capture \<in> set captures \<Longrightarrow> Cap_Origin capture \<noteq> CaptureUnknown"
proof -
  assume "readCaptures env node = Inr captures" and member: "capture \<in> set captures"
  then have read: "read_all (read_capture env) (node_pairs (Node_Content node)) = Inr captures" by (auto simp: readCaptures_def split: if_split_asm)
  show ?thesis
    by (rule read_all_each[OF read _ member])
      (auto simp: read_capture_def readFullCapture_def parseCaptureExpression_def dest: ParseCapture_origin split: if_split_asm sum.splits)
qed

text \<open>While the keys of a step are read: the protocol is one of those compiled in, and its node is the one to decode.\<close>

definition step_reading :: "'c registry \<Rightarrow> 'c Step \<times> yaml_node option \<Rightarrow> bool" where
  "step_reading registry = (\<lambda>(step, configNode). (Step_Protocol step \<noteq> '''' \<longrightarrow> gget registry (Step_Protocol step) \<noteq> None) \<and> 0 \<le> Step_Weight step
     \<and> (\<forall>capture \<in> set (Step_Captures step). Cap_Origin capture \<noteq> CaptureUnknown))"

lemma read_weight_positive: "read_weight env val = Inr weight \<Longrightarrow> 0 < weight"
  by (auto simp: read_weight_def split: option.splits if_split_asm)

lemma read_step_key_reading:
  assumes "read_step_key env registry acc key val = Inr acc'" and "step_reading registry acc"
  shows "step_reading registry acc'"
proof -
  obtain step configNode where acc: "acc = (step, configNode)" by fastforce
  show ?thesis
    using assms read_weight_positive[of env val] readCaptures_origin[of env val]
    by (auto simp: acc read_step_key_def step_reading_def order_less_imp_le split: if_split_asm)
qed

lemma step_reading_zero: "step_reading registry (zeroStep, None)"
  by (simp add: step_reading_def zeroStep_def)

lemma readStep_read:
  assumes "readStep env methods registry node = Inr step"
  shows "step_read registry step"
proof -
  from assms obtain step0 configNode where read: "read_pairs (read_step_key env registry) (node_pairs (Node_Content node)) (zeroStep, None) = Inr (step0, configNode)"
      and decoded: "Step_Protocol step0 \<noteq> ''''" "decode_step env methods registry step0 (the configNode) = Inr step"
    by (auto simp: readStep_def split: if_split_asm)
  have "step_reading registry (step0, configNode)"
    by (rule read_pairs_inv[OF read, where P = "step_reading registry", OF step_reading_zero]) (rule read_step_key_reading)
  with decoded show ?thesis
    by (auto simp: step_reading_def step_read_def decode_step_def split: sum.splits decode_error.splits)
qed

lemma readAuth_read:
  assumes "readAuth env methods registry node = Inr auth"
  shows "auth_read registry auth"
proof -
  let ?zero = "\<lparr>Auth_Kind = AuthToken, Auth_Obtain = None, Auth_RefreshAfter = 0, Auth_Header = '''', Auth_User = '''', Auth_Password = ''''\<rparr>"
  from assms obtain auth0 where read: "read_pairs (read_scenario_auth_key env methods registry) (node_pairs (Node_Content node)) ?zero = Inr auth0"
      and complete: "complete_auth env node auth0 = Inr auth"
    by (auto simp: readAuth_def split: if_split_asm)
  have "\<forall>step. Auth_Obtain auth0 = Some step \<longrightarrow> step_read registry step"
    by (rule read_pairs_inv[OF read, where P = "\<lambda>auth. \<forall>step. Auth_Obtain auth = Some step \<longrightarrow> step_read registry step"])
      (auto simp: read_scenario_auth_key_def step_read_def[of registry "Step_Name_update _ _"] dest!: readStep_read[unfolded step_read_def] split: if_split_asm option.splits)
  with complete show ?thesis by (auto simp: complete_auth_def auth_read_def split: if_split_asm)
qed

lemma readData_read: "readData env node = Inr sources \<Longrightarrow> source \<in> set sources \<Longrightarrow> Data_File source \<noteq> '''' \<or> Data_Fields source \<noteq> []"
proof -
  assume "readData env node = Inr sources" and member: "source \<in> set sources"
  then have read: "read_all (read_source env) (node_pairs (Node_Content node)) = Inr sources" by (auto simp: readData_def split: if_split_asm)
  show ?thesis by (rule read_all_each[OF read _ member]) (auto simp: read_source_def split: if_split_asm)
qed

lemma readRequirements_known: "readRequirements env node = Inr requirements \<Longrightarrow> set requirements \<subseteq> set KnownRequirements"
proof -
  assume "readRequirements env node = Inr requirements"
  then have read: "read_all (read_requirement env) (Node_Content node) = Inr requirements" by (auto simp: readRequirements_def split: if_split_asm)
  show ?thesis by (intro subsetI) (rule read_all_each[OF read], auto simp: read_requirement_def split: if_split_asm)
qed

lemma readSteps_read: "readSteps env methods registry node = Inr steps \<Longrightarrow> step \<in> set steps \<Longrightarrow> step_read registry step"
proof -
  assume "readSteps env methods registry node = Inr steps" and member: "step \<in> set steps"
  then have read: "read_all (readStep env methods registry) (Node_Content node) = Inr steps" by (auto simp: readSteps_def split: if_split_asm)
  show ?thesis by (rule read_all_each[OF read _ member]) (rule readStep_read)
qed

lemma brokers_of_settings: "Spec_Messaging spec = Some settings \<Longrightarrow> brokers_of spec = settings_brokers settings"
  by (simp add: brokers_of_def settings_brokers_def)

lemma brokers_of_cong: "Spec_Messaging spec = Spec_Messaging spec' \<Longrightarrow> brokers_of spec = brokers_of spec'"
  by (simp add: brokers_of_def)

lemma scenario_read_empty: "scenario_read env registry emptySpec"
  by (simp add: scenario_read_def emptySpec_def load_read_def openPlan_def brokers_of_def)

lemma read_top_key_read:
  assumes "read_top_key env methods registry spec key val = Inr spec'" and "scenario_read env registry spec"
  shows "scenario_read env registry spec'"
proof (cases "Node_Value key = ''messaging''")
  case True
  with assms(1) obtain settings where settings: "readMessaging env val = Inr settings" "spec' = spec\<lparr>Spec_Messaging := Some settings\<rparr>"
    by (auto simp: read_top_key_def)
  have "password_from_environment env (Br_Auth broker)" if "broker \<in> set (settings_brokers settings)" for broker
    by (rule messaging_password[OF settings(1) that])
  with settings(2) assms(2) show ?thesis by (simp add: scenario_read_def brokers_of_settings)
next
  case False
  with assms(1) have same: "Spec_Messaging spec' = Spec_Messaging spec" by (auto simp: read_top_key_def split: if_split_asm)
  have "measurable rule" if "readSLO env val = Inr rules" "rule \<in> set rules" for rules rule by (rule readSLO_measurable[OF that])
  moreover have "load_read plan" if "readLoad env val = Inr plan" for plan using readLoad_plan[OF that] by (simp add: load_read_def)
  ultimately show ?thesis
    using assms False readSteps_read[of env methods registry val] readData_read[of env val] readRequirements_known[of env val] readAuth_read[of env methods registry val]
    unfolding scenario_read_def brokers_of_cong[OF same] read_top_key_def
    by (auto split: if_split_asm)
qed

lemma scenario_read_upd [simp]:
  "scenario_read env registry (spec\<lparr>Spec_MissingEnvironment := missing\<rparr>) = scenario_read env registry spec"
  "scenario_read env registry (spec\<lparr>Spec_Target := target\<rparr>) = scenario_read env registry spec"
  by (simp_all add: scenario_read_def brokers_of_def)

lemma resolvable_missing [simp]: "resolvable env (spec\<lparr>Spec_MissingEnvironment := missing\<rparr>) used = resolvable env spec used"
  by (simp add: resolvable_def declared_variable_def declared_field_def)

lemma checkReferences_accepts:
  assumes "checkReferences env document spec = Inr spec'"
  shows "\<exists>missing. spec' = spec\<lparr>Spec_MissingEnvironment := missing\<rparr>" and "\<forall>node \<in> set (scalars_of document). \<forall>used \<in> references_at node. resolvable env spec' used"
proof -
  from assms show upd: "\<exists>missing. spec' = spec\<lparr>Spec_MissingEnvironment := missing\<rparr>" by (auto simp: checkReferences_def)
  from checkReferences_iff[where env = env and document = document and spec = spec, unfolded assms] upd
  show "\<forall>node \<in> set (scalars_of document). \<forall>used \<in> references_at node. resolvable env spec' used" by auto
qed


section \<open>Witnesses\<close>

abbreviation sequence :: "yaml_node list \<Rightarrow> yaml_node" where
  "sequence content \<equiv> Node SequenceNode PlainStyle '''' 1 1 content"

definition example_file :: yaml_node where
  "example_file = mapping [scalar ''name'', scalar ''orders'', scalar ''target'', scalar ''${TARGET:-http://t}'',
     scalar ''auth'', mapping [scalar ''type'', scalar ''basic'', scalar ''user'', scalar ''ana'', scalar ''password'', scalar ''${PASSWORD}''],
     scalar ''messaging'', example_messaging,
     scalar ''load'', mapping load_keys,
     scalar ''scenario'', sequence [mapping [scalar ''http'', scalar ''GET /orders/1'', scalar ''capture'', mapping [scalar ''id'', scalar ''$.id'']]],
     scalar ''slo'', example_slo]"

definition example_registry :: "unit registry" where
  "example_registry = [(''http'', \<lambda>node. Inr ())]"

abbreviation example_parse :: "ScenarioError + unit Spec" where
  "example_parse \<equiv> Parse example_secrets (\<lambda>_. Inr (Node DocumentNode PlainStyle '''' 1 1 [example_file])) example_methods example_registry ''name: orders''"

lemma example_parsed: "\<not> isl example_parse \<and> Spec_MissingEnvironment (projr example_parse) = [''PASSWORD''] \<and> length (Spec_Steps (projr example_parse)) = 1
    \<and> Spec_Target (projr example_parse) = ''http://t''"
  by code_simp


end
