(* ===== verification/Loading.thy ===== *)
theory Loading
  imports Runner Parse
begin

text \<open>
  From a path to a run: the functions of \<open>path/filepath\<close> that the server and the runner use on Unix, and the entry
  points of \<open>internal/runner/runner.go\<close> that read a file (\<open>Load\<close>, \<open>Check\<close> and \<open>Execute\<close>), composed from the
  reader, the validation and the run. Proved: joining a directory with a plain name gives a path directly
  inside that directory, and a draft is judged exactly as the file that holds the same text.
\<close>

section \<open>Paths\<close>

abbreviation slash :: char where "slash \<equiv> CHR ''/''"

fun path_parts :: "string \<Rightarrow> string list" where
  "path_parts [] = [[]]"
| "path_parts (c # cs) = (if c = slash then [] # path_parts cs else (c # hd (path_parts cs)) # tl (path_parts cs))"

text \<open>\<open>filepath.Clean\<close>: one element after the other onto what is kept, innermost first.\<close>

definition clean_part :: "bool \<Rightarrow> string list \<Rightarrow> string \<Rightarrow> string list" where
  "clean_part rooted kept part =
    (if part = '''' \<or> part = ''.'' then kept
     else if part = ''..'' then
       (case kept of [] \<Rightarrow> (if rooted then [] else [''..'']) | inner # rest \<Rightarrow> if inner = ''..'' then part # kept else rest)
     else part # kept)"

definition clean_parts :: "bool \<Rightarrow> string list \<Rightarrow> string list" where
  "clean_parts rooted parts = rev (foldl (clean_part rooted) [] parts)"

definition rooted_path :: "string \<Rightarrow> bool" where
  "rooted_path path \<longleftrightarrow> HasPrefix path ''/''"

definition path_of_parts :: "bool \<Rightarrow> string list \<Rightarrow> string" where
  "path_of_parts rooted parts =
    (if rooted then ''/'' @ Join parts ''/'' else if parts = [] then ''.'' else Join parts ''/'')"

definition path_Clean :: "string \<Rightarrow> string" where
  "path_Clean path = path_of_parts (rooted_path path) (clean_parts (rooted_path path) (path_parts path))"

definition path_Join :: "string \<Rightarrow> string \<Rightarrow> string" where
  "path_Join first second =
    (if first \<noteq> '''' then path_Clean (first @ ''/'' @ second) else if second \<noteq> '''' then path_Clean second else '''')"

definition path_Base :: "string \<Rightarrow> string" where
  "path_Base path =
    (if path = '''' then ''.''
     else let stripped = rev (dropWhile (\<lambda>c. c = slash) (rev path)); element = rev (takeWhile (\<lambda>c. c \<noteq> slash) (rev stripped))
          in if element = '''' then ''/'' else element)"

definition path_Dir :: "string \<Rightarrow> string" where
  "path_Dir path = path_Clean (rev (dropWhile (\<lambda>c. c \<noteq> slash) (rev path)))"

section \<open>Reading a scenario\<close>

text \<open>A fault with the \<open>Cause\<close> that carries a position, when there is one.\<close>

type_synonym load_fault = "Fault \<times> ScenarioError option"

record 'c reading_host =
  Rd_env :: environ
  Rd_unmarshal :: "string \<Rightarrow> string + yaml_node"
  Rd_methods :: "'c config_methods"
  Rd_registry :: "'c registry"
  Rd_url :: "string \<Rightarrow> (string \<times> string) option"
  Rd_files :: "string \<Rightarrow> read_failure + string"

text \<open>\<open>Check\<close> on a text: what \<open>Parse\<close> gave, with the name of the file in a position, and then \<open>Runner.Check\<close>.\<close>

definition named_parse :: "'c reading_host \<Rightarrow> string \<Rightarrow> string \<Rightarrow> ScenarioError + 'c Spec" where
  "named_parse rd content name =
    map_sum (SE_File_update (\<lambda>_. name)) id (Parse (Rd_env rd) (Rd_unmarshal rd) (Rd_methods rd) (Rd_registry rd) content)"

definition CheckContent :: "'c reading_host \<Rightarrow> string \<Rightarrow> string \<Rightarrow> load_fault + 'c Spec \<times> Plan" where
  "CheckContent rd content name =
    (let parsed = named_parse rd content name
     in map_sum (\<lambda>fault. (fault, case parsed of Inl err \<Rightarrow> Some err | Inr _ \<Rightarrow> None)) id
          (Check (Rd_methods rd) (Rd_env rd) (Rd_url rd) (map_sum ScenarioError_Error id parsed)))"

definition Load :: "'c reading_host \<Rightarrow> string \<Rightarrow> load_fault + 'c Spec \<times> Plan" where
  "Load rd path =
    (case Rd_files rd path of
       Inl failure \<Rightarrow>
         let err = readError path failure
         in Inl (badFile (Told (Sprintf ''error in the scenario: %v'' [ArgM (ScenarioError_Error err)])), Some err)
     | Inr content \<Rightarrow> CheckContent rd content path)"

definition Execute :: "'c reading_host \<Rightarrow> ('c Spec \<Rightarrow> string \<Rightarrow> 'w \<Rightarrow> ('c, 'h) Result option \<times> Fault option \<times> 'w) \<Rightarrow> string \<Rightarrow> 'w \<Rightarrow>
    ('c, 'h) Result option \<times> Fault option \<times> 'w" where
  "Execute rd execute_spec path w =
    (case Load rd path of Inl (fault, cause) \<Rightarrow> (None, Some fault, w) | Inr (spec, plan) \<Rightarrow> execute_spec spec (path_Dir path) w)"

section \<open>A name inside a directory\<close>

lemma path_parts_nonempty [simp]: "path_parts path \<noteq> []"
  by (cases path) auto

lemma path_parts_append: "path_parts (a @ slash # b) = path_parts a @ path_parts b"
  by (induction a) auto

lemma path_parts_plain: "slash \<notin> set name \<Longrightarrow> path_parts name = [name]"
  by (induction name) auto

lemma path_Base_plain:
  assumes "path_Base name = name" and "name \<noteq> ''/''" and "name \<noteq> ''''"
  shows "slash \<notin> set name"
proof -
  have "slash \<notin> set (rev (takeWhile (\<lambda>c. c \<noteq> slash) xs))" for xs by (auto dest: set_takeWhileD)
  then show ?thesis using assms unfolding path_Base_def Let_def by (metis (mono_tags, lifting))
qed

definition plain_name :: "string \<Rightarrow> bool" where
  "plain_name name \<longleftrightarrow> slash \<notin> set name \<and> name \<noteq> '''' \<and> name \<noteq> ''.'' \<and> name \<noteq> ''..''"

lemma clean_parts_plain:
  assumes "plain_name name"
  shows "clean_parts rooted (parts @ [name]) = clean_parts rooted parts @ [name]"
  using assms by (simp add: clean_parts_def clean_part_def plain_name_def)

text \<open>Where a file of a directory is: under the cleaned directory, one element deeper.\<close>

definition inside :: "string \<Rightarrow> string \<Rightarrow> string" where
  "inside directory name =
    (let cleaned = path_Clean directory
     in if cleaned = ''/'' then ''/'' @ name else if cleaned = ''.'' then name else cleaned @ ''/'' @ name)"

lemma Join_snoc: "parts \<noteq> [] \<Longrightarrow> Join (parts @ [name]) sep = Join parts sep @ sep @ name"
  by (induction parts rule: induct_list012) auto

text \<open>What is kept of a path has no empty element, no single dot and no slash.\<close>

definition kept_part :: "string \<Rightarrow> bool" where
  "kept_part part \<longleftrightarrow> part \<noteq> '''' \<and> part \<noteq> ''.'' \<and> slash \<notin> set part"

lemma path_parts_no_slash: "part \<in> set (path_parts path) \<Longrightarrow> slash \<notin> set part"
proof (induction path arbitrary: part)
  case (Cons c cs)
  then show ?case by (cases "path_parts cs") (auto split: if_splits)
qed simp

lemma clean_part_kept: "list_all kept_part kept \<Longrightarrow> slash \<notin> set part \<Longrightarrow> list_all kept_part (clean_part rooted kept part)"
  by (cases kept) (auto simp: clean_part_def kept_part_def)

lemma foldl_clean_kept:
  "list_all kept_part kept \<Longrightarrow> list_all (\<lambda>part. slash \<notin> set part) parts \<Longrightarrow> list_all kept_part (foldl (clean_part rooted) kept parts)"
  by (induction parts arbitrary: kept) (auto simp: clean_part_kept)

lemma clean_parts_kept: "list_all kept_part (clean_parts rooted (path_parts path))"
  using foldl_clean_kept[of "[]" "path_parts path" rooted] path_parts_no_slash by (auto simp: clean_parts_def list_all_iff)

lemma Join_kept:
  assumes "list_all kept_part parts" and "parts \<noteq> []"
  shows "Join parts ''/'' \<noteq> ''''" and "Join parts ''/'' \<noteq> ''/''" and "Join parts ''/'' \<noteq> ''.''"
proof -
  obtain part rest where parts: "parts = part # rest" using assms(2) by (cases parts) auto
  obtain c cs where part: "part = c # cs" "c \<noteq> slash" "part \<noteq> ''.''" using assms(1) parts by (cases part) (auto simp: kept_part_def)
  have "rest \<noteq> [] \<Longrightarrow> slash \<in> set (tl (Join parts ''/''))" using parts part by (cases rest) auto
  then show "Join parts ''/'' \<noteq> ''''" "Join parts ''/'' \<noteq> ''/''" "Join parts ''/'' \<noteq> ''.''"
    using parts part by (cases rest; auto)+
qed

lemma path_Join_inside:
  assumes plain: "plain_name name"
  shows "path_Join directory name = inside directory name"
proof (cases "directory = ''''")
  case True
  have "\<not> rooted_path name" using plain by (auto simp: rooted_path_def HasPrefix_iff plain_name_def)
  moreover have "path_parts name = [name]" using plain by (simp add: path_parts_plain plain_name_def)
  ultimately have "path_Clean name = name" using clean_parts_plain[OF plain, of False "[]"] by (simp add: path_Clean_def path_of_parts_def clean_parts_def)
  moreover have "path_Clean '''' = ''.''" by code_simp
  ultimately show ?thesis using True plain by (simp add: path_Join_def inside_def plain_name_def)
next
  case False
  define kept where "kept = clean_parts (rooted_path directory) (path_parts directory)"
  have rooted: "rooted_path (directory @ ''/'' @ name) = rooted_path directory"
    using False by (cases directory) (auto simp: rooted_path_def HasPrefix_def)
  have "path_parts (directory @ ''/'' @ name) = path_parts directory @ [name]"
    using plain path_parts_append[of directory name] by (simp add: path_parts_plain plain_name_def)
  then have whole: "path_Join directory name = path_of_parts (rooted_path directory) (kept @ [name])"
    using False rooted clean_parts_plain[OF plain] by (simp add: path_Join_def path_Clean_def kept_def)
  have cleaned: "path_Clean directory = path_of_parts (rooted_path directory) kept" by (simp add: path_Clean_def kept_def)
  have "list_all kept_part kept" by (simp add: kept_def clean_parts_kept)
  then show ?thesis using whole cleaned Join_kept[of kept] Join_snoc[of kept name "''/''"]
    by (cases "kept = []") (auto simp: inside_def path_of_parts_def)
qed

section \<open>One reading for the editor and the terminal\<close>

text \<open>A file that can be read is judged by its text alone, so a draft is judged as the file would be.\<close>

lemma Load_of_content: "Rd_files rd path = Inr content \<Longrightarrow> Load rd path = CheckContent rd content path"
  by (simp add: Load_def)

lemma CheckContent_accepts:
  "CheckContent rd content name = Inr (spec, plan) \<longleftrightarrow>
    Parse (Rd_env rd) (Rd_unmarshal rd) (Rd_methods rd) (Rd_registry rd) content = Inr spec
    \<and> Validate (Rd_methods rd) (Rd_env rd) (Rd_url rd) spec = None \<and> plan = CompilePlan (Spec_Load spec)"
  by (cases "Parse (Rd_env rd) (Rd_unmarshal rd) (Rd_methods rd) (Rd_registry rd) content")
    (auto simp: CheckContent_def named_parse_def Check_def Let_def split: option.splits)

lemma CheckContent_refuses:
  "CheckContent rd content name = Inl (fault, cause) \<Longrightarrow> Fault_Exit fault = ExitBadFile \<and> (\<forall>err. cause = Some err \<longrightarrow> SE_File err = name)"
  by (cases "Parse (Rd_env rd) (Rd_unmarshal rd) (Rd_methods rd) (Rd_registry rd) content")
    (auto simp: CheckContent_def named_parse_def Check_def badFile_def Let_def split: option.splits)

lemma Load_refuses: "Load rd path = Inl (fault, cause) \<Longrightarrow> Fault_Exit fault = ExitBadFile \<and> (\<forall>err. cause = Some err \<longrightarrow> SE_File err = path)"
  using CheckContent_refuses[of rd _ path fault cause] by (auto simp: Load_def badFile_def readError_def Let_def split: sum.splits)

end
