(* ===== verification/Server.thy ===== *)
theory Server
  imports Runs Loading
begin

text \<open>
  The HTTP server (\<open>internal/server/server.go\<close>, \<open>runs.go\<close> and \<open>environment.go\<close>): the store of runs, the values of a
  session, the slot that keeps two runs from measuring each other, and the handlers as functions from what a
  request carries to the status and the body of the answer. \<open>serve_step\<close> interleaves the goroutines of the server;
  inside it every run moves by \<open>run_step\<close>. Routing, JSON and the pages of \<open>internal/report\<close> are not modelled: a body
  is a constructor with the values that are encoded or rendered.
\<close>

section \<open>Values of a session\<close>

text \<open>\<open>environment\<close>: a map from names to values, the empty value deleting.\<close>

type_synonym session_values = "(string, string) gomap"

definition newEnvironment :: session_values where "newEnvironment = []"

definition snapshot_values :: "session_values \<Rightarrow> session_values" where
  "snapshot_values store = store"

definition set_one :: "session_values \<Rightarrow> string \<times> string \<Rightarrow> session_values" where
  "set_one store entry =
    (case entry of (name, val) \<Rightarrow> if val = '''' then filter (\<lambda>stored. fst stored \<noteq> name) store else gput store name val)"

definition set_values :: "session_values \<Rightarrow> session_values \<Rightarrow> session_values" where
  "set_values incoming store = foldl set_one store incoming"

definition provided_names :: "session_values \<Rightarrow> string list" where
  "provided_names store = sort_Strings (gkeys store)"

section \<open>The store of runs\<close>

record 'h runStore =
  St_byID :: "string \<rightharpoonup> 'h run_system"
  St_order :: "string list"
  St_next :: nat

definition newRunStore :: "'h runStore" where
  "newRunStore = \<lparr>St_byID = (\<lambda>_. None), St_order = [], St_next = 0\<rparr>"

text \<open>\<open>r%03d\<close>.\<close>

definition run_id :: "nat \<Rightarrow> string" where
  "run_id n = ''r'' @ replicate (3 - length (show_nat n)) (CHR ''0'') @ show_nat n"

definition store_start :: "string \<Rightarrow> 'c Spec \<Rightarrow> Plan \<Rightarrow> Time \<Rightarrow> 'h runStore \<Rightarrow> string \<times> 'h runStore" where
  "store_start scenarioName spec plan time store =
    (let next_number = Suc (St_next store); new_id = run_id next_number
     in (new_id, \<lparr>St_byID = (St_byID store)(new_id \<mapsto> started (new_run new_id scenarioName time spec plan)),
           St_order = St_order store @ [new_id], St_next = next_number\<rparr>))"

definition store_get :: "'h runStore \<Rightarrow> string \<Rightarrow> 'h run option" where
  "store_get store wanted = map_option Rs_run (St_byID store wanted)"

definition verdictOf :: "'h outcome \<Rightarrow> string" where
  "verdictOf state =
    (case Oc_Status state of
       statusRunning \<Rightarrow> ''in progress''
     | statusInterrupted \<Rightarrow> ''interrupted''
     | statusFailed \<Rightarrow> ''did not run''
     | statusDone \<Rightarrow>
         (case Oc_Document state of
            None \<Rightarrow> ''invalid result''
          | Some document \<Rightarrow>
              if \<not> Valid document then ''invalid result''
              else if Ver_Evaluations (Doc_SLO document) = [] then ''described''
              else if \<not> Ver_Passed (Doc_SLO document) then ''failed the SLO''
              else ''passed''))"

definition summaryOf :: "'h Document \<Rightarrow> int \<times> int \<times> bool" where
  "summaryOf document = (O_Count (Doc_Overall document), O_Errors (Doc_Overall document), Valid document)"

record runLine =
  Rl_ID :: string
  Rl_Scenario :: string
  Rl_Name :: string
  Rl_Status :: run_status
  Rl_Exit :: int
  Rl_Verdict :: string
  Rl_Started :: Time
  Rl_Summary :: "(int \<times> int \<times> bool) option"

definition line_of :: "'h run \<Rightarrow> runLine" where
  "line_of found =
    (let state = run_state found
     in \<lparr>Rl_ID = Run_ID found, Rl_Scenario = Run_Scenario found, Rl_Name = Run_Name found, Rl_Status = Oc_Status state, Rl_Exit = Oc_Exit state,
         Rl_Verdict = verdictOf state, Rl_Started = Run_Started found,
         Rl_Summary = (if Oc_Status state = statusDone then map_option summaryOf (Oc_Document state) else None)\<rparr>)"

definition store_list :: "'h runStore \<Rightarrow> runLine list" where
  "store_list store =
    sort_key (\<lambda>line. - Rl_Started line) (map line_of (List.map_filter (store_get store) (St_order store)))"

section \<open>The server\<close>

record server_Options =
  SO_Address :: string
  SO_Directory :: string
  SO_Version :: string
  SO_Concurrent :: bool
  SO_Writable :: bool
  SO_UI :: bool

definition server_DefaultOptions :: "string \<Rightarrow> server_Options" where
  "server_DefaultOptions version = \<lparr>SO_Address = ''127.0.0.1:8080'', SO_Directory = ''.'', SO_Version = version, SO_Concurrent = False, SO_Writable = False, SO_UI = False\<rparr>"

text \<open>\<open>target\<close> is the address of the practice target that was started.\<close>

record 'h Server =
  Se_options :: server_Options
  Se_runs :: "'h runStore"
  Se_environment :: session_values
  Se_busy :: bool
  Se_target :: "string option"

definition server_New :: "server_Options \<Rightarrow> 'h Server" where
  "server_New options = \<lparr>Se_options = options, Se_runs = newRunStore, Se_environment = newEnvironment, Se_busy = False, Se_target = None\<rparr>"

definition take_slot :: "'h Server \<Rightarrow> 'h Server option" where
  "take_slot server =
    (if SO_Concurrent (Se_options server) then Some server
     else if Se_busy server then None
     else Some (server\<lparr>Se_busy := True\<rparr>))"

definition release_slot :: "'h Server \<Rightarrow> 'h Server" where
  "release_slot server = (if SO_Concurrent (Se_options server) then server else server\<lparr>Se_busy := False\<rparr>)"

definition pathOf :: "'h Server \<Rightarrow> string \<Rightarrow> sentence + string" where
  "pathOf server name =
    (if name = '''' \<or> name \<noteq> path_Base name \<or> HasPrefix name ''.''
     then Inl (Sprintf ''invalid scenario name: %q. Use the file name inside the served directory, with no path'' [ArgS name])
     else Inr (path_Join (SO_Directory (Se_options server)) name))"

section \<open>Answers\<close>

record validationAnswer =
  Va_Valid :: bool
  Va_Lines :: "sentence list"
  Va_Needs :: "string list"
  Va_Message :: "fault_message option"
  Va_File :: string
  Va_Line :: int
  Va_Column :: int

definition refusal :: "load_fault \<Rightarrow> validationAnswer" where
  "refusal err =
    (case err of (fault, cause) \<Rightarrow>
       let answer = \<lparr>Va_Valid = False, Va_Lines = [], Va_Needs = [], Va_Message = Some (Fault_Message fault), Va_File = '''', Va_Line = 0, Va_Column = 0\<rparr>
       in case cause of
            None \<Rightarrow> answer
          | Some positioned \<Rightarrow> answer\<lparr>Va_File := SE_File positioned, Va_Line := SE_Line positioned, Va_Column := SE_Column positioned\<rparr>)"

record scenarioLine =
  Sl_Name :: string
  Sl_Path :: string
  Sl_Tech :: "string list"

record exampleLine =
  El_File :: string
  El_Name :: string
  El_Requires :: "string list"
  El_Tech :: "string list"
  El_Steps :: nat

datatype 'h body =
    Problem sentence
  | RawText string
  | Written string nat
  | Health string string bool
  | Scenarios "scenarioLine list"
  | Validation validationAnswer
  | Accepted string
  | RunLines "runLine list"
  | InProgress string run_status
  | ResultOf "'h Document"
  | Canceling string
  | ReportOf "'h Document"
  | CsvOf "'h Document"
  | SavedAt string
  | ComparisonOf Comparison
  | ComparisonPage Comparison string
  | Provided "string list"
  | Examples "exampleLine list"
  | TargetState bool string
  | Stream follower

type_synonym 'h answer = "int \<times> 'h body"

definition StatusOK :: int where "StatusOK = 200"
definition StatusAccepted :: int where "StatusAccepted = 202"
definition StatusBadRequest :: int where "StatusBadRequest = 400"
definition StatusNotFound :: int where "StatusNotFound = 404"
definition StatusConflict :: int where "StatusConflict = 409"
definition StatusUnprocessableEntity :: int where "StatusUnprocessableEntity = 422"
definition StatusInternalServerError :: int where "StatusInternalServerError = 500"

lemmas status_codes = StatusOK_def StatusAccepted_def StatusBadRequest_def StatusNotFound_def StatusConflict_def
  StatusUnprocessableEntity_def StatusInternalServerError_def

definition unknownRun :: "string \<Rightarrow> sentence" where
  "unknownRun wanted = Sprintf ''I do not know the run %q. Runs live in the memory of this process and disappear when it restarts; /runs lists the ones that exist now'' [ArgS wanted]"

definition status_text :: "run_status \<Rightarrow> string" where
  "status_text status = (case status of statusRunning \<Rightarrow> ''running'' | statusDone \<Rightarrow> ''done'' | statusFailed \<Rightarrow> ''failed'' | statusInterrupted \<Rightarrow> ''interrupted'')"

definition maxScenarioBytes :: nat where "maxScenarioBytes = 2 ^ 20"

section \<open>Scenarios\<close>

definition yaml_file :: "string \<Rightarrow> bool" where
  "yaml_file name \<longleftrightarrow> HasSuffix name ''.yaml'' \<or> HasSuffix name ''.yml''"

definition health :: "'h Server \<Rightarrow> 'h answer" where
  "health server = (StatusOK, Health (SO_Version (Se_options server)) (SO_Directory (Se_options server)) (SO_Writable (Se_options server)))"

definition open_error :: "string \<Rightarrow> read_failure \<Rightarrow> string" where
  "open_error path failure =
    (case failure of
       NotExist \<Rightarrow> ''open '' @ path @ '': no such file or directory''
     | NotPermitted \<Rightarrow> ''open '' @ path @ '': permission denied''
     | ReadFailed reason \<Rightarrow> reason)"

definition readScenario :: "'c reading_host \<Rightarrow> 'h Server \<Rightarrow> string \<Rightarrow> 'h answer" where
  "readScenario rd server name =
    (case pathOf server name of
       Inl err \<Rightarrow> (StatusBadRequest, Problem err)
     | Inr path \<Rightarrow>
         case Rd_files rd path of
           Inl err \<Rightarrow> (StatusNotFound, Problem (Sprintf ''I could not read %s: %v'' [ArgS path, ArgS (open_error path err)]))
         | Inr content \<Rightarrow> (StatusOK, RawText content))"

text \<open>\<open>body\<close> is what the client sent or why it could not be read; \<open>write\<close> is \<open>os.WriteFile\<close>, with its error.\<close>

definition writeScenario :: "(string \<Rightarrow> string \<Rightarrow> 'fs \<Rightarrow> string option \<times> 'fs) \<Rightarrow> 'h Server \<Rightarrow> string \<Rightarrow> string + string \<Rightarrow> 'fs \<Rightarrow> 'h answer \<times> 'fs" where
  "writeScenario write server name body fs =
    (case pathOf server name of
       Inl err \<Rightarrow> ((StatusBadRequest, Problem err), fs)
     | Inr path \<Rightarrow>
         if \<not> yaml_file path then ((StatusBadRequest, Problem (Plain ''I only write scenarios: the name has to end in .yaml'')), fs)
         else case body of
             Inl err \<Rightarrow> ((StatusBadRequest, Problem (Sprintf ''I could not read the body: %v'' [ArgS err])), fs)
           | Inr sent \<Rightarrow>
               let content = take maxScenarioBytes sent
               in case write path content fs of
                    (Some err, fs) \<Rightarrow> ((StatusInternalServerError, Problem (Sprintf ''I could not write %s: %v'' [ArgS path, ArgS err])), fs)
                  | (None, fs) \<Rightarrow> ((StatusOK, Written name (length content)), fs))"

definition tech_step :: "string list \<Rightarrow> 'c Step \<Rightarrow> string list" where
  "tech_step tech step =
    (let name = (if Step_Protocol step = '''' then ''http'' else Step_Protocol step)
     in if name = ''await'' \<or> name = ''wait'' then tech else if name \<in> set tech then tech else tech @ [name])"

definition technologies :: "'c Spec \<Rightarrow> string list" where
  "technologies spec = foldl tech_step [] (Spec_Steps spec)"

definition parse_text :: "'c reading_host \<Rightarrow> string \<Rightarrow> ScenarioError + 'c Spec" where
  "parse_text rd content = Parse (Rd_env rd) (Rd_unmarshal rd) (Rd_methods rd) (Rd_registry rd) content"

definition scenario_line :: "'c reading_host \<Rightarrow> string \<Rightarrow> string \<Rightarrow> scenarioLine" where
  "scenario_line rd directory name =
    (let path = path_Join directory name
     in \<lparr>Sl_Name = name, Sl_Path = path,
         Sl_Tech = (case Rd_files rd path of Inl _ \<Rightarrow> [] | Inr content \<Rightarrow> case parse_text rd content of Inl _ \<Rightarrow> [] | Inr spec \<Rightarrow> technologies spec)\<rparr>)"

text \<open>\<open>entries\<close> is what \<open>os.ReadDir\<close> gives: the names in order and whether each is a directory.\<close>

definition listScenarios :: "'c reading_host \<Rightarrow> 'h Server \<Rightarrow> string + (string \<times> bool) list \<Rightarrow> 'h answer" where
  "listScenarios rd server entries =
    (let directory = SO_Directory (Se_options server)
     in case entries of
          Inl err \<Rightarrow> (StatusInternalServerError, Problem (Sprintf ''I could not read %s: %v'' [ArgS directory, ArgS err]))
        | Inr found \<Rightarrow> (StatusOK, Scenarios (map (scenario_line rd directory \<circ> fst) (filter (\<lambda>(name, is_dir). \<not> is_dir \<and> yaml_file name) found))))"

definition validate_scenario :: "'c reading_host \<Rightarrow> 'h Server \<Rightarrow> string \<Rightarrow> string + string \<Rightarrow> 'h answer" where
  "validate_scenario rd server name body =
    (case pathOf server name of
       Inl err \<Rightarrow> (StatusBadRequest, Problem err)
     | Inr path \<Rightarrow>
         case body of
           Inl err \<Rightarrow> (StatusBadRequest, Problem (Sprintf ''I could not read the body: %v'' [ArgS err]))
         | Inr sent \<Rightarrow>
             let draft = take maxScenarioBytes sent
             in case (if draft \<noteq> '''' then CheckContent rd draft path else Load rd path) of
                  Inl err \<Rightarrow> (StatusUnprocessableEntity, Validation (refusal err))
                | Inr (spec, plan) \<Rightarrow>
                    let spec = ResolveWith (snapshot_values (Se_environment server)) spec
                    in (StatusOK, Validation \<lparr>Va_Valid = True, Va_Lines = runner_Describe (Rd_methods rd) spec plan, Va_Needs = SessionCredentials spec,
                          Va_Message = None, Va_File = '''', Va_Line = 0, Va_Column = 0\<rparr>))"

section \<open>Starting a run\<close>

definition busyMessage :: string where
  "busyMessage = ''there is already a run in progress. Two runs on the same machine fight over the CPU that has to dispatch at the scheduled instant, and neither one measures what it set out to measure. Wait for the current one to finish, or start the server with -concurrent if the contamination is acceptable in this case.''"

text \<open>Up to taking the slot; then the run is put in the store and the goroutine that executes it starts.\<close>

definition admit :: "'c reading_host \<Rightarrow> 'h Server \<Rightarrow> string \<Rightarrow> 'h answer + 'h Server \<times> 'c Spec \<times> Plan" where
  "admit rd server name =
    (case pathOf server name of
       Inl err \<Rightarrow> Inl (StatusBadRequest, Problem err)
     | Inr path \<Rightarrow>
         case Load rd path of
           Inl err \<Rightarrow> Inl (StatusUnprocessableEntity, Validation (refusal err))
         | Inr (spec, plan) \<Rightarrow>
             case take_slot server of
               None \<Rightarrow> Inl (StatusConflict, Problem (Plain busyMessage))
             | Some server \<Rightarrow> Inr (server, spec, plan))"

definition launch :: "string \<Rightarrow> 'c Spec \<Rightarrow> Plan \<Rightarrow> Time \<Rightarrow> 'h Server \<Rightarrow> 'h answer \<times> string \<times> 'h Server" where
  "launch name spec plan time server =
    (case store_start name spec plan time (Se_runs server) of (new_id, store) \<Rightarrow>
       ((StatusAccepted, Accepted new_id), new_id, server\<lparr>Se_runs := store\<rparr>))"

section \<open>Runs\<close>

definition listRuns :: "'h Server \<Rightarrow> 'h answer" where
  "listRuns server = (StatusOK, RunLines (store_list (Se_runs server)))"

text \<open>The document of a settled run: a failed run carries the zero one, which no handler below shows.\<close>

definition document_of :: "('h Document \<Rightarrow> 'h body) \<Rightarrow> 'h outcome \<Rightarrow> 'h answer" where
  "document_of show_document state =
    (case Oc_Document state of None \<Rightarrow> (StatusInternalServerError, Problem (Plain '''')) | Some document \<Rightarrow> (StatusOK, show_document document))"

definition getRun :: "'h Server \<Rightarrow> string \<Rightarrow> 'h answer" where
  "getRun server wanted =
    (case store_get (Se_runs server) wanted of
       None \<Rightarrow> (StatusNotFound, Problem (unknownRun wanted))
     | Some found \<Rightarrow>
         let state = run_state found
         in if Oc_Status state = statusRunning then (StatusOK, InProgress (Run_ID found) (Oc_Status state))
            else if Oc_Status state = statusFailed then (StatusUnprocessableEntity, Problem (Oc_Message state))
            else document_of ResultOf state)"

text \<open>The answer of \<open>cancelRun\<close>; the state of the run after it is the one \<open>run_cancel\<close> leaves.\<close>

definition cancelRun :: "'h Server \<Rightarrow> string \<Rightarrow> 'h answer" where
  "cancelRun server wanted =
    (case store_get (Se_runs server) wanted of
       None \<Rightarrow> (StatusNotFound, Problem (unknownRun wanted))
     | Some found \<Rightarrow>
         (case run_cancel found of (accepted, armed, found) \<Rightarrow>
            if \<not> accepted
            then (StatusConflict, Problem (Sprintf ''the run is no longer in progress; the state right now is %s'' [ArgS (status_text (Oc_Status (run_state found)))]))
            else (StatusAccepted, Canceling (Run_ID found))))"

definition finished_only :: "string \<Rightarrow> ('h run \<Rightarrow> 'h answer) \<Rightarrow> 'h Server \<Rightarrow> string \<Rightarrow> 'h answer" where
  "finished_only what answer server wanted =
    (case store_get (Se_runs server) wanted of
       None \<Rightarrow> (StatusNotFound, Problem (unknownRun wanted))
     | Some found \<Rightarrow>
         if Oc_Status (run_state found) \<noteq> statusDone
         then (StatusConflict, Problem (Sprintf ''the %s only exists after the run finishes; the state right now is %s'' [ArgS what, ArgS (status_text (Oc_Status (run_state found)))]))
         else answer found)"

definition getReport :: "'h Server \<Rightarrow> string \<Rightarrow> 'h answer" where
  "getReport = finished_only ''report'' (\<lambda>found. document_of ReportOf (run_state found))"

definition runCSV :: "'h Server \<Rightarrow> string \<Rightarrow> 'h answer" where
  "runCSV = finished_only ''CSV'' (\<lambda>found. document_of CsvOf (run_state found))"

text \<open>What the file system answers while a report is saved: the error of each call, and the absolute path.\<close>

record saving =
  Sv_mkdir :: "string option"
  Sv_create :: "string option"
  Sv_render :: "string option"
  Sv_close :: "string option"
  Sv_absolute :: "string option"

definition saveReport :: "saving \<Rightarrow> 'h Server \<Rightarrow> string \<Rightarrow> 'h answer" where
  "saveReport fs server =
    finished_only ''report'' (\<lambda>found.
      let folder = path_Join (SO_Directory (Se_options server)) ''reports''; path = path_Join folder (Run_ID found @ ''-report.html'');
          failed = (\<lambda>format args. (StatusInternalServerError, Problem (Sprintf format args)))
      in case Sv_mkdir fs of Some err \<Rightarrow> failed ''I could not create %s: %v'' [ArgS folder, ArgS err]
         | None \<Rightarrow> (case Sv_create fs of Some err \<Rightarrow> failed ''I could not write %s: %v'' [ArgS path, ArgS err]
         | None \<Rightarrow> (case Sv_render fs of Some err \<Rightarrow> failed ''I started %s but the report did not finish: %v'' [ArgS path, ArgS err]
         | None \<Rightarrow> (case Sv_close fs of Some err \<Rightarrow> failed ''I could not finish writing %s: %v'' [ArgS path, ArgS err]
         | None \<Rightarrow> (StatusOK, SavedAt (case Sv_absolute fs of None \<Rightarrow> path | Some absolute \<Rightarrow> absolute)))))) server"

definition streamRun :: "'h Server \<Rightarrow> string \<Rightarrow> 'h answer" where
  "streamRun server wanted =
    (case store_get (Se_runs server) wanted of
       None \<Rightarrow> (StatusNotFound, Problem (unknownRun wanted))
     | Some found \<Rightarrow> (StatusOK, Stream (follow found)))"

text \<open>The two ids are visited in the order of a Go map, which is any: \<open>after_first\<close> says which.\<close>

definition pairToCompare :: "bool \<Rightarrow> 'h Server \<Rightarrow> string \<Rightarrow> string \<Rightarrow> 'h answer + 'h run \<times> 'h run" where
  "pairToCompare after_first server before_id after_id =
    (case (store_get (Se_runs server) before_id, store_get (Se_runs server) after_id) of
       (Some before, Some after) \<Rightarrow>
         if Oc_Status (run_state before) \<noteq> statusDone \<or> Oc_Status (run_state after) \<noteq> statusDone
         then Inl (StatusConflict, Problem (Plain ''only finished runs can be compared; one of the two has not finished''))
         else Inr (before, after)
     | (None, Some _) \<Rightarrow> Inl (StatusNotFound, Problem (unknownRun before_id))
     | (Some _, None) \<Rightarrow> Inl (StatusNotFound, Problem (unknownRun after_id))
     | (None, None) \<Rightarrow> Inl (StatusNotFound, Problem (unknownRun (if after_first then after_id else before_id))))"

definition compared :: "('h Document \<Rightarrow> Comparison \<Rightarrow> 'h body) \<Rightarrow> bool \<Rightarrow> 'h Server \<Rightarrow> string \<Rightarrow> string \<Rightarrow> 'h answer" where
  "compared show_comparison after_first server before_id after_id =
    (case pairToCompare after_first server before_id after_id of
       Inl problem \<Rightarrow> problem
     | Inr (before, after) \<Rightarrow>
         case (Oc_Document (run_state before), Oc_Document (run_state after)) of
           (Some older, Some newer) \<Rightarrow> (StatusOK, show_comparison newer (Compare older newer))
         | _ \<Rightarrow> (StatusInternalServerError, Problem (Plain '''')))"

definition compare_runs :: "bool \<Rightarrow> 'h Server \<Rightarrow> string \<Rightarrow> string \<Rightarrow> 'h answer" where
  "compare_runs = compared (\<lambda>newer result. ComparisonOf result)"

definition compareReport :: "bool \<Rightarrow> 'h Server \<Rightarrow> string \<Rightarrow> string \<Rightarrow> 'h answer" where
  "compareReport = compared (\<lambda>newer result. ComparisonPage result (Doc_Version newer))"

section \<open>Session values, examples and the practice target\<close>

definition getEnvironment :: "'h Server \<Rightarrow> 'h answer" where
  "getEnvironment server = (StatusOK, Provided (provided_names (Se_environment server)))"

text \<open>\<open>incoming\<close> is the decoded body, in the order its map is visited.\<close>

definition setEnvironment :: "session_values option \<Rightarrow> 'h Server \<Rightarrow> 'h answer \<times> 'h Server" where
  "setEnvironment body server =
    (case body of
       None \<Rightarrow> ((StatusBadRequest, Problem (Plain ''the body has to be a JSON object of name to value'')), server)
     | Some incoming \<Rightarrow>
         case find (\<lambda>(name, _). \<not> IsEnvironmentName name) incoming of
           Some (name, _) \<Rightarrow> ((StatusBadRequest, Problem (Sprintf (''the name %s is not an environment reference; use the uppercase name the scenario writes inside ${'' @ [CHR 0xE2, CHR 0x80, CHR 0xA6] @ ''}'') [ArgS name])), server)
         | None \<Rightarrow>
             let server = server\<lparr>Se_environment := set_values incoming (Se_environment server)\<rparr>
             in ((StatusOK, Provided (provided_names (Se_environment server))), server))"

definition example_line :: "'c reading_host \<Rightarrow> string \<Rightarrow> string + string \<Rightarrow> exampleLine" where
  "example_line rd file content =
    (let line = \<lparr>El_File = file, El_Name = '''', El_Requires = [], El_Tech = [], El_Steps = 0\<rparr>
     in case content of
          Inl _ \<Rightarrow> line
        | Inr content \<Rightarrow>
            case parse_text rd content of
              Inl _ \<Rightarrow> line
            | Inr spec \<Rightarrow> line\<lparr>El_Name := Spec_Name spec, El_Requires := Spec_Requires spec, El_Steps := length (Spec_Steps spec), El_Tech := technologies spec\<rparr>)"

definition listExamples :: "'c reading_host \<Rightarrow> (string \<Rightarrow> string + string) \<Rightarrow> string + (string \<times> bool) list \<Rightarrow> 'h answer" where
  "listExamples rd embedded entries =
    (case entries of
       Inl err \<Rightarrow> (StatusInternalServerError, Problem (Sprintf ''I could not read the examples: %s'' [ArgS err]))
     | Inr found \<Rightarrow>
         (StatusOK, Examples (map (\<lambda>(file, _). example_line rd file (embedded file)) (filter (\<lambda>(file, is_dir). \<not> is_dir \<and> HasSuffix file ''.yaml'') found))))"

definition getExample :: "(string \<Rightarrow> string + string) \<Rightarrow> string \<Rightarrow> 'h answer" where
  "getExample embedded name =
    (if CHR ''/'' \<in> set name \<or> CHR 0x5C \<in> set name \<or> \<not> HasSuffix name ''.yaml''
     then (StatusBadRequest, Problem (Sprintf ''%q is not an example name'' [ArgS name]))
     else case embedded name of
         Inl _ \<Rightarrow> (StatusNotFound, Problem (Sprintf ''there is no example named %q'' [ArgS name]))
       | Inr content \<Rightarrow> (StatusOK, RawText content))"

definition writeTargetState :: "'h Server \<Rightarrow> 'h answer" where
  "writeTargetState server =
    (StatusOK, TargetState (Se_target server \<noteq> None) (case Se_target server of None \<Rightarrow> '''' | Some address \<Rightarrow> address))"

definition getTarget :: "'h Server \<Rightarrow> 'h answer" where
  "getTarget server = writeTargetState server"

text \<open>\<open>listen\<close> is what starting the target on a free port gives: an error or its address.\<close>

definition startTarget :: "string + string \<Rightarrow> 'h Server \<Rightarrow> 'h answer \<times> 'h Server" where
  "startTarget listen server =
    (case Se_target server of
       Some _ \<Rightarrow> (writeTargetState server, server)
     | None \<Rightarrow>
         case listen of
           Inl err \<Rightarrow> ((StatusInternalServerError, Problem (Sprintf ''I could not start the practice target: %s'' [ArgS err])), server)
         | Inr address \<Rightarrow> let server = server\<lparr>Se_target := Some address\<rparr> in (writeTargetState server, server))"

definition stopTarget :: "'h Server \<Rightarrow> 'h answer \<times> 'h Server" where
  "stopTarget server = (let server = server\<lparr>Se_target := None\<rparr> in (writeTargetState server, server))"

definition StartupWarning :: "'h Server \<Rightarrow> sentence list" where
  "StartupWarning server =
    (let options = Se_options server; place = [ArgS (SO_Address options), ArgS (SO_Directory options)];
         opening = (if SO_UI options then Sprintf ''braunrate ui at http://%s, editing the scenarios in %s'' place
                    else Sprintf ''braunrate serve at http://%s, serving scenarios from %s'' place)
     in [opening,
         Plain ''No authentication and no TLS: anyone who reaches this port can fire load at the targets of the scenarios.'',
         Plain ''It was made to run on 127.0.0.1. Exposing it on another interface is a separate decision, and it has not been made.'']
        @ (if SO_Writable options then [Sprintf ''Writing enabled: whoever reaches this port can change the scenario files in %s.'' [ArgS (SO_Directory options)]] else [])
        @ (if SO_Concurrent options then [Plain ''Concurrent runs enabled: two runs at the same time fight over the CPU that has to dispatch at the scheduled instant, and neither one measures what it set out to measure.''] else [])
        @ [if SO_UI options then Sprintf (nl @ ''Open it in the browser:'' @ nl @ ''  http://%s'') [ArgS (SO_Address options)]
           else Sprintf (nl @ ''To see what it is serving:'' @ nl @ ''  curl http://%s/scenarios'') [ArgS (SO_Address options)]])"

section \<open>The goroutines of the server\<close>

text \<open>A job holds the slot: a request to run between taking it and starting, the goroutine of a run, a debug request.\<close>

datatype 'c job = Starting string "'c Spec" Plan | Executing string | Debugging

record ('c, 'h) serving =
  Sg_server :: "'h Server"
  Sg_jobs :: "'c job list"

text \<open>Removing one occurrence of a job that is over.\<close>

definition over_job :: "'c job \<Rightarrow> ('c, 'h) serving \<Rightarrow> ('c, 'h) serving" where
  "over_job job s = s\<lparr>Sg_server := release_slot (Sg_server s), Sg_jobs := remove1 job (Sg_jobs s)\<rparr>"

inductive serve_step :: "'c reading_host \<Rightarrow> (string \<Rightarrow> 'h executed) \<Rightarrow> ('c, 'h) serving \<Rightarrow> ('c, 'h) serving \<Rightarrow> bool" for rd executed where
  Admit: "admit rd (Sg_server s) name = Inr (server, spec, plan) \<Longrightarrow>
    serve_step rd executed s (s\<lparr>Sg_server := server, Sg_jobs := Starting name spec plan # Sg_jobs s\<rparr>)"
| Launch: "Starting name spec plan \<in> set (Sg_jobs s) \<Longrightarrow> launch name spec plan time (Sg_server s) = (reply, new_id, server) \<Longrightarrow>
    serve_step rd executed s (s\<lparr>Sg_server := server, Sg_jobs := Executing new_id # remove1 (Starting name spec plan) (Sg_jobs s)\<rparr>)"
| Move: "St_byID (Se_runs (Sg_server s)) known = Some r \<Longrightarrow> run_step (executed known) r r' \<Longrightarrow>
    serve_step rd executed s (s\<lparr>Sg_server := (Sg_server s)\<lparr>Se_runs := (Se_runs (Sg_server s))\<lparr>St_byID := (St_byID (Se_runs (Sg_server s)))(known \<mapsto> r')\<rparr>\<rparr>\<rparr>)"
| Finished: "Executing known \<in> set (Sg_jobs s) \<Longrightarrow> St_byID (Se_runs (Sg_server s)) known = Some r \<Longrightarrow> Rs_finish r = Over \<Longrightarrow>
    serve_step rd executed s (over_job (Executing known) s)"
| Debug: "take_slot (Sg_server s) = Some server \<Longrightarrow>
    serve_step rd executed s (s\<lparr>Sg_server := server, Sg_jobs := Debugging # Sg_jobs s\<rparr>)"
| Debugged: "Debugging \<in> set (Sg_jobs s) \<Longrightarrow> serve_step rd executed s (over_job Debugging s)"
| Session: "setEnvironment body (Sg_server s) = (reply, server) \<Longrightarrow> serve_step rd executed s (s\<lparr>Sg_server := server\<rparr>)"
| Target: "startTarget listen (Sg_server s) = (reply, server) \<or> stopTarget (Sg_server s) = (reply, server) \<Longrightarrow>
    serve_step rd executed s (s\<lparr>Sg_server := server\<rparr>)"

inductive serve_reach :: "'c reading_host \<Rightarrow> (string \<Rightarrow> 'h executed) \<Rightarrow> server_Options \<Rightarrow> ('c, 'h) serving \<Rightarrow> bool" for rd executed options where
  Up: "serve_reach rd executed options \<lparr>Sg_server = server_New options, Sg_jobs = []\<rparr>"
| On: "serve_reach rd executed options s \<Longrightarrow> serve_step rd executed s s' \<Longrightarrow> serve_reach rd executed options s'"

inductive_cases serve_stepE [elim]: "serve_step rd executed s s'"

section \<open>Session values are a map without empty values\<close>

definition session_ok :: "session_values \<Rightarrow> bool" where
  "session_ok store \<longleftrightarrow> distinct (gkeys store) \<and> (\<forall>(name, val) \<in> set store. val \<noteq> '''' \<and> IsEnvironmentName name)"

lemma gget_filter_key: "gget (filter (\<lambda>stored. fst stored \<noteq> name) store) other = (if other = name then None else gget store other)"
  by (induction store) (auto simp: gget_def)

lemma gget_set_one: "gget (set_one store (name, val)) other = (if other \<noteq> name then gget store other else if val = '''' then None else Some val)"
  by (simp add: set_one_def gget_filter_key)

lemma gget_set_values:
  assumes "distinct (gkeys incoming)"
  shows "gget (set_values incoming store) name =
    (case gget incoming name of None \<Rightarrow> gget store name | Some val \<Rightarrow> if val = '''' then None else Some val)"
  using assms
proof (induction incoming arbitrary: store)
  case (Cons entry incoming)
  obtain key val where entry: "entry = (key, val)" by (cases entry)
  have "key \<notin> set (gkeys incoming)" using Cons.prems by (simp add: gkeys_def entry)
  then have absent: "gget incoming key = None" by (simp add: gget_None_iff)
  have "set_values (entry # incoming) store = set_values incoming (set_one store entry)" by (simp add: set_values_def)
  with Cons absent show ?case by (auto simp: entry gget_set_one gget_Cons gkeys_def split: option.splits)
qed (simp add: set_values_def)

lemma gkeys_set_one: "gkeys (set_one store (name, val)) =
    (if val = '''' then filter (\<lambda>stored. stored \<noteq> name) (gkeys store) else if name \<in> set (gkeys store) then gkeys store else gkeys store @ [name])"
  by (simp add: set_one_def gkeys_gput) (simp add: gkeys_def filter_map comp_def)

lemma set_gput_subset: "set (gput m k v) \<subseteq> insert (k, v) (set m)"
  by (induction m k v rule: gput.induct) auto

lemma session_ok_set_one: "session_ok store \<Longrightarrow> IsEnvironmentName name \<Longrightarrow> session_ok (set_one store (name, val))"
  using set_gput_subset[of store name val] by (auto simp: session_ok_def set_one_def gkeys_def distinct_map_filter split: if_splits)
    (metis gkeys_def gmap_ok_gput)

lemma session_ok_set_values:
  "session_ok store \<Longrightarrow> \<forall>(name, val) \<in> set incoming. IsEnvironmentName name \<Longrightarrow> session_ok (set_values incoming store)"
  unfolding set_values_def
proof (induction incoming arbitrary: store)
  case (Cons entry incoming)
  then show ?case by (cases entry) (simp add: session_ok_set_one)
qed simp

text \<open>Which names are stored depends on the names that come in and on which of their values are empty, on nothing else.\<close>

definition outline :: "session_values \<Rightarrow> (string \<times> bool) list" where
  "outline incoming = map (\<lambda>(name, val). (name, val = '''')) incoming"

lemma gkeys_set_values_outline:
  "outline incoming = outline incoming' \<Longrightarrow> gkeys store = gkeys store' \<Longrightarrow> gkeys (set_values incoming store) = gkeys (set_values incoming' store')"
  unfolding set_values_def
proof (induction incoming arbitrary: incoming' store store')
  case (Cons entry incoming)
  then obtain entry' rest where rest: "incoming' = entry' # rest" by (cases incoming') (auto simp: outline_def)
  have "gkeys (set_one store entry) = gkeys (set_one store' entry')"
    using Cons.prems rest by (cases entry; cases entry') (auto simp: outline_def gkeys_set_one)
  with Cons.IH[of rest "set_one store entry" "set_one store' entry'"] Cons.prems(1) rest show ?case by (simp add: outline_def)
qed (simp add: outline_def)

lemma find_bad_name_outline:
  "outline incoming = outline incoming' \<Longrightarrow>
    map_option fst (find (\<lambda>(name, _). \<not> IsEnvironmentName name) incoming) = map_option fst (find (\<lambda>(name, _). \<not> IsEnvironmentName name) incoming')"
proof (induction incoming arbitrary: incoming')
  case (Cons entry incoming)
  then show ?case by (cases incoming'; cases entry) (auto simp: outline_def)
qed (simp add: outline_def)

lemma setEnvironment_answer_outline:
  assumes "outline incoming = outline incoming'"
  shows "fst (setEnvironment (Some incoming) server) = fst (setEnvironment (Some incoming') server)"
  using find_bad_name_outline[OF assms] gkeys_set_values_outline[OF assms, of "Se_environment server" "Se_environment server"]
  by (cases "find (\<lambda>(name, _). \<not> IsEnvironmentName name) incoming"; cases "find (\<lambda>(name, _). \<not> IsEnvironmentName name) incoming'")
    (auto simp: setEnvironment_def Let_def provided_names_def)

section \<open>Numbers of runs\<close>

lemma read_nat_zeros: "read_nat (replicate k (CHR ''0'') @ s) = read_nat s"
proof -
  have "digit_value (CHR ''0'') = 0" by (simp add: digit_value_def)
  then have "foldl (\<lambda>acc c. 10 * acc + digit_value c) 0 (replicate k (CHR ''0'')) = 0" by (induction k) auto
  then show ?thesis by (simp add: read_nat_def)
qed

lemma run_id_inj: "run_id m = run_id n \<Longrightarrow> m = n"
  unfolding run_id_def by (metis append_Cons append_Nil list.inject read_nat_zeros read_show_nat)

definition run_ids :: "nat \<Rightarrow> string list" where
  "run_ids n = map run_id [1..<Suc n]"

lemma distinct_run_ids: "distinct (run_ids n)"
  by (auto simp: run_ids_def distinct_map inj_on_def dest: run_id_inj)

lemma run_id_new: "run_id (Suc n) \<notin> set (run_ids n)"
  by (auto simp: run_ids_def dest!: run_id_inj)

section \<open>One run at a time\<close>

definition store_ok :: "'c job list \<Rightarrow> 'h runStore \<Rightarrow> bool" where
  "store_ok jobs store \<longleftrightarrow> St_order store = run_ids (St_next store) \<and> dom (St_byID store) = set (St_order store)
    \<and> (\<forall>known r. St_byID store known = Some r \<longrightarrow> Run_ID (Rs_run r) = known \<and> run_ok r \<and> (Rs_finish r \<noteq> Over \<longrightarrow> Executing known \<in> set jobs))"

definition slot_ok :: "'c job list \<Rightarrow> 'h Server \<Rightarrow> bool" where
  "slot_ok jobs server \<longleftrightarrow> SO_Concurrent (Se_options server) \<or> length jobs \<le> 1 \<and> Se_busy server = (jobs \<noteq> [])"

definition serving_ok :: "('c, 'h) serving \<Rightarrow> bool" where
  "serving_ok s \<longleftrightarrow> store_ok (Sg_jobs s) (Se_runs (Sg_server s)) \<and> slot_ok (Sg_jobs s) (Sg_server s) \<and> session_ok (Se_environment (Sg_server s))"

lemma run_step_ID: "run_step executed r r' \<Longrightarrow> Run_ID (Rs_run r') = Run_ID (Rs_run r)"
  by (auto simp: run_cancel_def run_arm_def settle_def append_line_def close_run_def)

lemma run_step_Over: "run_step executed r r' \<Longrightarrow> Rs_finish r = Over \<Longrightarrow> Rs_finish r' = Over"
  by (auto simp: append_line_def close_run_def)

lemma store_ok_start:
  assumes "store_ok jobs store" and "store_start name spec plan time store = (new_id, store')"
  shows "store_ok (Executing new_id # remove1 (Starting name spec plan) jobs) store'"
proof -
  have new: "new_id = run_id (Suc (St_next store))" and store': "store' = \<lparr>St_byID = (St_byID store)(new_id \<mapsto> started (new_run new_id name time spec plan)),
      St_order = St_order store @ [new_id], St_next = Suc (St_next store)\<rparr>"
    using assms(2) by (auto simp: store_start_def Let_def)
  have "fresh_run (new_run new_id name time spec plan)" by (simp add: fresh_run_def new_run_def)
  then have ok: "run_ok (started (new_run new_id name time spec plan))" by (rule started_ok)
  have others: "Executing known \<in> set (remove1 (Starting name spec plan) jobs)" if "Executing known \<in> set jobs" for known
    using that by (simp add: in_set_remove1)
  show ?thesis using assms(1) ok others new unfolding store_ok_def store'
    by (auto simp: run_ids_def started_def new_run_def)
qed

lemma store_ok_move:
  assumes "store_ok jobs store" and "St_byID store known = Some r" and "run_step executed r r'"
  shows "store_ok jobs (store\<lparr>St_byID := (St_byID store)(known \<mapsto> r')\<rparr>)"
  using assms run_step_ok[OF assms(3)] run_step_ID[OF assms(3)] run_step_Over[OF assms(3)] unfolding store_ok_def by auto

lemma store_ok_finished:
  assumes "store_ok jobs store" and "St_byID store known = Some r" and "Rs_finish r = Over"
  shows "store_ok (remove1 (Executing known) jobs) store"
proof -
  have "Executing other \<in> set (remove1 (Executing known) jobs)" if "Executing other \<in> set jobs" "other \<noteq> known" for other
    using that by (simp add: in_set_remove1)
  then show ?thesis using assms unfolding store_ok_def by (metis option.inject)
qed

lemma store_ok_other_job:
  "store_ok jobs store \<Longrightarrow> \<forall>known. Executing known \<in> set jobs \<longrightarrow> Executing known \<in> set jobs' \<Longrightarrow> store_ok jobs' store"
  unfolding store_ok_def by blast

lemma take_slot_some:
  assumes "take_slot server = Some server'" and "slot_ok jobs server"
  shows "slot_ok (job # jobs) server'" and "Se_runs server' = Se_runs server" and "Se_environment server' = Se_environment server"
  using assms by (auto simp: take_slot_def slot_ok_def split: if_splits)

lemma slot_ok_release: "job \<in> set jobs \<Longrightarrow> slot_ok jobs server \<Longrightarrow> slot_ok (remove1 job jobs) (release_slot server)"
  by (cases jobs) (auto simp: slot_ok_def release_slot_def)

lemma slot_ok_swap: "old \<in> set jobs \<Longrightarrow> slot_ok (new # remove1 old jobs) server = slot_ok jobs server"
  by (cases jobs) (auto simp: slot_ok_def length_remove1)

lemma release_slot_simps [simp]: "Se_runs (release_slot server) = Se_runs server" "Se_environment (release_slot server) = Se_environment server"
  by (simp_all add: release_slot_def)

lemma setEnvironment_keeps:
  assumes "setEnvironment body server = (reply, server')"
  shows "Se_runs server' = Se_runs server" and "slot_ok jobs server' = slot_ok jobs server" and "session_ok (Se_environment server) \<Longrightarrow> session_ok (Se_environment server')"
proof -
  show "Se_runs server' = Se_runs server" "slot_ok jobs server' = slot_ok jobs server"
    using assms by (auto simp: setEnvironment_def slot_ok_def Let_def split: option.splits prod.splits)
  show "session_ok (Se_environment server')" if "session_ok (Se_environment server)"
    using assms that by (auto simp: setEnvironment_def Let_def find_None_iff split: option.splits prod.splits intro!: session_ok_set_values) blast
qed

lemma target_keeps:
  assumes "startTarget listen server = (reply, server') \<or> stopTarget server = (reply, server')"
  shows "Se_runs server' = Se_runs server" and "slot_ok jobs server' = slot_ok jobs server" and "Se_environment server' = Se_environment server"
  using assms by (auto simp: startTarget_def stopTarget_def slot_ok_def Let_def split: option.splits sum.splits)

lemma serve_step_ok:
  assumes "serve_step rd executed s s'" and ok: "serving_ok s"
  shows "serving_ok s'"
  using assms(1)
proof cases
  case (Admit name server spec plan)
  from Admit(2) have "take_slot (Sg_server s) = Some server"
    by (auto simp: admit_def split: sum.splits option.splits)
  from take_slot_some[OF this, of "Sg_jobs s"] Admit(1) ok show ?thesis
    by (auto simp: serving_ok_def elim: store_ok_other_job)
next
  case (Launch name spec plan time reply new_id server)
  then obtain store where start: "store_start name spec plan time (Se_runs (Sg_server s)) = (new_id, store)" and server: "server = (Sg_server s)\<lparr>Se_runs := store\<rparr>"
    by (auto simp: launch_def split: prod.splits)
  have "slot_ok (Executing new_id # remove1 (Starting name spec plan) (Sg_jobs s)) server"
    using slot_ok_swap[OF Launch(2), of "Executing new_id" server] ok by (auto simp: serving_ok_def server slot_ok_def)
  with store_ok_start[OF _ start, of "Sg_jobs s"] Launch(1) ok server show ?thesis by (simp add: serving_ok_def)
next
  case (Move known r r')
  with store_ok_move[OF _ Move(2,3), of "Sg_jobs s"] ok show ?thesis by (simp add: serving_ok_def slot_ok_def)
next
  case (Finished known r)
  with store_ok_finished[OF _ Finished(3,4), of "Sg_jobs s"] slot_ok_release[OF Finished(2), of "Sg_server s"] ok show ?thesis
    by (simp add: serving_ok_def over_job_def)
next
  case (Debug server)
  from take_slot_some[OF Debug(2), of "Sg_jobs s"] Debug(1) ok show ?thesis
    by (auto simp: serving_ok_def elim: store_ok_other_job)
next
  case Debugged
  have "store_ok (remove1 Debugging (Sg_jobs s)) (Se_runs (Sg_server s))"
    using ok by (auto simp: serving_ok_def in_set_remove1 elim: store_ok_other_job)
  with Debugged slot_ok_release[OF Debugged(2), of "Sg_server s"] ok show ?thesis by (simp add: serving_ok_def over_job_def)
next
  case (Session body reply server)
  with setEnvironment_keeps(1,3)[OF Session(2)] setEnvironment_keeps(2)[OF Session(2), of "Sg_jobs s"] ok show ?thesis by (simp add: serving_ok_def)
next
  case (Target listen reply server)
  with target_keeps(1,3)[OF Target(2)] target_keeps(2)[OF Target(2), of "Sg_jobs s"] ok show ?thesis by (simp add: serving_ok_def)
qed

lemma serve_reach_ok: "serve_reach rd executed options s \<Longrightarrow> serving_ok s"
proof (induction rule: serve_reach.induct)
  case Up
  show ?case by (simp add: serving_ok_def store_ok_def slot_ok_def server_New_def newRunStore_def run_ids_def newEnvironment_def session_ok_def)
next
  case (On s s')
  then show ?case using serve_step_ok by blast
qed

lemma serve_reach_options: "serve_reach rd executed options s \<Longrightarrow> Se_options (Sg_server s) = options"
proof (induction rule: serve_reach.induct)
  case (On s s')
  from On(2) On.IH show ?case
    by cases (auto simp: admit_def launch_def take_slot_def over_job_def release_slot_def setEnvironment_def startTarget_def stopTarget_def Let_def
        split: sum.splits option.splits prod.splits if_splits)
qed (simp add: server_New_def)

section \<open>Properties\<close>

lemma running_run_holds_the_slot:
  assumes "serving_ok s" and "\<not> SO_Concurrent (Se_options (Sg_server s))"
    and "store_get (Se_runs (Sg_server s)) known = Some r" and "Oc_Status (run_state r) = statusRunning"
  shows "Sg_jobs s = [Executing known]" and "Se_busy (Sg_server s)"
proof -
  from assms(3) obtain system where system: "St_byID (Se_runs (Sg_server s)) known = Some system" "Rs_run system = r"
    by (auto simp: store_get_def)
  then have "run_ok system" and live: "Rs_finish system \<noteq> Over \<longrightarrow> Executing known \<in> set (Sg_jobs s)"
    using assms(1) by (auto simp: serving_ok_def store_ok_def)
  then have "Rs_finish system \<noteq> Over" using system(2) assms(4) by (auto simp: run_ok_def run_state_def)
  with live have "Executing known \<in> set (Sg_jobs s)" by simp
  moreover have "length (Sg_jobs s) \<le> 1" "Se_busy (Sg_server s) = (Sg_jobs s \<noteq> [])"
    using assms(1,2) by (auto simp: serving_ok_def slot_ok_def)
  ultimately show "Sg_jobs s = [Executing known]" "Se_busy (Sg_server s)"
    by (cases "Sg_jobs s"; auto)+
qed

text \<open>C11. One run at a time. On a server that was not started with concurrent runs, however its requests and goroutines
  interleave, while a run is in progress no other one is, no job but the one that executes it holds the slot, every
  request to run anything is refused, and so is every debug request.\<close>

theorem one_run_at_a_time:
  assumes "serve_reach rd executed options s" and "\<not> SO_Concurrent options"
    and "store_get (Se_runs (Sg_server s)) known = Some r" and "Oc_Status (run_state r) = statusRunning"
  shows "Sg_jobs s = [Executing known] \<and> take_slot (Sg_server s) = None \<and> (\<forall>name. isl (admit rd (Sg_server s) name))
    \<and> (\<forall>other r'. store_get (Se_runs (Sg_server s)) other = Some r' \<and> Oc_Status (run_state r') = statusRunning \<longrightarrow> other = known)"
proof -
  have ok: "serving_ok s" and single: "\<not> SO_Concurrent (Se_options (Sg_server s))"
    using serve_reach_ok[OF assms(1)] serve_reach_options[OF assms(1)] assms(2) by simp_all
  note held = running_run_holds_the_slot[OF ok single]
  have refused: "take_slot (Sg_server s) = None" using held(2)[OF assms(3,4)] single by (simp add: take_slot_def)
  then have "isl (admit rd (Sg_server s) name)" for name by (auto simp: admit_def split: sum.splits)
  moreover have "other = known" if "store_get (Se_runs (Sg_server s)) other = Some r'" "Oc_Status (run_state r') = statusRunning" for other r'
    using held(1)[OF assms(3,4)] held(1)[OF that] by simp
  ultimately show ?thesis using held(1)[OF assms(3,4)] refused by blast
qed

text \<open>The store. The runs of a server are numbered from one without a gap, and the list shows every one of them exactly
  once, the latest first, with the state its run is in.\<close>

theorem runs_are_listed:
  assumes "serve_reach rd executed options s"
  defines "store \<equiv> Se_runs (Sg_server s)"
  shows "mset (map Rl_ID (store_list store)) = mset (map run_id [1..<Suc (St_next store)]) \<and> distinct (map Rl_ID (store_list store))
    \<and> sorted (map (\<lambda>line. - Rl_Started line) (store_list store))
    \<and> (\<forall>line \<in> set (store_list store). \<exists>r. store_get store (Rl_ID line) = Some r \<and> line = line_of r)"
proof -
  have ok: "store_ok (Sg_jobs s) store" using serve_reach_ok[OF assms(1)] by (simp add: serving_ok_def store_def)
  have known: "\<exists>r. store_get store wanted = Some r \<and> Run_ID r = wanted" if "wanted \<in> set (St_order store)" for wanted
    using ok that unfolding store_ok_def store_get_def by (metis domD map_option_eq_Some)
  have "map (Run_ID) (List.map_filter (store_get store) ids) = ids" if "set ids \<subseteq> set (St_order store)" for ids
    using that
  proof (induction ids)
    case (Cons first rest)
    then obtain r where "store_get store first = Some r" "Run_ID r = first" using known by force
    with Cons show ?case by (simp add: List.map_filter_simps)
  qed (simp add: List.map_filter_simps)
  then have ids: "map Rl_ID (map line_of (List.map_filter (store_get store) (St_order store))) = St_order store"
    by (simp add: line_of_def Let_def comp_def)
  have perm: "mset (map Rl_ID (store_list store)) = mset (St_order store)"
    using arg_cong[OF ids, of mset] by (simp add: store_list_def multiset.map_comp)
  then have "distinct (map Rl_ID (store_list store))"
    using distinct_run_ids ok by (metis mset_eq_imp_distinct_iff store_ok_def)
  moreover have "\<exists>r. store_get store (Rl_ID line) = Some r \<and> line = line_of r" if "line \<in> set (store_list store)" for line
  proof -
    from that obtain wanted r where "wanted \<in> set (St_order store)" "store_get store wanted = Some r" "line = line_of r"
      by (auto simp: store_list_def List.map_filter_def)
    with known[of wanted] show ?thesis by (auto simp: line_of_def Let_def)
  qed
  ultimately show ?thesis using perm ok by (simp add: store_ok_def run_ids_def store_list_def)
qed


text \<open>A draft is judged as the file would be. When the editor sends the text that is in the file, the answer is the one
  for the file itself, refusals with their position included; and what is answered as valid is a scenario the reader and the
  validation both accept, with the session values that are still missing.\<close>

theorem draft_is_judged_as_the_file:
  assumes "pathOf server name = Inr path" and "Rd_files rd path = Inr content" and "length content \<le> maxScenarioBytes"
  shows "validate_scenario rd server name (Inr content) = validate_scenario rd server name (Inr '''')
    \<and> (fst (validate_scenario rd server name (Inr content)) = StatusOK \<longleftrightarrow>
        (\<exists>spec plan. Load rd path = Inr (spec, plan) \<and> Parse (Rd_env rd) (Rd_unmarshal rd) (Rd_methods rd) (Rd_registry rd) content = Inr spec
           \<and> Validate (Rd_methods rd) (Rd_env rd) (Rd_url rd) spec = None))"
proof -
  have whole: "take maxScenarioBytes content = content" using assms(3) by simp
  have load: "Load rd path = CheckContent rd content path" by (rule Load_of_content[OF assms(2)])
  have same: "validate_scenario rd server name (Inr content) = validate_scenario rd server name (Inr '''')"
    using assms(1) whole load by (simp add: validate_scenario_def)
  have "fst (validate_scenario rd server name (Inr '''')) = StatusOK \<longleftrightarrow> (\<exists>spec plan. Load rd path = Inr (spec, plan))"
    using assms(1) by (cases "Load rd path") (auto simp: validate_scenario_def Let_def status_codes)
  then show ?thesis unfolding same using load CheckContent_accepts by metis
qed

text \<open>Session values stay in memory. After a request that stores values, every name has the value it was given, an empty
  one removes it and the others keep theirs; the answer lists the names that have a value, in order, and does not
  depend on any value: another request with the same names and the same empty ones is answered alike.\<close>

theorem session_values_are_not_shown:
  assumes "setEnvironment (Some incoming) server = ((StatusOK, Provided shown), server')" and "distinct (gkeys incoming)"
  shows "(\<forall>name. gget (Se_environment server') name =
      (case gget incoming name of None \<Rightarrow> gget (Se_environment server) name | Some val \<Rightarrow> if val = '''' then None else Some val))
    \<and> sorted shown \<and> set shown = {name. gget (Se_environment server') name \<noteq> None}
    \<and> (\<forall>others. outline others = outline incoming \<longrightarrow> fst (setEnvironment (Some others) server) = (StatusOK, Provided shown))"
proof -
  have after: "Se_environment server' = set_values incoming (Se_environment server)" and shown: "shown = provided_names (Se_environment server')"
    using assms(1) by (auto simp: setEnvironment_def Let_def status_codes split: option.splits prod.splits)
  have alike: "fst (setEnvironment (Some others) server) = (StatusOK, Provided shown)" if "outline others = outline incoming" for others
    using setEnvironment_answer_outline[OF that, of server] assms(1) by simp
  have "set shown = {name. gget (Se_environment server') name \<noteq> None}" by (auto simp: shown provided_names_def gget_None_iff)
  moreover have "sorted shown" by (simp add: shown provided_names_def)
  ultimately show ?thesis using alike after gget_set_values[OF assms(2)] by simp
qed

section \<open>What the answers get wrong\<close>

text \<open>A second request to cancel a run that is still in progress is told that it is not, with a state that says it is.\<close>

lemma second_cancel_is_told_the_run_is_over:
  assumes "store_get (Se_runs server) known = Some r" and "Run_canceled r" and "Oc_Status (run_state r) = statusRunning"
  shows "cancelRun server known = (StatusConflict, Problem (Sprintf ''the run is no longer in progress; the state right now is %s'' [ArgS ''running'']))"
  using assms by (simp add: cancelRun_def run_cancel_def run_state_def status_text_def)

text \<open>A text longer than the limit is cut, stored and answered as stored.\<close>

lemma long_scenarios_are_cut:
  assumes "pathOf server name = Inr path" and "yaml_file path" and "maxScenarioBytes < length sent"
    and "write path (take maxScenarioBytes sent) fs = (None, fs')"
  shows "writeScenario write server name (Inr sent) fs = ((StatusOK, Written name maxScenarioBytes), fs') \<and> take maxScenarioBytes sent \<noteq> sent"
  using assms by (auto simp: writeScenario_def Let_def)

text \<open>The name that is only a slash is taken for the directory.\<close>

lemma slash_is_accepted: "pathOf (server_New (server_DefaultOptions ''1'') :: unit Server) ''/'' = Inr ''.''"
  by code_simp

section \<open>Witnesses\<close>

definition served_files :: "unit reading_host" where
  "served_files = \<lparr>Rd_env = example_secrets, Rd_unmarshal = (\<lambda>_. Inr (Node DocumentNode PlainStyle '''' 1 1 [example_file])), Rd_methods = example_methods,
     Rd_registry = example_registry, Rd_url = (\<lambda>_. Some (''http'', ''t'')), Rd_files = (\<lambda>path. if path = ''checkout.yaml'' then Inr ''name: orders'' else Inl NotExist)\<rparr>"

lemma example_loads: "\<not> isl (Load served_files ''checkout.yaml'')"
  by code_simp

lemma served_path: "pathOf (server_New (server_DefaultOptions ''1'') :: nat list Server) ''checkout.yaml'' = Inr ''checkout.yaml''"
  by code_simp

abbreviation example_server :: "nat list Server" where
  "example_server \<equiv> server_New (server_DefaultOptions ''1'')"

text \<open>A server that has started one run.\<close>

lemma example_serving:
  "\<exists>s r. serve_reach served_files (\<lambda>_. ExecutedResult 0 green_document) (server_DefaultOptions ''1'') s
     \<and> store_get (Se_runs (Sg_server s)) ''r001'' = Some r \<and> Oc_Status (run_state r) = statusRunning \<and> St_next (Se_runs (Sg_server s)) = 1"
proof -
  let ?start = "\<lparr>Sg_server = example_server, Sg_jobs = []\<rparr>"
  let ?reach = "serve_reach served_files (\<lambda>_. ExecutedResult 0 green_document) (server_DefaultOptions ''1'')"
  obtain spec plan where load: "Load served_files ''checkout.yaml'' = Inr (spec, plan)"
    using example_loads by (cases "Load served_files ''checkout.yaml''") auto
  let ?taken = "example_server\<lparr>Se_busy := True\<rparr>"
  have "admit served_files (Sg_server ?start) ''checkout.yaml'' = Inr (?taken, spec, plan)"
    using load served_path by (simp add: admit_def take_slot_def server_New_def server_DefaultOptions_def)
  from serve_reach.On[OF serve_reach.Up serve_step.Admit[OF this]]
  have admitted: "?reach \<lparr>Sg_server = ?taken, Sg_jobs = [Starting ''checkout.yaml'' spec plan]\<rparr>" by simp
  obtain reply new_id server where launched: "launch ''checkout.yaml'' spec plan 0 ?taken = (reply, new_id, server)"
    by (metis prod_cases3)
  from serve_reach.On[OF admitted serve_step.Launch[of "''checkout.yaml''" spec plan, where time = 0]] launched
  have "?reach \<lparr>Sg_server = server, Sg_jobs = [Executing new_id]\<rparr>" by simp
  moreover have "run_id (Suc 0) = ''r001''" by code_simp
  then have "store_get (Se_runs server) ''r001'' = Some (new_run ''r001'' ''checkout.yaml'' 0 spec plan) \<and> St_next (Se_runs server) = 1"
    using launched by (auto simp: launch_def store_start_def store_get_def started_def server_New_def newRunStore_def Let_def)
  ultimately show ?thesis
    by (intro exI[of _ "\<lparr>Sg_server = server, Sg_jobs = [Executing new_id]\<rparr>"] exI[of _ "new_run ''r001'' ''checkout.yaml'' 0 spec plan"])
      (simp add: new_run_def run_state_def)
qed

theorem one_run_at_a_time_witness:
  "\<exists>s :: (unit, nat list) serving. take_slot (Sg_server s) = None \<and> isl (admit served_files (Sg_server s) ''checkout.yaml'')
    \<and> Sg_jobs s = [Executing ''r001'']"
proof -
  obtain s r where "serve_reach served_files (\<lambda>_. ExecutedResult 0 green_document) (server_DefaultOptions ''1'') s"
      "store_get (Se_runs (Sg_server s)) ''r001'' = Some r" "Oc_Status (run_state r) = statusRunning"
    using example_serving by blast
  with one_run_at_a_time[OF this(1) _ this(2,3)] show ?thesis by (auto simp: server_DefaultOptions_def)
qed

theorem runs_are_listed_witness:
  "\<exists>s :: (unit, nat list) serving. map Rl_ID (store_list (Se_runs (Sg_server s))) = [''r001'']"
proof -
  obtain s where reached: "serve_reach served_files (\<lambda>_. ExecutedResult 0 green_document) (server_DefaultOptions ''1'') s"
      and one: "St_next (Se_runs (Sg_server s)) = 1"
    using example_serving by blast
  have "run_id 1 = ''r001''" by code_simp
  with runs_are_listed[OF reached] one have "mset (map Rl_ID (store_list (Se_runs (Sg_server s)))) = mset [''r001'']" by simp
  then have "map Rl_ID (store_list (Se_runs (Sg_server s))) = [''r001'']" by (simp only: mset_single_iff mset.simps)
  then show ?thesis by (rule exI)
qed


theorem draft_is_judged_as_the_file_witness:
  "fst (validate_scenario served_files example_server ''checkout.yaml'' (Inr ''name: orders'')) = StatusOK"
proof -
  have content: "Rd_files served_files ''checkout.yaml'' = Inr ''name: orders''" by (simp add: served_files_def)
  obtain spec plan where load: "Load served_files ''checkout.yaml'' = Inr (spec, plan)"
    using example_loads by (cases "Load served_files ''checkout.yaml''") auto
  then have "CheckContent served_files ''name: orders'' ''checkout.yaml'' = Inr (spec, plan)" using Load_of_content[OF content] by simp
  then have "Parse (Rd_env served_files) (Rd_unmarshal served_files) (Rd_methods served_files) (Rd_registry served_files) ''name: orders'' = Inr spec"
      "Validate (Rd_methods served_files) (Rd_env served_files) (Rd_url served_files) spec = None"
    unfolding CheckContent_accepts by blast+
  with load draft_is_judged_as_the_file[OF served_path content] show ?thesis by (auto simp: maxScenarioBytes_def)
qed

theorem session_values_are_not_shown_witness:
  "fst (setEnvironment (Some [(''TOKEN'', ''abc''), (''KEY'', ''k'')]) example_server) = (StatusOK, Provided [''KEY'', ''TOKEN''])
   \<and> fst (setEnvironment (Some [(''TOKEN'', ''other''), (''KEY'', ''x'')]) example_server) = (StatusOK, Provided [''KEY'', ''TOKEN''])"
proof -
  have "fst (setEnvironment (Some [(''TOKEN'', ''abc''), (''KEY'', ''k'')]) (example_server)) = (StatusOK, Provided [''KEY'', ''TOKEN''])"
    by code_simp
  then obtain server' where stored: "setEnvironment (Some [(''TOKEN'', ''abc''), (''KEY'', ''k'')]) example_server = ((StatusOK, Provided [''KEY'', ''TOKEN'']), server')"
    by (cases "setEnvironment (Some [(''TOKEN'', ''abc''), (''KEY'', ''k'')]) example_server") simp
  have "outline [(''TOKEN'', ''other''), (''KEY'', ''x'')] = outline [(''TOKEN'', ''abc''), (''KEY'', ''k'')]" by (simp add: outline_def)
  with session_values_are_not_shown[OF stored] stored show ?thesis by (simp add: gkeys_def)
qed

end
