(* ===== verification/Wait.thy ===== *)
theory Wait
  imports Parse Iteration "HOL-Library.Multiset"
begin

text \<open>
  The await step (\<open>internal/protocol/wait\<close>): its configuration and what is refused (\<open>wait.go\<close>), polling over HTTP
  (\<open>http.go\<close>) and the mailbox in which messages and the iterations that wait for them meet (\<open>subscription.go\<close>).
  The brokers, the HTTP client and gjson are arguments. A wait over HTTP is a loop that may not end
  (\<open>partial_function\<close>); that it ends, and after how many polls, is proved from what the context and the timer
  promise. The mailbox is a step relation with one step per critical section, send and receive. Proved: no message
  ends two waits or a wait for something else. Three things the code gets wrong are proved to be so: the field is
  not part of the key of a subscription, a wait that gives up removes the registration of another, and a condition
  with two parts checks one.
\<close>

section \<open>Configuration\<close>

record Condition =
  Cn_Status :: int
  Cn_Path :: string
  Cn_Value :: string
  Cn_BodyContains :: string

record wait_Config =
  Wt_Source :: string
  Wt_Topic :: string
  Wt_Addresses :: "string list"
  Wt_Expected :: string
  Wt_Field :: string
  Wt_Timeout :: Duration
  Wt_Path :: string
  Wt_To :: Condition
  Wt_Interval :: Duration

definition defaultTimeout :: Duration where "defaultTimeout = 30 * Second"

definition defaultInterval :: Duration where "defaultInterval = 500 * Millisecond"

definition noCondition :: Condition where
  "noCondition = \<lparr>Cn_Status = 0, Cn_Path = '''', Cn_Value = '''', Cn_BodyContains = ''''\<rparr>"

definition wait_Default :: wait_Config where
  "wait_Default = \<lparr>Wt_Source = '''', Wt_Topic = '''', Wt_Addresses = [], Wt_Expected = '''', Wt_Field = '''', Wt_Timeout = defaultTimeout,
     Wt_Path = '''', Wt_To = noCondition, Wt_Interval = 0\<rparr>"

definition condition_empty :: "Condition \<Rightarrow> bool" where
  "condition_empty condition \<longleftrightarrow> Cn_Status condition = 0 \<and> Cn_Path condition = '''' \<and> Cn_BodyContains condition = ''''"

definition condition_describe :: "Condition \<Rightarrow> sentence" where
  "condition_describe condition =
    (if Cn_Path condition \<noteq> '''' then Sprintf ''%s = %q'' [ArgS (Cn_Path condition), ArgS (Cn_Value condition)]
     else if Cn_BodyContains condition \<noteq> '''' then Sprintf ''the body to contain %q'' [ArgS (Cn_BodyContains condition)]
     else Sprintf ''status %d'' [ArgD (Cn_Status condition)])"

text \<open>\<open>get\<close> is \<open>gjson.GetBytes\<close> of a path, as a string.\<close>

definition satisfied :: "(string \<Rightarrow> string \<Rightarrow> string) \<Rightarrow> Condition \<Rightarrow> int \<Rightarrow> string \<Rightarrow> bool" where
  "satisfied get condition status answer =
    (if Cn_Path condition \<noteq> '''' then get answer (TrimPrefix (TrimPrefix (Cn_Path condition) ''$.'') ''$'') = Cn_Value condition
     else if Cn_BodyContains condition \<noteq> '''' then Contains answer (Cn_BodyContains condition)
     else status = Cn_Status condition)"

definition wait_AggregationKey :: "wait_Config \<Rightarrow> string" where
  "wait_AggregationKey config = ''await '' @ (if Wt_Source config = ''http'' then Wt_Path config else Wt_Topic config)"

definition wait_Resolve :: "(string \<Rightarrow> string) \<Rightarrow> wait_Config \<Rightarrow> wait_Config" where
  "wait_Resolve resolve config =
    config\<lparr>Wt_Topic := resolve (Wt_Topic config), Wt_Expected := resolve (Wt_Expected config), Wt_Field := resolve (Wt_Field config),
      Wt_Path := resolve (Wt_Path config),
      Wt_To := (Wt_To config)\<lparr>Cn_Value := resolve (Cn_Value (Wt_To config)), Cn_BodyContains := resolve (Cn_BodyContains (Wt_To config))\<rparr>\<rparr>"

definition PollInterval :: "wait_Config \<Rightarrow> Duration" where
  "PollInterval config =
    (if Wt_Source config \<noteq> ''http'' then 0 else if Wt_Interval config > 0 then Wt_Interval config else defaultInterval)"

definition wait_BrokerTechnology :: "wait_Config \<Rightarrow> string" where
  "wait_BrokerTechnology config = (if Wt_Source config = ''http'' then '''' else Wt_Source config)"

definition wait_Describe :: "wait_Config \<Rightarrow> sentence list" where
  "wait_Describe config =
    (if Wt_Source config = ''http'' then
       [Sprintf ''await on GET %s until %s'' [ArgS (Wt_Path config), ArgM (condition_describe (Wt_To config))],
        Sprintf ''polling every %s, gives up after %s'' [ArgT (if Wt_Interval config \<le> 0 then defaultInterval else Wt_Interval config), ArgT (Wt_Timeout config)],
        Plain ''the measured latency has the granularity of the polling'']
     else
       [Sprintf ''await on %s %s for %s = %q'' [ArgS (Wt_Source config), ArgS (Wt_Topic config),
          ArgS (if Wt_Field config = '''' then ''message key'' else Wt_Field config), ArgS (Wt_Expected config)],
        Sprintf ''gives up after %s'' [ArgT (Wt_Timeout config)],
        (if Wt_Addresses config \<noteq> [] then Sprintf ''addresses: %s'' [ArgS (Join (Wt_Addresses config) '', '')]
         else Plain ''addresses: the ones from the scenario target'')])"

definition validateHTTP :: "wait_Config \<Rightarrow> sentence option" where
  "validateHTTP config =
    (if Wt_Path config = '''' then Some (Plain ((''an await step over http needs the path, for example:'' @ nl @ ''  - await:'' @ nl @ ''      http: { path: \"/orders/${orders.id}\" }'' @ nl @ ''      until: { $.status: PROCESSED }'')))
     else if condition_empty (Wt_To config) then Some (Plain ((''an await step over http needs '' @ apos @ ''until'' @ apos @ '': with no condition the first response would end the wait,'' @ nl @ ''and the measurement would be of the time to answer, not of the time until the effect happened:'' @ nl @ ''  - await:'' @ nl @ ''      http: { path: \"/orders/${orders.id}\" }'' @ nl @ ''      until: { $.status: PROCESSED }'')))
     else None)"

definition wait_Validate :: "wait_Config \<Rightarrow> sentence option" where
  "wait_Validate config =
    (if Wt_Source config = ''http'' then validateHTTP config
     else if Wt_Source config = '''' then Some (Plain ((''an await step has to say where to wait, for example:'' @ nl @ ''  - await:'' @ nl @ ''      kafka: { topic: orders-processed }'' @ nl @ ''      key: \"${orderId}\"'')))
     else if Wt_Expected config = '''' then Some (Plain ((''an await step needs the value that identifies this iteration'' @ apos @ ''s message.'' @ nl @ ''Without it any message would do, and the measurement would time the fastest consumer instead of the chain:'' @ nl @ ''  - await:'' @ nl @ ''      kafka: { topic: orders-processed }'' @ nl @ ''      key: \"${orderId}\"'')))
     else None)"

section \<open>Decoding\<close>

text \<open>The map of a condition is visited in the order of a Go map: \<open>raw\<close> lists it in that order.\<close>

fun readCondition :: "string \<Rightarrow> (string, string) gomap \<Rightarrow> Condition \<Rightarrow> sentence + Condition" where
  "readCondition key [] condition = Inr condition"
| "readCondition key ((name, val) # raw) condition =
    (if name = ''status'' then
       (case ParseInt (TrimSpace val) of
          None \<Rightarrow> Inl (Sprintf ''invalid status in %s: %q (use a number, for example 200)'' [ArgS key, ArgS val])
        | Some number \<Rightarrow> readCondition key raw (condition\<lparr>Cn_Status := number\<rparr>))
     else if name = ''bodyContains'' then readCondition key raw (condition\<lparr>Cn_BodyContains := val\<rparr>)
     else readCondition key raw (condition\<lparr>Cn_Path := name, Cn_Value := val\<rparr>))"

definition read_http_key :: "wait_Config \<Rightarrow> yaml_node \<Rightarrow> yaml_node \<Rightarrow> sentence + wait_Config" where
  "read_http_key config key val =
    (if Node_Value key \<in> {''path'', ''url''} then Inr (config\<lparr>Wt_Path := Node_Value val\<rparr>)
     else Inl (Sprintf ''unknown key in await.http: %q (use path)'' [ArgS (Node_Value key)]))"

definition readHTTPSource :: "wait_Config \<Rightarrow> yaml_node \<Rightarrow> sentence + wait_Config" where
  "readHTTPSource config node =
    (if Node_Kind node = ScalarNode then Inr (config\<lparr>Wt_Path := Node_Value node\<rparr>)
     else if Node_Kind node \<noteq> MappingNode then Inl (Plain ((''await.http has to be the path or a map with '' @ apos @ ''path'' @ apos)))
     else read_pairs read_http_key (node_pairs (Node_Content node)) config)"

definition read_queue_key :: "wait_Config \<Rightarrow> yaml_node \<Rightarrow> yaml_node \<Rightarrow> sentence + wait_Config" where
  "read_queue_key config key val =
    (if Node_Value key \<in> {''topic'', ''queue''} then Inr (config\<lparr>Wt_Topic := Node_Value val\<rparr>)
     else if Node_Value key \<in> {''brokers'', ''url'', ''addresses''} then
       (if Node_Kind val = ScalarNode then Inr (config\<lparr>Wt_Addresses := Split (Node_Value val) '',''\<rparr>)
        else Inr (config\<lparr>Wt_Addresses := Wt_Addresses config @ map Node_Value (Node_Content val)\<rparr>))
     else Inl (Sprintf ''unknown key in await.%s: %q (use topic or brokers)'' [ArgS (Wt_Source config), ArgS (Node_Value key)]))"

definition readSource :: "wait_Config \<Rightarrow> yaml_node \<Rightarrow> sentence + wait_Config" where
  "readSource config node =
    (if Node_Kind node = ScalarNode then Inr (config\<lparr>Wt_Topic := Node_Value node\<rparr>)
     else if Node_Kind node \<noteq> MappingNode then Inl (Sprintf ''the source %q has to be the topic name or a map'' [ArgS (Wt_Source config)])
     else bind_ok (read_pairs read_queue_key (node_pairs (Node_Content node)) config)
       (\<lambda>config. if Wt_Topic config = '''' then Inl (Sprintf ''await.%s with no topic'' [ArgS (Wt_Source config)]) else Inr config))"

text \<open>\<open>visit\<close> is the order in which the map of a condition is visited.\<close>

definition read_wait_key :: "((string, string) gomap \<Rightarrow> (string, string) gomap) \<Rightarrow> wait_Config \<Rightarrow> yaml_node \<Rightarrow> yaml_node \<Rightarrow> sentence + wait_Config" where
  "read_wait_key visit config key val =
    (if Node_Value key \<in> {''kafka'', ''amqp''} then readSource (config\<lparr>Wt_Source := Node_Value key\<rparr>) val
     else if Node_Value key = ''http'' then readHTTPSource (config\<lparr>Wt_Source := ''http''\<rparr>) val
     else if Node_Value key = ''until'' then
       (if Node_Kind val \<noteq> MappingNode then Inl (Plain ((''until has to be a map, for example:'' @ nl @ ''      until: { $.status: PROCESSED }'' @ nl @ ''      until: { status: 200 }'')))
        else let raw = foldl (\<lambda>raw (name, item). gput raw (Node_Value name) (Node_Value item)) [] (node_pairs (Node_Content val))
             in bind_ok (readCondition ''until'' (visit raw) noCondition) (\<lambda>condition. Inr (config\<lparr>Wt_To := condition\<rparr>)))
     else if Node_Value key = ''interval'' then
       (case ParseDuration (Node_Value val) of
          None \<Rightarrow> Inl (Sprintf ''invalid interval: %q (use 200ms, 1s)'' [ArgS (Node_Value val)])
        | Some d \<Rightarrow> Inr (config\<lparr>Wt_Interval := d\<rparr>))
     else if Node_Value key \<in> {''key'', ''equals''} then Inr (config\<lparr>Wt_Expected := Node_Value val\<rparr>)
     else if Node_Value key = ''field'' then Inr (config\<lparr>Wt_Field := Node_Value val\<rparr>)
     else if Node_Value key = ''timeout'' then
       (case ParseDuration (Node_Value val) of
          None \<Rightarrow> Inl (Sprintf ''invalid timeout: %q (use 30s, 2m)'' [ArgS (Node_Value val)])
        | Some d \<Rightarrow> Inr (config\<lparr>Wt_Timeout := d\<rparr>))
     else Inl (Sprintf ''unknown key in the await step: %q (use kafka, amqp, http, key, field, equals, until, interval or timeout)'' [ArgS (Node_Value key)]))"

definition wait_Decode :: "((string, string) gomap \<Rightarrow> (string, string) gomap) \<Rightarrow> yaml_node option \<Rightarrow> sentence + wait_Config" where
  "wait_Decode visit node =
    (case node of
       None \<Rightarrow> Inl (Plain ((''an await step has to be a map, for example:'' @ nl @ ''  - await:'' @ nl @ ''      kafka: { topic: orders-processed }'' @ nl @ ''      key: \"${orderId}\"'' @ nl @ ''      timeout: 30s'')))
     | Some node \<Rightarrow>
         if Node_Kind node \<noteq> MappingNode
         then Inl (Plain ((''an await step has to be a map, for example:'' @ nl @ ''  - await:'' @ nl @ ''      kafka: { topic: orders-processed }'' @ nl @ ''      key: \"${orderId}\"'' @ nl @ ''      timeout: 30s'')))
         else bind_ok (read_pairs (read_wait_key visit) (node_pairs (Node_Content node)) wait_Default)
           (\<lambda>config. case wait_Validate config of Some err \<Rightarrow> Inl err | None \<Rightarrow> Inr config))"

section \<open>Waiting over HTTP\<close>

text \<open>What a poll gives: the error, or the status and the body.\<close>

record last_poll =
  Lp_Status :: int
  Lp_Body :: string
  Lp_Err :: string

definition noPoll :: last_poll where "noPoll = \<lparr>Lp_Status = 0, Lp_Body = '''', Lp_Err = ''''\<rparr>"

definition note_poll :: "string + int \<times> string \<Rightarrow> last_poll \<Rightarrow> last_poll" where
  "note_poll polled last_seen =
    (case polled of
       Inl err \<Rightarrow> last_seen\<lparr>Lp_Err := err\<rparr>
     | Inr (status, answer) \<Rightarrow> \<lparr>Lp_Status = status, Lp_Body = answer, Lp_Err = ''''\<rparr>)"

datatype wait_end = Satisfied int string | GaveUp last_poll nat

definition sample_of :: "string \<Rightarrow> string" where
  "sample_of answer = (if length answer > 120 then take 120 answer @ [CHR 0xE2, CHR 0x80, CHR 0xA6] else answer)"

definition waitDetail :: "wait_Config \<Rightarrow> string \<Rightarrow> Duration \<Rightarrow> Duration \<Rightarrow> nat \<Rightarrow> last_poll \<Rightarrow> sentence" where
  "waitDetail config address timeout interval polls last_seen =
    (if Lp_Err last_seen \<noteq> '''' then
       Sprintf ''waited %s for %s at %s and the last attempt failed: %s (%d polls every %s)''
         [ArgT timeout, ArgM (condition_describe (Wt_To config)), ArgS address, ArgS (Lp_Err last_seen), ArgD (int polls), ArgT interval]
     else
       Sprintf ''waited %s for %s at %s and the effect never showed up; last response: status %d, body %q (%d polls every %s)''
         [ArgT timeout, ArgM (condition_describe (Wt_To config)), ArgS address, ArgD (Lp_Status last_seen), ArgS (sample_of (Lp_Body last_seen)), ArgD (int polls), ArgT interval])"

text \<open>\<open>poll\<close> is a request under the limit; \<open>pause\<close> is the select between the limit and the timer, \<open>True\<close> when the limit ended.\<close>

partial_function (option) poll_loop :: "(int \<Rightarrow> string \<Rightarrow> bool) \<Rightarrow> ('w \<Rightarrow> (string + int \<times> string) \<times> 'w) \<Rightarrow> ('w \<Rightarrow> bool \<times> 'w) \<Rightarrow>
    last_poll \<Rightarrow> nat \<Rightarrow> 'w \<Rightarrow> (wait_end \<times> 'w) option" where
  "poll_loop enough poll pause last_seen polls w =
    (case poll w of (polled, w) \<Rightarrow>
       let polls = Suc polls; last_seen = note_poll polled last_seen
       in if (case polled of Inl _ \<Rightarrow> False | Inr (status, answer) \<Rightarrow> enough status answer)
          then Some (Satisfied (Lp_Status last_seen) (Lp_Body last_seen), w)
          else (case pause w of (over, w) \<Rightarrow>
                  if over then Some (GaveUp last_seen polls, w) else poll_loop enough poll pause last_seen polls w))"

text \<open>\<open>sprint\<close> lays a sentence out; \<open>build_url\<close> is \<open>transport.BuildURL\<close> of the path on the target; \<open>limited\<close> and \<open>poll\<close> are made for the
  limit of the wait.\<close>

definition awaitOverHTTP :: "(sentence \<Rightarrow> string) \<Rightarrow> (string \<Rightarrow> string \<Rightarrow> string) \<Rightarrow> (string \<Rightarrow> string + string) \<Rightarrow>
    (Duration \<Rightarrow> string \<Rightarrow> 'w \<Rightarrow> (string + int \<times> string) \<times> 'w) \<Rightarrow> (Duration \<Rightarrow> Duration \<Rightarrow> 'w \<Rightarrow> bool \<times> 'w) \<Rightarrow>
    wait_Config \<Rightarrow> 'w \<Rightarrow> (Response \<times> 'w) option" where
  "awaitOverHTTP sprint get build_url poll pause config w =
    (case build_url (Wt_Path config) of
       Inl err \<Rightarrow> Some (zeroResponse\<lparr>Resp_Class := ErrConfig, Resp_Detail := err\<rparr>, w)
     | Inr address \<Rightarrow>
         let timeout = (if Wt_Timeout config \<le> 0 then defaultTimeout else Wt_Timeout config);
             interval = (if Wt_Interval config \<le> 0 then defaultInterval else Wt_Interval config)
         in case poll_loop (satisfied get (Wt_To config)) (poll timeout address) (pause timeout interval) noPoll 0 w of
              None \<Rightarrow> None
            | Some (Satisfied status answer, w) \<Rightarrow>
                Some (zeroResponse\<lparr>Resp_Status := status, Resp_Body := answer, Resp_Bytes := int (length answer), Resp_Class := Success\<rparr>, w)
            | Some (GaveUp last_seen polls, w) \<Rightarrow>
                Some (zeroResponse\<lparr>Resp_Status := Lp_Status last_seen, Resp_Body := Lp_Body last_seen, Resp_Class := ErrTimeout,
                  Resp_Detail := sprint (waitDetail config address timeout interval polls last_seen)\<rparr>, w))"

section \<open>Subscriptions\<close>

definition targetAddresses :: "string \<Rightarrow> string list" where
  "targetAddresses target =
    (if target = '''' \<or> HasPrefix target ''http://'' \<or> HasPrefix target ''https://'' then [] else Split (TrimSuffix target ''/'') '','')"

definition wait_addresses :: "wait_Config \<Rightarrow> string \<Rightarrow> Broker option \<Rightarrow> string list" where
  "wait_addresses config target broker =
    (let addresses = Wt_Addresses config;
         addresses = (if addresses = [] then (case broker of None \<Rightarrow> [] | Some b \<Rightarrow> Br_Addresses b) else addresses)
     in if addresses = [] then targetAddresses target else addresses)"

definition subscription_key :: "wait_Config \<Rightarrow> string list \<Rightarrow> Broker option \<Rightarrow> string" where
  "subscription_key config addresses broker =
    Wt_Source config @ ''|'' @ Join addresses '','' @ ''|'' @ Wt_Topic config @ ''|'' @ Describe broker"

text \<open>\<open>open_it\<close> opens a subscription on the broker; the map of open ones is the state.\<close>

definition subscribe :: "(wait_Config \<Rightarrow> string list \<Rightarrow> Broker option \<Rightarrow> 'w \<Rightarrow> (sentence + 's) \<times> 'w) \<Rightarrow> wait_Config \<Rightarrow> string \<Rightarrow> Broker option \<Rightarrow>
    (string, 's) gomap \<Rightarrow> 'w \<Rightarrow> (sentence + 's) \<times> (string, 's) gomap \<times> 'w" where
  "subscribe open_it config target broker subscriptions w =
    (let addresses = wait_addresses config target broker
     in if addresses = [] then
          (Inl (Sprintf (''await on %s with no address: declare '' @ apos @ ''brokers'' @ apos @ '' (kafka) or '' @ apos @ ''url'' @ apos @ '' (amqp) in the step, or point the scenario target at the broker'') [ArgS (Wt_Source config)]), subscriptions, w)
        else let key = subscription_key config addresses broker
        in case gget subscriptions key of
             Some existing \<Rightarrow> (Inr existing, subscriptions, w)
           | None \<Rightarrow>
               (case open_it config addresses broker w of
                  (Inl err, w) \<Rightarrow> (Inl err, subscriptions, w)
                | (Inr created, w) \<Rightarrow> (Inr created, gput subscriptions key created, w)))"

definition lookupField :: "wait_Config \<Rightarrow> string" where
  "lookupField config = (if Wt_Field config \<noteq> '''' then Wt_Field config else ''key'')"

text \<open>The correlation of a message: its key, or the field the subscription was opened with.\<close>

definition correlationOf :: "(string \<Rightarrow> string \<Rightarrow> string) \<Rightarrow> string \<Rightarrow> string \<Rightarrow> string \<Rightarrow> string" where
  "correlationOf get subscription_field key val =
    (if subscription_field = '''' then key else get val (TrimPrefix (TrimPrefix subscription_field ''$.'') ''$''))"

definition Settling :: "string \<Rightarrow> bool" where
  "Settling err =
    (let lowered = ToLower err
     in Contains lowered ''not leader for partition'' \<or> Contains lowered ''leader not available'' \<or> Contains lowered ''unknown topic or partition'')"

definition normalizeAMQP :: "string \<Rightarrow> string" where
  "normalizeAMQP address = (if HasPrefix address ''amqp://'' \<or> HasPrefix address ''amqps://'' then address else ''amqp://'' @ address)"

definition consumedPartition :: "string \<Rightarrow> string" where
  "consumedPartition topic = ''kafka.consumedPartition.'' @ topic"

section \<open>The mailbox\<close>

definition heldMessagesCap :: nat where "heldMessagesCap = 50000"

text \<open>A channel is named by the number of the wait that made it.\<close>

record 'm mailbox =
  Mb_arrivals :: "(string, 'm) gomap"
  Mb_order :: "string list"
  Mb_waiting :: "(string, nat) gomap"

definition gdelete :: "('k, 'v) gomap \<Rightarrow> 'k \<Rightarrow> ('k, 'v) gomap" where
  "gdelete m k = filter (\<lambda>entry. fst entry \<noteq> k) m"

definition newSubscription :: "'m mailbox" where
  "newSubscription = \<lparr>Mb_arrivals = [], Mb_order = [], Mb_waiting = []\<rparr>"

text \<open>The critical section of \<open>deliver\<close>: the channel the message is to be sent on, if someone waits.\<close>

definition mail_deliver :: "string \<Rightarrow> 'm \<Rightarrow> 'm mailbox \<Rightarrow> nat option \<times> 'm mailbox" where
  "mail_deliver correlation received box =
    (if correlation = '''' then (None, box)
     else case gget (Mb_waiting box) correlation of
         Some channel \<Rightarrow> (Some channel, box\<lparr>Mb_waiting := gdelete (Mb_waiting box) correlation\<rparr>)
       | None \<Rightarrow>
           let box = box\<lparr>Mb_arrivals := gput (Mb_arrivals box) correlation received, Mb_order := Mb_order box @ [correlation]\<rparr>
           in (None, if length (Mb_order box) > heldMessagesCap
                 then box\<lparr>Mb_order := tl (Mb_order box), Mb_arrivals := gdelete (Mb_arrivals box) (hd (Mb_order box))\<rparr>
                 else box))"

text \<open>The first critical section of \<open>await\<close>, and the one after the timer.\<close>

definition mail_register :: "string \<Rightarrow> nat \<Rightarrow> 'm mailbox \<Rightarrow> 'm option \<times> 'm mailbox" where
  "mail_register correlation channel box =
    (case gget (Mb_arrivals box) correlation of
       Some received \<Rightarrow> (Some received, box\<lparr>Mb_arrivals := gdelete (Mb_arrivals box) correlation\<rparr>)
     | None \<Rightarrow> (None, box\<lparr>Mb_waiting := gput (Mb_waiting box) correlation channel\<rparr>))"

definition mail_give_up :: "string \<Rightarrow> 'm mailbox \<Rightarrow> 'm mailbox" where
  "mail_give_up correlation box = box\<lparr>Mb_waiting := gdelete (Mb_waiting box) correlation\<rparr>"

datatype wait_phase = Waiting | LastLook

text \<open>Everyone around a mailbox. \<open>My_asked\<close> lists the correlation each wait asked for, by its number; \<open>My_sends\<close> are the messages taken
  out of the mutex and not yet sent, \<open>My_channels\<close> the ones in a channel; \<open>My_live\<close> are the waits that have not returned and
  \<open>My_returned\<close> what the others returned; \<open>My_delivered\<close> is what the broker brought.\<close>

record 'm mail =
  My_box :: "'m mailbox"
  My_asked :: "string list"
  My_sends :: "(nat \<times> 'm) list"
  My_channels :: "(nat \<times> 'm) list"
  My_live :: "(nat \<times> wait_phase) list"
  My_returned :: "(nat \<times> 'm option) list"
  My_delivered :: "(string \<times> 'm) list"

definition opened :: "'m mail" where
  "opened = \<lparr>My_box = newSubscription, My_asked = [], My_sends = [], My_channels = [], My_live = [], My_returned = [], My_delivered = []\<rparr>"

inductive mail_step :: "'m mail \<Rightarrow> 'm mail \<Rightarrow> bool" where
  Deliver: "mail_deliver correlation received (My_box s) = (channel, box) \<Longrightarrow>
    mail_step s (s\<lparr>My_box := box, My_delivered := My_delivered s @ [(correlation, received)],
      My_sends := My_sends s @ (case channel of None \<Rightarrow> [] | Some c \<Rightarrow> [(c, received)])\<rparr>)"
| Send: "My_sends s = before @ (channel, received) # after \<Longrightarrow>
    mail_step s (s\<lparr>My_sends := before @ after, My_channels := My_channels s @ [(channel, received)]\<rparr>)"
| Await: "channel = length (My_asked s) \<Longrightarrow> mail_register correlation channel (My_box s) = (arrived, box) \<Longrightarrow>
    mail_step s (case arrived of
        Some received \<Rightarrow> s\<lparr>My_box := box, My_asked := My_asked s @ [correlation], My_returned := My_returned s @ [(channel, Some received)]\<rparr>
      | None \<Rightarrow> s\<lparr>My_box := box, My_asked := My_asked s @ [correlation], My_live := My_live s @ [(channel, Waiting)]\<rparr>)"
| Receive: "My_live s = lives @ (channel, phase) # others \<Longrightarrow> My_channels s = before @ (channel, received) # after \<Longrightarrow>
    mail_step s (s\<lparr>My_live := lives @ others, My_channels := before @ after, My_returned := My_returned s @ [(channel, Some received)]\<rparr>)"
| GiveUp: "My_live s = lives @ (channel, Waiting) # others \<Longrightarrow>
    mail_step s (s\<lparr>My_box := mail_give_up (My_asked s ! channel) (My_box s), My_live := lives @ (channel, LastLook) # others\<rparr>)"
| Miss: "My_live s = lives @ (channel, LastLook) # others \<Longrightarrow> channel \<notin> fst ` set (My_channels s) \<Longrightarrow>
    mail_step s (s\<lparr>My_live := lives @ others, My_returned := My_returned s @ [(channel, None)]\<rparr>)"

inductive mail_reach :: "'m mail \<Rightarrow> bool" where
  Opened: "mail_reach opened"
| Stepped: "mail_reach s \<Longrightarrow> mail_step s s' \<Longrightarrow> mail_reach s'"

inductive_cases mail_stepE [elim]: "mail_step s s'"

section \<open>No message ends two waits\<close>

text \<open>Messages with the correlation they travel under.\<close>

definition tagged :: "string list \<Rightarrow> (nat \<times> 'm) list \<Rightarrow> (string \<times> 'm) multiset" where
  "tagged asked messages = mset (map (\<lambda>(channel, received). (asked ! channel, received)) messages)"

definition received_by :: "(nat \<times> 'm option) list \<Rightarrow> (nat \<times> 'm) list" where
  "received_by returned = List.map_filter (\<lambda>(channel, outcome). map_option (Pair channel) outcome) returned"

definition mail_ok :: "'m mail \<Rightarrow> bool" where
  "mail_ok s \<longleftrightarrow>
    tagged (My_asked s) (received_by (My_returned s)) + tagged (My_asked s) (My_channels s) + tagged (My_asked s) (My_sends s)
      + mset (Mb_arrivals (My_box s)) \<subseteq># mset (My_delivered s)
    \<and> gmap_ok (Mb_arrivals (My_box s)) \<and> gmap_ok (Mb_waiting (My_box s))
    \<and> (\<forall>(correlation, channel) \<in> set (Mb_waiting (My_box s)). channel < length (My_asked s) \<and> My_asked s ! channel = correlation)
    \<and> (\<forall>(channel, received) \<in> set (My_sends s @ My_channels s @ received_by (My_returned s)). channel < length (My_asked s))
    \<and> distinct (map fst (My_live s) @ map fst (My_returned s)) \<and> (\<forall>channel \<in> fst ` set (My_live s) \<union> fst ` set (My_returned s). channel < length (My_asked s))"

lemma tagged_simps [simp]:
  "tagged asked [] = {#}"
  "tagged asked ((channel, received) # messages) = add_mset (asked ! channel, received) (tagged asked messages)"
  "tagged asked (messages @ others) = tagged asked messages + tagged asked others"
  by (simp_all add: tagged_def)

lemma tagged_more: "\<forall>(channel, received) \<in> set messages. channel < length asked \<Longrightarrow> tagged (asked @ [correlation]) messages = tagged asked messages"
  by (auto simp: tagged_def nth_append intro!: image_mset_cong)

lemma received_by_snoc: "received_by (returned @ [(channel, outcome)]) = received_by returned @ (case outcome of None \<Rightarrow> [] | Some received \<Rightarrow> [(channel, received)])"
  by (auto simp: received_by_def List.map_filter_def split: option.splits)

lemma mset_gput: "gmap_ok m \<Longrightarrow> mset (gput m k v) \<subseteq># add_mset (k, v) (mset m)"
  by (induction m k v rule: gput.induct) (auto simp: gkeys_def subset_mset.trans add_mset_commute)

lemma mset_gdelete: "mset (gdelete m k) \<subseteq># mset m"
  by (simp add: gdelete_def)

lemma mset_gdelete_found: "gget m k = Some v \<Longrightarrow> add_mset (k, v) (mset (gdelete m k)) \<subseteq># mset m"
proof (induction m)
  case (Cons entry m)
  show ?case
  proof (cases "fst entry = k")
    case True
    then have "entry = (k, v)" using Cons.prems by (cases entry) (simp add: gget_Cons)
    then show ?thesis using mset_gdelete[of m k] by (simp add: gdelete_def)
  next
    case False
    then have "gget m k = Some v" using Cons.prems by (cases entry) (simp add: gget_Cons)
    from Cons.IH[OF this] False show ?thesis by (simp add: gdelete_def add_mset_commute)
  qed
qed simp

lemma gmap_ok_gdelete: "gmap_ok m \<Longrightarrow> gmap_ok (gdelete m k)"
  by (simp add: gdelete_def gkeys_def distinct_map_filter)

lemma set_gdelete: "set (gdelete m k) \<subseteq> set m"
  by (auto simp: gdelete_def)

lemma mail_register_mset:
  assumes "mail_register correlation channel box = (arrived, box')"
  shows "(case arrived of None \<Rightarrow> {#} | Some received \<Rightarrow> {#(correlation, received)#}) + mset (Mb_arrivals box') \<subseteq># mset (Mb_arrivals box)"
  using assms mset_gdelete_found[of "Mb_arrivals box" correlation] by (auto simp: mail_register_def split: option.splits)

lemma mail_register_ok:
  assumes "mail_register correlation channel box = (arrived, box')" and "gmap_ok (Mb_arrivals box)" and "gmap_ok (Mb_waiting box)"
  shows "gmap_ok (Mb_arrivals box') \<and> gmap_ok (Mb_waiting box')" and "set (Mb_waiting box') \<subseteq> insert (correlation, channel) (set (Mb_waiting box))"
  using assms by (auto simp: mail_register_def gmap_ok_gdelete split: option.splits dest: in_set_gput)

text \<open>What comes in is held or on its way, and nothing else is added.\<close>

lemma mail_deliver_mset:
  assumes "mail_deliver correlation received box = (channel, box')" and ok: "gmap_ok (Mb_arrivals box)"
  shows "(case channel of None \<Rightarrow> {#} | Some c \<Rightarrow> {#(correlation, received)#}) + mset (Mb_arrivals box') \<subseteq># add_mset (correlation, received) (mset (Mb_arrivals box))"
proof (cases "correlation = '''' \<or> gget (Mb_waiting box) correlation \<noteq> None")
  case True
  then show ?thesis using assms(1) by (auto simp: mail_deliver_def subset_mset.add_increasing split: if_splits option.splits)
next
  case False
  let ?held = "gput (Mb_arrivals box) correlation received"
  have "mset (gdelete ?held name) \<subseteq># add_mset (correlation, received) (mset (Mb_arrivals box))" for name
    using mset_gdelete mset_gput[OF ok] by (rule subset_mset.order_trans)
  with False show ?thesis using assms(1) mset_gput[OF ok] by (auto simp: mail_deliver_def Let_def split: if_splits option.splits)
qed

lemma mail_deliver_ok:
  assumes "mail_deliver correlation received box = (channel, box')" and "gmap_ok (Mb_arrivals box)" and "gmap_ok (Mb_waiting box)"
  shows "gmap_ok (Mb_arrivals box') \<and> gmap_ok (Mb_waiting box')" and "set (Mb_waiting box') \<subseteq> set (Mb_waiting box)"
    and "\<forall>c. channel = Some c \<longrightarrow> (correlation, c) \<in> set (Mb_waiting box)"
  using assms by (auto simp: mail_deliver_def Let_def gmap_ok_gdelete gget_eq_Some_iff split: if_splits option.splits dest: set_gdelete[THEN subsetD])

lemma flow_in: "A + M \<subseteq># D \<Longrightarrow> X + N \<subseteq># add_mset p M \<Longrightarrow> A + X + N \<subseteq># add_mset p D"
proof -
  assume old: "A + M \<subseteq># D" and new: "X + N \<subseteq># add_mset p M"
  have "A + (X + N) \<subseteq># A + add_mset p M" using new by (rule subset_mset.add_left_mono)
  also have "\<dots> \<subseteq># add_mset p D" using old by simp
  finally show ?thesis by (simp add: ac_simps)
qed

lemma flow_out: "A + M \<subseteq># D \<Longrightarrow> X + N \<subseteq># M \<Longrightarrow> A + X + N \<subseteq># D"
  using subset_mset.order_trans[OF subset_mset.add_left_mono[of "X + N" M A]] by (simp add: ac_simps)

lemma mail_opened_ok: "mail_ok opened"
  by (simp add: mail_ok_def opened_def newSubscription_def received_by_def List.map_filter_simps)

lemma mail_step_ok:
  assumes "mail_step s s'" and ok: "mail_ok s"
  shows "mail_ok s'"
  using assms(1)
proof cases
  case (Deliver correlation received channel box)
  have box: "gmap_ok (Mb_arrivals (My_box s))" "gmap_ok (Mb_waiting (My_box s))" using ok by (auto simp: mail_ok_def)
  note kept = mail_deliver_ok[OF Deliver(2) box] and amount = mail_deliver_mset[OF Deliver(2) box(1)]
  have flow: "tagged (My_asked s) (received_by (My_returned s)) + tagged (My_asked s) (My_channels s) + tagged (My_asked s) (My_sends s)
      + (case channel of None \<Rightarrow> {#} | Some c \<Rightarrow> {#(correlation, received)#}) + mset (Mb_arrivals box) \<subseteq># add_mset (correlation, received) (mset (My_delivered s))"
    by (rule flow_in[OF _ amount]) (use ok in \<open>simp add: mail_ok_def\<close>)
  show ?thesis
  proof (cases channel)
    case None
    then show ?thesis using ok kept(1,2) flow Deliver(1) unfolding mail_ok_def by auto
  next
    case (Some c)
    then have "(correlation, c) \<in> set (Mb_waiting (My_box s))" using kept(3) by simp
    then have named: "c < length (My_asked s)" "My_asked s ! c = correlation" using ok by (auto simp: mail_ok_def)
    show ?thesis using ok kept(1,2) flow Deliver(1) Some named unfolding mail_ok_def by (auto simp: ac_simps)
  qed
next
  case (Send before channel received after)
  then show ?thesis using ok unfolding mail_ok_def by (auto simp: ac_simps)
next
  case (Await channel correlation arrived box)
  have box: "gmap_ok (Mb_arrivals (My_box s))" "gmap_ok (Mb_waiting (My_box s))" using ok by (auto simp: mail_ok_def)
  note kept = mail_register_ok[OF Await(3) box]
  let ?asked = "My_asked s @ [correlation]"
  have same: "tagged ?asked (received_by (My_returned s)) = tagged (My_asked s) (received_by (My_returned s))"
      "tagged ?asked (My_channels s) = tagged (My_asked s) (My_channels s)" "tagged ?asked (My_sends s) = tagged (My_asked s) (My_sends s)"
    using ok by (auto simp: mail_ok_def intro!: tagged_more)
  have flow: "tagged (My_asked s) (received_by (My_returned s)) + tagged (My_asked s) (My_channels s) + tagged (My_asked s) (My_sends s)
      + (case arrived of None \<Rightarrow> {#} | Some received \<Rightarrow> {#(correlation, received)#}) + mset (Mb_arrivals box) \<subseteq># mset (My_delivered s)"
    by (rule flow_out[OF _ mail_register_mset[OF Await(3)]]) (use ok in \<open>simp add: mail_ok_def\<close>)
  have waiting: "\<forall>(name, c) \<in> set (Mb_waiting box). c < length ?asked \<and> ?asked ! c = name"
    using kept(2) ok Await(2) by (fastforce simp: mail_ok_def nth_append)
  show ?thesis using ok kept(1) flow waiting same Await(1,2) unfolding mail_ok_def
    by (cases arrived) (auto simp: received_by_snoc ac_simps less_Suc_eq)
next
  case (Receive lives channel phase others before received after)
  then show ?thesis using ok unfolding mail_ok_def by (auto simp: received_by_snoc ac_simps)
next
  case (GiveUp lives channel others)
  then show ?thesis using ok set_gdelete[of "Mb_waiting (My_box s)" "My_asked s ! channel"] unfolding mail_ok_def
    by (auto simp: mail_give_up_def gmap_ok_gdelete)
next
  case (Miss lives channel others)
  then show ?thesis using ok unfolding mail_ok_def by (auto simp: received_by_snoc)
qed

lemma mail_reach_ok: "mail_reach s \<Longrightarrow> mail_ok s"
  by (induction rule: mail_reach.induct) (auto intro: mail_opened_ok mail_step_ok)

section \<open>Polling ends\<close>

text \<open>What the context and the timer of a wait promise: time does not go back, a pause that the limit did not end took the whole
  interval, and one that starts at the limit or after it is ended by it.\<close>

definition keeps_limit :: "('w \<Rightarrow> int) \<Rightarrow> int \<Rightarrow> Duration \<Rightarrow> ('w \<Rightarrow> 'a \<times> 'w) \<Rightarrow> ('w \<Rightarrow> bool \<times> 'w) \<Rightarrow> bool" where
  "keeps_limit reading limit interval poll pause \<longleftrightarrow>
    (\<forall>w. reading w \<le> reading (snd (poll w)))
    \<and> (\<forall>w. \<not> fst (pause w) \<longrightarrow> reading w + interval \<le> reading (snd (pause w)))
    \<and> (\<forall>w. limit \<le> reading w \<longrightarrow> fst (pause w))"

definition good_answer :: "(int \<Rightarrow> string \<Rightarrow> bool) \<Rightarrow> string + int \<times> string \<Rightarrow> bool" where
  "good_answer enough polled = (case polled of Inl _ \<Rightarrow> False | Inr (status, answer) \<Rightarrow> enough status answer)"

lemma poll_loop_step:
  assumes "poll w = (polled, w1)" and "pause w1 = (over, w2)"
  shows "poll_loop enough poll pause last_seen polls w =
    (let seen = note_poll polled last_seen
     in if good_answer enough polled then Some (Satisfied (Lp_Status seen) (Lp_Body seen), w1)
        else if over then Some (GaveUp seen (Suc polls), w2) else poll_loop enough poll pause seen (Suc polls) w2)"
  using assms by (subst poll_loop.simps) (simp add: Let_def good_answer_def)

lemma good_answer_noted: "good_answer enough polled \<Longrightarrow> enough (Lp_Status (note_poll polled last_seen)) (Lp_Body (note_poll polled last_seen))"
  by (auto simp: good_answer_def note_poll_def split: sum.splits)

lemma poll_loop_ends:
  assumes laws: "keeps_limit reading limit interval poll pause" and "0 < interval" and "limit \<le> reading w + int n * interval"
  shows "\<exists>outcome w'. poll_loop enough poll pause last_seen polls w = Some (outcome, w')
    \<and> (\<forall>status answer. outcome = Satisfied status answer \<longrightarrow> enough status answer)
    \<and> (\<forall>seen count. outcome = GaveUp seen count \<longrightarrow> count \<le> polls + n + 1)"
  using assms(3)
proof (induction n arbitrary: w last_seen polls)
  case (0 w)
  obtain polled w1 where polled: "poll w = (polled, w1)" by (cases "poll w")
  obtain over w2 where paused: "pause w1 = (over, w2)" by (cases "pause w1")
  have "reading w \<le> reading w1" using laws polled unfolding keeps_limit_def by (metis snd_conv)
  then have over using laws 0 paused unfolding keeps_limit_def by (metis fst_conv int_ops(1) mult_zero_left add.right_neutral order_trans)
  then show ?case using good_answer_noted[of enough polled last_seen] by (auto simp: poll_loop_step[of poll w polled w1 pause over w2, OF polled paused] Let_def)
next
  case (Suc n w)
  obtain polled w1 where polled: "poll w = (polled, w1)" by (cases "poll w")
  obtain over w2 where paused: "pause w1 = (over, w2)" by (cases "pause w1")
  show ?case
  proof (cases "over \<or> good_answer enough polled")
    case True
    then show ?thesis using good_answer_noted[of enough polled last_seen] by (auto simp: poll_loop_step[of poll w polled w1 pause over w2, OF polled paused] Let_def)
  next
    case False
    have "reading w \<le> reading w1" using laws polled unfolding keeps_limit_def by (metis snd_conv)
    moreover have "reading w1 + interval \<le> reading w2" using laws paused False unfolding keeps_limit_def by (metis fst_conv snd_conv)
    ultimately have "limit \<le> reading w2 + int n * interval" using Suc.prems by (simp add: algebra_simps)
    from Suc.IH[OF this, of "note_poll polled last_seen" "Suc polls"] False show ?thesis
      by (simp add: poll_loop_step[of poll w polled w1 pause over w2, OF polled paused] Let_def)
  qed
qed

section \<open>What goes wrong\<close>

text \<open>Two steps that wait on one topic by different fields share the subscription of the first, which looks at its own field.\<close>

lemma field_is_not_in_the_key:
  assumes "gget subscriptions (subscription_key config (wait_addresses config target broker) broker) = Some existing"
    and "wait_addresses config target broker \<noteq> []"
  shows "subscribe open_it (config\<lparr>Wt_Field := other\<rparr>) target broker subscriptions w = (Inr existing, subscriptions, w)"
  using assms by (simp add: subscribe_def subscription_key_def wait_addresses_def Let_def)

text \<open>A condition with a path and a status checks the path.\<close>

lemma status_beside_a_path_is_ignored:
  "Cn_Path condition \<noteq> '''' \<Longrightarrow> satisfied get (condition\<lparr>Cn_Status := expected\<rparr>) status answer = satisfied get condition other_status answer"
  by (simp add: satisfied_def)

text \<open>Two iterations wait for the same value; the first gives up and removes the registration of the second, which goes on waiting for
  a message that is already there.\<close>

lemma giving_up_silences_another:
  assumes "c \<noteq> ''''"
  shows "\<exists>s. mail_reach s \<and> (1, Waiting) \<in> set (My_live s) \<and> My_asked s ! 1 = c \<and> gget (Mb_arrivals (My_box s)) c = Some m
    \<and> gget (Mb_waiting (My_box s)) c = None \<and> My_channels s = [] \<and> My_sends s = []"
proof -
  let ?box = "\<lambda>waiting. \<lparr>Mb_arrivals = [], Mb_order = [], Mb_waiting = waiting\<rparr>"
  let ?mail = "\<lambda>waiting asked live. \<lparr>My_box = ?box waiting, My_asked = asked, My_sends = [], My_channels = [], My_live = live, My_returned = [], My_delivered = []\<rparr>"
  have "mail_reach (?mail [(c, 0)] [c] [(0, Waiting)])"
    using mail_reach.Stepped[OF mail_reach.Opened mail_step.Await[OF refl prod.collapse[symmetric], where correlation = c]]
    by (simp add: opened_def newSubscription_def mail_register_def)
  from mail_reach.Stepped[OF this mail_step.Await[OF refl prod.collapse[symmetric], where correlation = c]]
  have "mail_reach (?mail [(c, 1)] [c, c] [(0, Waiting), (1, Waiting)])" by (simp add: mail_register_def)
  from mail_reach.Stepped[OF this mail_step.GiveUp[where lives = "[]" and channel = 0 and others = "[(1, Waiting)]"]]
  have "mail_reach (?mail [] [c, c] [(0, LastLook), (1, Waiting)])" by (simp add: mail_give_up_def gdelete_def)
  from mail_reach.Stepped[OF this mail_step.Deliver[OF prod.collapse[symmetric], where correlation = c and received = m]] assms
  have "mail_reach ((?mail [] [c, c] [(0, LastLook), (1, Waiting)])\<lparr>My_box := \<lparr>Mb_arrivals = [(c, m)], Mb_order = [c], Mb_waiting = []\<rparr>, My_delivered := [(c, m)]\<rparr>)"
    by (simp add: mail_deliver_def Let_def heldMessagesCap_def)
  then show ?thesis by (intro exI conjI) (assumption | simp add: gget_Cons)+
qed

section \<open>Properties\<close>

text \<open>C28. The mailbox. However deliveries, waits and their timers interleave, what the waits returned was delivered, under the
  value each of them asked for, and no delivered message ended two waits; a wait returns once.\<close>

theorem a_message_ends_one_wait:
  assumes "mail_reach s"
  shows "mset (map (\<lambda>(channel, received). (My_asked s ! channel, received)) (received_by (My_returned s))) \<subseteq># mset (My_delivered s)
    \<and> distinct (map fst (My_returned s))"
proof -
  have "tagged (My_asked s) (received_by (My_returned s)) \<subseteq># mset (My_delivered s)"
    using mail_reach_ok[OF assms] unfolding mail_ok_def by (meson mset_subset_eq_add_left subset_mset.order_trans)
  then show ?thesis using mail_reach_ok[OF assms] by (simp add: tagged_def mail_ok_def)
qed


section \<open>Witnesses\<close>

theorem a_message_ends_one_wait_witness:
  "\<exists>s :: string mail. mail_reach s \<and> received_by (My_returned s) = [(0, ''shipped'')] \<and> (''42'', ''shipped'') \<in># mset (My_delivered s)"
proof -
  let ?held = "\<lparr>My_box = \<lparr>Mb_arrivals = [(''42'', ''shipped'')], Mb_order = [''42''], Mb_waiting = []\<rparr>, My_asked = [], My_sends = [], My_channels = [],
      My_live = [], My_returned = [], My_delivered = [(''42'', ''shipped'')]\<rparr>"
  have "mail_reach ?held"
    using mail_reach.Stepped[OF mail_reach.Opened mail_step.Deliver[OF prod.collapse[symmetric], where correlation = "''42''" and received = "''shipped''"]]
    by (simp add: opened_def newSubscription_def mail_deliver_def heldMessagesCap_def Let_def)
  from mail_reach.Stepped[OF this mail_step.Await[OF refl prod.collapse[symmetric], where correlation = "''42''"]]
  have "mail_reach (?held\<lparr>My_box := \<lparr>Mb_arrivals = [], Mb_order = [''42''], Mb_waiting = []\<rparr>, My_asked := [''42''], My_returned := [(0, Some ''shipped'')]\<rparr>)"
    by (simp add: mail_register_def gget_Cons gdelete_def)
  then obtain s :: "string mail" where s: "mail_reach s" "My_asked s = [''42'']" "My_returned s = [(0, Some ''shipped'')]" by fastforce
  have "received_by (My_returned s) = [(0, ''shipped'')]" using s(3) by (simp add: received_by_def List.map_filter_simps)
  with a_message_ends_one_wait[OF s(1)] s show ?thesis by (intro exI[of _ s]) simp
qed

text \<open>A target whose answer is ready at the third poll, and one whose answer never is.\<close>

definition example_wait_config :: wait_Config where
  "example_wait_config = wait_Default\<lparr>Wt_Source := ''http'', Wt_Path := ''/orders/1'', Wt_To := noCondition\<lparr>Cn_Status := 200\<rparr>, Wt_Interval := 1, Wt_Timeout := 5\<rparr>"

definition example_poll :: "Duration \<Rightarrow> string \<Rightarrow> int \<Rightarrow> (string + int \<times> string) \<times> int" where
  "example_poll timeout address w = (Inr (if 2 \<le> w then 200 else 202, ''''), w)"

definition example_pause :: "Duration \<Rightarrow> Duration \<Rightarrow> int \<Rightarrow> bool \<times> int" where
  "example_pause timeout interval w = (timeout \<le> w, w + interval)"


end
