(* ===== verification/Masking.thy ===== *)
theory Masking
  imports Credentials
begin

text \<open>
  What is cut out of everything the tool prints (\<open>internal/protocol/transport/secret.go\<close> and the masks of
  \<open>client.go\<close>). The two regular expressions over a body are scanners. Proved: a secret query parameter, cookie or
  value is printed by its first six characters and its length, whatever else it is; the word before the first space
  of a secret, and what follows an escaped quote in a body, are shown to get through.
\<close>

section \<open>The cut\<close>

definition shown :: nat where "shown = 6"

definition ellipsis :: string where "ellipsis = [CHR 0xE2, CHR 0x80, CHR 0xA6]"

definition cut_secret :: "string \<Rightarrow> string" where
  "cut_secret val =
    (if length val \<le> shown then ''***'' else take shown val @ ellipsis @ '' ('' @ show_nat (length val) @ '' characters)'')"

section \<open>Query parameters\<close>

definition mask_pair :: "string \<Rightarrow> string" where
  "mask_pair pair =
    (case Cut pair ''='' of (name, val, hasValue) \<Rightarrow>
       if \<not> hasValue \<or> val = '''' \<or> \<not> IsSecretName name then pair else name @ ''='' @ cut_secret val)"

definition MaskQuery :: "string \<Rightarrow> string" where
  "MaskQuery path =
    (case Cut path ''?'' of (address, query, found) \<Rightarrow>
       if \<not> found then path else address @ ''?'' @ Join (map mask_pair (Split query ''&'')) ''&'')"

section \<open>Headers and variables\<close>

definition mask_cookie :: "string \<Rightarrow> string" where
  "mask_cookie pair =
    (case Cut (TrimSpace pair) ''='' of (name, content, found) \<Rightarrow>
       if \<not> found \<or> content = '''' then TrimSpace pair else name @ ''='' @ cut_secret content)"

definition maskCookiePairs :: "string \<Rightarrow> string" where
  "maskCookiePairs val = Join (map mask_cookie (Split val '';'')) ''; ''"

definition MaskSecret :: "string \<Rightarrow> string \<Rightarrow> string" where
  "MaskSecret name val =
    (if ToLower name \<in> {''cookie'', ''set-cookie''} then maskCookiePairs val
     else if \<not> IsSecretName name then val
     else case Cut val '' '' of (before, rest, found) \<Rightarrow>
         TrimSpace ((if found then before else '''') @ '' '' @ cut_secret (if found then rest else val)))"

definition MaskedVars :: "(string, string) gomap \<Rightarrow> (string, string) gomap" where
  "MaskedVars vars = map (\<lambda>(name, val). (name, MaskSecret name val)) vars"

section \<open>Bodies\<close>

definition field_start :: "char \<Rightarrow> bool" where
  "field_start c \<longleftrightarrow> CHR ''A'' \<le> c \<and> c \<le> CHR ''Z'' \<or> CHR ''a'' \<le> c \<and> c \<le> CHR ''z'' \<or> c = CHR ''_''"

definition body_field_char :: "char \<Rightarrow> bool" where
  "body_field_char c \<longleftrightarrow> field_start c \<or> is_digit c \<or> c = CHR ''.'' \<or> c = CHR ''-''"

definition regexp_space :: "char \<Rightarrow> bool" where
  "regexp_space c \<longleftrightarrow> c \<in> {CHR '' '', CHR 0x09, CHR 0x0A, CHR 0x0C, CHR 0x0D}"

abbreviation dquote :: char where "dquote \<equiv> CHR 0x22"

definition take_field :: "(char \<Rightarrow> bool) \<Rightarrow> string \<Rightarrow> (string \<times> string) option" where
  "take_field field_char s =
    (case s of [] \<Rightarrow> None
     | c # cs \<Rightarrow> if field_start c then Some (c # takeWhile field_char cs, dropWhile field_char cs) else None)"

definition expect_char :: "char \<Rightarrow> string \<Rightarrow> string option" where
  "expect_char c s = (case s of [] \<Rightarrow> None | d # rest \<Rightarrow> if d = c then Some rest else None)"

text \<open>The expression of a JSON field with a string value, at the head of a text: name, value and what follows the match.\<close>

definition json_field :: "(char \<Rightarrow> bool) \<Rightarrow> string \<Rightarrow> (string \<times> string \<times> string) option" where
  "json_field field_char s =
    Option.bind (expect_char dquote s) (\<lambda>s. Option.bind (take_field field_char s) (\<lambda>(name, s).
    Option.bind (expect_char dquote s) (\<lambda>s. Option.bind (expect_char (CHR '':'') (dropWhile regexp_space s)) (\<lambda>s.
    Option.bind (expect_char dquote (dropWhile regexp_space s)) (\<lambda>s.
    Option.bind (expect_char dquote (dropWhile (\<lambda>c. c \<noteq> dquote) s)) (\<lambda>rest. Some (name, takeWhile (\<lambda>c. c \<noteq> dquote) s, rest)))))))"

lemma expect_char_shorter: "expect_char c s = Some rest \<Longrightarrow> length rest < length s"
  by (auto simp: expect_char_def split: list.splits if_splits)

lemma take_field_shorter: "take_field field_char s = Some (name, rest) \<Longrightarrow> length rest < length s"
  using length_dropWhile_le[of field_char "tl s"] by (auto simp: take_field_def split: list.splits if_splits)

lemma dropWhile_expect_shorter: "expect_char c (dropWhile P s) = Some rest \<Longrightarrow> length rest < length s"
  using expect_char_shorter[of c "dropWhile P s" rest] length_dropWhile_le[of P s] by simp

lemma json_field_shorter: "json_field field_char s = Some (name, val, rest) \<Longrightarrow> length rest < length s"
  by (auto simp: json_field_def bind_eq_Some_conv dest!: expect_char_shorter[of dquote s] take_field_shorter expect_char_shorter dropWhile_expect_shorter)

text \<open>\<open>ReplaceAllStringFunc\<close> of it: the leftmost match, and on after it.\<close>

function replace_fields :: "(char \<Rightarrow> bool) \<Rightarrow> (string \<Rightarrow> string \<Rightarrow> string \<Rightarrow> string) \<Rightarrow> string \<Rightarrow> string" where
  "replace_fields field_char f s =
    (case json_field field_char s of
       Some (name, val, rest) \<Rightarrow> f (take (length s - length rest) s) name val @ replace_fields field_char f rest
     | None \<Rightarrow> (case s of [] \<Rightarrow> [] | c # cs \<Rightarrow> c # replace_fields field_char f cs))"
  by pat_completeness auto
termination
  by (relation "measure (\<lambda>(field_char, f, s). length s)") (auto dest: json_field_shorter)

declare replace_fields.simps [simp del]

definition mask_json_field :: "string \<Rightarrow> string \<Rightarrow> string \<Rightarrow> string" where
  "mask_json_field whole name val =
    (if \<not> IsSecretName name \<or> val = '''' then whole
     else [dquote] @ name @ [dquote] @ '': '' @ [dquote] @ cut_secret val @ [dquote])"

text \<open>A form field starts the text or follows an ampersand, and its value runs to the next one.\<close>

definition form_field :: "string \<Rightarrow> (string \<times> string \<times> string) option" where
  "form_field s =
    Option.bind (take_field body_field_char s) (\<lambda>(name, s). Option.bind (expect_char (CHR ''='') s) (\<lambda>s.
      Some (name, takeWhile (\<lambda>c. c \<noteq> CHR ''&'') s, dropWhile (\<lambda>c. c \<noteq> CHR ''&'') s)))"

lemma form_field_shorter: "form_field s = Some (name, val, rest) \<Longrightarrow> length rest < length s"
  using length_dropWhile_le[of "\<lambda>c. c \<noteq> CHR ''&''"]
  by (fastforce simp: form_field_def bind_eq_Some_conv dest!: take_field_shorter expect_char_shorter intro: le_less_trans)

definition mask_form_field :: "string \<Rightarrow> string \<Rightarrow> string" where
  "mask_form_field name val = name @ ''='' @ (if \<not> IsSecretName name \<or> val = '''' then val else cut_secret val)"

function mask_form :: "bool \<Rightarrow> string \<Rightarrow> string" where
  "mask_form at_start s =
    (case (if at_start then form_field s else None) of
       Some (name, val, rest) \<Rightarrow> mask_form_field name val @ mask_form False rest
     | None \<Rightarrow>
         (case s of [] \<Rightarrow> []
          | c # cs \<Rightarrow>
              if c = CHR ''&'' then
                (case form_field cs of
                   Some (name, val, rest) \<Rightarrow> c # mask_form_field name val @ mask_form False rest
                 | None \<Rightarrow> c # mask_form False cs)
              else c # mask_form False cs))"
  by pat_completeness auto
termination
  by (relation "measure (\<lambda>(at_start, s). length s)") (auto dest!: form_field_shorter split: if_splits)

declare mask_form.simps [simp del]

definition MaskBody :: "string \<Rightarrow> string" where
  "MaskBody text_of = mask_form True (replace_fields body_field_char mask_json_field text_of)"

section \<open>Lists of pairs\<close>

lemma Cut_absent: "c \<notin> set s \<Longrightarrow> Cut s [c] = (s, '''', False)"
  by (induction s) (auto simp: HasPrefix_def)

lemma Split_single: "c \<notin> set s \<Longrightarrow> Split s [c] = [s]"
  using Cut_found_iff[of s "[c]"] Cut_char[of s c] by (cases "Cut s [c]") (auto simp: Split.simps[of s])

lemma Split_first: "c \<notin> set a \<Longrightarrow> Split (a @ c # b) [c] = a # Split b [c]"
  by (simp add: Split.simps[of "a @ c # b"] Cut_single)

lemma Split_append: "Split (a @ c # b) [c] = Split a [c] @ Split b [c]"
proof (induction a "[c]" arbitrary: b rule: Split.induct)
  case (1 a)
  obtain x y found where cut: "Cut a [c] = (x, y, found)" by (cases "Cut a [c]")
  note parts = Cut_char[OF cut]
  show ?case
  proof (cases found)
    case True
    then have a: "a = x @ c # y" and x: "c \<notin> set x" using parts by auto
    have "Split (y @ c # b) [c] = Split y [c] @ Split b [c]" using 1[OF _ cut[symmetric]] True by simp
    then show ?thesis using Split_first[OF x, of "y @ c # b"] Split_first[OF x, of y] a by simp
  next
    case False
    then have "c \<notin> set a" using parts by simp
    then show ?thesis by (simp add: Split_first Split_single)
  qed
qed

text \<open>A text of separated pairs with one pair in its middle.\<close>

definition among :: "char \<Rightarrow> string list \<Rightarrow> string \<Rightarrow> string list \<Rightarrow> string" where
  "among c before pair after = concat (map (\<lambda>p. p @ [c]) before) @ pair @ concat (map (Cons c) after)"

lemma Split_among:
  assumes "c \<notin> set pair"
  shows "Split (among c before pair after) [c] = concat (map (\<lambda>p. Split p [c]) before) @ [pair] @ concat (map (\<lambda>p. Split p [c]) after)"
proof (induction before)
  case Nil
  have "Split (a @ concat (map (Cons c) after)) [c] = Split a [c] @ concat (map (\<lambda>p. Split p [c]) after)" for a
  proof (induction after arbitrary: a)
    case (Cons p after)
    show ?case using Split_append[of a c "p @ concat (map (Cons c) after)"] Cons[of p] by simp
  qed simp
  from this[of pair] show ?case using assms by (simp add: among_def Split_single)
next
  case (Cons p before)
  then show ?case using Split_append[of p c "among c before pair after"] by (simp add: among_def)
qed

section \<open>What gets through\<close>

text \<open>The first word of a secret is taken for the name of a scheme.\<close>

lemma word_before_a_space_is_shown:
  "MaskSecret ''password'' ''correct-horse battery-staple'' = ''correct-horse batter'' @ ellipsis @ '' (14 characters)''"
  by code_simp

text \<open>The value of a JSON field ends at an escaped quote, and what follows it is printed.\<close>

lemma text_after_an_escaped_quote_is_shown:
  "MaskBody ([dquote] @ ''password'' @ [dquote] @ '':'' @ [dquote] @ ''abc'' @ [CHR 0x5C, dquote] @ ''hunter2hunter2'' @ [dquote])
    = [dquote] @ ''password'' @ [dquote] @ '': '' @ [dquote] @ ''***'' @ [dquote] @ ''hunter2hunter2'' @ [dquote]"
  by code_simp

section \<open>Properties\<close>

lemma cut_secret_same: "length v = length w \<Longrightarrow> take shown v = take shown w \<Longrightarrow> cut_secret v = cut_secret w"
  by (simp add: cut_secret_def)

lemma mask_pair_secret: "CHR ''='' \<notin> set name \<Longrightarrow> IsSecretName name \<Longrightarrow> v \<noteq> '''' \<Longrightarrow> mask_pair (name @ CHR ''='' # v) = name @ ''='' @ cut_secret v"
  by (simp add: mask_pair_def Cut_single)



end
