(* ===== verification/Strings.thy ===== *)
theory Strings
  imports Yaml
begin

text \<open>
  More of what Go does with strings, for the components that rewrite and assemble text: the runes of a line,
  \<open>strings.ReplaceAll\<close> of a longer text, \<open>strings.Fields\<close>, and the size of the trees that a walk goes down.
\<close>

section \<open>Runes\<close>

text \<open>
  \<open>[]rune(s)\<close> of a text in UTF-8: a rune is kept as the bytes that encode it, the first byte and the bytes
  \<open>10xxxxxx\<close> that go on from it. On the texts that reach these components, which the YAML package accepted, the
  encoding is valid and both readings agree.
\<close>

definition goes_on :: "char \<Rightarrow> bool" where
  "goes_on c \<longleftrightarrow> 0x80 \<le> (of_char c :: nat) \<and> (of_char c :: nat) < 0xC0"

function runes :: "string \<Rightarrow> string list" where
  "runes [] = []"
| "runes (c # s) = (c # takeWhile goes_on s) # runes (dropWhile goes_on s)"
  by pat_completeness auto
termination
  by (relation "measure length") (auto simp: less_Suc_eq_le length_dropWhile_le)

lemma concat_runes [simp]: "concat (runes s) = s"
  by (induction s rule: runes.induct) simp_all

text \<open>A text that starts where a rune starts.\<close>

definition at_rune :: "string \<Rightarrow> bool" where
  "at_rune s \<longleftrightarrow> (case s of [] \<Rightarrow> True | c # _ \<Rightarrow> \<not> goes_on c)"

lemma at_rune_simps [simp]: "at_rune []" "at_rune (c # s) \<longleftrightarrow> \<not> goes_on c"
  by (simp_all add: at_rune_def)

lemma dropWhile_goes_on: "at_rune t \<Longrightarrow> dropWhile goes_on (s @ t) = dropWhile goes_on s @ t"
  by (induction s) (auto simp: at_rune_def split: list.splits)

lemma takeWhile_goes_on: "at_rune t \<Longrightarrow> takeWhile goes_on (s @ t) = takeWhile goes_on s"
  by (induction s) (auto simp: at_rune_def split: list.splits)

lemma runes_append: "at_rune t \<Longrightarrow> runes (s @ t) = runes s @ runes t"
  by (induction s rule: runes.induct) (simp_all add: dropWhile_goes_on takeWhile_goes_on)

lemma at_rune_append [simp]: "at_rune s \<Longrightarrow> at_rune t \<Longrightarrow> at_rune (s @ t)"
  by (cases s) simp_all

section \<open>Replacing and splitting\<close>

text \<open>\<open>strings.ReplaceAll\<close>: every occurrence from the left; an empty text is not replaced by any caller.\<close>

function ReplaceText :: "string \<Rightarrow> string \<Rightarrow> string \<Rightarrow> string" where
  "ReplaceText old new s =
    (case s of [] \<Rightarrow> []
     | c # rest \<Rightarrow> if old \<noteq> [] \<and> HasPrefix s old then new @ ReplaceText old new (drop (length old) s) else c # ReplaceText old new rest)"
  by pat_completeness auto
termination
  by (relation "measure (\<lambda>(old, new, s). length s)") auto

declare ReplaceText.simps [simp del]

lemma ReplaceText_Nil [simp]: "ReplaceText old new [] = []"
  by (simp add: ReplaceText.simps)

lemma HasPrefix_Contains: "HasPrefix s p \<Longrightarrow> Contains s p"
  by (cases s) (auto simp: HasPrefix_def)

lemma ReplaceText_absent: "\<not> Contains s old \<Longrightarrow> ReplaceText old new s = s"
proof (induction s)
  case (Cons c s)
  then show ?case by (simp add: ReplaceText.simps[of old new "c # s"])
qed simp

text \<open>\<open>strings.Fields\<close>: the words between the spaces.\<close>

function Fields :: "string \<Rightarrow> string list" where
  "Fields s =
    (case dropWhile space_char s of [] \<Rightarrow> []
     | c # rest \<Rightarrow> (c # takeWhile (\<lambda>d. \<not> space_char d) rest) # Fields (dropWhile (\<lambda>d. \<not> space_char d) rest))"
  by pat_completeness auto
termination
proof (relation "measure length", goal_cases)
  case (2 s c rest)
  then have "length (c # rest) \<le> length s" by (metis length_dropWhile_le)
  moreover have "length (dropWhile (\<lambda>d. \<not> space_char d) rest) \<le> length rest" by (rule length_dropWhile_le)
  ultimately show ?case by simp
qed simp

declare Fields.simps [simp del]

lemma Fields_words: "word \<in> set (Fields s) \<Longrightarrow> word \<noteq> [] \<and> (\<forall>c \<in> set word. \<not> space_char c)"
proof (induction s rule: Fields.induct)
  case (1 s)
  show ?case
  proof (cases "dropWhile space_char s")
    case (Cons c rest)
    then have start: "\<not> space_char c" by (metis hd_dropWhile list.discI list.sel(1))
    have "Fields s = (c # takeWhile (\<lambda>d. \<not> space_char d) rest) # Fields (dropWhile (\<lambda>d. \<not> space_char d) rest)"
      by (subst Fields.simps) (simp add: Cons)
    with 1(2) consider "word = c # takeWhile (\<lambda>d. \<not> space_char d) rest" | "word \<in> set (Fields (dropWhile (\<lambda>d. \<not> space_char d) rest))" by auto
    then show ?thesis
    proof cases
      case 1
      with start show ?thesis by (auto dest: set_takeWhileD)
    next
      case 2
      with "1.IH"[OF Cons] show ?thesis by blast
    qed
  next
    case Nil
    then have "Fields s = []" by (subst Fields.simps) (simp only: list.case)
    with 1(2) show ?thesis by simp
  qed
qed

section \<open>Going down a tree\<close>

lemma node_pairs_in: "(key, val) \<in> set (node_pairs content) \<Longrightarrow> key \<in> set content \<and> val \<in> set content"
  by (induction content rule: node_pairs.induct) auto

lemma content_smaller: "child \<in> set (Node_Content node) \<Longrightarrow> size child < size node"
  by (cases node) (auto dest: size_list_estimation'[of _ _ _ size, OF _ order_refl] simp: less_Suc_eq_le)

lemma pair_smaller: "(key, val) \<in> set (node_pairs (Node_Content node)) \<Longrightarrow> size val < size node"
  using content_smaller node_pairs_in by blast

end
