(* ===== verification/Migration.thy ===== *)
theory Migration
  imports Parse Strings
begin

text \<open>
  The rewriting of a file in the Portuguese format (\<open>internal/scenario/migration.go\<close>; the tables the reader shares with it
  are in \<open>Parse\<close>). The walk over the tree collects edits, by line and column; \<open>apply\<close> makes them in the text, from the
  last one back. Proved: the edits land as one simultaneous substitution, in whatever order the walk found them; a line no
  change names is left alone; every key the reader calls outdated is renamed to what the reader asks for; and a file with no
  word of the old format comes back as it was.
\<close>

section \<open>Edits\<close>

record edit =
  Ed_line :: int
  Ed_column :: int
  Ed_from :: string
  Ed_to :: string

record Change =
  Ch_Line :: int
  Ch_From :: string
  Ch_To :: string

definition declaredStepNames :: "yaml_node \<Rightarrow> string list" where
  "declaredStepNames document =
    concat (map (\<lambda>(key, val). if Node_Value key = ''cenario'' \<or> Node_Value key = ''scenario'' then
        concat (map (\<lambda>step. if Node_Kind step \<noteq> MappingNode then []
            else concat (map (\<lambda>(key, val). if Node_Value key = ''nome'' \<or> Node_Value key = ''name'' then [TrimSpace (Node_Value val)] else [])
              (node_pairs (Node_Content step)))) (Node_Content val))
      else []) (node_pairs (Node_Content document)))"

definition rename_node :: "yaml_node \<Rightarrow> string \<Rightarrow> edit list" where
  "rename_node node new = (if Node_Value node = new \<or> new = '''' then []
     else [\<lparr>Ed_line = Node_Line node, Ed_column = Node_Column node, Ed_from = Node_Value node, Ed_to = new\<rparr>])"

definition renameValue :: "yaml_node \<Rightarrow> (string, string) gomap \<Rightarrow> edit list" where
  "renameValue node table = (if Node_Kind node \<noteq> ScalarNode then []
     else case gget table (TrimSpace (Node_Value node)) of None \<Rightarrow> [] | Some new \<Rightarrow> rename_node node new)"

text \<open>\<open>sort.SliceStable\<close> by line and column.\<close>

definition edit_before :: "edit \<Rightarrow> edit \<Rightarrow> bool" where
  "edit_before first second \<longleftrightarrow>
    (if Ed_line first \<noteq> Ed_line second then Ed_line first < Ed_line second else Ed_column first < Ed_column second)"

fun insert_edit :: "edit \<Rightarrow> edit list \<Rightarrow> edit list" where
  "insert_edit e [] = [e]"
| "insert_edit e (f # fs) = (if edit_before f e then f # insert_edit e fs else e # f # fs)"

definition sort_edits :: "edit list \<Rightarrow> edit list" where
  "sort_edits edits = foldr insert_edit edits []"

definition apply_one :: "edit \<Rightarrow> string list \<times> Change list \<Rightarrow> string list \<times> Change list" where
  "apply_one item acc = (case acc of (ls, changes) \<Rightarrow>
     if Ed_line item - 1 < 0 \<or> Ed_line item - 1 \<ge> int (length ls) then (ls, changes)
     else let k = nat (Ed_line item - 1); rs = runes (ls ! k); start = Ed_column item - 1; wide = length (runes (Ed_from item))
       in if start < 0 \<or> start + int wide > int (length rs) then (ls, changes)
          else if concat (take wide (drop (nat start) rs)) \<noteq> Ed_from item then (ls, changes)
          else (ls[k := concat (take (nat start) rs) @ Ed_to item @ concat (drop (nat start + wide) rs)],
                changes @ [\<lparr>Ch_Line = Ed_line item, Ch_From = Ed_from item, Ch_To = Ed_to item\<rparr>]))"

definition apply_lines :: "edit list \<Rightarrow> string list \<Rightarrow> string list \<times> Change list" where
  "apply_lines edits ls = (case fold apply_one (rev (sort_edits edits)) (ls, []) of (ls, changes) \<Rightarrow> (ls, rev changes))"

definition apply_edits :: "edit list \<Rightarrow> string \<Rightarrow> string \<times> Change list" where
  "apply_edits edits content =
    (if edits = [] then (content, [])
     else case apply_lines edits (Split content nl) of (ls, changes) \<Rightarrow> (Join ls nl, changes))"

section \<open>What is renamed where\<close>

datatype key_context = topLevel | loadBlock | profileList | profileBody | authBlock | dataBlock | dataSource | generateBlock | generateField
  | messagingBlock | brokerBlock | brokerAuth | tlsBlock | stepList | stepBlock | expectBlock | captureBlock | captureBody | httpBlock
  | graphqlBlock | kafkaBlock | amqpBlock | awaitBlock | awaitSource | awaitHTTP | sloList | sloLimits | opaque

definition keysByContext :: "key_context \<Rightarrow> (string, string) gomap" where
  "keysByContext ctx = (case ctx of
     loadBlock \<Rightarrow> [(''modelo'', ''model''), (''perfis'', ''profiles''), (''usuarios'', ''users''), (''duracao'', ''duration''), (''intervalo_entre_iteracoes'', ''thinkTime'')]
   | profileBody \<Rightarrow> [(''de'', ''from''), (''ate'', ''to''), (''taxa'', ''rate''), (''durante'', ''duration'')]
   | authBlock \<Rightarrow> [(''tipo'', ''type''), (''obter'', ''obtain''), (''renovar_apos'', ''refreshAfter''), (''cabecalho'', ''header''), (''usuario'', ''user''), (''senha'', ''password'')]
   | dataSource \<Rightarrow> [(''arquivo'', ''file''), (''consumo'', ''consume''), (''semente'', ''seed''), (''gerar'', ''generate'')]
   | generateField \<Rightarrow> [(''tipo'', ''type''), (''formato'', ''format''), (''novo_a_cada'', ''newEvery'')]
   | brokerBlock \<Rightarrow> [(''enderecos'', ''addresses''), (''autenticacao'', ''auth'')]
   | brokerAuth \<Rightarrow> [(''tipo'', ''type''), (''usuario'', ''user''), (''senha'', ''password''), (''regiao'', ''region'')]
   | tlsBlock \<Rightarrow> [(''certificado'', ''certificate''), (''chave'', ''key'')]
   | stepBlock \<Rightarrow> stepKeyRenames
   | expectBlock \<Rightarrow> [(''corpo_contem'', ''bodyContains''), (''corpo_casa'', ''bodyMatches''), (''cabecalho'', ''header'')]
   | captureBody \<Rightarrow> [(''de'', ''from''), (''padrao'', ''default''), (''obrigatoria'', ''required'')]
   | httpBlock \<Rightarrow> [(''metodo'', ''method''), (''caminho'', ''path''), (''cabecalhos'', ''headers''), (''corpo'', ''body''), (''seguir_redirect'', ''followRedirects'')]
   | graphqlBlock \<Rightarrow> [(''consulta'', ''query''), (''operacao'', ''operation''), (''variaveis'', ''variables''), (''caminho'', ''path''), (''cabecalhos'', ''headers'')]
   | kafkaBlock \<Rightarrow> [(''topico'', ''topic''), (''chave'', ''key''), (''valor'', ''value''), (''cabecalhos'', ''headers''), (''particao'', ''partition''), (''grupo'', ''group'')]
   | amqpBlock \<Rightarrow> [(''troca'', ''exchange''), (''rota'', ''routingKey''), (''fila'', ''queue''), (''corpo'', ''body''), (''identidade'', ''messageId''),
       (''cabecalhos'', ''headers''), (''persistente'', ''persistent''), (''confirmar'', ''confirm'')]
   | awaitBlock \<Rightarrow> [(''ate'', ''until''), (''intervalo'', ''interval''), (''chave'', ''key''), (''campo'', ''field''), (''igual_a'', ''equals'')]
   | awaitSource \<Rightarrow> [(''topico'', ''topic''), (''fila'', ''queue''), (''enderecos'', ''addresses'')]
   | awaitHTTP \<Rightarrow> [(''caminho'', ''path'')]
   | sloLimits \<Rightarrow> [(''erros'', ''errors''), (''sucesso'', ''success''), (''vazao'', ''throughput''), (''taxa_efetiva'', ''throughput''),
       (''jornada_p50'', ''journeyP50''), (''jornada_p75'', ''journeyP75''), (''jornada_p90'', ''journeyP90''),
       (''jornada_p95'', ''journeyP95''), (''jornada_p99'', ''journeyP99''), (''jornada_max'', ''journeyMax''),
       (''global_p50'', ''globalP50''), (''global_p75'', ''globalP75''), (''global_p90'', ''globalP90''),
       (''global_p95'', ''globalP95''), (''global_p99'', ''globalP99''), (''global_max'', ''globalMax'')]
   | _ \<Rightarrow> [])"

definition loadModels :: "(string, string) gomap" where "loadModels = [(''aberto'', ''open''), (''fechado'', ''closed'')]"

definition profileKinds :: "(string, string) gomap" where
  "profileKinds = [(''rampa'', ''ramp''), (''patamar'', ''steady''), (''pico'', ''spike''), (''constante'', ''steady'')]"

definition authKinds :: "(string, string) gomap" where "authKinds = [(''basica'', ''basic''), (''cabecalho'', ''header'')]"

definition consumeKinds :: "(string, string) gomap" where
  "consumeKinds = [(''sequencial'', ''sequential''), (''aleatorio'', ''random''), (''unico_por_usuario'', ''uniquePerUser'')]"

definition generatorKinds :: "(string, string) gomap" where
  "generatorKinds = [(''sequencia'', ''sequence''), (''numero'', ''number''), (''inteiro'', ''integer''), (''nome'', ''name''), (''texto'', ''text''), (''padrao'', ''pattern'')]"

definition newEveryKinds :: "(string, string) gomap" where "newEveryKinds = [(''iteracao'', ''iteration''), (''uso'', ''use'')]"

definition brokerKinds :: "(string, string) gomap" where
  "brokerKinds = [(''sasl_plain'', ''saslPlain''), (''scram_sha256'', ''scramSha256''), (''scram_sha512'', ''scramSha512''), (''msk_iam'', ''mskIam''), (''certificado'', ''certificate'')]"

definition acksKinds :: "(string, string) gomap" where "acksKinds = [(''todos'', ''all''), (''lider'', ''leader''), (''nenhum'', ''none'')]"

definition requirementKinds :: "(string, string) gomap" where "requirementKinds = [(''credencial'', ''credential'')]"

definition sloScopes :: "(string, string) gomap" where "sloScopes = [(''jornada'', ''journey''), (''regressao'', ''regression'')]"

definition comparisonKinds :: "(string, string) gomap" where "comparisonKinds = [(''existe'', ''exists''), (''contem'', ''contains'')]"

definition derivedStepKeys :: "(string, string) gomap" where
  "derivedStepKeys = [(''kafka produzir '', ''kafka produce ''), (''amqp publicar '', ''amqp publish ''), (''aguardar '', ''await '')]"

section \<open>The walk\<close>

fun derived_loop :: "yaml_node \<Rightarrow> string \<Rightarrow> (string, string) gomap \<Rightarrow> edit list" where
  "derived_loop node name [] = []"
| "derived_loop node name ((old, new) # rest) =
    (if HasPrefix name old then rename_node node (new @ drop (length old) name) else derived_loop node name rest)"

definition renameDerivedStep :: "string list \<Rightarrow> yaml_node \<Rightarrow> edit list" where
  "renameDerivedStep declared node =
    (let name = TrimSpace (Node_Value node)
     in if Node_Kind node \<noteq> ScalarNode \<or> name \<in> set declared then [] else derived_loop node name derivedStepKeys)"

definition each_by :: "yaml_node \<Rightarrow> (string, string) gomap \<Rightarrow> edit list" where
  "each_by node table = (if Node_Kind node \<noteq> SequenceNode then [] else concat (map (\<lambda>item. renameValue item table) (Node_Content node)))"

definition comparisons :: "yaml_node \<Rightarrow> edit list" where
  "comparisons node = (if Node_Kind node \<noteq> MappingNode then []
     else concat (map (\<lambda>(key, val). renameValue val comparisonKinds) (node_pairs (Node_Content node)))
       @ concat (map (\<lambda>(key, val). if Node_Value key = ''corpo_contem'' then rename_node key ''bodyContains'' else []) (node_pairs (Node_Content node))))"

definition captureExpression :: "yaml_node \<Rightarrow> edit list" where
  "captureExpression node =
    (if Node_Kind node \<noteq> ScalarNode then []
     else if Node_Value node = ''corpo'' then rename_node node ''body''
     else if HasPrefix (Node_Value node) ''cabecalho:'' then rename_node node (''header:'' @ TrimPrefix (Node_Value node) ''cabecalho:'')
     else [])"

definition generatorShorthand :: "yaml_node \<Rightarrow> edit list" where
  "generatorShorthand node =
    (if Node_Kind node \<noteq> ScalarNode then []
     else case Cut (Node_Value node) ''('' of (recipe, arguments, hasArguments) \<Rightarrow>
       case gget generatorKinds (TrimSpace recipe) of
         None \<Rightarrow> []
       | Some new \<Rightarrow> rename_node node (if hasArguments then new @ ''('' @ arguments else new))"

text \<open>\<open>p95: 10% pior\<close>: the limits of a rule, under every scope it names.\<close>

definition worse_limits :: "yaml_node \<Rightarrow> edit list" where
  "worse_limits limits = (if Node_Kind limits \<noteq> MappingNode then []
     else concat (map (\<lambda>(key, limit). if Contains (Node_Value limit) ''pior'' then rename_node limit (ReplaceText ''pior'' ''worse'' (Node_Value limit)) else [])
       (node_pairs (Node_Content limits))))"

text \<open>What \<open>descend\<close> does with a value, by where it is and under which key.\<close>

datatype descent = Stay | IntoMap key_context | IntoList key_context | RenameBy "(string, string) gomap" | EachBy "(string, string) gomap"
  | Compare_values | Expression | Recipe

definition descend :: "key_context \<Rightarrow> string \<Rightarrow> node_kind \<Rightarrow> descent" where
  "descend ctx name kind = (case ctx of
     topLevel \<Rightarrow>
       if name \<in> {''carga'', ''load''} then IntoMap loadBlock
       else if name \<in> {''cenario'', ''scenario''} then IntoList stepList
       else if name \<in> {''autenticacao'', ''auth''} then IntoMap authBlock
       else if name \<in> {''dados'', ''data''} then IntoMap dataBlock
       else if name \<in> {''mensageria'', ''messaging''} then IntoMap messagingBlock
       else if name = ''tls'' then IntoMap tlsBlock
       else if name = ''slo'' then IntoList sloList
       else if name \<in> {''requer'', ''requires''} then EachBy requirementKinds else Stay
   | loadBlock \<Rightarrow>
       if name \<in> {''modelo'', ''model''} then RenameBy loadModels
       else if name \<in> {''perfis'', ''profiles''} then IntoList profileList else Stay
   | authBlock \<Rightarrow>
       if name \<in> {''tipo'', ''type''} then RenameBy authKinds
       else if name \<in> {''obter'', ''obtain''} then IntoMap stepBlock else Stay
   | dataBlock \<Rightarrow> IntoMap dataSource
   | dataSource \<Rightarrow>
       if name \<in> {''consumo'', ''consume''} then RenameBy consumeKinds
       else if name \<in> {''gerar'', ''generate''} then IntoMap generateBlock else Stay
   | generateBlock \<Rightarrow> if kind = MappingNode then IntoMap generateField else Recipe
   | generateField \<Rightarrow>
       if name \<in> {''tipo'', ''type''} then RenameBy generatorKinds
       else if name \<in> {''novo_a_cada'', ''newEvery''} then RenameBy newEveryKinds else Stay
   | messagingBlock \<Rightarrow> IntoMap brokerBlock
   | brokerBlock \<Rightarrow>
       if name \<in> {''autenticacao'', ''auth''} then IntoMap brokerAuth
       else if name = ''tls'' then IntoMap tlsBlock else Stay
   | brokerAuth \<Rightarrow> if name \<in> {''tipo'', ''type''} then RenameBy brokerKinds else Stay
   | stepBlock \<Rightarrow>
       if name \<in> {''verificar'', ''espera'', ''expect''} then IntoMap expectBlock
       else if name \<in> {''captura'', ''capture''} then IntoMap captureBlock
       else if name = ''http'' then IntoMap httpBlock
       else if name = ''graphql'' then IntoMap graphqlBlock
       else if name = ''kafka'' then IntoMap kafkaBlock
       else if name = ''amqp'' then IntoMap amqpBlock
       else if name \<in> {''aguardar'', ''await''} then IntoMap awaitBlock else Stay
   | expectBlock \<Rightarrow> if name = ''json'' then Compare_values else Stay
   | captureBlock \<Rightarrow> if kind = MappingNode then IntoMap captureBody else Expression
   | captureBody \<Rightarrow> if name \<in> {''de'', ''from''} then Expression else Stay
   | kafkaBlock \<Rightarrow> if name = ''acks'' then RenameBy acksKinds else Stay
   | awaitBlock \<Rightarrow>
       if name \<in> {''kafka'', ''amqp''} then IntoMap awaitSource
       else if name = ''http'' then IntoMap awaitHTTP
       else if name \<in> {''ate'', ''until''} then Compare_values else Stay
   | _ \<Rightarrow> Stay)"

definition rename_key :: "yaml_node \<Rightarrow> key_context \<Rightarrow> edit list" where
  "rename_key key ctx =
    (case gget (keysByContext ctx) (Node_Value key) of None \<Rightarrow> [] | Some new \<Rightarrow> rename_node key new)
    @ (if ctx = topLevel then case gget topKeyRenames (Node_Value key) of None \<Rightarrow> [] | Some new \<Rightarrow> rename_node key new else [])"

function migrate_mapping :: "string list \<Rightarrow> yaml_node \<Rightarrow> key_context \<Rightarrow> edit list"
  and migrate_pair :: "string list \<Rightarrow> yaml_node \<Rightarrow> yaml_node \<Rightarrow> key_context \<Rightarrow> edit list"
  and migrate_sequence :: "string list \<Rightarrow> yaml_node \<Rightarrow> key_context \<Rightarrow> edit list"
  and migrate_profile :: "string list \<Rightarrow> yaml_node \<Rightarrow> edit list"
  and migrate_sloRule :: "string list \<Rightarrow> yaml_node \<Rightarrow> edit list" where
  "migrate_mapping declared node ctx = (if Node_Kind node \<noteq> MappingNode then []
     else concat (map (\<lambda>(key, val). migrate_pair declared key val ctx) (node_pairs (Node_Content node))))"
| "migrate_pair declared key val ctx = rename_key key ctx
     @ (case descend ctx (Node_Value key) (Node_Kind val) of
          Stay \<Rightarrow> []
        | IntoMap inner \<Rightarrow> migrate_mapping declared val inner
        | IntoList inner \<Rightarrow> migrate_sequence declared val inner
        | RenameBy table \<Rightarrow> renameValue val table
        | EachBy table \<Rightarrow> each_by val table
        | Compare_values \<Rightarrow> comparisons val
        | Expression \<Rightarrow> captureExpression val
        | Recipe \<Rightarrow> generatorShorthand val)"
| "migrate_sequence declared node ctx = (if Node_Kind node \<noteq> SequenceNode then []
     else concat (map (\<lambda>item. case ctx of
          profileList \<Rightarrow> migrate_profile declared item
        | stepList \<Rightarrow> migrate_mapping declared item stepBlock
        | sloList \<Rightarrow> migrate_sloRule declared item
        | _ \<Rightarrow> []) (Node_Content node)))"
| "migrate_profile declared node = (if Node_Kind node \<noteq> MappingNode \<or> length (Node_Content node) < 2 then []
     else renameValue (Node_Content node ! 0) profileKinds @ migrate_mapping declared (Node_Content node ! 1) profileBody)"
| "migrate_sloRule declared node = (if Node_Kind node \<noteq> MappingNode \<or> length (Node_Content node) < 2 then []
     else renameValue (Node_Content node ! 0) sloScopes @ renameDerivedStep declared (Node_Content node ! 0)
       @ migrate_mapping declared (Node_Content node ! 1) sloLimits
       @ concat (map (\<lambda>(key, limits). worse_limits limits) (node_pairs (Node_Content node))))"
  by pat_completeness auto
termination
  by (relation "measure (\<lambda>x. case x of
       Inl (Inl (_, node, _)) \<Rightarrow> 3 * size node
     | Inl (Inr (_, _, val, _)) \<Rightarrow> 3 * size val + 1
     | Inr (Inl (_, node, _)) \<Rightarrow> 3 * size node
     | Inr (Inr (Inl (_, node))) \<Rightarrow> 3 * size node
     | Inr (Inr (Inr (_, node))) \<Rightarrow> 3 * size node)")
    (auto dest: pair_smaller content_smaller intro!: content_smaller)

declare migrate_mapping.simps [simp del] migrate_pair.simps [simp del] migrate_sequence.simps [simp del]
  migrate_profile.simps [simp del] migrate_sloRule.simps [simp del]

definition edits_of :: "yaml_node \<Rightarrow> edit list" where
  "edits_of document = migrate_mapping (declaredStepNames document) document topLevel"

definition Migrate :: "(string \<Rightarrow> string + yaml_node) \<Rightarrow> string \<Rightarrow> ScenarioError + string \<times> Change list" where
  "Migrate unmarshal content =
    (case unmarshal content of
       Inl err \<Rightarrow> Inl (translateYAMLError content err)
     | Inr tree \<Rightarrow> case Node_Content tree of
         [] \<Rightarrow> Inr (content, [])
       | document # _ \<Rightarrow> if Node_Kind document \<noteq> MappingNode then Inr (content, [])
           else Inr (apply_edits (edits_of document) content))"

section \<open>Making the edits\<close>

lemma edit_before_trans: "edit_before a b \<Longrightarrow> edit_before b c \<Longrightarrow> edit_before a c"
  by (auto simp: edit_before_def split: if_splits)

lemma edit_before_irrefl [simp]: "\<not> edit_before a a"
  by (simp add: edit_before_def)

lemma set_insert_edit [simp]: "set (insert_edit e fs) = insert e (set fs)"
  by (induction fs) auto

lemma mset_insert_edit [simp]: "mset (insert_edit e fs) = add_mset e (mset fs)"
  by (induction fs) auto

lemma mset_sort_edits [simp]: "mset (sort_edits edits) = mset edits"
  unfolding sort_edits_def by (induction edits) auto

text \<open>Edits at different places have one order.\<close>

lemma insert_edit_sorted:
  assumes "sorted_wrt edit_before fs" and "\<forall>f \<in> set fs. edit_before e f \<or> edit_before f e"
  shows "sorted_wrt edit_before (insert_edit e fs)"
  using assms by (induction fs) (auto intro: edit_before_trans)

lemma sort_edits_sorted:
  assumes "\<forall>e \<in> set edits. \<forall>f \<in> set edits. e = f \<or> edit_before e f \<or> edit_before f e" and "distinct edits"
  shows "sorted_wrt edit_before (sort_edits edits)"
  using assms
proof (induction edits)
  case (Cons e edits)
  have "set (sort_edits edits) = set edits" by (metis mset_sort_edits set_mset_mset)
  with Cons show ?case by (auto simp: sort_edits_def intro!: insert_edit_sorted)
qed (simp add: sort_edits_def)

lemma sorted_edits_unique:
  "sorted_wrt edit_before es \<Longrightarrow> sorted_wrt edit_before fs \<Longrightarrow> set es = set fs \<Longrightarrow> es = fs"
proof (induction es arbitrary: fs)
  case (Cons e es)
  then obtain f fs' where fs: "fs = f # fs'" by (cases fs) auto
  have "e = f" using Cons.prems fs by (metis edit_before_irrefl edit_before_trans list.set_intros(1) set_ConsD sorted_wrt.simps(2))
  moreover have "e \<notin> set es" "f \<notin> set fs'" using Cons.prems(1,2) fs by auto
  ultimately have "set es = set fs'" using Cons.prems(3) fs by auto
  with Cons fs \<open>e = f\<close> show ?case by auto
qed simp

lemma sorted_edits_distinct: "sorted_wrt edit_before es \<Longrightarrow> distinct es"
  by (induction es) auto

lemma sort_edits_permuted:
  assumes "sorted_wrt edit_before es" and "mset edits = mset es"
  shows "sort_edits edits = es"
proof (rule sorted_edits_unique)
  have same: "set edits = set es" using assms(2) by (metis set_mset_mset)
  have "\<forall>e \<in> set es. \<forall>f \<in> set es. e = f \<or> edit_before e f \<or> edit_before f e"
    using assms(1) by (auto simp: in_set_conv_nth) (metis linorder_neqE_nat sorted_wrt_iff_nth_less)
  moreover have "distinct edits" using assms sorted_edits_distinct mset_eq_imp_distinct_iff by blast
  ultimately show "sorted_wrt edit_before (sort_edits edits)" using same by (intro sort_edits_sorted) auto
  show "set (sort_edits edits) = set es" by (metis assms(2) mset_sort_edits set_mset_mset)
qed fact

text \<open>A line as the text between the edited pieces, with the pieces, and what is left after the last.\<close>

type_synonym marked_line = "(string \<times> string \<times> string) list \<times> string"

definition old_line :: "marked_line \<Rightarrow> string" where
  "old_line line = (case line of (pieces, rest) \<Rightarrow> concat (map (\<lambda>(gap, old, new). gap @ old) pieces) @ rest)"

definition new_line :: "marked_line \<Rightarrow> string" where
  "new_line line = (case line of (pieces, rest) \<Rightarrow> concat (map (\<lambda>(gap, old, new). gap @ new) pieces) @ rest)"

definition clean_line :: "marked_line \<Rightarrow> bool" where
  "clean_line line \<longleftrightarrow> (case line of (pieces, rest) \<Rightarrow> at_rune rest
     \<and> (\<forall>(gap, old, new) \<in> set pieces. old \<noteq> [] \<and> at_rune gap \<and> at_rune old \<and> at_rune new))"

fun piece_edits :: "int \<Rightarrow> nat \<Rightarrow> (string \<times> string \<times> string) list \<Rightarrow> edit list" where
  "piece_edits line column [] = []"
| "piece_edits line column ((gap, old, new) # pieces) =
    \<lparr>Ed_line = line, Ed_column = int (column + length (runes gap)) + 1, Ed_from = old, Ed_to = new\<rparr>
      # piece_edits line (column + length (runes gap) + length (runes old)) pieces"

fun document_edits :: "nat \<Rightarrow> marked_line list \<Rightarrow> edit list" where
  "document_edits before [] = []"
| "document_edits before (line # ls) = piece_edits (int before + 1) 0 (fst line) @ document_edits (Suc before) ls"

definition change_of :: "edit \<Rightarrow> Change" where
  "change_of e = \<lparr>Ch_Line = Ed_line e, Ch_From = Ed_from e, Ch_To = Ed_to e\<rparr>"

lemma runes_Nil_iff [simp]: "runes s = [] \<longleftrightarrow> s = []"
  by (cases s) simp_all

lemma piece_edits_sorted: "(\<forall>(gap, old, new) \<in> set pieces. old \<noteq> []) \<Longrightarrow>
    sorted_wrt edit_before (piece_edits line column pieces)
    \<and> (\<forall>e \<in> set (piece_edits line column pieces). Ed_line e = line \<and> int column < Ed_column e)"
proof (induction line column pieces rule: piece_edits.induct)
  case (2 line column gap old new pieces)
  then have later: "\<forall>e \<in> set (piece_edits line (column + length (runes gap) + length (runes old)) pieces).
      Ed_line e = line \<and> int (column + length (runes gap) + length (runes old)) < Ed_column e"
    and sorted: "sorted_wrt edit_before (piece_edits line (column + length (runes gap) + length (runes old)) pieces)" by auto
  have "0 < length (runes old)" using 2(2) by simp
  have "\<forall>e \<in> set (piece_edits line (column + length (runes gap) + length (runes old)) pieces).
      edit_before \<lparr>Ed_line = line, Ed_column = int (column + length (runes gap)) + 1, Ed_from = old, Ed_to = new\<rparr> e"
  proof (intro ballI)
    fix e assume "e \<in> set (piece_edits line (column + length (runes gap) + length (runes old)) pieces)"
    with later have e: "Ed_line e = line" "int (column + length (runes gap) + length (runes old)) < Ed_column e" by auto
    then have "int (column + length (runes gap)) + 1 < Ed_column e" using \<open>0 < length (runes old)\<close> by linarith
    with e(1) show "edit_before \<lparr>Ed_line = line, Ed_column = int (column + length (runes gap)) + 1, Ed_from = old, Ed_to = new\<rparr> e"
      by (simp add: edit_before_def)
  qed
  moreover have "\<forall>e \<in> set (piece_edits line (column + length (runes gap) + length (runes old)) pieces). Ed_line e = line \<and> int column < Ed_column e"
    using later by auto
  ultimately show ?case using sorted by simp
qed simp

lemma document_edits_sorted: "\<forall>line \<in> set ls. clean_line line \<Longrightarrow>
    sorted_wrt edit_before (document_edits before ls) \<and> (\<forall>e \<in> set (document_edits before ls). int before < Ed_line e)"
proof (induction ls arbitrary: before)
  case (Cons line ls)
  have "\<forall>(gap, old, new) \<in> set (fst line). old \<noteq> []" using Cons.prems by (cases line) (auto simp: clean_line_def)
  note here = piece_edits_sorted[OF this, of "int before + 1" 0]
  have "\<forall>e \<in> set (document_edits (Suc before) ls). int before + 1 < Ed_line e" "sorted_wrt edit_before (document_edits (Suc before) ls)"
    using Cons.IH[of "Suc before"] Cons.prems by auto
  moreover from this here have "\<forall>e \<in> set (piece_edits (int before + 1) 0 (fst line)). \<forall>f \<in> set (document_edits (Suc before) ls). edit_before e f"
    by (fastforce simp: edit_before_def)
  ultimately show ?case using here by (auto simp: sorted_wrt_append)
qed simp

lemma at_rune_old: "\<forall>(gap, old, new) \<in> set pieces. at_rune gap \<and> at_rune old \<Longrightarrow> at_rune rest \<Longrightarrow>
    at_rune (concat (map (\<lambda>(gap, old, new). gap @ old) pieces) @ rest)"
  by (induction pieces) auto

lemma at_rune_new: "\<forall>(gap, old, new) \<in> set pieces. at_rune gap \<and> at_rune new \<Longrightarrow> at_rune rest \<Longrightarrow>
    at_rune (concat (map (\<lambda>(gap, old, new). gap @ new) pieces) @ rest)"
  by (induction pieces) auto

text \<open>One edit whose text is where it says.\<close>

lemma apply_one_lands:
  assumes "k < length ls" and "ls ! k = pre @ old @ post" and "at_rune old" and "at_rune post"
  shows "apply_one \<lparr>Ed_line = int k + 1, Ed_column = int (length (runes pre)) + 1, Ed_from = old, Ed_to = new\<rparr> (ls, changes)
    = (ls[k := pre @ new @ post], changes @ [\<lparr>Ch_Line = int k + 1, Ch_From = old, Ch_To = new\<rparr>])"
proof -
  have "runes (ls ! k) = runes pre @ runes old @ runes post"
    using assms(2,3,4) by (simp add: runes_append)
  then show ?thesis using assms(1) by (simp add: apply_one_def Let_def)
qed

lemma pieces_land:
  assumes "k < length ls" and "ls ! k = pre @ concat (map (\<lambda>(gap, old, new). gap @ old) pieces) @ rest"
    and "at_rune rest" and "\<forall>(gap, old, new) \<in> set pieces. at_rune gap \<and> at_rune old \<and> at_rune new" and "column = length (runes pre)"
  shows "foldr apply_one (piece_edits (int k + 1) column pieces) (ls, changes)
    = (ls[k := pre @ concat (map (\<lambda>(gap, old, new). gap @ new) pieces) @ rest], changes @ rev (map change_of (piece_edits (int k + 1) column pieces)))"
  using assms(2-)
proof (induction pieces arbitrary: pre column)
  case Nil
  then have "ls[k := pre @ rest] = ls" by (metis append_Nil concat.simps(1) list.map(1) list_update_id)
  then show ?case by simp
next
  case (Cons piece pieces)
  obtain gap old new where piece: "piece = (gap, old, new)" by (cases piece)
  let ?pre = "pre @ gap @ old" and ?new = "concat (map (\<lambda>(gap, old, new). gap @ new) pieces) @ rest"
  have clean: "at_rune gap" "at_rune old" and others: "\<forall>(gap, old, new) \<in> set pieces. at_rune gap \<and> at_rune old \<and> at_rune new"
    using Cons.prems(3) piece by auto
  have column: "column + length (runes gap) + length (runes old) = length (runes ?pre)"
    using Cons.prems(4) clean by (simp add: runes_append)
  have later: "foldr apply_one (piece_edits (int k + 1) (column + length (runes gap) + length (runes old)) pieces) (ls, changes)
      = (ls[k := ?pre @ ?new], changes @ rev (map change_of (piece_edits (int k + 1) (column + length (runes gap) + length (runes old)) pieces)))"
    using Cons.IH[of ?pre, OF _ Cons.prems(2) others column] Cons.prems(1) piece by simp
  have "at_rune ?new" using others Cons.prems(2) by (intro at_rune_new) auto
  moreover have "column + length (runes gap) = length (runes (pre @ gap))" using Cons.prems(4) clean by (simp add: runes_append)
  ultimately show ?case
    using apply_one_lands[of k "ls[k := ?pre @ ?new]" "pre @ gap" old ?new] assms(1) clean later
    by (simp add: piece change_of_def)
qed

lemma document_lands:
  assumes "\<forall>line \<in> set marked. clean_line line" and "length done_lines = before"
  shows "foldr apply_one (document_edits before marked) (done_lines @ map old_line marked, changes)
    = (done_lines @ map new_line marked, changes @ rev (map change_of (document_edits before marked)))"
  using assms
proof (induction marked arbitrary: done_lines before)
  case (Cons line marked)
  obtain pieces rest where line: "line = (pieces, rest)" by (cases line)
  let ?ls = "done_lines @ old_line line # map new_line marked"
  have later: "foldr apply_one (document_edits (Suc before) marked) (done_lines @ map old_line (line # marked), changes)
      = (?ls, changes @ rev (map change_of (document_edits (Suc before) marked)))"
    using Cons.IH[of "done_lines @ [old_line line]" "Suc before"] Cons.prems by simp
  have "foldr apply_one (piece_edits (int before + 1) 0 pieces) (?ls, changes @ rev (map change_of (document_edits (Suc before) marked)))
      = (?ls[before := [] @ concat (map (\<lambda>(gap, old, new). gap @ new) pieces) @ rest],
         (changes @ rev (map change_of (document_edits (Suc before) marked))) @ rev (map change_of (piece_edits (int before + 1) 0 pieces)))"
  proof (rule pieces_land)
    show "before < length ?ls" "?ls ! before = [] @ concat (map (\<lambda>(gap, old, new). gap @ old) pieces) @ rest"
      using Cons.prems(2) by (auto simp: line old_line_def)
    show "at_rune rest" "\<forall>(gap, old, new) \<in> set pieces. at_rune gap \<and> at_rune old \<and> at_rune new"
      using Cons.prems(1) by (auto simp: line clean_line_def)
  qed simp
  moreover have "?ls[before := [] @ concat (map (\<lambda>(gap, old, new). gap @ new) pieces) @ rest] = done_lines @ map new_line (line # marked)"
    using Cons.prems(2) by (auto simp: line new_line_def)
  ultimately show ?case using later by (simp add: line)
qed simp

lemma apply_lines_lands:
  assumes "\<forall>line \<in> set marked. clean_line line" and "mset edits = mset (document_edits 0 marked)"
  shows "apply_lines edits (map old_line marked) = (map new_line marked, map change_of (document_edits 0 marked))"
proof -
  have "sort_edits edits = document_edits 0 marked"
    using document_edits_sorted[OF assms(1)] assms(2) by (intro sort_edits_permuted) auto
  then show ?thesis using document_lands[OF assms(1), of "[]" 0 "[]"] by (simp add: apply_lines_def foldr_conv_fold)
qed

text \<open>What an edit that does not fit leaves alone.\<close>

definition untouched :: "string list \<Rightarrow> string list \<Rightarrow> Change list \<Rightarrow> bool" where
  "untouched ls ls' changes \<longleftrightarrow> length ls' = length ls \<and> (\<forall>k < length ls. (\<forall>change \<in> set changes. Ch_Line change \<noteq> int k + 1) \<longrightarrow> ls' ! k = ls ! k)"

lemma apply_one_untouched:
  assumes "apply_one e (ls, changes) = (ls', changes')"
  shows "\<exists>made. changes' = changes @ made \<and> set made \<subseteq> {change_of e} \<and> untouched ls ls' made"
  using assms by (auto simp: apply_one_def Let_def untouched_def change_of_def nth_list_update split: if_splits)

lemma fold_apply_untouched:
  "fold apply_one es (ls, changes) = (ls', changes') \<Longrightarrow>
     \<exists>made. changes' = changes @ made \<and> set made \<subseteq> change_of ` set es \<and> untouched ls ls' made"
proof (induction es arbitrary: ls changes)
  case Nil
  then show ?case by (auto simp: untouched_def)
next
  case (Cons e es)
  obtain ls1 changes1 where one: "apply_one e (ls, changes) = (ls1, changes1)" by fastforce
  from apply_one_untouched[OF this] obtain first where first: "changes1 = changes @ first" "set first \<subseteq> {change_of e}" "untouched ls ls1 first" by blast
  from Cons one obtain later where "changes' = changes1 @ later" "set later \<subseteq> change_of ` set es" "untouched ls1 ls' later" by fastforce
  with first show ?case by (intro exI[of _ "first @ later"]) (auto simp: untouched_def)
qed

lemma apply_lines_untouched:
  assumes "apply_lines edits ls = (ls', changes)"
  shows "set changes \<subseteq> change_of ` set edits \<and> untouched ls ls' changes"
proof -
  obtain made where "fold apply_one (rev (sort_edits edits)) (ls, []) = (ls', made)" "changes = rev made"
    using assms by (auto simp: apply_lines_def split: prod.splits)
  moreover have "set (sort_edits edits) = set edits" by (metis mset_sort_edits set_mset_mset)
  ultimately show ?thesis using fold_apply_untouched by (fastforce simp: untouched_def)
qed

section \<open>What the walk finds\<close>

fun tree_values :: "yaml_node \<Rightarrow> string list" where
  "tree_values (Node kind style val line column content) = val # concat (map tree_values content)"

lemma tree_values_content: "child \<in> set (Node_Content node) \<Longrightarrow> set (tree_values child) \<subseteq> set (tree_values node)"
  by (cases node) auto

lemma tree_values_pair: "(key, val) \<in> set (node_pairs (Node_Content node)) \<Longrightarrow> set (tree_values key) \<union> set (tree_values val) \<subseteq> set (tree_values node)"
  using tree_values_content node_pairs_in by (meson Un_least)

lemma tree_values_self: "Node_Value node \<in> set (tree_values node)"
  by (cases node) simp

definition contexts :: "key_context list" where
  "contexts = [topLevel, loadBlock, profileList, profileBody, authBlock, dataBlock, dataSource, generateBlock, generateField,
     messagingBlock, brokerBlock, brokerAuth, tlsBlock, stepList, stepBlock, expectBlock, captureBlock, captureBody, httpBlock,
     graphqlBlock, kafkaBlock, amqpBlock, awaitBlock, awaitSource, awaitHTTP, sloList, sloLimits, opaque]"

lemma contexts_all: "ctx \<in> set contexts"
  by (cases ctx) (simp_all add: contexts_def)

definition value_tables :: "(string, string) gomap list" where
  "value_tables = [loadModels, profileKinds, authKinds, consumeKinds, generatorKinds, newEveryKinds, brokerKinds, acksKinds, requirementKinds, sloScopes, comparisonKinds]"

definition old_format :: "string \<Rightarrow> bool" where
  "old_format word \<longleftrightarrow>
     (\<exists>table \<in> set (topKeyRenames # map keysByContext contexts). gget table word \<noteq> None)
     \<or> (\<exists>table \<in> set value_tables. gget table (TrimSpace word) \<noteq> None)
     \<or> (\<exists>(old, new) \<in> set derivedStepKeys. HasPrefix (TrimSpace word) old)
     \<or> gget generatorKinds (TrimSpace (fst (Cut word ''(''))) \<noteq> None
     \<or> word = ''corpo'' \<or> HasPrefix word ''cabecalho:'' \<or> word = ''corpo_contem'' \<or> Contains word ''pior''"

lemma not_old_key: "\<not> old_format word \<Longrightarrow> gget (keysByContext ctx) word = None" "\<not> old_format word \<Longrightarrow> gget topKeyRenames word = None"
  using contexts_all[of ctx] by (auto simp: old_format_def)

lemma not_old_value: "table \<in> set value_tables \<Longrightarrow> \<not> old_format (Node_Value node) \<Longrightarrow> renameValue node table = []"
  unfolding old_format_def renameValue_def by (metis option.simps(4))

lemma in_value_tables [simp]:
  "profileKinds \<in> set value_tables" "requirementKinds \<in> set value_tables" "sloScopes \<in> set value_tables" "comparisonKinds \<in> set value_tables"
  by (simp_all add: value_tables_def)

lemma derived_loop_none: "\<forall>(old, new) \<in> set table. \<not> HasPrefix name old \<Longrightarrow> derived_loop node name table = []"
  by (induction table) auto

lemma not_old_derived: "\<not> old_format (Node_Value node) \<Longrightarrow> renameDerivedStep declared node = []"
  unfolding renameDerivedStep_def Let_def using derived_loop_none[of derivedStepKeys "TrimSpace (Node_Value node)" node] by (auto simp: old_format_def)

definition today :: "yaml_node \<Rightarrow> bool" where
  "today node \<longleftrightarrow> (\<forall>word \<in> set (tree_values node). \<not> old_format word)"

lemma today_parts:
  "today node \<Longrightarrow> \<not> old_format (Node_Value node)"
  "today node \<Longrightarrow> child \<in> set (Node_Content node) \<Longrightarrow> today child"
  "today node \<Longrightarrow> (key, val) \<in> set (node_pairs (Node_Content node)) \<Longrightarrow> today key \<and> today val"
  using tree_values_self tree_values_content tree_values_pair unfolding today_def by blast+

lemma today_leaves:
  assumes "today node"
  shows "each_by node requirementKinds = []" "comparisons node = []" "captureExpression node = []" "generatorShorthand node = []" "worse_limits node = []"
proof -
  note parts = today_parts[OF assms]
  show "each_by node requirementKinds = []"
    using parts(2) today_parts(1) not_old_value[of requirementKinds] by (auto simp: each_by_def)
  have "renameValue val comparisonKinds = []" "Node_Value key \<noteq> ''corpo_contem''" "\<not> Contains (Node_Value val) ''pior''"
    if "(key, val) \<in> set (node_pairs (Node_Content node))" for key val
    using parts(3)[OF that] not_old_value[of comparisonKinds val] today_parts(1)[of val] today_parts(1)[of key]
    by (auto simp: old_format_def)
  then show "comparisons node = []" "worse_limits node = []" by (auto simp: comparisons_def worse_limits_def)
  show "captureExpression node = []" "generatorShorthand node = []"
    using parts(1) by (auto simp: captureExpression_def generatorShorthand_def old_format_def split: prod.splits)
qed

lemma descend_tables:
  "descend ctx name kind = RenameBy table \<Longrightarrow> table \<in> set value_tables"
  "descend ctx name kind = EachBy table \<Longrightarrow> table = requirementKinds"
  by (auto simp: descend_def value_tables_def split: key_context.splits if_splits)

lemma first_two: "\<not> length xs < 2 \<Longrightarrow> xs ! 0 \<in> set xs \<and> xs ! 1 \<in> set xs"
  by (intro conjI nth_mem) linarith+

lemma today_walk:
  "today node \<Longrightarrow> migrate_mapping declared node ctx = []"
  "today key \<Longrightarrow> today val \<Longrightarrow> migrate_pair declared key val ctx = []"
  "today node \<Longrightarrow> migrate_sequence declared node ctx = []"
  "today node \<Longrightarrow> migrate_profile declared node = []"
  "today node \<Longrightarrow> migrate_sloRule declared node = []"
proof (induction declared node ctx and declared key val ctx and declared node ctx and declared node and declared node
    rule: migrate_mapping_migrate_pair_migrate_sequence_migrate_profile_migrate_sloRule.induct)
  case (1 declared node ctx)
  have "migrate_pair declared key val ctx = []" if "Node_Kind node = MappingNode" "(key, val) \<in> set (node_pairs (Node_Content node))" for key val
    using 1(1)[OF _ that(2) refl] that(1) today_parts(3)[OF 1(2) that(2)] by simp
  then show ?case by (subst migrate_mapping.simps) auto
next
  case (2 declared key val ctx)
  have "rename_key key ctx = []" using not_old_key today_parts(1)[OF 2(3)] by (auto simp: rename_key_def)
  then show ?case using 2 today_leaves[OF 2(4)] not_old_value today_parts(1)[OF 2(4)]
    by (subst migrate_pair.simps) (auto split: descent.splits dest: descend_tables)
next
  case (3 declared node ctx)
  then show ?case by (subst migrate_sequence.simps) (auto dest: today_parts(2) split: key_context.splits)
next
  case (4 declared node)
  show ?case
  proof (cases "Node_Kind node \<noteq> MappingNode \<or> length (Node_Content node) < 2")
    case False
    then have "today (Node_Content node ! 0)" "today (Node_Content node ! 1)" using today_parts(2)[OF 4(2)] first_two[of "Node_Content node"] by blast+
    with 4 False show ?thesis by (subst migrate_profile.simps) (simp add: not_old_value today_parts(1))
  qed (subst migrate_profile.simps, simp)
next
  case (5 declared node)
  show ?case
  proof (cases "Node_Kind node \<noteq> MappingNode \<or> length (Node_Content node) < 2")
    case False
    then have parts: "today (Node_Content node ! 0)" "today (Node_Content node ! 1)" using today_parts(2)[OF 5(2)] first_two[of "Node_Content node"] by blast+
    moreover have "\<forall>(key, limits) \<in> set (node_pairs (Node_Content node)). worse_limits limits = []"
      using today_parts(3)[OF 5(2)] today_leaves(5) by blast
    ultimately show ?thesis using 5(1) False not_old_value[of sloScopes] not_old_derived today_parts(1)[OF parts(1)]
      by (subst migrate_sloRule.simps) auto
  qed (subst migrate_sloRule.simps, simp)
qed

text \<open>What the reader calls outdated is what the walk renames.\<close>

lemma renaming_tables:
  "\<forall>(old, new) \<in> set topKeyRenames. new \<noteq> old \<and> new \<noteq> '''' \<and> new \<in> set TopKeys \<and> RenamedTopKey new = None"
  "\<forall>(old, new) \<in> set stepKeyRenames. new \<noteq> old \<and> new \<noteq> '''' \<and> RenamedStepKey new = None"
  by code_simp+

lemma renamed_to_another:
  "RenamedTopKey name = Some new \<Longrightarrow> new \<noteq> name \<and> new \<noteq> '''' \<and> new \<in> set TopKeys \<and> RenamedTopKey new = None"
  "RenamedStepKey name = Some new \<Longrightarrow> new \<noteq> name \<and> new \<noteq> '''' \<and> RenamedStepKey new = None"
  using renaming_tables unfolding RenamedTopKey_def RenamedStepKey_def by (auto dest!: gget_in_set)

lemma rename_key_top: "RenamedTopKey (Node_Value key) = Some new \<Longrightarrow>
    \<lparr>Ed_line = Node_Line key, Ed_column = Node_Column key, Ed_from = Node_Value key, Ed_to = new\<rparr> \<in> set (rename_key key topLevel)"
  using renamed_to_another(1)[of "Node_Value key" new] by (auto simp: rename_key_def rename_node_def RenamedTopKey_def)

lemma rename_key_step: "RenamedStepKey (Node_Value key) = Some new \<Longrightarrow>
    \<lparr>Ed_line = Node_Line key, Ed_column = Node_Column key, Ed_from = Node_Value key, Ed_to = new\<rparr> \<in> set (rename_key key stepBlock)"
  using renamed_to_another(2)[of "Node_Value key" new] by (auto simp: rename_key_def rename_node_def RenamedStepKey_def keysByContext_def)

lemma in_mapping: "Node_Kind node = MappingNode \<Longrightarrow> (key, val) \<in> set (node_pairs (Node_Content node)) \<Longrightarrow>
    set (rename_key key ctx) \<subseteq> set (migrate_mapping declared node ctx)"
  by (subst migrate_mapping.simps, subst migrate_pair.simps) fastforce

lemma in_steps:
  assumes "Node_Kind document = MappingNode" and "(scenario, steps) \<in> set (node_pairs (Node_Content document))"
    and "Node_Value scenario \<in> {''cenario'', ''scenario''}" and "Node_Kind steps = SequenceNode" and "step \<in> set (Node_Content steps)"
  shows "set (migrate_mapping declared step stepBlock) \<subseteq> set (migrate_mapping declared document topLevel)"
proof -
  have "set (migrate_mapping declared step stepBlock) \<subseteq> set (migrate_sequence declared steps stepList)"
    using assms(4,5) by (subst migrate_sequence.simps) auto
  also have "\<dots> \<subseteq> set (migrate_pair declared scenario steps topLevel)"
    using assms(3) by (subst migrate_pair.simps) (auto simp: descend_def)
  also have "\<dots> \<subseteq> set (migrate_mapping declared document topLevel)"
    using assms(1,2) by (subst migrate_mapping.simps) fastforce
  finally show ?thesis .
qed

section \<open>Properties\<close>

text \<open>C25. The edits land. When the edits the walk found name pieces of the text that do not overlap, in whatever order they were found,
  the new file is the old one with every piece replaced at once, and each is listed, in the order of the file.\<close>

theorem Migrate_replaces_at_once:
  assumes "unmarshal content = Inr tree" and "Node_Content tree = document # rest" and "Node_Kind document = MappingNode"
    and "Split content nl = map old_line marked" and "\<forall>line \<in> set marked. clean_line line"
    and "mset (edits_of document) = mset (document_edits 0 marked)" and "edits_of document \<noteq> []"
  shows "Migrate unmarshal content = Inr (Join (map new_line marked) nl, map change_of (document_edits 0 marked))"
  using assms apply_lines_lands[OF assms(5,6)] by (simp add: Migrate_def apply_edits_def)

text \<open>The keys the reader refuses as outdated (\<open>Parse\<close>), with the word its message names: at the top, and in the steps.\<close>

definition outdated_keys :: "yaml_node \<Rightarrow> (yaml_node \<times> string) list" where
  "outdated_keys document =
    (let renamed = (\<lambda>rename node. concat (map (\<lambda>(key, val). case rename (Node_Value key) of None \<Rightarrow> [] | Some new \<Rightarrow> [(key, new)]) (node_pairs (Node_Content node))))
     in renamed RenamedTopKey document
       @ concat (map (\<lambda>(key, val). if Node_Value key \<in> {''cenario'', ''scenario''} \<and> Node_Kind val = SequenceNode
           then concat (map (\<lambda>step. if Node_Kind step = MappingNode then renamed RenamedStepKey step else []) (Node_Content val)) else [])
         (node_pairs (Node_Content document))))"

text \<open>Reader and migration agree. A key the reader refuses as outdated, at the top of a scenario or in a step, is renamed by the
  migration to the word the message of the reader names.\<close>

theorem Migrate_renames_what_is_outdated:
  assumes "Node_Kind document = MappingNode" and "(key, new) \<in> set (outdated_keys document)"
  shows "\<lparr>Ed_line = Node_Line key, Ed_column = Node_Column key, Ed_from = Node_Value key, Ed_to = new\<rparr> \<in> set (edits_of document)"
proof -
  from assms(2) consider
      (top) val where "(key, val) \<in> set (node_pairs (Node_Content document))" "RenamedTopKey (Node_Value key) = Some new"
    | (step) scenario steps step val where "(scenario, steps) \<in> set (node_pairs (Node_Content document))" "Node_Value scenario \<in> {''cenario'', ''scenario''}"
        "Node_Kind steps = SequenceNode" "step \<in> set (Node_Content steps)" "Node_Kind step = MappingNode"
        "(key, val) \<in> set (node_pairs (Node_Content step))" "RenamedStepKey (Node_Value key) = Some new"
    unfolding outdated_keys_def Let_def by (fastforce split: option.splits if_splits)
  then show ?thesis
  proof cases
    case top
    then show ?thesis using in_mapping[OF assms(1)] rename_key_top unfolding edits_of_def by blast
  next
    case step
    then show ?thesis using in_steps[OF assms(1)] in_mapping[OF step(5,6)] rename_key_step unfolding edits_of_def by blast
  qed
qed

text \<open>A file without a word of the old format comes back byte for byte, with no change listed; and of any file, the lines no change
  names come back as they were, and no line is added or lost.\<close>

theorem Migrate_leaves_the_rest:
  assumes "unmarshal content = Inr tree" and "Migrate unmarshal content = Inr (content', changes)"
  shows "(today tree \<longrightarrow> content' = content \<and> changes = []) \<and> (\<exists>ls. content' = Join ls nl \<and> untouched (Split content nl) ls changes)"
proof (rule conjI, rule impI)
  show "\<exists>ls. content' = Join ls nl \<and> untouched (Split content nl) ls changes"
  proof (cases "content' = content \<and> changes = []")
    case True
    then show ?thesis by (intro exI[of _ "Split content nl"]) (simp add: Join_Split untouched_def)
  next
    case False
    with assms show ?thesis
      by (auto simp: Migrate_def apply_edits_def dest: apply_lines_untouched split: list.splits if_splits prod.splits)
  qed
  assume "today tree"
  then have "edits_of document = []" if "Node_Content tree = document # rest" for document rest
    using that today_parts(2)[of tree document] today_walk(1) unfolding edits_of_def by simp
  with assms show "content' = content \<and> changes = []"
    by (auto simp: Migrate_def apply_edits_def split: list.splits if_splits)
qed

section \<open>Examples\<close>

text \<open>\<open>nome: a\<close> and \<open>carga: { modelo: aberto }\<close>: four words on two lines.\<close>

definition scalar_at :: "int \<Rightarrow> int \<Rightarrow> string \<Rightarrow> yaml_node" where
  "scalar_at line column word = Node ScalarNode PlainStyle word line column []"

definition example_old_document :: yaml_node where
  "example_old_document = Node MappingNode PlainStyle '''' 1 1
     [scalar_at 1 1 ''nome'', scalar_at 1 7 ''a'', scalar_at 2 1 ''carga'',
      Node MappingNode PlainStyle '''' 2 8 [scalar_at 2 10 ''modelo'', scalar_at 2 18 ''aberto'']]"

definition example_old_content :: string where
  "example_old_content = ''nome: a'' @ nl @ ''carga: { modelo: aberto }''"

definition example_marked :: "marked_line list" where
  "example_marked = [([('''', ''nome'', ''name'')], '': a''), ([('''', ''carga'', ''load''), ('': { '', ''modelo'', ''model''), ('': '', ''aberto'', ''open'')], '' }'')]"

definition example_unmarshal :: "string \<Rightarrow> string + yaml_node" where
  "example_unmarshal content = Inr (Node DocumentNode PlainStyle '''' 1 1 [example_old_document])"

lemma example_migration:
  "edits_of example_old_document = document_edits 0 example_marked" "Split example_old_content nl = map old_line example_marked"
  "\<forall>line \<in> set example_marked. clean_line line"
  by code_simp+

theorem Migrate_replaces_at_once_witness:
  "Migrate example_unmarshal example_old_content = Inr (''name: a'' @ nl @ ''load: { model: open }'',
     [\<lparr>Ch_Line = 1, Ch_From = ''nome'', Ch_To = ''name''\<rparr>, \<lparr>Ch_Line = 2, Ch_From = ''carga'', Ch_To = ''load''\<rparr>,
      \<lparr>Ch_Line = 2, Ch_From = ''modelo'', Ch_To = ''model''\<rparr>, \<lparr>Ch_Line = 2, Ch_From = ''aberto'', Ch_To = ''open''\<rparr>])"
proof -
  have unmarshal: "example_unmarshal example_old_content = Inr (Node DocumentNode PlainStyle '''' 1 1 [example_old_document])"
    by (simp add: example_unmarshal_def)
  have kind: "Node_Kind example_old_document = MappingNode" by (simp add: example_old_document_def)
  have found: "document_edits 0 example_marked \<noteq> []" by (simp add: example_marked_def)
  have "Migrate example_unmarshal example_old_content = Inr (Join (map new_line example_marked) nl, map change_of (document_edits 0 example_marked))"
    using Migrate_replaces_at_once[where unmarshal = example_unmarshal and content = example_old_content and document = example_old_document and rest = "[]" and marked = example_marked, OF unmarshal _ kind example_migration(2,3)] found
    by (simp add: example_migration(1))
  also have "Join (map new_line example_marked) nl = ''name: a'' @ nl @ ''load: { model: open }''" by code_simp
  also have "map change_of (document_edits 0 example_marked) =
     [\<lparr>Ch_Line = 1, Ch_From = ''nome'', Ch_To = ''name''\<rparr>, \<lparr>Ch_Line = 2, Ch_From = ''carga'', Ch_To = ''load''\<rparr>,
      \<lparr>Ch_Line = 2, Ch_From = ''modelo'', Ch_To = ''model''\<rparr>, \<lparr>Ch_Line = 2, Ch_From = ''aberto'', Ch_To = ''open''\<rparr>]" by code_simp
  finally show ?thesis .
qed

theorem Migrate_renames_what_is_outdated_witness:
  "\<lparr>Ed_line = 2, Ed_column = 1, Ed_from = ''carga'', Ed_to = ''load''\<rparr> \<in> set (edits_of example_old_document)"
proof -
  have "(scalar_at 2 1 ''carga'', ''load'') \<in> set (outdated_keys example_old_document)" by code_simp
  from Migrate_renames_what_is_outdated[OF _ this] show ?thesis by (simp add: example_old_document_def scalar_at_def)
qed

theorem Migrate_leaves_the_rest_witness:
  "\<exists>ls. ''name: a'' @ nl @ ''load: { model: open }'' = Join ls nl
    \<and> untouched (Split example_old_content nl) ls (map change_of (document_edits 0 example_marked))"
proof -
  have "Migrate example_unmarshal example_old_content = Inr (''name: a'' @ nl @ ''load: { model: open }'', map change_of (document_edits 0 example_marked))"
    by code_simp
  from Migrate_leaves_the_rest[OF _ this] show ?thesis by (simp add: example_unmarshal_def)
qed

end
