(* ===== verification/Web.thy ===== *)
theory Web
  imports Masking Iteration Strings
begin

text \<open>
  The steps that speak HTTP: \<open>internal/protocol/transport/client.go\<close> (addresses, redirects and the reading of an error),
  \<open>internal/protocol/http\<close>, \<open>internal/protocol/graphql\<close> and \<open>internal/protocol/sse\<close>. The client of \<open>net/http\<close>, \<open>net/url\<close>
  and \<open>encoding/json\<close> are arguments: the client takes an order and gives the error or the answer. A stream of events is
  what arrived of it and how it ended. What the three protocols promise the executor is the locale \<open>web_protocol\<close>,
  interpreted on each of them. Proved: no answer with an error status is ever a success, a GraphQL answer is one exactly
  when it has data and no error, and a stream of events is counted as its blocks are.
\<close>

section \<open>Transport\<close>

record net_error =
  Ne_deadline :: bool
  Ne_timeout :: bool
  Ne_text :: string

definition Classify :: "net_error \<Rightarrow> ErrorClass" where
  "Classify err = (if Ne_deadline err then ErrTimeout else if Ne_timeout err then ErrTimeout else ErrNetwork)"

definition summarizeTLS :: "string \<Rightarrow> string" where
  "summarizeTLS text =
    (if Contains text ''certificate signed by unknown authority'' then ''certificate signed by a CA this machine does not know '' @ em_dash @ '' declare tls: { ca: /path/to/ca.pem }''
     else if Contains text ''cannot validate certificate for'' then ''the target certificate is not valid for the address called '' @ em_dash @ '' use the name that is in the certificate''
     else if Contains text ''certificate has expired'' then ''the target certificate is expired or not valid yet''
     else if Contains text ''tls: bad certificate'' \<or> Contains text ''certificate required''
     then ''the target asked for a client certificate '' @ em_dash @ '' declare tls: { certificate: /path/client.pem, key: /path/client.key }''
     else '''')"

definition known_errors :: "string list" where
  "known_errors = [''connection refused'', ''connection reset'', ''no such host'', ''too many open files'', ''cannot assign requested address'',
     ''context deadline exceeded'', ''EOF'', ''broken pipe'']"

definition SummarizeError :: "net_error \<Rightarrow> string" where
  "SummarizeError err =
    (let text = Ne_text err; summary = summarizeTLS text
     in if summary \<noteq> '''' then summary
        else case filter (Contains text) known_errors of
            known # _ \<Rightarrow> known
          | [] \<Rightarrow> if length text > 120 then take 120 text else text)"

text \<open>\<open>net/url\<close>: parsing an address, and what a relative one means on a base.\<close>

record 'u urls =
  Url_Parse :: "string \<Rightarrow> 'u option"
  Url_Resolve :: "'u \<Rightarrow> 'u \<Rightarrow> string"

definition BuildURL :: "'u urls \<Rightarrow> string \<Rightarrow> string \<Rightarrow> sentence + string" where
  "BuildURL urls base path =
    (if HasPrefix path ''http://'' \<or> HasPrefix path ''https://'' then Inr path
     else if base = '''' then Inl (Sprintf ''step with the relative path %q and a scenario with no target'' [ArgS path])
     else case Url_Parse urls base of
         None \<Rightarrow> Inl (Sprintf ''invalid target: %q'' [ArgS base])
       | Some enderecoBase \<Rightarrow>
           case Url_Parse urls path of
             None \<Rightarrow> Inl (Sprintf ''invalid path: %q'' [ArgS path])
           | Some relative \<Rightarrow> Inr (Url_Resolve urls enderecoBase relative))"

record web_Options =
  Wo_Timeout :: Duration
  Wo_FollowRedirects :: bool
  Wo_MaxRedirects :: int
  Wo_KeepCookies :: bool
  Wo_ConnsPerHost :: int

definition web_DefaultOptions :: web_Options where
  "web_DefaultOptions = \<lparr>Wo_Timeout = 30 * Second, Wo_FollowRedirects = True, Wo_MaxRedirects = 10, Wo_KeepCookies = False, Wo_ConnsPerHost = 0\<rparr>"

text \<open>\<open>CheckRedirect\<close> of the client, by the number of requests already made.\<close>

datatype redirect = UseLastResponse | StopRedirects sentence | FollowOn

definition CheckRedirect :: "web_Options \<Rightarrow> nat \<Rightarrow> redirect" where
  "CheckRedirect options earlier =
    (if \<not> Wo_FollowRedirects options then UseLastResponse
     else if int earlier \<ge> Wo_MaxRedirects options then StopRedirects (Sprintf ''more than %d redirects'' [ArgD (Wo_MaxRedirects options)])
     else FollowOn)"

section \<open>Orders and answers\<close>

text \<open>\<open>http.CanonicalHeaderKey\<close>, which \<open>Header.Set\<close> applies to the name.\<close>

definition token_char :: "char \<Rightarrow> bool" where
  "token_char c \<longleftrightarrow> letter_char c \<or> is_digit c \<or> c \<in> set (''!#$%&*+-.^_`|~'' @ apos)"

fun canonical_rest :: "bool \<Rightarrow> string \<Rightarrow> string" where
  "canonical_rest upper [] = []"
| "canonical_rest upper (c # s) = (if upper then upper_char c else lower_char c) # canonical_rest (c = CHR ''-'') s"

definition CanonicalHeaderKey :: "string \<Rightarrow> string" where
  "CanonicalHeaderKey name = (if list_all token_char name then canonical_rest True name else name)"

definition set_header :: "(string, string) gomap \<Rightarrow> string \<times> string \<Rightarrow> (string, string) gomap" where
  "set_header headers = (\<lambda>(name, val). gput headers (CanonicalHeaderKey name) val)"

record http_order =
  Or_Method :: string
  Or_Address :: string
  Or_Headers :: "(string, string) gomap"
  Or_Body :: string
  Or_Limit :: "Duration option"

text \<open>An answer, and what reading its body gave.\<close>

record http_answer =
  An_Status :: int
  An_Headers :: "(string, string list) gomap"
  An_Content :: "net_error + string"

type_synonym 'w http_client = "http_order \<Rightarrow> 'w \<Rightarrow> (net_error + http_answer) \<times> 'w"

definition limit_of :: "Duration \<Rightarrow> Duration option" where
  "limit_of timeout = (if timeout > 0 then Some timeout else None)"

definition refused :: "string \<Rightarrow> Response" where
  "refused detail = zeroResponse\<lparr>Resp_Class := ErrConfig, Resp_Detail := detail\<rparr>"

definition not_sent :: "net_error \<Rightarrow> Response" where
  "not_sent err = zeroResponse\<lparr>Resp_Class := Classify err, Resp_Detail := SummarizeError err\<rparr>"

definition not_read :: "int \<Rightarrow> net_error \<Rightarrow> Response" where
  "not_read status err = zeroResponse\<lparr>Resp_Status := status, Resp_Class := Classify err, Resp_Detail := SummarizeError err\<rparr>"

definition whole_answer :: "http_answer \<Rightarrow> string \<Rightarrow> Response" where
  "whole_answer answer content =
    zeroResponse\<lparr>Resp_Status := An_Status answer, Resp_Body := content, Resp_Headers := An_Headers answer, Resp_Bytes := int (length content)\<rparr>"

definition status_detail :: "int \<Rightarrow> string" where
  "status_detail status = ''status '' @ fmt_d status"

definition read_headers :: "yaml_node \<Rightarrow> (string, string) gomap \<Rightarrow> sentence + (string, string) gomap" where
  "read_headers node headers =
    (if Node_Kind node \<noteq> MappingNode then Inl (Plain ''headers has to be a map'')
     else Inr (foldl (\<lambda>headers (name, val). gput headers (Node_Value name) (Node_Value val)) headers (node_pairs (Node_Content node))))"

definition with_header :: "(string, string) gomap \<Rightarrow> string \<Rightarrow> string \<Rightarrow> (string, string) gomap" where
  "with_header headers name val = gput headers name val"

fun resolve_each :: "(string, string) gomap \<Rightarrow> ((string, string) gomap \<Rightarrow> 'c resolution) \<Rightarrow> 'c resolution" where
  "resolve_each [] continue = continue []"
| "resolve_each ((name, val) # headers) continue = Asks val (\<lambda>answer. resolve_each headers (\<lambda>rest. continue ((name, answer) # rest)))"

definition described_headers :: "(string, string) gomap \<Rightarrow> sentence list" where
  "described_headers headers =
    map (\<lambda>name. Sprintf ''%s: %s'' [ArgS name, ArgS (MaskSecret name (case gget headers name of None \<Rightarrow> '''' | Some val \<Rightarrow> val))]) (sort_Strings (gkeys headers))"

section \<open>The http step\<close>

record http_Config =
  Hc_Method :: string
  Hc_Path :: string
  Hc_Headers :: "(string, string) gomap"
  Hc_Body :: string
  Hc_ContentType :: string
  Hc_Timeout :: Duration
  Hc_FollowRedirects :: "bool option"

definition http_Default :: http_Config where
  "http_Default = \<lparr>Hc_Method = ''GET'', Hc_Path = '''', Hc_Headers = [], Hc_Body = '''', Hc_ContentType = '''', Hc_Timeout = 0, Hc_FollowRedirects = None\<rparr>"

definition http_AggregationKey :: "http_Config \<Rightarrow> string" where
  "http_AggregationKey config = Hc_Method config @ '' '' @ MaskQuery (Hc_Path config)"

definition http_Resolve :: "http_Config \<Rightarrow> http_Config resolution" where
  "http_Resolve config =
    Asks (Hc_Path config) (\<lambda>path. resolve_each (Hc_Headers config) (\<lambda>headers.
      if Hc_Body config = '''' then Resolved (config\<lparr>Hc_Path := path, Hc_Headers := headers\<rparr>)
      else Asks (Hc_Body config) (\<lambda>body. Resolved (config\<lparr>Hc_Path := path, Hc_Headers := headers, Hc_Body := body\<rparr>))))"

definition http_WithHeader :: "http_Config \<Rightarrow> string \<Rightarrow> string \<Rightarrow> http_Config" where
  "http_WithHeader config name val = config\<lparr>Hc_Headers := with_header (Hc_Headers config) name val\<rparr>"

definition hasHeader :: "(string, string) gomap \<Rightarrow> string \<Rightarrow> bool" where
  "hasHeader headers name \<longleftrightarrow> (\<exists>declared \<in> set (gkeys headers). EqualFold declared name)"

definition http_Describe :: "http_Config \<Rightarrow> sentence list" where
  "http_Describe config =
    [Sprintf ''%s %s'' [ArgS (Hc_Method config), ArgS (MaskQuery (Hc_Path config))]]
    @ described_headers (Hc_Headers config)
    @ (if Hc_ContentType config \<noteq> '''' \<and> \<not> hasHeader (Hc_Headers config) ''Content-Type'' then [Plain (''Content-Type: '' @ Hc_ContentType config)] else [])
    @ (if Hc_Body config \<noteq> '''' then [Plain (''body: '' @ MaskBody (Hc_Body config))] else [])
    @ (if Hc_Timeout config > 0 then [Sprintf ''timeout: %s'' [ArgT (Hc_Timeout config)]] else [])"

definition http_Validate :: "http_Config \<Rightarrow> sentence option" where
  "http_Validate config = (if Hc_Path config = '''' then Some (Plain ''http step with no path'') else None)"

text \<open>\<open>structure\<close> is \<open>node.Decode\<close> into any value and \<open>json.Marshal\<close> of it, each with its error.\<close>

record json_tools =
  Json_structure :: "yaml_node \<Rightarrow> (string + string) + string"

definition readBody :: "json_tools \<Rightarrow> yaml_node \<Rightarrow> sentence + string \<times> string" where
  "readBody tools node =
    (if Node_Kind node = ScalarNode then Inr (Node_Value node, ''text/plain'')
     else case Json_structure tools node of
         Inl (Inl err) \<Rightarrow> Inl (Sprintf ''invalid body: %v'' [ArgS err])
       | Inl (Inr err) \<Rightarrow> Inl (Sprintf ''the body does not serialize to JSON: %v'' [ArgS err])
       | Inr body \<Rightarrow> Inr (body, ''application/json''))"

definition read_http_step_key :: "json_tools \<Rightarrow> http_Config \<Rightarrow> yaml_node \<Rightarrow> yaml_node \<Rightarrow> sentence + http_Config" where
  "read_http_step_key tools config key val =
    (if Node_Value key = ''method'' then Inr (config\<lparr>Hc_Method := ToUpper (Node_Value val)\<rparr>)
     else if Node_Value key \<in> {''path'', ''url''} then Inr (config\<lparr>Hc_Path := Node_Value val\<rparr>)
     else if Node_Value key = ''headers'' then bind_ok (read_headers val (Hc_Headers config)) (\<lambda>headers. Inr (config\<lparr>Hc_Headers := headers\<rparr>))
     else if Node_Value key = ''body'' then bind_ok (readBody tools val) (\<lambda>(body, kind). Inr (config\<lparr>Hc_Body := body, Hc_ContentType := kind\<rparr>))
     else if Node_Value key = ''timeout'' then
       (case ParseDuration (Node_Value val) of
          None \<Rightarrow> Inl (Sprintf ''invalid timeout: %q'' [ArgS (Node_Value val)])
        | Some d \<Rightarrow> Inr (config\<lparr>Hc_Timeout := d\<rparr>))
     else if Node_Value key = ''followRedirects'' then Inr (config\<lparr>Hc_FollowRedirects := Some (Node_Value val = ''true'')\<rparr>)
     else Inl (Sprintf ''unknown key in the http step: %q (use method, path, headers, body, timeout or followRedirects)'' [ArgS (Node_Value key)]))"

definition http_Decode :: "json_tools \<Rightarrow> yaml_node option \<Rightarrow> sentence + http_Config" where
  "http_Decode tools node =
    (case node of
       None \<Rightarrow> Inl (Plain ''http step with no configuration'')
     | Some node \<Rightarrow>
         if Node_Kind node = ScalarNode then
           (case Fields (Node_Value node) of
              [path] \<Rightarrow> Inr (http_Default\<lparr>Hc_Path := path\<rparr>)
            | [verb, path] \<Rightarrow> Inr (http_Default\<lparr>Hc_Method := ToUpper verb, Hc_Path := path\<rparr>)
            | _ \<Rightarrow> Inl (Sprintf ''the short form of an http step has to be \"METHOD /path\", got %q'' [ArgS (Node_Value node)]))
         else if Node_Kind node \<noteq> MappingNode then Inl (Plain ''an http step has to be a string or a map'')
         else bind_ok (read_pairs (read_http_step_key tools) (node_pairs (Node_Content node)) http_Default)
           (\<lambda>config. case http_Validate config of Some err \<Rightarrow> Inl err | None \<Rightarrow> Inr config))"

definition http_order :: "http_Config \<Rightarrow> string \<Rightarrow> http_order" where
  "http_order config address =
    \<lparr>Or_Method = Hc_Method config, Or_Address = address,
     Or_Headers = foldl set_header (if Hc_ContentType config \<noteq> '''' then [(''Content-Type'', Hc_ContentType config)] else []) (Hc_Headers config),
     Or_Body = Hc_Body config, Or_Limit = limit_of (Hc_Timeout config)\<rparr>"

definition http_judged :: "http_answer \<Rightarrow> Response" where
  "http_judged answer =
    (case An_Content answer of
       Inl err \<Rightarrow> not_read (An_Status answer) err
     | Inr content \<Rightarrow>
         if An_Status answer \<ge> 400 then (whole_answer answer content)\<lparr>Resp_Class := ErrStatus, Resp_Detail := status_detail (An_Status answer)\<rparr>
         else whole_answer answer content)"

text \<open>\<open>sprint\<close> lays a sentence out; \<open>new_request\<close> is the error of \<open>http.NewRequestWithContext\<close>, if any; \<open>as_config\<close> is the type assertion.\<close>

definition http_Execute :: "(sentence \<Rightarrow> string) \<Rightarrow> 'u urls \<Rightarrow> (http_order \<Rightarrow> string option) \<Rightarrow> 'w http_client \<Rightarrow> ('c \<Rightarrow> http_Config option) \<Rightarrow>
    'c Request \<Rightarrow> 'w \<Rightarrow> Response \<times> 'w" where
  "http_Execute sprint urls new_request client as_config request w =
    (case as_config (Req_Config request) of
       None \<Rightarrow> (refused ''the configuration is not an http one'', w)
     | Some config \<Rightarrow>
         case BuildURL urls (Req_URLBase request) (Hc_Path config) of
           Inl err \<Rightarrow> (refused (sprint err), w)
         | Inr address \<Rightarrow>
             case new_request (http_order config address) of
               Some err \<Rightarrow> (refused err, w)
             | None \<Rightarrow>
                 (case client (http_order config address) w of
                    (Inl err, w) \<Rightarrow> (not_sent err, w)
                  | (Inr answer, w) \<Rightarrow> (http_judged answer, w)))"

section \<open>The graphql step\<close>

record graphql_Config =
  Gc_Operation :: string
  Gc_Kind :: string
  Gc_Query :: string
  Gc_Vars :: string
  Gc_Path :: string
  Gc_Headers :: "(string, string) gomap"
  Gc_Timeout :: Duration

definition defaultPath :: string where "defaultPath = ''/graphql''"

definition graphql_Default :: graphql_Config where
  "graphql_Default = \<lparr>Gc_Operation = '''', Gc_Kind = '''', Gc_Query = '''', Gc_Vars = ''{}'', Gc_Path = defaultPath, Gc_Headers = [], Gc_Timeout = 0\<rparr>"

definition graphql_AggregationKey :: "graphql_Config \<Rightarrow> string" where
  "graphql_AggregationKey config = ''graphql '' @ Gc_Operation config"

definition graphql_Resolve :: "graphql_Config \<Rightarrow> graphql_Config resolution" where
  "graphql_Resolve config =
    Asks (Gc_Vars config) (\<lambda>vars. Asks (Gc_Path config) (\<lambda>path. resolve_each (Gc_Headers config) (\<lambda>headers.
      Resolved (config\<lparr>Gc_Vars := vars, Gc_Path := path, Gc_Headers := headers\<rparr>))))"

definition graphql_WithHeader :: "graphql_Config \<Rightarrow> string \<Rightarrow> string \<Rightarrow> graphql_Config" where
  "graphql_WithHeader config name val = config\<lparr>Gc_Headers := with_header (Gc_Headers config) name val\<rparr>"

definition cut_at :: "nat \<Rightarrow> string \<Rightarrow> string" where
  "cut_at limit text = (if length text > limit then take limit text @ ellipsis else text)"

definition one_line :: "string \<Rightarrow> string" where "one_line text = Join (Fields text) '' ''"

definition summarizeQuery :: "string \<Rightarrow> string" where "summarizeQuery query = cut_at 160 (one_line query)"

definition summarize :: "string \<Rightarrow> string" where "summarize text = cut_at 140 (one_line text)"

definition graphql_Describe :: "graphql_Config \<Rightarrow> sentence list" where
  "graphql_Describe config =
    [Sprintf ''%s %s em POST %s'' [ArgS (Gc_Kind config), ArgS (Gc_Operation config), ArgS (Gc_Path config)]]
    @ described_headers (Gc_Headers config)
    @ (if Gc_Vars config \<noteq> '''' \<and> Gc_Vars config \<noteq> ''{}'' then [Plain (''variables: '' @ Gc_Vars config)] else [])
    @ [Plain (''query: '' @ summarizeQuery (Gc_Query config))]"

text \<open>\<open>\b(query|mutation|subscription)\s+([A-Za-z_][A-Za-z0-9_]*)\<close>, the leftmost match; \<open>before\<close> is the character before.\<close>

definition word_char :: "char \<Rightarrow> bool" where "word_char c \<longleftrightarrow> name_start c \<or> is_digit c"

fun operation_after :: "string list \<Rightarrow> string \<Rightarrow> (string \<times> string) option" where
  "operation_after [] s = None"
| "operation_after (kind # kinds) s =
    (let rest = drop (length kind) s; name = dropWhile regexp_space rest
     in if HasPrefix s kind \<and> rest \<noteq> [] \<and> regexp_space (hd rest) \<and> name \<noteq> [] \<and> name_start (hd name)
        then Some (kind, takeWhile word_char name) else operation_after kinds s)"

fun find_operation :: "bool \<Rightarrow> string \<Rightarrow> (string \<times> string) option" where
  "find_operation after_word [] = None"
| "find_operation after_word (c # s) =
    (case (if after_word then None else operation_after [''query'', ''mutation'', ''subscription''] (c # s)) of
       Some found \<Rightarrow> Some found
     | None \<Rightarrow> find_operation (word_char c) s)"

definition graphql_Finish :: "graphql_Config \<Rightarrow> sentence + graphql_Config" where
  "graphql_Finish config =
    (if TrimSpace (Gc_Query config) = '''' then Inl (Plain (''graphql step with no query, like this:'' @ nl @ ''  - graphql: |'' @ nl @ ''      query LookUpOrder($id: ID!) { order(id: $id) { status } }''))
     else let config = (case find_operation False (Gc_Query config) of
             None \<Rightarrow> config
           | Some (kind, name) \<Rightarrow> config\<lparr>Gc_Kind := kind, Gc_Operation := (if Gc_Operation config = '''' then name else Gc_Operation config)\<rparr>);
         config = (if Gc_Kind config = '''' then config\<lparr>Gc_Kind := ''query''\<rparr> else config)
     in if Gc_Operation config = '''' then Inl (Plain (''a graphql operation needs a name: it is the name that becomes the report line.'' @ nl @ ''Without one, every operation would fall on the same line and the most expensive would hide in the average.'' @ nl @ ''  - graphql: |'' @ nl @ ''      query LookUpOrder($id: ID!) { order(id: $id) { status } }''))
        else Inr (if Gc_Path config = '''' then config\<lparr>Gc_Path := defaultPath\<rparr> else config))"

definition read_graphql_vars :: "json_tools \<Rightarrow> yaml_node \<Rightarrow> sentence + string" where
  "read_graphql_vars tools node =
    (if Node_Kind node = ScalarNode then Inr (Node_Value node)
     else case Json_structure tools node of
         Inl (Inl err) \<Rightarrow> Inl (Sprintf ''invalid variables: %v'' [ArgS err])
       | Inl (Inr err) \<Rightarrow> Inl (Sprintf ''the variables do not serialize to JSON: %v'' [ArgS err])
       | Inr content \<Rightarrow> Inr content)"

definition read_graphql_key :: "json_tools \<Rightarrow> graphql_Config \<Rightarrow> yaml_node \<Rightarrow> yaml_node \<Rightarrow> sentence + graphql_Config" where
  "read_graphql_key tools config key val =
    (if Node_Value key = ''query'' then Inr (config\<lparr>Gc_Query := Node_Value val\<rparr>)
     else if Node_Value key = ''operation'' then Inr (config\<lparr>Gc_Operation := Node_Value val\<rparr>)
     else if Node_Value key = ''variables'' then bind_ok (read_graphql_vars tools val) (\<lambda>vars. Inr (config\<lparr>Gc_Vars := vars\<rparr>))
     else if Node_Value key \<in> {''path'', ''url''} then Inr (config\<lparr>Gc_Path := Node_Value val\<rparr>)
     else if Node_Value key = ''headers'' then bind_ok (read_headers val (Gc_Headers config)) (\<lambda>headers. Inr (config\<lparr>Gc_Headers := headers\<rparr>))
     else if Node_Value key = ''timeout'' then
       (case ParseDuration (Node_Value val) of
          None \<Rightarrow> Inl (Sprintf ''invalid timeout: %q (use 30s, 2m)'' [ArgS (Node_Value val)])
        | Some d \<Rightarrow> Inr (config\<lparr>Gc_Timeout := d\<rparr>))
     else Inl (Sprintf ''unknown key in the graphql step: %q (use query, operation, variables, path, headers or timeout)'' [ArgS (Node_Value key)]))"

definition graphql_Decode :: "json_tools \<Rightarrow> yaml_node option \<Rightarrow> sentence + graphql_Config" where
  "graphql_Decode tools node =
    (case node of
       None \<Rightarrow> Inl (Plain ''graphql step with no configuration'')
     | Some node \<Rightarrow>
         if Node_Kind node = ScalarNode then graphql_Finish (graphql_Default\<lparr>Gc_Query := Node_Value node\<rparr>)
         else if Node_Kind node \<noteq> MappingNode then Inl (Plain (''a graphql step has to be the query or a map, like this:'' @ nl @ ''  - graphql: |'' @ nl @ ''      query LookUpOrder { order(id: \"1\") { status } }''))
         else bind_ok (read_pairs (read_graphql_key tools) (node_pairs (Node_Content node)) graphql_Default) graphql_Finish)"

record graphQLError =
  Ge_Message :: string
  Ge_Path :: "string list"
  Ge_Code :: string

record responseBody =
  Rb_Data :: string
  Rb_Errors :: "graphQLError list"

definition formatPath :: "string list \<Rightarrow> string" where "formatPath path = Join path ''.''"

definition has_data :: "responseBody \<Rightarrow> bool" where
  "has_data body \<longleftrightarrow> Rb_Data body \<noteq> '''' \<and> Rb_Data body \<noteq> ''null''"

text \<open>\<open>unmarshal\<close> reads the answer; the items of a path come as \<open>fmt.Sprint\<close> prints them.\<close>

definition classifyBody :: "(string \<Rightarrow> responseBody option) \<Rightarrow> string \<Rightarrow> ErrorClass \<times> string" where
  "classifyBody unmarshal content =
    (case unmarshal content of
       None \<Rightarrow> (ErrGraphQL, ''the response is not GraphQL JSON: '' @ summarize content)
     | Some body \<Rightarrow>
         case Rb_Errors body of
           [] \<Rightarrow> if \<not> has_data body then (ErrGraphQL, ''response with neither data nor errors'') else (Success, '''')
         | first # others \<Rightarrow>
             let detail = Ge_Message first;
                 detail = (if Ge_Code first \<noteq> '''' then Ge_Code first @ '': '' @ detail else detail);
                 path = formatPath (Ge_Path first);
                 detail = (if path \<noteq> '''' then detail @ '' (at '' @ path @ '')'' else detail);
                 detail = (if others \<noteq> [] then detail @ '' (+'' @ Count (int (length others)) ''error'' ''errors'' @ '')'' else detail);
                 detail = (if has_data body then ''partial response '' @ em_dash @ '' '' @ detail else detail)
             in (ErrGraphQL, summarize detail))"

text \<open>\<open>encoding/json\<close> on the way out: whether a text is JSON, and the body with the query, the operation and the variables.\<close>

record graphql_json =
  Gj_Valid :: "string \<Rightarrow> bool"
  Gj_Marshal :: "string \<Rightarrow> string \<Rightarrow> string option \<Rightarrow> string + string"
  Gj_Unmarshal :: "string \<Rightarrow> responseBody option"

definition graphql_vars :: "graphql_json \<Rightarrow> graphql_Config \<Rightarrow> string + string option" where
  "graphql_vars json config =
    (let vars = TrimSpace (Gc_Vars config)
     in if vars = '''' \<or> vars = ''{}'' then Inr None
        else if \<not> Gj_Valid json vars then Inl (''the variables did not form valid JSON after interpolation: '' @ summarize vars)
        else Inr (Some vars))"

definition graphql_order :: "graphql_Config \<Rightarrow> string \<Rightarrow> string \<Rightarrow> http_order" where
  "graphql_order config address serialized =
    \<lparr>Or_Method = ''POST'', Or_Address = address,
     Or_Headers = foldl set_header [(''Content-Type'', ''application/json''), (''Accept'', ''application/json'')] (Gc_Headers config),
     Or_Body = serialized, Or_Limit = limit_of (Gc_Timeout config)\<rparr>"

definition graphql_judged :: "graphql_json \<Rightarrow> http_answer \<Rightarrow> Response" where
  "graphql_judged json answer =
    (case An_Content answer of
       Inl err \<Rightarrow> not_read (An_Status answer) err
     | Inr content \<Rightarrow>
         if An_Status answer \<ge> 400 then (whole_answer answer content)\<lparr>Resp_Class := ErrStatus, Resp_Detail := status_detail (An_Status answer)\<rparr>
         else case classifyBody (Gj_Unmarshal json) content of
             (class, detail) \<Rightarrow> (whole_answer answer content)\<lparr>Resp_Class := class, Resp_Detail := detail\<rparr>)"

definition graphql_Execute :: "(sentence \<Rightarrow> string) \<Rightarrow> 'u urls \<Rightarrow> graphql_json \<Rightarrow> (http_order \<Rightarrow> string option) \<Rightarrow> 'w http_client \<Rightarrow> ('c \<Rightarrow> graphql_Config option) \<Rightarrow>
    'c Request \<Rightarrow> 'w \<Rightarrow> Response \<times> 'w" where
  "graphql_Execute sprint urls json new_request client as_config request w =
    (case as_config (Req_Config request) of
       None \<Rightarrow> (refused ''the configuration is not a graphql one'', w)
     | Some config \<Rightarrow>
         case BuildURL urls (Req_URLBase request) (Gc_Path config) of
           Inl err \<Rightarrow> (refused (sprint err), w)
         | Inr address \<Rightarrow>
             case bind_ok (graphql_vars json config) (Gj_Marshal json (Gc_Query config) (Gc_Operation config)) of
               Inl err \<Rightarrow> (refused err, w)
             | Inr serialized \<Rightarrow>
                 case new_request (graphql_order config address serialized) of
                   Some err \<Rightarrow> (refused err, w)
                 | None \<Rightarrow>
                     (case client (graphql_order config address serialized) w of
                        (Inl err, w) \<Rightarrow> (not_sent err, w)
                      | (Inr answer, w) \<Rightarrow> (graphql_judged json answer, w)))"

section \<open>The sse step\<close>

record sse_Config =
  Sc_Path :: string
  Sc_Headers :: "(string, string) gomap"
  Sc_MaxMessages :: int
  Sc_Timeout :: Duration

definition sse_AggregationKey :: "sse_Config \<Rightarrow> string" where
  "sse_AggregationKey config = (if Sc_Path config = '''' then ''sse /'' else ''sse '' @ Sc_Path config)"

definition sse_Resolve :: "sse_Config \<Rightarrow> sse_Config resolution" where
  "sse_Resolve config =
    Asks (Sc_Path config) (\<lambda>path. resolve_each (Sc_Headers config) (\<lambda>headers. Resolved (config\<lparr>Sc_Path := path, Sc_Headers := headers\<rparr>)))"

definition sse_WithHeader :: "sse_Config \<Rightarrow> string \<Rightarrow> string \<Rightarrow> sse_Config" where
  "sse_WithHeader config name val = config\<lparr>Sc_Headers := with_header (Sc_Headers config) name val\<rparr>"

definition sse_Describe :: "sse_Config \<Rightarrow> sentence list" where
  "sse_Describe config =
    (let action = (if Sc_MaxMessages config > 0 then Sprintf ''read up to %d events'' [ArgD (Sc_MaxMessages config)] else Plain ''read the event stream'')
     in Sprintf ''subscribe %s, %s'' [ArgS (Sc_Path config), ArgM action] # described_headers (Sc_Headers config))"

definition sse_finish :: "sse_Config \<Rightarrow> sse_Config" where
  "sse_finish config = (if Sc_Path config = '''' then config\<lparr>Sc_Path := ''/''\<rparr> else config)"

definition read_sse_key :: "sse_Config \<Rightarrow> yaml_node \<Rightarrow> yaml_node \<Rightarrow> sentence + sse_Config" where
  "read_sse_key config key val =
    (if Node_Value key \<in> {''path'', ''url''} then Inr (config\<lparr>Sc_Path := Node_Value val\<rparr>)
     else if Node_Value key \<in> {''maxMessages'', ''max_messages''} then
       (case Atoi (TrimSpace (Node_Value val)) of
          None \<Rightarrow> Inl (Sprintf ''maxMessages has to be a whole number, got %q'' [ArgS (Node_Value val)])
        | Some n \<Rightarrow> if n < 0 then Inl (Sprintf ''maxMessages has to be a whole number, got %q'' [ArgS (Node_Value val)])
            else Inr (config\<lparr>Sc_MaxMessages := n\<rparr>))
     else if Node_Value key = ''headers'' then bind_ok (read_headers val (Sc_Headers config)) (\<lambda>headers. Inr (config\<lparr>Sc_Headers := headers\<rparr>))
     else if Node_Value key = ''timeout'' then
       (case ParseDuration (Node_Value val) of
          None \<Rightarrow> Inl (Sprintf ''invalid timeout: %q (use 30s, 2m)'' [ArgS (Node_Value val)])
        | Some d \<Rightarrow> Inr (config\<lparr>Sc_Timeout := d\<rparr>))
     else Inl (Sprintf ''unknown key in the sse step: %q (use path, maxMessages, headers or timeout)'' [ArgS (Node_Value key)]))"

definition sse_Decode :: "yaml_node option \<Rightarrow> sentence + sse_Config" where
  "sse_Decode node =
    (let config = \<lparr>Sc_Path = '''', Sc_Headers = [], Sc_MaxMessages = 0, Sc_Timeout = 0\<rparr>
     in case node of
       None \<Rightarrow> Inl (Plain ''sse step with no configuration'')
     | Some node \<Rightarrow>
         if Node_Kind node = ScalarNode then Inr (sse_finish (config\<lparr>Sc_Path := Node_Value node\<rparr>))
         else if Node_Kind node \<noteq> MappingNode then Inl (Plain (''an sse step is the path or a map, like this:'' @ nl @ ''  - sse:'' @ nl @ ''      path: /events'' @ nl @ ''      maxMessages: 20''))
         else bind_ok (read_pairs read_sse_key (node_pairs (Node_Content node)) config) (\<lambda>config. Inr (sse_finish config)))"

text \<open>What came of a stream: the bytes, and whether it ended, was cut by the deadline or the run, or broke.\<close>

datatype stream_end = StreamEnded | StreamCut | StreamBroke net_error

record sse_answer =
  Sa_Status :: int
  Sa_Text :: string
  Sa_End :: stream_end

text \<open>\<open>ReadString('\n')\<close> until there is no more: whole lines, and what is left after the last.\<close>

definition read_lines :: "string \<Rightarrow> string list" where
  "read_lines text = (let pieces = Split text nl
     in map (\<lambda>piece. piece @ nl) (butlast pieces) @ (if last pieces = '''' then [] else [last pieces]))"

definition TrimRightEnds :: "string \<Rightarrow> string" where
  "TrimRightEnds line = rev (dropWhile (\<lambda>c. c = CHR 0x0D \<or> c = CHR 0x0A) (rev line))"

text \<open>\<open>first\<close> is nil until it is set to a copy of data that is not empty: a copy of no data is nil again.\<close>

record draining =
  Dr_count :: int
  Dr_bytes :: int
  Dr_first :: string
  Dr_data :: string
  Dr_hasData :: bool

definition drain_start :: draining where
  "drain_start = \<lparr>Dr_count = 0, Dr_bytes = 0, Dr_first = '''', Dr_data = '''', Dr_hasData = False\<rparr>"

definition dispatch_event :: "draining \<Rightarrow> draining" where
  "dispatch_event d = (if Dr_hasData d then d\<lparr>Dr_count := Dr_count d + 1, Dr_bytes := Dr_bytes d + int (length (Dr_data d)),
     Dr_first := (if Dr_first d = '''' then Dr_data d else Dr_first d)\<rparr> else d)"

definition event_data :: "string \<Rightarrow> string" where
  "event_data field = TrimPrefix (TrimPrefix field ''data:'') '' ''"

fun drain_lines :: "int \<Rightarrow> string list \<Rightarrow> draining \<Rightarrow> bool \<times> draining" where
  "drain_lines maxMessages [] d = (False, d)"
| "drain_lines maxMessages (line # ls) d =
    (let field = TrimRightEnds line
     in if field = '''' then
          (let counted = dispatch_event d
           in if Dr_hasData d \<and> maxMessages > 0 \<and> Dr_count counted \<ge> maxMessages then (True, counted)
              else drain_lines maxMessages ls (counted\<lparr>Dr_data := '''', Dr_hasData := False\<rparr>))
        else if HasPrefix field '':'' then drain_lines maxMessages ls d
        else if HasPrefix field ''data:'' then drain_lines maxMessages ls (d\<lparr>Dr_hasData := True, Dr_data := Dr_data d @ event_data field\<rparr>)
        else drain_lines maxMessages ls d)"

definition drain :: "sse_answer \<Rightarrow> int \<Rightarrow> Response" where
  "drain answer maxMessages =
    (case drain_lines maxMessages (read_lines (Sa_Text answer)) drain_start of (reached, d) \<Rightarrow>
       let counted = zeroResponse\<lparr>Resp_Status := Sa_Status answer, Resp_Messages := Dr_count d, Resp_Bytes := Dr_bytes d\<rparr>
       in if reached then counted\<lparr>Resp_Body := Dr_first d\<rparr>
          else case Sa_End answer of
              StreamBroke err \<Rightarrow> counted\<lparr>Resp_Class := Classify err, Resp_Detail := SummarizeError err\<rparr>
            | _ \<Rightarrow> counted\<lparr>Resp_Body := Dr_first d\<rparr>)"

definition sse_order :: "Duration \<Rightarrow> sse_Config \<Rightarrow> string \<Rightarrow> http_order" where
  "sse_order default_timeout config address =
    \<lparr>Or_Method = ''GET'', Or_Address = address,
     Or_Headers = foldl set_header [(''Accept'', ''text/event-stream''), (''Cache-Control'', ''no-cache'')] (Sc_Headers config),
     Or_Body = '''', Or_Limit = limit_of (if Sc_Timeout config \<le> 0 then default_timeout else Sc_Timeout config)\<rparr>"

definition sse_judged :: "sse_Config \<Rightarrow> sse_answer \<Rightarrow> Response" where
  "sse_judged config answer =
    (if Sa_Status answer < 200 \<or> Sa_Status answer \<ge> 300
     then zeroResponse\<lparr>Resp_Class := ErrStatus, Resp_Status := Sa_Status answer, Resp_Detail := ''the event stream answered '' @ fmt_d (Sa_Status answer)\<rparr>
     else drain answer (Sc_MaxMessages config))"

definition sse_Execute :: "(sentence \<Rightarrow> string) \<Rightarrow> 'u urls \<Rightarrow> Duration \<Rightarrow> (http_order \<Rightarrow> string option) \<Rightarrow>
    (http_order \<Rightarrow> 'w \<Rightarrow> (net_error + sse_answer) \<times> 'w) \<Rightarrow> ('c \<Rightarrow> sse_Config option) \<Rightarrow> 'c Request \<Rightarrow> 'w \<Rightarrow> Response \<times> 'w" where
  "sse_Execute sprint urls default_timeout new_request client as_config request w =
    (case as_config (Req_Config request) of
       None \<Rightarrow> (refused ''the configuration is not an sse one'', w)
     | Some config \<Rightarrow>
         case BuildURL urls (Req_URLBase request) (Sc_Path config) of
           Inl err \<Rightarrow> (refused (sprint err), w)
         | Inr address \<Rightarrow>
             case new_request (sse_order default_timeout config address) of
               Some err \<Rightarrow> (refused err, w)
             | None \<Rightarrow>
                 (case client (sse_order default_timeout config address) w of
                    (Inl err, w) \<Rightarrow> (not_sent err, w)
                  | (Inr answer, w) \<Rightarrow> (sse_judged config answer, w)))"

section \<open>What a protocol over HTTP promises\<close>

text \<open>The executor looks at the checks of a step only when the protocol calls the answer a success.\<close>

locale web_protocol =
  fixes execute :: "'c Request \<Rightarrow> 'w \<Rightarrow> Response \<times> 'w"
  assumes success_has_no_error_status: "execute request w = (response, w') \<Longrightarrow> Resp_Class response = Success \<Longrightarrow> Resp_Status response < 400"
    and nothing_negative: "execute request w = (response, w') \<Longrightarrow> 0 \<le> Resp_Bytes response \<and> 0 \<le> Resp_Messages response"
begin

lemma error_status_fails: "execute request w = (response, w') \<Longrightarrow> Resp_Status response \<ge> 400 \<Longrightarrow> Resp_Class response \<noteq> Success"
  using success_has_no_error_status by fastforce

lemma expected_error_status_fails:
  assumes "execute request w = (response, w')" and "c \<in> set (Step_Checks step)" and "Check_Kind c = CheckStatus" and "Check_Status c \<ge> 400"
  shows "fst (judge host step response v s) \<noteq> Success"
proof (cases "Resp_Class response = Success")
  case True
  then have "\<not> check_holds response c" using success_has_no_error_status[OF assms(1)] assms(3,4) by (simp add: check_holds_def)
  then have "first_check_failure (Step_Checks step) response \<noteq> None" using assms(2) first_check_failure_None by blast
  then show ?thesis using True first_check_failure_class[of "Step_Checks step" response]
    by (auto simp: judge_def check_def split: option.splits prod.splits)
qed (simp add: judge_def)

end

lemma Classify_fails [simp]: "Classify err \<noteq> Success"
  by (simp add: Classify_def)

lemma zeroResponse_nothing [simp]: "Resp_Bytes zeroResponse = 0" "Resp_Messages zeroResponse = 0" "Resp_Class zeroResponse = Success" "Resp_Status zeroResponse = 0"
  by (simp_all add: zeroResponse_def)

lemmas answer_defs = refused_def not_sent_def not_read_def whole_answer_def

interpretation http: web_protocol "http_Execute sprint urls new_request client as_config"
  by unfold_locales (auto simp: http_Execute_def http_judged_def answer_defs split: option.splits sum.splits prod.splits if_splits)

lemma classifyBody_class: "fst (classifyBody unmarshal content) = Success \<longleftrightarrow>
    (\<exists>body. unmarshal content = Some body \<and> Rb_Errors body = [] \<and> has_data body)"
  by (auto simp: classifyBody_def Let_def split: option.splits list.splits if_splits)

interpretation graphql: web_protocol "graphql_Execute sprint urls json new_request client as_config"
  by unfold_locales (auto simp: graphql_Execute_def graphql_judged_def answer_defs split: option.splits sum.splits prod.splits if_splits)

section \<open>A stream is counted as its blocks are\<close>

text \<open>The events of a stream: the blocks that a blank line ends and that carry data, each with the data of its lines.\<close>

definition blank_line :: "string \<Rightarrow> bool" where "blank_line line \<longleftrightarrow> TrimRightEnds line = ''''"

definition data_line :: "string \<Rightarrow> bool" where "data_line line \<longleftrightarrow> HasPrefix (TrimRightEnds line) ''data:''"

definition block_data :: "string list \<Rightarrow> string" where
  "block_data block = concat (map (\<lambda>line. event_data (TrimRightEnds line)) (filter data_line block))"

fun stream_events :: "string list \<Rightarrow> string list \<Rightarrow> string list" where
  "stream_events block [] = []"
| "stream_events block (line # ls) =
    (if blank_line line then (if filter data_line block = [] then [] else [block_data block]) @ stream_events [] ls
     else stream_events (block @ [line]) ls)"

definition first_said :: "string list \<Rightarrow> string" where
  "first_said events = (case filter (\<lambda>e. e \<noteq> '''') events of [] \<Rightarrow> '''' | e # _ \<Rightarrow> e)"

definition counts :: "string list \<Rightarrow> draining \<Rightarrow> bool" where
  "counts events d \<longleftrightarrow> Dr_count d = int (length events) \<and> Dr_bytes d = int (length (concat events)) \<and> Dr_first d = first_said events"

definition holds_block :: "string list \<Rightarrow> draining \<Rightarrow> bool" where
  "holds_block block d \<longleftrightarrow> Dr_data d = block_data block \<and> (Dr_hasData d \<longleftrightarrow> filter data_line block \<noteq> [])"

lemma counts_block [simp]: "counts events (d\<lparr>Dr_data := x, Dr_hasData := b\<rparr>) \<longleftrightarrow> counts events d"
  "counts events (d\<lparr>Dr_hasData := b, Dr_data := x\<rparr>) \<longleftrightarrow> counts events d"
  by (simp_all add: counts_def)

lemma holds_no_block [simp]: "holds_block [] (d\<lparr>Dr_data := '''', Dr_hasData := False\<rparr>)"
  by (simp add: holds_block_def block_data_def)

lemma counts_dispatch: "counts events d \<Longrightarrow> Dr_hasData d \<Longrightarrow> counts (events @ [Dr_data d]) (dispatch_event d)"
  by (auto simp: counts_def dispatch_event_def first_said_def dest: filter_eq_ConsD split: list.splits)

lemma drain_lines_counts:
  assumes "counts told d" and "holds_block block d" and "maxMessages > 0 \<longrightarrow> int (length told) < maxMessages"
  shows "case drain_lines maxMessages ls d of (reached, d') \<Rightarrow>
      let events = told @ stream_events block ls
      in (reached \<longleftrightarrow> maxMessages > 0 \<and> maxMessages \<le> int (length events))
       \<and> counts (if reached then take (nat maxMessages) events else events) d'"
  using assms
proof (induction maxMessages ls d arbitrary: told block rule: drain_lines.induct)
  case (1 maxMessages d)
  then show ?case by auto
next
  case (2 maxMessages line ls d)
  let ?field = "TrimRightEnds line" and ?cleared = "(dispatch_event d)\<lparr>Dr_data := '''', Dr_hasData := False\<rparr>"
  show ?case
  proof (cases "?field = ''''")
    case True
    then have blank: "blank_line line" by (simp add: blank_line_def)
    have later: "case drain_lines maxMessages ls ?cleared of (reached, d') \<Rightarrow>
        let events = told1 @ stream_events [] ls
        in (reached \<longleftrightarrow> maxMessages > 0 \<and> maxMessages \<le> int (length events))
         \<and> counts (if reached then take (nat maxMessages) events else events) d'"
      if "\<not> (Dr_hasData d \<and> maxMessages > 0 \<and> Dr_count (dispatch_event d) \<ge> maxMessages)" "counts told1 (dispatch_event d)"
        "maxMessages > 0 \<longrightarrow> int (length told1) < maxMessages" for told1
      by (rule 2(1)[OF refl True refl that(1)]) (use that in simp_all)
    show ?thesis
    proof (cases "Dr_hasData d")
      case False
      then have same: "dispatch_event d = d" and none: "filter data_line block = []" using 2(6) by (simp_all add: dispatch_event_def holds_block_def)
      then have "drain_lines maxMessages (line # ls) d = drain_lines maxMessages ls ?cleared" using True False by (simp add: Let_def)
      moreover have "stream_events block (line # ls) = stream_events [] ls" using blank none by simp
      ultimately show ?thesis using later[of told] False 2(5,7) same by simp
    next
      case has: True
      have data: "Dr_data d = block_data block" "filter data_line block \<noteq> []" using 2(6) has by (simp_all add: holds_block_def)
      have counted: "counts (told @ [block_data block]) (dispatch_event d)" using counts_dispatch[OF 2(5) has] data by simp
      have events: "told @ stream_events block (line # ls) = (told @ [block_data block]) @ stream_events [] ls" using blank data by simp
      have size: "Dr_count (dispatch_event d) = int (length told) + 1" using counted by (simp add: counts_def)
      show ?thesis
      proof (cases "maxMessages > 0 \<and> Dr_count (dispatch_event d) \<ge> maxMessages")
        case reached: True
        then have exact: "maxMessages = int (length (told @ [block_data block]))" using size 2(7) by simp
        have "drain_lines maxMessages (line # ls) d = (True, dispatch_event d)" using True has reached by (simp add: Let_def)
        moreover have "take (nat maxMessages) ((told @ [block_data block]) @ stream_events [] ls) = told @ [block_data block]"
          unfolding exact nat_int by simp
        ultimately show ?thesis unfolding events using counted reached exact by (simp add: Let_def)
      next
        case False
        then have "drain_lines maxMessages (line # ls) d = drain_lines maxMessages ls ?cleared" using True has by (auto simp: Let_def)
        moreover have "maxMessages > 0 \<longrightarrow> int (length (told @ [block_data block])) < maxMessages" using False size by auto
        ultimately show ?thesis unfolding events using later[of "told @ [block_data block]"] False counted by simp
      qed
    qed
  next
    case nonblank: False
    then have events: "stream_events block (line # ls) = stream_events (block @ [line]) ls" by (simp add: blank_line_def)
    consider (comment) "HasPrefix ?field '':''" | (data) "\<not> HasPrefix ?field '':''" "HasPrefix ?field ''data:''" | (other) "\<not> HasPrefix ?field '':''" "\<not> HasPrefix ?field ''data:''"
      by blast
    then show ?thesis
    proof cases
      case comment
      then have "\<not> data_line line" by (auto simp: data_line_def HasPrefix_iff)
      then have "holds_block (block @ [line]) d" using 2(6) by (simp add: holds_block_def block_data_def)
      with 2(2)[OF refl nonblank comment 2(5) this 2(7)] nonblank comment show ?thesis unfolding events by simp
    next
      case data
      then have "data_line line" by (simp add: data_line_def)
      then have "holds_block (block @ [line]) (d\<lparr>Dr_hasData := True, Dr_data := Dr_data d @ event_data ?field\<rparr>)"
        using 2(6) by (simp add: holds_block_def block_data_def)
      with 2(3)[OF refl nonblank data, of told "block @ [line]"] 2(5,7) nonblank data show ?thesis unfolding events by simp
    next
      case other
      then have "\<not> data_line line" by (simp add: data_line_def)
      then have "holds_block (block @ [line]) d" using 2(6) by (simp add: holds_block_def block_data_def)
      with 2(4)[OF refl nonblank other 2(5) this 2(7)] nonblank other show ?thesis unfolding events by simp
    qed
  qed
qed

lemma drain_start_counts: "counts [] drain_start" "holds_block [] drain_start"
  by (simp_all add: counts_def holds_block_def drain_start_def first_said_def block_data_def)

lemma drain_nothing_negative: "0 \<le> Resp_Bytes (drain answer maxMessages) \<and> 0 \<le> Resp_Messages (drain answer maxMessages)"
  using drain_lines_counts[OF drain_start_counts, of maxMessages "read_lines (Sa_Text answer)"]
  by (auto simp: drain_def counts_def Let_def split: prod.splits stream_end.splits if_splits)

lemma drain_status [simp]: "Resp_Status (drain answer maxMessages) = Sa_Status answer"
  by (auto simp: drain_def Let_def split: prod.splits stream_end.splits)

interpretation sse: web_protocol "sse_Execute sprint urls default_timeout new_request client as_config"
  by unfold_locales (auto simp: sse_Execute_def sse_judged_def refused_def not_sent_def drain_nothing_negative split: option.splits sum.splits prod.splits if_splits)

section \<open>Properties\<close>


text \<open>A GraphQL answer. An operation whose answer arrived is a success exactly when the status is not an error, and the body is a GraphQL
  answer with data and without errors, whatever HTTP said.\<close>

theorem graphql_success_iff:
  assumes "as_config (Req_Config request) = Some config" and "BuildURL urls (Req_URLBase request) (Gc_Path config) = Inr address"
    and "bind_ok (graphql_vars json config) (Gj_Marshal json (Gc_Query config) (Gc_Operation config)) = Inr serialized"
    and "new_request (graphql_order config address serialized) = None"
    and "client (graphql_order config address serialized) w = (Inr answer, w')" and "An_Content answer = Inr content"
  shows "Resp_Class (fst (graphql_Execute sprint urls json new_request client as_config request w)) = Success \<longleftrightarrow>
    An_Status answer < 400 \<and> (\<exists>body. Gj_Unmarshal json content = Some body \<and> Rb_Errors body = [] \<and> has_data body)"
proof -
  obtain kind detail where body: "classifyBody (Gj_Unmarshal json) content = (kind, detail)" by fastforce
  have "Resp_Class (graphql_judged json answer) = Success \<longleftrightarrow> An_Status answer < 400 \<and> kind = Success"
    using assms(6) body by (simp add: graphql_judged_def)
  moreover have "fst (graphql_Execute sprint urls json new_request client as_config request w) = graphql_judged json answer"
    using assms(1-5) by (simp add: graphql_Execute_def del: bind_ok_Inr)
  ultimately show ?thesis using classifyBody_class[of "Gj_Unmarshal json" content] body by simp
qed

text \<open>C27. A stream of events. What the step counts is the events of the stream, up to the maximum it was given: their number, the bytes of
  their data, and the first that carries any.\<close>

theorem drain_counts_events:
  "let events = stream_events [] (read_lines (Sa_Text answer));
       reached = (maxMessages > 0 \<and> maxMessages \<le> int (length events));
       seen = (if reached then take (nat maxMessages) events else events);
       response = drain answer maxMessages
   in Resp_Messages response = int (length seen) \<and> Resp_Bytes response = int (length (concat seen))
    \<and> Resp_Class response = (if reached then Success else case Sa_End answer of StreamBroke err \<Rightarrow> Classify err | _ \<Rightarrow> Success)
    \<and> Resp_Body response = (if Resp_Class response = Success then first_said seen else '''')"
proof -
  have empty: "Resp_Body zeroResponse = ''''" by (simp add: zeroResponse_def)
  show ?thesis
    using drain_lines_counts[OF drain_start_counts, of maxMessages "read_lines (Sa_Text answer)"]
    by (auto simp: drain_def counts_def Let_def empty split: prod.splits stream_end.splits)
qed

text \<open>Headers. What a step declares, and what the credential manager adds, is in the order that goes out, over what the body implies,
  as long as no two names are one name on the wire.\<close>

lemma set_header_pair: "set_header headers (name, val) = gput headers (CanonicalHeaderKey name) val"
  by (simp add: set_header_def)

lemma foldl_set_header_other: "name \<notin> (CanonicalHeaderKey \<circ> fst) ` set headers \<Longrightarrow> gget (foldl set_header start headers) name = gget start name"
  by (induction headers arbitrary: start) (auto simp: set_header_def gget_gput split: prod.splits)

lemma foldl_set_header_declared:
  "distinct (map (CanonicalHeaderKey \<circ> fst) headers) \<Longrightarrow> (name, val) \<in> set headers \<Longrightarrow>
     gget (foldl set_header start headers) (CanonicalHeaderKey name) = Some val"
proof (induction headers arbitrary: start)
  case (Cons header headers)
  show ?case
  proof (cases "(name, val) \<in> set headers")
    case False
    then have "header = (name, val)" using Cons.prems by auto
    moreover have "CanonicalHeaderKey name \<notin> (CanonicalHeaderKey \<circ> fst) ` set headers" using Cons.prems(1) calculation by simp
    ultimately show ?thesis using foldl_set_header_other[of "CanonicalHeaderKey name" headers] by (simp add: set_header_pair gget_gput)
  qed (use Cons in auto)
qed simp

theorem declared_headers_are_sent:
  assumes "distinct (map (CanonicalHeaderKey \<circ> fst) (Hc_Headers config))" and "(name, val) \<in> set (Hc_Headers config)"
  shows "gget (Or_Headers (http_order config address)) (CanonicalHeaderKey name) = Some val"
  using foldl_set_header_declared[OF assms] by (simp add: http_order_def)

section \<open>What the code gets wrong\<close>

lemma followRedirects_is_ignored:
  "http_Execute sprint urls new_request client (\<lambda>c. map_option (\<lambda>config. config\<lparr>Hc_FollowRedirects := follow\<rparr>) (as_config c)) request w
   = http_Execute sprint urls new_request client as_config request w"
proof -
  have "http_order (config\<lparr>Hc_FollowRedirects := follow\<rparr>) address = http_order config address" for config address by (simp add: http_order_def)
  then show ?thesis by (simp add: http_Execute_def split: option.split sum.split)
qed

lemma sse_key_shows_the_query:
  "sse_AggregationKey \<lparr>Sc_Path = ''/events?token=abcdefghijkl'', Sc_Headers = [], Sc_MaxMessages = 0, Sc_Timeout = 0\<rparr> = ''sse /events?token=abcdefghijkl''"
  "http_AggregationKey (http_Default\<lparr>Hc_Path := ''/events?token=abcdefghijkl''\<rparr>) = ''GET /events?token=abcdef'' @ ellipsis @ '' (12 characters)''"
  by code_simp+

lemma comment_names_the_operation:
  "find_operation False (''# query the orders'' @ nl @ ''query LookUpOrder { order { status } }'') = Some (''query'', ''the'')"
  by code_simp

lemma empty_first_event_is_skipped:
  "drain \<lparr>Sa_Status = 200, Sa_Text = ''data:'' @ nl @ nl @ ''data: x'' @ nl @ nl, Sa_End = StreamEnded\<rparr> 0
   = zeroResponse\<lparr>Resp_Status := 200, Resp_Messages := 2, Resp_Bytes := 1, Resp_Body := ''x''\<rparr>"
  by code_simp

lemma order_of_the_map_decides:
  "gget (Or_Headers (http_order (http_Default\<lparr>Hc_Headers := [(''authorization'', ''a''), (''Authorization'', ''b'')]\<rparr>) ''u'')) ''Authorization'' = Some ''b''"
  "gget (Or_Headers (http_order (http_Default\<lparr>Hc_Headers := [(''Authorization'', ''b''), (''authorization'', ''a'')]\<rparr>) ''u'')) ''Authorization'' = Some ''a''"
  by code_simp+

section \<open>Examples\<close>

definition example_urls :: "unit urls" where
  "example_urls = \<lparr>Url_Parse = (\<lambda>address. None), Url_Resolve = (\<lambda>base relative. '''')\<rparr>"

definition answering :: "int \<Rightarrow> string \<Rightarrow> unit http_client" where
  "answering status content order w = (Inr \<lparr>An_Status = status, An_Headers = [], An_Content = Inr content\<rparr>, w)"

definition asking :: "'c \<Rightarrow> 'c Request" where
  "asking config = \<lparr>Req_StepName = ''s'', Req_Config = config, Req_URLBase = '''', Req_Vars = [], Req_Messaging = None\<rparr>"

definition expects_404 :: "http_Config Step" where
  "expects_404 = \<lparr>Step_Name = ''s'', Step_Protocol = ''http'', Step_Config = None, Step_Weight = 0,
     Step_Checks = [\<lparr>Check_Kind = CheckStatus, Check_Status = 404, Check_Text = ''''\<rparr>], Step_Captures = [], Step_Assertions = []\<rparr>"


definition example_graphql_json :: graphql_json where
  "example_graphql_json = \<lparr>Gj_Valid = (\<lambda>_. True), Gj_Marshal = (\<lambda>query operation vars. Inr query),
     Gj_Unmarshal = (\<lambda>content. if content = ''ok'' then Some \<lparr>Rb_Data = ''{}'', Rb_Errors = []\<rparr>
       else Some \<lparr>Rb_Data = ''null'', Rb_Errors = [\<lparr>Ge_Message = ''no'', Ge_Path = [], Ge_Code = ''''\<rparr>]\<rparr>)\<rparr>"

definition example_operation :: graphql_Config where
  "example_operation = graphql_Default\<lparr>Gc_Query := ''query Q { a }'', Gc_Operation := ''Q'', Gc_Path := ''http://a/graphql''\<rparr>"

theorem graphql_success_iff_witness:
  "Resp_Class (fst (graphql_Execute (\<lambda>_. '''') example_urls example_graphql_json (\<lambda>_. None) (answering 200 ''ok'') Some (asking example_operation) ())) = Success
   \<and> Resp_Class (fst (graphql_Execute (\<lambda>_. '''') example_urls example_graphql_json (\<lambda>_. None) (answering 200 ''failed'') Some (asking example_operation) ())) \<noteq> Success"
proof -
  have judged: "Resp_Class (fst (graphql_Execute (\<lambda>_. '''') example_urls example_graphql_json (\<lambda>_. None) (answering 200 content) Some (asking example_operation) ())) = Success
      \<longleftrightarrow> (200 :: int) < 400 \<and> (\<exists>body. Gj_Unmarshal example_graphql_json content = Some body \<and> Rb_Errors body = [] \<and> has_data body)" for content
    by (subst graphql_success_iff[where config = example_operation and address = "''http://a/graphql''" and serialized = "''query Q { a }''" and w' = "()"
          and answer = "\<lparr>An_Status = 200, An_Headers = [], An_Content = Inr content\<rparr>" and content = content])
      (simp_all add: asking_def BuildURL_def example_operation_def HasPrefix_def graphql_vars_def graphql_Default_def TrimSpace_def space_char_def
        example_graphql_json_def answering_def)
  show ?thesis unfolding judged by (simp add: example_graphql_json_def has_data_def)
qed

theorem declared_headers_are_sent_witness:
  "gget (Or_Headers (http_order (http_WithHeader (http_Default\<lparr>Hc_ContentType := ''text/plain''\<rparr>) ''content-type'' ''text/csv'') ''u'')) ''Content-Type'' = Some ''text/csv''"
proof -
  have "CanonicalHeaderKey ''content-type'' = ''Content-Type''" by code_simp
  with declared_headers_are_sent[of "http_WithHeader (http_Default\<lparr>Hc_ContentType := ''text/plain''\<rparr>) ''content-type'' ''text/csv''" "''content-type''" "''text/csv''"]
  show ?thesis by (simp add: http_WithHeader_def with_header_def http_Default_def)
qed

end
