(* ===== verification/Importer.thy ===== *)
theory Importer
  imports Web
begin

text \<open>
  The importers (\<open>internal/importer\<close>): a curl command (\<open>curl.go\<close>) and the log of a browser (\<open>har.go\<close>) become a script, and one
  writer makes the file (\<open>render.go\<close>), which takes the credentials out. \<open>net/url\<close> and \<open>encoding/json\<close> are arguments. A map of Go is
  visited in the order of its association list. Letters, digits and spaces are those of ASCII. Proved: a command is split
  as the shell that quoted it meant, the file does not depend on the credentials of the headers and cookies, and every request of a log is a
  step or is counted as left out. What the code gets wrong is proved at the end.
\<close>

section \<open>Scripts\<close>

record ImportedCapture =
  Ic_Variable :: string
  Ic_Expression :: string
  Ic_Suggested :: bool

record ImportedGraphQL =
  Ig_Operation :: string
  Ig_Query :: string
  Ig_Variables :: string
  Ig_Path :: string

record ImportedStep =
  Is_Name :: string
  Is_Method :: string
  Is_Path :: string
  Is_Headers :: "(string, string) gomap"
  Is_Body :: string
  Is_FollowRedirects :: bool
  Is_ExpectedStatus :: int
  Is_Captures :: "ImportedCapture list"
  Is_GraphQL :: "ImportedGraphQL option"

record ImportedSource =
  Io_Name :: string
  Io_File :: string
  Io_Consume :: string

record Script =
  Sp_Name :: string
  Sp_Target :: string
  Sp_Data :: "ImportedSource list"
  Sp_Steps :: "ImportedStep list"
  Sp_Phases :: "string list"
  Sp_Warnings :: "string list"

record Import =
  Im_YAML :: string
  Im_Warnings :: "string list"

section \<open>Names\<close>

definition digits_in :: "string \<Rightarrow> nat" where "digits_in part = length (filter is_digit part)"

definition LooksLikeIdentifier :: "string \<Rightarrow> bool" where
  "LooksLikeIdentifier part \<longleftrightarrow> digits_in part \<ge> 3 \<or> length part \<ge> 16"

definition looksLikeVersion :: "string \<Rightarrow> bool" where
  "looksLikeVersion part \<longleftrightarrow> length part \<ge> 2 \<and> (hd part = CHR ''v'' \<or> hd part = CHR ''V'') \<and> list_all is_digit (tl part)"

definition before_query :: "string \<Rightarrow> string" where "before_query path = fst (Cut path ''?'')"

definition hasIdentifier :: "string \<Rightarrow> bool" where
  "hasIdentifier path \<longleftrightarrow> (\<exists>part \<in> set (Split (before_query path) ''/''). part \<noteq> '''' \<and> LooksLikeIdentifier part)"

definition Resource :: "string \<Rightarrow> string" where
  "Resource path =
    (case filter (\<lambda>part. \<not> (part = '''' \<or> LooksLikeIdentifier part \<or> looksLikeVersion part)) (Split (before_query path) ''/'') of
       [] \<Rightarrow> ''raiz''
     | parts \<Rightarrow> Join parts '' '')"

definition trim_underscores :: "string \<Rightarrow> string" where
  "trim_underscores s = rev (dropWhile (\<lambda>c. c = CHR ''_'') (rev (dropWhile (\<lambda>c. c = CHR ''_'') s)))"

definition plain_char :: "char \<Rightarrow> bool" where
  "plain_char c \<longleftrightarrow> CHR ''a'' \<le> c \<and> c \<le> CHR ''z'' \<or> CHR ''0'' \<le> c \<and> c \<le> CHR ''9''"

definition sanitizeName :: "string \<Rightarrow> string" where
  "sanitizeName text = trim_underscores (map (\<lambda>c. if plain_char c then c else CHR ''_'') (ToLower text))"

section \<open>Taking credentials out\<close>

definition reference_to :: "string \<Rightarrow> string" where "reference_to name = ''${'' @ name @ ''}''"

definition secretHeaders :: "(string, string) gomap" where
  "secretHeaders = [(''authorization'', ''TOKEN''), (''x-api-key'', ''API_KEY''), (''api-key'', ''API_KEY'')]"

definition secretFields :: "(string, string) gomap" where
  "secretFields = [(''senha'', ''PASSWORD''), (''password'', ''PASSWORD''), (''pwd'', ''PASSWORD''), (''passwd'', ''PASSWORD''),
     (''secret'', ''SECRET''), (''client_secret'', ''SECRET''), (''clientsecret'', ''SECRET''),
     (''token'', ''TOKEN''), (''access_token'', ''TOKEN''), (''refresh_token'', ''TOKEN''),
     (''apikey'', ''API_KEY''), (''api_key'', ''API_KEY''), (''authorization'', ''TOKEN'')]"

text \<open>A variable is announced the first time it is needed.\<close>

definition announce :: "string \<Rightarrow> string \<Rightarrow> string \<Rightarrow> (string, string) gomap \<Rightarrow> (string, string) gomap \<times> string list" where
  "announce local environment notice vars =
    (if gget vars local = None then (gput vars local environment, [notice]) else (vars, []))"

definition mask_cookie_pair :: "string \<Rightarrow> (string, string) gomap \<Rightarrow> string \<times> (string, string) gomap \<times> string list" where
  "mask_cookie_pair pair vars =
    (let pair = TrimSpace pair
     in case Cut pair ''='' of (name, val, found) \<Rightarrow>
       if \<not> found \<or> HasPrefix val ''${'' then (pair, vars, [])
       else let local = ''cookie_'' @ ToLower (sanitizeName name); environment = ToUpper local
         in case announce local environment
             (''the cookie '' @ Quote name @ '' was not born in any recorded response and became '' @ reference_to local @ '': run with '' @ environment
                @ ''=... in the environment, so a session does not get versioned'') vars of
           (vars, notices) \<Rightarrow> (name @ ''='' @ reference_to local, vars, notices))"

fun mask_each :: "('a \<Rightarrow> 'v \<Rightarrow> 'b \<times> 'v \<times> string list) \<Rightarrow> 'a list \<Rightarrow> 'v \<Rightarrow> 'b list \<times> 'v \<times> string list" where
  "mask_each take_out [] vars = ([], vars, [])"
| "mask_each take_out (x # xs) vars =
    (case take_out x vars of (y, vars, notices) \<Rightarrow>
       case mask_each take_out xs vars of (ys, vars, further) \<Rightarrow> (y # ys, vars, notices @ further))"

definition maskCookies :: "string \<Rightarrow> (string, string) gomap \<Rightarrow> string \<times> (string, string) gomap \<times> string list" where
  "maskCookies header vars =
    (case mask_each mask_cookie_pair (Split header '';'') vars of (pairs, vars, notices) \<Rightarrow> (Join pairs ''; '', vars, notices))"

definition credentialPrefix :: "string \<Rightarrow> string" where
  "credentialPrefix val =
    (case Cut val '' '' of (first, rest, found) \<Rightarrow> if found \<and> \<not> Contains first ''='' then first @ '' '' else '''')"

definition alreadyInterpolated :: "string \<Rightarrow> bool" where
  "alreadyInterpolated val =
    (let rest = TrimSpace val; prefix = credentialPrefix rest;
         rest = (if prefix \<noteq> '''' then TrimSpace (TrimPrefix rest prefix) else rest)
     in HasPrefix rest ''${'' \<and> HasSuffix rest ''}'')"

definition mask_header :: "string \<times> string \<Rightarrow> (string, string) gomap \<Rightarrow> (string \<times> string) \<times> (string, string) gomap \<times> string list" where
  "mask_header header vars =
    (case header of (name, val) \<Rightarrow>
       if EqualFold name ''Cookie'' then
         (case maskCookies val vars of (masked, vars, notices) \<Rightarrow> ((name, masked), vars, notices))
       else case gget secretHeaders (ToLower name) of
           None \<Rightarrow> ((name, val), vars, [])
         | Some variable \<Rightarrow>
             if alreadyInterpolated val then ((name, val), vars, [])
             else let local = ToLower variable
               in case announce local variable
                   (''the header '' @ name @ '' became '' @ reference_to local @ '': run with '' @ variable @ ''=... in the environment, so a credential does not get versioned'') vars of
                 (vars, notices) \<Rightarrow> ((name, credentialPrefix val @ reference_to local), vars, notices))"

definition import_field_char :: "char \<Rightarrow> bool" where
  "import_field_char c \<longleftrightarrow> field_start c \<or> is_digit c \<or> c = CHR ''-''"

definition mask_field :: "string \<Rightarrow> string \<Rightarrow> string \<Rightarrow> (string, string) gomap \<Rightarrow> string \<times> (string, string) gomap \<times> string list" where
  "mask_field whole name val vars =
    (case gget secretFields (ToLower name) of
       None \<Rightarrow> (whole, vars, [])
     | Some variable \<Rightarrow>
         if val = '''' \<or> HasPrefix val ''${'' then (whole, vars, [])
         else let local = ToLower variable
           in case announce local variable
               (''the body field '' @ Quote name @ '' became '' @ reference_to local @ '': run with '' @ variable @ ''=... in the environment, so a credential does not get versioned'') vars of
             (vars, notices) \<Rightarrow> (Quote name @ '': '' @ Quote (reference_to local), vars, notices))"

function maskBody :: "string \<Rightarrow> (string, string) gomap \<Rightarrow> string \<times> (string, string) gomap \<times> string list" where
  "maskBody body vars =
    (case json_field import_field_char body of
       Some (name, val, rest) \<Rightarrow>
         (case mask_field (take (length body - length rest) body) name val vars of (text, vars, notices) \<Rightarrow>
            case maskBody rest vars of (masked, vars, further) \<Rightarrow> (text @ masked, vars, notices @ further))
     | None \<Rightarrow>
         (case body of
            [] \<Rightarrow> ([], vars, [])
          | c # cs \<Rightarrow> (case maskBody cs vars of (masked, vars, notices) \<Rightarrow> (c # masked, vars, notices))))"
  by pat_completeness auto
termination
  by (relation "measure (\<lambda>(body, vars). length body)") (auto dest: json_field_shorter)

declare maskBody.simps [simp del]

definition mask_step :: "ImportedStep \<Rightarrow> (string, string) gomap \<Rightarrow> ImportedStep \<times> (string, string) gomap \<times> string list" where
  "mask_step step vars =
    (case mask_each mask_header (Is_Headers step) vars of (headers, vars, notices) \<Rightarrow>
       case maskBody (Is_Body step) vars of (body, vars, further) \<Rightarrow> (step\<lparr>Is_Headers := headers, Is_Body := body\<rparr>, vars, notices @ further))"

section \<open>The file\<close>

definition statusOr :: "int \<Rightarrow> int" where "statusOr status = (if status = 0 then 200 else status)"

definition inlineBody :: "string \<Rightarrow> string" where
  "inlineBody body = (let clean = TrimSpace (ReplaceAll body (CHR 0x0A) '' '') in apos @ ReplaceAll clean (CHR 0x27) (apos @ apos) @ apos)"

definition reportKey :: "ImportedStep \<Rightarrow> string" where
  "reportKey step = (case Is_GraphQL step of Some graphql \<Rightarrow> ''graphql '' @ Ig_Operation graphql | None \<Rightarrow> Is_Name step)"

definition header_lines :: "(string, string) gomap \<Rightarrow> string list" where
  "header_lines headers = (if headers = [] then []
     else ''      headers:'' # map (\<lambda>name. ''        '' @ name @ '': '' @ Quote (case gget headers name of None \<Rightarrow> '''' | Some val \<Rightarrow> val)) (sort_Strings (gkeys headers)))"

definition capture_lines :: "ImportedCapture list \<Rightarrow> string list" where
  "capture_lines captures = (if captures = [] then []
     else ''    capture:'' # map (\<lambda>capture. ''      '' @ Ic_Variable capture @ '': '' @ Ic_Expression capture
       @ (if Ic_Suggested capture then (''   # the recorder'' @ apos @ ''s guess: check that this is really the value the next call needs'') else '''')) captures)"

definition step_lines :: "ImportedStep \<Rightarrow> string list" where
  "step_lines step =
    (case Is_GraphQL step of
       Some graphql \<Rightarrow>
         [''  - graphql:'', ''      query: |'']
         @ map (\<lambda>line. ''        '' @ line) (Split (TrimSpace (Ig_Query graphql)) nl)
         @ [''      variables: '' @ Ig_Variables graphql]
         @ (if Ig_Path graphql \<noteq> '''' \<and> Ig_Path graphql \<noteq> ''/graphql'' then [''      path: '' @ Ig_Path graphql] else [])
         @ header_lines (Is_Headers step)
     | None \<Rightarrow>
         if Is_Body step = '''' \<and> Is_Headers step = [] \<and> \<not> Is_FollowRedirects step
         then [''  - http: '' @ Is_Method step @ '' '' @ Is_Path step, ''    name: '' @ Is_Name step]
         else [''  - name: '' @ Is_Name step, ''    http:'', ''      method: '' @ Is_Method step, ''      path: '' @ Is_Path step]
           @ header_lines (Is_Headers step)
           @ (if Is_Body step \<noteq> '''' then [''      body: '' @ inlineBody (Is_Body step)] else [])
           @ (if Is_FollowRedirects step then [''      followRedirects: true''] else []))
    @ capture_lines (Is_Captures step)
    @ [''    expect:'', ''      status: '' @ fmt_d (statusOr (Is_ExpectedStatus step))]"

definition data_lines :: "ImportedSource list \<Rightarrow> string list" where
  "data_lines sources = (if sources = [] then []
     else ''data:'' # map (\<lambda>source. ''  '' @ Io_Name source @ '': { file: '' @ Io_File source @ '', consume: ''
       @ (if Io_Consume source = '''' then ''circular'' else Io_Consume source) @ '' }'') sources @ [''''])"

definition variable_lines :: "(string, string) gomap \<Rightarrow> string list" where
  "variable_lines vars = (if vars = [] then []
     else ''variables:'' # sort_Strings (map (\<lambda>(local, environment). ''  '' @ local @ '': '' @ reference_to environment) vars) @ [''''])"

definition default_phases :: "string list" where
  "default_phases = [''    - ramp: { from: 1/s, to: 20/s, duration: 30s }'', ''    - steady: { rate: 20/s, duration: 1m }'']"

definition RenderYAML :: "Script \<Rightarrow> Import" where
  "RenderYAML script =
    (case mask_each mask_step (Sp_Steps script) [] of (steps, vars, notices) \<Rightarrow>
       let ls = [''# yaml-language-server: $schema=https://raw.githubusercontent.com/Diegobraun/braunrate/main/docs/braunrate.schema.json'',
             ''name: '' @ Quote (Sp_Name script), ''target: ${TARGET:-'' @ Sp_Target script @ ''}'', '''']
           @ variable_lines vars @ data_lines (Sp_Data script)
           @ [''load:'', ''  profiles:''] @ (if Sp_Phases script = [] then default_phases else Sp_Phases script)
           @ ['''', ''scenario:''] @ concat (map step_lines steps)
           @ ['''', ''slo:''] @ map (\<lambda>step. ''  - '' @ reportKey step @ '': { p95: < 500ms }'') steps @ [''  - global: { errors: < 1 }'']
       in \<lparr>Im_YAML = Join ls nl @ nl,
           Im_Warnings = Sp_Warnings script @ notices @ [''the load and slo numbers are a starting guess, not a measurement: tune them before using this as a gate'']\<rparr>)"

section \<open>A curl command\<close>

definition backslash :: char where "backslash = CHR 0x5C"

definition apostrophe :: char where "apostrophe = CHR 0x27"

text \<open>The loop of \<open>split\<close>: the open quote, whether a field was begun, the field and the fields before it.\<close>

fun split_loop :: "char option \<Rightarrow> bool \<Rightarrow> string \<Rightarrow> string list \<Rightarrow> string \<Rightarrow> char option \<times> bool \<times> string \<times> string list" where
  "split_loop quote begun current found [] = (quote, begun, current, found)"
| "split_loop quote begun current found (c # rest) =
    (if c = backslash \<and> quote \<noteq> Some apostrophe then
       (case rest of
          next # rest' \<Rightarrow>
            if next = CHR 0x0A then split_loop quote begun current found rest'
            else if quote = None then split_loop quote True (current @ [next]) found rest'
            else if next = dquote \<or> next = backslash then split_loop quote True (current @ [next]) found rest'
            else split_loop quote True (current @ [c]) found rest
        | [] \<Rightarrow> split_loop quote True (current @ [c]) found [])
     else if quote \<noteq> None then
       (if quote = Some c then split_loop None begun current found rest else split_loop quote True (current @ [c]) found rest)
     else if c = apostrophe \<or> c = dquote then split_loop (Some c) True current found rest
     else if space_char c then
       (if begun then split_loop quote False [] (found @ [current]) rest else split_loop quote begun current found rest)
     else split_loop quote True (current @ [c]) found rest)"

definition split_command :: "string \<Rightarrow> sentence + string list" where
  "split_command command =
    (case split_loop None False [] [] command of (quote, begun, current, found) \<Rightarrow>
       if quote \<noteq> None then Inl (Plain ''the command has quotes that never close; paste the whole curl, including the last line'')
       else let found = (if begun then found @ [current] else found)
         in if found = [] then Inl (Plain (''no command received; use:'' @ nl @ ''  braunrate import curl \"curl -X POST https://example/orders -d '' @ apos @ ''{}'' @ apos @ ''\"'' @ nl @ ''or pass the command through standard input''))
            else Inr found)"

record curl_Request =
  Cq_Method :: string
  Cq_Target :: string
  Cq_Path :: string
  Cq_Headers :: "(string, string) gomap"
  Cq_Body :: string
  Cq_FollowRedirects :: bool
  Cq_User :: string
  Cq_Password :: string

definition no_request :: curl_Request where
  "no_request = \<lparr>Cq_Method = '''', Cq_Target = '''', Cq_Path = '''', Cq_Headers = [], Cq_Body = '''', Cq_FollowRedirects = False, Cq_User = '''', Cq_Password = ''''\<rparr>"

definition data_options :: "string list" where
  "data_options = [''-d'', ''--data'', ''--data-raw'', ''--data-binary'', ''--data-ascii'']"

definition other_options :: "string list" where
  "other_options = [''-o'', ''--output'', ''-w'', ''--write-out'', ''-A'', ''--user-agent'', ''-b'', ''--cookie'', ''-e'', ''--referer'']"

definition takes_value :: "string \<Rightarrow> bool" where
  "takes_value field \<longleftrightarrow> field \<in> set ([''-X'', ''--request'', ''-H'', ''--header'', ''-u'', ''--user'', ''--url''] @ data_options @ other_options)"

definition curl_option :: "string \<Rightarrow> string \<Rightarrow> curl_Request \<times> string \<Rightarrow> sentence + curl_Request \<times> string" where
  "curl_option field val acc = (case acc of (request, address) \<Rightarrow>
     if field \<in> {''-X'', ''--request''} then Inr (request\<lparr>Cq_Method := ToUpper val\<rparr>, address)
     else if field \<in> {''-H'', ''--header''} then
       (case Cut val '':'' of (key, content, found) \<Rightarrow>
          if \<not> found then Inl (Sprintf ''the header %q has no colon; the form is -H \"Name: value\"'' [ArgS val])
          else Inr (request\<lparr>Cq_Headers := gput (Cq_Headers request) (TrimSpace key) (TrimSpace content)\<rparr>, address))
     else if field \<in> set data_options then Inr (request\<lparr>Cq_Body := val\<rparr>, address)
     else if field \<in> {''-u'', ''--user''} then
       (case Cut val '':'' of (user, password, found) \<Rightarrow> Inr (request\<lparr>Cq_User := user, Cq_Password := password\<rparr>, address))
     else if field = ''--url'' then Inr (request, val)
     else if field \<in> {''-A'', ''--user-agent''} then Inr (request\<lparr>Cq_Headers := gput (Cq_Headers request) ''User-Agent'' val\<rparr>, address)
     else if field \<in> {''-b'', ''--cookie''} then Inr (request\<lparr>Cq_Headers := gput (Cq_Headers request) ''Cookie'' val\<rparr>, address)
     else Inr (request, address))"

fun curl_fields :: "string list \<Rightarrow> curl_Request \<times> string \<Rightarrow> sentence + curl_Request \<times> string" where
  "curl_fields [] acc = Inr acc"
| "curl_fields (field # rest) acc =
    (if takes_value field then
       (case rest of
          [] \<Rightarrow> Inl (Sprintf ''the option %s came with no value at the end of the command'' [ArgS field])
        | val # rest' \<Rightarrow> (case curl_option field val acc of Inl err \<Rightarrow> Inl err | Inr acc \<Rightarrow> curl_fields rest' acc))
     else case (acc, Cut field ''='') of ((request, address), (name, attachedValue, attached)) \<Rightarrow>
       if attached \<and> name \<in> {''--data'', ''--data-raw'', ''--data-binary''} then curl_fields rest (request\<lparr>Cq_Body := attachedValue\<rparr>, address)
       else if field \<in> {''-L'', ''--location''} then curl_fields rest (request\<lparr>Cq_FollowRedirects := True\<rparr>, address)
       else if HasPrefix field ''-'' then curl_fields rest (request, address)
       else curl_fields rest (request, if address = '''' then field else address))"

text \<open>\<open>net/url\<close>: the parts of an address, with \<open>RequestURI\<close>.\<close>

record parsed_url =
  Pu_Scheme :: string
  Pu_Host :: string
  Pu_Path :: string
  Pu_RawQuery :: string
  Pu_RequestURI :: string

definition interpretar :: "(string \<Rightarrow> string + parsed_url) \<Rightarrow> string list \<Rightarrow> sentence + curl_Request" where
  "interpretar parse found =
    (case curl_fields (if hd found = ''curl'' then tl found else found) (no_request, '''') of
       Inl err \<Rightarrow> Inl err
     | Inr (request, address) \<Rightarrow>
         if address = '''' then Inl (Plain (''no URL in the command; the curl needs the address, as in:'' @ nl @ ''  curl https://example/orders''))
         else let address = (if \<not> Contains address ''://'' then ''https://'' @ address else address)
           in case parse address of
               Inl err \<Rightarrow> Inl (Sprintf ''could not understand the URL %q: %v'' [ArgS address, ArgS err])
             | Inr parts \<Rightarrow>
                 Inr (request\<lparr>Cq_Target := Pu_Scheme parts @ ''://'' @ Pu_Host parts, Cq_Path := Pu_RequestURI parts,
                   Cq_Method := (if Cq_Method request \<noteq> '''' then Cq_Method request else if Cq_Body request \<noteq> '''' then ''POST'' else ''GET'')\<rparr>))"

definition curl_script :: "curl_Request \<Rightarrow> Script" where
  "curl_script request =
    \<lparr>Sp_Name = ''Imported from curl '' @ ToUpper (Cq_Method request) @ '' '' @ Resource (Cq_Path request), Sp_Target = Cq_Target request, Sp_Data = [],
     Sp_Steps = [\<lparr>Is_Name = ToLower (Cq_Method request) @ '' '' @ Resource (Cq_Path request), Is_Method = Cq_Method request, Is_Path = Cq_Path request,
       Is_Headers = Cq_Headers request, Is_Body = Cq_Body request, Is_FollowRedirects = Cq_FollowRedirects request, Is_ExpectedStatus = 0, Is_Captures = [], Is_GraphQL = None\<rparr>],
     Sp_Phases = [],
     Sp_Warnings =
       (if Cq_User request \<noteq> '''' then [''the command used -u '' @ Cq_User request @ ('':...; declare that in the '' @ apos @ ''auth'' @ apos @ '' block with type: basic, and keep the password in an environment variable'')] else [])
       @ (if Contains (Cq_Path request) ''?'' \<or> hasIdentifier (Cq_Path request)
          then [(''the path has a fixed value: with a single value the target answers from cache and the number comes out optimistic. Swap it for ${data.column} and declare a '' @ apos @ ''data'' @ apos @ '' block'')] else [])\<rparr>"

definition FromCurl :: "(string \<Rightarrow> string + parsed_url) \<Rightarrow> string \<Rightarrow> sentence + Import" where
  "FromCurl parse command =
    bind_ok (split_command command) (\<lambda>found. bind_ok (interpretar parse found) (\<lambda>request. Inr (RenderYAML (curl_script request))))"

section \<open>The log of a browser\<close>

record harEntry =
  Ha_ResourceType :: string
  Ha_Method :: string
  Ha_URL :: string
  Ha_Headers :: "(string \<times> string) list"
  Ha_PostData :: "string option"
  Ha_Status :: int
  Ha_MimeType :: string

definition worthKeeping :: "harEntry \<Rightarrow> bool" where
  "worthKeeping entry \<longleftrightarrow> ToUpper (Ha_Method entry) \<noteq> ''GET'' \<or> ToLower (Ha_ResourceType entry) \<in> {''xhr'', ''fetch''}
     \<or> Contains (ToLower (Ha_MimeType entry)) ''json''"

definition commonest :: "(string, int) gomap \<Rightarrow> string" where
  "commonest tally =
    fst (foldl (\<lambda>(best, most) key. if gnum tally key > most then (key, gnum tally key) else (best, most)) ('''', -1) (sort_Strings (gkeys tally)))"

definition trim_slashes :: "string \<Rightarrow> string" where
  "trim_slashes s = rev (dropWhile (\<lambda>c. c = CHR ''/'') (rev (dropWhile (\<lambda>c. c = CHR ''/'') s)))"

definition harStepName :: "string \<Rightarrow> string \<Rightarrow> (string, int) gomap \<Rightarrow> string \<times> (string, int) gomap" where
  "harStepName verb path used =
    (let parts = Split (trim_slashes path) ''/''; segment = (if last parts \<noteq> '''' then last parts else ''root'');
         name = ToLower verb @ '' '' @ segment; used = gadd used name 1
     in (if gnum used name > 1 then name @ '' '' @ fmt_d (gnum used name) else name, used))"

definition har_headers :: "(string \<times> string) list \<Rightarrow> (string, string) gomap" where
  "har_headers listed = foldl (\<lambda>headers (name, val).
     let name = TrimSpace name
     in if name = '''' \<or> HasPrefix name '':'' \<or> ToLower name \<in> {''host'', ''content-length'', ''connection'', ''accept-encoding''} then headers
        else gput headers name val) [] listed"

definition harStep :: "harEntry \<Rightarrow> parsed_url \<Rightarrow> (string, int) gomap \<Rightarrow> ImportedStep \<times> (string, int) gomap" where
  "harStep entry parsed used =
    (let path = (if Pu_Path parsed = '''' then ''/'' else Pu_Path parsed);
         path = (if Pu_RawQuery parsed \<noteq> '''' then path @ ''?'' @ Pu_RawQuery parsed else path);
         verb = ToUpper (Ha_Method entry)
     in case harStepName verb (Pu_Path parsed) used of (name, used) \<Rightarrow>
       (\<lparr>Is_Name = name, Is_Method = verb, Is_Path = path, Is_Headers = har_headers (Ha_Headers entry),
         Is_Body = (case Ha_PostData entry of None \<Rightarrow> '''' | Some text \<Rightarrow> text), Is_FollowRedirects = False,
         Is_ExpectedStatus = (if Ha_Status entry \<ge> 100 \<and> Ha_Status entry < 600 then Ha_Status entry else 0), Is_Captures = [], Is_GraphQL = None\<rparr>, used))"

text \<open>One turn over the entries: the requests kept with their origin, how many per origin, and how many assets.\<close>

record har_kept =
  Hk_kept :: "(harEntry \<times> parsed_url \<times> string) list"
  Hk_origins :: "(string, int) gomap"
  Hk_assets :: int

definition keep_entry :: "(string \<Rightarrow> string + parsed_url) \<Rightarrow> har_kept \<Rightarrow> harEntry \<Rightarrow> har_kept" where
  "keep_entry parse kept entry =
    (case parse (Ha_URL entry) of
       Inl err \<Rightarrow> kept
     | Inr parsed \<Rightarrow>
         if Pu_Scheme parsed \<noteq> ''http'' \<and> Pu_Scheme parsed \<noteq> ''https'' then kept
         else if \<not> worthKeeping entry then kept\<lparr>Hk_assets := Hk_assets kept + 1\<rparr>
         else let origin = Pu_Scheme parsed @ ''://'' @ Pu_Host parsed
           in kept\<lparr>Hk_origins := gadd (Hk_origins kept) origin 1, Hk_kept := Hk_kept kept @ [(entry, parsed, origin)]\<rparr>)"

fun har_steps :: "string \<Rightarrow> (harEntry \<times> parsed_url \<times> string) list \<Rightarrow> (string, int) gomap \<Rightarrow> ImportedStep list \<times> int" where
  "har_steps target [] used = ([], 0)"
| "har_steps target ((entry, parsed, origin) # kept) used =
    (if origin \<noteq> target then (case har_steps target kept used of (steps, others) \<Rightarrow> (steps, others + 1))
     else case harStep entry parsed used of (step, used) \<Rightarrow>
       case har_steps target kept used of (steps, others) \<Rightarrow> (step # steps, others))"

definition har_script :: "(string \<Rightarrow> string + parsed_url) \<Rightarrow> harEntry list \<Rightarrow> sentence + Script" where
  "har_script parse entries =
    (if entries = [] then Inl (Plain ''no request found in the .har (the log has no entries)'')
     else let kept = foldl (keep_entry parse) \<lparr>Hk_kept = [], Hk_origins = [], Hk_assets = 0\<rparr> entries
       in if Hk_kept kept = [] then Inl (Plain (''no API-like request found in the .har.'' @ nl @ ''The importer keeps non-GET requests and GET requests that returned JSON; images, styles,'' @ nl @ ''fonts and navigation were left out. If the calls you want are plain GETs of HTML, they were'' @ nl @ ''treated as navigation''))
          else let target = commonest (Hk_origins kept)
            in case har_steps target (Hk_kept kept) [] of (steps, otherHosts) \<Rightarrow>
              if steps = [] then Inl (Sprintf ''every kept request pointed at a host other than %s; the importer writes one target per scenario'' [ArgS target])
              else Inr \<lparr>Sp_Name = ''Imported from HAR'', Sp_Target = target, Sp_Data = [], Sp_Steps = steps, Sp_Phases = [],
                Sp_Warnings =
                  (if Hk_assets kept > 0 then [fmt_d (Hk_assets kept) @ '' request(s) left out as assets or navigation (images, styles, fonts, GET without JSON)''] else [])
                  @ (if otherHosts > 0 then [fmt_d otherHosts @ '' request(s) left out for pointing at a host other than '' @ target] else [])\<rparr>)"

text \<open>\<open>unmarshal\<close> reads the entries of the log.\<close>

definition FromHAR :: "(string \<Rightarrow> string + harEntry list) \<Rightarrow> (string \<Rightarrow> string + parsed_url) \<Rightarrow> string \<Rightarrow> sentence + Import" where
  "FromHAR unmarshal parse content =
    (case unmarshal content of
       Inl err \<Rightarrow> Inl (Sprintf ''could not read the file as a .har: %v'' [ArgS err])
     | Inr entries \<Rightarrow> bind_ok (har_script parse entries) (\<lambda>script. Inr (RenderYAML script)))"

section \<open>Quoting and splitting\<close>

text \<open>A field as a shell quotes it: between apostrophes, an apostrophe as \<open>'\''\<close>.\<close>

definition sh_escape :: string where "sh_escape = [apostrophe, backslash, apostrophe, apostrophe]"

definition sh_quote :: "string \<Rightarrow> string" where
  "sh_quote s = [apostrophe] @ ReplaceAll s apostrophe sh_escape @ [apostrophe]"

lemma special_chars [simp]: "backslash \<noteq> apostrophe" "apostrophe \<noteq> backslash" "apostrophe \<noteq> CHR 0x0A" "apostrophe \<noteq> dquote"
  "\<not> space_char apostrophe" "\<not> space_char backslash" "space_char (CHR '' '')" "CHR '' '' \<noteq> backslash" "CHR '' '' \<noteq> apostrophe" "CHR '' '' \<noteq> dquote"
  by (simp_all add: backslash_def apostrophe_def space_char_def)

lemma split_inside:
  "split_loop (Some apostrophe) True current found (ReplaceAll s apostrophe sh_escape @ apostrophe # rest) = split_loop None True (current @ s) found rest"
  by (induction s arbitrary: current) (simp_all add: ReplaceAll_def sh_escape_def)

lemma split_quoted: "split_loop None begun current found (sh_quote s @ rest) = split_loop None True (current @ s) found rest"
  by (simp add: sh_quote_def split_inside)

lemma split_quoted_all:
  "split_loop None False [] found (Join (map sh_quote (s # ss)) '' '') = (None, True, last (s # ss), found @ butlast (s # ss))"
proof (induction ss arbitrary: s found)
  case Nil
  then show ?case using split_quoted[of False "[]" found s "[]"] by simp
next
  case (Cons t ss)
  then show ?case using split_quoted[of False "[]" found s "'' '' @ Join (map sh_quote (t # ss)) '' ''"] by simp
qed

section \<open>What the file depends on\<close>

lemma mask_each_same:
  assumes "list_all2 R xs ys" and "\<And>x y vars. R x y \<Longrightarrow> take_out x vars = take_out y vars"
  shows "mask_each take_out xs vars = mask_each take_out ys vars"
  using assms(1) by (induction arbitrary: vars rule: list_all2_induct) (simp_all add: assms(2))

text \<open>Two cookies that differ in values the writer takes out, and two headers that do.\<close>

definition hidden_pair :: "string \<Rightarrow> string \<Rightarrow> bool" where
  "hidden_pair p q \<longleftrightarrow> p = q \<or> (case (Cut (TrimSpace p) ''='', Cut (TrimSpace q) ''='') of ((name, a, found), (other, b, also)) \<Rightarrow>
     name = other \<and> found \<and> also \<and> \<not> HasPrefix a ''${'' \<and> \<not> HasPrefix b ''${'')"

definition hidden_header :: "string \<times> string \<Rightarrow> string \<times> string \<Rightarrow> bool" where
  "hidden_header h k \<longleftrightarrow> h = k \<or> fst h = fst k \<and>
     (if EqualFold (fst h) ''Cookie'' then list_all2 hidden_pair (Split (snd h) '';'') (Split (snd k) '';'')
      else gget secretHeaders (ToLower (fst h)) \<noteq> None \<and> \<not> alreadyInterpolated (snd h) \<and> \<not> alreadyInterpolated (snd k)
        \<and> credentialPrefix (snd h) = credentialPrefix (snd k))"

definition hidden_step :: "ImportedStep \<Rightarrow> ImportedStep \<Rightarrow> bool" where
  "hidden_step s t \<longleftrightarrow> list_all2 hidden_header (Is_Headers s) (Is_Headers t) \<and> t = s\<lparr>Is_Headers := Is_Headers t\<rparr>"

lemma hidden_pair_masked: "hidden_pair p q \<Longrightarrow> mask_cookie_pair p vars = mask_cookie_pair q vars"
  by (auto simp: hidden_pair_def mask_cookie_pair_def Let_def)

lemma hidden_header_masked: "hidden_header h k \<Longrightarrow> mask_header h vars = mask_header k vars"
  using mask_each_same[of hidden_pair "Split (snd h) '';''" "Split (snd k) '';''" mask_cookie_pair vars, OF _ hidden_pair_masked]
  by (cases h; cases k) (auto simp: hidden_header_def mask_header_def maskCookies_def Let_def split: if_splits option.splits)

lemma hidden_step_masked: "hidden_step s t \<Longrightarrow> mask_step s vars = mask_step t vars"
proof -
  assume hidden: "hidden_step s t"
  have headers: "mask_each mask_header (Is_Headers s) vars = mask_each mask_header (Is_Headers t) vars"
    using hidden mask_each_same[of hidden_header, OF _ hidden_header_masked] by (simp add: hidden_step_def)
  obtain hs where t: "t = s\<lparr>Is_Headers := hs\<rparr>" using hidden hidden_step_def by blast
  have "mask_step t vars = (case mask_each mask_header (Is_Headers t) vars of (headers, vars, notices) \<Rightarrow>
      case maskBody (Is_Body s) vars of (body, vars, further) \<Rightarrow> (s\<lparr>Is_Headers := headers, Is_Body := body\<rparr>, vars, notices @ further))"
    by (simp add: mask_step_def t)
  then show ?thesis unfolding mask_step_def headers by simp
qed

section \<open>What is kept of a log\<close>

definition origin_of :: "(string \<Rightarrow> string + parsed_url) \<Rightarrow> harEntry \<Rightarrow> string option" where
  "origin_of parse entry =
    (case parse (Ha_URL entry) of
       Inl err \<Rightarrow> None
     | Inr parsed \<Rightarrow> if Pu_Scheme parsed \<in> {''http'', ''https''} then Some (Pu_Scheme parsed @ ''://'' @ Pu_Host parsed) else None)"

definition kept_for :: "(string \<Rightarrow> string + parsed_url) \<Rightarrow> harEntry list \<Rightarrow> (string \<Rightarrow> bool) \<Rightarrow> nat" where
  "kept_for parse entries wanted =
    length (filter (\<lambda>entry. worthKeeping entry \<and> (case origin_of parse entry of None \<Rightarrow> False | Some origin \<Rightarrow> wanted origin)) entries)"

definition assets_of :: "(string \<Rightarrow> string + parsed_url) \<Rightarrow> harEntry list \<Rightarrow> nat" where
  "assets_of parse entries = length (filter (\<lambda>entry. \<not> worthKeeping entry \<and> origin_of parse entry \<noteq> None) entries)"

lemma gnum_added: "gnum (gadd m k n) j = gnum m j + (if j = k then n else 0)"
  by (simp add: gnum_def gadd_def gget_gput)

definition kept_ok :: "(string \<Rightarrow> string + parsed_url) \<Rightarrow> harEntry list \<Rightarrow> har_kept \<Rightarrow> bool" where
  "kept_ok parse entries kept \<longleftrightarrow> Hk_assets kept = int (assets_of parse entries)
     \<and> (\<forall>wanted. length (filter (\<lambda>(entry, parsed, origin). wanted origin) (Hk_kept kept)) = kept_for parse entries wanted)
     \<and> (\<forall>origin. gnum (Hk_origins kept) origin = int (kept_for parse entries (\<lambda>other. other = origin)))
     \<and> set (gkeys (Hk_origins kept)) = (\<lambda>(entry, parsed, origin). origin) ` set (Hk_kept kept)"

lemma gkeys_gadd: "set (gkeys (gadd m k n)) = insert k (set (gkeys m))"
  by (auto simp: gadd_def gkeys_gput)

lemma keep_entry_ok: "kept_ok parse entries kept \<Longrightarrow> kept_ok parse (entries @ [entry]) (keep_entry parse kept entry)"
  by (auto simp: kept_ok_def keep_entry_def kept_for_def assets_of_def origin_of_def Let_def gnum_added gkeys_gadd split: sum.splits)

lemma keep_all_ok: "kept_ok parse entries (foldl (keep_entry parse) \<lparr>Hk_kept = [], Hk_origins = [], Hk_assets = 0\<rparr> entries)"
proof (induction entries rule: rev_induct)
  case Nil
  then show ?case by (simp add: kept_ok_def kept_for_def assets_of_def gnum_def gkeys_def)
qed (simp add: keep_entry_ok)

lemma argmax_loop:
  "case foldl (\<lambda>(best, most) key. if tally key > (most :: int) then (key, tally key) else (best, most)) (best, most) keys of
     (best', most') \<Rightarrow> most \<le> most' \<and> (\<forall>key \<in> set keys. tally key \<le> most') \<and> (best' = best \<and> most' = most \<or> best' \<in> set keys \<and> tally best' = most')"
proof (induction keys arbitrary: best most)
  case (Cons key keys)
  show ?case
  proof (cases "tally key > most")
    case True
    with Cons.IH[where best = key and most = "tally key"] show ?thesis by (auto split: prod.splits)
  next
    case False
    with Cons.IH[where best = best and most = most] show ?thesis by (auto split: prod.splits)
  qed
qed simp

lemma commonest_most:
  assumes "\<forall>key. 0 \<le> gnum tally key" and "gkeys tally \<noteq> []"
  shows "commonest tally \<in> set (gkeys tally) \<and> (\<forall>key \<in> set (gkeys tally). gnum tally key \<le> gnum tally (commonest tally))"
proof -
  let ?loop = "foldl (\<lambda>(best, most) key. if gnum tally key > most then (key, gnum tally key) else (best, most)) ('''', -1) (sort_Strings (gkeys tally))"
  obtain best most where loop: "?loop = (best, most)" by fastforce
  obtain key where "key \<in> set (gkeys tally)" using assms(2) by (cases "gkeys tally") auto
  with argmax_loop[where tally = "gnum tally" and best = "''''" and most = "-1" and keys = "sort_Strings (gkeys tally)"] loop assms(1)
  have "best \<in> set (gkeys tally)" "gnum tally best = most" "\<forall>key \<in> set (gkeys tally). gnum tally key \<le> most"
    by auto (metis add.inverse_inverse dual_order.trans le_minus_one_simps(3) neg_le_0_iff_le)+
  then show ?thesis by (simp add: commonest_def loop)
qed

lemma har_steps_counts:
  "har_steps target kept used = (steps, others) \<Longrightarrow>
     length steps = length (filter (\<lambda>(entry, parsed, origin). origin = target) kept)
     \<and> others = int (length (filter (\<lambda>(entry, parsed, origin). origin \<noteq> target) kept))"
  by (induction target kept used arbitrary: steps others rule: har_steps.induct) (auto split: if_splits prod.splits)

section \<open>Properties\<close>

text \<open>C32. Splitting. A command whose fields a shell quoted is split into those fields, whatever is in them.\<close>

theorem split_command_roundtrip:
  assumes "found \<noteq> []"
  shows "split_command (Join (map sh_quote found) '' '') = Inr found"
proof -
  obtain s ss where found: "found = s # ss" using assms by (cases found) auto
  show ?thesis unfolding found split_command_def split_quoted_all by simp
qed


text \<open>The log of a browser. Every request of the log to an address of HTTP is a step, or is counted among the assets or the other hosts
  the warnings speak of; the target is a host no other has more requests than.\<close>

theorem har_accounts_for_its_requests:
  assumes "har_script parse entries = Inr script"
  shows "length (Sp_Steps script) = kept_for parse entries (\<lambda>origin. origin = Sp_Target script)
    \<and> (\<forall>other. kept_for parse entries (\<lambda>origin. origin = other) \<le> length (Sp_Steps script))
    \<and> Sp_Warnings script =
        (if assets_of parse entries > 0 then [fmt_d (int (assets_of parse entries)) @ '' request(s) left out as assets or navigation (images, styles, fonts, GET without JSON)''] else [])
        @ (if kept_for parse entries (\<lambda>origin. origin \<noteq> Sp_Target script) > 0
           then [fmt_d (int (kept_for parse entries (\<lambda>origin. origin \<noteq> Sp_Target script))) @ '' request(s) left out for pointing at a host other than '' @ Sp_Target script] else [])"
proof -
  define kept where "kept = foldl (keep_entry parse) \<lparr>Hk_kept = [], Hk_origins = [], Hk_assets = 0\<rparr> entries"
  have ok: "kept_ok parse entries kept" unfolding kept_def by (rule keep_all_ok)
  obtain steps others where steps: "har_steps (commonest (Hk_origins kept)) (Hk_kept kept) [] = (steps, others)" by fastforce
  from assms steps have some: "Hk_kept kept \<noteq> []" and script: "Sp_Steps script = steps" "Sp_Target script = commonest (Hk_origins kept)"
    and warnings: "Sp_Warnings script =
        (if Hk_assets kept > 0 then [fmt_d (Hk_assets kept) @ '' request(s) left out as assets or navigation (images, styles, fonts, GET without JSON)''] else [])
        @ (if others > 0 then [fmt_d others @ '' request(s) left out for pointing at a host other than '' @ commonest (Hk_origins kept)] else [])"
    by (auto simp: har_script_def Let_def kept_def[symmetric] split: if_splits prod.splits)
  have counted: "length steps = kept_for parse entries (\<lambda>origin. origin = Sp_Target script)"
      "others = int (kept_for parse entries (\<lambda>origin. origin \<noteq> Sp_Target script))"
    using har_steps_counts[OF steps] ok script unfolding kept_ok_def by auto
  have "gkeys (Hk_origins kept) \<noteq> []" "\<forall>key. 0 \<le> gnum (Hk_origins kept) key" using ok some by (auto simp: kept_ok_def)
  note most = commonest_most[OF this(2,1)]
  have "kept_for parse entries (\<lambda>origin. origin = other) \<le> length steps" for other
  proof (cases "other \<in> set (gkeys (Hk_origins kept))")
    case True
    then have "gnum (Hk_origins kept) other \<le> gnum (Hk_origins kept) (Sp_Target script)" using most script(2) by simp
    then show ?thesis using ok counted(1) by (simp add: kept_ok_def)
  next
    case False
    then have "filter (\<lambda>(entry, parsed, origin). origin = other) (Hk_kept kept) = []" using ok by (force simp: kept_ok_def filter_empty_conv)
    then show ?thesis using ok unfolding kept_ok_def by (metis le0 list.size(3))
  qed
  then show ?thesis using counted warnings script ok by (simp add: kept_ok_def)
qed

section \<open>What the code gets wrong\<close>

definition example_parse :: "string \<Rightarrow> string + parsed_url" where
  "example_parse address = Inr \<lparr>Pu_Scheme = ''https'', Pu_Host = ''h'', Pu_Path = ''/a b'', Pu_RawQuery = '''', Pu_RequestURI = ''/a%20b''\<rparr>"

lemma attached_method_is_ignored:
  "(case interpretar example_parse [''curl'', ''-XDELETE'', ''https://h/a''] of Inl err \<Rightarrow> '''' | Inr request \<Rightarrow> Cq_Method request) = ''GET''"
  by code_simp

lemma value_of_an_unknown_option_is_the_address:
  "curl_fields [''--max-time'', ''10'', ''https://h/a''] (no_request, '''') = Inr (no_request, ''10'')"
  by code_simp

lemma last_data_wins:
  "(case curl_fields [''-d'', ''a=1'', ''-d'', ''b=2''] (no_request, '''') of Inl err \<Rightarrow> '''' | Inr (request, address) \<Rightarrow> Cq_Body request) = ''b=2''"
  by code_simp

lemma form_password_is_written: "maskBody ''user=ana&password=hunter2'' [] = (''user=ana&password=hunter2'', [], [])"
  by code_simp

lemma token_header_is_written: "mask_header (''X-Auth-Token'', ''abc'') [] = ((''X-Auth-Token'', ''abc''), [], [])"
  by code_simp

text \<open>The path of a log is the decoded one: a step with a space in it is written in the short form, which the reader refuses.\<close>

lemma decoded_path_is_refused:
  "(case harStep \<lparr>Ha_ResourceType = ''xhr'', Ha_Method = ''GET'', Ha_URL = ''https://h/a%20b'', Ha_Headers = [], Ha_PostData = None, Ha_Status = 200, Ha_MimeType = ''''\<rparr>
      \<lparr>Pu_Scheme = ''https'', Pu_Host = ''h'', Pu_Path = ''/a b'', Pu_RawQuery = '''', Pu_RequestURI = ''/a%20b''\<rparr> [] of (step, used) \<Rightarrow> hd (step_lines step))
    = ''  - http: GET /a b''"
  "\<exists>err. http_Decode tools (Some (Node ScalarNode PlainStyle ''GET /a b'' 1 1 [])) = Inl err"
proof -
  show "(case harStep \<lparr>Ha_ResourceType = ''xhr'', Ha_Method = ''GET'', Ha_URL = ''https://h/a%20b'', Ha_Headers = [], Ha_PostData = None, Ha_Status = 200, Ha_MimeType = ''''\<rparr>
      \<lparr>Pu_Scheme = ''https'', Pu_Host = ''h'', Pu_Path = ''/a b'', Pu_RawQuery = '''', Pu_RequestURI = ''/a%20b''\<rparr> [] of (step, used) \<Rightarrow> hd (step_lines step))
    = ''  - http: GET /a b''" by code_simp
  have "Fields ''GET /a b'' = [''GET'', ''/a'', ''b'']" by code_simp
  then show "\<exists>err. http_Decode tools (Some (Node ScalarNode PlainStyle ''GET /a b'' 1 1 [])) = Inl err" by (simp add: http_Decode_def)
qed

section \<open>Examples\<close>

theorem split_command_roundtrip_witness:
  "split_command (Join (map sh_quote [''curl'', ''-d'', [dquote] @ ''it'' @ apos @ ''s'' @ [dquote] @ '' here'', ''http://a'']) '' '')
    = Inr [''curl'', ''-d'', [dquote] @ ''it'' @ apos @ ''s'' @ [dquote] @ '' here'', ''http://a'']"
  by (rule split_command_roundtrip) simp

definition example_imported :: "string \<Rightarrow> string \<Rightarrow> ImportedStep" where
  "example_imported credential session = \<lparr>Is_Name = ''get a'', Is_Method = ''GET'', Is_Path = ''/a'',
     Is_Headers = [(''Authorization'', ''Bearer '' @ credential), (''Cookie'', ''sid='' @ session)], Is_Body = '''',
     Is_FollowRedirects = False, Is_ExpectedStatus = 200, Is_Captures = [], Is_GraphQL = None\<rparr>"

definition example_script :: "string \<Rightarrow> string \<Rightarrow> Script" where
  "example_script credential session = \<lparr>Sp_Name = ''n'', Sp_Target = ''http://h'', Sp_Data = [], Sp_Steps = [example_imported credential session], Sp_Phases = [], Sp_Warnings = []\<rparr>"


definition example_har :: "string \<Rightarrow> string \<Rightarrow> harEntry" where
  "example_har address kind = \<lparr>Ha_ResourceType = kind, Ha_Method = ''GET'', Ha_URL = address, Ha_Headers = [], Ha_PostData = None, Ha_Status = 200, Ha_MimeType = ''''\<rparr>"

definition parse_host :: "string \<Rightarrow> string + parsed_url" where
  "parse_host address = Inr \<lparr>Pu_Scheme = ''http'', Pu_Host = address, Pu_Path = ''/'', Pu_RawQuery = '''', Pu_RequestURI = ''/''\<rparr>"

definition example_log :: "harEntry list" where
  "example_log = [example_har ''b'' ''xhr'', example_har ''a'' ''xhr'', example_har ''a'' ''image'', example_har ''a'' ''fetch'']"

theorem har_accounts_for_its_requests_witness:
  "\<exists>script. har_script parse_host example_log = Inr script \<and> Sp_Target script = ''http://a'' \<and> length (Sp_Steps script) = 2 \<and> length (Sp_Warnings script) = 2"
proof -
  have "(case har_script parse_host example_log of Inl err \<Rightarrow> False | Inr script \<Rightarrow> Sp_Target script = ''http://a'')" by code_simp
  then obtain script where script: "har_script parse_host example_log = Inr script" "Sp_Target script = ''http://a''" by (auto split: sum.splits)
  have "kept_for parse_host example_log (\<lambda>origin. origin = ''http://a'') = 2" "kept_for parse_host example_log (\<lambda>origin. origin \<noteq> ''http://a'') = 1"
    "assets_of parse_host example_log = 1" by code_simp+
  with har_accounts_for_its_requests[OF script(1)] script show ?thesis by auto
qed

end
