(* ===== verification/Recorder.thy ===== *)
theory Recorder
  imports Importer Variety
begin

text \<open>
  The recorder (\<open>internal/recorder\<close>): what of the traffic of the proxy is recorded and what is counted as dropped
  (\<open>recorder.go\<close>), and how the entries become a script (\<open>build.go\<close>): grouping by route, the correlation of what one answer
  gives and a later request uses, and the data taken from the paths. The proxy itself, its tunnels and connections are
  \<open>net/http\<close>; \<open>net/url\<close> and \<open>encoding/json\<close> are arguments. Proved: the groups partition the entries, a value is only
  referred to after the step that captures it, and every exchange is an entry or is counted.
\<close>

section \<open>What is recorded\<close>

text \<open>An address with what \<open>net/url\<close> gives of it.\<close>

record recorded_url =
  Ru_Scheme :: string
  Ru_Host :: string
  Ru_Path :: string
  Ru_RawQuery :: string
  Ru_Query :: "(string \<times> string list) list"
  Ru_String :: string

record Entry =
  En_Method :: string
  En_URL :: recorded_url
  En_Headers :: "(string, string) gomap"
  En_Body :: string
  En_Status :: int
  En_ResponseBody :: string
  En_ResponseCookies :: "string list"
  En_ContentType :: string

record recorder_Options =
  Ro_Hosts :: "string list"
  Ro_Ignore :: "string list"

record Recorder =
  Re_options :: recorder_Options
  Re_entries :: "Entry list"
  Re_dropped :: "(string, int) gomap"
  Re_tunneled :: "(string, int) gomap"
  Re_allowed :: "string list"

definition recorder_New :: "recorder_Options \<Rightarrow> Recorder" where
  "recorder_New options =
    \<lparr>Re_options = options, Re_entries = [], Re_dropped = [], Re_tunneled = [],
     Re_allowed = map ToLower (filter (\<lambda>host. host \<noteq> '''') (map TrimSpace (Ro_Hosts options)))\<rparr>"

text \<open>\<open>split_port\<close> is the host of \<open>net.SplitHostPort\<close>.\<close>

definition hostOnly :: "(string \<Rightarrow> string option) \<Rightarrow> string \<Rightarrow> string" where
  "hostOnly split_port hostPort = (case split_port hostPort of Some host \<Rightarrow> ToLower host | None \<Rightarrow> ToLower hostPort)"

definition hopByHop :: "string list" where
  "hopByHop = [''connection'', ''proxy-connection'', ''keep-alive'', ''transfer-encoding'', ''te'', ''trailer'', ''upgrade'',
     ''proxy-authenticate'', ''proxy-authorization'', ''accept-encoding'', ''content-length'']"

definition ignoredHeaders :: "string list" where
  "ignoredHeaders = [''host'', ''content-length'', ''accept-encoding'', ''sec-fetch-dest'', ''sec-fetch-mode'', ''sec-fetch-site'',
     ''sec-fetch-user'', ''sec-ch-ua'', ''sec-ch-ua-mobile'', ''sec-ch-ua-platform'', ''upgrade-insecure-requests'',
     ''user-agent'', ''accept-language'', ''referer'', ''origin'', ''dnt'', ''priority'', ''pragma'', ''cache-control'']"

definition staticExtensions :: "string list" where
  "staticExtensions = [''.js'', ''.mjs'', ''.css'', ''.map'', ''.ico'', ''.png'', ''.jpg'', ''.jpeg'', ''.gif'',
     ''.svg'', ''.webp'', ''.avif'', ''.bmp'', ''.woff'', ''.woff2'', ''.ttf'', ''.otf'', ''.eot'',
     ''.mp4'', ''.webm'', ''.mp3'', ''.wav'']"

definition isStatic :: "string \<Rightarrow> bool" where
  "isStatic path \<longleftrightarrow> HasSuffix path ''/favicon.ico'' \<or> path = ''/robots.txt'' \<or> (\<exists>extension \<in> set staticExtensions. HasSuffix path extension)"

definition telemetryHosts :: "string list" where
  "telemetryHosts = [''google-analytics.com'', ''googletagmanager.com'', ''doubleclick.net'',
     ''segment.io'', ''segment.com'', ''sentry.io'', ''datadoghq.com'', ''newrelic.com'',
     ''nr-data.net'', ''hotjar.com'', ''mixpanel.com'', ''amplitude.com'',
     ''facebook.com'', ''facebook.net'', ''clarity.ms'', ''fullstory.com'']"

definition telemetryPaths :: "string list" where
  "telemetryPaths = [''/analytics'', ''/telemetry'', ''/collect'', ''/beacon'', ''/rum'', ''/gtm.js'']"

definition isTelemetry :: "string \<Rightarrow> string \<Rightarrow> bool" where
  "isTelemetry host path \<longleftrightarrow>
     (\<exists>known \<in> set telemetryHosts. host = known \<or> HasSuffix host (''.'' @ known)) \<or> (\<exists>known \<in> set telemetryPaths. HasPrefix path known)"

definition classify_request :: "(string \<Rightarrow> string option) \<Rightarrow> Recorder \<Rightarrow> Entry \<Rightarrow> string option" where
  "classify_request split_port rec request =
    (let host = hostOnly split_port (Ru_Host (En_URL request)); path = ToLower (Ru_Path (En_URL request))
     in if host \<notin> set (Re_allowed rec) then Some (''an outside domain ('' @ host @ '')'')
        else if En_Method request = ''OPTIONS'' then Some ''a CORS preflight''
        else if isTelemetry host path then Some ''telemetry''
        else if isStatic path then Some ''a static asset''
        else case filter (\<lambda>pattern. pattern \<noteq> '''' \<and> Contains (Ru_Path (En_URL request)) pattern) (map TrimSpace (Ro_Ignore (Re_options rec))) of
            pattern # _ \<Rightarrow> Some (''asked for by -ignore ('' @ pattern @ '')'')
          | [] \<Rightarrow> None)"

text \<open>\<open>answered\<close> is the request with the answer to it; its headers are those of the client.\<close>

definition record_exchange :: "(string \<Rightarrow> string option) \<Rightarrow> Entry \<Rightarrow> Recorder \<Rightarrow> Recorder" where
  "record_exchange split_port answered rec =
    (let rec = (if Re_allowed rec = [] then rec\<lparr>Re_allowed := [hostOnly split_port (Ru_Host (En_URL answered))]\<rparr> else rec)
     in case classify_request split_port rec answered of
          Some reason \<Rightarrow> rec\<lparr>Re_dropped := gadd (Re_dropped rec) reason 1\<rparr>
        | None \<Rightarrow> rec\<lparr>Re_entries := Re_entries rec
            @ [answered\<lparr>En_Headers := filter (\<lambda>(name, val). ToLower name \<notin> set hopByHop \<union> set ignoredHeaders) (En_Headers answered)\<rparr>]\<rparr>)"

definition drop_exchange :: "string \<Rightarrow> Recorder \<Rightarrow> Recorder" where
  "drop_exchange reason rec = rec\<lparr>Re_dropped := gadd (Re_dropped rec) reason 1\<rparr>"

text \<open>\<open>tunnel\<close> counts the host before it dials it. What becomes of a request: it is a tunnel, it names no host (400), no
  request could be made of it (502), the target did not answer (502), or it answered.\<close>

definition count_tunnel :: "(string \<Rightarrow> string option) \<Rightarrow> string \<Rightarrow> Recorder \<Rightarrow> Recorder" where
  "count_tunnel split_port host rec = rec\<lparr>Re_tunneled := gadd (Re_tunneled rec) (hostOnly split_port host) 1\<rparr>"

datatype handled = Tunnel string string | NoHost | NotMade | NotAnswered | Answered Entry

definition handle_request :: "(string \<Rightarrow> string option) \<Rightarrow> Recorder \<Rightarrow> handled \<Rightarrow> Recorder" where
  "handle_request split_port rec request =
    (case request of
       Tunnel address host \<Rightarrow> count_tunnel split_port (if address = '''' then host else address) rec
     | NoHost \<Rightarrow> rec
     | NotMade \<Rightarrow> rec
     | NotAnswered \<Rightarrow> drop_exchange ''the target did not answer'' rec
     | Answered answered \<Rightarrow> record_exchange split_port answered rec)"

section \<open>Groups\<close>

record graphqlCall =
  Ca_operation :: string
  Ca_query :: string
  Ca_variables :: string

record group =
  Gr_method :: string
  Gr_subject :: string
  Gr_graphql :: "graphqlCall option"
  Gr_entries :: "Entry list"

text \<open>\<open>envelope\<close> reads the query and the raw variables of a body.\<close>

definition readGraphQL :: "(string \<Rightarrow> (string \<times> string) option) \<Rightarrow> Entry \<Rightarrow> graphqlCall option" where
  "readGraphQL envelope entry =
    (if En_Body entry = '''' \<or> \<not> EqualFold (En_Method entry) ''POST'' then None
     else case envelope (En_Body entry) of
         None \<Rightarrow> None
       | Some (query, raw) \<Rightarrow>
           if TrimSpace query = '''' then None
           else case find_operation False query of
               None \<Rightarrow> None
             | Some (kind, operation) \<Rightarrow>
                 let variables = TrimSpace raw
                 in Some \<lparr>Ca_operation = operation, Ca_query = query, Ca_variables = (if variables = '''' \<or> variables = ''null'' then ''{}'' else variables)\<rparr>)"

definition group_of :: "(string \<Rightarrow> (string \<times> string) option) \<Rightarrow> Entry \<Rightarrow> string \<times> group" where
  "group_of envelope entry =
    (let verb = ToLower (En_Method entry); subject = Resource (Ru_Path (En_URL entry))
     in case readGraphQL envelope entry of
          None \<Rightarrow> (verb @ '' '' @ subject, \<lparr>Gr_method = verb, Gr_subject = subject, Gr_graphql = None, Gr_entries = [entry]\<rparr>)
        | Some call \<Rightarrow> (''graphql '' @ Ca_operation call, \<lparr>Gr_method = verb, Gr_subject = Ca_operation call, Gr_graphql = Some call, Gr_entries = [entry]\<rparr>))"

definition group_entry :: "(string \<Rightarrow> (string \<times> string) option) \<Rightarrow> group list \<times> (string, nat) gomap \<Rightarrow> Entry \<Rightarrow> group list \<times> (string, nat) gomap" where
  "group_entry envelope acc entry =
    (case acc of (groups, position) \<Rightarrow> case group_of envelope entry of (key, fresh) \<Rightarrow>
       case gget position key of
         None \<Rightarrow> (groups @ [fresh], gput position key (length groups))
       | Some index \<Rightarrow> (groups[index := (groups ! index)\<lparr>Gr_entries := Gr_entries (groups ! index) @ [entry]\<rparr>], position))"

definition groupByRoute :: "(string \<Rightarrow> (string \<times> string) option) \<Rightarrow> Entry list \<Rightarrow> group list" where
  "groupByRoute envelope entries = fst (foldl (group_entry envelope) ([], []) entries)"

section \<open>Correlation\<close>

record candidate =
  Cd_path :: string
  Cd_name :: string
  Cd_value :: string

record substitution =
  Sb_value :: string
  Sb_variable :: string

definition cookie_candidate :: "string \<Rightarrow> candidate option" where
  "cookie_candidate header =
    (case Cut (TrimSpace (fst (Cut header '';''))) ''='' of (name, val, found) \<Rightarrow>
       if \<not> found \<or> val = '''' then None else Some \<lparr>Cd_path = ''cookie:'' @ name, Cd_name = name, Cd_value = val\<rparr>)"

definition cookieCandidates :: "Entry \<Rightarrow> candidate list" where
  "cookieCandidates response = List.map_filter cookie_candidate (En_ResponseCookies response)"

definition leaf :: "string \<Rightarrow> string" where "leaf path = last (Split path ''.'')"

definition leaf_candidate :: "string \<Rightarrow> string \<Rightarrow> candidate list" where
  "leaf_candidate path text = (if length text \<ge> 4 then [\<lparr>Cd_path = path, Cd_name = leaf path, Cd_value = text\<rparr>] else [])"

text \<open>\<open>number\<close> prints a float64 as \<open>%v\<close> does. The fields of an object are visited by name, and of a list the first three.\<close>

fun walk_json :: "(real \<Rightarrow> string) \<Rightarrow> string \<Rightarrow> json \<Rightarrow> candidate list"
  and walk_fields :: "(real \<Rightarrow> string) \<Rightarrow> string \<Rightarrow> (string \<times> json) list \<Rightarrow> (string \<times> candidate list) list"
  and walk_items :: "(real \<Rightarrow> string) \<Rightarrow> string \<Rightarrow> nat \<Rightarrow> json list \<Rightarrow> candidate list" where
  "walk_json number path (JObject fs) = concat (map snd (sort_key fst (walk_fields number path fs)))"
| "walk_json number path (JArray items) = walk_items number path 0 items"
| "walk_json number path (JString text) = leaf_candidate path text"
| "walk_json number path (JNumber r) = leaf_candidate path (TrimSuffix (number r) ''.0'')"
| "walk_json number path (JBool b) = []"
| "walk_json number path JNull = []"
| "walk_fields number path [] = []"
| "walk_fields number path ((name, v) # fs) = (name, walk_json number (path @ ''.'' @ name) v) # walk_fields number path fs"
| "walk_items number path index [] = []"
| "walk_items number path index (item # items) =
    (if index > 2 then [] else walk_json number (path @ ''.'' @ fmt_d (int index)) item @ walk_items number path (Suc index) items)"

definition flatten :: "(string \<Rightarrow> json option) \<Rightarrow> (real \<Rightarrow> string) \<Rightarrow> string \<Rightarrow> candidate list" where
  "flatten unmarshal number content = (case unmarshal content of None \<Rightarrow> [] | Some decoded \<Rightarrow> walk_json number ''$'' decoded)"

definition candidatesOf :: "(string \<Rightarrow> json option) \<Rightarrow> (real \<Rightarrow> string) \<Rightarrow> Entry \<Rightarrow> candidate list" where
  "candidatesOf unmarshal number response =
    cookieCandidates response @ (if Contains (ToLower (En_ContentType response)) ''json'' then flatten unmarshal number (En_ResponseBody response) else [])"

definition uses_value :: "Entry \<Rightarrow> string \<Rightarrow> bool" where
  "uses_value entry val \<longleftrightarrow>
     val \<in> set (Split (Ru_Path (En_URL entry)) ''/'')
     \<or> (\<exists>(name, items) \<in> set (Ru_Query (En_URL entry)). val \<in> set items)
     \<or> (\<exists>(name, header) \<in> set (En_Headers entry). Contains header val)
     \<or> En_Body entry \<noteq> '''' \<and> Contains (En_Body entry) val"

definition kept_char :: "char \<Rightarrow> string" where
  "kept_char c = (if plain_char c then [c] else if c = CHR '' '' \<or> c = CHR ''-'' \<or> c = CHR ''_'' then ''_'' else [])"

definition sanitize :: "string \<Rightarrow> string" where "sanitize text = trim_underscores (concat (map kept_char (ToLower text)))"

definition listed :: "(nat, 'a list) gomap \<Rightarrow> nat \<Rightarrow> 'a list" where
  "listed m k = (case gget m k of None \<Rightarrow> [] | Some xs \<Rightarrow> xs)"

definition gappend :: "(nat, 'a list) gomap \<Rightarrow> nat \<Rightarrow> 'a \<Rightarrow> (nat, 'a list) gomap" where
  "gappend m k x = gput m k (listed m k @ [x])"

definition variableName :: "string \<Rightarrow> string \<Rightarrow> (nat, ImportedCapture list) gomap \<Rightarrow> string" where
  "variableName candidateName subject taken =
    (let name = sanitize candidateName; name = (if name = '''' then ''value'' else name)
     in if \<exists>captures \<in> set (gvalues taken). \<exists>capture \<in> set captures. Ic_Variable capture = name
        then sanitize subject @ ''_'' @ name else name)"

record correlation =
  Co_captures :: "(nat, ImportedCapture list) gomap"
  Co_substitutions :: "(nat, substitution list) gomap"
  Co_claimed :: "string list"

definition representative :: "group \<Rightarrow> Entry" where "representative g = hd (Gr_entries g)"

definition claim_candidate :: "group list \<Rightarrow> nat \<Rightarrow> correlation \<Rightarrow> candidate \<Rightarrow> correlation" where
  "claim_candidate groups producer c found =
    (if Cd_value found \<in> set (Co_claimed c) then c
     else let consumers = filter (\<lambda>consumer. uses_value (representative (groups ! consumer)) (Cd_value found)) [Suc producer..<length groups]
       in if consumers = [] then c
          else let variable = variableName (Cd_name found) (Gr_subject (groups ! producer)) (Co_captures c)
            in \<lparr>Co_captures = gappend (Co_captures c) producer \<lparr>Ic_Variable = variable, Ic_Expression = Cd_path found, Ic_Suggested = True\<rparr>,
                Co_substitutions = foldl (\<lambda>m consumer. gappend m consumer \<lparr>Sb_value = Cd_value found, Sb_variable = variable\<rparr>) (Co_substitutions c) consumers,
                Co_claimed = Cd_value found # Co_claimed c\<rparr>)"

definition correlate :: "(Entry \<Rightarrow> candidate list) \<Rightarrow> group list \<Rightarrow> correlation" where
  "correlate candidates groups =
    foldl (\<lambda>c producer. foldl (claim_candidate groups producer) c (candidates (representative (groups ! producer))))
      \<lparr>Co_captures = [], Co_substitutions = [], Co_claimed = []\<rparr> [0..<length groups]"

text \<open>No value is empty, so that no replacement is of an empty text.\<close>

definition apply_substitutions :: "string \<Rightarrow> substitution list \<Rightarrow> string" where
  "apply_substitutions text substitutions = foldl (\<lambda>text item. ReplaceText (Sb_value item) (reference_to (Sb_variable item)) text) text substitutions"

section \<open>Paths and data\<close>

definition correlatedSegment :: "string \<Rightarrow> substitution list \<Rightarrow> string option" where
  "correlatedSegment segment substitutions = map_option Sb_variable (find (\<lambda>item. Sb_value item = segment) substitutions)"

definition parameterName :: "string list \<Rightarrow> nat \<Rightarrow> string" where
  "parameterName segments index =
    (case find (\<lambda>segment. segment \<noteq> '''' \<and> \<not> LooksLikeIdentifier segment) (rev (take index segments)) of
       Some segment \<Rightarrow> sanitize segment @ ''_id'' | None \<Rightarrow> ''id'')"

definition observed :: "group \<Rightarrow> nat \<Rightarrow> string list" where
  "observed current index =
    concat (map (\<lambda>entry. let segments = Split (Ru_Path (En_URL entry)) ''/''
      in if index < length segments \<and> segments ! index \<noteq> '''' then [segments ! index] else []) (Gr_entries current))"

definition merge_values :: "string list \<Rightarrow> string list \<Rightarrow> string list" where
  "merge_values existing incoming = foldl (\<lambda>kept val. if val \<in> set kept then kept else kept @ [val]) existing incoming"

record found_data =
  Fd_values :: "(string, string list) gomap"
  Fd_order :: "string list"

definition template_segment :: "group \<Rightarrow> substitution list \<Rightarrow> string list \<times> found_data \<Rightarrow> nat \<Rightarrow> string list \<times> found_data" where
  "template_segment current substitutions acc index =
    (case acc of (segments, d) \<Rightarrow> let segment = segments ! index
     in if segment = '''' then (segments, d)
        else case correlatedSegment segment substitutions of
            Some variable \<Rightarrow> (segments[index := reference_to variable], d)
          | None \<Rightarrow>
              if \<not> LooksLikeIdentifier segment then (segments, d)
              else let name = parameterName segments index
                in (segments[index := reference_to (name @ ''.value'')],
                    \<lparr>Fd_values = gput (Fd_values d) name (merge_values (case gget (Fd_values d) name of None \<Rightarrow> [] | Some known \<Rightarrow> known) (observed current index)),
                     Fd_order = (if gget (Fd_values d) name = None then Fd_order d @ [name] else Fd_order d)\<rparr>))"

definition templatePath :: "group \<Rightarrow> substitution list \<Rightarrow> found_data \<Rightarrow> string \<times> string list \<times> found_data" where
  "templatePath current substitutions d =
    (let address = En_URL (representative current); segments = Split (Ru_Path address) ''/''
     in case foldl (template_segment current substitutions) (segments, d) [0..<length segments] of (segments, d) \<Rightarrow>
          if Ru_RawQuery address \<noteq> ''''
          then (Join segments ''/'' @ ''?'' @ apply_substitutions (Ru_RawQuery address) substitutions,
                [''the step '' @ Quote (Gr_method current @ '' '' @ Gr_subject current) @ '' kept the query from the recording: if it carries an identifier, swap that for ${data.column} too''], d)
          else (Join segments ''/'', [], d))"

section \<open>The script\<close>

definition asGraphQL :: "(string \<Rightarrow> (string \<times> string) option) \<Rightarrow> ImportedStep \<Rightarrow> Entry \<Rightarrow> substitution list \<Rightarrow> ImportedStep" where
  "asGraphQL envelope step entry substitutions =
    (case readGraphQL envelope (entry\<lparr>En_Body := apply_substitutions (En_Body entry) substitutions\<rparr>) of
       None \<Rightarrow> step
     | Some call \<Rightarrow> step\<lparr>Is_Body := '''', Is_Name := '''',
         Is_GraphQL := Some \<lparr>Ig_Operation = Ca_operation call, Ig_Query = Ca_query call, Ig_Variables = Ca_variables call, Ig_Path = Ru_Path (En_URL entry)\<rparr>,
         Is_Headers := filter (\<lambda>(name, val). name \<noteq> ''Content-Type'' \<and> name \<noteq> ''Accept'') (Is_Headers step)\<rparr>)"

definition identical :: "Entry list \<Rightarrow> bool" where
  "identical entries \<longleftrightarrow> (\<forall>entry \<in> set (tl entries). Ru_String (En_URL entry) = Ru_String (En_URL (hd entries)) \<and> En_Body entry = En_Body (hd entries))"

definition repetitionNotices :: "group list \<Rightarrow> string list" where
  "repetitionNotices groups = List.map_filter (\<lambda>current.
     if length (Gr_entries current) < 2 \<or> \<not> identical (Gr_entries current) then None
     else Some (''the step '' @ Quote (Gr_method current @ '' '' @ Gr_subject current) @ '' was recorded '' @ fmt_d (int (length (Gr_entries current)))
       @ '' times with the same call and became one single step: if the repetition was what you wanted to measure (retry, idempotency, cache), it is not in the scenario'')) groups"

definition recorded_step :: "(string \<Rightarrow> (string \<times> string) option) \<Rightarrow> correlation \<Rightarrow> group list \<Rightarrow> ImportedStep list \<times> string list \<times> found_data \<Rightarrow> nat
    \<Rightarrow> ImportedStep list \<times> string list \<times> found_data" where
  "recorded_step envelope c groups acc index =
    (case acc of (steps, warnings, d) \<Rightarrow>
       let current = groups ! index; entry = representative current; substitutions = listed (Co_substitutions c) index
       in case templatePath current substitutions d of (path, used, d) \<Rightarrow>
         let step = \<lparr>Is_Name = Gr_method current @ '' '' @ Gr_subject current, Is_Method = ToUpper (Gr_method current), Is_Path = path,
               Is_Headers = map (\<lambda>(name, val). (name, apply_substitutions val substitutions)) (En_Headers entry),
               Is_Body = apply_substitutions (En_Body entry) substitutions, Is_FollowRedirects = False, Is_ExpectedStatus = En_Status entry,
               Is_Captures = listed (Co_captures c) index, Is_GraphQL = None\<rparr>;
             step = (if Gr_graphql current \<noteq> None then asGraphQL envelope step entry substitutions else step)
         in (steps @ [step], warnings @ used, d))"

definition single_notice :: "string \<Rightarrow> string" where
  "single_notice name = ''the source '' @ Quote name @ ('' ended up with a single value: with one value the target answers from cache and the number comes out optimistic. Record more browsing or swap it for a '' @ apos @ ''generate'' @ apos @ '' block'')"

definition Build :: "(string \<Rightarrow> (string \<times> string) option) \<Rightarrow> (Entry \<Rightarrow> candidate list) \<Rightarrow> (string \<Rightarrow> string option) \<Rightarrow> Entry list \<Rightarrow> string
    \<Rightarrow> (Script \<times> (string \<times> string list) list) option" where
  "Build envelope candidates split_port entries dataPrefix =
    (case groupByRoute envelope entries of
       [] \<Rightarrow> None
     | groups \<Rightarrow>
         let address = En_URL (representative (hd groups)); c = correlate candidates groups
         in case foldl (recorded_step envelope c groups) ([], [], \<lparr>Fd_values = [], Fd_order = []\<rparr>) [0..<length groups] of (steps, warnings, d) \<Rightarrow>
           let values_of = (\<lambda>name. case gget (Fd_values d) name of None \<Rightarrow> [] | Some known \<Rightarrow> known)
           in Some (\<lparr>Sp_Name = ''Gravado de '' @ hostOnly split_port (Ru_Host address),
               Sp_Target = (if Ru_Scheme address \<noteq> '''' then Ru_Scheme address else ''http'') @ ''://'' @ Ru_Host address,
               Sp_Data = map (\<lambda>name. \<lparr>Io_Name = name, Io_File = dataPrefix @ ''-'' @ ReplaceAll name (CHR ''_'') ''-'' @ ''.csv'', Io_Consume = ''circular''\<rparr>) (Fd_order d),
               Sp_Steps = steps, Sp_Phases = [],
               Sp_Warnings = warnings @ map single_notice (filter (\<lambda>name. length (values_of name) < 2) (Fd_order d)) @ repetitionNotices groups
                 @ [''the recorded sequence is a single pass: the production mix has other proportions between the routes, and no measurement here knows that'']\<rparr>,
             map (\<lambda>name. (name, values_of name)) (Fd_order d)))"

definition DataFile_CSV :: "string list \<Rightarrow> string" where "DataFile_CSV values_of = Join (''value'' # values_of) nl @ nl"

definition DroppedLines :: "(string, int) gomap \<Rightarrow> string list" where
  "DroppedLines dropped = map (\<lambda>reason. fmt_d (gnum dropped reason) @ '' '' @ reason)
     (sort_key (\<lambda>reason. - gnum dropped reason) (sort_Strings (gkeys dropped)))"

section \<open>Grouping\<close>

definition route_key :: "(string \<Rightarrow> (string \<times> string) option) \<Rightarrow> Entry \<Rightarrow> string" where
  "route_key envelope entry = fst (group_of envelope entry)"

text \<open>The group of a key, said at once: the first entry names it, all entries of the key are in it, in their order.\<close>

definition route_group :: "(string \<Rightarrow> (string \<times> string) option) \<Rightarrow> Entry list \<Rightarrow> string \<Rightarrow> group" where
  "route_group envelope entries key =
    (let mine = filter (\<lambda>entry. route_key envelope entry = key) entries
     in (snd (group_of envelope (hd mine)))\<lparr>Gr_entries := mine\<rparr>)"

definition route_keys :: "(string \<Rightarrow> (string \<times> string) option) \<Rightarrow> Entry list \<Rightarrow> string list" where
  "route_keys envelope entries = merge_values [] (map (route_key envelope) entries)"

lemma merge_values_snoc: "merge_values known (xs @ [x]) = (let kept = merge_values known xs in if x \<in> set kept then kept else kept @ [x])"
  by (simp add: merge_values_def Let_def)

lemma set_merge_values [simp]: "set (merge_values known xs) = set known \<union> set xs"
  by (induction xs rule: rev_induct) (auto simp: merge_values_snoc Let_def merge_values_def)

lemma distinct_merge_values [simp]: "distinct known \<Longrightarrow> distinct (merge_values known xs)"
  by (induction xs rule: rev_induct) (auto simp: merge_values_snoc Let_def merge_values_def)

lemma set_route_keys [simp]: "set (route_keys envelope entries) = route_key envelope ` set entries"
  by (simp add: route_keys_def)

lemma distinct_route_keys [simp]: "distinct (route_keys envelope entries)"
  by (simp add: route_keys_def)

lemma route_keys_snoc: "route_keys envelope (entries @ [entry]) =
    (if route_key envelope entry \<in> set (route_keys envelope entries) then route_keys envelope entries
     else route_keys envelope entries @ [route_key envelope entry])"
  by (simp add: route_keys_def merge_values_snoc Let_def)

lemma Gr_entries_route_group: "Gr_entries (route_group envelope entries key) = filter (\<lambda>entry. route_key envelope entry = key) entries"
  by (simp add: route_group_def Let_def)

lemma route_group_other: "route_key envelope entry \<noteq> key \<Longrightarrow> route_group envelope (entries @ [entry]) key = route_group envelope entries key"
  by (simp add: route_group_def)

lemma route_group_known:
  assumes "key \<in> set (route_keys envelope entries)" "route_key envelope entry = key"
  shows "route_group envelope (entries @ [entry]) key
    = (route_group envelope entries key)\<lparr>Gr_entries := Gr_entries (route_group envelope entries key) @ [entry]\<rparr>"
proof -
  from assms(1) have "filter (\<lambda>e. route_key envelope e = key) entries \<noteq> []" by (auto simp: filter_empty_conv)
  with assms(2) show ?thesis by (simp add: route_group_def Let_def)
qed

lemma group_of_entries: "Gr_entries (snd (group_of envelope entry)) = [entry]"
  by (simp add: group_of_def Let_def split: option.split)

lemma route_group_fresh:
  assumes "route_key envelope entry \<notin> set (route_keys envelope entries)"
  shows "route_group envelope (entries @ [entry]) (route_key envelope entry) = snd (group_of envelope entry)"
proof -
  from assms have "filter (\<lambda>e. route_key envelope e = route_key envelope entry) entries = []" unfolding filter_empty_conv by (metis imageI set_route_keys)
  then have "route_group envelope (entries @ [entry]) (route_key envelope entry) = (snd (group_of envelope entry))\<lparr>Gr_entries := [entry]\<rparr>"
    by (simp add: route_group_def)
  also have "\<dots> = snd (group_of envelope entry)" using group_of_entries[of envelope entry] by (cases "snd (group_of envelope entry)") simp
  finally show ?thesis .
qed

lemma sum_of_the_classes:
  "finite K \<Longrightarrow> f ` set_mset M \<subseteq> K \<Longrightarrow> (\<Sum>key\<in>K. filter_mset (\<lambda>x. f x = key) M) = M"
proof (induction M)
  case empty
  then show ?case by simp
next
  case (add x M)
  have "(\<Sum>key\<in>K. filter_mset (\<lambda>y. f y = key) (add_mset x M))
      = (\<Sum>key\<in>K. (if f x = key then {#x#} else {#}) + filter_mset (\<lambda>y. f y = key) M)"
    by (rule sum.cong) auto
  also have "\<dots> = (\<Sum>key\<in>K. if f x = key then {#x#} else {#}) + M" using add by (simp add: sum.distrib)
  also have "\<dots> = add_mset x M" using add.prems by simp
  finally show ?case .
qed

lemma groups_are_the_routes:
  "\<exists>position. foldl (group_entry envelope) ([], []) entries = (map (route_group envelope entries) (route_keys envelope entries), position)
    \<and> (\<forall>key i. gget position key = Some i \<longleftrightarrow> i < length (route_keys envelope entries) \<and> route_keys envelope entries ! i = key)"
proof (induction entries rule: rev_induct)
  case Nil
  show ?case by (simp add: route_keys_def merge_values_def gget_def)
next
  case (snoc entry entries)
  let ?keys = "route_keys envelope entries" and ?key = "route_key envelope entry"
  let ?groups = "map (route_group envelope entries) ?keys"
  from snoc.IH obtain position where folded: "foldl (group_entry envelope) ([], []) entries = (?groups, position)"
    and found: "\<And>key i. gget position key = Some i \<longleftrightarrow> i < length ?keys \<and> ?keys ! i = key" by blast
  have step: "foldl (group_entry envelope) ([], []) (entries @ [entry]) = group_entry envelope (?groups, position) entry" by (simp add: folded)
  show ?case
  proof (cases "gget position ?key")
    case None
    with found have new: "?key \<notin> set ?keys" by (metis in_set_conv_nth option.distinct(1))
    have same: "map (route_group envelope (entries @ [entry])) ?keys = ?groups"
      using new by (intro map_cong refl route_group_other) auto
    have keys: "route_keys envelope (entries @ [entry]) = ?keys @ [?key]" using new by (simp add: route_keys_snoc del: set_route_keys)
    have run: "group_entry envelope (?groups, position) entry = (?groups @ [snd (group_of envelope entry)], gput position ?key (length ?keys))"
      using None by (cases "group_of envelope entry") (simp add: group_entry_def route_key_def)
    have grown: "map (route_group envelope (entries @ [entry])) (?keys @ [?key]) = ?groups @ [snd (group_of envelope entry)]"
      using new by (simp add: same route_group_fresh del: set_route_keys)
    have "gget (gput position ?key (length ?keys)) key = Some i \<longleftrightarrow> i < length (?keys @ [?key]) \<and> (?keys @ [?key]) ! i = key" for key i
      using found[of key i] new None by (auto simp: nth_append less_Suc_eq simp del: set_route_keys)
    then show ?thesis unfolding step keys run grown by blast
  next
    case (Some i)
    with found have i: "i < length ?keys" "?keys ! i = ?key" by blast+
    then have known: "?key \<in> set ?keys" by (metis nth_mem)
    have grown: "map (route_group envelope (entries @ [entry])) ?keys
        = ?groups[i := (?groups ! i)\<lparr>Gr_entries := Gr_entries (?groups ! i) @ [entry]\<rparr>]"
    proof (rule nth_equalityI)
      fix j assume "j < length (map (route_group envelope (entries @ [entry])) ?keys)"
      then have j: "j < length ?keys" by simp
      show "map (route_group envelope (entries @ [entry])) ?keys ! j
          = ?groups[i := (?groups ! i)\<lparr>Gr_entries := Gr_entries (?groups ! i) @ [entry]\<rparr>] ! j"
      proof (cases "j = i")
        case True
        with i j known show ?thesis by (simp add: route_group_known del: set_route_keys)
      next
        case False
        with i j have "?keys ! j \<noteq> ?key" by (metis distinct_route_keys nth_eq_iff_index_eq)
        with False i j show ?thesis by (simp add: route_group_other)
      qed
    qed simp
    have keys: "route_keys envelope (entries @ [entry]) = ?keys" using known by (simp add: route_keys_snoc del: set_route_keys)
    have run: "group_entry envelope (?groups, position) entry = (?groups[i := (?groups ! i)\<lparr>Gr_entries := Gr_entries (?groups ! i) @ [entry]\<rparr>], position)"
      using Some by (cases "group_of envelope entry") (simp add: group_entry_def route_key_def)
    show ?thesis unfolding step keys run grown using found by blast
  qed
qed

lemma groupByRoute_routes: "groupByRoute envelope entries = map (route_group envelope entries) (route_keys envelope entries)"
  using groups_are_the_routes[of envelope entries] by (auto simp: groupByRoute_def)

text \<open>C34. 
  C0. The recorded entries fall into one group per route (per operation, when the body is a GraphQL call), in the order in which
  each route was first seen: a group holds every entry of its route and no other, in the order of the recording, and is named
  after the first of them, so that no recorded request is lost in the grouping or counted in two groups.
\<close>

theorem groupByRoute_is_the_routes:
  "groupByRoute envelope entries = map (route_group envelope entries) (route_keys envelope entries)
   \<and> mset (concat (map Gr_entries (groupByRoute envelope entries))) = mset entries"
proof -
  have "mset (concat (map Gr_entries (groupByRoute envelope entries)))
      = (\<Sum>key\<leftarrow>route_keys envelope entries. mset (filter (\<lambda>entry. route_key envelope entry = key) entries))"
    by (simp add: groupByRoute_routes mset_concat comp_def Gr_entries_route_group)
  also have "\<dots> = (\<Sum>key\<in>route_key envelope ` set entries. filter_mset (\<lambda>entry. route_key envelope entry = key) (mset entries))"
    by (simp add: sum_list_distinct_conv_sum_set)
  also have "\<dots> = mset entries" by (rule sum_of_the_classes) simp_all
  finally show ?thesis by (simp add: groupByRoute_routes)
qed

section \<open>Correlation\<close>

text \<open>A substitution is founded when an earlier group captures its variable from an answer that gave the value.\<close>

definition founded_substitution :: "(Entry \<Rightarrow> candidate list) \<Rightarrow> group list \<Rightarrow> correlation \<Rightarrow> nat \<Rightarrow> substitution \<Rightarrow> bool" where
  "founded_substitution candidates groups c consumer item \<longleftrightarrow>
     consumer < length groups \<and> uses_value (representative (groups ! consumer)) (Sb_value item)
     \<and> (\<exists>producer < consumer. \<exists>capture \<in> set (listed (Co_captures c) producer).
          Ic_Variable capture = Sb_variable item
          \<and> (\<exists>found \<in> set (candidates (representative (groups ! producer))). Cd_path found = Ic_Expression capture \<and> Cd_value found = Sb_value item))"

definition well_founded :: "(Entry \<Rightarrow> candidate list) \<Rightarrow> group list \<Rightarrow> correlation \<Rightarrow> bool" where
  "well_founded candidates groups c \<longleftrightarrow>
     (\<forall>consumer. \<forall>item \<in> set (listed (Co_substitutions c) consumer). founded_substitution candidates groups c consumer item)"

lemma listed_gappend: "listed (gappend m k x) k' = (if k' = k then listed m k @ [x] else listed m k')"
  by (simp add: listed_def gappend_def)

lemma listed_foldl_gappend:
  "x \<in> set (listed (foldl (\<lambda>m consumer. gappend m consumer item) m consumers) k) \<Longrightarrow> x \<in> set (listed m k) \<or> x = item \<and> k \<in> set consumers"
proof (induction consumers arbitrary: m)
  case (Cons consumer consumers)
  from Cons.IH[OF Cons.prems[simplified]] show ?case by (auto simp: listed_gappend split: if_splits)
qed simp

lemma founded_substitutionI:
  assumes "consumer < length groups" "uses_value (representative (groups ! consumer)) (Sb_value item)"
    "producer < consumer" "capture \<in> set (listed (Co_captures c) producer)" "Ic_Variable capture = Sb_variable item"
    "found \<in> set (candidates (representative (groups ! producer)))" "Cd_path found = Ic_Expression capture" "Cd_value found = Sb_value item"
  shows "founded_substitution candidates groups c consumer item"
  using assms unfolding founded_substitution_def by blast

lemma more_captures_are_founded:
  assumes "founded_substitution candidates groups c consumer item" "\<And>k. set (listed (Co_captures c) k) \<subseteq> set (listed (Co_captures c') k)"
  shows "founded_substitution candidates groups c' consumer item"
  using assms unfolding founded_substitution_def by blast

lemma claim_candidate_founded:
  assumes "well_founded candidates groups c" "found \<in> set (candidates (representative (groups ! producer)))"
  shows "well_founded candidates groups (claim_candidate groups producer c found)"
proof -
  define consumers where "consumers = filter (\<lambda>consumer. uses_value (representative (groups ! consumer)) (Cd_value found)) [Suc producer..<length groups]"
  let ?variable = "variableName (Cd_name found) (Gr_subject (groups ! producer)) (Co_captures c)"
  let ?capture = "\<lparr>Ic_Variable = ?variable, Ic_Expression = Cd_path found, Ic_Suggested = True\<rparr>"
  let ?item = "\<lparr>Sb_value = Cd_value found, Sb_variable = ?variable\<rparr>"
  let ?c = "\<lparr>Co_captures = gappend (Co_captures c) producer ?capture,
    Co_substitutions = foldl (\<lambda>m consumer. gappend m consumer ?item) (Co_substitutions c) consumers, Co_claimed = Cd_value found # Co_claimed c\<rparr>"
  have "founded_substitution candidates groups ?c consumer item" if item: "item \<in> set (listed (Co_substitutions ?c) consumer)" for consumer item
  proof -
    from item have "item \<in> set (listed (Co_substitutions c) consumer) \<or> item = ?item \<and> consumer \<in> set consumers"
      using listed_foldl_gappend[of item ?item "Co_substitutions c" consumers consumer] by simp
    then show ?thesis
    proof
      assume "item \<in> set (listed (Co_substitutions c) consumer)"
      with assms(1) have "founded_substitution candidates groups c consumer item" by (simp add: well_founded_def)
      then show ?thesis by (rule more_captures_are_founded) (auto simp: listed_gappend)
    next
      assume new: "item = ?item \<and> consumer \<in> set consumers"
      then have "producer < consumer" "consumer < length groups" "uses_value (representative (groups ! consumer)) (Cd_value found)"
        by (auto simp: consumers_def)
      moreover have "?capture \<in> set (listed (Co_captures ?c) producer)" by (simp add: listed_gappend)
      ultimately show ?thesis using new assms(2)
        by (intro founded_substitutionI[where capture = ?capture and found = found and producer = producer]) simp_all
    qed
  qed
  then have "well_founded candidates groups ?c" unfolding well_founded_def by blast
  with assms(1) show ?thesis by (simp add: claim_candidate_def consumers_def Let_def)
qed

lemma foldl_keeps: "P a \<Longrightarrow> (\<And>a x. P a \<Longrightarrow> x \<in> set xs \<Longrightarrow> P (f a x)) \<Longrightarrow> P (foldl f a xs)"
  by (induction xs arbitrary: a) auto

text \<open>C33. 
  C0. Every substitution that \<open>correlate\<close> makes in a step is founded: the recorded request of the step carries the value, and a
  step before it captures the variable, by an expression at which the recorded answer of that earlier step had this very value.
\<close>

theorem correlate_captures_before_use:
  assumes "item \<in> set (listed (Co_substitutions (correlate candidates groups)) consumer)"
  shows "founded_substitution candidates groups (correlate candidates groups) consumer item"
proof -
  have "well_founded candidates groups (correlate candidates groups)" unfolding correlate_def
  proof (rule foldl_keeps)
    show "well_founded candidates groups \<lparr>Co_captures = [], Co_substitutions = [], Co_claimed = []\<rparr>"
      by (simp add: well_founded_def listed_def gget_def)
  qed (rule foldl_keeps, simp_all add: claim_candidate_founded)
  with assms show ?thesis by (simp add: well_founded_def)
qed

definition plain_request :: "string \<Rightarrow> (string, string) gomap \<Rightarrow> string \<Rightarrow> string list \<Rightarrow> Entry" where
  "plain_request path headers body cookies =
    \<lparr>En_Method = ''POST'', En_URL = \<lparr>Ru_Scheme = ''http'', Ru_Host = ''shop'', Ru_Path = path, Ru_RawQuery = '''', Ru_Query = [], Ru_String = ''http://shop'' @ path\<rparr>,
     En_Headers = headers, En_Body = body, En_Status = 200, En_ResponseBody = '''', En_ResponseCookies = cookies, En_ContentType = ''text/html''\<rparr>"

definition signed_in :: "group list" where
  "signed_in = [\<lparr>Gr_method = ''post'', Gr_subject = ''login'', Gr_graphql = None, Gr_entries = [plain_request ''/login'' [] '''' [''sid=abcd; Path=/'']]\<rparr>,
     \<lparr>Gr_method = ''post'', Gr_subject = ''cart'', Gr_graphql = None, Gr_entries = [plain_request ''/cart'' [(''Cookie'', ''sid=abcd'')] ''qty=2'' []]\<rparr>]"

definition cookies_only :: "Entry \<Rightarrow> candidate list" where
  "cookies_only = candidatesOf (\<lambda>content. None) (\<lambda>r. '''')"

theorem correlate_captures_before_use_witness:
  "listed (Co_substitutions (correlate cookies_only signed_in)) 1 = [\<lparr>Sb_value = ''abcd'', Sb_variable = ''sid''\<rparr>]
   \<and> founded_substitution cookies_only signed_in (correlate cookies_only signed_in) 1 \<lparr>Sb_value = ''abcd'', Sb_variable = ''sid''\<rparr>"
proof -
  have made: "listed (Co_substitutions (correlate cookies_only signed_in)) 1 = [\<lparr>Sb_value = ''abcd'', Sb_variable = ''sid''\<rparr>]" by code_simp
  then have "\<lparr>Sb_value = ''abcd'', Sb_variable = ''sid''\<rparr> \<in> set (listed (Co_substitutions (correlate cookies_only signed_in)) 1)" by simp
  from made correlate_captures_before_use[OF this] show ?thesis by blast
qed

text \<open>The comment at \<open>flatten\<close> says that correlating "1" or "ok" would rewrite half the scenario by chance; a cookie of one
  character is correlated all the same, and the digit is replaced wherever it stands in the body of the next step.\<close>

lemma short_cookie_is_correlated:
  "let groups = [\<lparr>Gr_method = ''post'', Gr_subject = ''login'', Gr_graphql = None, Gr_entries = [plain_request ''/login'' [] '''' [''v=1'']]\<rparr>,
       \<lparr>Gr_method = ''post'', Gr_subject = ''cart'', Gr_graphql = None, Gr_entries = [plain_request ''/cart'' [] ''qty=10&size=41'' []]\<rparr>]
   in apply_substitutions ''qty=10&size=41'' (listed (Co_substitutions (correlate cookies_only groups)) 1) = ''qty=${v}0&size=4${v}''"
  by code_simp

text \<open>The name of a third capture is the subject and the name whatever is taken: two captures of one step get one variable, and the
  second overwrites the first.\<close>

lemma captures_share_a_variable:
  "let first = \<lparr>Ic_Variable = ''id'', Ic_Expression = ''$.id'', Ic_Suggested = True\<rparr>;
       second = \<lparr>Ic_Variable = variableName ''id'' ''orders'' [(0, [first])], Ic_Expression = ''$.items.0.id'', Ic_Suggested = True\<rparr>
   in Ic_Variable second = ''orders_id'' \<and> variableName ''id'' ''orders'' [(0, [first, second])] = ''orders_id''"
  by code_simp

section \<open>Nothing is dropped in silence\<close>

definition passed_on :: "handled \<Rightarrow> bool" where
  "passed_on request \<longleftrightarrow> request \<noteq> NoHost \<and> request \<noteq> NotMade"

definition accounted :: "Recorder \<Rightarrow> int" where
  "accounted rec = int (length (Re_entries rec)) + gtotal (Re_dropped rec) + gtotal (Re_tunneled rec)"

lemma record_exchange_accounts:
  assumes "gmap_ok (Re_dropped rec)" "gmap_ok (Re_tunneled rec)"
  shows "gmap_ok (Re_dropped (record_exchange split_port answered rec)) \<and> Re_tunneled (record_exchange split_port answered rec) = Re_tunneled rec
    \<and> accounted (record_exchange split_port answered rec) = accounted rec + 1"
  using assms by (simp add: record_exchange_def accounted_def Let_def split: option.split)

lemma counted_accounts:
  assumes "gmap_ok (Re_dropped rec)" "gmap_ok (Re_tunneled rec)"
  shows "gmap_ok (Re_dropped (drop_exchange reason rec)) \<and> gmap_ok (Re_tunneled (drop_exchange reason rec)) \<and> accounted (drop_exchange reason rec) = accounted rec + 1"
    "gmap_ok (Re_dropped (count_tunnel split_port host rec)) \<and> gmap_ok (Re_tunneled (count_tunnel split_port host rec))
      \<and> accounted (count_tunnel split_port host rec) = accounted rec + 1"
  using assms by (simp_all add: drop_exchange_def count_tunnel_def accounted_def)

lemma handle_request_accounts:
  assumes "gmap_ok (Re_dropped rec)" "gmap_ok (Re_tunneled rec)"
  shows "gmap_ok (Re_dropped (handle_request split_port rec request)) \<and> gmap_ok (Re_tunneled (handle_request split_port rec request))
    \<and> accounted (handle_request split_port rec request) = accounted rec + (if passed_on request then 1 else 0)"
  using assms record_exchange_accounts[OF assms]
  by (cases request) (simp_all add: handle_request_def passed_on_def counted_accounts)

lemma session_accounts:
  "gmap_ok (Re_dropped rec) \<Longrightarrow> gmap_ok (Re_tunneled rec)
    \<Longrightarrow> accounted (foldl (handle_request split_port) rec requests) = accounted rec + int (length (filter passed_on requests))"
proof (induction requests arbitrary: rec)
  case (Cons request requests)
  show ?case using handle_request_accounts[OF Cons.prems, of split_port request] Cons.IH[of "handle_request split_port rec request"] by simp
qed simp

text \<open>
  C0. Nothing that passed through the proxy is dropped in silence: after any sequence of requests, in any order, the recorded
  entries, the exchanges counted as dropped with their reason and the counted tunnels are together exactly the requests that
  were passed on, that is all but those the proxy itself refused.
\<close>

theorem everything_is_recorded_or_counted:
  "accounted (foldl (handle_request split_port) (recorder_New options) requests) = int (length (filter passed_on requests))"
proof -
  have "accounted (recorder_New options) = 0" by (simp add: accounted_def recorder_New_def)
  then show ?thesis using session_accounts[of "recorder_New options" split_port requests] by (simp add: recorder_New_def)
qed

text \<open>A host given with a port is kept with it, and the host of a request is compared without: nothing of it is recorded.\<close>

lemma host_with_a_port_is_never_allowed:
  "let split_port = (\<lambda>host. if host = ''shop:8080'' then Some ''shop'' else None);
       rec = recorder_New \<lparr>Ro_Hosts = [''shop:8080''], Ro_Ignore = []\<rparr>;
       request = plain_request ''/cart'' [] '''' []
   in classify_request split_port rec (request\<lparr>En_URL := (En_URL request)\<lparr>Ru_Host := ''shop:8080''\<rparr>\<rparr>) = Some ''an outside domain (shop)''"
  by code_simp

text \<open>The paths of telemetry are compared as prefixes, not by segment: \<open>/collections\<close> and \<open>/rumors\<close> of the service are dropped.\<close>

lemma collections_are_telemetry:
  "isTelemetry ''shop'' ''/collections/42'' \<and> \<not> isTelemetry ''shop'' ''/orders/42''"
  by code_simp
end
