(* ===== verification/Dsl.thy ===== *)
theory Dsl
  imports Producers Wait Parse Validation
begin

text \<open>
  The scenario written in Go (\<open>src/dsl\<close>): the builder, its options, authentication and brokers (\<open>dsl.go\<close>) and the steps of the
  five protocols it offers (\<open>steps.go\<close>), with the configurations of those protocols as one type and their methods. A pointer
  a method changes and returns is the value it returns; \<open>json.Marshal\<close> and \<open>url.Parse\<close> are arguments. Proved: whatever the
  calls and their order, a scenario that \<open>Build\<close> gives keeps the promises a file keeps after reading, except on the load.
\<close>

section \<open>The configurations\<close>

datatype dsl_config = HttpConfig http_Config | GraphqlConfig graphql_Config | KafkaConfig kafka_Config | AmqpConfig amqp_Config | AwaitConfig wait_Config

fun config_key :: "dsl_config \<Rightarrow> string" where
  "config_key (HttpConfig c) = http_AggregationKey c"
| "config_key (GraphqlConfig c) = graphql_AggregationKey c"
| "config_key (KafkaConfig c) = kafka_AggregationKey c"
| "config_key (AmqpConfig c) = amqp_AggregationKey c"
| "config_key (AwaitConfig c) = wait_AggregationKey c"

fun config_lines :: "dsl_config \<Rightarrow> sentence list" where
  "config_lines (HttpConfig c) = http_Describe c"
| "config_lines (GraphqlConfig c) = graphql_Describe c"
| "config_lines (KafkaConfig c) = kafka_Describe c"
| "config_lines (AmqpConfig c) = amqp_Describe c"
| "config_lines (AwaitConfig c) = wait_Describe c"

fun config_brokers :: "dsl_config \<Rightarrow> (string \<times> string list) option" where
  "config_brokers (HttpConfig c) = None"
| "config_brokers (GraphqlConfig c) = None"
| "config_brokers (KafkaConfig c) = Some (''kafka'', Kg_Brokers c)"
| "config_brokers (AmqpConfig c) = Some (''amqp'', amqp_DeclaredBrokers c)"
| "config_brokers (AwaitConfig c) = Some (wait_BrokerTechnology c, Wt_Addresses c)"

text \<open>The fields of a configuration as reflection shows them; all of them are exported.\<close>

definition go_struct :: "go_value list \<Rightarrow> go_value" where
  "go_struct members = GoPointer (GoStruct (map (Pair True) members))"

definition go_headers :: "(string, string) gomap \<Rightarrow> go_value" where
  "go_headers headers = GoMap (map (\<lambda>(name, val). (GoString name, GoString val)) headers)"

fun config_value :: "dsl_config \<Rightarrow> go_value" where
  "config_value (HttpConfig c) = go_struct [GoString (Hc_Method c), GoString (Hc_Path c), go_headers (Hc_Headers c), GoBytes (Hc_Body c), GoString (Hc_ContentType c),
     GoOther, (case Hc_FollowRedirects c of None \<Rightarrow> GoNil | Some follow \<Rightarrow> GoPointer GoOther)]"
| "config_value (GraphqlConfig c) = go_struct [GoString (Gc_Operation c), GoString (Gc_Kind c), GoString (Gc_Query c), GoString (Gc_Vars c), GoString (Gc_Path c),
     go_headers (Gc_Headers c), GoOther]"
| "config_value (KafkaConfig c) = go_struct [GoString (Kg_Topic c), GoString (Kg_Key c), GoBytes (Kg_Value c), go_headers (Kg_Headers c), GoList (map GoString (Kg_Brokers c)),
     GoString (Kg_Acks c), GoOther, (case Kg_Partition c of None \<Rightarrow> GoNil | Some number \<Rightarrow> GoPointer GoOther), GoString (Kg_Group c)]"
| "config_value (AmqpConfig c) = go_struct [GoString (Aq_Exchange c), GoString (Aq_Route c), GoString (Aq_Queue c), GoBytes (Aq_Body c), GoString (Aq_Identity c),
     go_headers (Aq_Headers c), GoString (Aq_URL c), GoOther, GoOther, GoOther]"
| "config_value (AwaitConfig c) = go_struct [GoString (Wt_Source c), GoString (Wt_Topic c), GoList (map GoString (Wt_Addresses c)), GoString (Wt_Expected c),
     GoString (Wt_Field c), GoOther, GoString (Wt_Path c),
     GoStruct (map (Pair True) [GoOther, GoString (Cn_Path (Wt_To c)), GoString (Cn_Value (Wt_To c)), GoString (Cn_BodyContains (Wt_To c))]), GoOther]"

definition dsl_methods :: "(sentence \<Rightarrow> string) \<Rightarrow> dsl_config config_methods" where
  "dsl_methods sprint = \<lparr>Method_AggregationKey = config_key, Method_Describe = (\<lambda>config. Some (map sprint (config_lines config))),
     Method_Value = config_value, Method_Brokers = config_brokers\<rparr>"

text \<open>The same protocols as the reader of a file finds them.\<close>

definition decoding :: "('c \<Rightarrow> dsl_config) \<Rightarrow> (yaml_node option \<Rightarrow> sentence + 'c) \<Rightarrow> yaml_node \<Rightarrow> decode_error + dsl_config" where
  "decoding wrap decode node = (case decode (Some node) of Inl err \<Rightarrow> Inl (Unpositioned err) | Inr config \<Rightarrow> Inr (wrap config))"

definition dsl_registry :: "json_tools \<Rightarrow> ((string, string) gomap \<Rightarrow> (string, string) gomap) \<Rightarrow> dsl_config registry" where
  "dsl_registry tools visit = [(''http'', decoding HttpConfig (http_Decode tools)), (''graphql'', decoding GraphqlConfig (graphql_Decode tools)),
     (''kafka'', decoding KafkaConfig (kafka_Decode tools)), (''amqp'', decoding AmqpConfig (amqp_Decode tools)), (''await'', decoding AwaitConfig (wait_Decode visit))]"

section \<open>The steps\<close>

text \<open>A body is nothing, a text, bytes, or a structure that \<open>json.Marshal\<close> writes.\<close>

datatype 'v go_body = NoBody | TextBody string | BytesBody string | StructureBody 'v

definition serialize :: "('v \<Rightarrow> string + string) \<Rightarrow> 'v go_body \<Rightarrow> sentence + string \<times> string" where
  "serialize marshal body =
    (case body of
       NoBody \<Rightarrow> Inr ('''', '''')
     | TextBody text \<Rightarrow> Inr (text, ''text/plain'')
     | BytesBody bytes \<Rightarrow> Inr (bytes, ''text/plain'')
     | StructureBody v \<Rightarrow>
         case marshal v of
           Inl err \<Rightarrow> Inl (Sprintf ''the body does not serialize to JSON: %v'' [ArgS err])
         | Inr content \<Rightarrow> Inr (content, ''application/json''))"

text \<open>A step under construction: the configuration so far and the last error.\<close>

record 'c making =
  Mk_config :: 'c
  Mk_err :: "sentence option"

definition making :: "'c \<Rightarrow> 'c making" where "making config = \<lparr>Mk_config = config, Mk_err = None\<rparr>"

definition HTTP :: "string \<Rightarrow> string \<Rightarrow> http_Config making" where
  "HTTP verb path = making (http_Default\<lparr>Hc_Method := ToUpper verb, Hc_Path := path\<rparr>)"

definition HTTP_Header :: "string \<Rightarrow> string \<Rightarrow> http_Config making \<Rightarrow> http_Config making" where
  "HTTP_Header name val step = step\<lparr>Mk_config := (Mk_config step)\<lparr>Hc_Headers := gput (Hc_Headers (Mk_config step)) name val\<rparr>\<rparr>"

definition HTTP_Body :: "('v \<Rightarrow> string + string) \<Rightarrow> 'v go_body \<Rightarrow> http_Config making \<Rightarrow> http_Config making" where
  "HTTP_Body marshal body step =
    (case serialize marshal body of
       Inl err \<Rightarrow> step\<lparr>Mk_err := Some err\<rparr>
     | Inr (content, kind) \<Rightarrow> step\<lparr>Mk_config := (Mk_config step)\<lparr>Hc_Body := content, Hc_ContentType := kind\<rparr>\<rparr>)"

definition HTTP_Timeout :: "Duration \<Rightarrow> http_Config making \<Rightarrow> http_Config making" where
  "HTTP_Timeout timeout step = step\<lparr>Mk_config := (Mk_config step)\<lparr>Hc_Timeout := timeout\<rparr>\<rparr>"

definition HTTP_FollowRedirects :: "bool \<Rightarrow> http_Config making \<Rightarrow> http_Config making" where
  "HTTP_FollowRedirects follow step = step\<lparr>Mk_config := (Mk_config step)\<lparr>Hc_FollowRedirects := Some follow\<rparr>\<rparr>"

definition GraphQL :: "string \<Rightarrow> graphql_Config making" where "GraphQL query = making (graphql_Default\<lparr>Gc_Query := query\<rparr>)"

definition GraphQL_Operation :: "string \<Rightarrow> graphql_Config making \<Rightarrow> graphql_Config making" where
  "GraphQL_Operation name step = step\<lparr>Mk_config := (Mk_config step)\<lparr>Gc_Operation := name\<rparr>\<rparr>"

definition GraphQL_Vars :: "('v \<Rightarrow> string + string) \<Rightarrow> 'v \<Rightarrow> graphql_Config making \<Rightarrow> graphql_Config making" where
  "GraphQL_Vars marshal vars step =
    (case marshal vars of
       Inl err \<Rightarrow> step\<lparr>Mk_err := Some (Sprintf ''the graphql variables do not serialize to JSON: %v'' [ArgS err])\<rparr>
     | Inr content \<Rightarrow> step\<lparr>Mk_config := (Mk_config step)\<lparr>Gc_Vars := content\<rparr>\<rparr>)"

definition GraphQL_Path :: "string \<Rightarrow> graphql_Config making \<Rightarrow> graphql_Config making" where
  "GraphQL_Path path step = step\<lparr>Mk_config := (Mk_config step)\<lparr>Gc_Path := path\<rparr>\<rparr>"

definition GraphQL_Header :: "string \<Rightarrow> string \<Rightarrow> graphql_Config making \<Rightarrow> graphql_Config making" where
  "GraphQL_Header name val step = step\<lparr>Mk_config := (Mk_config step)\<lparr>Gc_Headers := gput (Gc_Headers (Mk_config step)) name val\<rparr>\<rparr>"

definition GraphQL_Timeout :: "Duration \<Rightarrow> graphql_Config making \<Rightarrow> graphql_Config making" where
  "GraphQL_Timeout timeout step = step\<lparr>Mk_config := (Mk_config step)\<lparr>Gc_Timeout := timeout\<rparr>\<rparr>"

definition Kafka :: "string \<Rightarrow> kafka_Config making" where "Kafka topic = making (kafka_Default\<lparr>Kg_Topic := topic\<rparr>)"

definition Kafka_Key :: "string \<Rightarrow> kafka_Config making \<Rightarrow> kafka_Config making" where
  "Kafka_Key key step = step\<lparr>Mk_config := (Mk_config step)\<lparr>Kg_Key := key\<rparr>\<rparr>"

definition Kafka_Value :: "('v \<Rightarrow> string + string) \<Rightarrow> 'v go_body \<Rightarrow> kafka_Config making \<Rightarrow> kafka_Config making" where
  "Kafka_Value marshal body step =
    (case serialize marshal body of
       Inl err \<Rightarrow> step\<lparr>Mk_err := Some err\<rparr>
     | Inr (content, kind) \<Rightarrow> step\<lparr>Mk_config := (Mk_config step)\<lparr>Kg_Value := content\<rparr>\<rparr>)"

definition Kafka_Header :: "string \<Rightarrow> string \<Rightarrow> kafka_Config making \<Rightarrow> kafka_Config making" where
  "Kafka_Header name val step = step\<lparr>Mk_config := (Mk_config step)\<lparr>Kg_Headers := gput (Kg_Headers (Mk_config step)) name val\<rparr>\<rparr>"

definition Kafka_Brokers :: "string list \<Rightarrow> kafka_Config making \<Rightarrow> kafka_Config making" where
  "Kafka_Brokers brokers step = step\<lparr>Mk_config := (Mk_config step)\<lparr>Kg_Brokers := brokers\<rparr>\<rparr>"

definition Kafka_Acks :: "string \<Rightarrow> kafka_Config making \<Rightarrow> kafka_Config making" where
  "Kafka_Acks acks step =
    (if acks \<in> {''all'', ''leader'', ''none''} then step\<lparr>Mk_config := (Mk_config step)\<lparr>Kg_Acks := acks\<rparr>\<rparr>
     else step\<lparr>Mk_err := Some (Sprintf ''unknown acks: %q (use all, leader or none)'' [ArgS acks])\<rparr>)"

definition Kafka_Timeout :: "Duration \<Rightarrow> kafka_Config making \<Rightarrow> kafka_Config making" where
  "Kafka_Timeout timeout step = step\<lparr>Mk_config := (Mk_config step)\<lparr>Kg_Timeout := timeout\<rparr>\<rparr>"

definition Kafka_Partition :: "int \<Rightarrow> kafka_Config making \<Rightarrow> kafka_Config making" where
  "Kafka_Partition number step =
    (if number < 0 then step\<lparr>Mk_err := Some (Sprintf ''invalid partition: %d (use a number, like 0 or 3)'' [ArgD number])\<rparr>
     else step\<lparr>Mk_config := (Mk_config step)\<lparr>Kg_Partition := Some number\<rparr>\<rparr>)"

definition Kafka_Group :: "string \<Rightarrow> kafka_Config making \<Rightarrow> kafka_Config making" where
  "Kafka_Group watched step = step\<lparr>Mk_config := (Mk_config step)\<lparr>Kg_Group := watched\<rparr>\<rparr>"

definition AMQP :: "string \<Rightarrow> amqp_Config making" where "AMQP queue = making (amqp_Default\<lparr>Aq_Queue := queue, Aq_Route := queue\<rparr>)"

definition Exchange :: "string \<Rightarrow> string \<Rightarrow> amqp_Config making" where
  "Exchange exchanged route = making (amqp_Default\<lparr>Aq_Exchange := exchanged, Aq_Route := route\<rparr>)"

definition AMQP_Body :: "('v \<Rightarrow> string + string) \<Rightarrow> 'v go_body \<Rightarrow> amqp_Config making \<Rightarrow> amqp_Config making" where
  "AMQP_Body marshal body step =
    (case serialize marshal body of
       Inl err \<Rightarrow> step\<lparr>Mk_err := Some err\<rparr>
     | Inr (content, kind) \<Rightarrow> step\<lparr>Mk_config := (Mk_config step)\<lparr>Aq_Body := content\<rparr>\<rparr>)"

definition AMQP_Identity :: "string \<Rightarrow> amqp_Config making \<Rightarrow> amqp_Config making" where
  "AMQP_Identity identity step = step\<lparr>Mk_config := (Mk_config step)\<lparr>Aq_Identity := identity\<rparr>\<rparr>"

definition AMQP_Header :: "string \<Rightarrow> string \<Rightarrow> amqp_Config making \<Rightarrow> amqp_Config making" where
  "AMQP_Header name val step = step\<lparr>Mk_config := (Mk_config step)\<lparr>Aq_Headers := gput (Aq_Headers (Mk_config step)) name val\<rparr>\<rparr>"

definition AMQP_URL :: "string \<Rightarrow> amqp_Config making \<Rightarrow> amqp_Config making" where
  "AMQP_URL url step = step\<lparr>Mk_config := (Mk_config step)\<lparr>Aq_URL := url\<rparr>\<rparr>"

definition AMQP_Persistent :: "bool \<Rightarrow> amqp_Config making \<Rightarrow> amqp_Config making" where
  "AMQP_Persistent persistent step = step\<lparr>Mk_config := (Mk_config step)\<lparr>Aq_Persistent := persistent\<rparr>\<rparr>"

definition AMQP_Confirm :: "bool \<Rightarrow> amqp_Config making \<Rightarrow> amqp_Config making" where
  "AMQP_Confirm confirm step = step\<lparr>Mk_config := (Mk_config step)\<lparr>Aq_Confirm := confirm\<rparr>\<rparr>"

definition AMQP_Timeout :: "Duration \<Rightarrow> amqp_Config making \<Rightarrow> amqp_Config making" where
  "AMQP_Timeout timeout step = step\<lparr>Mk_config := (Mk_config step)\<lparr>Aq_Timeout := timeout\<rparr>\<rparr>"

definition WaitForKafka :: "string \<Rightarrow> wait_Config making" where "WaitForKafka topic = making (wait_Default\<lparr>Wt_Source := ''kafka'', Wt_Topic := topic\<rparr>)"

definition WaitForHTTP :: "string \<Rightarrow> wait_Config making" where "WaitForHTTP path = making (wait_Default\<lparr>Wt_Source := ''http'', Wt_Path := path\<rparr>)"

definition WaitForAMQP :: "string \<Rightarrow> wait_Config making" where "WaitForAMQP queue = making (wait_Default\<lparr>Wt_Source := ''amqp'', Wt_Topic := queue\<rparr>)"

definition Wait_Key :: "string \<Rightarrow> wait_Config making \<Rightarrow> wait_Config making" where
  "Wait_Key expected step = step\<lparr>Mk_config := (Mk_config step)\<lparr>Wt_Expected := expected\<rparr>\<rparr>"

definition Wait_Field :: "string \<Rightarrow> wait_Config making \<Rightarrow> wait_Config making" where
  "Wait_Field field step = step\<lparr>Mk_config := (Mk_config step)\<lparr>Wt_Field := field\<rparr>\<rparr>"

definition Wait_Addresses :: "string list \<Rightarrow> wait_Config making \<Rightarrow> wait_Config making" where
  "Wait_Addresses addresses step = step\<lparr>Mk_config := (Mk_config step)\<lparr>Wt_Addresses := addresses\<rparr>\<rparr>"

definition UntilJSON :: "string \<Rightarrow> string \<Rightarrow> wait_Config making \<Rightarrow> wait_Config making" where
  "UntilJSON path val step = step\<lparr>Mk_config := (Mk_config step)\<lparr>Wt_To := noCondition\<lparr>Cn_Path := path, Cn_Value := val\<rparr>\<rparr>\<rparr>"

definition UntilStatus :: "int \<Rightarrow> wait_Config making \<Rightarrow> wait_Config making" where
  "UntilStatus status step = step\<lparr>Mk_config := (Mk_config step)\<lparr>Wt_To := noCondition\<lparr>Cn_Status := status\<rparr>\<rparr>\<rparr>"

definition UntilBodyContains :: "string \<Rightarrow> wait_Config making \<Rightarrow> wait_Config making" where
  "UntilBodyContains fragment step = step\<lparr>Mk_config := (Mk_config step)\<lparr>Wt_To := noCondition\<lparr>Cn_BodyContains := fragment\<rparr>\<rparr>\<rparr>"

definition Wait_Interval :: "Duration \<Rightarrow> wait_Config making \<Rightarrow> wait_Config making" where
  "Wait_Interval interval step = step\<lparr>Mk_config := (Mk_config step)\<lparr>Wt_Interval := interval\<rparr>\<rparr>"

definition Wait_Timeout :: "Duration \<Rightarrow> wait_Config making \<Rightarrow> wait_Config making" where
  "Wait_Timeout timeout step = step\<lparr>Mk_config := (Mk_config step)\<lparr>Wt_Timeout := timeout\<rparr>\<rparr>"

text \<open>A request of \<open>Step\<close>, and what its \<open>build\<close> gives: the name of the protocol and the configuration.\<close>

datatype dsl_request = HttpStep "http_Config making" | GraphqlStep "graphql_Config making" | KafkaStep "kafka_Config making" | AmqpStep "amqp_Config making"
  | AwaitStep "wait_Config making"

definition finish_build :: "string \<Rightarrow> ('c \<Rightarrow> dsl_config) \<Rightarrow> ('c \<Rightarrow> sentence + 'c) \<Rightarrow> 'c making \<Rightarrow> sentence + string \<times> dsl_config" where
  "finish_build name wrap settle step =
    (case Mk_err step of
       Some err \<Rightarrow> Inl err
     | None \<Rightarrow> case settle (Mk_config step) of Inl err \<Rightarrow> Inl err | Inr config \<Rightarrow> Inr (name, wrap config))"

fun build_request :: "dsl_request \<Rightarrow> sentence + string \<times> dsl_config" where
  "build_request (HttpStep step) = finish_build ''http'' HttpConfig (accepted http_Validate) step"
| "build_request (GraphqlStep step) = finish_build ''graphql'' GraphqlConfig graphql_Finish step"
| "build_request (KafkaStep step) = finish_build ''kafka'' KafkaConfig (accepted kafka_Validate) step"
| "build_request (AmqpStep step) = finish_build ''amqp'' AmqpConfig (accepted amqp_Validate) step"
| "build_request (AwaitStep step) = finish_build ''await'' AwaitConfig (accepted wait_Validate) (step\<lparr>Mk_err := None\<rparr>)"

section \<open>The builder\<close>

definition PerSecond :: "real \<Rightarrow> real" where "PerSecond number = number"
definition PerMinute :: "real \<Rightarrow> real" where "PerMinute number = number / 60"
definition PerHour :: "real \<Rightarrow> real" where "PerHour number = number / 3600"

record Builder =
  Bd_scenario :: "dsl_config Spec"
  Bd_errors :: "sentence list"

definition dsl_New :: "string \<Rightarrow> Builder" where
  "dsl_New name = \<lparr>Bd_scenario = \<lparr>Spec_Name = name, Spec_Target = '''', Spec_Requires = [], Spec_MissingEnvironment = [], Spec_Vars = [], Spec_Auth = None,
     Spec_Messaging = None, Spec_TLS = None, Spec_Data = [],
     Spec_Load = \<lparr>Load_Model = OpenArrival, Load_Phases = [], Load_Users = 0, Load_For = 0, Load_ThinkTime = 0\<rparr>, Spec_Steps = [], Spec_SLO = []\<rparr>, Bd_errors = []\<rparr>"

definition noting :: "sentence \<Rightarrow> Builder \<Rightarrow> Builder" where "noting err b = b\<lparr>Bd_errors := Bd_errors b @ [err]\<rparr>"

definition scenario_upd :: "(dsl_config Spec \<Rightarrow> dsl_config Spec) \<Rightarrow> Builder \<Rightarrow> Builder" where
  "scenario_upd f b = b\<lparr>Bd_scenario := f (Bd_scenario b)\<rparr>"

definition Target :: "string \<Rightarrow> Builder \<Rightarrow> Builder" where "Target target = scenario_upd (\<lambda>spec. spec\<lparr>Spec_Target := target\<rparr>)"

definition require_one :: "Builder \<Rightarrow> string \<Rightarrow> Builder" where
  "require_one b requirement =
    (if requirement \<notin> set KnownRequirements
     then noting (Sprintf ''unknown dependency: %q (use %s)'' [ArgS requirement, ArgS (Join KnownRequirements '', '')]) b
     else scenario_upd (\<lambda>spec. spec\<lparr>Spec_Requires := Spec_Requires spec @ [requirement]\<rparr>) b)"

definition Requires :: "string list \<Rightarrow> Builder \<Rightarrow> Builder" where "Requires requirements b = foldl require_one b requirements"

definition Variable :: "environ \<Rightarrow> string \<Rightarrow> string \<Rightarrow> Builder \<Rightarrow> Builder" where
  "Variable env name val = scenario_upd (\<lambda>spec. spec\<lparr>Spec_Vars := gput (Spec_Vars spec) name (ExpandFromEnv env val)\<rparr>)"

type_synonym data_option = "DataSource \<Rightarrow> DataSource"

definition Consume :: "ConsumePolicy \<Rightarrow> data_option" where "Consume policy source = source\<lparr>Data_Consume := policy\<rparr>"
definition Seed :: "int \<Rightarrow> data_option" where "Seed seed source = source\<lparr>Data_Seed := seed\<rparr>"

definition SeedFromEnv :: "environ \<Rightarrow> string \<Rightarrow> int \<Rightarrow> data_option" where
  "SeedFromEnv env name fallback source =
    (case ReadSeed env (''${'' @ name @ '':-'' @ fmt_d fallback @ ''}'') of
       Inl err \<Rightarrow> source\<lparr>Data_Seed := fallback\<rparr>
     | Inr (seed, origin) \<Rightarrow> source\<lparr>Data_Seed := seed, Data_SeedFrom := origin\<rparr>)"

definition add_source :: "DataSource \<Rightarrow> Builder \<Rightarrow> Builder" where
  "add_source source = scenario_upd (\<lambda>spec. spec\<lparr>Spec_Data := Spec_Data spec @ [source]\<rparr>)"

definition new_source :: "string \<Rightarrow> string \<Rightarrow> (string, Generator) gomap \<Rightarrow> DataSource" where
  "new_source name file generators =
    \<lparr>Data_Name = name, Data_File = file, Data_Consume = ConsumeCircular, Data_Seed = 0, Data_SeedFrom = '''', Data_Fields = generators\<rparr>"

definition with_options :: "data_option list \<Rightarrow> DataSource \<Rightarrow> DataSource" where
  "with_options options source = foldl (\<lambda>source option. option source) source options"

definition DataFromFile :: "string \<Rightarrow> string \<Rightarrow> data_option list \<Rightarrow> Builder \<Rightarrow> Builder" where
  "DataFromFile name file options = add_source (with_options options (new_source name file []))"

definition add_generated :: "string \<Rightarrow> DataSource \<Rightarrow> Builder \<Rightarrow> Builder" where
  "add_generated name source b =
    add_source source (if Data_Fields source = [] then noting (Sprintf (''the data source %q needs at least one field in '' @ apos @ ''generate'' @ apos) [ArgS name]) b else b)"

definition GeneratedData :: "string \<Rightarrow> (string, string) gomap \<Rightarrow> data_option list \<Rightarrow> Builder \<Rightarrow> Builder" where
  "GeneratedData name recipes options =
    add_generated name (with_options options (new_source name '''' (map (\<lambda>(field, recipe). (field, ParseGenerator recipe)) recipes)))"

text \<open>The long form of a generated field has the members of a \<open>Generator\<close>.\<close>

definition dsl_Generator :: "string \<Rightarrow> Generator" where "dsl_Generator recipe = \<lparr>Gen_Recipe = recipe, Gen_Format = '''', Gen_PerUse = False\<rparr>"
definition Pattern :: "string \<Rightarrow> Generator" where "Pattern written = \<lparr>Gen_Recipe = ''pattern'', Gen_Format = written, Gen_PerUse = False\<rparr>"
definition NewPerUse :: "Generator \<Rightarrow> Generator" where "NewPerUse field = field\<lparr>Gen_PerUse := True\<rparr>"

definition GeneratedFields :: "string \<Rightarrow> (string, Generator) gomap \<Rightarrow> data_option list \<Rightarrow> Builder \<Rightarrow> Builder" where
  "GeneratedFields name declared options = add_generated name (with_options options (new_source name '''' declared))"

definition dsl_phase :: "Phase \<Rightarrow> Builder \<Rightarrow> Builder" where
  "dsl_phase phase = scenario_upd (\<lambda>spec. spec\<lparr>Spec_Load := (Spec_Load spec)\<lparr>Load_Phases := Load_Phases (Spec_Load spec) @ [phase]\<rparr>\<rparr>)"

definition Ramp :: "real \<Rightarrow> real \<Rightarrow> Duration \<Rightarrow> Builder \<Rightarrow> Builder" where
  "Ramp initial final during = dsl_phase \<lparr>Ph_Kind = PhaseRamp, Ph_From = initial, Ph_To = final, Ph_For = during\<rparr>"

definition Steady :: "real \<Rightarrow> Duration \<Rightarrow> Builder \<Rightarrow> Builder" where
  "Steady rate during = dsl_phase \<lparr>Ph_Kind = PhaseSteady, Ph_From = 0, Ph_To = rate, Ph_For = during\<rparr>"

definition Spike :: "real \<Rightarrow> Duration \<Rightarrow> Builder \<Rightarrow> Builder" where
  "Spike rate during = dsl_phase \<lparr>Ph_Kind = PhaseSpike, Ph_From = 0, Ph_To = rate, Ph_For = during\<rparr>"

definition ClosedLoop :: "int \<Rightarrow> Duration \<Rightarrow> Duration \<Rightarrow> Builder \<Rightarrow> Builder" where
  "ClosedLoop users during betweenIterations = scenario_upd (\<lambda>spec. spec\<lparr>Spec_Load :=
     \<lparr>Load_Model = ClosedArrival, Load_Phases = [], Load_Users = users, Load_For = during, Load_ThinkTime = betweenIterations\<rparr>\<rparr>)"

section \<open>Options of a step\<close>

type_synonym step_option = "dsl_config Step \<Rightarrow> sentence + dsl_config Step"

definition Weight :: "int \<Rightarrow> step_option" where
  "Weight weight step =
    (if weight \<le> 0 then Inl (Sprintf ''weight has to be an integer greater than zero, and got %d'' [ArgD weight]) else Inr (step\<lparr>Step_Weight := weight\<rparr>))"

definition dsl_Name :: "string \<Rightarrow> step_option" where "dsl_Name name step = Inr (step\<lparr>Step_Name := name\<rparr>)"

definition add_capture :: "Capture \<Rightarrow> step_option" where "add_capture capture step = Inr (step\<lparr>Step_Captures := Step_Captures step @ [capture]\<rparr>)"

definition dsl_Capture :: "string \<Rightarrow> string \<Rightarrow> step_option" where
  "dsl_Capture name expression step = bind_ok (ParseCapture name expression) (\<lambda>capture. add_capture capture step)"

definition CaptureWithDefault :: "string \<Rightarrow> string \<Rightarrow> string \<Rightarrow> step_option" where
  "CaptureWithDefault name expression fallback step =
    bind_ok (ParseCapture name expression) (\<lambda>capture. add_capture (capture\<lparr>Cap_Default := fallback, Cap_Required := False\<rparr>) step)"

definition dsl_CheckStatus :: "int \<Rightarrow> step_option" where
  "dsl_CheckStatus status step = Inr (step\<lparr>Step_Checks := Step_Checks step @ [\<lparr>Check_Kind = CheckStatus, Check_Status = status, Check_Text = ''''\<rparr>]\<rparr>)"

definition add_assertion :: "Assertion \<Rightarrow> step_option" where
  "add_assertion assertion step = Inr (step\<lparr>Step_Assertions := Step_Assertions step @ [assertion]\<rparr>)"

definition CheckBodyContains :: "string \<Rightarrow> step_option" where
  "CheckBodyContains fragment = add_assertion \<lparr>As_Kind = AssertBodyContains, As_Target = '''', As_Operator = OpNone, As_Value = fragment\<rparr>"

definition CheckBodyMatches :: "string \<Rightarrow> step_option" where
  "CheckBodyMatches pattern = add_assertion \<lparr>As_Kind = AssertRegex, As_Target = '''', As_Operator = OpNone, As_Value = pattern\<rparr>"

definition CheckJSON :: "string \<Rightarrow> string \<Rightarrow> step_option" where
  "CheckJSON path comparison = add_assertion ((ParseComparison path comparison)\<lparr>As_Kind := AssertJSON\<rparr>)"

definition CheckHeader :: "string \<Rightarrow> string \<Rightarrow> step_option" where
  "CheckHeader name val = add_assertion \<lparr>As_Kind = AssertHeader, As_Target = name, As_Operator = OpEqual, As_Value = val\<rparr>"

fun apply_options :: "step_option list \<Rightarrow> step_option" where
  "apply_options [] step = Inr step"
| "apply_options (option # options) step = bind_ok (option step) (apply_options options)"

definition buildStep :: "dsl_request option \<Rightarrow> step_option list \<Rightarrow> sentence + dsl_config Step" where
  "buildStep request options =
    (case request of
       None \<Rightarrow> Inl (Plain ''step with no request'')
     | Some request \<Rightarrow> bind_ok (build_request request) (\<lambda>(protocolName, config).
         bind_ok (apply_options options \<lparr>Step_Name = '''', Step_Protocol = protocolName, Step_Config = Some config, Step_Weight = 0, Step_Checks = [], Step_Captures = [], Step_Assertions = []\<rparr>)
           (\<lambda>step. Inr (if Step_Name step = '''' then step\<lparr>Step_Name := config_key config\<rparr> else step))))"

definition dsl_Step :: "dsl_request option \<Rightarrow> step_option list \<Rightarrow> Builder \<Rightarrow> Builder" where
  "dsl_Step request options b =
    (case buildStep request options of
       Inl err \<Rightarrow> noting err b
     | Inr step \<Rightarrow> scenario_upd (\<lambda>spec. spec\<lparr>Spec_Steps := Spec_Steps spec @ [step]\<rparr>) b)"

definition dsl_SLO :: "string \<Rightarrow> string \<Rightarrow> string \<Rightarrow> Builder \<Rightarrow> Builder" where
  "dsl_SLO step metric limit b =
    (case ParseSLORule step metric limit of
       Inl err \<Rightarrow> noting err b
     | Inr rule \<Rightarrow> scenario_upd (\<lambda>spec. spec\<lparr>Spec_SLO := Spec_SLO spec @ [rule]\<rparr>) b)"

definition OverallSLO :: "string \<Rightarrow> string \<Rightarrow> Builder \<Rightarrow> Builder" where "OverallSLO = dsl_SLO ''global''"
definition JourneySLO :: "string \<Rightarrow> string \<Rightarrow> Builder \<Rightarrow> Builder" where "JourneySLO = dsl_SLO ''journey''"
definition RegressionSLO :: "string \<Rightarrow> string \<Rightarrow> Builder \<Rightarrow> Builder" where "RegressionSLO = dsl_SLO ''regression''"

section \<open>Authentication and brokers\<close>

record Authenticator =
  Au_auth :: "dsl_config Auth"
  Au_err :: "sentence option"

definition plain_auth :: "AuthKind \<Rightarrow> dsl_config Auth" where
  "plain_auth kind = \<lparr>Auth_Kind = kind, Auth_Obtain = None, Auth_RefreshAfter = 0, Auth_Header = '''', Auth_User = '''', Auth_Password = ''''\<rparr>"

text \<open>The zero kind of an authenticator that failed is no kind at all; it is never read, for the error comes first.\<close>

definition WithToken :: "dsl_request option \<Rightarrow> step_option list \<Rightarrow> Authenticator" where
  "WithToken request options =
    (case buildStep request options of
       Inl err \<Rightarrow> \<lparr>Au_auth = plain_auth AuthHeader, Au_err = Some err\<rparr>
     | Inr step \<Rightarrow> \<lparr>Au_auth = (plain_auth AuthToken)\<lparr>Auth_Obtain := Some (step\<lparr>Step_Name := ''obtain auth''\<rparr>)\<rparr>, Au_err = None\<rparr>)"

definition dsl_Basic :: "string \<Rightarrow> string \<Rightarrow> Authenticator" where
  "dsl_Basic user password = \<lparr>Au_auth = (plain_auth AuthBasic)\<lparr>Auth_User := user, Auth_Password := password\<rparr>, Au_err = None\<rparr>"

definition WithHeaderAuth :: "string \<Rightarrow> Authenticator" where
  "WithHeaderAuth header = \<lparr>Au_auth = (plain_auth AuthHeader)\<lparr>Auth_Header := header\<rparr>, Au_err = None\<rparr>"

definition dsl_RefreshAfter :: "Duration \<Rightarrow> Authenticator \<Rightarrow> Authenticator" where
  "dsl_RefreshAfter interval a = a\<lparr>Au_auth := (Au_auth a)\<lparr>Auth_RefreshAfter := interval\<rparr>\<rparr>"

definition Auth_with_Header :: "string \<Rightarrow> Authenticator \<Rightarrow> Authenticator" where
  "Auth_with_Header header a = a\<lparr>Au_auth := (Au_auth a)\<lparr>Auth_Header := header\<rparr>\<rparr>"

definition dsl_Auth :: "Authenticator \<Rightarrow> Builder \<Rightarrow> Builder" where
  "dsl_Auth a b =
    (case Au_err a of
       Some err \<Rightarrow> noting err b
     | None \<Rightarrow>
         let auth = Au_auth a
         in if Auth_Kind auth = AuthToken \<and> Auth_Obtain auth = None then noting (Plain ''token auth needs the request that returns the token'') b
            else if Auth_Kind auth = AuthBasic \<and> (Auth_User auth = '''' \<or> Auth_Password auth = '''') then noting (Plain ''basic auth needs a user and a password'') b
            else let auth = (if Auth_Header auth = '''' \<and> Auth_Kind auth \<noteq> AuthBasic then auth\<lparr>Auth_Header := ''Authorization: Bearer ${token}''\<rparr> else auth)
              in scenario_upd (\<lambda>spec. spec\<lparr>Spec_Auth := Some auth\<rparr>) b)"

record broker_making =
  Bk_broker :: Broker
  Bk_err :: "sentence option"

definition no_auth :: BrokerAuth where
  "no_auth = \<lparr>BA_Kind = '''', BA_User = '''', BA_UserVar = '''', BA_PasswordVar = '''', BA_Password = '''', BA_Region = ''''\<rparr>"

definition BrokerAt :: "string list \<Rightarrow> broker_making" where
  "BrokerAt addresses = \<lparr>Bk_broker = \<lparr>Br_Addresses = addresses, Br_Auth = no_auth, Br_TLS = \<lparr>TLS_Enabled = False, TLS_CA = '''', TLS_Certificate = '''', TLS_Key = ''''\<rparr>\<rparr>, Bk_err = None\<rparr>"

definition broker_credential :: "environ \<Rightarrow> string \<Rightarrow> string \<Rightarrow> string \<Rightarrow> broker_making \<Rightarrow> broker_making" where
  "broker_credential env kind user passwordVar m =
    (case EnvironmentVariable passwordVar of (name, reference) \<Rightarrow>
       if \<not> reference
       then m\<lparr>Bk_err := Some (Sprintf ''the broker password has to be a reference to an environment variable, like \"${KAFKA_PASSWORD}\", and got %q'' [ArgS passwordVar])\<rparr>
       else m\<lparr>Bk_broker := (Bk_broker m)\<lparr>Br_Auth := no_auth\<lparr>BA_Kind := kind, BA_UserVar := fst (EnvironmentVariable user), BA_User := ExpandFromEnv env user,
               BA_PasswordVar := name, BA_Password := ExpandFromEnv env passwordVar\<rparr>\<rparr>\<rparr>)"

definition dsl_Plain :: "environ \<Rightarrow> string \<Rightarrow> string \<Rightarrow> broker_making \<Rightarrow> broker_making" where "dsl_Plain env = broker_credential env SaslPlain"
definition dsl_SCRAM256 :: "environ \<Rightarrow> string \<Rightarrow> string \<Rightarrow> broker_making \<Rightarrow> broker_making" where "dsl_SCRAM256 env = broker_credential env SCRAM256"
definition dsl_SCRAM512 :: "environ \<Rightarrow> string \<Rightarrow> string \<Rightarrow> broker_making \<Rightarrow> broker_making" where "dsl_SCRAM512 env = broker_credential env SCRAM512"

definition broker_tls :: "(TLS \<Rightarrow> TLS) \<Rightarrow> broker_making \<Rightarrow> broker_making" where
  "broker_tls f m = m\<lparr>Bk_broker := (Bk_broker m)\<lparr>Br_TLS := f ((Br_TLS (Bk_broker m))\<lparr>TLS_Enabled := True\<rparr>)\<rparr>\<rparr>"

definition dsl_MSKIAM :: "string \<Rightarrow> broker_making \<Rightarrow> broker_making" where
  "dsl_MSKIAM region m = broker_tls id (m\<lparr>Bk_broker := (Bk_broker m)\<lparr>Br_Auth := no_auth\<lparr>BA_Kind := MSKIAM, BA_Region := region\<rparr>\<rparr>\<rparr>)"

definition ClientCertificate :: "string \<Rightarrow> string \<Rightarrow> broker_making \<Rightarrow> broker_making" where
  "ClientCertificate certificate key m =
    broker_tls (\<lambda>tls. tls\<lparr>TLS_Certificate := certificate, TLS_Key := key\<rparr>)
      (m\<lparr>Bk_broker := (Bk_broker m)\<lparr>Br_Auth := (Br_Auth (Bk_broker m))\<lparr>BA_Kind := External\<rparr>\<rparr>\<rparr>)"

definition broker_with_TLS :: "broker_making \<Rightarrow> broker_making" where "broker_with_TLS = broker_tls id"
definition broker_with_CA :: "string \<Rightarrow> broker_making \<Rightarrow> broker_making" where "broker_with_CA path = broker_tls (\<lambda>tls. tls\<lparr>TLS_CA := path\<rparr>)"

definition TargetTLS :: "TLS \<Rightarrow> Builder \<Rightarrow> Builder" where
  "TargetTLS settings = scenario_upd (\<lambda>spec. spec\<lparr>Spec_TLS := Some (settings\<lparr>TLS_Enabled := True\<rparr>)\<rparr>)"

definition settings_of :: "dsl_config Spec \<Rightarrow> Settings" where
  "settings_of spec = (case Spec_Messaging spec of None \<Rightarrow> \<lparr>Set_Kafka = None, Set_AMQP = None\<rparr> | Some settings \<Rightarrow> settings)"

definition KafkaBroker :: "broker_making \<Rightarrow> Builder \<Rightarrow> Builder" where
  "KafkaBroker m b =
    (case Bk_err m of
       Some err \<Rightarrow> noting err b
     | None \<Rightarrow> scenario_upd (\<lambda>spec. spec\<lparr>Spec_Messaging := Some ((settings_of spec)\<lparr>Set_Kafka := Some (Bk_broker m)\<rparr>)\<rparr>) b)"

definition AMQPBroker :: "broker_making \<Rightarrow> Builder \<Rightarrow> Builder" where
  "AMQPBroker m b =
    (case Bk_err m of
       Some err \<Rightarrow> noting err b
     | None \<Rightarrow>
         case SupportsAMQP (Some (Bk_broker m)) of
           Some err \<Rightarrow> noting err b
         | None \<Rightarrow> scenario_upd (\<lambda>spec. spec\<lparr>Spec_Messaging := Some ((settings_of spec)\<lparr>Set_AMQP := Some (Bk_broker m)\<rparr>)\<rparr>) b)"

section \<open>Build\<close>

datatype build_error = Invalid "sentence list" | Problems "problem list" | Unresolved sentence

definition dsl_Build :: "(sentence \<Rightarrow> string) \<Rightarrow> environ \<Rightarrow> (string \<Rightarrow> (string \<times> string) option) \<Rightarrow> Builder \<Rightarrow> build_error + dsl_config Spec" where
  "dsl_Build sprint env parse_url b =
    (let built = (Bd_scenario b)\<lparr>Spec_Target := Interpolate env (Spec_Target (Bd_scenario b)) (Spec_Vars (Bd_scenario b))\<rparr>
     in if Bd_errors b \<noteq> [] then Inl (Invalid (Bd_errors b))
        else case Validate (dsl_methods sprint) env parse_url built of
            Some problems \<Rightarrow> Inl (Problems problems)
          | None \<Rightarrow>
              case CheckReferences (dsl_methods sprint) env built of
                Inl err \<Rightarrow> Inl (Unresolved err)
              | Inr spec \<Rightarrow> Inr spec)"

section \<open>What a program can build\<close>

text \<open>The options, authenticators, brokers and builders that calls of the package give, in any order.\<close>

inductive declared_option :: "step_option \<Rightarrow> bool" where
  "declared_option (Weight weight)"
| "declared_option (dsl_Name name)"
| "declared_option (dsl_Capture name expression)"
| "declared_option (CaptureWithDefault name expression fallback)"
| "declared_option (dsl_CheckStatus status)"
| "declared_option (CheckBodyContains fragment)"
| "declared_option (CheckBodyMatches pattern)"
| "declared_option (CheckJSON path comparison)"
| "declared_option (CheckHeader name val)"

inductive declared_auth :: "Authenticator \<Rightarrow> bool" where
  "\<forall>option \<in> set options. declared_option option \<Longrightarrow> declared_auth (WithToken request options)"
| "declared_auth (dsl_Basic user password)"
| "declared_auth (WithHeaderAuth header)"
| "declared_auth a \<Longrightarrow> declared_auth (dsl_RefreshAfter interval a)"
| "declared_auth a \<Longrightarrow> declared_auth (Auth_with_Header header a)"

inductive declared_broker :: "environ \<Rightarrow> broker_making \<Rightarrow> bool" for env where
  "declared_broker env (BrokerAt addresses)"
| "declared_broker env m \<Longrightarrow> declared_broker env (dsl_Plain env user passwordVar m)"
| "declared_broker env m \<Longrightarrow> declared_broker env (dsl_SCRAM256 env user passwordVar m)"
| "declared_broker env m \<Longrightarrow> declared_broker env (dsl_SCRAM512 env user passwordVar m)"
| "declared_broker env m \<Longrightarrow> declared_broker env (dsl_MSKIAM region m)"
| "declared_broker env m \<Longrightarrow> declared_broker env (ClientCertificate certificate key m)"
| "declared_broker env m \<Longrightarrow> declared_broker env (broker_with_TLS m)"
| "declared_broker env m \<Longrightarrow> declared_broker env (broker_with_CA path m)"

inductive declared :: "environ \<Rightarrow> Builder \<Rightarrow> bool" for env where
  New: "declared env (dsl_New name)"
| Target: "declared env b \<Longrightarrow> declared env (Target target b)"
| Requires: "declared env b \<Longrightarrow> declared env (Requires requirements b)"
| Variable: "declared env b \<Longrightarrow> declared env (Variable env name val b)"
| DataFromFile: "declared env b \<Longrightarrow> declared env (DataFromFile name file options b)"
| GeneratedData: "declared env b \<Longrightarrow> declared env (GeneratedData name recipes options b)"
| GeneratedFields: "declared env b \<Longrightarrow> declared env (GeneratedFields name generators options b)"
| Ramp: "declared env b \<Longrightarrow> declared env (Ramp initial final during b)"
| Steady: "declared env b \<Longrightarrow> declared env (Steady rate during b)"
| Spike: "declared env b \<Longrightarrow> declared env (Spike rate during b)"
| ClosedLoop: "declared env b \<Longrightarrow> declared env (ClosedLoop users during between b)"
| Step: "declared env b \<Longrightarrow> \<forall>option \<in> set step_options. declared_option option \<Longrightarrow> declared env (dsl_Step request step_options b)"
| SLO: "declared env b \<Longrightarrow> declared env (dsl_SLO step metric limit b)"
| Auth: "declared env b \<Longrightarrow> declared_auth a \<Longrightarrow> declared env (dsl_Auth a b)"
| TargetTLS: "declared env b \<Longrightarrow> declared env (TargetTLS settings b)"
| KafkaBroker: "declared env b \<Longrightarrow> declared_broker env m \<Longrightarrow> declared env (KafkaBroker m b)"
| AMQPBroker: "declared env b \<Longrightarrow> declared_broker env m \<Longrightarrow> declared env (AMQPBroker m b)"

text \<open>What \<open>scenario_read\<close> says of a scenario that was read from a file, but for its load and the sources of its data.\<close>

definition keeps_promises :: "environ \<Rightarrow> 'c registry \<Rightarrow> 'c Spec \<Rightarrow> bool" where
  "keeps_promises env registry spec \<longleftrightarrow> (\<forall>step \<in> set (Spec_Steps spec). step_read registry step)
    \<and> (\<forall>rule \<in> set (Spec_SLO spec). measurable rule)
    \<and> (\<forall>broker \<in> set (brokers_of spec). password_from_environment env (Br_Auth broker))
    \<and> (\<forall>auth. Spec_Auth spec = Some auth \<longrightarrow> auth_read registry auth)
    \<and> set (Spec_Requires spec) \<subseteq> set KnownRequirements"

lemma option_keeps:
  assumes "declared_option option" "option step = Inr step'" "step_read registry step"
  shows "step_read registry step'"
  using assms
  by (induction option rule: declared_option.induct)
    (auto simp: step_read_def Weight_def dsl_Name_def dsl_Capture_def CaptureWithDefault_def dsl_CheckStatus_def add_capture_def add_assertion_def
      CheckBodyContains_def CheckBodyMatches_def CheckJSON_def CheckHeader_def bind_ok_def dest: ParseCapture_origin split: if_splits sum.splits,
      metis ParseCapture_origin)

lemma options_keep:
  "\<forall>option \<in> set options. declared_option option \<Longrightarrow> apply_options options step = Inr step' \<Longrightarrow> step_read registry step \<Longrightarrow> step_read registry step'"
proof (induction options arbitrary: step)
  case (Cons option options)
  from Cons.prems(2) obtain x where "option step = Inr x" "apply_options options x = Inr step'" by (auto simp: bind_ok_def split: sum.splits)
  with Cons show ?case using option_keeps by auto
qed simp

lemma registered: "build_request request = Inr (name, config) \<Longrightarrow> gget (dsl_registry tools visit) name \<noteq> None"
  by (cases request) (auto simp: finish_build_def dsl_registry_def gget_def split: option.splits sum.splits)

lemma step_read_name [simp]: "step_read registry (step\<lparr>Step_Name := name\<rparr>) = step_read registry step"
  by (simp add: step_read_def)

lemma buildStep_read:
  assumes "\<forall>option \<in> set options. declared_option option" "buildStep request options = Inr step"
  shows "step_read (dsl_registry tools visit) step"
proof -
  from assms(2) obtain r name config made where r: "request = Some r" and built: "build_request r = Inr (name, config)"
    and made: "apply_options options \<lparr>Step_Name = '''', Step_Protocol = name, Step_Config = Some config, Step_Weight = 0, Step_Checks = [], Step_Captures = [], Step_Assertions = []\<rparr> = Inr made"
    and step: "step = (if Step_Name made = '''' then made\<lparr>Step_Name := config_key config\<rparr> else made)"
    by (auto simp: buildStep_def bind_ok_def split: option.splits sum.splits)
  have "step_read (dsl_registry tools visit) made"
    by (rule options_keep[OF assms(1) made]) (use registered[OF built] in \<open>simp add: step_read_def\<close>)
  then show ?thesis by (simp add: step)
qed

lemma auth_obtains_read:
  "declared_auth a \<Longrightarrow> Auth_Obtain (Au_auth a) = Some step \<Longrightarrow> step_read (dsl_registry tools visit) step"
  by (induction a rule: declared_auth.induct)
    (auto simp: WithToken_def dsl_Basic_def WithHeaderAuth_def dsl_RefreshAfter_def Auth_with_Header_def plain_auth_def
      dest: buildStep_read split: sum.splits)

text \<open>Spaces around a reference are kept by the expansion, as in the block of a file.\<close>

lemma EnvironmentVariable_reference: "EnvironmentVariable text = (name, True) \<Longrightarrow> environmentReference (TrimSpace text)"
  by (auto simp: EnvironmentVariable_def Let_def split: if_splits)

lemma no_auth_password: "password_from_environment env no_auth"
  by (simp add: password_from_environment_def no_auth_def)

lemma password_same:
  "BA_Password auth = BA_Password auth' \<Longrightarrow> BA_PasswordVar auth = BA_PasswordVar auth' \<Longrightarrow> password_from_environment env auth = password_from_environment env auth'"
  by (simp add: password_from_environment_def)

lemma credential_password:
  assumes "password_from_environment env (Br_Auth (Bk_broker m))"
  shows "password_from_environment env (Br_Auth (Bk_broker (broker_credential env kind user passwordVar m)))"
proof (cases "EnvironmentVariable passwordVar")
  case (Pair name reference)
  show ?thesis
  proof (cases reference)
    case True
    with Pair have "environmentReference (TrimSpace passwordVar)" using EnvironmentVariable_reference by auto
    from read_password[OF this, of env "no_auth\<lparr>BA_Kind := kind, BA_UserVar := fst (EnvironmentVariable user), BA_User := ExpandFromEnv env user\<rparr>"]
    show ?thesis using Pair True by (auto simp: broker_credential_def elim: password_same[THEN iffD1, rotated 2])
  qed (use Pair assms in \<open>simp add: broker_credential_def\<close>)
qed

lemma tls_keeps_auth [simp]: "Br_Auth (Bk_broker (broker_tls f m)) = Br_Auth (Bk_broker m)"
  by (simp add: broker_tls_def)

lemma declared_broker_password: "declared_broker env m \<Longrightarrow> password_from_environment env (Br_Auth (Bk_broker m))"
proof (induction m rule: declared_broker.induct)
  case (6 m certificate key)
  then show ?case by (simp add: ClientCertificate_def password_from_environment_def)
qed (simp_all add: BrokerAt_def dsl_Plain_def dsl_SCRAM256_def dsl_SCRAM512_def dsl_MSKIAM_def broker_with_TLS_def broker_with_CA_def no_auth_password
    credential_password, simp add: password_from_environment_def no_auth_def)

lemma builder_simps [simp]:
  "Bd_scenario (noting err b) = Bd_scenario b" "Bd_scenario (scenario_upd f b) = f (Bd_scenario b)"
  by (simp_all add: noting_def scenario_upd_def)

lemma require_one_keeps: "keeps_promises env registry (Bd_scenario b) \<Longrightarrow> keeps_promises env registry (Bd_scenario (require_one b requirement))"
  by (simp add: require_one_def keeps_promises_def brokers_of_def)

lemma Requires_keeps: "keeps_promises env registry (Bd_scenario b) \<Longrightarrow> keeps_promises env registry (Bd_scenario (Requires requirements b))"
  unfolding Requires_def by (induction requirements arbitrary: b) (simp_all add: require_one_keeps)

lemma keeps_upd [simp]:
  "keeps_promises env registry (spec\<lparr>Spec_Target := target\<rparr>) = keeps_promises env registry spec"
  "keeps_promises env registry (spec\<lparr>Spec_Vars := vars\<rparr>) = keeps_promises env registry spec"
  "keeps_promises env registry (spec\<lparr>Spec_Data := sources\<rparr>) = keeps_promises env registry spec"
  "keeps_promises env registry (spec\<lparr>Spec_Load := plan\<rparr>) = keeps_promises env registry spec"
  "keeps_promises env registry (spec\<lparr>Spec_TLS := tls\<rparr>) = keeps_promises env registry spec"
  "keeps_promises env registry (spec\<lparr>Spec_MissingEnvironment := missing\<rparr>) = keeps_promises env registry spec"
  by (simp_all add: keeps_promises_def brokers_of_def)

lemma dsl_Auth_keeps:
  assumes "keeps_promises env (dsl_registry tools visit) (Bd_scenario b)" "declared_auth a"
  shows "keeps_promises env (dsl_registry tools visit) (Bd_scenario (dsl_Auth a b))"
  using assms auth_obtains_read[OF assms(2)]
  by (auto simp: dsl_Auth_def Let_def keeps_promises_def brokers_of_def auth_read_def split: option.split)

lemma brokers_keep:
  assumes "keeps_promises env registry spec" "password_from_environment env (Br_Auth broker)"
  shows "keeps_promises env registry (spec\<lparr>Spec_Messaging := Some ((settings_of spec)\<lparr>Set_Kafka := Some broker\<rparr>)\<rparr>)"
    "keeps_promises env registry (spec\<lparr>Spec_Messaging := Some ((settings_of spec)\<lparr>Set_AMQP := Some broker\<rparr>)\<rparr>)"
  using assms by (auto simp: keeps_promises_def brokers_of_def settings_of_def split: option.splits)

lemma declared_keeps: "declared env b \<Longrightarrow> keeps_promises env (dsl_registry tools visit) (Bd_scenario b)"
proof (induction b rule: declared.induct)
  case (New name)
  show ?case by (simp add: dsl_New_def keeps_promises_def brokers_of_def)
next
  case (Step b step_options request)
  then show ?case using buildStep_read[OF Step(2), of request]
    by (auto simp: dsl_Step_def keeps_promises_def brokers_of_def split: sum.split)
next
  case (SLO b step metric limit)
  then show ?case by (auto simp: dsl_SLO_def keeps_promises_def brokers_of_def dest: ParseSLORule_measurable split: sum.split)
next
  case (KafkaBroker b m)
  then show ?case using declared_broker_password[OF KafkaBroker(2)] by (auto simp: KafkaBroker_def brokers_keep split: option.split)
next
  case (AMQPBroker b m)
  then show ?case using declared_broker_password[OF AMQPBroker(2)] by (auto simp: AMQPBroker_def brokers_keep split: option.split)
qed (simp_all add: Requires_keeps dsl_Auth_keeps Target_def Variable_def DataFromFile_def GeneratedData_def GeneratedFields_def add_generated_def add_source_def
    Ramp_def Steady_def Spike_def dsl_phase_def ClosedLoop_def TargetTLS_def)

lemma runnable_missing [simp]: "runnable methods env parse_url (spec\<lparr>Spec_MissingEnvironment := missing\<rparr>) = runnable methods env parse_url spec"
proof -
  let ?spec = "spec\<lparr>Spec_MissingEnvironment := missing\<rparr>"
  have "find_chained methods ?spec produced uses = find_chained methods spec produced uses" for produced uses
    by (induction uses) (auto split: option.split)
  moreover have "captured_by ?spec = captured_by spec" by (simp add: captured_by_def)
  ultimately have chained: "chainedCaptures methods ?spec = chainedCaptures methods spec" by (simp add: chainedCaptures_def Let_def)
  have reachable: "broker_reachable methods ?spec step = broker_reachable methods spec step" for step by (simp add: broker_reachable_def)
  have mix: "HasMix ?spec = HasMix spec" by (simp add: HasMix_def)
  show ?thesis by (simp add: runnable_def chained reachable mix)
qed


section \<open>Witnesses\<close>

definition example_program :: Builder where
  "example_program = dsl_Step (Some (HttpStep (HTTP ''get'' ''/orders/1''))) [dsl_Name ''orders'', dsl_CheckStatus 200]
     (Steady (PerSecond 10) (60 * Second) (Target ''http://t'' (dsl_New ''orders'')))"

definition example_built :: "dsl_config Spec" where
  "example_built = \<lparr>Spec_Name = ''orders'', Spec_Target = ''http://t'', Spec_Requires = [], Spec_MissingEnvironment = [], Spec_Vars = [], Spec_Auth = None,
     Spec_Messaging = None, Spec_TLS = None, Spec_Data = [],
     Spec_Load = \<lparr>Load_Model = OpenArrival, Load_Phases = [\<lparr>Ph_Kind = PhaseSteady, Ph_From = 0, Ph_To = 10, Ph_For = 60 * Second\<rparr>], Load_Users = 0, Load_For = 0, Load_ThinkTime = 0\<rparr>,
     Spec_Steps = [\<lparr>Step_Name = ''orders'', Step_Protocol = ''http'', Step_Config = Some (HttpConfig (http_Default\<lparr>Hc_Path := ''/orders/1''\<rparr>)), Step_Weight = 0,
       Step_Checks = [\<lparr>Check_Kind = CheckStatus, Check_Status = 200, Check_Text = ''''\<rparr>], Step_Captures = [], Step_Assertions = []\<rparr>], Spec_SLO = []\<rparr>"

lemma example_builds: "dsl_Build (\<lambda>s. '''') (\<lambda>_. None) (\<lambda>address. Some (''http'', ''t'')) example_program = Inr example_built"
  by code_simp

lemma example_declared: "declared env example_program"
  unfolding example_program_def by (intro declared.intros) (auto intro: declared_option.intros)


section \<open>Where the two readings part\<close>

text \<open>A ramp from a negative rate is refused in a file, and accepted from Go: the validation both share looks at
  the rate of every phase but a ramp.\<close>

lemma negative_ramp_is_built:
  "\<not> isl (dsl_Build (\<lambda>s. '''') (\<lambda>_. None) (\<lambda>address. Some (''http'', ''t''))
     (dsl_Step (Some (HttpStep (HTTP ''get'' ''/orders/1''))) [] (Ramp (-10) (-5) (60 * Second) (Target ''http://t'' (dsl_New ''orders'')))))"
  by code_simp

text \<open>A variable that reads an environment variable that is not set is empty before anybody looks: nothing is missing, and nobody is told.\<close>

lemma unset_variable_is_empty:
  "(case dsl_Build (\<lambda>s. '''') (\<lambda>_. None) (\<lambda>address. Some (''http'', ''t'')) (Variable (\<lambda>_. None) ''key'' ''${API_KEY}'' example_program) of
     Inl err \<Rightarrow> False | Inr spec \<Rightarrow> Spec_Vars spec = [(''key'', '''')] \<and> Spec_MissingEnvironment spec = [])"
  by code_simp

text \<open>The phases declared before a closed loop are forgotten, and those declared after it stay in the closed plan, without a word.\<close>

lemma closed_loop_forgets_phases:
  "Load_Phases (Spec_Load (Bd_scenario (ClosedLoop 5 Second 0 (Steady 10 Second (dsl_New ''orders''))))) = []
   \<and> Bd_errors (ClosedLoop 5 Second 0 (Steady 10 Second (dsl_New ''orders''))) = []
   \<and> length (Load_Phases (Spec_Load (Bd_scenario (Steady 10 Second (ClosedLoop 5 Second 0 (dsl_New ''orders'')))))) = 1"
  by code_simp

text \<open>A literal password of basic authentication, which a file is refused for, is accepted from Go.\<close>

lemma literal_password_is_built:
  "(case dsl_Build (\<lambda>s. '''') (\<lambda>_. None) (\<lambda>address. Some (''http'', ''t'')) (dsl_Auth (dsl_Basic ''ana'' ''s3cret'') example_program) of
     Inl err \<Rightarrow> False | Inr spec \<Rightarrow> map_option Auth_Password (Spec_Auth spec) = Some ''s3cret'')"
  by code_simp
end
